(* ===== verification/Prelude.thy ===== *)
theory Prelude
  imports Main "HOL-Library.AList" "HOL-Library.List_Lexorder" "HOL-Library.Char_ord"
begin

text \<open>
  Shared vocabulary of the development.

  \<^item> \<open>py_exn\<close>: the exceptions the modelled code raises. A call that can raise
    returns \<open>py_exn + 'a\<close>; a call that can raise after it has changed state is an effect
    \<open>('s, 'a) eff\<close>, which returns the state as the raise left it.
  \<^item> Python dicts are association lists in insertion order: \<open>AList.update\<close> overwrites in
    place or appends, \<open>AList.delete\<close> removes, \<open>map_of\<close> looks up.
  \<^item> Python strings are \<open>string\<close> (characters are code points below 256).
  \<^item> Loops of the form "for x in reversed(xs): if p: n += 1 else: break" are
    \<open>count_while\<close>.
\<close>

named_theorems eff_simps "equations of the effect combinators"
named_theorems keeps_intros "preservation rules for effects"
named_theorems total_intros "rules for effects that cannot raise"

section \<open>Exceptions and fallible results\<close>

text \<open>The classes of the failures of an LLM provider.\<close>

datatype provider_error = PROVIDER_ERROR | AUTH_ERROR | RATE_LIMIT_ERROR | NETWORK_ERROR
  | PARSE_ERROR | SCHEMA_VIOLATION_ERROR

datatype py_exn =
    ValueError
  | RuntimeError
  | TypeError
  | ValidationError        \<comment> \<open>pydantic refuses a field or a validator raises\<close>
  | KeyError
  | AttributeError
  | InvalidOperation
  | IntegrityError         \<comment> \<open>sqlite3\<close>
  | FileNotFoundError
  | AlpacaError string     \<comment> \<open>the text of the exception\<close>
  | OtherError string      \<comment> \<open>an exception of an injected callable, with its text\<close>
  | ProviderError provider_error string    \<comment> \<open>a failure of an LLM provider: its class and its text\<close>
  | DataError string "nat option"
      \<comment> \<open>the exception of a market data client: its class and its HTTP status; the message is left out\<close>

type_synonym 'a res = "py_exn + 'a"

definition is_ok :: "'e + 'a \<Rightarrow> bool" where
  "is_ok r = (case r of Inl _ \<Rightarrow> False | Inr _ \<Rightarrow> True)"

lemma is_ok_simps [simp]: "\<not> is_ok (Inl e)" "is_ok (Inr x)"
  by (simp_all add: is_ok_def)

lemma is_ok_iff: "is_ok r \<longleftrightarrow> (\<exists>x. r = Inr x)"
  by (cases r) auto

definition bind_res :: "'e + 'a \<Rightarrow> ('a \<Rightarrow> 'e + 'b) \<Rightarrow> 'e + 'b" where
  "bind_res r f = (case r of Inl e \<Rightarrow> Inl e | Inr x \<Rightarrow> f x)"

lemma bind_res_simps [simp]:
  "bind_res (Inl e) f = Inl e"
  "bind_res (Inr x) f = f x"
  by (simp_all add: bind_res_def)

lemma bind_res_Inr_iff: "bind_res r f = Inr y \<longleftrightarrow> (\<exists>x. r = Inr x \<and> f x = Inr y)"
  by (cases r) auto

section \<open>Effects: state passing with exceptions\<close>

type_synonym ('s, 'a) eff = "'s \<Rightarrow> 'a res \<times> 's"

definition ret :: "'a \<Rightarrow> ('s, 'a) eff" where
  "ret x = (\<lambda>s. (Inr x, s))"

definition raise :: "py_exn \<Rightarrow> ('s, 'a) eff" where
  "raise e = (\<lambda>s. (Inl e, s))"

definition seq :: "('s, 'a) eff \<Rightarrow> ('a \<Rightarrow> ('s, 'b) eff) \<Rightarrow> ('s, 'b) eff" where
  "seq m f = (\<lambda>s. case m s of (Inl e, s') \<Rightarrow> (Inl e, s') | (Inr x, s') \<Rightarrow> f x s')"

definition gets :: "('s \<Rightarrow> 'a) \<Rightarrow> ('s, 'a) eff" where
  "gets f = (\<lambda>s. (Inr (f s), s))"

definition modify :: "('s \<Rightarrow> 's) \<Rightarrow> ('s, unit) eff" where
  "modify f = (\<lambda>s. (Inr (), f s))"

definition lift_res :: "'a res \<Rightarrow> ('s, 'a) eff" where
  "lift_res r = (\<lambda>s. (r, s))"

text \<open>A callable of the outside world that returns, and an effect on one part of the state.\<close>

definition call :: "('s \<Rightarrow> 'a \<times> 's) \<Rightarrow> ('s, 'a) eff" where
  "call f = (\<lambda>s. case f s of (x, s') \<Rightarrow> (Inr x, s'))"

definition zoom :: "('s \<Rightarrow> 't) \<Rightarrow> ('t \<Rightarrow> 's \<Rightarrow> 's) \<Rightarrow> ('t, 'a) eff \<Rightarrow> ('s, 'a) eff" where
  "zoom get put m = (\<lambda>s. case m (get s) of (r, t) \<Rightarrow> (r, put t s))"

text \<open>\<open>for x in xs: f(x)\<close>: the first raise ends the loop.\<close>

primrec for_each :: "('a \<Rightarrow> ('s, unit) eff) \<Rightarrow> 'a list \<Rightarrow> ('s, unit) eff" where
  "for_each f [] = ret ()"
| "for_each f (x # xs) = seq (f x) (\<lambda>_. for_each f xs)"

text \<open>\<open>[f(x) for x in xs]\<close> with effects.\<close>

primrec map_eff :: "('a \<Rightarrow> ('s, 'b) eff) \<Rightarrow> 'a list \<Rightarrow> ('s, 'b list) eff" where
  "map_eff f [] = ret []"
| "map_eff f (x # xs) = seq (f x) (\<lambda>y. seq (map_eff f xs) (\<lambda>ys. ret (y # ys)))"

text \<open>The call-backs registered with a component, called in the order of registration.\<close>

definition notify :: "('a \<Rightarrow> ('s, unit) eff) list \<Rightarrow> 'a \<Rightarrow> ('s, unit) eff" where
  "notify ls x = for_each (\<lambda>l. l x) ls"

text \<open>\<open>try: m finally: f\<close>, where the clean-up \<open>f\<close> cannot raise.\<close>

definition finally_do :: "('s, 'a) eff \<Rightarrow> ('s \<Rightarrow> 's) \<Rightarrow> ('s, 'a) eff" where
  "finally_do m f = (\<lambda>s. case m s of (r, s') \<Rightarrow> (r, f s'))"

text \<open>\<open>try: m except Exception as exc\<close>: the exception becomes the value.\<close>

definition try_except :: "('s, 'a) eff \<Rightarrow> ('s, py_exn + 'a) eff" where
  "try_except m = (\<lambda>s. case m s of (r, s') \<Rightarrow> (Inr r, s'))"

lemma ret_apply [simp, eff_simps]: "ret x s = (Inr x, s)"
  by (simp add: ret_def)

lemma raise_apply [simp, eff_simps]: "raise e s = (Inl e, s)"
  by (simp add: raise_def)

lemma gets_apply [simp, eff_simps]: "gets f s = (Inr (f s), s)"
  by (simp add: gets_def)

lemma modify_apply [simp, eff_simps]: "modify f s = (Inr (), f s)"
  by (simp add: modify_def)

lemma lift_res_apply [simp, eff_simps]: "lift_res r s = (r, s)"
  by (simp add: lift_res_def)

lemma seq_apply [eff_simps]:
  "seq m f s = (case m s of (Inl e, s') \<Rightarrow> (Inl e, s') | (Inr x, s') \<Rightarrow> f x s')"
  by (simp add: seq_def)

lemma call_apply [simp, eff_simps]: "call f s = (Inr (fst (f s)), snd (f s))"
  by (simp add: call_def split: prod.splits)

lemma zoom_apply [simp, eff_simps]:
  "zoom get put m s = (fst (m (get s)), put (snd (m (get s))) s)"
  by (simp add: zoom_def split: prod.splits)

lemma try_except_apply [simp]: "try_except m s = (Inr (fst (m s)), snd (m s))"
  by (simp add: try_except_def split: prod.split)

lemma seq_assoc: "seq (seq m f) g = seq m (\<lambda>x. seq (f x) g)"
  by (rule ext) (simp add: seq_def split: prod.split sum.split)

lemma seq_ok: "m s = (Inr x, s') \<Longrightarrow> seq m f s = f x s'"
  by (simp add: seq_apply)

lemma seq_raise: "m s = (Inl e, s') \<Longrightarrow> seq m f s = (Inl e, s')"
  by (simp add: seq_apply)

lemma finally_do_apply [simp]: "finally_do m f s = (fst (m s), f (snd (m s)))"
  by (simp add: finally_do_def split: prod.splits)

lemma seq_Inr_cases:
  assumes "seq m f s = (Inr y, t)"
  obtains x s' where "m s = (Inr x, s')" and "f x s' = (Inr y, t)"
  using assms by (auto simp: seq_apply split: prod.splits sum.splits)

lemma seq_cases:
  assumes "seq m f s = (r, t)"
  obtains (raised) e where "m s = (Inl e, t)" and "r = Inl e"
    | (ran) x s' where "m s = (Inr x, s')" and "f x s' = (r, t)"
  using assms by (auto simp: seq_apply split: prod.splits sum.splits)

text \<open>An effect keeps a predicate when it holds after it, raised or not.\<close>

definition keeps :: "('s \<Rightarrow> bool) \<Rightarrow> ('s, 'a) eff \<Rightarrow> bool" where
  "keeps P m \<longleftrightarrow> (\<forall>s. P s \<longrightarrow> P (snd (m s)))"

lemma keepsI: "(\<And>s. P s \<Longrightarrow> P (snd (m s))) \<Longrightarrow> keeps P m"
  by (simp add: keeps_def)

lemma keepsD: "keeps P m \<Longrightarrow> P s \<Longrightarrow> m s = (r, t) \<Longrightarrow> P t"
  by (metis keeps_def snd_conv)

lemma keeps_ret [keeps_intros]: "keeps P (ret x)"
  by (simp add: keeps_def)

lemma keeps_raise [keeps_intros]: "keeps P (raise e)"
  by (simp add: keeps_def)

lemma keeps_gets [keeps_intros]: "keeps P (gets f)"
  by (simp add: keeps_def)

lemma keeps_lift_res [keeps_intros]: "keeps P (lift_res r)"
  by (simp add: keeps_def)

lemma keeps_call: "(\<And>s. P s \<Longrightarrow> P (snd (f s))) \<Longrightarrow> keeps P (call f)"
  by (simp add: keeps_def)

lemma keeps_modify: "(\<And>s. P s \<Longrightarrow> P (f s)) \<Longrightarrow> keeps P (modify f)"
  by (simp add: keeps_def)

lemma keeps_seq [keeps_intros]:
  "keeps P m \<Longrightarrow> (\<And>x. keeps P (f x)) \<Longrightarrow> keeps P (seq m f)"
  by (auto simp: keeps_def seq_apply split: prod.splits sum.splits)

lemma keeps_for_each [keeps_intros]:
  "(\<And>x. x \<in> set xs \<Longrightarrow> keeps P (f x)) \<Longrightarrow> keeps P (for_each f xs)"
  by (induction xs) (auto intro: keeps_intros)

lemma keeps_map_eff [keeps_intros]:
  "(\<And>x. x \<in> set xs \<Longrightarrow> keeps P (f x)) \<Longrightarrow> keeps P (map_eff f xs)"
  by (induction xs) (auto intro: keeps_intros)

text \<open>A loop whose body succeeds on every remaining element, and re-establishes what the rest of
  the loop needs, succeeds.\<close>

lemma map_eff_total:
  assumes "I xs s"
    and "\<And>x xs s. I (x # xs) s \<Longrightarrow> \<exists>y t. f x s = (Inr y, t) \<and> I xs t \<and> Q x y"
  shows "\<exists>ys t. map_eff f xs s = (Inr ys, t) \<and> I [] t \<and> list_all2 Q xs ys"
  using assms(1)
proof (induction xs arbitrary: s)
  case (Cons x xs)
  from assms(2) [OF Cons.prems] obtain y t where
    one: "f x s = (Inr y, t)" "I xs t" "Q x y" by blast
  from Cons.IH [OF one(2)] obtain ys u where
    "map_eff f xs t = (Inr ys, u)" "I [] u" "list_all2 Q xs ys" by blast
  with one show ?case by (simp add: seq_apply)
qed simp

text \<open>What every successful step of a loop preserves, a successful loop preserves.\<close>

lemma map_eff_ok_invariant:
  assumes "map_eff f xs s = (Inr ys, t)" and "I xs s"
    and "\<And>x xs s y t. I (x # xs) s \<Longrightarrow> f x s = (Inr y, t) \<Longrightarrow> I xs t"
  shows "I [] t"
  using assms(1,2)
proof (induction xs arbitrary: s ys)
  case (Cons x xs)
  then obtain y u ys' where one: "f x s = (Inr y, u)" and rest: "map_eff f xs u = (Inr ys', t)"
    by (auto simp: seq_apply split: prod.splits sum.splits)
  from Cons.IH [OF rest assms(3) [OF Cons.prems(2) one]] show ?case .
qed simp

lemma keeps_notify [keeps_intros]:
  "(\<And>l. l \<in> set ls \<Longrightarrow> keeps P (l x)) \<Longrightarrow> keeps P (notify ls x)"
  by (simp add: notify_def keeps_for_each)

lemma for_each_ok:
  "(\<And>x s. x \<in> set xs \<Longrightarrow> is_ok (fst (f x s))) \<Longrightarrow> fst (for_each f xs s) = Inr ()"
proof (induction xs arbitrary: s)
  case (Cons x xs)
  obtain r t where m: "f x s = (r, t)" by (cases "f x s")
  with Cons.prems [of x s] obtain u where "r = Inr u" by (auto simp: is_ok_iff)
  with m Cons show ?case by (simp add: seq_apply)
qed simp

lemma notify_ok:
  "(\<And>l s. l \<in> set ls \<Longrightarrow> is_ok (fst (l x s))) \<Longrightarrow> fst (notify ls x s) = Inr ()"
  unfolding notify_def by (rule for_each_ok) simp

lemma keeps_if [keeps_intros]:
  "(b \<Longrightarrow> keeps P m) \<Longrightarrow> (\<not> b \<Longrightarrow> keeps P n) \<Longrightarrow> keeps P (if b then m else n)"
  by simp

lemma keeps_case_option [keeps_intros]:
  "keeps P m \<Longrightarrow> (\<And>x. keeps P (f x)) \<Longrightarrow> keeps P (case z of None \<Rightarrow> m | Some x \<Rightarrow> f x)"
  by (cases z) simp_all

lemma keeps_case_sum [keeps_intros]:
  "(\<And>x. keeps P (f x)) \<Longrightarrow> (\<And>x. keeps P (g x)) \<Longrightarrow> keeps P (case z of Inl x \<Rightarrow> f x | Inr x \<Rightarrow> g x)"
  by (cases z) simp_all

text \<open>An effect is total on \<open>P\<close> when from every state with \<open>P\<close> it returns, and \<open>P\<close> still holds.\<close>

definition total :: "('s \<Rightarrow> bool) \<Rightarrow> ('s, 'a) eff \<Rightarrow> bool" where
  "total P m \<longleftrightarrow> (\<forall>s. P s \<longrightarrow> (\<exists>x t. m s = (Inr x, t) \<and> P t))"

lemma totalI: "(\<And>s. P s \<Longrightarrow> \<exists>x t. m s = (Inr x, t) \<and> P t) \<Longrightarrow> total P m"
  by (simp add: total_def)

lemma totalD: "total P m \<Longrightarrow> P s \<Longrightarrow> \<exists>x t. m s = (Inr x, t) \<and> P t"
  by (simp add: total_def)

lemma total_ret [total_intros]: "total P (ret x)"
  by (simp add: total_def)

lemma total_gets [total_intros]: "total P (gets f)"
  by (simp add: total_def)

lemma total_modify: "(\<And>s. P s \<Longrightarrow> P (f s)) \<Longrightarrow> total P (modify f)"
  by (simp add: total_def)

lemma total_call: "(\<And>s. P s \<Longrightarrow> P (snd (f s))) \<Longrightarrow> total P (call f)"
  by (simp add: total_def)

lemma total_lift_res: "r = Inr x \<Longrightarrow> total P (lift_res r)"
  by (simp add: total_def)

lemma total_seq [total_intros]: "total P m \<Longrightarrow> (\<And>x. total P (f x)) \<Longrightarrow> total P (seq m f)"
  unfolding total_def by (metis seq_ok)

lemma total_if [total_intros]:
  "(b \<Longrightarrow> total P m) \<Longrightarrow> (\<not> b \<Longrightarrow> total P n) \<Longrightarrow> total P (if b then m else n)"
  by simp

lemma total_for_each [total_intros]:
  "(\<And>x. x \<in> set xs \<Longrightarrow> total P (f x)) \<Longrightarrow> total P (for_each f xs)"
  by (induction xs) (auto intro: total_intros)

text \<open>A value read from the state may be used as one read from a state with \<open>P\<close>.\<close>

lemma total_seq_gets: "(\<And>s. P s \<Longrightarrow> \<exists>x t. f (g s) s = (Inr x, t) \<and> P t) \<Longrightarrow> total P (seq (gets g) f)"
  by (simp add: total_def seq_apply)

section \<open>Loops over recent history\<close>

lemma find_append: "find P (xs @ ys) = (case find P xs of None \<Rightarrow> find P ys | Some x \<Rightarrow> Some x)"
  by (induction xs) simp_all

text \<open>The run at the head of a list for which a test holds: the count of a loop that breaks at
  the first failure.\<close>

primrec count_while :: "('a \<Rightarrow> bool) \<Rightarrow> 'a list \<Rightarrow> nat" where
  "count_while P [] = 0"
| "count_while P (x # xs) = (if P x then Suc (count_while P xs) else 0)"

lemma count_while_takeWhile: "count_while P xs = length (takeWhile P xs)"
  by (induction xs) auto

lemma count_while_le: "count_while P xs \<le> length xs"
  by (induction xs) auto

lemma count_while_ge_iff:
  "n \<le> count_while P xs \<longleftrightarrow> n \<le> length xs \<and> list_all P (take n xs)"
proof (induction xs arbitrary: n)
  case Nil
  then show ?case by simp
next
  case (Cons x xs)
  then show ?case by (cases n) auto
qed

lemma count_while_mono: "(\<And>x. P x \<Longrightarrow> Q x) \<Longrightarrow> count_while P xs \<le> count_while Q xs"
  by (induction xs) auto

text \<open>A \<open>deque(maxlen=n)\<close>: appending to a full one drops from the left.\<close>

definition deque_append :: "nat \<Rightarrow> 'a list \<Rightarrow> 'a \<Rightarrow> 'a list" where
  "deque_append n xs x = (let ys = xs @ [x] in drop (length ys - n) ys)"

lemma length_deque_append: "length (deque_append n xs x) \<le> n"
  by (simp add: deque_append_def Let_def)

lemma deque_append_last: "0 < n \<Longrightarrow> deque_append n xs x \<noteq> [] \<and> last (deque_append n xs x) = x"
  by (cases n) (auto simp: deque_append_def Let_def)

lemma rev_deque_append: "rev (deque_append n xs x) = take n (x # rev xs)"
proof -
  have "rev (drop (length ys - n) ys) = take n (rev ys)" for ys :: "'a list"
    by (cases "n \<le> length ys") (simp_all add: rev_drop)
  then show ?thesis
    by (metis deque_append_def rev.simps(2) rev_rev_ident)
qed

section \<open>Strings\<close>

definition digit_char :: "nat \<Rightarrow> char" where
  "digit_char d = char_of (48 + d)"

fun nat_str :: "nat \<Rightarrow> string" where
  "nat_str n = (if n < 10 then [digit_char n] else nat_str (n div 10) @ [digit_char (n mod 10)])"

declare nat_str.simps [simp del]

definition int_str :: "int \<Rightarrow> string" where
  "int_str i = (if i < 0 then ''-'' @ nat_str (nat (- i)) else nat_str (nat i))"

primrec join :: "string \<Rightarrow> string list \<Rightarrow> string" where
  "join sep [] = ''''"
| "join sep (x # xs) = (case xs of [] \<Rightarrow> x | _ # _ \<Rightarrow> x @ sep @ join sep xs)"

definition is_space :: "char \<Rightarrow> bool" where
  "is_space c = (let n = (of_char c :: nat) in n = 32 \<or> (9 \<le> n \<and> n \<le> 13) \<or> (28 \<le> n \<and> n \<le> 31)
     \<or> n = 133 \<or> n = 160)"

definition lower_char :: "char \<Rightarrow> char" where
  "lower_char c = (let n = (of_char c :: nat) in
     if (65 \<le> n \<and> n \<le> 90) \<or> (192 \<le> n \<and> n \<le> 222 \<and> n \<noteq> 215) then char_of (n + 32) else c)"

definition str_lower :: "string \<Rightarrow> string" where
  "str_lower s = map lower_char s"

text \<open>\<open>str.split()\<close> with no argument: the maximal runs without white space.\<close>

fun split_ws_aux :: "string \<Rightarrow> string \<Rightarrow> string list" where
  "split_ws_aux acc [] = (if acc = [] then [] else [rev acc])"
| "split_ws_aux acc (c # cs) =
     (if is_space c then (if acc = [] then split_ws_aux [] cs else rev acc # split_ws_aux [] cs)
      else split_ws_aux (c # acc) cs)"

definition split_ws :: "string \<Rightarrow> string list" where
  "split_ws s = split_ws_aux [] s"

definition strip_by :: "(char \<Rightarrow> bool) \<Rightarrow> string \<Rightarrow> string" where
  "strip_by P s = rev (dropWhile P (rev (dropWhile P s)))"

text \<open>\<open>str.strip()\<close>.\<close>

definition py_strip :: "string \<Rightarrow> string" where
  "py_strip s = strip_by is_space s"

lemma dropWhile_rev_dropWhile:
  "dropWhile P (rev (dropWhile P (rev (dropWhile P s)))) = rev (dropWhile P (rev (dropWhile P s)))"
proof (cases "dropWhile P s")
  case (Cons c cs)
  have c: "\<not> P c" using Cons by (metis hd_dropWhile list.distinct(1) list.sel(1))
  have "rev (dropWhile P (rev cs @ [c])) = c # rev (dropWhile P (rev cs))"
    using c by (simp add: dropWhile_append)
  then show ?thesis using c Cons by simp
next
  case Nil
  then show ?thesis by (simp only: Nil) simp
qed

lemma strip_by_idem: "strip_by P (strip_by P s) = strip_by P s"
  by (simp add: strip_by_def dropWhile_rev_dropWhile)

lemma strip_by_id:
  "s = [] \<or> (\<not> P (hd s) \<and> \<not> P (last s)) \<Longrightarrow> strip_by P s = s"
proof (cases s rule: rev_cases)
  case (snoc t c)
  assume "s = [] \<or> (\<not> P (hd s) \<and> \<not> P (last s))"
  with snoc have hd: "\<not> P (hd s)" and c: "\<not> P c" by auto
  have "dropWhile P s = s"
    using hd by (cases s) simp_all
  moreover have "dropWhile P (rev s) = rev s"
    using c snoc by simp
  ultimately show ?thesis by (simp add: strip_by_def)
qed (simp add: strip_by_def)

lemma nat_str_nonempty [simp]: "nat_str n \<noteq> []"
  by (subst nat_str.simps) simp

lemma length_join_const:
  "xs \<noteq> [] \<Longrightarrow> length (join sep xs) = sum_list (map length xs) + length sep * (length xs - 1)"
proof (induction xs)
  case (Cons x xs)
  then show ?case by (cases xs) (auto simp: algebra_simps)
qed simp

section \<open>Association lists as dicts\<close>

lemma map_of_update: "map_of (AList.update k v al) = (map_of al)(k \<mapsto> v)"
  by (rule update_conv')

lemma map_of_delete: "map_of (AList.delete k al) = (map_of al)(k := None)"
  by (rule delete_conv')

lemma distinct_keys_update:
  "distinct (map fst al) \<Longrightarrow> distinct (map fst (AList.update k v al))"
  by (rule distinct_update)

lemma distinct_keys_delete:
  "distinct (map fst al) \<Longrightarrow> distinct (map fst (AList.delete k al))"
  by (rule distinct_delete)

lemmas dict_simps = map_of_update map_of_delete distinct_keys_update distinct_keys_delete

lemma map_of_in_set: "map_of al k = Some v \<Longrightarrow> (k, v) \<in> set al"
  by (rule map_of_SomeD)

text \<open>The sum of a function over the entries of a dict, after an update.\<close>

definition dict_sum :: "('k \<Rightarrow> 'v \<Rightarrow> 'n::ab_group_add) \<Rightarrow> ('k \<times> 'v) list \<Rightarrow> 'n" where
  "dict_sum h al = sum_list (map (\<lambda>(k, v). h k v) al)"

lemma dict_sum_update:
  "distinct (map fst al) \<Longrightarrow> dict_sum h (AList.update k v al) =
     dict_sum h al - (case map_of al k of None \<Rightarrow> 0 | Some v' \<Rightarrow> h k v') + h k v"
  by (induction al) (auto simp: dict_sum_def map_of_eq_None_iff algebra_simps split: option.splits)

lemma dict_sum_delete:
  "distinct (map fst al) \<Longrightarrow> dict_sum h (AList.delete k al) =
     dict_sum h al - (case map_of al k of None \<Rightarrow> 0 | Some v' \<Rightarrow> h k v')"
proof (induction al)
  case (Cons a al)
  have "AList.delete k al = al" if "k \<notin> fst ` set al"
    using that by (simp add: delete_id)
  with Cons show ?case
    by (cases a) (auto simp: dict_sum_def map_of_eq_None_iff algebra_simps split: option.splits)
qed (simp add: dict_sum_def)

lemma set_update_subset: "set (AList.update k v al) \<subseteq> insert (k, v) (set al)"
  by (induction al) auto

lemma set_delete_subset: "set (AList.delete k al) \<subseteq> set al"
  by (auto simp: AList.delete_eq)

end
