(* ===== verification/State_Machine.thy ===== *)
theory State_Machine
  imports Prelude
begin

text \<open>
  The whitelist state machine of the orchestrator (\<open>orchestrator/state.py\<close>,
  \<open>orchestrator/state\_machine.py\<close>): the states, the transition table, the machine with its
  listeners, and the laws of its runs. Listeners are effects on a world \<open>'w\<close>; one that raises
  leaves the machine already moved.
\<close>

datatype orch_state =
    IDLE | OBSERVING | HYPOTHESIZING | SCRUTINIZING | RESEARCHING | AUDITING | DECIDING
  | REPORTING | ERROR

definition all_states :: "orch_state list" where
  "all_states = [IDLE, OBSERVING, HYPOTHESIZING, SCRUTINIZING, RESEARCHING, AUDITING, DECIDING,
     REPORTING, ERROR]"

fun state_value :: "orch_state \<Rightarrow> string" where
  "state_value IDLE = ''idle''"
| "state_value OBSERVING = ''observing''"
| "state_value HYPOTHESIZING = ''hypothesizing''"
| "state_value SCRUTINIZING = ''scrutinizing''"
| "state_value RESEARCHING = ''researching''"
| "state_value AUDITING = ''auditing''"
| "state_value DECIDING = ''deciding''"
| "state_value REPORTING = ''reporting''"
| "state_value ERROR = ''error''"

lemma all_states_complete: "s \<in> set all_states"
  by (cases s) (simp_all add: all_states_def)

lemma state_value_inj: "state_value s = state_value t \<longleftrightarrow> s = t"
  by (cases s; cases t) simp_all

definition valid_transitions :: "(orch_state \<times> orch_state) list" where
  "valid_transitions =
     [(IDLE, OBSERVING),
      (OBSERVING, HYPOTHESIZING),
      (HYPOTHESIZING, SCRUTINIZING),
      (HYPOTHESIZING, IDLE),
      (SCRUTINIZING, RESEARCHING),
      (SCRUTINIZING, IDLE),
      (RESEARCHING, AUDITING),
      (RESEARCHING, IDLE),
      (AUDITING, DECIDING),
      (AUDITING, IDLE),
      (DECIDING, REPORTING),
      (DECIDING, IDLE),
      (REPORTING, IDLE)] @
     map (\<lambda>s. (s, ERROR)) all_states @
     [(ERROR, IDLE)]"

record state_transition =
  st_src :: orch_state
  st_dst :: orch_state

record 'w machine =
  sm_state :: orch_state
  sm_listeners :: "(state_transition \<Rightarrow> ('w, unit) eff) list"

definition new_machine :: "orch_state \<Rightarrow> 'w machine" where
  "new_machine initial = \<lparr>sm_state = initial, sm_listeners = []\<rparr>"

definition is_in :: "'w machine \<Rightarrow> orch_state \<Rightarrow> bool" where
  "is_in m candidate = (sm_state m = candidate)"

definition can_transition_to :: "'w machine \<Rightarrow> orch_state \<Rightarrow> bool" where
  "can_transition_to m target = ((sm_state m, target) \<in> set valid_transitions)"

definition transition :: "orch_state \<Rightarrow> ('w machine \<times> 'w, bool) eff" where
  "transition target = (\<lambda>(m, w).
     if (sm_state m, target) \<notin> set valid_transitions then (Inr False, (m, w))
     else let r = \<lparr>st_src = sm_state m, st_dst = target\<rparr>;
              m' = m\<lparr>sm_state := target\<rparr>
          in case notify (sm_listeners m) r w of
               (Inl e, w') \<Rightarrow> (Inl e, (m', w'))
             | (Inr _, w') \<Rightarrow> (Inr True, (m', w')))"

definition on_transition ::
  "(state_transition \<Rightarrow> ('w, unit) eff) \<Rightarrow> 'w machine \<Rightarrow> 'w machine" where
  "on_transition l m = m\<lparr>sm_listeners := sm_listeners m @ [l]\<rparr>"

section \<open>One step\<close>

lemma transition_refused:
  "\<not> can_transition_to m t \<Longrightarrow> transition t (m, w) = (Inr False, (m, w))"
  by (simp add: transition_def can_transition_to_def)

lemma transition_accepted:
  "can_transition_to m t \<Longrightarrow> transition t (m, w) =
     (case notify (sm_listeners m) \<lparr>st_src = sm_state m, st_dst = t\<rparr> w of
        (Inl e, w') \<Rightarrow> (Inl e, (m\<lparr>sm_state := t\<rparr>, w'))
      | (Inr _, w') \<Rightarrow> (Inr True, (m\<lparr>sm_state := t\<rparr>, w')))"
  by (simp add: transition_def can_transition_to_def Let_def)

lemma transition_state:
  "sm_state (fst (snd (transition t (m, w)))) = (if can_transition_to m t then t else sm_state m)"
  by (auto simp: transition_refused transition_accepted split: prod.splits sum.splits)

lemma transition_listeners:
  "sm_listeners (fst (snd (transition t (m, w)))) = sm_listeners m"
  by (cases "can_transition_to m t")
    (auto simp: transition_refused transition_accepted split: prod.splits sum.splits)

lemma transition_false_iff:
  "fst (transition t (m, w)) = Inr False \<longleftrightarrow> \<not> can_transition_to m t"
  by (cases "can_transition_to m t")
    (auto simp: transition_refused transition_accepted split: prod.splits sum.splits)

lemma valid_iff: "(s, t) \<in> set valid_transitions \<longleftrightarrow>
    t = ERROR \<or> (t = IDLE \<and> s \<notin> {IDLE, OBSERVING}) \<or>
    (s, t) \<in> {(IDLE, OBSERVING), (OBSERVING, HYPOTHESIZING), (HYPOTHESIZING, SCRUTINIZING),
      (SCRUTINIZING, RESEARCHING), (RESEARCHING, AUDITING), (AUDITING, DECIDING),
      (DECIDING, REPORTING)}"
  by (cases s; cases t) (simp_all add: valid_transitions_def all_states_def)

section \<open>Runs\<close>

text \<open>The requests a caller makes, one after the other, with their results; the caller goes on
  after a refused request and after a listener's exception.\<close>

fun run_requests :: "orch_state list \<Rightarrow> 'w machine \<times> 'w \<Rightarrow> bool res list \<times> 'w machine \<times> 'w" where
  "run_requests [] mw = ([], mw)"
| "run_requests (t # ts) mw = (case transition t mw of (r, mw') \<Rightarrow>
     case run_requests ts mw' of (rs, mw'') \<Rightarrow> (r # rs, mw''))"

inductive step :: "orch_state \<Rightarrow> orch_state \<Rightarrow> bool" where
  step: "(s, t) \<in> set valid_transitions \<Longrightarrow> step s t"

inductive_simps step_iff: "step s t"

inductive_cases step_from_idle: "step IDLE t"
inductive_cases step_from_observing: "step OBSERVING t"

inductive reachable :: "orch_state \<Rightarrow> orch_state \<Rightarrow> bool" for s where
  start: "reachable s s"
| more: "reachable s t \<Longrightarrow> step t u \<Longrightarrow> reachable s u"

text \<open>The records a listener collects form a chain from one state to another.\<close>

fun chain :: "orch_state \<Rightarrow> state_transition list \<Rightarrow> orch_state \<Rightarrow> bool" where
  "chain s [] t = (s = t)"
| "chain s (r # rs) t = (st_src r = s \<and> step s (st_dst r) \<and> chain (st_dst r) rs t)"

lemma chain_append: "chain s (xs @ ys) u \<longleftrightarrow> (\<exists>t. chain s xs t \<and> chain t ys u)"
  by (induction xs arbitrary: s) auto

lemma chain_snoc: "chain s (xs @ [r]) u \<longleftrightarrow> chain s xs (st_src r) \<and> step (st_src r) u \<and> st_dst r = u"
  by (auto simp: chain_append)

text \<open>A listener that records transitions in the first part of the world, and listeners that
  leave that part alone.\<close>

definition recorder :: "state_transition \<Rightarrow> (state_transition list \<times> 'w, unit) eff" where
  "recorder r = modify (\<lambda>w. (fst w @ [r], snd w))"

definition leaves_log ::
  "(state_transition \<Rightarrow> (state_transition list \<times> 'w, unit) eff) \<Rightarrow> bool" where
  "leaves_log l \<longleftrightarrow> (\<forall>r w. fst (snd (l r w)) = fst w)"

lemma notify_leaves_log:
  assumes "\<forall>l\<in>set ls. leaves_log l"
  shows "fst (snd (notify ls r w)) = fst w"
proof -
  have "keeps (\<lambda>v. fst v = fst w) (notify ls r)"
    by (rule keeps_notify) (use assms in \<open>auto simp: keeps_def leaves_log_def\<close>)
  then show ?thesis unfolding keeps_def by blast
qed

lemma transition_log:
  assumes "sm_listeners m = recorder # ls" and "\<forall>l\<in>set ls. leaves_log l"
  shows "fst (snd (snd (transition t (m, w)))) =
    (if can_transition_to m t then fst w @ [\<lparr>st_src = sm_state m, st_dst = t\<rparr>] else fst w)"
proof (cases "can_transition_to m t")
  case True
  let ?r = "\<lparr>st_src = sm_state m, st_dst = t\<rparr>"
  have "notify (recorder # ls) ?r w = notify ls ?r (fst w @ [?r], snd w)"
    by (simp add: notify_def seq_apply recorder_def)
  with True assms show ?thesis
    using notify_leaves_log [OF assms(2), of ?r "(fst w @ [?r], snd w)"]
    by (auto simp: transition_accepted split: prod.splits sum.splits)
qed (simp add: transition_refused)

lemma run_requests_chain:
  assumes "sm_listeners m = recorder # ls" and "\<forall>l\<in>set ls. leaves_log l"
    and "run_requests ts (m, w) = (rs, (m', w'))"
  shows "\<exists>log. fst w' = fst w @ log \<and> chain (sm_state m) log (sm_state m') \<and>
    length log = length (filter (\<lambda>r. r \<noteq> Inr False) rs) \<and> length rs = length ts"
  using assms(1,3)
proof (induction ts arbitrary: m w rs)
  case Nil
  then show ?case by simp
next
  case (Cons t ts)
  obtain r m1 w1 where one: "transition t (m, w) = (r, (m1, w1))" by (metis prod_cases3)
  with Cons.prems(2) obtain rs' where rs: "rs = r # rs'"
    and rest: "run_requests ts (m1, w1) = (rs', (m', w'))"
    by (auto split: prod.splits)
  have m1: "sm_listeners m1 = recorder # ls"
    using transition_listeners [of t m w] one Cons.prems(1) by simp
  from Cons.IH [OF m1 rest] obtain log where log: "fst w' = fst w1 @ log"
    "chain (sm_state m1) log (sm_state m')"
    "length log = length (filter (\<lambda>r. r \<noteq> Inr False) rs')" "length rs' = length ts"
    by blast
  show ?case
    using transition_log [OF Cons.prems(1) assms(2), of t w] transition_state [of t m w]
      transition_false_iff [of t m w] one rs log
    by (cases "can_transition_to m t") (auto simp: can_transition_to_def step_iff)
qed

lemma reachable_to_error: "reachable s ERROR"
  by (rule reachable.more [OF reachable.start]) (simp add: step_iff valid_iff)

lemma reachable_to_idle: "reachable s IDLE"
  by (rule reachable.more [OF reachable_to_error]) (simp add: step_iff valid_iff)

text \<open>The transition log is a true history. Whatever transitions are requested of a fresh
  machine, in whatever order, the first listener is told exactly the accepted ones, even when a
  later listener raises: its records form a chain of whitelisted transitions from IDLE to the
  machine's final state, one per request that was not refused.\<close>

theorem transition_log_is_chain:
  assumes "run_requests ts (fold on_transition (recorder # ls) (new_machine IDLE), ([], w)) =
      (rs, (m', (log, w')))"
    and "\<forall>l\<in>set ls. leaves_log l"
  shows "chain IDLE log (sm_state m') \<and> length log = length (filter (\<lambda>r. r \<noteq> Inr False) rs) \<and>
    length rs = length ts"
proof -
  have "sm_listeners (fold on_transition xs m) = sm_listeners m @ xs \<and>
      sm_state (fold on_transition xs m) = sm_state m"
    for xs and m :: "(state_transition list \<times> 'a) machine"
    by (induction xs arbitrary: m) (simp_all add: on_transition_def)
  then have m: "sm_listeners (fold on_transition (recorder # ls) (new_machine IDLE)) = recorder # ls"
    "sm_state (fold on_transition (recorder # ls) (new_machine IDLE)) = IDLE"
    by (metis append_Nil machine.select_convs new_machine_def)+
  show ?thesis
    using run_requests_chain [OF m(1) assms(2,1)] m(2) by auto
qed

text \<open>A second listener that always raises.\<close>

theorem transition_log_is_chain_witness:
  "chain IDLE [\<lparr>st_src = IDLE, st_dst = OBSERVING\<rparr>, \<lparr>st_src = OBSERVING, st_dst = ERROR\<rparr>] ERROR"
proof -
  let ?l = "\<lambda>_. raise RuntimeError :: (state_transition list \<times> unit, unit) eff"
  let ?r = "run_requests [OBSERVING, DECIDING, ERROR]
      (fold on_transition (recorder # [?l]) (new_machine IDLE), ([], ()))"
  have r: "?r = ([Inl RuntimeError, Inr False, Inl RuntimeError],
      (\<lparr>sm_state = ERROR, sm_listeners = [recorder, ?l]\<rparr>,
      ([\<lparr>st_src = IDLE, st_dst = OBSERVING\<rparr>, \<lparr>st_src = OBSERVING, st_dst = ERROR\<rparr>], ())))"
    by (simp add: on_transition_def new_machine_def transition_def recorder_def Let_def
        valid_transitions_def all_states_def notify_def seq_apply)
  have "leaves_log ?l" by (simp add: leaves_log_def)
  then show ?thesis using transition_log_is_chain [OF r] by simp
qed

end
