(* ===== verification/Events.thy ===== *)
theory Events
  imports Prelude
begin

text \<open>
  Cycle events (\<open>orchestrator/events.py\<close>) and the append-only event log with its JSONL file
  (\<open>orchestrator/event\_log.py\<close>).

  The clock (\<open>datetime.now\<close>), the entropy source (\<open>secrets.token\_hex(8)\<close>) and the JSON codec
  of an event are fields of an environment; the first two act on a world \<open>'w\<close>. The log keeps the
  events in memory, the text of its file and its listeners, which are effects on the world.
\<close>

section \<open>Events\<close>

datatype event_kind =
    CYCLE_STARTED | CYCLE_COMPLETED | CYCLE_ABORTED | AGENT_INVOKED | AGENT_SUCCEEDED
  | AGENT_FAILED | STATE_TRANSITION | LOOP_DETECTED | BUDGET_EXCEEDED | POLICY_GATEWAY_APPLIED
  | BROKER_EXECUTED | BROKER_LIVE_SUBMITTED | BROKER_LIVE_FILLED | BROKER_LIVE_REJECTED
  | BROKER_LIVE_CANCELLED | BROKER_LIVE_KILL_SWITCH | IDENTIFIER_RESOLVED

text \<open>The values payloads hold.\<close>

datatype pval = PStr string | PInt int | PBool bool | PNone

definition opt_str :: "string option \<Rightarrow> pval" where
  "opt_str x = (case x of None \<Rightarrow> PNone | Some s \<Rightarrow> PStr s)"

type_synonym payload = "(string \<times> pval) list"

record cycle_event =
  ev_id :: string
  ev_cycle :: string
  ev_kind :: event_kind
  ev_time :: int
  ev_payload :: payload

record 'w env =
  env_now :: "'w \<Rightarrow> int \<times> 'w"
  env_token_hex :: "'w \<Rightarrow> string \<times> 'w"
  env_dump :: "cycle_event \<Rightarrow> string"
  env_parse :: "string \<Rightarrow> cycle_event res"

definition id_ok :: "string \<Rightarrow> bool" where
  "id_ok s = (1 \<le> length s \<and> length s \<le> 32)"

definition new_event_id :: "'w env \<Rightarrow> ('w, string) eff" where
  "new_event_id env = call (env_token_hex env)"

definition new_cycle_id :: "'w env \<Rightarrow> ('w, string) eff" where
  "new_cycle_id env = call (env_token_hex env)"

definition make_event :: "string \<Rightarrow> string \<Rightarrow> event_kind \<Rightarrow> int \<Rightarrow> payload \<Rightarrow> cycle_event res" where
  "make_event eid cid k t p =
     (if id_ok eid \<and> id_ok cid
      then Inr \<lparr>ev_id = eid, ev_cycle = cid, ev_kind = k, ev_time = t, ev_payload = p\<rparr>
      else Inl ValidationError)"

definition build_event :: "'w env \<Rightarrow> string \<Rightarrow> event_kind \<Rightarrow> payload \<Rightarrow> ('w, cycle_event) eff" where
  "build_event env cid k p =
     seq (new_event_id env) (\<lambda>eid. seq (call (env_now env)) (\<lambda>t. lift_res (make_event eid cid k t p)))"

section \<open>Typed constructors\<close>

definition cycle_started_event ::
  "'w env \<Rightarrow> string \<Rightarrow> string option \<Rightarrow> ('w, cycle_event) eff" where
  "cycle_started_event env cid observer_input_run_id =
     build_event env cid CYCLE_STARTED
       (case observer_input_run_id of None \<Rightarrow> []
        | Some r \<Rightarrow> [(''observer_input_run_id'', PStr r)])"

definition cycle_completed_event ::
  "'w env \<Rightarrow> string \<Rightarrow> string \<Rightarrow> nat \<Rightarrow> int \<Rightarrow> int \<Rightarrow> ('w, cycle_event) eff" where
  "cycle_completed_event env cid terminal_state artifacts_emitted token_in token_out =
     build_event env cid CYCLE_COMPLETED
       [(''terminal_state'', PStr terminal_state),
        (''artifacts_emitted'', PInt (int artifacts_emitted)),
        (''total_token_in'', PInt token_in),
        (''total_token_out'', PInt token_out)]"

definition cycle_aborted_event ::
  "'w env \<Rightarrow> string \<Rightarrow> string \<Rightarrow> string \<Rightarrow> ('w, cycle_event) eff" where
  "cycle_aborted_event env cid reason at_state =
     build_event env cid CYCLE_ABORTED [(''reason'', PStr reason), (''at_state'', PStr at_state)]"

definition agent_invoked_event ::
  "'w env \<Rightarrow> string \<Rightarrow> string \<Rightarrow> string \<Rightarrow> ('w, cycle_event) eff" where
  "agent_invoked_event env cid agent_name run_id =
     build_event env cid AGENT_INVOKED [(''agent_name'', PStr agent_name), (''run_id'', PStr run_id)]"

definition agent_succeeded_event ::
  "'w env \<Rightarrow> string \<Rightarrow> string \<Rightarrow> string \<Rightarrow> string \<Rightarrow> int \<Rightarrow> int \<Rightarrow> int \<Rightarrow> ('w, cycle_event) eff" where
  "agent_succeeded_event env cid agent_name run_id output_schema token_in token_out latency_ms =
     build_event env cid AGENT_SUCCEEDED
       [(''agent_name'', PStr agent_name),
        (''run_id'', PStr run_id),
        (''output_schema'', PStr output_schema),
        (''token_in'', PInt token_in),
        (''token_out'', PInt token_out),
        (''latency_ms'', PInt latency_ms)]"

definition agent_failed_event ::
  "'w env \<Rightarrow> string \<Rightarrow> string \<Rightarrow> string \<Rightarrow> string \<Rightarrow> ('w, cycle_event) eff" where
  "agent_failed_event env cid agent_name run_id err =
     build_event env cid AGENT_FAILED
       [(''agent_name'', PStr agent_name), (''run_id'', PStr run_id), (''error'', PStr err)]"

definition state_transition_event ::
  "'w env \<Rightarrow> string \<Rightarrow> string \<Rightarrow> string \<Rightarrow> ('w, cycle_event) eff" where
  "state_transition_event env cid src dst =
     build_event env cid STATE_TRANSITION [(''src'', PStr src), (''dst'', PStr dst)]"

definition loop_detected_event ::
  "'w env \<Rightarrow> string \<Rightarrow> string \<Rightarrow> string \<Rightarrow> int \<Rightarrow> string \<Rightarrow> ('w, cycle_event) eff" where
  "loop_detected_event env cid rule tool count message =
     build_event env cid LOOP_DETECTED
       [(''rule'', PStr rule), (''tool'', PStr tool), (''count'', PInt count),
        (''message'', PStr message)]"

definition budget_exceeded_event ::
  "'w env \<Rightarrow> string \<Rightarrow> string \<Rightarrow> int \<Rightarrow> int \<Rightarrow> ('w, cycle_event) eff" where
  "budget_exceeded_event env cid budget_kind consumed cap =
     build_event env cid BUDGET_EXCEEDED
       [(''budget_kind'', PStr budget_kind), (''consumed'', PInt consumed), (''cap'', PInt cap)]"

definition policy_gateway_applied_event ::
  "'w env \<Rightarrow> string \<Rightarrow> string \<Rightarrow> string \<Rightarrow> nat \<Rightarrow> ('w, cycle_event) eff" where
  "policy_gateway_applied_event env cid decision_run_id action violation_count =
     build_event env cid POLICY_GATEWAY_APPLIED
       [(''decision_run_id'', PStr decision_run_id), (''action'', PStr action),
        (''violation_count'', PInt (int violation_count))]"

definition broker_executed_event ::
  "'w env \<Rightarrow> string \<Rightarrow> string \<Rightarrow> string \<Rightarrow> nat \<Rightarrow> string option \<Rightarrow> ('w, cycle_event) eff" where
  "broker_executed_event env cid decision_run_id status fill_count reason =
     build_event env cid BROKER_EXECUTED
       [(''decision_run_id'', PStr decision_run_id), (''status'', PStr status),
        (''fill_count'', PInt (int fill_count)), (''reason'', opt_str reason)]"

definition identifier_resolved_event ::
  "'w env \<Rightarrow> string \<Rightarrow> string \<Rightarrow> string option \<Rightarrow> string option \<Rightarrow> ('w, cycle_event) eff" where
  "identifier_resolved_event env cid input_ticker canonical_issuer_id matched_kind =
     build_event env cid IDENTIFIER_RESOLVED
       [(''input_ticker'', PStr input_ticker),
        (''canonical_issuer_id'', opt_str canonical_issuer_id),
        (''matched_kind'', opt_str matched_kind)]"

definition broker_live_submitted_event ::
  "'w env \<Rightarrow> string \<Rightarrow> string \<Rightarrow> string \<Rightarrow> string \<Rightarrow> string \<Rightarrow> string \<Rightarrow> string \<Rightarrow> string
     \<Rightarrow> ('w, cycle_event) eff" where
  "broker_live_submitted_event env cid decision_run_id order_id client_order_id idempotency_key
       symbol qty side =
     build_event env cid BROKER_LIVE_SUBMITTED
       [(''decision_run_id'', PStr decision_run_id), (''order_id'', PStr order_id),
        (''client_order_id'', PStr client_order_id), (''idempotency_key'', PStr idempotency_key),
        (''symbol'', PStr symbol), (''qty'', PStr qty), (''side'', PStr side)]"

definition broker_live_rejected_event ::
  "'w env \<Rightarrow> string \<Rightarrow> string \<Rightarrow> string \<Rightarrow> string option \<Rightarrow> ('w, cycle_event) eff" where
  "broker_live_rejected_event env cid decision_run_id reason idempotency_key =
     build_event env cid BROKER_LIVE_REJECTED
       ([(''decision_run_id'', PStr decision_run_id), (''reason'', PStr reason)] @
        (case idempotency_key of None \<Rightarrow> [] | Some k \<Rightarrow> [(''idempotency_key'', PStr k)]))"

definition broker_live_filled_event ::
  "'w env \<Rightarrow> string \<Rightarrow> string \<Rightarrow> string \<Rightarrow> string \<Rightarrow> string \<Rightarrow> string \<Rightarrow> string \<Rightarrow> string \<Rightarrow> bool
     \<Rightarrow> ('w, cycle_event) eff" where
  "broker_live_filled_event env cid decision_run_id order_id client_order_id symbol side
       filled_qty filled_avg_price_usd is_partial =
     build_event env cid BROKER_LIVE_FILLED
       [(''decision_run_id'', PStr decision_run_id), (''order_id'', PStr order_id),
        (''client_order_id'', PStr client_order_id), (''symbol'', PStr symbol),
        (''side'', PStr side), (''filled_qty'', PStr filled_qty),
        (''filled_avg_price_usd'', PStr filled_avg_price_usd), (''is_partial'', PBool is_partial)]"

definition broker_live_cancelled_event ::
  "'w env \<Rightarrow> string \<Rightarrow> string \<Rightarrow> string \<Rightarrow> string \<Rightarrow> string \<Rightarrow> string \<Rightarrow> string option
     \<Rightarrow> ('w, cycle_event) eff" where
  "broker_live_cancelled_event env cid decision_run_id order_id client_order_id symbol side reason =
     build_event env cid BROKER_LIVE_CANCELLED
       ([(''decision_run_id'', PStr decision_run_id), (''order_id'', PStr order_id),
         (''client_order_id'', PStr client_order_id), (''symbol'', PStr symbol),
         (''side'', PStr side)] @
        (case reason of None \<Rightarrow> [] | Some r \<Rightarrow> [(''reason'', PStr r)]))"

definition broker_live_kill_switch_event ::
  "'w env \<Rightarrow> string \<Rightarrow> string \<Rightarrow> ('w, cycle_event) eff" where
  "broker_live_kill_switch_event env cid reason =
     build_event env cid BROKER_LIVE_KILL_SWITCH [(''reason'', PStr reason)]"

lemmas event_constructors =
  cycle_started_event_def cycle_completed_event_def cycle_aborted_event_def
  agent_invoked_event_def agent_succeeded_event_def agent_failed_event_def
  state_transition_event_def loop_detected_event_def budget_exceeded_event_def
  policy_gateway_applied_event_def broker_executed_event_def identifier_resolved_event_def
  broker_live_submitted_event_def broker_live_rejected_event_def broker_live_filled_event_def
  broker_live_cancelled_event_def broker_live_kill_switch_event_def

end
