(* ===== verification/Event_Log.thy ===== *)
theory Event_Log
  imports Events
begin

text \<open>
  The append-only event log (\<open>orchestrator/event\_log.py\<close>). The state of a running process is
  the log and the world its clock, entropy source, agents and listeners act on. The file of a
  persisted log is its text; \<open>load\_jsonl\<close> reads such a text back, line by line, with the
  universal newlines of a text file.
\<close>

section \<open>The log\<close>

record 'w event_log =
  el_events :: "cycle_event list"
  el_persist :: bool
  el_file :: "string option"
  el_listeners :: "(cycle_event \<Rightarrow> ('w, unit) eff) list"

record 'w sys =
  sys_log :: "'w event_log"
  sys_world :: 'w

definition new_log :: "bool \<Rightarrow> string option \<Rightarrow> 'w event_log" where
  "new_log persist file = \<lparr>el_events = [], el_persist = persist, el_file = file, el_listeners = []\<rparr>"

definition in_world :: "('w, 'a) eff \<Rightarrow> ('w sys, 'a) eff" where
  "in_world m = zoom sys_world (\<lambda>w. sys_world_update (\<lambda>_. w)) m"

definition newline :: char where
  "newline = CHR 0x0A"

definition carriage_return :: char where
  "carriage_return = CHR 0x0D"

definition record_event :: "'w env \<Rightarrow> cycle_event \<Rightarrow> 'w event_log \<Rightarrow> 'w event_log" where
  "record_event env e l = l\<lparr>el_events := el_events l @ [e],
     el_file := (if el_persist l
       then Some ((case el_file l of None \<Rightarrow> [] | Some t \<Rightarrow> t) @ env_dump env e @ [newline])
       else el_file l)\<rparr>"

definition append_event :: "'w env \<Rightarrow> cycle_event \<Rightarrow> ('w sys, unit) eff" where
  "append_event env e =
     seq (modify (\<lambda>s. s\<lparr>sys_log := record_event env e (sys_log s)\<rparr>)) (\<lambda>_.
     seq (gets (\<lambda>s. el_listeners (sys_log s))) (\<lambda>ls. in_world (notify ls e)))"

definition extend_events :: "'w env \<Rightarrow> cycle_event list \<Rightarrow> ('w sys, unit) eff" where
  "extend_events env es = for_each (append_event env) es"

definition on_event :: "(cycle_event \<Rightarrow> ('w, unit) eff) \<Rightarrow> 'w event_log \<Rightarrow> 'w event_log" where
  "on_event l log = log\<lparr>el_listeners := el_listeners log @ [l]\<rparr>"

definition filter_by_kind :: "event_kind \<Rightarrow> 'w event_log \<Rightarrow> cycle_event list" where
  "filter_by_kind k log = filter (\<lambda>e. ev_kind e = k) (el_events log)"

definition filter_by_cycle :: "string \<Rightarrow> 'w event_log \<Rightarrow> cycle_event list" where
  "filter_by_cycle cid log = filter (\<lambda>e. ev_cycle e = cid) (el_events log)"

text \<open>\<open>log.append(some\_event(...))\<close>.\<close>

definition emit :: "'w env \<Rightarrow> ('w, cycle_event) eff \<Rightarrow> ('w sys, unit) eff" where
  "emit env mk = seq (in_world mk) (append_event env)"

section \<open>Reading the file back\<close>

fun universal_newlines :: "string \<Rightarrow> string" where
  "universal_newlines [] = []"
| "universal_newlines [c] = [if c = carriage_return then newline else c]"
| "universal_newlines (c # d # cs) =
     (if c = carriage_return
      then newline # (if d = newline then universal_newlines cs else universal_newlines (d # cs))
      else c # universal_newlines (d # cs))"

fun lines_aux :: "string \<Rightarrow> string \<Rightarrow> string list" where
  "lines_aux acc [] = (if acc = [] then [] else [rev acc])"
| "lines_aux acc (c # cs) =
     (if c = newline then rev (c # acc) # lines_aux [] cs else lines_aux (c # acc) cs)"

definition file_lines :: "string \<Rightarrow> string list" where
  "file_lines t = lines_aux [] (universal_newlines t)"

fun load_lines :: "(string \<Rightarrow> cycle_event res) \<Rightarrow> string list \<Rightarrow> cycle_event list res" where
  "load_lines parse [] = Inr []"
| "load_lines parse (l # ls) =
     (let stripped = py_strip l in
      if stripped = [] then load_lines parse ls
      else bind_res (parse stripped) (\<lambda>e. bind_res (load_lines parse ls) (\<lambda>es. Inr (e # es))))"

definition load_jsonl :: "'w env \<Rightarrow> string option \<Rightarrow> cycle_event list res" where
  "load_jsonl env file =
     (case file of None \<Rightarrow> Inr [] | Some t \<Rightarrow> load_lines (env_parse env) (file_lines t))"

section \<open>Appending\<close>

lemma in_world_apply [simp]:
  "in_world m s = (fst (m (sys_world s)), s\<lparr>sys_world := snd (m (sys_world s))\<rparr>)"
  by (simp add: in_world_def)

lemma append_event_apply:
  "append_event env e s =
     (fst (notify (el_listeners (sys_log s)) e (sys_world s)),
      s\<lparr>sys_log := record_event env e (sys_log s),
        sys_world := snd (notify (el_listeners (sys_log s)) e (sys_world s))\<rparr>)"
  by (simp add: append_event_def seq_apply record_event_def)

lemma record_event_simps [simp]:
  "el_events (record_event env e l) = el_events l @ [e]"
  "el_persist (record_event env e l) = el_persist l"
  "el_listeners (record_event env e l) = el_listeners l"
  by (simp_all add: record_event_def)

lemma append_event_events:
  "el_events (sys_log (snd (append_event env e s))) = el_events (sys_log s) @ [e]"
  by (simp add: append_event_apply)

lemma append_event_listeners:
  "el_listeners (sys_log (snd (append_event env e s))) = el_listeners (sys_log s)"
  by (simp add: append_event_apply)

lemma emit_cases:
  assumes "emit env mk s = (r, t)"
  obtains (refused) x where "fst (mk (sys_world s)) = Inl x" and "r = Inl x" and "sys_log t = sys_log s"
    | (emitted) e where "fst (mk (sys_world s)) = Inr e"
        and "sys_log t = record_event env e (sys_log s)"
  using assms by (cases "mk (sys_world s)"; cases "fst (mk (sys_world s))")
    (auto simp: emit_def seq_apply append_event_apply)

text \<open>Events a step has added; what happens to the file and the listeners alongside.\<close>

definition log_grows :: "'w event_log \<Rightarrow> cycle_event list \<Rightarrow> 'w event_log \<Rightarrow> bool" where
  "log_grows l es l' \<longleftrightarrow> el_events l' = el_events l @ es \<and>
     el_persist l' = el_persist l \<and> el_listeners l' = el_listeners l"

lemma log_grows_refl [simp]: "log_grows l [] l"
  by (simp add: log_grows_def)

lemma log_grows_trans: "log_grows l es l' \<Longrightarrow> log_grows l' fs l'' \<Longrightarrow> log_grows l (es @ fs) l''"
  by (simp add: log_grows_def)

lemma log_grows_record [simp]: "log_grows l [e] (record_event env e l)"
  by (simp add: log_grows_def)

lemma emit_ok:
  assumes "emit env (build_event env cid k p) s = (Inr u, s')"
  shows "\<exists>e. log_grows (sys_log s) [e] (sys_log s') \<and> ev_kind e = k \<and> ev_cycle e = cid \<and> ev_payload e = p"
proof -
  from assms obtain e where e: "fst (build_event env cid k p (sys_world s)) = Inr e"
    "sys_log s' = record_event env e (sys_log s)"
    by (cases rule: emit_cases) auto
  then have "ev_kind e = k \<and> ev_cycle e = cid \<and> ev_payload e = p"
    by (auto simp: build_event_def seq_apply new_event_id_def make_event_def split: if_splits)
  with e(2) show ?thesis by (intro exI [of _ e]) simp
qed

text \<open>The clock and the entropy source leave \<open>Q\<close> true of the world; the listeners of the log do;
  it holds now.\<close>

definition env_keeps :: "('w \<Rightarrow> bool) \<Rightarrow> 'w env \<Rightarrow> bool" where
  "env_keeps Q env \<longleftrightarrow> (\<forall>w. Q w \<longrightarrow> Q (snd (env_now env w)) \<and> Q (snd (env_token_hex env w)))"

definition heard :: "('w \<Rightarrow> bool) \<Rightarrow> 'w event_log \<Rightarrow> bool" where
  "heard Q l \<longleftrightarrow> (\<forall>k\<in>set (el_listeners l). \<forall>e. keeps Q (k e))"

definition guarded :: "('w \<Rightarrow> bool) \<Rightarrow> 'w sys \<Rightarrow> bool" where
  "guarded Q s \<longleftrightarrow> Q (sys_world s) \<and> heard Q (sys_log s)"

lemma heard_record [simp]: "heard Q (record_event env e l) = heard Q l"
  by (simp add: heard_def)

lemma heard_grows: "log_grows l es l' \<Longrightarrow> heard Q l' = heard Q l"
  by (simp add: heard_def log_grows_def)

lemma heard_notify: "heard Q l \<Longrightarrow> Q w \<Longrightarrow> Q (snd (notify (el_listeners l) e w))"
  using keeps_notify [of "el_listeners l" Q e] by (simp add: heard_def keeps_def)

lemma guarded_in_world: "keeps Q m \<Longrightarrow> keeps (guarded Q) (in_world m)"
  by (simp add: keeps_def guarded_def)

lemma guarded_emit:
  assumes "env_keeps Q env"
  shows "keeps (guarded Q) (emit env (build_event env cid k p))"
proof (rule keepsI)
  fix s
  assume s: "guarded Q s"
  have world: "Q (snd (build_event env cid k p (sys_world s)))"
    using assms s by (auto simp: env_keeps_def guarded_def build_event_def new_event_id_def seq_apply)
  with s show "guarded Q (snd (emit env (build_event env cid k p) s))"
    by (auto simp: emit_def seq_apply append_event_apply guarded_def heard_notify split: prod.split sum.split)
qed

lemma guarded_emitted:
  "env_keeps Q env \<Longrightarrow> guarded Q s \<Longrightarrow> guarded Q (snd (emit env (build_event env cid k p) s))"
  using guarded_emit [of Q env cid k p] by (simp add: keeps_def)

lemma extend_events_prefix:
  "\<exists>n. log_grows (sys_log s) (take n es) (sys_log (snd (extend_events env es s))) \<and>
     (is_ok (fst (extend_events env es s)) \<longrightarrow> n = length es)"
proof (induction es arbitrary: s)
  case Nil
  then show ?case by (simp add: extend_events_def)
next
  case (Cons e es)
  obtain r t where a: "append_event env e s = (r, t)" by (cases "append_event env e s")
  then have t: "log_grows (sys_log s) [e] (sys_log t)"
    by (auto simp: append_event_apply)
  show ?case
  proof (cases r)
    case (Inl x)
    with a t show ?thesis by (intro exI [of _ 1]) (simp add: extend_events_def seq_apply)
  next
    case (Inr u)
    from Cons.IH [of t] obtain n where
      n: "log_grows (sys_log t) (take n es) (sys_log (snd (extend_events env es t)))"
      "is_ok (fst (extend_events env es t)) \<longrightarrow> n = length es" by blast
    have "extend_events env (e # es) s = extend_events env es t"
      using a Inr by (simp add: extend_events_def seq_apply)
    with n log_grows_trans [OF t n(1)] show ?thesis
      by (intro exI [of _ "Suc n"]) simp
  qed
qed

section \<open>The file replays the log\<close>

text \<open>What the code relies on of the JSON codec for an event: \<open>model\_dump\_json\<close> writes one
  compact object on one line, and \<open>model\_validate\_json\<close> reads it back.\<close>

definition json_line :: "'w env \<Rightarrow> cycle_event \<Rightarrow> bool" where
  "json_line env e = (let t = env_dump env e in
     t \<noteq> [] \<and> \<not> is_space (hd t) \<and> \<not> is_space (last t) \<and>
     newline \<notin> set t \<and> carriage_return \<notin> set t \<and> env_parse env t = Inr e)"

definition ends_line :: "string \<Rightarrow> bool" where
  "ends_line t = (t = [] \<or> last t = newline)"

lemma cr_nl [simp]: "carriage_return \<noteq> newline" "newline \<noteq> carriage_return"
  by (simp_all add: carriage_return_def newline_def)

lemma universal_newlines_append:
  "xs = [] \<or> last xs \<noteq> carriage_return \<Longrightarrow>
     universal_newlines (xs @ ys) = universal_newlines xs @ universal_newlines ys"
proof (induction xs rule: universal_newlines.induct)
  case (2 c)
  then show ?case by (cases ys) auto
qed (auto split: if_splits)

lemma universal_newlines_id: "carriage_return \<notin> set xs \<Longrightarrow> universal_newlines xs = xs"
  by (induction xs rule: universal_newlines.induct) auto

lemma lines_aux_append:
  "lines_aux acc (xs @ newline # ys) = lines_aux acc (xs @ [newline]) @ lines_aux [] ys"
  by (induction xs arbitrary: acc) simp_all

lemma lines_aux_line: "newline \<notin> set xs \<Longrightarrow> lines_aux acc (xs @ [newline]) = [rev acc @ xs @ [newline]]"
  by (induction xs arbitrary: acc) auto

lemma universal_newlines_ends:
  "xs \<noteq> [] \<Longrightarrow> last xs = newline \<Longrightarrow> universal_newlines xs \<noteq> [] \<and> last (universal_newlines xs) = newline"
  by (induction xs rule: universal_newlines.induct) (auto split: if_splits)

lemma file_lines_append:
  assumes "ends_line t" and "newline \<notin> set l" and "carriage_return \<notin> set l"
  shows "file_lines (t @ l @ [newline]) = file_lines t @ [l @ [newline]]"
proof -
  have u: "universal_newlines (t @ l @ [newline]) = universal_newlines t @ l @ [newline]"
    using assms by (subst universal_newlines_append) (auto simp: ends_line_def universal_newlines_id)
  show ?thesis
  proof (cases "t = []")
    case True
    then show ?thesis using u assms by (simp add: file_lines_def lines_aux_line)
  next
    case False
    with assms have "universal_newlines t \<noteq> []" "last (universal_newlines t) = newline"
      using universal_newlines_ends by (auto simp: ends_line_def)
    then obtain v where v: "universal_newlines t = v @ [newline]"
      by (metis append_butlast_last_id)
    show ?thesis
      using assms lines_aux_append [of "[]" v "l @ [newline]"]
      by (simp add: file_lines_def u v lines_aux_line)
  qed
qed

lemma load_lines_append:
  "load_lines p ls = Inr es \<Longrightarrow>
     load_lines p (ls @ ms) = bind_res (load_lines p ms) (\<lambda>fs. Inr (es @ fs))"
proof (induction ls arbitrary: es)
  case Nil
  then show ?case by (cases "load_lines p ms") simp_all
next
  case (Cons l ls)
  show ?case
  proof (cases "py_strip l = []")
    case True
    with Cons show ?thesis by simp
  next
    case False
    with Cons.prems obtain e es' where e: "p (py_strip l) = Inr e" "load_lines p ls = Inr es'"
      and es: "es = e # es'"
      by (auto simp: Let_def bind_res_Inr_iff)
    with Cons.IH [OF e(2)] False show ?thesis
      by (cases "load_lines p ms") (simp_all add: Let_def)
  qed
qed

lemma newline_space: "is_space newline"
  by (simp add: newline_def is_space_def)

lemma py_strip_line:
  assumes "l \<noteq> []" and "\<not> is_space (hd l)" and "\<not> is_space (last l)"
  shows "py_strip (l @ [newline]) = l"
proof -
  have "dropWhile is_space (l @ [newline]) = l @ [newline]"
    using assms by (cases l) simp_all
  moreover have "dropWhile is_space (rev l) = rev l"
    using assms by (cases l rule: rev_cases) simp_all
  ultimately show ?thesis by (simp add: py_strip_def strip_by_def newline_space)
qed

definition in_sync :: "'w env \<Rightarrow> cycle_event list \<Rightarrow> 'w event_log \<Rightarrow> bool" where
  "in_sync env pre l \<longleftrightarrow> el_persist l \<and> (case el_file l of None \<Rightarrow> True | Some t \<Rightarrow> ends_line t) \<and>
     load_jsonl env (el_file l) = Inr (pre @ el_events l)"

lemma in_sync_record:
  assumes "in_sync env pre l" and "json_line env e"
  shows "in_sync env pre (record_event env e l)"
proof -
  define t where "t = (case el_file l of None \<Rightarrow> [] | Some t \<Rightarrow> t)"
  have t: "ends_line t" "load_lines (env_parse env) (file_lines t) = Inr (pre @ el_events l)"
    using assms(1) by (auto simp: in_sync_def t_def ends_line_def load_jsonl_def file_lines_def
        split: option.splits)
  have "load_lines (env_parse env) [env_dump env e @ [newline]] = Inr [e]"
    using assms(2) by (simp add: json_line_def Let_def py_strip_line)
  then have "load_lines (env_parse env) (file_lines (t @ env_dump env e @ [newline])) =
      Inr (pre @ el_events l @ [e])"
    using assms(2) t by (simp add: file_lines_append json_line_def Let_def load_lines_append)
  then show ?thesis
    using assms(1) by (simp add: in_sync_def record_event_def t_def [symmetric] load_jsonl_def
        ends_line_def)
qed

lemma extend_events_in_sync:
  assumes "in_sync env pre (sys_log s)" and "\<forall>e\<in>set es. json_line env e"
  shows "in_sync env pre (sys_log (snd (extend_events env es s)))"
proof -
  have "keeps (\<lambda>s. in_sync env pre (sys_log s)) (extend_events env es)"
    unfolding extend_events_def
    by (rule keeps_for_each, rule keepsI)
       (use assms(2) in \<open>simp add: append_event_apply in_sync_record\<close>)
  then show ?thesis using assms(1) by (simp add: keeps_def)
qed

text \<open>C13. The JSONL file of a persisted log replays it. Start a log on a file that holds earlier
  events \<open>pre\<close> and ends in a line break (or does not exist), append any events one after the
  other, whatever the listeners do: whether or not a listener raises on the way, loading the file
  returns the earlier events followed by exactly the events of the in-memory log, which are a
  prefix of the appended ones and all of them when no listener raised.\<close>

theorem log_file_replays:
  assumes "load_jsonl env file = Inr pre" and "file = None \<or> (\<exists>t. file = Some t \<and> ends_line t)"
    and "\<forall>e\<in>set es. json_line env e"
    and "extend_events env es \<lparr>sys_log = fold on_event ls (new_log True file), sys_world = w\<rparr> = (r, s)"
  shows "\<exists>n. el_events (sys_log s) = take n es \<and>
    load_jsonl env (el_file (sys_log s)) = Inr (pre @ take n es) \<and> (is_ok r \<longrightarrow> n = length es)"
proof -
  let ?s = "\<lparr>sys_log = fold on_event ls (new_log True file), sys_world = w\<rparr>"
  have "el_events (fold on_event ls l) = el_events l \<and> el_persist (fold on_event ls l) = el_persist l
      \<and> el_file (fold on_event ls l) = el_file l" for l :: "'a event_log"
    by (induction ls arbitrary: l) (simp_all add: on_event_def)
  then have l: "el_events (sys_log ?s) = []" "in_sync env pre (sys_log ?s)"
    using assms(1,2) by (auto simp: in_sync_def new_log_def split: option.splits)
  have "in_sync env pre (sys_log s)"
    using extend_events_in_sync [OF l(2) assms(3)] assms(4) by simp
  moreover obtain n where "log_grows (sys_log ?s) (take n es) (sys_log s)" "is_ok r \<longrightarrow> n = length es"
    using extend_events_prefix [of ?s es env] assms(4) by auto
  ultimately show ?thesis using l(1) by (auto simp: in_sync_def log_grows_def)
qed

text \<open>A codec for two events, and a listener that raises.\<close>

definition sample_event :: "string \<Rightarrow> cycle_event" where
  "sample_event eid = \<lparr>ev_id = eid, ev_cycle = ''c'', ev_kind = CYCLE_STARTED, ev_time = 0,
     ev_payload = []\<rparr>"

definition sample_env :: "unit env" where
  "sample_env = \<lparr>env_now = (\<lambda>w. (0, w)), env_token_hex = (\<lambda>w. (''0123456789abcdef'', w)),
     env_dump = ev_id, env_parse = (\<lambda>t. Inr (sample_event t))\<rparr>"

theorem log_file_replays_witness:
  "load_jsonl sample_env (Some ([CHR ''a'', newline, newline] @ ''b'' @ [newline])) =
     Inr ([sample_event ''a''] @ take 1 [sample_event ''b''])"
proof -
  let ?f = "Some [CHR ''a'', newline, newline]"
  let ?es = "[sample_event ''b'']"
  let ?ls = "[\<lambda>_. raise RuntimeError] :: (cycle_event \<Rightarrow> (unit, unit) eff) list"
  let ?t = "\<lparr>el_events = ?es, el_persist = True,
      el_file = Some ([CHR ''a'', newline, newline] @ ''b'' @ [newline]), el_listeners = ?ls\<rparr>"
  have run: "extend_events sample_env ?es
      \<lparr>sys_log = fold on_event ?ls (new_log True ?f), sys_world = ()\<rparr> =
      (Inl RuntimeError, \<lparr>sys_log = ?t, sys_world = ()\<rparr>)"
    by (simp add: extend_events_def seq_apply append_event_apply notify_def new_log_def on_event_def
        record_event_def sample_env_def sample_event_def)
  have h1: "load_jsonl sample_env ?f = Inr [sample_event ''a'']"
    by code_simp
  have h2: "?f = None \<or> (\<exists>t. ?f = Some t \<and> ends_line t)"
    by (simp add: ends_line_def)
  have h3: "\<forall>e\<in>set ?es. json_line sample_env e"
    by (simp add: json_line_def sample_env_def sample_event_def is_space_def newline_def
        carriage_return_def)
  from log_file_replays [OF h1 h2 h3 run] obtain n where
    n: "?es = take n ?es" "load_jsonl sample_env (Some ([CHR ''a'', newline, newline] @ ''b'' @ [newline]))
      = Inr ([sample_event ''a''] @ take n ?es)"
    by auto
  then show ?thesis by (metis One_nat_def length_Cons list.size(3) order_refl take_all)
qed

end
