(* ===== verification/Py_Decimal.thy ===== *)
theory Py_Decimal
  imports Complex_Main Prelude
begin

text \<open>
  Python's \<open>decimal.Decimal\<close>, as far as the code uses it: finite numbers
  \<open>coeff * 10 ^ expo\<close>, the arithmetic operators, which round the exact result to the
  precision of the ambient context (28 significant digits, ties to even, by default), the
  comparisons (exact), and \<open>str\<close>.

  The operators take the rounding step \<open>fx\<close> of the context as an argument;
  \<open>py_ctx\<close> is Python's default one. Signed zeros, NaN, infinities and the exponent limits
  of the context are left out.

  The locale \<open>rounding_ctx\<close> states what the code needs of the rounding step: results
  are representable and rounding never crosses a representable number. It is interpreted on
  \<open>py_ctx\<close> and on exact arithmetic.
\<close>

datatype decimal = Dec (coeff: int) (expo: int)

definition dval :: "decimal \<Rightarrow> rat" where
  "dval d = of_int (coeff d) * 10 powi expo d"

section \<open>Comparison\<close>

definition align :: "decimal \<Rightarrow> decimal \<Rightarrow> int \<times> int" where
  "align x y = (let m = min (expo x) (expo y) in
     (coeff x * 10 ^ nat (expo x - m), coeff y * 10 ^ nat (expo y - m)))"

definition dec_le :: "decimal \<Rightarrow> decimal \<Rightarrow> bool" where
  "dec_le x y = (case align x y of (a, b) \<Rightarrow> a \<le> b)"

definition dec_lt :: "decimal \<Rightarrow> decimal \<Rightarrow> bool" where
  "dec_lt x y = (case align x y of (a, b) \<Rightarrow> a < b)"

definition dec_eq :: "decimal \<Rightarrow> decimal \<Rightarrow> bool" where
  "dec_eq x y = (case align x y of (a, b) \<Rightarrow> a = b)"

abbreviation dzero :: decimal where
  "dzero \<equiv> Dec 0 0"

lemma powi_nat_diff: "m \<le> e \<Longrightarrow> (10::rat) powi e = 10 ^ nat (e - m) * 10 powi m"
  by (metis add.commute diff_add_cancel diff_ge_0_iff_ge power_int_add power_int_def
        zero_neq_numeral)

lemma dval_shift: "m \<le> e \<Longrightarrow> dval (Dec (c * 10 ^ nat (e - m)) m) = dval (Dec c e)"
  by (simp add: dval_def powi_nat_diff)

lemma ten_powi_pos [simp]: "0 < (10::rat) powi e"
  by (simp add: zero_less_power_int)

lemma dval_align:
  assumes "align x y = (a, b)"
  shows "dval x = of_int a * 10 powi min (expo x) (expo y)"
    and "dval y = of_int b * 10 powi min (expo x) (expo y)"
  using assms
  by (auto simp: align_def Let_def dval_def powi_nat_diff [of "min (expo x) (expo y)" "expo x"]
        powi_nat_diff [of "min (expo x) (expo y)" "expo y"])

lemma dec_le_iff: "dec_le x y \<longleftrightarrow> dval x \<le> dval y"
  by (cases "align x y") (simp add: dec_le_def dval_align mult_le_cancel_right not_less [symmetric])

lemma dec_lt_iff: "dec_lt x y \<longleftrightarrow> dval x < dval y"
  by (cases "align x y") (simp add: dec_lt_def dval_align mult_less_cancel_right_pos)

lemma dec_eq_iff: "dec_eq x y \<longleftrightarrow> dval x = dval y"
proof (cases "align x y")
  case (Pair a b)
  moreover have "(10::rat) powi min (expo x) (expo y) \<noteq> 0"
    using ten_powi_pos by (metis less_irrefl)
  ultimately show ?thesis by (simp add: dec_eq_def dval_align)
qed

lemmas dec_cmp = dec_le_iff dec_lt_iff dec_eq_iff

lemma dval_zero [simp]: "dval (Dec 0 e) = 0"
  by (simp add: dval_def)

lemma dval_sign: "0 \<le> dval d \<longleftrightarrow> 0 \<le> coeff d" "0 < dval d \<longleftrightarrow> 0 < coeff d"
    "dval d < 0 \<longleftrightarrow> coeff d < 0" "dval d = 0 \<longleftrightarrow> coeff d = 0"
proof -
  have p: "0 < (10::rat) powi expo d" by simp
  then have "\<not> (10::rat) powi expo d \<le> 0" "\<not> (10::rat) powi expo d < 0"
    by (simp_all add: not_le not_less less_imp_le)
  with p show "0 \<le> dval d \<longleftrightarrow> 0 \<le> coeff d" "0 < dval d \<longleftrightarrow> 0 < coeff d"
    "dval d < 0 \<longleftrightarrow> coeff d < 0"
    by (auto simp: dval_def zero_le_mult_iff zero_less_mult_iff mult_less_0_iff)
  show "dval d = 0 \<longleftrightarrow> coeff d = 0"
    using p by (auto simp: dval_def)
qed

section \<open>Rounding to the context's precision\<close>

fun ndig :: "nat \<Rightarrow> nat" where
  "ndig n = (if n < 10 then 1 else Suc (ndig (n div 10)))"

declare ndig.simps [simp del]

text \<open>The same on integers, for evaluation.\<close>

definition idig :: "int \<Rightarrow> nat" where
  "idig i = ndig (nat i)"

lemma idig_code [code]: "idig i = (if i < 10 then 1 else Suc (idig (i div 10)))"
  unfolding idig_def by (subst ndig.simps) (auto simp: nat_div_distrib)

lemma ndig_pos: "0 < ndig n"
  by (subst ndig.simps) simp

lemma ndig_bounds: "n < 10 ^ ndig n \<and> (0 < n \<longrightarrow> 10 ^ (ndig n - 1) \<le> n)"
proof (induction n rule: ndig.induct)
  case (1 n)
  show ?case
  proof (cases "n < 10")
    case True
    then show ?thesis by (subst (1 2) ndig.simps) auto
  next
    case False
    with "1" have IH: "n div 10 < 10 ^ ndig (n div 10)"
      "10 ^ (ndig (n div 10) - 1) \<le> n div 10" by auto
    obtain m where m: "ndig (n div 10) = Suc m"
      using ndig_pos [of "n div 10"] by (cases "ndig (n div 10)") auto
    have "ndig n = Suc (Suc m)" using False m by (subst ndig.simps) simp
    moreover have "n < 10 ^ Suc (Suc m)" using IH(1) m by simp
    moreover have "10 ^ Suc m \<le> n" using IH(2) m by simp
    ultimately show ?thesis by simp
  qed
qed

lemma ndig_le_iff: "0 < p \<Longrightarrow> ndig n \<le> p \<longleftrightarrow> n < 10 ^ p"
proof
  assume "ndig n \<le> p"
  then have "(10::nat) ^ ndig n \<le> 10 ^ p" by simp
  then show "n < 10 ^ p" using ndig_bounds [of n] by linarith
next
  assume p: "0 < p" and n: "n < 10 ^ p"
  show "ndig n \<le> p"
  proof (rule ccontr)
    assume c: "\<not> ndig n \<le> p"
    then have "n \<noteq> 0" using p by (metis One_nat_def Suc_leI ndig.simps zero_less_numeral)
    then have "10 ^ (ndig n - 1) \<le> n" using ndig_bounds [of n] by simp
    moreover have "(10::nat) ^ p \<le> 10 ^ (ndig n - 1)" using c by simp
    ultimately show False using n by linarith
  qed
qed

text \<open>\<open>half_even a b\<close>: \<open>a / b\<close> rounded to an integer, ties to even (\<open>0 < b\<close>).\<close>

definition half_even :: "int \<Rightarrow> int \<Rightarrow> int" where
  "half_even a b = (let q = a div b; r = a mod b in
     if 2 * r < b then q else if b < 2 * r then q + 1 else if even q then q else q + 1)"

lemma half_even_cases:
  "0 < b \<Longrightarrow> half_even a b = a div b \<or> (half_even a b = a div b + 1 \<and> a mod b \<noteq> 0)"
  by (auto simp: half_even_def Let_def)

definition dec_fix :: "nat \<Rightarrow> decimal \<Rightarrow> decimal" where
  "dec_fix p d = (let n = ndig (nat \<bar>coeff d\<bar>) in
     if n \<le> p then d
     else let k = n - p; q = half_even (coeff d) (10 ^ k) in
       if ndig (nat \<bar>q\<bar>) \<le> p then Dec q (expo d + int k)
       else Dec (q div 10) (expo d + int k + 1))"

lemma dec_fix_code [code]: "dec_fix p d = (let n = idig \<bar>coeff d\<bar> in
     if n \<le> p then d
     else let k = n - p; q = half_even (coeff d) (10 ^ k) in
       if idig \<bar>q\<bar> \<le> p then Dec q (expo d + int k)
       else Dec (q div 10) (expo d + int k + 1))"
  by (simp only: dec_fix_def idig_def)

definition py_ctx :: "decimal \<Rightarrow> decimal" where
  "py_ctx = dec_fix 28"

definition fits :: "nat \<Rightarrow> decimal \<Rightarrow> bool" where
  "fits p d \<longleftrightarrow> ndig (nat \<bar>coeff d\<bar>) \<le> p"

lemma fits_iff: "0 < p \<Longrightarrow> fits p d \<longleftrightarrow> \<bar>coeff d\<bar> < 10 ^ p"
  by (simp add: fits_def ndig_le_iff nat_less_iff)

lemma int_le_div_iff: "0 < (k::int) \<Longrightarrow> a \<le> c div k \<longleftrightarrow> a * k \<le> c"
proof
  assume k: "0 < k" and "a \<le> c div k"
  then have "a * k \<le> c div k * k" by simp
  also have "\<dots> \<le> c" using k by (metis div_mult_mod_eq le_add_same_cancel1 pos_mod_sign)
  finally show "a * k \<le> c" .
next
  assume k: "0 < k" and "a * k \<le> c"
  then have "a * k div k \<le> c div k" by (intro zdiv_mono1)
  then show "a \<le> c div k" using k by simp
qed

lemma int_div_less_iff: "0 < (k::int) \<Longrightarrow> c div k < a \<longleftrightarrow> c < a * k"
  using int_le_div_iff [of k a c] by linarith

text \<open>The rounded quotient of the lossy branch: between the floor and the ceiling, at least as
  large as the least \<open>p\<close>-digit number.\<close>

lemma lossy_quotient:
  fixes c :: int
  assumes p: "0 < p" and n: "p < ndig (nat \<bar>c\<bar>)"
  defines "K \<equiv> (10::int) ^ (ndig (nat \<bar>c\<bar>) - p)"
  shows "0 < c \<Longrightarrow> 10 ^ (p - 1) \<le> c div K \<and> c div K < 10 ^ p"
    and "c < 0 \<Longrightarrow> - (10 ^ p) \<le> c div K \<and> - ((- c) div K) \<le> - (10 ^ (p - 1))"
proof -
  let ?n = "ndig (nat \<bar>c\<bar>)"
  have K: "0 < K" by (simp add: K_def)
  have c0: "c \<noteq> 0"
  proof
    assume "c = 0"
    then have "?n = 1" by (simp add: ndig.simps)
    with p n show False by simp
  qed
  have b: "nat \<bar>c\<bar> < 10 ^ ?n" "10 ^ (?n - 1) \<le> nat \<bar>c\<bar>"
    using ndig_bounds [of "nat \<bar>c\<bar>"] c0 by auto
  have up: "\<bar>c\<bar> < 10 ^ ?n" using b(1) by (simp add: nat_less_iff)
  have lo: "10 ^ (?n - 1) \<le> \<bar>c\<bar>" using b(2) by (simp add: le_nat_iff)
  have e1: "(10::int) ^ ?n = 10 ^ p * K" using n by (simp add: K_def flip: power_add)
  have e2: "(10::int) ^ (?n - 1) = 10 ^ (p - 1) * K"
    using n p by (simp add: K_def flip: power_add)
  have L: "10 ^ (p - 1) \<le> \<bar>c\<bar> div K"
    using lo unfolding e2 int_le_div_iff [OF K] .
  have U: "\<bar>c\<bar> div K < 10 ^ p"
    using up K by (simp add: e1 int_div_less_iff)
  show "0 < c \<Longrightarrow> 10 ^ (p - 1) \<le> c div K \<and> c div K < 10 ^ p"
    using L U by simp
  assume neg: "c < 0"
  then have a: "\<bar>c\<bar> = - c" by simp
  have "- (10 ^ p) * K \<le> c" using up neg unfolding e1 by simp
  then have "- (10 ^ p) \<le> c div K" using K by (simp add: int_le_div_iff)
  then show "- (10 ^ p) \<le> c div K \<and> - ((- c) div K) \<le> - (10 ^ (p - 1))"
    using L a by simp
qed

lemma half_even_between:
  assumes b: "0 < b"
  shows "a div b \<le> half_even a b" and "half_even a b \<le> - ((- a) div b)"
  using half_even_cases [OF b, of a] b
  by (auto simp: zdiv_zminus1_eq_if split: if_splits)

lemma dval_Dec: "dval (Dec c e) = of_int c * 10 powi e"
  by (simp add: dval_def)

lemma dec_fix_exact: "fits p d \<Longrightarrow> dec_fix p d = d"
  by (simp add: dec_fix_def fits_def Let_def)

lemma lossy_bounds:
  fixes c :: int
  assumes p: "0 < p" and n: "p < ndig (nat \<bar>c\<bar>)"
  defines "q \<equiv> half_even c (10 ^ (ndig (nat \<bar>c\<bar>) - p))"
  shows "0 < c \<Longrightarrow> 10 ^ (p - 1) \<le> q \<and> q \<le> 10 ^ p"
    and "c < 0 \<Longrightarrow> - (10 ^ p) \<le> q \<and> q \<le> - (10 ^ (p - 1))"
    and "c \<noteq> 0"
proof -
  let ?K = "(10::int) ^ (ndig (nat \<bar>c\<bar>) - p)"
  have K: "0 < ?K" by simp
  show "0 < c \<Longrightarrow> 10 ^ (p - 1) \<le> q \<and> q \<le> 10 ^ p"
    using lossy_quotient(1) [OF p n] half_even_between(1) [OF K, of c] half_even_cases [OF K, of c]
    unfolding q_def by linarith
  show "c < 0 \<Longrightarrow> - (10 ^ p) \<le> q \<and> q \<le> - (10 ^ (p - 1))"
    using lossy_quotient(2) [OF p n] half_even_between [OF K, of c]
    unfolding q_def by linarith
  show "c \<noteq> 0"
  proof
    assume "c = 0"
    then have "ndig (nat \<bar>c\<bar>) = 1" by (simp add: ndig.simps)
    with p n show False by simp
  qed
qed

lemma carry_dvd:
  fixes q :: int
  assumes p: "0 < p" and c: "\<not> ndig (nat \<bar>q\<bar>) \<le> p" and b: "\<bar>q\<bar> \<le> 10 ^ p"
  shows "q div 10 * 10 = q" and "\<bar>q div 10\<bar> < 10 ^ p"
proof -
  from c p have "10 ^ p \<le> \<bar>q\<bar>" by (simp add: ndig_le_iff nat_less_iff not_less)
  with b have "\<bar>q\<bar> = 10 ^ p" by simp
  then have "q = 10 ^ p \<or> q = - (10 ^ p)" by linarith
  moreover obtain r where r: "p = Suc r" using p by (cases p) auto
  ultimately have "q = 10 ^ r * 10 \<or> q = (- (10 ^ r)) * 10" by auto
  then have "\<exists>t. q = t * 10 \<and> \<bar>t\<bar> = 10 ^ r"
  proof
    assume "q = 10 ^ r * 10"
    then show ?thesis by (intro exI [of _ "10 ^ r"]) simp
  next
    assume "q = (- (10 ^ r)) * 10"
    then show ?thesis by (intro exI [of _ "- (10 ^ r)"]) simp
  qed
  then obtain t where t: "q = t * 10" "\<bar>t\<bar> = 10 ^ r" by blast
  then show "q div 10 * 10 = q" "\<bar>q div 10\<bar> < 10 ^ p" by (simp_all add: r)
qed

lemma dec_fix_lossy:
  assumes p: "0 < p" and n: "\<not> fits p d"
  defines "k \<equiv> ndig (nat \<bar>coeff d\<bar>) - p"
  shows "dval (dec_fix p d) = of_int (half_even (coeff d) (10 ^ k)) * 10 powi (expo d + int k)"
    and "fits p (dec_fix p d)"
proof -
  let ?q = "half_even (coeff d) (10 ^ k)"
  from n have n': "p < ndig (nat \<bar>coeff d\<bar>)" by (simp add: fits_def)
  have b: "\<bar>?q\<bar> \<le> 10 ^ p"
    using lossy_bounds [OF p n'] zero_le_power [of "10::int" "p - 1"] unfolding k_def by linarith
  have unf: "dec_fix p d = (if ndig (nat \<bar>?q\<bar>) \<le> p then Dec ?q (expo d + int k)
       else Dec (?q div 10) (expo d + int k + 1))"
    using n' by (simp add: dec_fix_def k_def Let_def)
  show "dval (dec_fix p d) = of_int ?q * 10 powi (expo d + int k)"
  proof (cases "ndig (nat \<bar>?q\<bar>) \<le> p")
    case True
    then show ?thesis by (simp add: unf dval_Dec)
  next
    case False
    have "dval (Dec (?q div 10) (expo d + int k + 1)) = of_int (?q div 10 * 10) * 10 powi (expo d + int k)"
      by (simp add: dval_Dec power_int_add)
    also have "\<dots> = of_int ?q * 10 powi (expo d + int k)"
      by (simp only: carry_dvd(1) [OF p False b])
    finally show ?thesis using False by (simp add: unf)
  qed
  show "fits p (dec_fix p d)"
    using carry_dvd(2) [OF p _ b] p by (auto simp: unf fits_def ndig_le_iff nat_less_iff)
qed

lemma fits_dec_fix: "0 < p \<Longrightarrow> fits p (dec_fix p d)"
  by (cases "fits p d") (simp_all add: dec_fix_exact dec_fix_lossy)

lemma of_int_powi_le: "of_int a * (10::rat) powi e \<le> of_int b * 10 powi e \<longleftrightarrow> a \<le> b"
  by (simp add: mult_le_cancel_right_pos)

lemma lossy_no_cross:
  assumes p: "0 < p" and r: "fits p r" and n: "\<not> fits p d"
  shows "dval r \<le> dval d \<Longrightarrow> dval r \<le> dval (dec_fix p d)"
    and "dval d \<le> dval r \<Longrightarrow> dval (dec_fix p d) \<le> dval r"
proof -
  define k where "k = ndig (nat \<bar>coeff d\<bar>) - p"
  define K where "K = (10::int) ^ k"
  define E where "E = expo d + int k"
  let ?c = "coeff d"
  let ?q = "half_even ?c K"
  from n have n': "p < ndig (nat \<bar>?c\<bar>)" by (simp add: fits_def)
  have K: "0 < K" by (simp add: K_def)
  have val: "dval (dec_fix p d) = of_int ?q * 10 powi E"
    using dec_fix_lossy(1) [OF p n] by (simp add: k_def K_def E_def)
  have m: "\<bar>coeff r\<bar> < 10 ^ p" using r p by (simp add: fits_iff)
  have goal: "(dval r \<le> dval d \<longrightarrow> dval r \<le> dval (dec_fix p d)) \<and>
    (dval d \<le> dval r \<longrightarrow> dval (dec_fix p d) \<le> dval r)"
  proof (cases "E \<le> expo r")
    case True
    define R where "R = coeff r * 10 ^ nat (expo r - E)"
    have vr: "dval r = of_int R * 10 powi E"
      by (simp add: R_def dval_def powi_nat_diff [OF True])
    also have "\<dots> = of_int (R * K) * 10 powi expo d"
      by (simp add: E_def K_def power_int_add)
    finally have vr': "dval r = of_int (R * K) * 10 powi expo d" .
    have vd: "dval d = of_int ?c * 10 powi expo d" by (simp add: dval_def)
    have "R * K \<le> ?c \<Longrightarrow> R \<le> ?q"
      using half_even_between(1) [OF K, of ?c] K by (simp flip: int_le_div_iff)
    moreover have "?c \<le> R * K \<Longrightarrow> ?q \<le> R"
      using half_even_between(2) [OF K, of ?c] int_le_div_iff [OF K, of "- R" "- ?c"] by simp
    ultimately show ?thesis
      by (metis of_int_powi_le val vr vr' vd)
  next
    case False
    have "\<bar>coeff r\<bar> * 10 ^ nat (E - expo r) < 10 ^ p * 10 ^ nat (E - expo r)"
      using m by simp
    have g: "(10::rat) * 10 powi expo r \<le> 10 powi E"
    proof -
      have "(10::rat) powi (expo r + 1) \<le> 10 powi E"
        using False by (intro power_int_increasing) auto
      then show ?thesis by (simp add: power_int_add)
    qed
    obtain s where s: "p = Suc s" using p by (cases p) auto
    have "(of_int \<bar>coeff r\<bar> :: rat) < of_int (10 ^ p)"
      using m by (simp only: of_int_less_iff)
    then have "of_int \<bar>coeff r\<bar> * (10::rat) powi expo r < of_int (10 ^ p) * 10 powi expo r"
      by (intro mult_strict_right_mono) simp_all
    also have "\<dots> = of_int (10 ^ (p - 1)) * (10 * 10 powi expo r)"
      by (simp add: s)
    also have "\<dots> \<le> of_int (10 ^ (p - 1)) * 10 powi E"
      using g by (intro mult_left_mono) simp_all
    finally have small: "\<bar>dval r\<bar> < of_int (10 ^ (p - 1)) * 10 powi E"
      by (simp add: dval_def abs_mult abs_of_pos)
    have vd: "dval d * of_int K = of_int ?c * 10 powi E"
      by (simp add: dval_def E_def K_def power_int_add)
    have Kr: "(0::rat) < of_int K" using K by simp
    show ?thesis
    proof (cases "0 < ?c")
      case True
      have "10 ^ (p - 1) \<le> ?q" "10 ^ (p - 1) \<le> ?c div K"
        using lossy_bounds(1) [OF p n' True] lossy_quotient(1) [OF p n' True]
        by (simp_all add: k_def K_def)
      then have "10 ^ (p - 1) \<le> ?q" "10 ^ (p - 1) * K \<le> ?c"
        using K by (simp_all add: int_le_div_iff)
      then have "of_int (10 ^ (p - 1)) * 10 powi E \<le> of_int ?q * (10::rat) powi E"
        "of_int (10 ^ (p - 1) * K) * 10 powi E \<le> of_int ?c * (10::rat) powi E"
        by (simp_all only: of_int_powi_le)
      moreover have "dval r * of_int K < of_int (10 ^ (p - 1)) * 10 powi E * of_int K"
        using small by (intro mult_strict_right_mono Kr) linarith
      moreover have "of_int (10 ^ (p - 1)) * 10 powi E * of_int K =
        of_int (10 ^ (p - 1) * K) * (10::rat) powi E" by simp
      ultimately have "dval r < of_int ?q * 10 powi E" "dval r * of_int K < dval d * of_int K"
        using small unfolding vd by linarith+
      then show ?thesis using Kr val by (auto simp: mult_less_cancel_right_pos)
    next
      case False
      then have neg: "?c < 0" using lossy_bounds(3) [OF p n'] by linarith
      have "?q \<le> - (10 ^ (p - 1))" "10 ^ (p - 1) \<le> (- ?c) div K"
        using lossy_bounds(2) [OF p n' neg] lossy_quotient(2) [OF p n' neg]
        by (simp_all add: k_def K_def)
      then have "?q \<le> - (10 ^ (p - 1))" "?c \<le> - (10 ^ (p - 1) * K)"
        using K by (simp_all add: int_le_div_iff)
      then have "of_int ?q * (10::rat) powi E \<le> of_int (- (10 ^ (p - 1))) * 10 powi E"
        "of_int ?c * (10::rat) powi E \<le> of_int (- (10 ^ (p - 1) * K)) * 10 powi E"
        by (simp_all only: of_int_powi_le)
      moreover have "of_int (- (10 ^ (p - 1))) * 10 powi E * of_int K < dval r * of_int K"
        using small by (intro mult_strict_right_mono Kr) (simp add: abs_less_iff)
      moreover have "of_int (- (10 ^ (p - 1))) * 10 powi E * of_int K =
        of_int (- (10 ^ (p - 1) * K)) * (10::rat) powi E" by simp
      moreover have "of_int (- (10 ^ (p - 1))) * (10::rat) powi E = - (of_int (10 ^ (p - 1)) * 10 powi E)"
        by simp
      ultimately have "of_int ?q * 10 powi E < dval r" "dval d * of_int K < dval r * of_int K"
        using small unfolding vd by linarith+
      then show ?thesis using Kr val by (auto simp: mult_less_cancel_right_pos)
    qed
  qed
  show "dval r \<le> dval d \<Longrightarrow> dval r \<le> dval (dec_fix p d)"
    "dval d \<le> dval r \<Longrightarrow> dval (dec_fix p d) \<le> dval r"
    using goal by simp_all
qed

section \<open>Operators\<close>

type_synonym dec_ctx = "decimal \<Rightarrow> decimal"

definition dec_neg_exact :: "decimal \<Rightarrow> decimal" where
  "dec_neg_exact x = Dec (- coeff x) (expo x)"

definition dec_add :: "dec_ctx \<Rightarrow> decimal \<Rightarrow> decimal \<Rightarrow> decimal" where
  "dec_add fx x y = (case align x y of (a, b) \<Rightarrow> fx (Dec (a + b) (min (expo x) (expo y))))"

definition dec_sub :: "dec_ctx \<Rightarrow> decimal \<Rightarrow> decimal \<Rightarrow> decimal" where
  "dec_sub fx x y = (case align x y of (a, b) \<Rightarrow> fx (Dec (a - b) (min (expo x) (expo y))))"

definition dec_mul :: "dec_ctx \<Rightarrow> decimal \<Rightarrow> decimal \<Rightarrow> decimal" where
  "dec_mul fx x y = fx (Dec (coeff x * coeff y) (expo x + expo y))"

definition dec_neg :: "dec_ctx \<Rightarrow> decimal \<Rightarrow> decimal" where
  "dec_neg fx x = fx (dec_neg_exact x)"

text \<open>
  Division computes a quotient with one or two digits more than the precision, makes the last
  digit sticky when a remainder is left, strips zeros towards the ideal exponent when it is
  exact, and rounds. The precision of the default context, 28, sets the shift.
\<close>

fun strip_zeros :: "nat \<Rightarrow> int \<Rightarrow> int \<Rightarrow> int \<times> int" where
  "strip_zeros 0 c e = (c, e)"
| "strip_zeros (Suc n) c e = (if c mod 10 = 0 then strip_zeros n (c div 10) (e + 1) else (c, e))"

definition div_shift :: "decimal \<Rightarrow> decimal \<Rightarrow> int" where
  "div_shift x y = int (ndig (nat \<bar>coeff y\<bar>)) - int (ndig (nat \<bar>coeff x\<bar>)) + 28 + 1"

lemma div_shift_code [code]: "div_shift x y = int (idig \<bar>coeff y\<bar>) - int (idig \<bar>coeff x\<bar>) + 28 + 1"
  by (simp add: div_shift_def idig_def)

definition div_scaled :: "decimal \<Rightarrow> decimal \<Rightarrow> int \<times> int" where
  "div_scaled x y = (let a = \<bar>coeff x\<bar>; b = \<bar>coeff y\<bar>; sh = div_shift x y in
     if 0 \<le> sh then (a * 10 ^ nat sh, b) else (a, b * 10 ^ nat (- sh)))"

definition div_quotient :: "decimal \<Rightarrow> decimal \<Rightarrow> int \<times> int" where
  "div_quotient x y = (case div_scaled x y of (num, den) \<Rightarrow>
     let q = num div den; e = expo x - expo y - div_shift x y in
     if num mod den \<noteq> 0 then (if q mod 5 = 0 then q + 1 else q, e)
     else strip_zeros (nat (div_shift x y)) q e)"

definition dec_div_raw :: "decimal \<Rightarrow> decimal \<Rightarrow> decimal" where
  "dec_div_raw x y =
     (if coeff x = 0 then Dec 0 (expo x - expo y)
      else case div_quotient x y of (q, e) \<Rightarrow> Dec (sgn (coeff x) * sgn (coeff y) * q) e)"

definition dec_div :: "dec_ctx \<Rightarrow> decimal \<Rightarrow> decimal \<Rightarrow> decimal res" where
  "dec_div fx x y = (if coeff y = 0 then Inl InvalidOperation else Inr (fx (dec_div_raw x y)))"

text \<open>\<open>sum(xs, start=z)\<close>\<close>

definition dec_sum :: "dec_ctx \<Rightarrow> decimal \<Rightarrow> decimal list \<Rightarrow> decimal" where
  "dec_sum fx z xs = foldl (dec_add fx) z xs"

lemma dval_add_raw: "align x y = (a, b) \<Longrightarrow> dval (Dec (a + b) (min (expo x) (expo y))) = dval x + dval y"
  by (simp add: dval_align dval_Dec distrib_right)

lemma dval_sub_raw: "align x y = (a, b) \<Longrightarrow> dval (Dec (a - b) (min (expo x) (expo y))) = dval x - dval y"
  by (simp add: dval_align dval_Dec left_diff_distrib)

lemma dval_mul_raw: "dval (Dec (coeff x * coeff y) (expo x + expo y)) = dval x * dval y"
  by (simp add: dval_def power_int_add)

lemma dval_neg_raw: "dval (dec_neg_exact x) = - dval x"
  by (simp add: dval_def dec_neg_exact_def)

lemma strip_zeros_nonneg: "0 \<le> c \<Longrightarrow> 0 \<le> fst (strip_zeros n c e)"
  by (induction n c e rule: strip_zeros.induct) auto

lemma div_raw_nonneg:
  assumes "0 \<le> dval x" "0 \<le> dval y"
  shows "0 \<le> dval (dec_div_raw x y)"
proof -
  from assms have c: "0 \<le> coeff x" "0 \<le> coeff y" by (simp_all add: dval_sign)
  have s: "0 \<le> sgn (coeff x) * sgn (coeff y)" using c by (simp add: sgn_if)
  have nn: "0 \<le> (a::int) div b" if "0 \<le> a" "0 \<le> b" for a b
    using that by (cases "b = 0") (simp_all add: pos_imp_zdiv_nonneg_iff)
  obtain num den where nd: "div_scaled x y = (num, den)" by (cases "div_scaled x y")
  then have "0 \<le> num" "0 \<le> den" by (auto simp: div_scaled_def Let_def split: if_splits)
  then have "0 \<le> num div den" by (rule nn)
  then have "0 \<le> fst (div_quotient x y)"
    by (simp add: div_quotient_def nd Let_def strip_zeros_nonneg)
  then have "0 \<le> coeff (dec_div_raw x y)"
    using s by (cases "div_quotient x y") (simp add: dec_div_raw_def)
  then show ?thesis by (simp add: dval_sign)
qed

section \<open>The contract of a rounding context\<close>

locale rounding_ctx =
  fixes fx :: dec_ctx
    and rep :: "decimal \<Rightarrow> bool"
  assumes fx_rep: "rep (fx x)"
    and rep_zero: "rep (Dec 0 e)"
    and rep_neg: "rep x \<Longrightarrow> rep (dec_neg_exact x)"
    and fx_le: "rep r \<Longrightarrow> dval x \<le> dval r \<Longrightarrow> dval (fx x) \<le> dval r"
    and fx_ge: "rep r \<Longrightarrow> dval r \<le> dval x \<Longrightarrow> dval r \<le> dval (fx x)"
    and fx_pos: "0 < dval x \<Longrightarrow> 0 < dval (fx x)"
    and fx_neg: "dval x < 0 \<Longrightarrow> dval (fx x) < 0"
begin

lemma fx_same: "rep r \<Longrightarrow> dval (fx r) = dval r"
  using fx_le [of r r] fx_ge [of r r] by simp

lemma fx_zero: "dval x = 0 \<Longrightarrow> dval (fx x) = 0"
  using fx_ge [OF rep_zero, of 0 x] fx_le [OF rep_zero, of x 0] by simp

lemma fx_sign: "0 < dval (fx x) \<longleftrightarrow> 0 < dval x" "dval (fx x) < 0 \<longleftrightarrow> dval x < 0"
  "dval (fx x) \<le> 0 \<longleftrightarrow> dval x \<le> 0" "0 \<le> dval (fx x) \<longleftrightarrow> 0 \<le> dval x"
  using fx_pos [of x] fx_neg [of x] fx_zero [of x] by linarith+

lemma rep_ops: "rep (dec_add fx x y)" "rep (dec_sub fx x y)" "rep (dec_mul fx x y)"
  "rep (dec_neg fx x)"
  by (auto simp: dec_add_def dec_sub_def dec_mul_def dec_neg_def fx_rep split: prod.split)

lemma rep_div: "dec_div fx x y = Inr z \<Longrightarrow> rep z"
  by (auto simp: dec_div_def fx_rep split: if_splits)

text \<open>Comparisons survive a rounded subtraction.\<close>

lemma sub_sign:
  "dval (dec_sub fx x y) \<le> 0 \<longleftrightarrow> dval x \<le> dval y"
  "0 < dval (dec_sub fx x y) \<longleftrightarrow> dval y < dval x"
  "dval (dec_sub fx x y) < 0 \<longleftrightarrow> dval x < dval y"
  "0 \<le> dval (dec_sub fx x y) \<longleftrightarrow> dval y \<le> dval x"
  by (cases "align x y"; simp add: dec_sub_def fx_sign dval_sub_raw)+

lemma neg_sign: "0 < dval (dec_neg fx x) \<longleftrightarrow> dval x < 0"
  by (simp add: dec_neg_def fx_sign dval_neg_raw)

lemma mul_nonneg: "0 \<le> dval x \<Longrightarrow> 0 \<le> dval y \<Longrightarrow> 0 \<le> dval (dec_mul fx x y)"
  by (simp add: dec_mul_def fx_sign dval_mul_raw)

lemma add_nonneg: "0 \<le> dval x \<Longrightarrow> 0 \<le> dval y \<Longrightarrow> 0 \<le> dval (dec_add fx x y)"
  by (cases "align x y") (simp add: dec_add_def fx_sign dval_add_raw)

lemma add_pos: "0 \<le> dval x \<Longrightarrow> 0 < dval y \<Longrightarrow> 0 < dval (dec_add fx x y)"
  by (cases "align x y") (simp add: dec_add_def fx_sign dval_add_raw)

text \<open>Adding a non-negative amount to a representable number never decreases it.\<close>

lemma add_ge: "rep x \<Longrightarrow> 0 \<le> dval y \<Longrightarrow> dval x \<le> dval (dec_add fx x y)"
  by (cases "align x y") (simp add: dec_add_def dval_add_raw fx_ge)

lemma div_nonneg:
  "dec_div fx x y = Inr z \<Longrightarrow> 0 \<le> dval x \<Longrightarrow> 0 \<le> dval y \<Longrightarrow> 0 \<le> dval z"
  by (auto simp: dec_div_def fx_sign div_raw_nonneg split: if_splits)

text \<open>The rounded excess of a holding over a non-negative target is at most the holding.\<close>

lemma trim_bound:
  assumes cur: "rep cur" and tgt: "0 \<le> dval tgt"
  shows "dval (dec_neg fx (dec_sub fx tgt cur)) \<le> dval cur"
proof -
  obtain a b where ab: "align tgt cur = (a, b)" by (cases "align tgt cur")
  have "- dval cur \<le> dval (dec_sub fx tgt cur)"
    using fx_ge [OF rep_neg [OF cur], of "Dec (a - b) (min (expo tgt) (expo cur))"] tgt ab
    by (simp add: dec_sub_def dval_neg_raw dval_sub_raw)
  then show ?thesis
    using fx_le [OF cur, of "dec_neg_exact (dec_sub fx tgt cur)"]
    by (simp add: dec_neg_def dval_neg_raw)
qed

end

lemma dec_fix_le_ge:
  assumes "0 < p" and "fits p r"
  shows "dval x \<le> dval r \<Longrightarrow> dval (dec_fix p x) \<le> dval r"
    and "dval r \<le> dval x \<Longrightarrow> dval r \<le> dval (dec_fix p x)"
  using assms by (cases "fits p x"; simp add: dec_fix_exact lossy_no_cross)+

lemma dec_fix_strict_sign:
  assumes p: "0 < p"
  shows "0 < dval x \<Longrightarrow> 0 < dval (dec_fix p x)" and "dval x < 0 \<Longrightarrow> dval (dec_fix p x) < 0"
proof -
  have goal: "(0 < dval x \<longrightarrow> 0 < dval (dec_fix p x)) \<and> (dval x < 0 \<longrightarrow> dval (dec_fix p x) < 0)"
  proof (cases "fits p x")
    case False
    define q where "q = half_even (coeff x) (10 ^ (ndig (nat \<bar>coeff x\<bar>) - p))"
    have v: "dval (dec_fix p x) = dval (Dec q (expo x + int (ndig (nat \<bar>coeff x\<bar>) - p)))"
      using dec_fix_lossy(1) [OF p False] by (simp add: q_def dval_Dec)
    have n: "p < ndig (nat \<bar>coeff x\<bar>)" using False by (simp add: fits_def)
    have one: "(1::int) \<le> 10 ^ (p - 1)" by simp
    show ?thesis
      using lossy_bounds(1,2) [OF p n, folded q_def] one
      unfolding v dval_sign decimal.sel by linarith
  qed (simp add: dec_fix_exact)
  then show "0 < dval x \<Longrightarrow> 0 < dval (dec_fix p x)" "dval x < 0 \<Longrightarrow> dval (dec_fix p x) < 0"
    by simp_all
qed

lemma fits_neg: "fits p (dec_neg_exact d) = fits p d"
  by (simp add: fits_def dec_neg_exact_def)

interpretation py: rounding_ctx py_ctx "fits 28"
proof unfold_locales
  show "fits 28 (py_ctx x)" for x by (simp add: py_ctx_def fits_dec_fix)
qed (simp_all add: py_ctx_def dec_fix_le_ge dec_fix_strict_sign fits_iff [where d = "Dec _ _"] fits_neg)

text \<open>Exact arithmetic satisfies the same contract: the ideal the rounded runs are compared
  with.\<close>

definition no_rounding :: dec_ctx where
  "no_rounding d = d"

interpretation exact: rounding_ctx no_rounding "\<lambda>_. True"
  by unfold_locales (simp_all add: no_rounding_def)

section \<open>Text of a decimal\<close>

text \<open>\<open>str(d)\<close>: plain notation when the exponent is not positive and the number is not too
  small, scientific notation otherwise.\<close>

definition dec_str :: "decimal \<Rightarrow> string" where
  "dec_str d = (let s = (if coeff d < 0 then ''-'' else []); ds = nat_str (nat \<bar>coeff d\<bar>);
       left = expo d + int (length ds);
       dot = (if expo d \<le> 0 \<and> -6 < left then left else 1);
       body = (if dot \<le> 0 then ''0.'' @ replicate (nat (- dot)) (CHR ''0'') @ ds
               else if int (length ds) \<le> dot then ds @ replicate (nat dot - length ds) (CHR ''0'')
               else take (nat dot) ds @ ''.'' @ drop (nat dot) ds);
       ex = (if left = dot then [] else ''E'' @ (if 0 \<le> left - dot then ''+'' else []) @ int_str (left - dot))
     in s @ body @ ex)"

end
