(* ===== verification/Py_Float.thy ===== *)
theory Py_Float
  imports Py_Decimal
begin

text \<open>
  Python floats as the rational numbers they denote. \<open>fl64\<close> rounds a rational to the nearest
  double (53 significant bits, ties to even); a division of two integers, or
  \<open>timedelta.total_seconds()\<close>, is the exact quotient followed by \<open>fl64\<close>. Overflow,
  subnormal numbers and NaN are left out: no value of the modelled code comes near them.
\<close>

fun nbits :: "nat \<Rightarrow> nat" where
  "nbits n = (if n = 0 then 0 else Suc (nbits (n div 2)))"

declare nbits.simps [simp del]

definition ibits :: "int \<Rightarrow> nat" where
  "ibits i = nbits (nat i)"

lemma ibits_code [code]: "ibits i = (if i \<le> 0 then 0 else Suc (ibits (i div 2)))"
  unfolding ibits_def by (subst nbits.simps) (auto simp: nat_div_distrib)

definition pow2 :: "int \<Rightarrow> rat" where
  "pow2 k = (if 0 \<le> k then 2 ^ nat k else 1 / 2 ^ nat (- k))"

definition ilog2 :: "rat \<Rightarrow> int" where
  "ilog2 x = (case quotient_of x of (n, d) \<Rightarrow>
     let k = int (nbits (nat n)) - int (nbits (nat d)) in if pow2 k \<le> x then k else k - 1)"

lemma ilog2_code [code]: "ilog2 x = (case quotient_of x of (n, d) \<Rightarrow>
     let k = int (ibits n) - int (ibits d) in if pow2 k \<le> x then k else k - 1)"
  by (simp add: ilog2_def ibits_def)

definition round_rat :: "rat \<Rightarrow> int" where
  "round_rat x = (case quotient_of x of (n, d) \<Rightarrow> half_even n d)"

definition fl64 :: "rat \<Rightarrow> rat" where
  "fl64 x = (if x = 0 then 0 else
     let e = ilog2 \<bar>x\<bar> - 52 in of_int (round_rat (x / pow2 e)) * pow2 e)"

text \<open>\<open>int(x)\<close> truncates towards zero.\<close>

definition trunc_rat :: "rat \<Rightarrow> int" where
  "trunc_rat x = (if 0 \<le> x then floor x else ceiling x)"

lemma pow2_pos [simp]: "0 < pow2 k"
  by (simp add: pow2_def)

lemma round_rat_nonneg: "0 \<le> x \<Longrightarrow> 0 \<le> round_rat x"
proof -
  assume x: "0 \<le> x"
  obtain n d where q: "quotient_of x = (n, d)" by (cases "quotient_of x")
  then have d: "0 < d" and xe: "x = of_int n / of_int d"
    by (auto simp: quotient_of_denom_pos quotient_of_div)
  with x have "0 \<le> n" by (simp add: zero_le_divide_iff)
  then have "0 \<le> n div d" using d by (simp add: pos_imp_zdiv_nonneg_iff)
  also have "\<dots> \<le> half_even n d" using d by (rule half_even_between)
  finally show ?thesis by (simp add: round_rat_def q)
qed

lemma fl64_nonneg: "0 \<le> x \<Longrightarrow> 0 \<le> fl64 x"
  by (auto simp: fl64_def Let_def less_imp_le
      intro!: mult_nonneg_nonneg round_rat_nonneg divide_nonneg_nonneg)

lemma fl64_zero [simp]: "fl64 0 = 0"
  by (simp add: fl64_def)

end
