(* ===== verification/Budget.thy ===== *)
theory Budget
  imports Event_Log Py_Float
begin

text \<open>
  The per-cycle budget guard (\<open>orchestrator/budget.py\<close>). A clock reading is an instant in
  microseconds; the elapsed seconds are the float \<open>timedelta.total\_seconds()\<close> returns. The
  guard writes its one event into the log it was given, which may be absent.
\<close>

datatype budget_status_kind = BUDGET_OK | TOKEN_EXCEEDED | WALLCLOCK_EXCEEDED

fun budget_kind_value :: "budget_status_kind \<Rightarrow> string" where
  "budget_kind_value BUDGET_OK = ''ok''"
| "budget_kind_value TOKEN_EXCEEDED = ''token_exceeded''"
| "budget_kind_value WALLCLOCK_EXCEEDED = ''wallclock_exceeded''"

record cycle_budget =
  cb_cycle_id :: string
  cb_token_cap :: int
  cb_wallclock_cap :: rat

definition budget_ok :: "cycle_budget \<Rightarrow> bool" where
  "budget_ok b = (id_ok (cb_cycle_id b) \<and> 0 < cb_token_cap b \<and> 0 < cb_wallclock_cap b)"

definition validate_cycle_budget :: "cycle_budget \<Rightarrow> cycle_budget res" where
  "validate_cycle_budget b = (if budget_ok b then Inr b else Inl ValidationError)"

record budget_status =
  bs_kind :: budget_status_kind
  bs_tokens :: int
  bs_token_cap :: int
  bs_elapsed :: rat
  bs_wallclock_cap :: rat

definition make_budget_status ::
  "budget_status_kind \<Rightarrow> int \<Rightarrow> int \<Rightarrow> rat \<Rightarrow> rat \<Rightarrow> budget_status res" where
  "make_budget_status k toks cap el wcap =
     (if 0 \<le> toks \<and> 0 < cap \<and> 0 \<le> el \<and> 0 < wcap
      then Inr \<lparr>bs_kind = k, bs_tokens = toks, bs_token_cap = cap, bs_elapsed = el,
        bs_wallclock_cap = wcap\<rparr>
      else Inl ValidationError)"

record budget_guard =
  bg_budget :: cycle_budget
  bg_has_log :: bool
  bg_started :: int
  bg_tokens :: int
  bg_emitted :: bool

definition new_guard :: "cycle_budget \<Rightarrow> bool \<Rightarrow> int \<Rightarrow> budget_guard" where
  "new_guard b has_log started = \<lparr>bg_budget = b, bg_has_log = has_log, bg_started = started,
     bg_tokens = 0, bg_emitted = False\<rparr>"

definition total_seconds :: "int \<Rightarrow> rat" where
  "total_seconds us = fl64 (of_int us / 1000000)"

definition elapsed_seconds :: "budget_guard \<Rightarrow> int \<Rightarrow> rat" where
  "elapsed_seconds g now = total_seconds (now - bg_started g)"

definition classify :: "budget_guard \<Rightarrow> rat \<Rightarrow> budget_status_kind" where
  "classify g elapsed =
     (if cb_token_cap (bg_budget g) < bg_tokens g then TOKEN_EXCEEDED
      else if cb_wallclock_cap (bg_budget g) < elapsed then WALLCLOCK_EXCEEDED
      else BUDGET_OK)"

section \<open>Operations\<close>

text \<open>The guard beside the log and the world; \<open>clk\<close> is the injected clock.\<close>

type_synonym ('w, 'a) guard_eff = "(budget_guard \<times> 'w sys, 'a) eff"

definition on_sys :: "('w sys, 'a) eff \<Rightarrow> ('w, 'a) guard_eff" where
  "on_sys m = zoom snd (\<lambda>s gs. (fst gs, s)) m"

definition start_guard :: "('w \<Rightarrow> int \<times> 'w) \<Rightarrow> cycle_budget \<Rightarrow> bool \<Rightarrow> ('w, budget_guard) eff" where
  "start_guard clk b has_log = seq (call clk) (\<lambda>t. ret (new_guard b has_log t))"

definition emit_if_first_breach :: "'w env \<Rightarrow> budget_status \<Rightarrow> ('w, unit) guard_eff" where
  "emit_if_first_breach env st = seq (gets fst) (\<lambda>g.
     if bs_kind st = BUDGET_OK then ret ()
     else if bg_emitted g \<or> \<not> bg_has_log g then ret ()
     else seq (modify (\<lambda>gs. ((fst gs)\<lparr>bg_emitted := True\<rparr>, snd gs))) (\<lambda>_.
       if bs_kind st = TOKEN_EXCEEDED
       then on_sys (emit env (budget_exceeded_event env (cb_cycle_id (bg_budget g)) ''token''
              (bs_tokens st) (bs_token_cap st)))
       else on_sys (emit env (budget_exceeded_event env (cb_cycle_id (bg_budget g)) ''wallclock''
              (trunc_rat (bs_elapsed st)) (trunc_rat (bs_wallclock_cap st))))))"

definition check_budget :: "'w env \<Rightarrow> ('w \<Rightarrow> int \<times> 'w) \<Rightarrow> ('w, budget_status) guard_eff" where
  "check_budget env clk =
     seq (on_sys (in_world (call clk))) (\<lambda>now.
     seq (gets fst) (\<lambda>g.
     let elapsed = elapsed_seconds g now in
     seq (lift_res (make_budget_status (classify g elapsed) (bg_tokens g)
            (cb_token_cap (bg_budget g)) elapsed (cb_wallclock_cap (bg_budget g)))) (\<lambda>st.
     seq (emit_if_first_breach env st) (\<lambda>_. ret st))))"

definition consume ::
  "'w env \<Rightarrow> ('w \<Rightarrow> int \<times> 'w) \<Rightarrow> int \<Rightarrow> int \<Rightarrow> ('w, budget_status) guard_eff" where
  "consume env clk token_in token_out =
     (if token_in < 0 \<or> token_out < 0 then raise ValueError
      else seq (modify (\<lambda>gs. ((fst gs)\<lparr>bg_tokens := bg_tokens (fst gs) + (token_in + token_out)\<rparr>, snd gs)))
             (\<lambda>_. check_budget env clk))"

text \<open>The calls a client makes, with their results; it goes on after an exception.\<close>

datatype guard_op = Consume int int | Check

fun run_op :: "'w env \<Rightarrow> ('w \<Rightarrow> int \<times> 'w) \<Rightarrow> guard_op \<Rightarrow> ('w, budget_status) guard_eff" where
  "run_op env clk (Consume i out) = consume env clk i out"
| "run_op env clk Check = check_budget env clk"

fun run_ops :: "'w env \<Rightarrow> ('w \<Rightarrow> int \<times> 'w) \<Rightarrow> guard_op list \<Rightarrow> budget_guard \<times> 'w sys \<Rightarrow>
    budget_status res list \<times> budget_guard \<times> 'w sys" where
  "run_ops env clk [] gs = ([], gs)"
| "run_ops env clk (x # xs) gs = (case run_op env clk x gs of (r, gs') \<Rightarrow>
     case run_ops env clk xs gs' of (rs, gs'') \<Rightarrow> (r # rs, gs''))"

section \<open>One operation\<close>

lemma on_sys_apply [simp]: "on_sys m (g, s) = (fst (m s), (g, snd (m s)))"
  by (simp add: on_sys_def)

definition breach :: "budget_status res \<Rightarrow> bool" where
  "breach r = (case r of Inr st \<Rightarrow> bs_kind st \<noteq> BUDGET_OK | Inl _ \<Rightarrow> False)"

lemma breach_simps [simp]: "\<not> breach (Inl e)" "breach (Inr st) \<longleftrightarrow> bs_kind st \<noteq> BUDGET_OK"
  by (simp_all add: breach_def)

text \<open>The payload of the event for a breach.\<close>

definition breach_payload :: "budget_status \<Rightarrow> payload" where
  "breach_payload st = (if bs_kind st = TOKEN_EXCEEDED
     then [(''budget_kind'', PStr ''token''), (''consumed'', PInt (bs_tokens st)),
       (''cap'', PInt (bs_token_cap st))]
     else [(''budget_kind'', PStr ''wallclock''), (''consumed'', PInt (trunc_rat (bs_elapsed st))),
       (''cap'', PInt (trunc_rat (bs_wallclock_cap st)))])"

definition breach_event :: "string \<Rightarrow> budget_status res \<Rightarrow> cycle_event \<Rightarrow> bool" where
  "breach_event cid r e = (case r of Inl _ \<Rightarrow> False
     | Inr st \<Rightarrow> ev_kind e = BUDGET_EXCEEDED \<and> ev_cycle e = cid \<and> ev_payload e = breach_payload st)"

text \<open>The events a run of calls with these results should add: none, or the first breach's.\<close>

definition first_breach_only :: "string \<Rightarrow> budget_status res list \<Rightarrow> cycle_event list \<Rightarrow> bool" where
  "first_breach_only cid rs es = (case filter breach rs of [] \<Rightarrow> es = []
     | r # _ \<Rightarrow> \<exists>e. es = [e] \<and> breach_event cid r e)"

text \<open>An environment whose event ids are valid and a log whose listeners return.\<close>

definition calm :: "'w env \<Rightarrow> 'w event_log \<Rightarrow> bool" where
  "calm env l \<longleftrightarrow> (\<forall>w. id_ok (fst (env_token_hex env w))) \<and>
     (\<forall>k\<in>set (el_listeners l). \<forall>e w. is_ok (fst (k e w)))"

lemma calm_log_grows: "calm env l \<Longrightarrow> log_grows l es l' \<Longrightarrow> calm env l'"
  by (simp add: calm_def log_grows_def)

lemma build_event_calm:
  assumes "calm env l" and "id_ok cid"
  shows "\<exists>e w'. build_event env cid k p w = (Inr e, w') \<and> ev_kind e = k \<and> ev_cycle e = cid \<and>
    ev_payload e = p"
  using assms by (auto simp: calm_def build_event_def seq_apply new_event_id_def make_event_def)

lemma append_event_calm:
  "calm env (sys_log s) \<Longrightarrow> fst (append_event env e s) = Inr ()"
  by (simp add: append_event_apply calm_def notify_ok)

lemma emit_calm:
  assumes "calm env (sys_log s)" and "id_ok cid"
  shows "\<exists>e. fst (emit env (build_event env cid k p) s) = Inr () \<and>
    log_grows (sys_log s) [e] (sys_log (snd (emit env (build_event env cid k p) s))) \<and>
    ev_kind e = k \<and> ev_cycle e = cid \<and> ev_payload e = p"
proof -
  obtain e w' where e: "build_event env cid k p (sys_world s) = (Inr e, w')"
    "ev_kind e = k" "ev_cycle e = cid" "ev_payload e = p"
    using build_event_calm [OF assms] by blast
  have "emit env (build_event env cid k p) s = append_event env e (s\<lparr>sys_world := w'\<rparr>)"
    by (simp add: emit_def seq_apply e(1))
  with e append_event_calm [of env "s\<lparr>sys_world := w'\<rparr>" e] assms(1) show ?thesis
    by (intro exI [of _ e]) (simp add: append_event_apply)
qed

lemma emit_if_first_breach_quiet:
  "bs_kind st = BUDGET_OK \<or> bg_emitted g \<Longrightarrow> emit_if_first_breach env st (g, s) = (Inr (), (g, s))"
  by (auto simp: emit_if_first_breach_def seq_apply)

lemma emit_if_first_breach_emits:
  assumes "bs_kind st \<noteq> BUDGET_OK" and "\<not> bg_emitted g" and "bg_has_log g"
    and "calm env (sys_log s)" and "id_ok (cb_cycle_id (bg_budget g))"
  shows "\<exists>e s'. emit_if_first_breach env st (g, s) = (Inr (), (g\<lparr>bg_emitted := True\<rparr>, s')) \<and>
    log_grows (sys_log s) [e] (sys_log s') \<and> breach_event (cb_cycle_id (bg_budget g)) (Inr st) e"
  using assms emit_calm [OF assms(4,5), of BUDGET_EXCEEDED "breach_payload st"]
  by (auto simp: emit_if_first_breach_def seq_apply budget_exceeded_event_def breach_payload_def
      breach_event_def split: if_splits)

text \<open>What one check does to a guard that has a log.\<close>

definition guard_effect ::
  "budget_guard \<Rightarrow> 'w event_log \<Rightarrow> budget_status res \<Rightarrow> budget_guard \<Rightarrow> 'w event_log \<Rightarrow> bool" where
  "guard_effect g l r g' l' \<longleftrightarrow>
     bg_budget g' = bg_budget g \<and> bg_has_log g' = bg_has_log g \<and>
     bg_emitted g' = (bg_emitted g \<or> breach r) \<and>
     (if bg_emitted g \<or> \<not> breach r then log_grows l [] l'
      else \<exists>e. log_grows l [e] l' \<and> breach_event (cb_cycle_id (bg_budget g)) r e)"

lemma check_budget_effect:
  assumes "bg_has_log g" and "calm env (sys_log s)" and "id_ok (cb_cycle_id (bg_budget g))"
    and "check_budget env clk (g, s) = (r, (g', s'))"
  shows "guard_effect g (sys_log s) r g' (sys_log s') \<and> bg_tokens g' = bg_tokens g"
proof -
  define now where "now = fst (clk (sys_world s))"
  define s1 where "s1 = s\<lparr>sys_world := snd (clk (sys_world s))\<rparr>"
  define el where "el = elapsed_seconds g now"
  define m where "m = make_budget_status (classify g el) (bg_tokens g)
            (cb_token_cap (bg_budget g)) el (cb_wallclock_cap (bg_budget g))"
  have run: "(case m of Inl e \<Rightarrow> (Inl e, (g, s1)) | Inr st \<Rightarrow>
      seq (emit_if_first_breach env st) (\<lambda>_. ret st) (g, s1)) = (r, (g', s'))"
    using assms(4) unfolding now_def s1_def el_def m_def
    by (simp add: check_budget_def seq_apply [of "on_sys _"] seq_apply [of "gets _"]
        seq_apply [of "lift_res _"] Let_def)
  have log: "sys_log s1 = sys_log s" by (simp add: s1_def)
  show ?thesis
  proof (cases m)
    case (Inl e)
    with run log show ?thesis by (auto simp: guard_effect_def)
  next
    case (Inr st)
    show ?thesis
    proof (cases "bs_kind st = BUDGET_OK \<or> bg_emitted g")
      case True
      with run Inr log show ?thesis
        by (auto simp: guard_effect_def seq_apply emit_if_first_breach_quiet)
    next
      case False
      with emit_if_first_breach_emits [of st g env s1] assms log run Inr show ?thesis
        by (auto simp: guard_effect_def seq_apply)
    qed
  qed
qed

definition op_tokens :: "guard_op \<Rightarrow> int" where
  "op_tokens x = (case x of Check \<Rightarrow> 0 | Consume i out \<Rightarrow> if i < 0 \<or> out < 0 then 0 else i + out)"

lemma run_op_effect:
  assumes "bg_has_log g" and "calm env (sys_log s)" and "id_ok (cb_cycle_id (bg_budget g))"
    and "run_op env clk x (g, s) = (r, (g', s'))"
  shows "guard_effect g (sys_log s) r g' (sys_log s') \<and> bg_tokens g' = bg_tokens g + op_tokens x"
proof (cases x)
  case Check
  with check_budget_effect [OF assms(1-3)] assms(4) show ?thesis by (simp add: op_tokens_def)
next
  case (Consume i out)
  show ?thesis
  proof (cases "i < 0 \<or> out < 0")
    case True
    with assms(4) Consume show ?thesis
      by (auto simp: consume_def op_tokens_def guard_effect_def)
  next
    case False
    let ?g = "g\<lparr>bg_tokens := bg_tokens g + (i + out)\<rparr>"
    have "check_budget env clk (?g, s) = (r, (g', s'))"
      using assms(4) Consume False by (simp add: consume_def seq_apply [of "modify _"])
    from check_budget_effect [OF _ assms(2) _ this] assms(1,3) show ?thesis
      using False Consume by (simp add: guard_effect_def op_tokens_def cong: if_cong)
  qed
qed

section \<open>Runs\<close>

lemma run_ops_effect:
  assumes "bg_has_log g" and "calm env (sys_log s)" and "id_ok (cb_cycle_id (bg_budget g))"
    and "run_ops env clk xs (g, s) = (rs, (g', s'))"
  shows "bg_budget g' = bg_budget g \<and> bg_tokens g' = bg_tokens g + sum_list (map op_tokens xs) \<and>
    (\<exists>es. log_grows (sys_log s) es (sys_log s') \<and>
      (if bg_emitted g then es = [] else first_breach_only (cb_cycle_id (bg_budget g)) rs es))"
  using assms
proof (induction xs arbitrary: g s rs)
  case Nil
  then show ?case by (auto intro: exI [of _ "[]"] simp: first_breach_only_def)
next
  case (Cons x xs)
  let ?cid = "cb_cycle_id (bg_budget g)"
  obtain r g1 s1 where one: "run_op env clk x (g, s) = (r, (g1, s1))" by (metis prod_cases3)
  with Cons.prems(4) obtain rs' where rs: "rs = r # rs'"
    and rest: "run_ops env clk xs (g1, s1) = (rs', (g', s'))"
    by (auto split: prod.splits)
  have eff: "guard_effect g (sys_log s) r g1 (sys_log s1)" "bg_tokens g1 = bg_tokens g + op_tokens x"
    using run_op_effect [OF Cons.prems(1-3) one] by auto
  then have g1: "bg_budget g1 = bg_budget g" "bg_has_log g1" "bg_emitted g1 = (bg_emitted g \<or> breach r)"
    using Cons.prems(1) by (simp_all add: guard_effect_def)
  have calm: "calm env (sys_log s1)"
    using eff(1) Cons.prems(2) calm_log_grows unfolding guard_effect_def by metis
  from Cons.IH [OF g1(2) calm _ rest] g1 Cons.prems(3) obtain es where
    es: "log_grows (sys_log s1) es (sys_log s')"
      "if bg_emitted g1 then es = [] else first_breach_only ?cid rs' es"
    and tk: "bg_budget g' = bg_budget g" "bg_tokens g' = bg_tokens g1 + sum_list (map op_tokens xs)"
    by (auto cong: if_cong)
  have "\<exists>es. log_grows (sys_log s) es (sys_log s') \<and>
      (if bg_emitted g then es = [] else first_breach_only ?cid rs es)"
  proof (cases "bg_emitted g \<or> \<not> breach r")
    case True
    then have "log_grows (sys_log s) es (sys_log s')"
      using eff(1) es(1) log_grows_trans [of "sys_log s" "[]" "sys_log s1" es]
      by (auto simp: guard_effect_def)
    with True es(2) g1(3) rs show ?thesis by (intro exI [of _ es]) (auto simp: first_breach_only_def)
  next
    case False
    then obtain e where e: "log_grows (sys_log s) [e] (sys_log s1)" "breach_event ?cid r e"
      using eff(1) by (auto simp: guard_effect_def)
    from False g1(3) es(2) have "es = []" by simp
    with es(1) log_grows_trans [OF e(1), of es] have "log_grows (sys_log s) [e] (sys_log s')" by simp
    with e(2) False rs show ?thesis by (intro exI [of _ "[e]"]) (auto simp: first_breach_only_def)
  qed
  with tk eff(2) show ?case by simp
qed

text \<open>A budget breach is logged once. Whatever calls are made of a fresh guard that has a log,
  in whatever order and whatever the clock shows: if no call reports a breach the log does not
  change; otherwise it grows by exactly one BUDGET_EXCEEDED event of the cycle, which carries the
  kind, consumption and cap of the first breach reported. The guard's token count is the sum of
  the consumptions that were not refused as negative.\<close>

theorem breach_logged_once:
  assumes "calm env (sys_log s)" and "id_ok (cb_cycle_id b)"
    and "run_ops env clk xs (new_guard b True t0, s) = (rs, (g, s'))"
  shows "bg_tokens g = sum_list (map op_tokens xs) \<and>
    (\<exists>es. log_grows (sys_log s) es (sys_log s') \<and> first_breach_only (cb_cycle_id b) rs es)"
  using run_ops_effect [OF _ assms(1) _ assms(3)] assms(2) by (simp add: new_guard_def)

definition sample_sys :: "unit sys" where
  "sample_sys = \<lparr>sys_log = new_log False None, sys_world = ()\<rparr>"

definition sample_budget :: cycle_budget where
  "sample_budget = \<lparr>cb_cycle_id = ''c'', cb_token_cap = 10, cb_wallclock_cap = 5\<rparr>"

theorem breach_logged_once_witness:
  "\<exists>es. log_grows (sys_log sample_sys) es
      (sys_log (snd (snd (run_ops sample_env (\<lambda>w. (0, w)) [Consume 4 5, Consume 1 1, Check]
        (new_guard sample_budget True 0, sample_sys))))) \<and> length es = 1"
proof -
  let ?in = "(new_guard sample_budget True 0, sample_sys)"
  let ?xs = "[Consume 4 5, Consume 1 1, Check]"
  obtain rs g s where run: "run_ops sample_env (\<lambda>w. (0, w)) ?xs ?in = (rs, (g, s))"
    by (metis prod_cases3)
  have calm: "calm sample_env (sys_log sample_sys)" "id_ok (cb_cycle_id sample_budget)"
    by (simp_all add: calm_def sample_env_def sample_sys_def new_log_def id_ok_def sample_budget_def)
  have "map breach (fst (run_ops sample_env (\<lambda>w. (0, w)) ?xs ?in)) = [False, True, True]"
    by code_simp
  then have "map breach rs = [False, True, True]" by (simp only: run fst_conv)
  then obtain r rs' where "filter breach rs = r # rs'" by auto
  with breach_logged_once [OF calm run]
  have "\<exists>es. log_grows (sys_log sample_sys) es (sys_log s) \<and> length es = 1"
    by (auto simp: first_breach_only_def)
  then show ?thesis by (simp only: run snd_conv)
qed

end
