(* ===== verification/Artifacts.thy ===== *)
theory Artifacts
  imports Py_Decimal
begin

text \<open>
  The typed artifacts the agents exchange (\<open>src/caqrs/schemas/\<close>): one record per
  class, and one \<open>validate_\<close> function per class that strips the strings, checks the field
  constraints and runs the model validators in order, as constructing the class does. A refused
  value is \<open>Inl ValidationError\<close>; comparing a naive with an aware datetime is
  \<open>Inl TypeError\<close>.

  A datetime is its instant in microseconds, with or without a time zone.
\<close>

named_theorems artifact_defs "definitions of the artifact validators"

section \<open>Shared pieces (schemas/common.py)\<close>

datatype pydt = Aware int | Naive int

fun is_aware :: "pydt \<Rightarrow> bool" where
  "is_aware (Aware _) = True"
| "is_aware (Naive _) = False"

fun micros :: "pydt \<Rightarrow> int" where
  "micros (Aware t) = t"
| "micros (Naive t) = t"

fun dt_less :: "pydt \<Rightarrow> pydt \<Rightarrow> bool res" where
  "dt_less (Aware a) (Aware b) = Inr (a < b)"
| "dt_less (Naive a) (Naive b) = Inr (a < b)"
| "dt_less _ _ = Inl TypeError"

fun dt_leq :: "pydt \<Rightarrow> pydt \<Rightarrow> bool res" where
  "dt_leq (Aware a) (Aware b) = Inr (a \<le> b)"
| "dt_leq (Naive a) (Naive b) = Inr (a \<le> b)"
| "dt_leq _ _ = Inl TypeError"

text \<open>\<open>str\_strip\_whitespace\<close> trims the Unicode white space of the validator, which, unlike
  \<open>str.strip\<close>, does not include the four separators U+001C to U+001F.\<close>

definition is_white :: "char \<Rightarrow> bool" where
  "is_white c = (let n = (of_char c :: nat) in n = 32 \<or> (9 \<le> n \<and> n \<le> 13) \<or> n = 133 \<or> n = 160)"

definition strip :: "string \<Rightarrow> string" where
  "strip s = strip_by is_white s"

definition check :: "bool \<Rightarrow> unit res" where
  "check b = (if b then Inr () else Inl ValidationError)"

lemma check_Inr [simp]: "check b = Inr u \<longleftrightarrow> b"
  by (simp add: check_def)

definition len_in :: "nat \<Rightarrow> nat \<Rightarrow> 'a list \<Rightarrow> bool" where
  "len_in lo hi xs = (lo \<le> length xs \<and> length xs \<le> hi)"

definition is_hex :: "char \<Rightarrow> bool" where
  "is_hex c = (let n = (of_char c :: nat) in (48 \<le> n \<and> n \<le> 57) \<or> (97 \<le> n \<and> n \<le> 102))"

definition run_id_ok :: "string \<Rightarrow> bool" where
  "run_id_ok s = (length s = 16 \<and> list_all is_hex s)"

definition is_upper_alnum :: "char \<Rightarrow> bool" where
  "is_upper_alnum c = (let n = (of_char c :: nat) in (48 \<le> n \<and> n \<le> 57) \<or> (65 \<le> n \<and> n \<le> 90))"

definition ticker_ok :: "string \<Rightarrow> bool" where
  "ticker_ok s = (case s of [] \<Rightarrow> False
     | c # cs \<Rightarrow> is_upper_alnum c \<and> length cs \<le> 11 \<and>
         list_all (\<lambda>d. is_upper_alnum d \<or> d \<in> set ''._:-/'') cs)"

definition dec_ge0 :: "decimal \<Rightarrow> bool" where
  "dec_ge0 d = dec_le dzero d"

definition unit_weight :: "decimal \<Rightarrow> bool" where
  "unit_weight w = (dec_lt dzero w \<and> dec_le w (Dec 1 0))"

definition horizon_ok :: "int \<Rightarrow> bool" where
  "horizon_ok h = (1 \<le> h \<and> h \<le> 10 * 365)"

record run_metadata =
  md_run_id :: string
  md_parent_id :: "string option"
  md_agent_name :: string
  md_model_id :: string
  md_created_at :: pydt
  md_llm_cost_usd :: decimal
  md_latency_ms :: int
  md_token_in :: int
  md_token_out :: int

definition strip_metadata :: "run_metadata \<Rightarrow> run_metadata" where
  "strip_metadata m = m\<lparr>md_run_id := strip (md_run_id m),
     md_parent_id := map_option strip (md_parent_id m),
     md_agent_name := strip (md_agent_name m), md_model_id := strip (md_model_id m)\<rparr>"

definition metadata_fields_ok :: "run_metadata \<Rightarrow> bool" where
  "metadata_fields_ok m = (run_id_ok (md_run_id m) \<and> pred_option run_id_ok (md_parent_id m) \<and>
     len_in 1 80 (md_agent_name m) \<and> len_in 1 120 (md_model_id m) \<and>
     dec_ge0 (md_llm_cost_usd m) \<and> 0 \<le> md_latency_ms m \<and> 0 \<le> md_token_in m \<and> 0 \<le> md_token_out m)"

definition validate_metadata :: "run_metadata \<Rightarrow> run_metadata res" where
  "validate_metadata m0 = (let m = strip_metadata m0 in
     bind_res (check (metadata_fields_ok m)) (\<lambda>_.
     bind_res (check (is_aware (md_created_at m))) (\<lambda>_. Inr m)))"

section \<open>Strategy decision (schemas/decision.py)\<close>

datatype decision_action = ADOPT | REJECT | DEFER

datatype side = BUY | SELL

fun action_value :: "decision_action \<Rightarrow> string" where
  "action_value ADOPT = ''adopt''"
| "action_value REJECT = ''reject''"
| "action_value DEFER = ''defer''"

fun side_value :: "side \<Rightarrow> string" where
  "side_value BUY = ''buy''"
| "side_value SELL = ''sell''"

record target_position =
  tp_ticker :: string
  tp_side :: side
  tp_weight :: decimal

definition validate_target :: "target_position \<Rightarrow> target_position res" where
  "validate_target t0 = (let t = t0\<lparr>tp_ticker := strip (tp_ticker t0)\<rparr> in
     bind_res (check (ticker_ok (tp_ticker t) \<and> unit_weight (tp_weight t))) (\<lambda>_. Inr t))"

record strategy_decision =
  sd_schema_version :: int
  sd_metadata :: run_metadata
  sd_backtest_run_id :: string
  sd_action :: decision_action
  sd_targets :: "target_position list"
  sd_rationale :: string
  sd_notional_cap_usd :: decimal
  sd_max_position_weight :: decimal
  sd_daily_loss_limit_usd :: decimal

definition decision_fields_ok :: "strategy_decision \<Rightarrow> bool" where
  "decision_fields_ok d = (sd_schema_version d = 1 \<and> run_id_ok (sd_backtest_run_id d) \<and>
     length (sd_targets d) \<le> 500 \<and> len_in 1 4000 (sd_rationale d) \<and>
     dec_ge0 (sd_notional_cap_usd d) \<and> unit_weight (sd_max_position_weight d) \<and>
     dec_ge0 (sd_daily_loss_limit_usd d))"

definition adopt_requires_targets :: "decision_action \<Rightarrow> 'a list \<Rightarrow> bool" where
  "adopt_requires_targets a ts = (\<not> (a = ADOPT \<and> ts = []) \<and> \<not> (a \<noteq> ADOPT \<and> ts \<noteq> []))"

definition weights_within_envelope :: "dec_ctx \<Rightarrow> strategy_decision \<Rightarrow> bool" where
  "weights_within_envelope fx d =
     (list_all (\<lambda>t. \<not> dec_lt (sd_max_position_weight d) (tp_weight t)) (sd_targets d) \<and>
      \<not> dec_lt (Dec 1 0) (dec_sum fx dzero (map tp_weight (sd_targets d))))"

definition no_duplicate_tickers :: "strategy_decision \<Rightarrow> bool" where
  "no_duplicate_tickers d = distinct (map tp_ticker (sd_targets d))"

text \<open>The nested models (metadata, targets) are validated when they are built.\<close>

definition validate_decision :: "dec_ctx \<Rightarrow> strategy_decision \<Rightarrow> strategy_decision res" where
  "validate_decision fx d0 = (let d = d0\<lparr>sd_backtest_run_id := strip (sd_backtest_run_id d0),
       sd_rationale := strip (sd_rationale d0)\<rparr> in
     bind_res (check (decision_fields_ok d)) (\<lambda>_.
     bind_res (check (adopt_requires_targets (sd_action d) (sd_targets d))) (\<lambda>_.
     bind_res (check (weights_within_envelope fx d)) (\<lambda>_.
     bind_res (check (no_duplicate_tickers d)) (\<lambda>_. Inr d)))))"

section \<open>Skeptic report (schemas/skeptic.py)\<close>

datatype severity = LOW | MEDIUM | HIGH | FATAL

datatype skeptic_verdict = PROCEED | REQUIRE_REVISION | KILL

record falsification_path =
  fp_description :: string
  fp_severity :: severity
  fp_evidence_marker :: string

record skeptic_report =
  sk_schema_version :: int
  sk_metadata :: run_metadata
  sk_hypothesis_run_id :: string
  sk_verdict :: skeptic_verdict
  sk_falsification_paths :: "falsification_path list"
  sk_concerns :: "string list"
  sk_summary :: string

definition has_fatal :: "skeptic_report \<Rightarrow> bool" where
  "has_fatal r = list_ex (\<lambda>p. fp_severity p = FATAL) (sk_falsification_paths r)"

definition validate_path :: "falsification_path \<Rightarrow> falsification_path res" where
  "validate_path p0 = (let p = p0\<lparr>fp_description := strip (fp_description p0),
       fp_evidence_marker := strip (fp_evidence_marker p0)\<rparr> in
     bind_res (check (len_in 1 500 (fp_description p) \<and> len_in 1 500 (fp_evidence_marker p)))
       (\<lambda>_. Inr p))"

definition skeptic_fields_ok :: "skeptic_report \<Rightarrow> bool" where
  "skeptic_fields_ok r = (sk_schema_version r = 1 \<and> run_id_ok (sk_hypothesis_run_id r) \<and>
     length (sk_falsification_paths r) \<le> 20 \<and> length (sk_concerns r) \<le> 20 \<and>
     len_in 1 2000 (sk_summary r))"

definition kill_requires_fatal_path :: "skeptic_report \<Rightarrow> bool" where
  "kill_requires_fatal_path r =
     (sk_verdict r \<noteq> KILL \<or> has_fatal r \<or> sk_concerns r \<noteq> [])"

definition proceed_does_not_carry_fatal :: "skeptic_report \<Rightarrow> bool" where
  "proceed_does_not_carry_fatal r = (\<not> (sk_verdict r = PROCEED \<and> has_fatal r))"

definition validate_skeptic :: "skeptic_report \<Rightarrow> skeptic_report res" where
  "validate_skeptic r0 = (let r = r0\<lparr>sk_hypothesis_run_id := strip (sk_hypothesis_run_id r0),
       sk_concerns := map strip (sk_concerns r0), sk_summary := strip (sk_summary r0)\<rparr> in
     bind_res (check (skeptic_fields_ok r)) (\<lambda>_.
     bind_res (check (kill_requires_fatal_path r)) (\<lambda>_.
     bind_res (check (proceed_does_not_carry_fatal r)) (\<lambda>_. Inr r))))"

section \<open>Audit report (schemas/audit.py)\<close>

datatype audit_verdict = PASS | FAIL

record acceptance_check =
  ac_metric_path :: string
  ac_op :: string
  ac_threshold :: decimal
  ac_actual :: "decimal option"
  ac_passed :: bool

record audit_report =
  ar_schema_version :: int
  ar_metadata :: run_metadata
  ar_hypothesis_run_id :: string
  ar_backtest_run_id :: string
  ar_verdict :: audit_verdict
  ar_checks :: "acceptance_check list"
  ar_rationale :: string

definition op_ok :: "string \<Rightarrow> bool" where
  "op_ok s = (s \<in> set [''>='', ''<='', ''>'', ''<'', ''=='', ''!=''])"

definition validate_acceptance_check :: "acceptance_check \<Rightarrow> acceptance_check res" where
  "validate_acceptance_check c0 = (let c = c0\<lparr>ac_metric_path := strip (ac_metric_path c0),
       ac_op := strip (ac_op c0)\<rparr> in
     bind_res (check (len_in 1 200 (ac_metric_path c) \<and> op_ok (ac_op c))) (\<lambda>_. Inr c))"

definition audit_fields_ok :: "audit_report \<Rightarrow> bool" where
  "audit_fields_ok r = (ar_schema_version r = 1 \<and> run_id_ok (ar_hypothesis_run_id r) \<and>
     run_id_ok (ar_backtest_run_id r) \<and> len_in 1 20 (ar_checks r) \<and> len_in 1 2000 (ar_rationale r))"

definition verdict_matches_checks :: "audit_report \<Rightarrow> bool" where
  "verdict_matches_checks r = (let all_passed = list_all ac_passed (ar_checks r) in
     \<not> (ar_verdict r = PASS \<and> \<not> all_passed) \<and> \<not> (ar_verdict r = FAIL \<and> all_passed))"

definition validate_audit :: "audit_report \<Rightarrow> audit_report res" where
  "validate_audit r0 = (let r = r0\<lparr>ar_hypothesis_run_id := strip (ar_hypothesis_run_id r0),
       ar_backtest_run_id := strip (ar_backtest_run_id r0), ar_rationale := strip (ar_rationale r0)\<rparr> in
     bind_res (check (audit_fields_ok r)) (\<lambda>_.
     bind_res (check (verdict_matches_checks r)) (\<lambda>_. Inr r)))"

section \<open>Research plan (schemas/research\_plan.py)\<close>

datatype data_frequency = DAILY | HOURLY | MINUTE

record walk_forward_window =
  wf_train_start :: pydt
  wf_train_end :: pydt
  wf_test_start :: pydt
  wf_test_end :: pydt

text \<open>All four bounds are aware before they are compared, so the chained comparison compares
  instants.\<close>

definition validate_window :: "walk_forward_window \<Rightarrow> walk_forward_window res" where
  "validate_window w =
     bind_res (check (list_all is_aware [wf_train_start w, wf_train_end w, wf_test_start w, wf_test_end w])) (\<lambda>_.
     bind_res (check (micros (wf_train_start w) < micros (wf_train_end w) \<and>
       micros (wf_train_end w) \<le> micros (wf_test_start w) \<and>
       micros (wf_test_start w) < micros (wf_test_end w))) (\<lambda>_. Inr w))"

record research_plan =
  rp_schema_version :: int
  rp_metadata :: run_metadata
  rp_hypothesis_run_id :: string
  rp_universe :: "string list"
  rp_frequency :: data_frequency
  rp_walk_forward :: "walk_forward_window list"
  rp_cost_model_bps :: decimal
  rp_slippage_bps :: decimal
  rp_seed :: int

definition bps_ok :: "decimal \<Rightarrow> bool" where
  "bps_ok d = (dec_ge0 d \<and> dec_le d (Dec 1000 0))"

definition plan_fields_ok :: "research_plan \<Rightarrow> bool" where
  "plan_fields_ok p = (rp_schema_version p = 1 \<and> run_id_ok (rp_hypothesis_run_id p) \<and>
     len_in 1 500 (rp_universe p) \<and> list_all ticker_ok (rp_universe p) \<and>
     len_in 1 200 (rp_walk_forward p) \<and> bps_ok (rp_cost_model_bps p) \<and>
     bps_ok (rp_slippage_bps p) \<and> 0 \<le> rp_seed p \<and> rp_seed p \<le> 2 ^ 63 - 1)"

fun no_test_overlap :: "pydt option \<Rightarrow> walk_forward_window list \<Rightarrow> unit res" where
  "no_test_overlap prev [] = Inr ()"
| "no_test_overlap prev (w # ws) =
     bind_res (case prev of None \<Rightarrow> Inr False | Some e \<Rightarrow> dt_less (wf_test_start w) e) (\<lambda>bad.
       if bad then Inl ValidationError else no_test_overlap (Some (wf_test_end w)) ws)"

definition validate_plan :: "research_plan \<Rightarrow> research_plan res" where
  "validate_plan p0 = (let p = p0\<lparr>rp_hypothesis_run_id := strip (rp_hypothesis_run_id p0),
       rp_universe := map strip (rp_universe p0)\<rparr> in
     bind_res (check (plan_fields_ok p)) (\<lambda>_.
     bind_res (no_test_overlap None (rp_walk_forward p)) (\<lambda>_. Inr p)))"

section \<open>Backtest report (schemas/backtest\_report.py)\<close>

record fold_metrics =
  fm_fold_index :: int
  fm_test_start :: pydt
  fm_test_end :: pydt
  fm_sharpe :: decimal
  fm_max_drawdown_pct :: decimal
  fm_turnover :: decimal
  fm_n_trades :: int
  fm_pnl_usd :: decimal

definition pct_ok :: "decimal \<Rightarrow> bool" where
  "pct_ok d = (dec_ge0 d \<and> dec_le d (Dec 100 0))"

definition validate_fold :: "fold_metrics \<Rightarrow> fold_metrics res" where
  "validate_fold f = bind_res (check (0 \<le> fm_fold_index f \<and> pct_ok (fm_max_drawdown_pct f) \<and>
     dec_ge0 (fm_turnover f) \<and> 0 \<le> fm_n_trades f)) (\<lambda>_. Inr f)"

record aggregate_metrics =
  ag_median_sharpe :: decimal
  ag_mean_sharpe :: decimal
  ag_worst_fold_sharpe :: decimal
  ag_median_max_drawdown_pct :: decimal
  ag_total_pnl_usd :: decimal
  ag_total_trades :: int

definition validate_aggregate :: "aggregate_metrics \<Rightarrow> aggregate_metrics res" where
  "validate_aggregate a = bind_res (check (pct_ok (ag_median_max_drawdown_pct a) \<and> 0 \<le> ag_total_trades a))
     (\<lambda>_. Inr a)"

record backtest_report =
  br_schema_version :: int
  br_metadata :: run_metadata
  br_plan_run_id :: string
  br_folds :: "fold_metrics list"
  br_aggregate :: aggregate_metrics

fun folds_contiguous :: "int \<Rightarrow> fold_metrics list \<Rightarrow> unit res" where
  "folds_contiguous i [] = Inr ()"
| "folds_contiguous i (f # fs) =
     (if fm_fold_index f \<noteq> i then Inl ValidationError
      else bind_res (dt_leq (fm_test_end f) (fm_test_start f)) (\<lambda>bad.
        if bad then Inl ValidationError else folds_contiguous (i + 1) fs))"

definition validate_backtest :: "backtest_report \<Rightarrow> backtest_report res" where
  "validate_backtest r0 = (let r = r0\<lparr>br_plan_run_id := strip (br_plan_run_id r0)\<rparr> in
     bind_res (check (br_schema_version r = 1 \<and> run_id_ok (br_plan_run_id r) \<and> len_in 1 200 (br_folds r))) (\<lambda>_.
     bind_res (folds_contiguous 0 (br_folds r)) (\<lambda>_. Inr r)))"

section \<open>Hypothesis card (schemas/hypothesis\_card.py)\<close>

datatype hypothesis_status = DRAFT | UNDER_REVIEW | ADOPTED | REJECTED_H | SUPERSEDED

datatype direction = LONG | SHORT | LONG_SHORT | NEUTRAL

record acceptance_criterion =
  cr_metric_path :: string
  cr_op :: string
  cr_threshold :: decimal

definition validate_criterion :: "acceptance_criterion \<Rightarrow> acceptance_criterion res" where
  "validate_criterion c0 = (let c = c0\<lparr>cr_metric_path := strip (cr_metric_path c0), cr_op := strip (cr_op c0)\<rparr> in
     bind_res (check (len_in 1 200 (cr_metric_path c) \<and> op_ok (cr_op c))) (\<lambda>_. Inr c))"

record hypothesis_card =
  hc_schema_version :: int
  hc_metadata :: run_metadata
  hc_status :: hypothesis_status
  hc_claim :: string
  hc_rationale :: string
  hc_universe :: "string list"
  hc_direction :: direction
  hc_horizon_days :: int
  hc_variables :: "string list"
  hc_acceptance :: "acceptance_criterion list"
  hc_max_drawdown_pct :: decimal
  hc_expected_window_start :: pydt
  hc_expected_window_end :: pydt

definition hypothesis_fields_ok :: "hypothesis_card \<Rightarrow> bool" where
  "hypothesis_fields_ok h = (hc_schema_version h = 1 \<and> len_in 10 500 (hc_claim h) \<and>
     len_in 1 4000 (hc_rationale h) \<and> len_in 1 500 (hc_universe h) \<and> list_all ticker_ok (hc_universe h) \<and>
     horizon_ok (hc_horizon_days h) \<and> len_in 1 20 (hc_variables h) \<and> len_in 1 10 (hc_acceptance h) \<and>
     dec_lt dzero (hc_max_drawdown_pct h) \<and> dec_le (hc_max_drawdown_pct h) (Dec 100 0))"

definition check_window :: "hypothesis_card \<Rightarrow> bool" where
  "check_window h = (is_aware (hc_expected_window_start h) \<and> is_aware (hc_expected_window_end h) \<and>
     micros (hc_expected_window_start h) < micros (hc_expected_window_end h))"

definition validate_hypothesis :: "hypothesis_card \<Rightarrow> hypothesis_card res" where
  "validate_hypothesis h0 = (let h = h0\<lparr>hc_claim := strip (hc_claim h0), hc_rationale := strip (hc_rationale h0),
       hc_universe := map strip (hc_universe h0), hc_variables := map strip (hc_variables h0)\<rparr> in
     bind_res (check (hypothesis_fields_ok h)) (\<lambda>_.
     bind_res (check (check_window h)) (\<lambda>_.
     bind_res (check (distinct (hc_universe h))) (\<lambda>_. Inr h))))"

end
