(* ===== verification/Observer.thy ===== *)
theory Observer
  imports Artifacts
begin

text \<open>
  The request to the Observer agent and its artifact (\<open>schemas/observer.py\<close>), with their
  validators.
\<close>

record polymarket_outcome =
  po_label :: string
  po_token_id :: string
  po_midpoint :: "decimal option"
  po_last_trade_price :: "decimal option"
  po_spread :: "decimal option"

definition probability_ok :: "decimal \<Rightarrow> bool" where
  "probability_ok d = (dec_ge0 d \<and> dec_le d (Dec 1 0))"

definition validate_outcome :: "polymarket_outcome \<Rightarrow> polymarket_outcome res" where
  "validate_outcome x0 = (let x = x0\<lparr>po_label := strip (po_label x0), po_token_id := strip (po_token_id x0)\<rparr> in
     bind_res (check (len_in 1 120 (po_label x) \<and> len_in 1 128 (po_token_id x) \<and>
       pred_option probability_ok (po_midpoint x) \<and> pred_option probability_ok (po_last_trade_price x) \<and>
       pred_option dec_ge0 (po_spread x))) (\<lambda>_. Inr x))"

record polymarket_signal =
  ps_market_id :: string
  ps_slug :: "string option"
  ps_question :: "string option"
  ps_end_date :: "pydt option"
  ps_is_binary :: bool
  ps_outcomes :: "polymarket_outcome list"
  ps_fetched_at :: pydt

definition signal_tz_aware :: "polymarket_signal \<Rightarrow> bool" where
  "signal_tz_aware s = (is_aware (ps_fetched_at s) \<and> pred_option is_aware (ps_end_date s))"

definition binary_flag_matches :: "polymarket_signal \<Rightarrow> bool" where
  "binary_flag_matches s = (\<not> (ps_is_binary s \<and> length (ps_outcomes s) \<noteq> 2))"

definition validate_signal :: "polymarket_signal \<Rightarrow> polymarket_signal res" where
  "validate_signal s0 = (let s = s0\<lparr>ps_market_id := strip (ps_market_id s0),
       ps_slug := map_option strip (ps_slug s0), ps_question := map_option strip (ps_question s0)\<rparr> in
     bind_res (check (len_in 1 128 (ps_market_id s) \<and> pred_option (\<lambda>x. length x \<le> 200) (ps_slug s) \<and>
       pred_option (\<lambda>x. length x \<le> 500) (ps_question s) \<and> len_in 1 20 (ps_outcomes s))) (\<lambda>_.
     bind_res (check (signal_tz_aware s)) (\<lambda>_.
     bind_res (check (binary_flag_matches s)) (\<lambda>_. Inr s))))"

datatype data_dimension = DIM_PRICES | DIM_NEWS | DIM_MACRO | DIM_FILINGS | DIM_SOCIAL

record observer_input =
  oi_schema_version :: int
  oi_universe :: "string list"
  oi_as_of :: pydt
  oi_horizon_days :: int
  oi_dimensions :: "data_dimension list"
  oi_signals :: "polymarket_signal list"

definition validate_observer_input :: "observer_input \<Rightarrow> observer_input res" where
  "validate_observer_input x0 = (let x = x0\<lparr>oi_universe := map strip (oi_universe x0)\<rparr> in
     bind_res (check (oi_schema_version x = 1 \<and> len_in 1 500 (oi_universe x) \<and>
       list_all ticker_ok (oi_universe x) \<and> horizon_ok (oi_horizon_days x) \<and>
       len_in 1 5 (oi_dimensions x) \<and> length (oi_signals x) \<le> 20)) (\<lambda>_.
     bind_res (check (is_aware (oi_as_of x))) (\<lambda>_.
     bind_res (check (distinct (oi_universe x))) (\<lambda>_.
     bind_res (check (distinct (oi_dimensions x))) (\<lambda>_. Inr x)))))"

record asset_snapshot =
  as_ticker :: string
  as_return_1m :: "decimal option"
  as_return_12m :: "decimal option"
  as_volatility_30d :: "decimal option"
  as_last_close :: "decimal option"
  as_note :: "string option"

definition validate_snapshot :: "asset_snapshot \<Rightarrow> asset_snapshot res" where
  "validate_snapshot x0 = (let x = x0\<lparr>as_ticker := strip (as_ticker x0), as_note := map_option strip (as_note x0)\<rparr> in
     bind_res (check (ticker_ok (as_ticker x) \<and> pred_option dec_ge0 (as_volatility_30d x) \<and>
       pred_option (dec_lt dzero) (as_last_close x) \<and> pred_option (\<lambda>n. length n \<le> 500) (as_note x)))
       (\<lambda>_. Inr x))"

record observer_artifact =
  oa_schema_version :: int
  oa_metadata :: run_metadata
  oa_universe :: "string list"
  oa_as_of :: pydt
  oa_regime_summary :: string
  oa_snapshots :: "asset_snapshot list"
  oa_news_themes :: "string list"
  oa_macro_notes :: string
  oa_data_quality_notes :: "string list"
  oa_signals :: "polymarket_signal list"

definition snapshots_within_universe :: "observer_artifact \<Rightarrow> bool" where
  "snapshots_within_universe x = (let ts = map as_ticker (oa_snapshots x) in
     distinct ts \<and> list_all (\<lambda>t. t \<in> set (oa_universe x)) ts)"

definition observer_fields_ok :: "observer_artifact \<Rightarrow> bool" where
  "observer_fields_ok x = (oa_schema_version x = 1 \<and> len_in 1 500 (oa_universe x) \<and>
     list_all ticker_ok (oa_universe x) \<and> len_in 1 2000 (oa_regime_summary x) \<and>
     length (oa_snapshots x) \<le> 500 \<and> length (oa_news_themes x) \<le> 20 \<and>
     length (oa_macro_notes x) \<le> 4000 \<and> length (oa_data_quality_notes x) \<le> 20 \<and>
     length (oa_signals x) \<le> 20)"

definition validate_observer_artifact :: "observer_artifact \<Rightarrow> observer_artifact res" where
  "validate_observer_artifact x0 = (let x = x0\<lparr>oa_universe := map strip (oa_universe x0),
       oa_regime_summary := strip (oa_regime_summary x0), oa_news_themes := map strip (oa_news_themes x0),
       oa_macro_notes := strip (oa_macro_notes x0),
       oa_data_quality_notes := map strip (oa_data_quality_notes x0)\<rparr> in
     bind_res (check (observer_fields_ok x)) (\<lambda>_.
     bind_res (check (is_aware (oa_as_of x))) (\<lambda>_.
     bind_res (check (distinct (oa_universe x))) (\<lambda>_.
     bind_res (check (snapshots_within_universe x)) (\<lambda>_. Inr x)))))"

end
