(* ===== verification/Policy.thy ===== *)
theory Policy
  imports Artifacts
begin

text \<open>
  The policy gateway, the projection of a strategy decision onto the account's constraints
  (\<open>policy/gateway.py\<close>), and the tracker that turns a broker's cumulative realized profit
  into the day's loss (\<open>policy/loss\_budget\_tracker.py\<close>).
\<close>

section \<open>Gateway data\<close>

datatype violation_kind =
    NOTIONAL_CAP_EXCEEDED | TICKER_DENY_LISTED | TICKER_NOT_ALLOWED | LOSS_BUDGET_EXHAUSTED

record policy_violation =
  pv_kind :: violation_kind
  pv_message :: string
  pv_context :: "(string \<times> string) list"

definition make_violation ::
  "violation_kind \<Rightarrow> string \<Rightarrow> (string \<times> string) list \<Rightarrow> policy_violation res" where
  "make_violation k msg ctx = (let m = strip msg in
     bind_res (check (len_in 1 400 m)) (\<lambda>_.
     Inr \<lparr>pv_kind = k, pv_message = m, pv_context = map (map_prod strip strip) ctx\<rparr>))"

record gateway_config =
  gc_notional_cap :: "decimal option"
  gc_allowed :: "string list option"
  gc_denied :: "string list"
  gc_realized_loss :: decimal

definition no_allow_deny_overlap :: "gateway_config \<Rightarrow> bool" where
  "no_allow_deny_overlap c = (case gc_allowed c of None \<Rightarrow> True
     | Some al \<Rightarrow> set al \<inter> set (gc_denied c) = {})"

definition validate_config :: "gateway_config \<Rightarrow> gateway_config res" where
  "validate_config c0 = (let c = c0\<lparr>gc_allowed := map_option (map strip) (gc_allowed c0),
       gc_denied := map strip (gc_denied c0)\<rparr> in
     bind_res (check (pred_option dec_ge0 (gc_notional_cap c) \<and>
       pred_option (list_all ticker_ok) (gc_allowed c) \<and> list_all ticker_ok (gc_denied c) \<and>
       dec_ge0 (gc_realized_loss c))) (\<lambda>_.
     bind_res (check (no_allow_deny_overlap c)) (\<lambda>_. Inr c)))"

record feasible_action =
  fa_action :: decision_action
  fa_targets :: "target_position list"
  fa_violations :: "policy_violation list"
  fa_source_run_id :: string

definition feasible_consistent :: "feasible_action \<Rightarrow> bool" where
  "feasible_consistent f = (\<not> (fa_action f = ADOPT \<and> fa_targets f = []) \<and>
     \<not> (fa_action f \<noteq> ADOPT \<and> fa_targets f \<noteq> []) \<and>
     \<not> (fa_action f = ADOPT \<and> fa_violations f \<noteq> []))"

definition make_feasible ::
  "decision_action \<Rightarrow> target_position list \<Rightarrow> policy_violation list \<Rightarrow> string \<Rightarrow> feasible_action res" where
  "make_feasible a ts vs rid = (let f = \<lparr>fa_action = a, fa_targets = ts, fa_violations = vs,
       fa_source_run_id = strip rid\<rparr> in bind_res (check (feasible_consistent f)) (\<lambda>_. Inr f))"

section \<open>The projection\<close>

fun map_res :: "('a \<Rightarrow> 'b list res) \<Rightarrow> 'a list \<Rightarrow> 'b list res" where
  "map_res f [] = Inr []"
| "map_res f (x # xs) = bind_res (f x) (\<lambda>ys. bind_res (map_res f xs) (\<lambda>zs. Inr (ys @ zs)))"

definition notional_violations :: "strategy_decision \<Rightarrow> gateway_config \<Rightarrow> policy_violation list res" where
  "notional_violations d c = (case gc_notional_cap c of None \<Rightarrow> Inr []
     | Some cap \<Rightarrow>
        if dec_lt cap (sd_notional_cap_usd d)
        then bind_res (make_violation NOTIONAL_CAP_EXCEEDED
          (''decision notional_cap_usd '' @ dec_str (sd_notional_cap_usd d) @
           '' exceeds account cap '' @ dec_str cap)
          [(''decision_notional'', dec_str (sd_notional_cap_usd d)), (''account_cap'', dec_str cap)])
          (\<lambda>v. Inr [v])
        else Inr [])"

definition budget_violations ::
  "dec_ctx \<Rightarrow> strategy_decision \<Rightarrow> gateway_config \<Rightarrow> policy_violation list res" where
  "budget_violations fx d c =
     (let remaining = dec_sub fx (sd_daily_loss_limit_usd d) (gc_realized_loss c) in
      if dec_le remaining dzero
      then bind_res (make_violation LOSS_BUDGET_EXHAUSTED
        (''daily realized loss '' @ dec_str (gc_realized_loss c) @
         '' has consumed the entire daily_loss_limit_usd '' @ dec_str (sd_daily_loss_limit_usd d) @
         '' (remaining '' @ dec_str remaining @ '')'')
        [(''daily_loss_limit_usd'', dec_str (sd_daily_loss_limit_usd d)),
         (''daily_realized_loss_usd'', dec_str (gc_realized_loss c)),
         (''remaining_budget_usd'', dec_str remaining)])
        (\<lambda>v. Inr [v])
      else Inr [])"

definition target_violations :: "gateway_config \<Rightarrow> target_position \<Rightarrow> policy_violation list res" where
  "target_violations c t = (let tk = tp_ticker t in
     bind_res (if tk \<in> set (gc_denied c)
       then bind_res (make_violation TICKER_DENY_LISTED (''ticker '' @ tk @ '' is on the deny list'')
         [(''ticker'', tk)]) (\<lambda>v. Inr [v])
       else Inr []) (\<lambda>vs.
     bind_res (case gc_allowed c of None \<Rightarrow> Inr []
       | Some al \<Rightarrow> if tk \<notin> set al
           then bind_res (make_violation TICKER_NOT_ALLOWED
             (''ticker '' @ tk @ '' is not in the allow list'') [(''ticker'', tk)]) (\<lambda>v. Inr [v])
           else Inr []) (\<lambda>ws. Inr (vs @ ws))))"

definition collect_violations ::
  "dec_ctx \<Rightarrow> strategy_decision \<Rightarrow> gateway_config \<Rightarrow> policy_violation list res" where
  "collect_violations fx d c =
     bind_res (notional_violations d c) (\<lambda>ns.
     bind_res (budget_violations fx d c) (\<lambda>bs.
     bind_res (map_res (target_violations c) (sd_targets d)) (\<lambda>ts. Inr (ns @ bs @ ts))))"

definition apply_policy_gateway ::
  "dec_ctx \<Rightarrow> strategy_decision \<Rightarrow> gateway_config \<Rightarrow> feasible_action res" where
  "apply_policy_gateway fx d c =
     (if sd_action d \<noteq> ADOPT then make_feasible (sd_action d) [] [] (md_run_id (sd_metadata d))
      else bind_res (collect_violations fx d c) (\<lambda>vs.
        if vs \<noteq> [] then make_feasible DEFER [] vs (md_run_id (sd_metadata d))
        else make_feasible ADOPT (sd_targets d) [] (md_run_id (sd_metadata d))))"

section \<open>What the gateway promises\<close>

text \<open>The constraints, over the exact values.\<close>

definition within_policy :: "gateway_config \<Rightarrow> strategy_decision \<Rightarrow> bool" where
  "within_policy c d \<longleftrightarrow>
     (\<forall>cap. gc_notional_cap c = Some cap \<longrightarrow> dval (sd_notional_cap_usd d) \<le> dval cap) \<and>
     dval (gc_realized_loss c) < dval (sd_daily_loss_limit_usd d) \<and>
     (\<forall>t\<in>set (sd_targets d). tp_ticker t \<notin> set (gc_denied c) \<and>
        (\<forall>al. gc_allowed c = Some al \<longrightarrow> tp_ticker t \<in> set al))"

lemma map_res_Nil_iff: "map_res f xs = Inr [] \<longleftrightarrow> (\<forall>x\<in>set xs. f x = Inr [])"
  by (induction xs) (auto simp: bind_res_Inr_iff)

lemma make_violation_Inr: "make_violation k m ctx = Inr v \<Longrightarrow> pv_kind v = k"
  by (auto simp: make_violation_def Let_def bind_res_Inr_iff)

lemma notional_ok: "notional_violations d c = Inr [] \<longleftrightarrow>
    (\<forall>cap. gc_notional_cap c = Some cap \<longrightarrow> dval (sd_notional_cap_usd d) \<le> dval cap)"
  by (auto simp: notional_violations_def bind_res_Inr_iff dec_cmp split: option.splits)

lemma target_ok: "target_violations c t = Inr [] \<longleftrightarrow> tp_ticker t \<notin> set (gc_denied c) \<and>
    (\<forall>al. gc_allowed c = Some al \<longrightarrow> tp_ticker t \<in> set al)"
  by (auto simp: target_violations_def bind_res_Inr_iff Let_def split: option.splits if_splits)

lemma make_feasible_Inr: "make_feasible a ts vs rid = Inr f \<longleftrightarrow> feasible_consistent f \<and>
    f = \<lparr>fa_action = a, fa_targets = ts, fa_violations = vs, fa_source_run_id = strip rid\<rparr>"
  by (auto simp: make_feasible_def Let_def bind_res_Inr_iff)

context rounding_ctx
begin

lemma budget_violations_Nil: "budget_violations fx d c = Inr [] \<longleftrightarrow>
    dval (gc_realized_loss c) < dval (sd_daily_loss_limit_usd d)"
  by (auto simp: budget_violations_def bind_res_Inr_iff dec_cmp sub_sign Let_def not_le)

lemma no_violations_iff: "collect_violations fx d c = Inr [] \<longleftrightarrow> within_policy c d"
proof -
  have "collect_violations fx d c = Inr [] \<longleftrightarrow> notional_violations d c = Inr [] \<and>
      budget_violations fx d c = Inr [] \<and> map_res (target_violations c) (sd_targets d) = Inr []"
    by (auto simp: collect_violations_def bind_res_Inr_iff)
  then show ?thesis
    by (simp add: notional_ok budget_violations_Nil map_res_Nil_iff target_ok within_policy_def)
qed

lemma gateway_cases:
  assumes "apply_policy_gateway fx d c = Inr f"
  shows "if sd_action d \<noteq> ADOPT then fa_action f = sd_action d \<and> fa_targets f = [] \<and> fa_violations f = []
    else if within_policy c d
      then fa_action f = ADOPT \<and> fa_targets f = sd_targets d \<and> fa_violations f = []
      else fa_action f = DEFER \<and> fa_targets f = [] \<and> fa_violations f \<noteq> []"
proof (cases "sd_action d = ADOPT")
  case False
  then show ?thesis using assms by (auto simp: apply_policy_gateway_def make_feasible_Inr)
next
  case True
  with assms obtain vs where vs: "collect_violations fx d c = Inr vs"
    by (auto simp: apply_policy_gateway_def bind_res_Inr_iff)
  with no_violations_iff [of d c] have "vs = [] \<longleftrightarrow> within_policy c d" by simp
  then show ?thesis using True assms vs
    by (auto simp: apply_policy_gateway_def make_feasible_Inr split: if_splits)
qed

end


definition sample_metadata :: run_metadata where
  "sample_metadata = \<lparr>md_run_id = ''0123456789abcdef'', md_parent_id = None, md_agent_name = ''decider'',
     md_model_id = ''m'', md_created_at = Aware 0, md_llm_cost_usd = dzero, md_latency_ms = 0,
     md_token_in = 0, md_token_out = 0\<rparr>"

definition sample_decision :: strategy_decision where
  "sample_decision = \<lparr>sd_schema_version = 1, sd_metadata = sample_metadata,
     sd_backtest_run_id = ''0123456789abcdef'', sd_action = ADOPT,
     sd_targets = [\<lparr>tp_ticker = ''AAPL'', tp_side = BUY, tp_weight = Dec 5 (- 1)\<rparr>,
                   \<lparr>tp_ticker = ''MSFT'', tp_side = BUY, tp_weight = Dec 25 (- 2)\<rparr>],
     sd_rationale = ''r'', sd_notional_cap_usd = Dec 1000 0, sd_max_position_weight = Dec 5 (- 1),
     sd_daily_loss_limit_usd = Dec 50 0\<rparr>"

definition sample_config :: gateway_config where
  "sample_config = \<lparr>gc_notional_cap = Some (Dec 1000 0), gc_allowed = None, gc_denied = [''MSFT''],
     gc_realized_loss = Dec 4999 (- 2)\<rparr>"


section \<open>The loss budget tracker\<close>

text \<open>A date is its ordinal. The source is the broker's \<open>realized\_pnl\_usd\<close> at the time of
  the call.\<close>

record loss_tracker =
  lt_baseline :: "decimal option"
  lt_day :: "int option"

definition new_tracker :: loss_tracker where
  "new_tracker = \<lparr>lt_baseline = None, lt_day = None\<rparr>"

definition mark_start_of_day :: "int \<Rightarrow> decimal \<Rightarrow> (loss_tracker, unit) eff" where
  "mark_start_of_day today pnl = seq (gets lt_day) (\<lambda>day.
     let snapshot = modify (\<lambda>t. t\<lparr>lt_baseline := Some pnl, lt_day := Some today\<rparr>) in
     case day of None \<Rightarrow> snapshot
     | Some d \<Rightarrow> if today < d then raise ValueError
                else if today = d then ret () else snapshot)"

definition today_realized_loss :: "dec_ctx \<Rightarrow> loss_tracker \<Rightarrow> decimal \<Rightarrow> decimal res" where
  "today_realized_loss fx t pnl = (case lt_baseline t of None \<Rightarrow> Inl RuntimeError
     | Some baseline \<Rightarrow> let delta = dec_sub fx baseline pnl in
         Inr (if dec_lt dzero delta then delta else dzero))"

text \<open>A day: the first mark of the day, then further marks of the same day with whatever the
  source shows, with their results.\<close>

fun marks :: "(int \<times> decimal) list \<Rightarrow> loss_tracker \<Rightarrow> unit res list \<times> loss_tracker" where
  "marks [] t = ([], t)"
| "marks ((d, pnl) # ms) t = (case mark_start_of_day d pnl t of (r, t') \<Rightarrow>
     case marks ms t' of (rs, t'') \<Rightarrow> (r # rs, t''))"

lemma mark_apply: "mark_start_of_day d pnl t =
    (case lt_day t of None \<Rightarrow> (Inr (), t\<lparr>lt_baseline := Some pnl, lt_day := Some d\<rparr>)
     | Some d' \<Rightarrow> if d < d' then (Inl ValueError, t) else if d = d' then (Inr (), t)
         else (Inr (), t\<lparr>lt_baseline := Some pnl, lt_day := Some d\<rparr>))"
  by (auto simp: mark_start_of_day_def seq_apply Let_def split: option.splits)

lemma marks_not_later:
  assumes "lt_day t = Some d" and "\<forall>m\<in>set ms. fst m \<le> d"
  shows "snd (marks ms t) = t"
  using assms(2)
proof (induction ms)
  case (Cons m ms)
  obtain d' pnl where m: "m = (d', pnl)" by (cases m)
  have "snd (mark_start_of_day d' pnl t) = t"
    using Cons.prems m assms(1) by (simp add: mark_apply)
  then show ?case using Cons m by (cases "mark_start_of_day d' pnl t") (auto split: prod.splits)
qed simp

context rounding_ctx
begin

lemma loss_sign:
  assumes "today_realized_loss fx t pnl = Inr l" and "lt_baseline t = Some b"
  shows "0 \<le> dval l \<and> (0 < dval l \<longleftrightarrow> dval pnl < dval b)"
  using assms by (auto simp: today_realized_loss_def dec_cmp sub_sign Let_def less_imp_le split: if_splits)

lemma loss_at_least:
  assumes "today_realized_loss fx t pnl = Inr l" and "lt_baseline t = Some b"
    and "rep m" and "dval m \<le> dval b - dval pnl"
  shows "dval m \<le> dval l"
proof -
  have delta: "dval m \<le> dval (dec_sub fx b pnl)"
    using fx_ge [OF assms(3)] assms(4)
    by (cases "align b pnl") (simp add: dec_sub_def dval_sub_raw)
  show ?thesis
  proof (cases "dec_lt dzero (dec_sub fx b pnl)")
    case True
    with assms delta show ?thesis by (simp add: today_realized_loss_def Let_def)
  next
    case False
    with delta have "dval m \<le> 0" by (simp add: dec_cmp)
    then show ?thesis using loss_sign [OF assms(1,2)] by linarith
  qed
qed

end

text \<open>The kill switch of the daily loss. Mark the start of a day with the broker's realized
  profit \<open>p0\<close>; mark it again any number of times during the day or with earlier days (refused);
  later the broker shows \<open>p1\<close>, and the tracker's loss goes into the gateway's configuration. If
  the day's true loss \<open>p0 - p1\<close> has reached the decision's daily limit (an amount of at most 28
  digits), the gateway does not adopt, whatever the rounding of the subtractions; and the
  reported loss is never negative, and positive exactly when money was lost.\<close>

theorem loss_kill_switch:
  assumes "lt_day t0 = None \<or> (\<exists>d0. lt_day t0 = Some d0 \<and> d0 < d)"
    and "\<forall>m\<in>set ms. fst m \<le> d"
    and "t = snd (marks ((d, p0) # ms) t0)"
    and "today_realized_loss py_ctx t p1 = Inr loss"
    and "apply_policy_gateway py_ctx dec (c\<lparr>gc_realized_loss := loss\<rparr>) = Inr f"
    and "fits 28 (sd_daily_loss_limit_usd dec)"
    and "dval (sd_daily_loss_limit_usd dec) \<le> dval p0 - dval p1"
  shows "fa_action f \<noteq> ADOPT \<and> 0 \<le> dval loss \<and> (0 < dval loss \<longleftrightarrow> dval p1 < dval p0)"
proof -
  let ?t1 = "t0\<lparr>lt_baseline := Some p0, lt_day := Some d\<rparr>"
  have "mark_start_of_day d p0 t0 = (Inr (), ?t1)"
    using assms(1) by (auto simp: mark_apply)
  then have "t = ?t1"
    using assms(3) marks_not_later [of ?t1 d ms] assms(2) by (simp split: prod.splits)
  then have b: "lt_baseline t = Some p0" by simp
  have "dval (sd_daily_loss_limit_usd dec) \<le> dval loss"
    using py.loss_at_least [OF assms(4) b assms(6,7)] .
  then have "\<not> within_policy (c\<lparr>gc_realized_loss := loss\<rparr>) dec"
    by (simp add: within_policy_def)
  then show ?thesis
    using py.gateway_cases [OF assms(5)] py.loss_sign [OF assms(4) b] by (auto split: if_splits)
qed

theorem loss_kill_switch_witness:
  "\<exists>f. apply_policy_gateway py_ctx sample_decision
      (\<lparr>gc_notional_cap = None, gc_allowed = None, gc_denied = [], gc_realized_loss = dzero\<rparr>
        \<lparr>gc_realized_loss := Dec 60 0\<rparr>) = Inr f \<and> fa_action f \<noteq> ADOPT"
proof -
  let ?c = "\<lparr>gc_notional_cap = None, gc_allowed = None, gc_denied = [], gc_realized_loss = dzero\<rparr>"
  let ?t = "snd (marks [(3, Dec 100 0), (3, Dec 0 0), (2, Dec 7 0)] new_tracker)"
  have "is_ok (apply_policy_gateway py_ctx sample_decision (?c\<lparr>gc_realized_loss := Dec 60 0\<rparr>))"
    by code_simp
  then obtain f where f: "apply_policy_gateway py_ctx sample_decision (?c\<lparr>gc_realized_loss := Dec 60 0\<rparr>) = Inr f"
    by (auto simp: is_ok_iff)
  have loss: "today_realized_loss py_ctx ?t (Dec 40 0) = Inr (Dec 60 0)" by code_simp
  have t: "lt_day new_tracker = None \<or> (\<exists>d0. lt_day new_tracker = Some d0 \<and> d0 < 3)"
    by (simp add: new_tracker_def)
  have fits: "fits 28 (sd_daily_loss_limit_usd sample_decision)" by code_simp
  have lim: "dval (sd_daily_loss_limit_usd sample_decision) \<le> dval (Dec 100 0) - dval (Dec 40 0)"
    by (simp add: sample_decision_def dval_def)
  have ms: "\<forall>m\<in>set [(3, Dec 0 0), (2, Dec 7 0)]. fst m \<le> (3::int)" by simp
  from loss_kill_switch [OF t ms refl loss f fits lim] f show ?thesis by blast
qed

end
