(* ===== verification/Execution.thy ===== *)
theory Execution
  imports Policy
begin

text \<open>
  The result of a broker's attempt to execute an action (\<open>execution/execution\_report.py\<close>) and
  the contract every broker offers its caller (\<open>execution/protocol.py\<close>), as a locale.
\<close>

datatype fill_status = FILL_FILLED | FILL_REJECTED | FILL_SUBMITTED

datatype execution_status = EXEC_FILLED | EXEC_SKIPPED | EXEC_REJECTED | EXEC_SUBMITTED

fun execution_status_value :: "execution_status \<Rightarrow> string" where
  "execution_status_value EXEC_FILLED = ''filled''"
| "execution_status_value EXEC_SKIPPED = ''skipped''"
| "execution_status_value EXEC_REJECTED = ''rejected''"
| "execution_status_value EXEC_SUBMITTED = ''submitted''"

record fill =
  fl_ticker :: string
  fl_side :: side
  fl_status :: fill_status
  fl_quantity :: decimal
  fl_price :: decimal
  fl_notional :: decimal
  fl_reason :: "string option"

definition make_fill :: "string \<Rightarrow> side \<Rightarrow> fill_status \<Rightarrow> decimal \<Rightarrow> decimal \<Rightarrow> decimal \<Rightarrow>
    string option \<Rightarrow> fill res" where
  "make_fill tk sd st q p n r = (let tk' = strip tk; r' = map_option strip r in
     bind_res (check (ticker_ok tk' \<and> dec_ge0 q \<and> dec_ge0 p \<and> dec_ge0 n \<and>
       pred_option (\<lambda>x. length x \<le> 400) r')) (\<lambda>_.
     Inr \<lparr>fl_ticker = tk', fl_side = sd, fl_status = st, fl_quantity = q, fl_price = p,
       fl_notional = n, fl_reason = r'\<rparr>))"

record execution_report =
  xr_source_run_id :: string
  xr_status :: execution_status
  xr_fills :: "fill list"
  xr_reason :: "string option"

definition make_report :: "string \<Rightarrow> execution_status \<Rightarrow> fill list \<Rightarrow> string option \<Rightarrow>
    execution_report res" where
  "make_report rid st fs r = (let r' = map_option strip r in
     bind_res (check (pred_option (\<lambda>x. length x \<le> 400) r')) (\<lambda>_.
     Inr \<lparr>xr_source_run_id = strip rid, xr_status = st, xr_fills = fs, xr_reason = r'\<rparr>))"

type_synonym prices = "(string \<times> decimal) list"

type_synonym 's broker_execute = "feasible_action \<Rightarrow> prices \<Rightarrow> ('s, execution_report) eff"

lemma make_report_Inr:
  "make_report rid st fs r = Inr x \<longleftrightarrow> pred_option (\<lambda>m. length (strip m) \<le> 400) r \<and>
     x = \<lparr>xr_source_run_id = strip rid, xr_status = st, xr_fills = fs, xr_reason = map_option strip r\<rparr>"
  by (cases r) (auto simp: make_report_def Let_def bind_res_Inr_iff)

lemma make_fill_Inr:
  "make_fill tk sd st q p n r = Inr x \<longleftrightarrow> ticker_ok (strip tk) \<and> dec_ge0 q \<and> dec_ge0 p \<and> dec_ge0 n \<and>
     pred_option (\<lambda>m. length (strip m) \<le> 400) r \<and>
     x = \<lparr>fl_ticker = strip tk, fl_side = sd, fl_status = st, fl_quantity = q, fl_price = p,
       fl_notional = n, fl_reason = map_option strip r\<rparr>"
  by (cases r) (auto simp: make_fill_def Let_def bind_res_Inr_iff)

section \<open>The broker contract\<close>

text \<open>What the caller of a broker relies on. \<open>inv\<close> is the broker's own invariant and \<open>kept\<close>
  the part of its state an execution must not touch without trading.\<close>

locale broker =
  fixes exec :: "'s broker_execute" and inv :: "'s \<Rightarrow> bool" and kept :: "'s \<Rightarrow> 'k"
  assumes keeps_inv: "inv s \<Longrightarrow> inv (snd (exec a p s))"
    and no_trade: "fa_action a \<noteq> ADOPT \<Longrightarrow> kept (snd (exec a p s)) = kept s"
    and run_id: "exec a p s = (Inr r, t) \<Longrightarrow> xr_source_run_id r = strip (fa_source_run_id a)"
    and no_trade_status: "fa_action a \<noteq> ADOPT \<Longrightarrow> exec a p s = (Inr r, t) \<Longrightarrow>
      xr_status r \<notin> {EXEC_FILLED, EXEC_SUBMITTED}"
begin

lemma inv_always: "inv s \<Longrightarrow> inv (fold (\<lambda>(a, p) t. snd (exec a p t)) xs s)"
  by (induction xs arbitrary: s) (auto simp: keeps_inv)

lemma idle_kept:
  "\<forall>(a, p)\<in>set xs. fa_action a \<noteq> ADOPT \<Longrightarrow> kept (fold (\<lambda>(a, p) t. snd (exec a p t)) xs s) = kept s"
  by (induction xs arbitrary: s) (auto simp: no_trade)

end

end
