(* ===== verification/Cycle_Runner.thy ===== *)
theory Cycle_Runner
  imports State_Machine Budget Observer Execution
begin

text \<open>
  The end-to-end driver of a research cycle (\<open>orchestrator/cycle\_runner.py\<close>). One function per
  phase of \<open>run\<close>, each taking the artifacts the phase consumes and calling the next one; an early
  return is the end of the chain. Agents, the backtest executor, the price provider, the entity
  resolver, the brokers and the cycle archive are injected: they are fields of the runner that act
  on the world and may raise.
\<close>

section \<open>Data\<close>

record 'o agent_result =
  ag_output :: "'o option"
  ag_error :: "string option"
  ag_metadata :: run_metadata

definition agent_is_ok :: "'o agent_result \<Rightarrow> bool" where
  "agent_is_ok r = (ag_output r \<noteq> None \<and> ag_error r = None)"

type_synonym ('i, 'o, 'w) agent = "'i \<Rightarrow> ('w, 'o agent_result) eff"

record research_input =
  ri_hypothesis :: hypothesis_card
  ri_skeptic :: skeptic_report

record auditor_input =
  ai_hypothesis :: hypothesis_card
  ai_backtest :: backtest_report

record decider_input =
  di_hypothesis :: hypothesis_card
  di_backtest :: backtest_report
  di_audit :: audit_report

record identifier_resolution =
  ir_input_ticker :: string
  ir_issuer_id :: "string option"
  ir_matched_kind :: "string option"

record cycle_artifacts =
  ca_observer :: "observer_artifact option"
  ca_hypothesis :: "hypothesis_card option"
  ca_skeptic :: "skeptic_report option"
  ca_research :: "research_plan option"
  ca_backtest :: "backtest_report option"
  ca_audit :: "audit_report option"
  ca_decision :: "strategy_decision option"
  ca_feasible :: "feasible_action option"
  ca_execution :: "execution_report option"

definition no_artifacts :: cycle_artifacts where
  "no_artifacts = \<lparr>ca_observer = None, ca_hypothesis = None, ca_skeptic = None, ca_research = None,
     ca_backtest = None, ca_audit = None, ca_decision = None, ca_feasible = None, ca_execution = None\<rparr>"

definition count_artifacts :: "cycle_artifacts \<Rightarrow> nat" where
  "count_artifacts a = length (filter id [ca_observer a \<noteq> None, ca_hypothesis a \<noteq> None,
     ca_skeptic a \<noteq> None, ca_research a \<noteq> None, ca_backtest a \<noteq> None, ca_audit a \<noteq> None,
     ca_decision a \<noteq> None, ca_feasible a \<noteq> None, ca_execution a \<noteq> None])"

record cycle_result =
  cy_cycle_id :: string
  cy_terminal :: orch_state
  cy_artifacts :: cycle_artifacts
  cy_aborted_reason :: "string option"
  cy_token_in :: int
  cy_token_out :: int

datatype halt_kind = HALT_AGENT_FAILED | HALT_BUDGET_EXCEEDED

record halt =
  ha_kind :: halt_kind
  ha_reason :: string

text \<open>A broker is either a plain one, which acts on the world, or satisfies the live protocol: then
  it has the life-cycle hooks and writes its own events into the shared log.\<close>

datatype 'w broker_port =
    Plain_Broker "feasible_action \<Rightarrow> prices \<Rightarrow> ('w, execution_report) eff"
  | Live_Broker (attach: "string \<Rightarrow> ('w sys, unit) eff")
      (live_execute: "feasible_action \<Rightarrow> prices \<Rightarrow> ('w sys, execution_report) eff")
      (detach: "'w sys \<Rightarrow> 'w sys")

record 'w runner =
  rn_env :: "'w env"
  rn_fx :: dec_ctx
  rn_exn_text :: "py_exn \<Rightarrow> string"
  rn_observer :: "(observer_input, observer_artifact, 'w) agent"
  rn_hypothesis :: "(observer_artifact, hypothesis_card, 'w) agent"
  rn_skeptic :: "(hypothesis_card, skeptic_report, 'w) agent"
  rn_research :: "(research_input, research_plan, 'w) agent"
  rn_auditor :: "(auditor_input, audit_report, 'w) agent"
  rn_decider :: "(decider_input, strategy_decision, 'w) agent"
  rn_backtest :: "research_plan \<Rightarrow> ('w, backtest_report) eff"
  rn_budget :: cycle_budget
  rn_clock :: "'w \<Rightarrow> int \<times> 'w"
  rn_store :: "(cycle_result \<Rightarrow> cycle_event list \<Rightarrow> ('w, unit) eff) option"
  rn_gateway :: "gateway_config option"
  rn_broker :: "'w broker_port option"
  rn_prices :: "(feasible_action \<Rightarrow> ('w, prices) eff) option"
  rn_resolver :: "(observer_input \<Rightarrow> ('w, identifier_resolution list) eff) option"

record 'w run_ctx =
  rc_machine :: "'w sys machine"
  rc_guard :: budget_guard
  rc_artifacts :: cycle_artifacts
  rc_token_in :: int
  rc_token_out :: int
  rc_sys :: "'w sys"

type_synonym ('w, 'a) run_eff = "('w run_ctx, 'a) eff"

section \<open>The parts of the context\<close>

definition in_sys :: "('w sys, 'a) eff \<Rightarrow> ('w, 'a) run_eff" where
  "in_sys m = zoom rc_sys (\<lambda>s c. c\<lparr>rc_sys := s\<rparr>) m"

definition in_guard :: "('w, 'a) guard_eff \<Rightarrow> ('w, 'a) run_eff" where
  "in_guard m = zoom (\<lambda>c. (rc_guard c, rc_sys c))
     (\<lambda>gs c. c\<lparr>rc_guard := fst gs, rc_sys := snd gs\<rparr>) m"

definition in_machine :: "('w sys machine \<times> 'w sys, 'a) eff \<Rightarrow> ('w, 'a) run_eff" where
  "in_machine m = zoom (\<lambda>c. (rc_machine c, rc_sys c))
     (\<lambda>ms c. c\<lparr>rc_machine := fst ms, rc_sys := snd ms\<rparr>) m"

definition log_event :: "'w runner \<Rightarrow> ('w, cycle_event) eff \<Rightarrow> ('w, unit) run_eff" where
  "log_event rn mk = in_sys (emit (rn_env rn) mk)"

definition cycle_id :: "'w runner \<Rightarrow> string" where
  "cycle_id rn = cb_cycle_id (rn_budget rn)"

definition go :: "orch_state \<Rightarrow> ('w, unit) run_eff" where
  "go target = seq (in_machine (transition target)) (\<lambda>_. ret ())"

definition emit_state_transition :: "'w runner \<Rightarrow> state_transition \<Rightarrow> ('w sys, unit) eff" where
  "emit_state_transition rn t = emit (rn_env rn)
     (state_transition_event (rn_env rn) (cycle_id rn) (state_value (st_src t)) (state_value (st_dst t)))"

definition put_artifacts :: "(cycle_artifacts \<Rightarrow> cycle_artifacts) \<Rightarrow> ('w, unit) run_eff" where
  "put_artifacts f = modify (\<lambda>c. c\<lparr>rc_artifacts := f (rc_artifacts c)\<rparr>)"

section \<open>Ending a cycle\<close>

definition persist_if_configured :: "'w runner \<Rightarrow> cycle_result \<Rightarrow> ('w, unit) run_eff" where
  "persist_if_configured rn r = (case rn_store rn of None \<Rightarrow> ret ()
     | Some save \<Rightarrow> seq (gets (\<lambda>c. filter_by_cycle (cycle_id rn) (sys_log (rc_sys c)))) (\<lambda>es.
         in_sys (in_world (save r es))))"

definition complete_cycle :: "'w runner \<Rightarrow> orch_state \<Rightarrow> ('w, cycle_result) run_eff" where
  "complete_cycle rn terminal =
     seq (go IDLE) (\<lambda>_.
     seq (gets id) (\<lambda>c.
     seq (log_event rn (cycle_completed_event (rn_env rn) (cycle_id rn) (state_value terminal)
       (count_artifacts (rc_artifacts c)) (rc_token_in c) (rc_token_out c))) (\<lambda>_.
     let r = \<lparr>cy_cycle_id = cycle_id rn, cy_terminal = terminal, cy_artifacts = rc_artifacts c,
       cy_aborted_reason = None, cy_token_in = rc_token_in c, cy_token_out = rc_token_out c\<rparr>
     in seq (persist_if_configured rn r) (\<lambda>_. ret r))))"

definition finalize_cycle :: "'w runner \<Rightarrow> halt \<Rightarrow> ('w, cycle_result) run_eff" where
  "finalize_cycle rn h =
     seq (gets (\<lambda>c. state_value (sm_state (rc_machine c)))) (\<lambda>at_state.
     seq (go ERROR) (\<lambda>_.
     seq (log_event rn (cycle_aborted_event (rn_env rn) (cycle_id rn) (ha_reason h) at_state)) (\<lambda>_.
     seq (gets id) (\<lambda>c.
     let r = \<lparr>cy_cycle_id = cycle_id rn, cy_terminal = ERROR, cy_artifacts = rc_artifacts c,
       cy_aborted_reason = Some (ha_reason h), cy_token_in = rc_token_in c, cy_token_out = rc_token_out c\<rparr>
     in seq (persist_if_configured rn r) (\<lambda>_. ret r)))))"

section \<open>Calling an agent\<close>

text \<open>\<open>f"{x:.1f}"\<close> of a non-negative float.\<close>

definition fmt_1f :: "rat \<Rightarrow> string" where
  "fmt_1f x = (let n = nat (round_rat (x * 10)) in nat_str (n div 10) @ ''.'' @ nat_str (n mod 10))"

definition error_text :: "'o agent_result \<Rightarrow> string" where
  "error_text r = (case ag_error r of None \<Rightarrow> ''unknown error''
     | Some e \<Rightarrow> if e = [] then ''unknown error'' else e)"

definition budget_reason :: "budget_status \<Rightarrow> string" where
  "budget_reason st = ''budget '' @ budget_kind_value (bs_kind st) @ '': tokens='' @
     int_str (bs_tokens st) @ '', elapsed='' @ fmt_1f (bs_elapsed st) @ ''s''"

definition agent_failure :: "'w runner \<Rightarrow> string \<Rightarrow> string \<Rightarrow> 'o agent_result \<Rightarrow> ('w, halt + 'o) run_eff" where
  "agent_failure rn agent_name run_id res =
     seq (log_event rn (agent_failed_event (rn_env rn) (cycle_id rn) agent_name run_id (error_text res))) (\<lambda>_.
     ret (Inl \<lparr>ha_kind = HALT_AGENT_FAILED, ha_reason = agent_name @ '': '' @ error_text res\<rparr>))"

definition agent_success ::
  "'w runner \<Rightarrow> string \<Rightarrow> string \<Rightarrow> string \<Rightarrow> run_metadata \<Rightarrow> 'o \<Rightarrow> ('w, halt + 'o) run_eff" where
  "agent_success rn agent_name schema run_id meta out =
     seq (log_event rn (agent_succeeded_event (rn_env rn) (cycle_id rn) agent_name run_id schema
       (md_token_in meta) (md_token_out meta) (md_latency_ms meta))) (\<lambda>_.
     seq (modify (\<lambda>c. c\<lparr>rc_token_in := rc_token_in c + md_token_in meta,
       rc_token_out := rc_token_out c + md_token_out meta\<rparr>)) (\<lambda>_.
     seq (in_guard (consume (rn_env rn) (rn_clock rn) (md_token_in meta) (md_token_out meta))) (\<lambda>st.
     if bs_kind st \<noteq> BUDGET_OK
     then ret (Inl \<lparr>ha_kind = HALT_BUDGET_EXCEEDED, ha_reason = budget_reason st\<rparr>)
     else ret (Inr out))))"

definition call_agent ::
  "'w runner \<Rightarrow> ('i, 'o, 'w) agent \<Rightarrow> string \<Rightarrow> string \<Rightarrow> 'i \<Rightarrow> ('w, halt + 'o) run_eff" where
  "call_agent rn agent agent_name schema payload =
     seq (in_sys (in_world (call (env_token_hex (rn_env rn))))) (\<lambda>run_id.
     seq (log_event rn (agent_invoked_event (rn_env rn) (cycle_id rn) agent_name run_id)) (\<lambda>_.
     seq (in_sys (in_world (agent payload))) (\<lambda>res.
     case ag_output res of
       None \<Rightarrow> agent_failure rn agent_name run_id res
     | Some out \<Rightarrow> if agent_is_ok res then agent_success rn agent_name schema run_id (ag_metadata res) out
                   else agent_failure rn agent_name run_id res)))"

text \<open>A phase that calls an agent: a halt ends the cycle, an output is stored.\<close>

definition agent_phase ::
  "'w runner \<Rightarrow> ('w, halt + 'o) run_eff \<Rightarrow> ('o \<Rightarrow> cycle_artifacts \<Rightarrow> cycle_artifacts) \<Rightarrow>
     ('o \<Rightarrow> ('w, cycle_result) run_eff) \<Rightarrow> ('w, cycle_result) run_eff" where
  "agent_phase rn m store next_phase = seq m (\<lambda>outcome. case outcome of
     Inl h \<Rightarrow> finalize_cycle rn h
   | Inr out \<Rightarrow> seq (put_artifacts (store out)) (\<lambda>_. next_phase out))"

section \<open>The phases, last one first\<close>

definition execute_with :: "'w runner \<Rightarrow> 'w broker_port \<Rightarrow> feasible_action \<Rightarrow> prices \<Rightarrow> ('w, unit) run_eff" where
  "execute_with rn b action p = (case b of
     Live_Broker att ex det \<Rightarrow>
       seq (in_sys (att (cycle_id rn))) (\<lambda>_.
       seq (in_sys (finally_do (ex action p) det)) (\<lambda>report.
       put_artifacts (ca_execution_update (\<lambda>_. Some report))))
   | Plain_Broker ex \<Rightarrow>
       seq (in_sys (in_world (ex action p))) (\<lambda>report.
       seq (put_artifacts (ca_execution_update (\<lambda>_. Some report))) (\<lambda>_.
       log_event rn (broker_executed_event (rn_env rn) (cycle_id rn) (fa_source_run_id action)
         (execution_status_value (xr_status report)) (length (xr_fills report)) (xr_reason report)))))"

definition broker_phase :: "'w runner \<Rightarrow> ('w, cycle_result) run_eff" where
  "broker_phase rn = seq (gets (\<lambda>c. ca_feasible (rc_artifacts c))) (\<lambda>broker_action.
     case (rn_broker rn, rn_prices rn, broker_action) of
       (Some b, Some provider, Some action) \<Rightarrow>
         seq (in_sys (in_world (try_except (provider action)))) (\<lambda>p. case p of
           Inl e \<Rightarrow> finalize_cycle rn \<lparr>ha_kind = HALT_AGENT_FAILED, ha_reason = ''price_provider: '' @ rn_exn_text rn e\<rparr>
         | Inr prices \<Rightarrow> seq (execute_with rn b action prices) (\<lambda>_. complete_cycle rn DECIDING))
     | _ \<Rightarrow> complete_cycle rn DECIDING)"

definition gateway_phase :: "'w runner \<Rightarrow> strategy_decision \<Rightarrow> ('w, cycle_result) run_eff" where
  "gateway_phase rn dec = (case rn_gateway rn of
     None \<Rightarrow> broker_phase rn
   | Some config \<Rightarrow>
       seq (lift_res (apply_policy_gateway (rn_fx rn) dec config)) (\<lambda>feasible.
       seq (put_artifacts (ca_feasible_update (\<lambda>_. Some feasible))) (\<lambda>_.
       seq (log_event rn (policy_gateway_applied_event (rn_env rn) (cycle_id rn)
         (md_run_id (sd_metadata dec)) (action_value (fa_action feasible)) (length (fa_violations feasible)))) (\<lambda>_.
       broker_phase rn))))"

definition decider_phase ::
  "'w runner \<Rightarrow> hypothesis_card \<Rightarrow> backtest_report \<Rightarrow> audit_report \<Rightarrow> ('w, cycle_result) run_eff" where
  "decider_phase rn hyp bt au = agent_phase rn
     (call_agent rn (rn_decider rn) ''decider'' ''StrategyDecision''
       \<lparr>di_hypothesis = hyp, di_backtest = bt, di_audit = au\<rparr>)
     (\<lambda>out. ca_decision_update (\<lambda>_. Some out))
     (gateway_phase rn)"

definition auditor_phase ::
  "'w runner \<Rightarrow> hypothesis_card \<Rightarrow> backtest_report \<Rightarrow> ('w, cycle_result) run_eff" where
  "auditor_phase rn hyp bt = agent_phase rn
     (call_agent rn (rn_auditor rn) ''auditor'' ''AuditReport'' \<lparr>ai_hypothesis = hyp, ai_backtest = bt\<rparr>)
     (\<lambda>out. ca_audit_update (\<lambda>_. Some out))
     (\<lambda>au. if ar_verdict au \<noteq> PASS then complete_cycle rn AUDITING
           else seq (go DECIDING) (\<lambda>_. decider_phase rn hyp bt au))"

definition backtest_phase ::
  "'w runner \<Rightarrow> hypothesis_card \<Rightarrow> research_plan \<Rightarrow> ('w, cycle_result) run_eff" where
  "backtest_phase rn hyp plan =
     seq (in_sys (in_world (try_except (rn_backtest rn plan)))) (\<lambda>x. case x of
       Inl e \<Rightarrow> finalize_cycle rn \<lparr>ha_kind = HALT_AGENT_FAILED,
         ha_reason = ''backtest_executor: '' @ rn_exn_text rn e\<rparr>
     | Inr bt \<Rightarrow> seq (put_artifacts (ca_backtest_update (\<lambda>_. Some bt))) (\<lambda>_.
         seq (go AUDITING) (\<lambda>_. auditor_phase rn hyp bt)))"

definition research_phase ::
  "'w runner \<Rightarrow> hypothesis_card \<Rightarrow> skeptic_report \<Rightarrow> ('w, cycle_result) run_eff" where
  "research_phase rn hyp sk = agent_phase rn
     (call_agent rn (rn_research rn) ''research'' ''ResearchPlan'' \<lparr>ri_hypothesis = hyp, ri_skeptic = sk\<rparr>)
     (\<lambda>out. ca_research_update (\<lambda>_. Some out))
     (backtest_phase rn hyp)"

definition skeptic_phase :: "'w runner \<Rightarrow> hypothesis_card \<Rightarrow> ('w, cycle_result) run_eff" where
  "skeptic_phase rn hyp = agent_phase rn
     (call_agent rn (rn_skeptic rn) ''skeptic'' ''SkepticReport'' hyp)
     (\<lambda>out. ca_skeptic_update (\<lambda>_. Some out))
     (\<lambda>sk. if sk_verdict sk \<noteq> PROCEED then complete_cycle rn SCRUTINIZING
           else seq (go RESEARCHING) (\<lambda>_. research_phase rn hyp sk))"

definition hypothesis_phase :: "'w runner \<Rightarrow> observer_artifact \<Rightarrow> ('w, cycle_result) run_eff" where
  "hypothesis_phase rn obs = agent_phase rn
     (call_agent rn (rn_hypothesis rn) ''hypothesis'' ''HypothesisCard'' obs)
     (\<lambda>out. ca_hypothesis_update (\<lambda>_. Some out))
     (\<lambda>hyp. seq (go SCRUTINIZING) (\<lambda>_. skeptic_phase rn hyp))"

definition observer_phase :: "'w runner \<Rightarrow> observer_input \<Rightarrow> ('w, cycle_result) run_eff" where
  "observer_phase rn input = agent_phase rn
     (call_agent rn (rn_observer rn) ''observer'' ''ObserverArtifact'' input)
     (\<lambda>out. ca_observer_update (\<lambda>_. Some out))
     (\<lambda>obs. seq (go HYPOTHESIZING) (\<lambda>_. hypothesis_phase rn obs))"

definition resolver_phase :: "'w runner \<Rightarrow> observer_input \<Rightarrow> ('w, unit) run_eff" where
  "resolver_phase rn input = (case rn_resolver rn of None \<Rightarrow> ret ()
     | Some resolve \<Rightarrow> seq (in_sys (in_world (resolve input))) (\<lambda>rs.
         for_each (\<lambda>r. log_event rn (identifier_resolved_event (rn_env rn) (cycle_id rn)
           (ir_input_ticker r) (ir_issuer_id r) (ir_matched_kind r))) rs))"

definition run_phases :: "'w runner \<Rightarrow> observer_input \<Rightarrow> ('w, cycle_result) run_eff" where
  "run_phases rn input =
     seq (log_event rn (cycle_started_event (rn_env rn) (cycle_id rn) None)) (\<lambda>_.
     seq (go OBSERVING) (\<lambda>_.
     seq (resolver_phase rn input) (\<lambda>_. observer_phase rn input)))"

definition start_context :: "'w runner \<Rightarrow> budget_guard \<Rightarrow> 'w sys \<Rightarrow> 'w run_ctx" where
  "start_context rn g s = \<lparr>rc_machine = on_transition (emit_state_transition rn) (new_machine IDLE),
     rc_guard = g, rc_artifacts = no_artifacts, rc_token_in = 0, rc_token_out = 0, rc_sys = s\<rparr>"

definition run_cycle :: "'w runner \<Rightarrow> observer_input \<Rightarrow> ('w sys, cycle_result) eff" where
  "run_cycle rn input =
     seq (in_world (start_guard (rn_clock rn) (rn_budget rn) True)) (\<lambda>g s.
       case run_phases rn input (start_context rn g s) of (r, c) \<Rightarrow> (r, rc_sys c))"

end
