(* ===== verification/Paper_Broker.thy ===== *)
theory Paper_Broker
  imports Execution
begin

text \<open>
  The in-memory paper broker (\<open>execution/paper\_broker.py\<close>): a long-only account that rebalances
  to the target weights of an adopted action. Its operations take the rounding step \<open>fx\<close> of the
  decimal context. An exception in the middle of a rebalance leaves the account as the raise
  found it, so the operations are effects.
\<close>

section \<open>State\<close>

record position =
  pos_qty :: decimal
  pos_avg :: decimal

definition make_position :: "decimal \<Rightarrow> decimal \<Rightarrow> position res" where
  "make_position q a = (if dec_ge0 q \<and> dec_ge0 a then Inr \<lparr>pos_qty = q, pos_avg = a\<rparr>
     else Inl ValidationError)"

record paper =
  pb_cash :: decimal
  pb_positions :: "(string \<times> position) list"
  pb_pnl :: decimal

definition new_paper :: "decimal \<Rightarrow> paper res" where
  "new_paper capital = (if dec_le capital dzero then Inl ValueError
     else Inr \<lparr>pb_cash = capital, pb_positions = [], pb_pnl = dzero\<rparr>)"

section \<open>Planning the rebalance\<close>

definition involved_tickers :: "feasible_action \<Rightarrow> paper \<Rightarrow> string list" where
  "involved_tickers a s = remdups (map tp_ticker (fa_targets a) @ map fst (pb_positions s))"

definition missing_prices :: "feasible_action \<Rightarrow> prices \<Rightarrow> paper \<Rightarrow> string list" where
  "missing_prices a p s = sort (filter (\<lambda>t. map_of p t = None) (involved_tickers a s))"

definition price_of :: "prices \<Rightarrow> string \<Rightarrow> decimal" where
  "price_of p t = (case map_of p t of Some d \<Rightarrow> d | None \<Rightarrow> dzero)"

definition equity :: "dec_ctx \<Rightarrow> prices \<Rightarrow> paper \<Rightarrow> decimal" where
  "equity fx p s = dec_add fx (pb_cash s)
     (dec_sum fx dzero (map (\<lambda>(t, pos). dec_mul fx (pos_qty pos) (price_of p t)) (pb_positions s)))"

definition target_quantity :: "dec_ctx \<Rightarrow> decimal \<Rightarrow> decimal \<Rightarrow> decimal \<Rightarrow> decimal res" where
  "target_quantity fx eq weight price =
     (if dec_lt dzero price then dec_div fx (dec_mul fx eq weight) price else Inr dzero)"

fun target_quantities :: "dec_ctx \<Rightarrow> prices \<Rightarrow> decimal \<Rightarrow> target_position list \<Rightarrow>
    (string \<times> decimal) list \<Rightarrow> (string \<times> decimal) list res" where
  "target_quantities fx p eq [] acc = Inr acc"
| "target_quantities fx p eq (t # ts) acc =
     bind_res (target_quantity fx eq (tp_weight t) (price_of p (tp_ticker t))) (\<lambda>q.
       target_quantities fx p eq ts (AList.update (tp_ticker t) q acc))"

definition current_qty :: "paper \<Rightarrow> string \<Rightarrow> decimal" where
  "current_qty s t = (case map_of (pb_positions s) t of Some pos \<Rightarrow> pos_qty pos | None \<Rightarrow> dzero)"

type_synonym order = "string \<times> decimal \<times> decimal"

definition compute_deltas :: "dec_ctx \<Rightarrow> paper \<Rightarrow> (string \<times> decimal) list \<Rightarrow> prices \<Rightarrow>
    order list \<times> order list" where
  "compute_deltas fx s targets p =
     (let delta = (\<lambda>(t, q). dec_sub fx q (current_qty s t));
          buys = map (\<lambda>x. (fst x, delta x, price_of p (fst x))) (filter (\<lambda>x. dec_lt dzero (delta x)) targets);
          sells = map (\<lambda>x. (fst x, dec_neg fx (delta x), price_of p (fst x)))
            (filter (\<lambda>x. \<not> dec_lt dzero (delta x) \<and> dec_lt (delta x) dzero) targets)
      in (sort_key fst sells, sort_key fst buys))"

section \<open>Trading\<close>

definition apply_sell :: "dec_ctx \<Rightarrow> order \<Rightarrow> (paper, unit) eff" where
  "apply_sell fx = (\<lambda>(t, qty, price). seq (gets pb_positions) (\<lambda>ps. case map_of ps t of
     None \<Rightarrow> raise KeyError
   | Some pos \<Rightarrow>
       let new_qty = dec_sub fx (pos_qty pos) qty in
       seq (modify (\<lambda>s. s\<lparr>pb_pnl := dec_add fx (pb_pnl s)
              (dec_mul fx (dec_sub fx price (pos_avg pos)) qty)\<rparr>)) (\<lambda>_.
       seq (modify (\<lambda>s. s\<lparr>pb_cash := dec_add fx (pb_cash s) (dec_mul fx qty price)\<rparr>)) (\<lambda>_.
       if dec_eq new_qty dzero
       then modify (\<lambda>s. s\<lparr>pb_positions := AList.delete t (pb_positions s)\<rparr>)
       else seq (lift_res (make_position new_qty (pos_avg pos))) (\<lambda>pos'.
         modify (\<lambda>s. s\<lparr>pb_positions := AList.update t pos' (pb_positions s)\<rparr>))))))"

definition bought_position :: "dec_ctx \<Rightarrow> position option \<Rightarrow> decimal \<Rightarrow> decimal \<Rightarrow> position res" where
  "bought_position fx existing qty price = (case existing of
     None \<Rightarrow> make_position qty price
   | Some pos \<Rightarrow>
       let total_cost = dec_add fx (dec_mul fx (pos_qty pos) (pos_avg pos)) (dec_mul fx qty price);
           new_qty = dec_add fx (pos_qty pos) qty
       in bind_res (if dec_lt dzero new_qty then dec_div fx total_cost new_qty else Inr dzero)
            (\<lambda>avg. make_position new_qty avg))"

definition apply_buy :: "dec_ctx \<Rightarrow> order \<Rightarrow> (paper, unit) eff" where
  "apply_buy fx = (\<lambda>(t, qty, price). seq (gets pb_positions) (\<lambda>ps.
     seq (lift_res (bought_position fx (map_of ps t) qty price)) (\<lambda>pos'.
     modify (\<lambda>s. s\<lparr>pb_positions := AList.update t pos' (pb_positions s),
       pb_cash := dec_sub fx (pb_cash s) (dec_mul fx qty price)\<rparr>))))"

definition trade :: "dec_ctx \<Rightarrow> side \<Rightarrow> order \<Rightarrow> (paper, fill) eff" where
  "trade fx sd = (\<lambda>(t, qty, price).
     seq (case sd of SELL \<Rightarrow> apply_sell fx (t, qty, price) | BUY \<Rightarrow> apply_buy fx (t, qty, price)) (\<lambda>_.
     lift_res (make_fill t sd FILL_FILLED qty price (dec_mul fx qty price) None)))"

section \<open>Executing an action\<close>

definition reject_report :: "feasible_action \<Rightarrow> string list \<Rightarrow> string list \<Rightarrow> execution_report res" where
  "reject_report a involved missing =
     bind_res (map_res (\<lambda>t. bind_res (make_fill t BUY FILL_REJECTED dzero dzero dzero
       (Some (if t \<in> set missing then ''price unavailable'' else ''rolled back''))) (\<lambda>f. Inr [f])) involved)
     (\<lambda>fs. make_report (fa_source_run_id a) EXEC_REJECTED fs
       (Some (''missing prices for: '' @ join '', '' missing)))"

definition plan_orders ::
  "dec_ctx \<Rightarrow> feasible_action \<Rightarrow> prices \<Rightarrow> paper \<Rightarrow> (order list \<times> order list) res" where
  "plan_orders fx a p s =
     bind_res (target_quantities fx p (equity fx p s) (fa_targets a)
       (map (\<lambda>(t, _). (t, dzero)) (pb_positions s)))
     (\<lambda>targets. Inr (compute_deltas fx s targets p))"

definition rebalance :: "dec_ctx \<Rightarrow> feasible_action \<Rightarrow> prices \<Rightarrow> (paper, execution_report) eff" where
  "rebalance fx a p = seq (gets id) (\<lambda>s.
     seq (lift_res (plan_orders fx a p s)) (\<lambda>(sells, buys).
     seq (map_eff (trade fx SELL) sells) (\<lambda>sold.
     seq (map_eff (trade fx BUY) buys) (\<lambda>bought.
     lift_res (make_report (fa_source_run_id a) EXEC_FILLED (sold @ bought) None)))))"

definition paper_execute :: "dec_ctx \<Rightarrow> paper broker_execute" where
  "paper_execute fx a p =
     (if fa_action a \<noteq> ADOPT
      then lift_res (make_report (fa_source_run_id a) EXEC_SKIPPED []
        (Some (''action='' @ action_value (fa_action a) @ ''; no broker work'')))
      else seq (gets id) (\<lambda>s.
        let missing = missing_prices a p s in
        if missing \<noteq> [] then lift_res (reject_report a (sort (involved_tickers a s)) missing)
        else rebalance fx a p))"

section \<open>The account's invariant\<close>

text \<open>One entry per ticker, every holding positive, every average cost non-negative.\<close>

definition positions_wf :: "(string \<times> position) list \<Rightarrow> bool" where
  "positions_wf ps \<longleftrightarrow> distinct (map fst ps) \<and>
     (\<forall>(t, pos)\<in>set ps. 0 < dval (pos_qty pos) \<and> 0 \<le> dval (pos_avg pos))"

definition paper_wf :: "paper \<Rightarrow> bool" where
  "paper_wf s = positions_wf (pb_positions s)"

lemma dec_ge0_iff: "dec_ge0 d \<longleftrightarrow> 0 \<le> dval d"
  by (simp add: dec_ge0_def dec_cmp)

lemma make_position_Inr: "make_position q a = Inr pos \<longleftrightarrow>
    0 \<le> dval q \<and> 0 \<le> dval a \<and> pos = \<lparr>pos_qty = q, pos_avg = a\<rparr>"
  by (auto simp: make_position_def dec_ge0_iff)

lemma positions_wf_update:
  assumes "positions_wf ps" and "0 < dval (pos_qty pos)" and "0 \<le> dval (pos_avg pos)"
  shows "positions_wf (AList.update t pos ps)"
  using assms set_update_subset [of t pos ps]
  by (auto simp: positions_wf_def distinct_keys_update)

lemma positions_wf_delete: "positions_wf ps \<Longrightarrow> positions_wf (AList.delete t ps)"
  using set_delete_subset [of t ps] by (auto simp: positions_wf_def distinct_keys_delete)

lemma positions_wf_lookup:
  assumes "positions_wf ps" and "map_of ps t = Some pos"
  shows "0 < dval (pos_qty pos)" and "0 \<le> dval (pos_avg pos)"
  using assms(1) map_of_in_set [OF assms(2)] by (auto simp: positions_wf_def)

lemma paper_wf_new: "new_paper c = Inr s \<Longrightarrow> paper_wf s"
  by (auto simp: new_paper_def paper_wf_def positions_wf_def split: if_splits)

text \<open>The effect of a sale and of a purchase on the account.\<close>

definition booked_sale :: "dec_ctx \<Rightarrow> position \<Rightarrow> decimal \<Rightarrow> decimal \<Rightarrow> paper \<Rightarrow> paper" where
  "booked_sale fx pos qty price s =
     s\<lparr>pb_pnl := dec_add fx (pb_pnl s) (dec_mul fx (dec_sub fx price (pos_avg pos)) qty),
       pb_cash := dec_add fx (pb_cash s) (dec_mul fx qty price)\<rparr>"

lemma booked_sale_positions [simp]: "pb_positions (booked_sale fx pos qty price s) = pb_positions s"
  by (simp add: booked_sale_def)

lemma apply_sell_not_held:
  "map_of (pb_positions s) t = None \<Longrightarrow> apply_sell fx (t, qty, price) s = (Inl KeyError, s)"
  by (simp add: apply_sell_def seq_apply)

lemma apply_sell_held:
  assumes "map_of (pb_positions s) t = Some pos"
  shows "apply_sell fx (t, qty, price) s =
    (let q = dec_sub fx (pos_qty pos) qty; s1 = booked_sale fx pos qty price s in
     if dec_eq q dzero then (Inr (), s1\<lparr>pb_positions := AList.delete t (pb_positions s)\<rparr>)
     else case make_position q (pos_avg pos) of
       Inl e \<Rightarrow> (Inl e, s1)
     | Inr pos' \<Rightarrow> (Inr (), s1\<lparr>pb_positions := AList.update t pos' (pb_positions s)\<rparr>))"
  using assms by (auto simp: apply_sell_def booked_sale_def seq_apply Let_def split: sum.split)

lemma apply_buy_eq:
  "apply_buy fx (t, qty, price) s =
     (case bought_position fx (map_of (pb_positions s) t) qty price of
        Inl e \<Rightarrow> (Inl e, s)
      | Inr pos \<Rightarrow> (Inr (), s\<lparr>pb_positions := AList.update t pos (pb_positions s),
          pb_cash := dec_sub fx (pb_cash s) (dec_mul fx qty price)\<rparr>))"
  by (simp add: apply_buy_def seq_apply split: sum.split)

lemma keeps_wf_sell: "keeps paper_wf (apply_sell fx x)"
proof (rule keepsI)
  fix s assume wf: "paper_wf s"
  obtain t qty price where x: "x = (t, qty, price)" by (metis prod_cases3)
  show "paper_wf (snd (apply_sell fx x s))"
  proof (cases "map_of (pb_positions s) t")
    case None
    with wf x show ?thesis by (simp add: apply_sell_not_held)
  next
    case (Some pos)
    then have avg: "0 \<le> dval (pos_avg pos)"
      using wf positions_wf_lookup(2) unfolding paper_wf_def by blast
    have pos: "0 < dval (pos_qty pos')" "0 \<le> dval (pos_avg pos')"
      if "\<not> dec_eq q dzero" "make_position q (pos_avg pos) = Inr pos'" for q pos'
      using that by (auto simp: make_position_Inr dec_cmp)
    show ?thesis
      using wf x pos positions_wf_delete positions_wf_update
      by (auto simp: apply_sell_held [OF Some] paper_wf_def Let_def split: sum.split)
  qed
qed

context rounding_ctx
begin

lemma bought_position_Inr:
  assumes "bought_position fx existing qty price = Inr pos" and "0 < dval qty"
    and "\<forall>p. existing = Some p \<longrightarrow> 0 < dval (pos_qty p)"
  shows "0 < dval (pos_qty pos) \<and> 0 \<le> dval (pos_avg pos)"
proof (cases existing)
  case None
  then show ?thesis using assms by (auto simp: bought_position_def make_position_Inr)
next
  case (Some p)
  have "0 < dval (dec_add fx (pos_qty p) qty)"
    using assms(2,3) Some by (intro add_pos) (auto simp: less_imp_le)
  then show ?thesis using assms(1) Some
    by (auto simp: bought_position_def make_position_Inr bind_res_Inr_iff Let_def)
qed

lemma keeps_wf_buy: "0 < dval (fst (snd x)) \<Longrightarrow> keeps paper_wf (apply_buy fx x)"
proof (rule keepsI)
  fix s assume q: "0 < dval (fst (snd x))" and wf: "paper_wf s"
  obtain t qty price where x: "x = (t, qty, price)" by (metis prod_cases3)
  have "0 < dval (pos_qty pos) \<and> 0 \<le> dval (pos_avg pos)"
    if "bought_position fx (map_of (pb_positions s) t) qty price = Inr pos" for pos
    using bought_position_Inr [OF that] q x wf positions_wf_lookup(1)
    unfolding paper_wf_def by auto
  then show "paper_wf (snd (apply_buy fx x s))"
    using wf x by (auto simp: apply_buy_eq paper_wf_def positions_wf_update split: sum.split)
qed

lemma keeps_wf_trade: "0 < dval (fst (snd x)) \<Longrightarrow> keeps paper_wf (trade fx sd x)"
  by (cases sd; cases x) (auto simp: trade_def intro!: keeps_intros keeps_wf_sell keeps_wf_buy)

text \<open>Every planned order has a positive quantity, and its sign is decided on the exact values.\<close>

lemma compute_deltas_mem:
  assumes "compute_deltas fx s targets p = (sells, buys)"
  shows "(t, q, pr) \<in> set sells \<longleftrightarrow> (\<exists>tg. (t, tg) \<in> set targets \<and> dval tg < dval (current_qty s t) \<and>
      q = dec_neg fx (dec_sub fx tg (current_qty s t)) \<and> pr = price_of p t)"
    and "(t, q, pr) \<in> set buys \<longleftrightarrow> (\<exists>tg. (t, tg) \<in> set targets \<and> dval (current_qty s t) < dval tg \<and>
      q = dec_sub fx tg (current_qty s t) \<and> pr = price_of p t)"
proof -
  have eq: "(\<not> a < b \<and> b < a) = (b < a)" for a b :: rat by auto
  show "(t, q, pr) \<in> set sells \<longleftrightarrow> (\<exists>tg. (t, tg) \<in> set targets \<and> dval tg < dval (current_qty s t) \<and>
      q = dec_neg fx (dec_sub fx tg (current_qty s t)) \<and> pr = price_of p t)"
    "(t, q, pr) \<in> set buys \<longleftrightarrow> (\<exists>tg. (t, tg) \<in> set targets \<and> dval (current_qty s t) < dval tg \<and>
      q = dec_sub fx tg (current_qty s t) \<and> pr = price_of p t)"
    using assms by (force simp: compute_deltas_def Let_def dec_cmp sub_sign image_iff eq)+
qed

lemma orders_positive:
  assumes "compute_deltas fx s targets p = (sells, buys)"
  shows "\<forall>x\<in>set sells \<union> set buys. 0 < dval (fst (snd x))"
  using compute_deltas_mem [OF assms] by (auto simp: neg_sign sub_sign)

lemma keeps_wf_rebalance: "keeps paper_wf (rebalance fx a p)"
proof -
  have "keeps paper_wf (seq (map_eff (trade fx SELL) sells) (\<lambda>sold.
     seq (map_eff (trade fx BUY) buys) (\<lambda>bought.
     lift_res (make_report (fa_source_run_id a) EXEC_FILLED (sold @ bought) None))))"
    if plan: "plan_orders fx a p s = Inr (sells, buys)" for s sells buys
  proof -
    obtain targets where "compute_deltas fx s targets p = (sells, buys)"
      using plan by (auto simp: plan_orders_def bind_res_Inr_iff)
    then show ?thesis
      using orders_positive by (intro keeps_intros keeps_wf_trade) blast+
  qed
  then show ?thesis
    by (auto simp: rebalance_def keeps_def seq_apply split: sum.split prod.split)
qed

lemma keeps_wf_execute: "keeps paper_wf (paper_execute fx a p)"
  unfolding paper_execute_def Let_def by (intro keeps_intros keeps_wf_rebalance)

lemma paper_run_id:
  "paper_execute fx a p s = (Inr r, t) \<Longrightarrow> xr_source_run_id r = strip (fa_source_run_id a)"
  by (auto simp: paper_execute_def rebalance_def reject_report_def make_report_Inr seq_apply Let_def
      bind_res_Inr_iff split: if_splits sum.splits prod.splits)

end

lemma paper_skips:
  "fa_action a \<noteq> ADOPT \<Longrightarrow> paper_execute fx a p s =
     (make_report (fa_source_run_id a) EXEC_SKIPPED []
        (Some (''action='' @ action_value (fa_action a) @ ''; no broker work'')), s)"
  by (simp add: paper_execute_def)

interpretation paper: broker "paper_execute py_ctx" paper_wf "\<lambda>s. s"
proof
  show "paper_wf (snd (paper_execute py_ctx a p s))" if "paper_wf s" for a p s
    using that py.keeps_wf_execute by (simp add: keeps_def)
qed (auto simp: paper_skips make_report_Inr py.paper_run_id)

end
