(* ===== verification/Decimal_Text.thy ===== *)
theory Decimal_Text
  imports Py_Decimal
begin

text \<open>
  The other half of the text of a decimal: \<open>Decimal(s)\<close> for a string \<open>s\<close>, with the special
  values a message from outside can carry. \<open>Decimal\<close> strips white space, drops underscores and
  then reads a sign, digits with at most one point, an exponent; or Infinity, or NaN.
\<close>

datatype py_number = Finite decimal | Infinity bool | Not_A_Number

definition is_digit :: "char \<Rightarrow> bool" where
  "is_digit c = (let n = (of_char c :: nat) in 48 \<le> n \<and> n \<le> 57)"

definition digits_value :: "string \<Rightarrow> nat" where
  "digits_value s = foldl (\<lambda>n c. 10 * n + ((of_char c :: nat) - 48)) 0 s"

definition all_digits :: "string \<Rightarrow> bool" where
  "all_digits s = (s \<noteq> [] \<and> list_all is_digit s)"

text \<open>The optional exponent: what follows the digits, up to the end.\<close>

definition scan_exponent :: "string \<Rightarrow> int option" where
  "scan_exponent s = (case s of [] \<Rightarrow> Some 0
     | c # t \<Rightarrow> if c \<noteq> CHR ''E'' \<and> c \<noteq> CHR ''e'' then None
        else (case t of [] \<Rightarrow> None
          | d # u \<Rightarrow> if d = CHR ''-'' then (if all_digits u then Some (- int (digits_value u)) else None)
             else if d = CHR ''+'' then (if all_digits u then Some (int (digits_value u)) else None)
             else if all_digits t then Some (int (digits_value t)) else None))"

definition scan_fraction :: "string \<Rightarrow> string \<times> string" where
  "scan_fraction r = (case r of [] \<Rightarrow> ([], [])
     | c # t \<Rightarrow> if c = CHR ''.'' then (takeWhile is_digit t, dropWhile is_digit t) else ([], r))"

definition scan_unsigned :: "string \<Rightarrow> (nat \<times> int) option" where
  "scan_unsigned s = (let i = takeWhile is_digit s; (f, r) = scan_fraction (dropWhile is_digit s) in
     if i = [] \<and> f = [] then None
     else map_option (\<lambda>e. (digits_value (i @ f), e - int (length f))) (scan_exponent r))"

text \<open>Infinity and NaN in any case; a NaN may be signalling and carry digits.\<close>

definition scan_special :: "bool \<Rightarrow> string \<Rightarrow> py_number option" where
  "scan_special neg s = (let l = str_lower s; q = (if l \<noteq> [] \<and> hd l = CHR ''s'' then tl l else l) in
     if l = ''inf'' \<or> l = ''infinity'' then Some (Infinity neg)
     else if take 3 q = ''nan'' \<and> list_all is_digit (drop 3 q) then Some Not_A_Number
     else None)"

definition decimal_of :: "string \<Rightarrow> py_number res" where
  "decimal_of s0 = (let s = filter (\<lambda>c. c \<noteq> CHR ''_'') (py_strip s0);
       neg = (s \<noteq> [] \<and> hd s = CHR ''-'');
       u = (if s \<noteq> [] \<and> (hd s = CHR ''-'' \<or> hd s = CHR ''+'') then tl s else s) in
     case scan_unsigned u of
       Some (n, e) \<Rightarrow> Inr (Finite (Dec (if neg then - int n else int n) e))
     | None \<Rightarrow> (case scan_special neg u of Some x \<Rightarrow> Inr x | None \<Rightarrow> Inl InvalidOperation))"

text \<open>\<open>str\<close> of any of them; the sign and the digits of a NaN are left out.\<close>

fun number_str :: "py_number \<Rightarrow> string" where
  "number_str (Finite d) = dec_str d"
| "number_str (Infinity neg) = (if neg then ''-Infinity'' else ''Infinity'')"
| "number_str Not_A_Number = ''NaN''"

text \<open>\<open>x <= 0\<close>: an ordering comparison with a NaN raises.\<close>

fun number_le_zero :: "py_number \<Rightarrow> bool res" where
  "number_le_zero (Finite d) = Inr (dec_le d dzero)"
| "number_le_zero (Infinity neg) = Inr neg"
| "number_le_zero Not_A_Number = Inl InvalidOperation"

section \<open>Reading back what \<open>str\<close> has written\<close>

lemma digit_char_digit: "d < 10 \<Longrightarrow> is_digit (digit_char d) \<and> (of_char (digit_char d) :: nat) = 48 + d"
  by (simp add: digit_char_def is_digit_def of_char_of)

lemma digits_nat_str: "list_all is_digit (nat_str n)"
proof (induction n rule: nat_str.induct)
  case (1 n)
  then show ?case by (subst nat_str.simps) (auto simp: digit_char_digit)
qed

lemma digits_value_append:
  "digits_value (s @ [c]) = 10 * digits_value s + ((of_char c :: nat) - 48)"
  by (simp add: digits_value_def)

lemma value_nat_str: "digits_value (nat_str n) = n"
proof (induction n rule: nat_str.induct)
  case (1 n)
  show ?case
  proof (cases "n < 10")
    case True
    then show ?thesis by (subst nat_str.simps) (simp add: digits_value_def digit_char_digit)
  next
    case False
    with 1 show ?thesis by (subst nat_str.simps) (simp add: digits_value_append digit_char_digit)
  qed
qed

lemma digits_value_zeros: "digits_value (CHR ''0'' # s) = digits_value s"
  by (simp add: digits_value_def)

lemma digits_value_replicate: "digits_value (replicate k (CHR ''0'') @ s) = digits_value s"
  by (induction k) (simp_all add: digits_value_zeros)

lemma zeros_digits: "list_all is_digit (replicate k (CHR ''0''))"
  by (simp add: list_all_iff is_digit_def)

definition exponent_text :: "int \<Rightarrow> string" where
  "exponent_text k = ''E'' @ (if 0 \<le> k then ''+'' else []) @ int_str k"

lemma scan_exponent_text: "scan_exponent (exponent_text k) = Some k"
  by (auto simp: scan_exponent_def exponent_text_def int_str_def all_digits_def digits_nat_str value_nat_str)

definition not_a_digit_first :: "string \<Rightarrow> bool" where
  "not_a_digit_first r = (r = [] \<or> \<not> is_digit (hd r))"

lemma takeWhile_digits:
  "list_all is_digit s \<Longrightarrow> not_a_digit_first r \<Longrightarrow> takeWhile is_digit (s @ r) = s \<and> dropWhile is_digit (s @ r) = r"
  by (induction s) (cases r; auto simp: not_a_digit_first_def)+

lemma exponent_first: "not_a_digit_first (exponent_text k)" "not_a_digit_first []" "not_a_digit_first (CHR ''.'' # s)"
  by (simp_all add: not_a_digit_first_def exponent_text_def is_digit_def)

lemma scan_point:
  assumes "list_all is_digit i" "list_all is_digit f" "i \<noteq> []" "not_a_digit_first r" "scan_exponent r = Some e"
  shows "scan_unsigned (i @ CHR ''.'' # f @ r) = Some (digits_value (i @ f), e - int (length f))"
  using assms takeWhile_digits [OF assms(1) exponent_first(3), of "f @ r"] takeWhile_digits [OF assms(2,4)]
  by (simp add: scan_unsigned_def scan_fraction_def)

lemma scan_integer:
  assumes "list_all is_digit i" "i \<noteq> []" "not_a_digit_first r" "scan_exponent r = Some e"
    and "r = [] \<or> hd r \<noteq> CHR ''.''"
  shows "scan_unsigned (i @ r) = Some (digits_value i, e)"
  using assms takeWhile_digits [OF assms(1,3)]
  by (auto simp: scan_unsigned_def scan_fraction_def split: list.split)

definition unsigned_text :: "nat \<Rightarrow> int \<Rightarrow> string" where
  "unsigned_text n e = dec_str (Dec (int n) e)"

lemma scan_dec_str: "scan_unsigned (unsigned_text n e) = Some (n, e)"
proof -
  let ?ds = "nat_str n"
  define left where "left = e + int (length ?ds)"
  define dot where "dot = (if e \<le> 0 \<and> -6 < left then left else 1)"
  define ex where "ex = (if left = dot then [] else exponent_text (left - dot))"
  have ex: "not_a_digit_first ex" "scan_exponent ex = Some (left - dot)" "ex = [] \<or> hd ex \<noteq> CHR ''.''"
    by (auto simp: ex_def exponent_first scan_exponent_text) (auto simp: scan_exponent_def exponent_text_def)
  have written: "unsigned_text n e = (if dot \<le> 0 then ''0.'' @ replicate (nat (- dot)) (CHR ''0'') @ ?ds
               else if int (length ?ds) \<le> dot then ?ds @ replicate (nat dot - length ?ds) (CHR ''0'')
               else take (nat dot) ?ds @ ''.'' @ drop (nat dot) ?ds) @ ex"
    unfolding unsigned_text_def dec_str_def Let_def ex_def exponent_text_def dot_def left_def
    by (simp only: decimal.sel append_assoc append_Nil abs_of_nat nat_int of_nat_less_0_iff if_False)
  consider "dot \<le> 0" | "0 < dot" "int (length ?ds) \<le> dot" | "0 < dot" "dot < int (length ?ds)" by linarith
  then show ?thesis
  proof cases
    case 1
    then have "left = dot" by (auto simp: dot_def split: if_splits)
    then have k: "left - dot - int (length (replicate (nat (- dot)) (CHR ''0'') @ ?ds)) = e"
      using 1 by (simp add: left_def)
    have "scan_unsigned (''0'' @ CHR ''.'' # (replicate (nat (- dot)) (CHR ''0'') @ ?ds) @ ex) =
        Some (digits_value (''0'' @ replicate (nat (- dot)) (CHR ''0'') @ ?ds),
          left - dot - int (length (replicate (nat (- dot)) (CHR ''0'') @ ?ds)))"
      by (rule scan_point) (use ex in \<open>simp_all add: digits_nat_str zeros_digits is_digit_def\<close>)
    moreover have "digits_value (''0'' @ replicate (nat (- dot)) (CHR ''0'') @ ?ds) = n"
      by (simp add: digits_value_zeros digits_value_replicate value_nat_str)
    ultimately show ?thesis using 1 k by (simp add: written)
  next
    case 2
    obtain m where "length ?ds = Suc m" by (cases "length ?ds") simp_all
    with 2 have z: "nat dot - length ?ds = 0" and k: "left - dot = e"
      by (auto simp: dot_def left_def split: if_splits)
    have "scan_unsigned (?ds @ ex) = Some (digits_value ?ds, left - dot)"
      by (rule scan_integer) (use ex in \<open>simp_all add: digits_nat_str\<close>)
    then show ?thesis using 2 z k by (simp add: written value_nat_str)
  next
    case 3
    have t: "list_all is_digit (take (nat dot) ?ds)" "list_all is_digit (drop (nat dot) ?ds)"
      using digits_nat_str [of n] by (auto simp: list_all_iff dest: in_set_takeD in_set_dropD)
    have "scan_unsigned (take (nat dot) ?ds @ CHR ''.'' # drop (nat dot) ?ds @ ex) =
        Some (digits_value (take (nat dot) ?ds @ drop (nat dot) ?ds), left - dot - int (length (drop (nat dot) ?ds)))"
      by (rule scan_point [OF t]) (use ex 3 in simp_all)
    moreover have "left - dot - int (length (drop (nat dot) ?ds)) = e"
      using 3 by (simp add: left_def)
    ultimately show ?thesis using 3 by (simp add: written value_nat_str)
  qed
qed

text \<open>The characters \<open>str\<close> writes: none of them is stripped or dropped.\<close>

definition plain_char :: "char \<Rightarrow> bool" where
  "plain_char c = (is_digit c \<or> c \<in> set ''.E+-'')"

lemma plain_char_kept: "plain_char c \<Longrightarrow> \<not> is_space c \<and> c \<noteq> CHR ''_''"
  by (auto simp: plain_char_def is_digit_def is_space_def Let_def)

lemma plain_digits: "list_all plain_char (nat_str n)" "list_all plain_char (int_str i)"
    "list_all plain_char (replicate k (CHR ''0''))"
  using digits_nat_str zeros_digits by (auto simp: list_all_iff plain_char_def int_str_def)

lemma plain_take_drop: "list_all P s \<Longrightarrow> list_all P (take k s) \<and> list_all P (drop k s)"
  by (auto simp: list_all_iff dest: in_set_takeD in_set_dropD)

definition body_text :: "int \<Rightarrow> string \<Rightarrow> string" where
  "body_text dot ds = (if dot \<le> 0 then ''0.'' @ replicate (nat (- dot)) (CHR ''0'') @ ds
     else if int (length ds) \<le> dot then ds @ replicate (nat dot - length ds) (CHR ''0'')
     else take (nat dot) ds @ ''.'' @ drop (nat dot) ds)"

lemma dec_str_parts:
  "\<exists>dot ex. dec_str d = (if coeff d < 0 then ''-'' else []) @ unsigned_text (nat \<bar>coeff d\<bar>) (expo d) \<and>
     unsigned_text (nat \<bar>coeff d\<bar>) (expo d) = body_text dot (nat_str (nat \<bar>coeff d\<bar>)) @ ex \<and>
     (ex = [] \<or> (\<exists>k. ex = exponent_text k))"
proof -
  let ?n = "nat \<bar>coeff d\<bar>"
  define left where "left = expo d + int (length (nat_str ?n))"
  define dot where "dot = (if expo d \<le> 0 \<and> -6 < left then left else 1)"
  define ex where "ex = (if left = dot then [] else exponent_text (left - dot))"
  have 1: "unsigned_text ?n (expo d) = body_text dot (nat_str ?n) @ ex"
    unfolding unsigned_text_def dec_str_def Let_def ex_def exponent_text_def dot_def left_def body_text_def
    by (simp only: decimal.sel append_assoc append_Nil abs_of_nat nat_int of_nat_less_0_iff if_False)
  have 2: "dec_str d = (if coeff d < 0 then ''-'' else []) @ body_text dot (nat_str ?n) @ ex"
    unfolding dec_str_def Let_def ex_def exponent_text_def dot_def left_def body_text_def
    by (simp only: append_assoc append_Nil)
  show ?thesis
    by (rule exI [of _ dot], rule exI [of _ ex]) (use 1 2 in \<open>auto simp: ex_def\<close>)
qed

lemma plain_body: "list_all plain_char ds \<Longrightarrow> list_all plain_char (body_text dot ds)"
  by (auto simp: body_text_def plain_digits plain_take_drop) (simp_all add: plain_char_def is_digit_def)

lemma plain_exponent: "list_all plain_char (exponent_text k)"
  by (simp add: exponent_text_def plain_digits) (simp add: plain_char_def)

lemma plain_dec_str: "list_all plain_char (dec_str d)"
proof -
  have "plain_char (CHR ''-'')" by (simp add: plain_char_def)
  then show ?thesis
    using dec_str_parts [of d] plain_body [OF plain_digits(1)] plain_exponent by auto
qed

lemma body_hd:
  assumes "list_all is_digit ds" and "ds \<noteq> []"
  shows "body_text dot ds \<noteq> [] \<and> is_digit (hd (body_text dot ds))"
  using assms by (cases ds) (auto simp: body_text_def take_Cons' is_digit_def)

lemma dec_str_sign:
  "dec_str d = (if coeff d < 0 then ''-'' else []) @ unsigned_text (nat \<bar>coeff d\<bar>) (expo d)"
  using dec_str_parts by blast

lemma unsigned_text_hd:
  "unsigned_text (nat \<bar>coeff d\<bar>) (expo d) \<noteq> [] \<and> is_digit (hd (unsigned_text (nat \<bar>coeff d\<bar>) (expo d)))"
proof -
  obtain dot ex where "unsigned_text (nat \<bar>coeff d\<bar>) (expo d) = body_text dot (nat_str (nat \<bar>coeff d\<bar>)) @ ex"
    using dec_str_parts by blast
  with body_hd [OF digits_nat_str nat_str_nonempty, of dot "nat \<bar>coeff d\<bar>"] show ?thesis by simp
qed

text \<open>The text of a decimal reads back as that very decimal, coefficient and exponent.\<close>

theorem decimal_of_dec_str: "decimal_of (dec_str d) = Inr (Finite d)"
proof -
  have plain: "list_all plain_char (dec_str d)" by (rule plain_dec_str)
  have "dec_str d = [] \<or> \<not> is_space (hd (dec_str d)) \<and> \<not> is_space (last (dec_str d))"
    using plain plain_char_kept by (metis hd_in_set last_in_set list_all_iff)
  then have 1: "py_strip (dec_str d) = dec_str d" by (simp add: py_strip_def strip_by_id)
  have 2: "filter (\<lambda>c. c \<noteq> CHR ''_'') (dec_str d) = dec_str d"
  proof (rule filter_True, rule ballI)
    fix c
    assume "c \<in> set (dec_str d)"
    with plain have "plain_char c" by (simp add: list_all_iff)
    then show "c \<noteq> CHR ''_''" using plain_char_kept by blast
  qed
  let ?u = "unsigned_text (nat \<bar>coeff d\<bar>) (expo d)"
  have "is_digit (hd ?u)" "?u \<noteq> []" using unsigned_text_hd by simp_all
  moreover have "\<not> is_digit (CHR ''-'')" "\<not> is_digit (CHR ''+'')" by (simp_all add: is_digit_def)
  ultimately have hd: "hd ?u \<noteq> CHR ''-''" "hd ?u \<noteq> CHR ''+''" "?u \<noteq> []" by metis+
  show ?thesis
  proof (cases "coeff d < 0")
    case True
    then have "dec_str d = CHR ''-'' # ?u" using dec_str_sign [of d] by simp
    with True show ?thesis unfolding decimal_of_def 1 2 by (cases d) (simp add: scan_dec_str)
  next
    case False
    then have "dec_str d = ?u" using dec_str_sign [of d] by simp
    with False hd show ?thesis unfolding decimal_of_def 1 2 by (cases d) (simp add: scan_dec_str)
  qed
qed

end
