(* ===== verification/Json.thy ===== *)
theory Json
  imports Decimal_Text
begin

text \<open>
  Decoded JSON values as Python has them, and the few operations the code applies to them. The
  keys of an object are distinct. \<open>other\<close> is the \<open>str\<close> of a float, a list or an object, which
  the code never relies on.
\<close>

datatype json = JNull | JBool bool | JInt int | JFloat rat | JStr string | JList "json list"
  | JObj "(string \<times> json) list"

fun json_str :: "(json \<Rightarrow> string) \<Rightarrow> json \<Rightarrow> string" where
  "json_str other JNull = ''None''"
| "json_str other (JBool b) = (if b then ''True'' else ''False'')"
| "json_str other (JInt i) = int_str i"
| "json_str other (JStr s) = s"
| "json_str other (JFloat x) = other (JFloat x)"
| "json_str other (JList x) = other (JList x)"
| "json_str other (JObj x) = other (JObj x)"

text \<open>\<open>isinstance(v, dict)\<close>, \<open>isinstance(v, str)\<close>.\<close>

definition as_object :: "json option \<Rightarrow> (string \<times> json) list option" where
  "as_object v = (case v of Some (JObj kvs) \<Rightarrow> Some kvs | _ \<Rightarrow> None)"

definition as_string :: "json option \<Rightarrow> string option" where
  "as_string v = (case v of Some (JStr s) \<Rightarrow> Some s | _ \<Rightarrow> None)"

text \<open>\<open>d.get(k)\<close> with a default of \<open>None\<close>: an absent key and a null are the same.\<close>

definition get_value :: "(string \<times> json) list \<Rightarrow> string \<Rightarrow> json option" where
  "get_value d k = (case map_of d k of Some JNull \<Rightarrow> None | v \<Rightarrow> v)"

text \<open>\<open>d.get(k)\<close> itself.\<close>

definition get_or_null :: "(string \<times> json) list \<Rightarrow> string \<Rightarrow> json" where
  "get_or_null d k = (case map_of d k of None \<Rightarrow> JNull | Some v \<Rightarrow> v)"

text \<open>\<open>str(d.get(k, ""))\<close>.\<close>

definition get_str :: "(json \<Rightarrow> string) \<Rightarrow> (string \<times> json) list \<Rightarrow> string \<Rightarrow> string" where
  "get_str other d k = (case map_of d k of None \<Rightarrow> [] | Some v \<Rightarrow> json_str other v)"

text \<open>\<open>str(p[k])\<close> on a value that may not be an object, or lack the key.\<close>

definition item_str :: "(json \<Rightarrow> string) \<Rightarrow> json \<Rightarrow> string \<Rightarrow> string res" where
  "item_str other p k = (case p of JObj d \<Rightarrow>
       (case map_of d k of None \<Rightarrow> Inl KeyError | Some v \<Rightarrow> Inr (json_str other v))
     | _ \<Rightarrow> Inl TypeError)"

end
