(* ===== verification/Http.thy ===== *)
theory Http
  imports Json
begin

text \<open>
  What the clients see of the HTTP library: a request comes back with a transport error or with a
  response, whose body may not be JSON. And Python's truth of a decoded value, and the validation of
  the rows of an answer, where the first row refused ends it.
\<close>

datatype http_outcome =
    Transport_Error string
  | Response (status: nat) (body: "json option")

fun json_truthy :: "json \<Rightarrow> bool" where
  "json_truthy JNull = False"
| "json_truthy (JBool b) = b"
| "json_truthy (JInt i) = (i \<noteq> 0)"
| "json_truthy (JFloat x) = (x \<noteq> 0)"
| "json_truthy (JStr s) = (s \<noteq> [])"
| "json_truthy (JList xs) = (xs \<noteq> [])"
| "json_truthy (JObj kvs) = (kvs \<noteq> [])"

primrec each_row :: "('a \<Rightarrow> 'b res) \<Rightarrow> 'a list \<Rightarrow> 'b list res" where
  "each_row f [] = Inr []"
| "each_row f (x # xs) = bind_res (f x) (\<lambda>y. bind_res (each_row f xs) (\<lambda>ys. Inr (y # ys)))"

lemma each_row_Inr_iff: "each_row f xs = Inr ys \<longleftrightarrow> list_all2 (\<lambda>x y. f x = Inr y) xs ys"
  by (induction xs arbitrary: ys) (auto simp: bind_res_Inr_iff list_all2_Cons1)

lemma each_row_append: "each_row f (xs @ ys) = bind_res (each_row f xs) (\<lambda>a. bind_res (each_row f ys) (\<lambda>b. Inr (a @ b)))"
  by (induction xs) (simp_all add: bind_res_def split: sum.splits)

end
