(* ===== verification/Alpaca_Rest.thy ===== *)
theory Alpaca_Rest
  imports Artifacts Http
begin

text \<open>
  The REST client of the venue (\<open>execution/alpaca\_rest.py\<close>). The HTTP library is a parameter: a
  request acts on the outside \<open>'x\<close> and comes back with a transport error or a response, whose
  body may not be JSON. Of an \<open>AlpacaError\<close> the message is kept.
\<close>

section \<open>The HTTP library\<close>

record 'x http =
  ht_post :: "string \<Rightarrow> (string \<times> string) list \<Rightarrow> 'x \<Rightarrow> http_outcome \<times> 'x"
  ht_delete :: "string \<Rightarrow> 'x \<Rightarrow> http_outcome \<times> 'x"

section \<open>The client\<close>

record alpaca_client =
  al_key :: string
  al_secret :: string
  al_base :: string

definition default_base_url :: string where
  "default_base_url = ''https://paper-api.alpaca.markets''"

definition client_id_max :: nat where
  "client_id_max = 48"

definition new_client :: "string \<Rightarrow> string \<Rightarrow> string \<Rightarrow> alpaca_client res" where
  "new_client key secret base = (if key = [] then Inl ValueError else if secret = [] then Inl ValueError
     else Inr \<lparr>al_key = key, al_secret = secret, al_base = rev (dropWhile (\<lambda>c. c = CHR ''/'') (rev base))\<rparr>)"

definition client_from_env :: "(string \<Rightarrow> string option) \<Rightarrow> string \<Rightarrow> string \<Rightarrow> string \<Rightarrow> alpaca_client res" where
  "client_from_env environ key_var secret_var url_var =
     (let lookup = (\<lambda>v d. case environ v of None \<Rightarrow> d | Some x \<Rightarrow> x) in
      if lookup key_var [] = [] then Inl (AlpacaError (key_var @
        '' env var must be set; export it (e.g. via dotenvx) and try again''))
      else if lookup secret_var [] = [] then Inl (AlpacaError (secret_var @ '' env var must be set''))
      else new_client (lookup key_var []) (lookup secret_var []) (lookup url_var default_base_url))"

record alpaca_order =
  ao_order_id :: string
  ao_client :: string
  ao_symbol :: string
  ao_qty :: decimal
  ao_side :: string
  ao_status :: string

definition orders_url :: "alpaca_client \<Rightarrow> string" where
  "orders_url cl = al_base cl @ ''/v2/orders''"

definition order_body :: "string \<Rightarrow> decimal \<Rightarrow> side \<Rightarrow> string \<Rightarrow> string \<Rightarrow> string \<Rightarrow> (string \<times> string) list" where
  "order_body symbol qty sd client order_type tif =
     [(''symbol'', symbol), (''qty'', dec_str qty), (''side'', if sd = BUY then ''buy'' else ''sell''),
      (''type'', order_type), (''time_in_force'', tif), (''client_order_id'', client)]"

text \<open>\<open>AlpacaOrder(...)\<close> of the decoded body; pydantic strips the strings and refuses a quantity
  that is not finite.\<close>

definition order_of :: "(json \<Rightarrow> string) \<Rightarrow> string \<Rightarrow> json \<Rightarrow> alpaca_order res" where
  "order_of other client p =
     bind_res (item_str other p ''id'') (\<lambda>oid.
     let cid = (case p of JObj d \<Rightarrow> (case map_of d ''client_order_id'' of None \<Rightarrow> client
       | Some v \<Rightarrow> json_str other v) | _ \<Rightarrow> client) in
     bind_res (item_str other p ''symbol'') (\<lambda>sym.
     bind_res (bind_res (item_str other p ''qty'') decimal_of) (\<lambda>q.
     bind_res (item_str other p ''side'') (\<lambda>sd.
     bind_res (item_str other p ''status'') (\<lambda>st.
     case q of Finite d \<Rightarrow> Inr \<lparr>ao_order_id = strip oid, ao_client = strip cid, ao_symbol = strip sym,
         ao_qty = d, ao_side = strip sd, ao_status = strip st\<rparr>
     | _ \<Rightarrow> Inl ValidationError)))))"

definition read_order :: "(json \<Rightarrow> string) \<Rightarrow> string \<Rightarrow> http_outcome \<Rightarrow> alpaca_order res" where
  "read_order other client r = (case r of
     Transport_Error e \<Rightarrow> Inl (AlpacaError (''Alpaca REST transport error: '' @ e))
   | Response st b \<Rightarrow>
       if 400 \<le> st then Inl (AlpacaError (''Alpaca REST '' @ nat_str st @ '': order submission rejected''))
       else (case b of None \<Rightarrow> Inl (AlpacaError (''Alpaca REST '' @ nat_str st @ '': response body not JSON''))
         | Some p \<Rightarrow> order_of other client p))"

definition submit_order :: "'x http \<Rightarrow> (json \<Rightarrow> string) \<Rightarrow> alpaca_client \<Rightarrow> string \<Rightarrow> decimal \<Rightarrow> side \<Rightarrow>
    string \<Rightarrow> string \<Rightarrow> string \<Rightarrow> ('x, alpaca_order) eff" where
  "submit_order http other cl symbol qty sd client order_type tif =
     (if client_id_max < length client then raise ValueError
      else if dec_le qty dzero then raise ValueError
      else seq (call (ht_post http (orders_url cl) (order_body symbol qty sd client order_type tif))) (\<lambda>r.
        lift_res (read_order other client r)))"

definition cancel_all_orders :: "'x http \<Rightarrow> alpaca_client \<Rightarrow> ('x, unit) eff" where
  "cancel_all_orders http cl = seq (call (ht_delete http (orders_url cl))) (\<lambda>r. case r of
     Transport_Error e \<Rightarrow> raise (AlpacaError (''Alpaca REST transport error during cancel-all: '' @ e))
   | Response st b \<Rightarrow> if 400 \<le> st
       then raise (AlpacaError (''Alpaca REST '' @ nat_str st @ '': cancel-all failed'')) else ret ())"

section \<open>One request, and what it means\<close>

definition venue_refuses :: "http_outcome \<Rightarrow> bool" where
  "venue_refuses r = (case r of Transport_Error _ \<Rightarrow> True | Response st _ \<Rightarrow> 400 \<le> st)"

definition is_alpaca_error :: "'a res \<Rightarrow> bool" where
  "is_alpaca_error r = (case r of Inl (AlpacaError _) \<Rightarrow> True | _ \<Rightarrow> False)"

lemma refused_read: "venue_refuses r \<Longrightarrow> is_alpaca_error (read_order other client r)"
  by (cases r) (simp_all add: venue_refuses_def is_alpaca_error_def read_order_def)

lemma read_order_ok: "read_order other client r = Inr ord \<Longrightarrow> \<not> venue_refuses r"
  using refused_read [of r other client] by (auto simp: is_alpaca_error_def)

lemma cancel_all_cases:
  "cancel_all_orders http cl x = (r, x') \<Longrightarrow> x' = snd (ht_delete http (orders_url cl) x) \<and>
     (if venue_refuses (fst (ht_delete http (orders_url cl) x)) then is_alpaca_error r else r = Inr ())"
  by (cases "ht_delete http (orders_url cl) x"; cases "fst (ht_delete http (orders_url cl) x)")
    (auto simp: cancel_all_orders_def seq_apply venue_refuses_def is_alpaca_error_def split: if_splits)

lemma submit_order_cases:
  "if client_id_max < length client \<or> dec_le qty dzero
   then submit_order http other cl symbol qty sd client ot tif x = (Inl ValueError, x)
   else submit_order http other cl symbol qty sd client ot tif x =
     (read_order other client (fst (ht_post http (orders_url cl) (order_body symbol qty sd client ot tif) x)),
      snd (ht_post http (orders_url cl) (order_body symbol qty sd client ot tif) x))"
  by (auto simp: submit_order_def seq_apply)

text \<open>One order, one request, and refusals are AlpacaErrors. A submission whose client order id
  is longer than 48 characters or whose quantity is not positive raises ValueError and sends
  nothing. Any other sends exactly one POST, to the orders endpoint of the client, whose body
  carries the client order id and the text of the very quantity, and the answer decides: a transport
  failure or a status from 400 on is an AlpacaError, and an order comes back only for a status
  below 400.\<close>

theorem submit_order_contract:
  "if client_id_max < length client \<or> dec_le qty dzero
   then submit_order http other cl symbol qty sd client ot tif x = (Inl ValueError, x)
   else \<exists>bd r. map_of bd ''client_order_id'' = Some client \<and>
     (\<exists>q. map_of bd ''qty'' = Some q \<and> decimal_of q = Inr (Finite qty)) \<and>
     submit_order http other cl symbol qty sd client ot tif x = (r, snd (ht_post http (orders_url cl) bd x)) \<and>
     (if venue_refuses (fst (ht_post http (orders_url cl) bd x)) then is_alpaca_error r
      else r = read_order other client (fst (ht_post http (orders_url cl) bd x)))"
proof (cases "client_id_max < length client \<or> dec_le qty dzero")
  case True
  then show ?thesis by (auto simp: submit_order_def)
next
  case False
  let ?bd = "order_body symbol qty sd client ot tif"
  have "map_of ?bd ''client_order_id'' = Some client" "map_of ?bd ''qty'' = Some (dec_str qty)"
    by (simp_all add: order_body_def)
  moreover have "submit_order http other cl symbol qty sd client ot tif x =
      (read_order other client (fst (ht_post http (orders_url cl) ?bd x)), snd (ht_post http (orders_url cl) ?bd x))"
    using False by (simp add: submit_order_def seq_apply)
  ultimately show ?thesis
    using False refused_read decimal_of_dec_str by (auto intro!: exI [of _ ?bd])
qed

end
