(* ===== verification/Journal.thy ===== *)
theory Journal
  imports Decimal_Text
begin

text \<open>
  The durable journal of the live broker (\<open>execution/live\_broker\_journal.py\<close>): the tables of its
  SQLite file with their constraints, the operations, and the contract the trade-update stream
  relies on, as a locale. Times are readings of \<open>time.time()\<close>. \<open>jr\_in\_txn\<close> is the open
  transaction Python's \<open>sqlite3\<close> begins before an INSERT and a commit ends.
\<close>

section \<open>Tables\<close>

record submission =
  sb_client :: string
  sb_cycle :: string
  sb_decision :: string
  sb_order :: string
  sb_key :: string
  sb_symbol :: string
  sb_side :: string
  sb_qty :: string
  sb_at :: rat

record fill_row =
  fr_client :: string
  fr_fill :: "string option"
  fr_qty :: string
  fr_price :: string
  fr_partial :: bool
  fr_at :: rat

record cancel_row =
  cr_client :: string
  cr_reason :: "string option"
  cr_at :: rat

record journal =
  jr_version :: int
  jr_submissions :: "submission list"
  jr_fills :: "fill_row list"
  jr_cancels :: "cancel_row list"
  jr_in_txn :: bool

definition empty_file :: journal where
  "empty_file = \<lparr>jr_version = 0, jr_submissions = [], jr_fills = [], jr_cancels = [], jr_in_txn = False\<rparr>"

definition schema_version :: int where
  "schema_version = 1"

definition open_journal :: "journal \<Rightarrow> journal res" where
  "open_journal j = (if schema_version < jr_version j then Inl RuntimeError
     else if jr_version j = 0 then Inr (j\<lparr>jr_version := schema_version, jr_in_txn := False\<rparr>)
     else Inr j)"

definition commit :: "journal \<Rightarrow> journal" where
  "commit j = j\<lparr>jr_in_txn := False\<rparr>"

section \<open>Writing\<close>

definition register_submission :: "rat \<Rightarrow> string \<Rightarrow> string \<Rightarrow> string \<Rightarrow> string \<Rightarrow> string \<Rightarrow> string \<Rightarrow> string \<Rightarrow>
    decimal \<Rightarrow> (journal, unit) eff" where
  "register_submission now client cycle decision order key symbol side_txt qty = (\<lambda>j.
     if client \<in> set (map sb_client (jr_submissions j)) then (Inl IntegrityError, j\<lparr>jr_in_txn := True\<rparr>)
     else (Inr (), commit (j\<lparr>jr_submissions := jr_submissions j @ [\<lparr>sb_client = client, sb_cycle = cycle,
       sb_decision = decision, sb_order = order, sb_key = key, sb_symbol = symbol, sb_side = side_txt,
       sb_qty = dec_str qty, sb_at = now\<rparr>]\<rparr>)))"

text \<open>The unique index on \<open>(client\_order\_id, fill\_id)\<close>: a NULL differs from every value.\<close>

definition fill_taken :: "journal \<Rightarrow> string \<Rightarrow> string option \<Rightarrow> bool" where
  "fill_taken j client fid = (fid \<noteq> None \<and>
     list_ex (\<lambda>r. fr_client r = client \<and> fr_fill r = fid) (jr_fills j))"

definition record_fill :: "rat \<Rightarrow> string \<Rightarrow> py_number \<Rightarrow> py_number \<Rightarrow> bool \<Rightarrow> string option \<Rightarrow>
    journal \<Rightarrow> bool \<times> journal" where
  "record_fill now client qty price is_partial fid j =
     (if fill_taken j client fid then (False, j\<lparr>jr_in_txn := True\<rparr>)
      else (True, commit (j\<lparr>jr_fills := jr_fills j @ [\<lparr>fr_client = client, fr_fill = fid,
        fr_qty = number_str qty, fr_price = number_str price, fr_partial = is_partial, fr_at = now\<rparr>]\<rparr>)))"

definition record_cancel :: "rat \<Rightarrow> string \<Rightarrow> string option \<Rightarrow> journal \<Rightarrow> bool \<times> journal" where
  "record_cancel now client reason j =
     (if client \<in> set (map cr_client (jr_cancels j)) then (False, j)
      else (True, commit (j\<lparr>jr_cancels := jr_cancels j @ [\<lparr>cr_client = client, cr_reason = reason, cr_at = now\<rparr>]\<rparr>)))"

section \<open>Reading\<close>

definition attribution :: "journal \<Rightarrow> string \<Rightarrow> (string \<times> string) option" where
  "attribution j client = map_option (\<lambda>r. (sb_cycle r, sb_decision r))
     (find (\<lambda>r. sb_client r = client) (jr_submissions j))"

definition cycle_resolver :: "journal \<Rightarrow> string \<Rightarrow> string option" where
  "cycle_resolver j client = map_option fst (attribution j client)"

definition decision_resolver :: "journal \<Rightarrow> string \<Rightarrow> string option" where
  "decision_resolver j client = map_option snd (attribution j client)"

section \<open>Any sequence of writes\<close>

datatype journal_op =
    Op_Submit rat string string string string string string string decimal
  | Op_Fill rat string py_number py_number bool "string option"
  | Op_Cancel rat string "string option"
  | Op_Reopen

fun journal_step :: "journal_op \<Rightarrow> journal \<Rightarrow> journal" where
  "journal_step (Op_Submit t c cy d i k sy sd q) j = snd (register_submission t c cy d i k sy sd q j)"
| "journal_step (Op_Fill t c q p pt f) j = snd (record_fill t c q p pt f j)"
| "journal_step (Op_Cancel t c r) j = snd (record_cancel t c r j)"
| "journal_step Op_Reopen j = (case open_journal (j\<lparr>jr_in_txn := False\<rparr>) of Inl _ \<Rightarrow> j | Inr j' \<Rightarrow> j')"

abbreviation journal_run :: "journal_op list \<Rightarrow> journal \<Rightarrow> journal" where
  "journal_run \<equiv> fold journal_step"

text \<open>The keys of the fills that are deduplicated.\<close>

definition fill_keys :: "journal \<Rightarrow> (string \<times> string) list" where
  "fill_keys j = concat (map (\<lambda>r. case fr_fill r of None \<Rightarrow> [] | Some x \<Rightarrow> [(fr_client r, x)]) (jr_fills j))"

definition journal_wf :: "journal \<Rightarrow> bool" where
  "journal_wf j \<longleftrightarrow> distinct (map sb_client (jr_submissions j)) \<and> distinct (fill_keys j) \<and>
     distinct (map cr_client (jr_cancels j))"

lemma fill_taken_iff: "fill_taken j c f \<longleftrightarrow> (\<exists>x. f = Some x \<and> (c, x) \<in> set (fill_keys j))"
  by (cases f) (auto simp: fill_taken_def fill_keys_def list_ex_iff split: option.splits intro!: bexI)

lemma fill_keys_add: "fill_keys (j\<lparr>jr_fills := jr_fills j @ [r]\<rparr>) =
    fill_keys j @ (case fr_fill r of None \<Rightarrow> [] | Some x \<Rightarrow> [(fr_client r, x)])"
  by (simp add: fill_keys_def)

lemma commit_simps [simp]:
  "jr_submissions (commit j) = jr_submissions j" "jr_fills (commit j) = jr_fills j"
  "jr_cancels (commit j) = jr_cancels j" "fill_keys (commit j) = fill_keys j"
  "jr_version (commit j) = jr_version j"
  by (simp_all add: commit_def fill_keys_def)

lemma journal_wf_step: "journal_wf j \<Longrightarrow> journal_wf (journal_step x j)"
proof (cases x)
  case (Op_Fill t c q p pt f)
  assume "journal_wf j"
  then show ?thesis
    by (auto simp: Op_Fill record_fill_def journal_wf_def fill_taken_iff fill_keys_add
        fill_keys_def [of "jr_in_txn_update _ _"] fill_keys_def [symmetric] split: option.split)
qed (auto simp: journal_wf_def register_submission_def record_cancel_def open_journal_def fill_keys_def
    split: sum.split)

lemma attribution_step:
  "attribution j c = Some a \<Longrightarrow> attribution (journal_step x j) c = Some a"
  by (cases x) (auto simp: attribution_def register_submission_def record_fill_def record_cancel_def
      open_journal_def find_append split: sum.split option.splits)

lemma journal_run_keeps: "journal_wf j \<Longrightarrow> journal_wf (journal_run xs j)"
    and attribution_run: "attribution j c = Some a \<Longrightarrow> attribution (journal_run xs j) c = Some a"
  by (induction xs arbitrary: j) (simp_all add: journal_wf_step attribution_step)

section \<open>Taking each key once\<close>

text \<open>What the trade-update stream relies on of the journal: \<open>put\<close> accepts a key exactly when it
  is new, remembers it for good, and leaves the keys alone when it refuses.\<close>

locale dedup_store =
  fixes put :: "'k \<Rightarrow> 'x \<Rightarrow> 's \<Rightarrow> bool \<times> 's" and keys :: "'s \<Rightarrow> 'k list"
  assumes put_new: "k \<notin> set (keys s) \<Longrightarrow> fst (put k x s) \<and> keys (snd (put k x s)) = keys s @ [k]"
    and put_old: "k \<in> set (keys s) \<Longrightarrow> \<not> fst (put k x s) \<and> keys (snd (put k x s)) = keys s"
begin

lemma accepts_iff: "fst (put k x s) \<longleftrightarrow> k \<notin> set (keys s)"
  using put_new put_old by blast

lemma remembers: "k \<in> set (keys (snd (put k x s)))"
  using put_new [of k s x] put_old [of k s x] by (cases "k \<in> set (keys s)") auto

lemma keeps_keys: "set (keys s) \<subseteq> set (keys (snd (put k x s)))"
  using put_new [of k s x] put_old [of k s x] by (cases "k \<in> set (keys s)") auto

text \<open>Over any deliveries, the accepted keys are the ones not stored before, each once, in the
  order of their first delivery; they are what the store gains.\<close>

fun accepted :: "('k \<times> 'x) list \<Rightarrow> 's \<Rightarrow> 'k list" where
  "accepted [] s = []"
| "accepted ((k, x) # ds) s = (if fst (put k x s) then [k] else []) @ accepted ds (snd (put k x s))"

lemma accepted_spec:
  "distinct (accepted ds s) \<and> set (accepted ds s) = fst ` set ds - set (keys s) \<and>
     keys (fold (\<lambda>(k, x) s. snd (put k x s)) ds s) = keys s @ accepted ds s"
proof (induction ds arbitrary: s)
  case (Cons d ds)
  obtain k x where d: "d = (k, x)" by (cases d)
  show ?case
    using Cons.IH [of "snd (put k x s)"] put_new [of k s x] put_old [of k s x]
    by (cases "k \<in> set (keys s)") (auto simp: d)
qed simp

end

definition put_fill :: "string \<times> string \<Rightarrow> rat \<times> py_number \<times> py_number \<times> bool \<Rightarrow> journal \<Rightarrow> bool \<times> journal" where
  "put_fill k x j = (case (k, x) of ((c, f), (now, q, p, pt)) \<Rightarrow> record_fill now c q p pt (Some f) j)"

definition put_cancel :: "string \<Rightarrow> rat \<times> string option \<Rightarrow> journal \<Rightarrow> bool \<times> journal" where
  "put_cancel c x j = record_cancel (fst x) c (snd x) j"

definition cancel_keys :: "journal \<Rightarrow> string list" where
  "cancel_keys j = map cr_client (jr_cancels j)"

lemma fill_keys_txn [simp]: "fill_keys (j\<lparr>jr_in_txn := b\<rparr>) = fill_keys j"
  by (simp add: fill_keys_def)

interpretation fills: dedup_store put_fill fill_keys
  by unfold_locales (auto simp: put_fill_def record_fill_def fill_taken_iff fill_keys_add split: prod.split)

interpretation cancels: dedup_store put_cancel cancel_keys
  by unfold_locales (auto simp: put_cancel_def record_cancel_def cancel_keys_def)

text \<open>C23. Each execution is booked once. Deliver any list of fill notices that carry execution ids
  to the journal, in any order and as often as the venue likes: the rows the journal gains are for
  exactly the \<open>(client\_order\_id, fill\_id)\<close> pairs it did not hold before, one row each.\<close>

theorem fills_booked_once:
  "\<exists>new. fill_keys (fold (\<lambda>(k, x) j. snd (put_fill k x j)) ds j) = fill_keys j @ new \<and>
     distinct new \<and> set new = fst ` set ds - set (fill_keys j)"
  using fills.accepted_spec [of ds j] by blast

text \<open>A registered submission stays on record. After \<open>register\_submission\<close> has returned,
  whatever is written to the journal later, and however often it is closed and opened again, the
  order id resolves to the cycle and the decision it was registered with, and the quantity on file
  reads back as the very decimal that was submitted.\<close>

theorem submission_stays_on_record:
  assumes "register_submission now client cycle decision order key symbol side_txt qty j = (Inr (), j')"
  shows "attribution (journal_run xs j') client = Some (cycle, decision) \<and>
    (\<exists>r\<in>set (jr_submissions (journal_run xs j')). sb_client r = client \<and> sb_order r = order \<and>
       sb_key r = key \<and> decimal_of (sb_qty r) = Inr (Finite qty))"
proof -
  let ?row = "\<lparr>sb_client = client, sb_cycle = cycle, sb_decision = decision, sb_order = order, sb_key = key,
    sb_symbol = symbol, sb_side = side_txt, sb_qty = dec_str qty, sb_at = now\<rparr>"
  have new: "client \<notin> set (map sb_client (jr_submissions j))" "jr_submissions j' = jr_submissions j @ [?row]"
    using assms by (auto simp: register_submission_def split: if_splits)
  then have "find (\<lambda>r. sb_client r = client) (jr_submissions j) = None" by (auto simp: find_None_iff)
  with new have "attribution j' client = Some (cycle, decision)" by (simp add: attribution_def find_append)
  then have 1: "attribution (journal_run xs j') client = Some (cycle, decision)" by (rule attribution_run)
  have "set (jr_submissions j) \<subseteq> set (jr_submissions (journal_step x j))" for x j
    by (cases x) (auto simp: register_submission_def record_fill_def record_cancel_def open_journal_def
        split: sum.split)
  then have "set (jr_submissions j) \<subseteq> set (jr_submissions (journal_run xs j))" for j
    by (induction xs arbitrary: j) (simp_all, blast)
  with new(2) have "?row \<in> set (jr_submissions (journal_run xs j'))" by fastforce
  with 1 show ?thesis by (intro conjI bexI [of _ ?row]) (simp_all add: decimal_of_dec_str)
qed

theorem submission_stays_on_record_witness:
  "attribution (journal_run [Op_Reopen, Op_Submit 1 ''o'' ''d'' ''e'' ''i'' ''k'' ''AAPL'' ''buy'' (Dec 7 0)]
     (snd (register_submission 0 ''o'' ''c'' ''d'' ''i'' ''k'' ''AAPL'' ''buy'' (Dec 125 (- 1)) empty_file))) ''o''
   = Some (''c'', ''d'')"
proof -
  have "register_submission 0 ''o'' ''c'' ''d'' ''i'' ''k'' ''AAPL'' ''buy'' (Dec 125 (- 1)) empty_file =
      (Inr (), snd (register_submission 0 ''o'' ''c'' ''d'' ''i'' ''k'' ''AAPL'' ''buy'' (Dec 125 (- 1)) empty_file))"
    by (simp add: register_submission_def empty_file_def)
  from submission_stays_on_record [OF this] show ?thesis by blast
qed

end
