(* ===== verification/Json_Text.thy ===== *)
theory Json_Text
  imports Prelude
begin

text \<open>
  \<open>json.dumps\<close> of an object with string values, sorted keys and no white space, as the code uses
  it: characters outside the printable ASCII range are escaped. The text determines the values.
\<close>

definition hex_char :: "nat \<Rightarrow> char" where
  "hex_char n = char_of (if n < 10 then 48 + n else 87 + n)"

definition hex_value :: "char \<Rightarrow> nat" where
  "hex_value c = (let n = (of_char c :: nat) in if n < 58 then n - 48 else n - 87)"

definition short_escapes :: "(nat \<times> char) list" where
  "short_escapes = [(34, CHR 0x22), (92, CHR 0x5C), (10, CHR ''n''), (13, CHR ''r''), (9, CHR ''t''),
     (12, CHR ''f''), (8, CHR ''b'')]"

definition json_char :: "char \<Rightarrow> string" where
  "json_char c = (let n = (of_char c :: nat) in
     case map_of short_escapes n of Some e \<Rightarrow> [CHR 0x5C, e]
     | None \<Rightarrow> if 32 \<le> n \<and> n \<le> 126 then [c]
         else [CHR 0x5C, CHR ''u'', CHR ''0'', CHR ''0'', hex_char (n div 16), hex_char (n mod 16)])"

definition json_string :: "string \<Rightarrow> string" where
  "json_string s = CHR 0x22 # concat (map json_char s) @ [CHR 0x22]"

definition json_field :: "string \<times> string \<Rightarrow> string" where
  "json_field = (\<lambda>(k, v). json_string k @ '':'' @ json_string v)"

definition json_object :: "(string \<times> string) list \<Rightarrow> string" where
  "json_object kvs = ''{'' @ join '','' (map json_field kvs) @ ''}''"

section \<open>The text determines the values\<close>

text \<open>Reading one character back.\<close>

definition read_char :: "string \<Rightarrow> (char \<times> string) option" where
  "read_char s = (case s of [] \<Rightarrow> None
     | c # t \<Rightarrow> if c = CHR 0x22 then None
        else if c \<noteq> CHR 0x5C then Some (c, t)
        else (case t of [] \<Rightarrow> None
          | e # u \<Rightarrow> (case map_of (map prod.swap short_escapes) e of
              Some n \<Rightarrow> Some (char_of n, u)
            | None \<Rightarrow> Some (char_of (16 * hex_value (u ! 2) + hex_value (u ! 3)), drop 4 u))))"

lemma hex_value_char: "n < 16 \<Longrightarrow> hex_value (hex_char n) = n"
  by (auto simp: hex_value_def hex_char_def Let_def of_char_of)

lemma of_char_less: "(of_char c :: nat) < 256"
proof -
  have "(of_char c :: nat) = of_char (char_of (of_char c :: nat) :: char)" by simp
  then show ?thesis unfolding of_char_of by simp
qed

lemma read_json_char: "read_char (json_char c @ s) = Some (c, s)"
proof -
  define n where "n = (of_char c :: nat)"
  have c: "char_of n = c" and n: "n < 256" by (simp_all add: n_def of_char_less)
  show ?thesis
  proof (cases "map_of short_escapes n")
    case (Some e)
    then have "n \<in> {34, 92, 10, 13, 9, 12, 8}" "map_of (map prod.swap short_escapes) e = Some n"
      by (auto simp: short_escapes_def split: if_splits)
    with Some show ?thesis by (simp add: json_char_def read_char_def n_def [symmetric] Let_def c)
  next
    case None
    show ?thesis
    proof (cases "32 \<le> n \<and> n \<le> 126")
      case True
      have "n \<noteq> 34" "n \<noteq> 92" using None by (auto simp: short_escapes_def)
      then have "c \<noteq> CHR 0x22" "c \<noteq> CHR 0x5C" by (auto simp: n_def)
      with True None show ?thesis by (simp add: json_char_def read_char_def n_def [symmetric] Let_def)
    next
      case False
      have u: "map_of (map prod.swap short_escapes) (CHR ''u'') = None" by (simp add: short_escapes_def)
      have "16 * hex_value (hex_char (n div 16)) + hex_value (hex_char (n mod 16)) = n"
        using n by (simp add: hex_value_char div_less)
      moreover have "json_char c = [CHR 0x5C, CHR ''u'', CHR ''0'', CHR ''0'', hex_char (n div 16), hex_char (n mod 16)]"
        unfolding json_char_def n_def [symmetric] Let_def None using False by simp
      ultimately show ?thesis using u by (simp add: read_char_def c)
    qed
  qed
qed

lemma read_quote: "read_char (CHR 0x22 # s) = None"
  by (simp add: read_char_def)

lemma json_chars_inj:
  "concat (map json_char s) @ CHR 0x22 # u = concat (map json_char t) @ CHR 0x22 # v \<Longrightarrow> s = t \<and> u = v"
proof (induction s arbitrary: t)
  case Nil
  show ?case
  proof (cases t)
    case (Cons d t')
    with Nil have "read_char (CHR 0x22 # u) = read_char (json_char d @ concat (map json_char t') @ CHR 0x22 # v)"
      by simp
    then show ?thesis by (simp add: read_json_char read_quote)
  qed (use Nil in simp)
next
  case (Cons c s)
  have r: "read_char (json_char c @ concat (map json_char s) @ CHR 0x22 # u) = Some (c, concat (map json_char s) @ CHR 0x22 # u)"
    by (rule read_json_char)
  show ?case
  proof (cases t)
    case Nil
    with Cons.prems r show ?thesis by (simp add: read_quote)
  next
    case (Cons d t')
    with Cons.prems have eq: "json_char c @ concat (map json_char s) @ CHR 0x22 # u =
        json_char d @ concat (map json_char t') @ CHR 0x22 # v" by simp
    from r have "Some (c, concat (map json_char s) @ CHR 0x22 # u) = Some (d, concat (map json_char t') @ CHR 0x22 # v)"
      unfolding eq read_json_char by simp
    with Cons.IH [of t'] Cons show ?thesis by simp
  qed
qed

lemma json_string_inj: "json_string s @ u = json_string t @ v \<Longrightarrow> s = t \<and> u = v"
  by (rule json_chars_inj) (simp add: json_string_def)

lemma json_fields_Cons:
  "join '','' (map json_field ((k, w) # l)) @ x =
    json_string k @ CHR '':'' # json_string w @ (if l = [] then x else CHR '','' # join '','' (map json_field l) @ x)"
proof (cases l)
  case Nil
  then show ?thesis by (simp add: json_field_def)
next
  case (Cons p q)
  have "join '','' (json_field (k, w) # json_field p # map json_field q) =
      json_field (k, w) @ '','' @ join '','' (json_field p # map json_field q)"
    by (subst join.simps(2)) (simp only: list.case)
  then show ?thesis unfolding Cons by (simp only: list.map append_assoc) (simp add: json_field_def del: join.simps)
qed

lemma json_object_inj:
  "map fst kvs = map fst kvs' \<Longrightarrow> json_object kvs = json_object kvs' \<Longrightarrow> map snd kvs = map snd kvs'"
proof -
  have body: "map fst kvs = map fst kvs' \<Longrightarrow>
      join '','' (map json_field kvs) @ u =
      join '','' (map json_field kvs') @ u' \<Longrightarrow> map snd kvs = map snd kvs'"
    for u u'
  proof (induction kvs arbitrary: kvs')
    case (Cons kv kvs)
    obtain k v where kv: "kv = (k, v)" by (cases kv)
    from Cons.prems(1) kv obtain v' rest where kvs': "kvs' = (k, v') # rest" and fst: "map fst kvs = map fst rest"
      by (cases kvs') auto
    let ?j = "\<lambda>l. join '','' (map json_field l)"
    have unf: "?j ((k, w) # l) @ x = json_string k @ CHR '':'' # json_string w @ (if l = [] then x else CHR '','' # ?j l @ x)"
      for w l x by (rule json_fields_Cons)
    from Cons.prems(2) have "json_string k @ CHR '':'' # json_string v @ (if kvs = [] then u else CHR '','' # ?j kvs @ u)
        = json_string k @ CHR '':'' # json_string v' @ (if rest = [] then u' else CHR '','' # ?j rest @ u')"
      unfolding kv kvs' unf .
    then have "json_string v @ (if kvs = [] then u else CHR '','' # ?j kvs @ u)
        = json_string v' @ (if rest = [] then u' else CHR '','' # ?j rest @ u')"
      by simp
    from json_string_inj [OF this] have vv: "v = v'"
      and tail: "(if kvs = [] then u else CHR '','' # ?j kvs @ u) = (if rest = [] then u' else CHR '','' # ?j rest @ u')"
      by blast+
    have "map snd kvs = map snd rest"
    proof (cases "kvs = []")
      case True
      with fst show ?thesis by simp
    next
      case False
      with fst have "rest \<noteq> []" by auto
      with False tail have "?j kvs @ u = ?j rest @ u'" by simp
      with Cons.IH [OF fst] show ?thesis by blast
    qed
    with vv show ?case by (simp add: kv kvs')
  qed simp
  assume "map fst kvs = map fst kvs'" "json_object kvs = json_object kvs'"
  with body [of "''}''" "''}''"] show ?thesis by (simp add: json_object_def)
qed

end
