(* ===== verification/Live_Broker.thy ===== *)
theory Live_Broker
  imports Cycle_Runner Paper_Broker Alpaca_Rest Journal Json_Text
begin

text \<open>
  The live broker (\<open>execution/live\_broker\_alpaca.py\<close>): the approval gate, the kill switch, the
  daily loss cap, the idempotency key, and \<open>execute\<close> with its dry run on the paper broker and the
  submission loop. Its state is the world of a cycle runner; the venue, the clocks and the entropy
  source act on the part \<open>'x\<close> of it.
\<close>

section \<open>State\<close>

record 'x live =
  lb_paper :: paper
  lb_client :: "alpaca_client option"
  lb_journal :: "journal option"
  lb_cycle :: "string option"
  lb_enabled :: bool
  lb_cap :: decimal
  lb_loss :: decimal
  lb_kill :: bool
  lb_rest :: 'x

text \<open>What the broker is given: \<open>str\<close> of a JSON value, \<open>time.time\<close> and the sha256 hex digest.\<close>

record 'x venue =
  vn_env :: "'x env"
  vn_fx :: dec_ctx
  vn_http :: "'x http"
  vn_other :: "json \<Rightarrow> string"
  vn_time :: "'x \<Rightarrow> rat \<times> 'x"
  vn_sha :: "string \<Rightarrow> string"

type_synonym ('x, 'a) live_eff = "('x live sys, 'a) eff"

definition in_rest :: "('x, 'a) eff \<Rightarrow> ('x live, 'a) eff" where
  "in_rest m = zoom lb_rest (\<lambda>x. lb_rest_update (\<lambda>_. x)) m"

definition lift_fun :: "('x \<Rightarrow> 'a \<times> 'x) \<Rightarrow> 'x live \<Rightarrow> 'a \<times> 'x live" where
  "lift_fun f b = (case f (lb_rest b) of (a, x) \<Rightarrow> (a, b\<lparr>lb_rest := x\<rparr>))"

definition lift_env :: "'x env \<Rightarrow> 'x live env" where
  "lift_env env = \<lparr>env_now = lift_fun (env_now env), env_token_hex = lift_fun (env_token_hex env),
     env_dump = env_dump env, env_parse = env_parse env\<rparr>"

definition in_paper :: "(paper, 'a) eff \<Rightarrow> ('x live, 'a) eff" where
  "in_paper m = zoom lb_paper (\<lambda>p. lb_paper_update (\<lambda>_. p)) m"

definition new_live :: "paper \<Rightarrow> decimal \<Rightarrow> alpaca_client option \<Rightarrow> journal option \<Rightarrow> bool \<Rightarrow> 'x \<Rightarrow> 'x live res" where
  "new_live paper_broker cap client journal force_enable_for_test x =
     (if dec_le cap dzero then Inl ValueError
      else Inr \<lparr>lb_paper = paper_broker, lb_client = client, lb_journal = journal, lb_cycle = None,
        lb_enabled = force_enable_for_test, lb_cap = cap, lb_loss = dzero, lb_kill = False, lb_rest = x\<rparr>)"

section \<open>The context of a cycle\<close>

definition attach_cycle_context :: "string \<Rightarrow> ('x, unit) live_eff" where
  "attach_cycle_context cid = in_world (seq (gets lb_cycle) (\<lambda>c. if c \<noteq> None then raise RuntimeError
     else modify (lb_cycle_update (\<lambda>_. Some cid))))"

definition detach_cycle_context :: "'x live sys \<Rightarrow> 'x live sys" where
  "detach_cycle_context s = s\<lparr>sys_world := (sys_world s)\<lparr>lb_cycle := None\<rparr>\<rparr>"

text \<open>An event of the attached cycle; without one nothing is emitted.\<close>

definition emit_live :: "'x venue \<Rightarrow> (string \<Rightarrow> ('x live, cycle_event) eff) \<Rightarrow> ('x, unit) live_eff" where
  "emit_live vn mk = seq (gets (\<lambda>s. lb_cycle (sys_world s))) (\<lambda>c. case c of None \<Rightarrow> ret ()
     | Some cid \<Rightarrow> emit (lift_env (vn_env vn)) (mk cid))"

definition emit_rejected :: "'x venue \<Rightarrow> string \<Rightarrow> string \<Rightarrow> ('x, unit) live_eff" where
  "emit_rejected vn decision reason = emit_live vn (\<lambda>cid.
     broker_live_rejected_event (lift_env (vn_env vn)) cid decision reason None)"

definition emit_submitted :: "'x venue \<Rightarrow> string \<Rightarrow> alpaca_order \<Rightarrow> string \<Rightarrow> side \<Rightarrow> ('x, unit) live_eff" where
  "emit_submitted vn decision ord key sd = emit_live vn (\<lambda>cid.
     broker_live_submitted_event (lift_env (vn_env vn)) cid decision (ao_order_id ord) (ao_client ord) key
       (ao_symbol ord) (dec_str (ao_qty ord)) (side_value sd))"

definition emit_kill_switch :: "'x venue \<Rightarrow> string \<Rightarrow> ('x, unit) live_eff" where
  "emit_kill_switch vn reason = emit_live vn (\<lambda>cid.
     broker_live_kill_switch_event (lift_env (vn_env vn)) cid reason)"

section \<open>The approval gate\<close>

definition live_env_prefix :: string where
  "live_env_prefix = ''LIVE_BROKER_''"

definition enable_after_approval :: "(string \<Rightarrow> string option) \<Rightarrow> string \<Rightarrow> string \<Rightarrow> ('x live, unit) eff" where
  "enable_after_approval environ env_token cli_token =
     (if take (length live_env_prefix) env_token \<noteq> live_env_prefix then raise RuntimeError
      else let env_value = (case environ env_token of None \<Rightarrow> [] | Some v \<Rightarrow> v) in
        if env_value = [] then raise RuntimeError
        else if cli_token \<noteq> env_value then raise RuntimeError
        else modify (lb_enabled_update (\<lambda>_. True)))"

text \<open>The command line: exit code, standard output, standard error.\<close>

definition confirm_env_var :: string where
  "confirm_env_var = ''LIVE_BROKER_ENABLE_LIVE_ORDERS''"

definition read_line :: "string \<Rightarrow> string" where
  "read_line input = (let n = length (takeWhile (\<lambda>c. c \<noteq> newline) input) in take (Suc n) input)"

definition confirm_main :: "(string \<Rightarrow> string option) \<Rightarrow> string list \<Rightarrow> string \<Rightarrow> nat \<times> string \<times> string" where
  "confirm_main environ argv stdin =
     (let secret = (case environ confirm_env_var of None \<Rightarrow> [] | Some v \<Rightarrow> v);
          intro_text = ''Live trading is about to be authorised. This is a step toward real-money orders being submitted on your behalf.'' @
            [newline] @ ''Confirm by re-typing the value of $'' @ confirm_env_var @ '' exactly:'' @ [newline];
          raw = read_line stdin;
          confirmation = (if raw \<noteq> [] \<and> last raw = newline then butlast raw else raw)
      in if argv \<noteq> [''confirm-live'']
         then (2, [], ''usage: python -m caqrs.execution.live_broker_alpaca confirm-live'' @ [newline])
         else if secret = []
         then (1, [], confirm_env_var @ '' is not set; aborting. Set it (e.g. via dotenvx) to a secret of your choosing, then re-run this command.'' @ [newline])
         else if confirmation \<noteq> secret
         then (1, intro_text, ''confirmation did not match the env var; aborting. No state was changed.'' @ [newline])
         else (0, intro_text @ ''OK. You may now call enable_live_orders_after_human_approval(env_token='' @
           [CHR 0x27] @ confirm_env_var @ [CHR 0x27] @
           '', cli_confirmation_token=<the same secret you just typed>) on your LiveBrokerAlpaca instance.'' @ [newline], []))"

section \<open>Idempotency key\<close>

text \<open>The keys of the object in sorted order.\<close>

definition key_fields :: "string \<Rightarrow> string \<Rightarrow> string \<Rightarrow> side \<Rightarrow> decimal \<Rightarrow> (string \<times> string) list" where
  "key_fields cycle decision ticker sd quantity =
     [(''cycle_id'', cycle), (''decision_run_id'', decision), (''quantity'', dec_str quantity),
      (''side'', side_value sd), (''ticker'', ticker)]"

definition idempotency_key :: "(string \<Rightarrow> string) \<Rightarrow> string \<Rightarrow> string \<Rightarrow> string \<Rightarrow> side \<Rightarrow> decimal \<Rightarrow> string" where
  "idempotency_key sha cycle decision ticker sd quantity =
     sha (json_object (key_fields cycle decision ticker sd quantity))"

section \<open>Kill switch and daily loss cap\<close>

definition set_kill :: "('x, unit) live_eff" where
  "set_kill = in_world (modify (lb_kill_update (\<lambda>_. True)))"

definition kill_switch :: "'x venue \<Rightarrow> ('x, unit) live_eff" where
  "kill_switch vn = seq set_kill (\<lambda>_. emit_kill_switch vn ''manual'')"

definition reenable_after_approval :: "('x live, unit) eff" where
  "reenable_after_approval = modify (lb_kill_update (\<lambda>_. False))"

definition cap_breached :: "'x live \<Rightarrow> bool" where
  "cap_breached b = (dec_lt (lb_cap b) (lb_loss b) \<and> \<not> lb_kill b)"

definition record_realized_loss :: "'x venue \<Rightarrow> decimal \<Rightarrow> ('x, unit) live_eff" where
  "record_realized_loss vn amount = (if dec_lt amount dzero then raise ValueError
     else seq (in_world (modify (\<lambda>b. b\<lparr>lb_loss := dec_add (vn_fx vn) (lb_loss b) amount\<rparr>))) (\<lambda>_.
       seq (gets (\<lambda>s. cap_breached (sys_world s))) (\<lambda>breach.
       if breach then seq set_kill (\<lambda>_. emit_kill_switch vn ''cap_breach'') else ret ())))"

definition reset_day :: "('x live, unit) eff" where
  "reset_day = modify (lb_loss_update (\<lambda>_. dzero))"

section \<open>Submitting to the venue\<close>

definition client_id_truncation :: nat where
  "client_id_truncation = 48"

definition order_key :: "'x venue \<Rightarrow> feasible_action \<Rightarrow> fill \<Rightarrow> 'x live \<Rightarrow> string" where
  "order_key vn action f b = idempotency_key (vn_sha vn) (case lb_cycle b of None \<Rightarrow> [] | Some c \<Rightarrow> c)
     (fa_source_run_id action) (fl_ticker f) (fl_side f) (fl_quantity f)"

text \<open>The best-effort rollback of a batch after the first \<open>n\<close> orders were accepted.\<close>

definition roll_back :: "'x venue \<Rightarrow> alpaca_client \<Rightarrow> nat \<Rightarrow> ('x, unit) live_eff" where
  "roll_back vn cl n = (if n = 0 then ret ()
     else seq (in_world (in_rest (try_except (cancel_all_orders (vn_http vn) cl)))) (\<lambda>r. case r of
       Inr _ \<Rightarrow> ret ()
     | Inl (AlpacaError _) \<Rightarrow> seq set_kill (\<lambda>_. emit_kill_switch vn ''rollback_failed'')
     | Inl e \<Rightarrow> raise e))"

definition reject_batch :: "'x venue \<Rightarrow> alpaca_client \<Rightarrow> feasible_action \<Rightarrow> fill \<Rightarrow> string \<Rightarrow> nat \<Rightarrow>
    ('x, execution_report) live_eff" where
  "reject_batch vn cl action f err n =
     (let reason = ''Alpaca rejected '' @ fl_ticker f @ '' '' @ side_value (fl_side f) @ '': '' @ err in
      seq (roll_back vn cl n) (\<lambda>_.
      seq (emit_rejected vn (fa_source_run_id action) reason) (\<lambda>_.
      lift_res (make_report (fa_source_run_id action) EXEC_REJECTED [] (Some reason)))))"

definition in_live_journal :: "(journal, unit) eff \<Rightarrow> ('x live, unit) eff" where
  "in_live_journal m = seq (gets lb_journal) (\<lambda>oj. case oj of None \<Rightarrow> ret ()
     | Some _ \<Rightarrow> zoom (\<lambda>b. the (lb_journal b)) (\<lambda>j. lb_journal_update (\<lambda>_. Some j)) m)"

text \<open>The row is written before the event is emitted; the time is read only if there is a journal.\<close>

definition journal_order :: "'x venue \<Rightarrow> feasible_action \<Rightarrow> fill \<Rightarrow> string \<Rightarrow> alpaca_order \<Rightarrow> ('x live, unit) eff" where
  "journal_order vn action f key ord = seq (gets id) (\<lambda>b. if lb_journal b = None then ret ()
     else seq (in_rest (call (vn_time vn))) (\<lambda>now.
       in_live_journal (register_submission now (ao_client ord) (case lb_cycle b of None \<Rightarrow> [] | Some c \<Rightarrow> c)
         (fa_source_run_id action) (ao_order_id ord) key (ao_symbol ord) (side_value (fl_side f)) (ao_qty ord))))"

definition anticipated_fill :: "dec_ctx \<Rightarrow> prices \<Rightarrow> fill \<Rightarrow> alpaca_order \<Rightarrow> fill res" where
  "anticipated_fill fx p f ord =
     (let price = (case map_of p (fl_ticker f) of None \<Rightarrow> dzero | Some d \<Rightarrow> d) in
      make_fill (fl_ticker f) (fl_side f) FILL_SUBMITTED (ao_qty ord) price (dec_mul fx (ao_qty ord) price)
        (Some ''venue submission accepted; actual fill price via BROKER_LIVE_FILLED event (websocket - next slice)''))"

definition book_order :: "'x venue \<Rightarrow> feasible_action \<Rightarrow> prices \<Rightarrow> fill \<Rightarrow> string \<Rightarrow> alpaca_order \<Rightarrow> ('x, fill) live_eff" where
  "book_order vn action p f key ord =
     seq (in_world (journal_order vn action f key ord)) (\<lambda>_.
     seq (emit_submitted vn (fa_source_run_id action) ord key (fl_side f)) (\<lambda>_.
     lift_res (anticipated_fill (vn_fx vn) p f ord)))"

definition send_order :: "'x venue \<Rightarrow> alpaca_client \<Rightarrow> fill \<Rightarrow> string \<Rightarrow> ('x, py_exn + alpaca_order) live_eff" where
  "send_order vn cl f key = in_world (in_rest (try_except (submit_order (vn_http vn) (vn_other vn) cl
     (fl_ticker f) (fl_quantity f) (fl_side f) (take client_id_truncation key) ''market'' ''day'')))"

text \<open>\<open>n\<close> orders have been accepted so far, with the fills \<open>acc\<close>.\<close>

primrec submit_fills :: "'x venue \<Rightarrow> alpaca_client \<Rightarrow> feasible_action \<Rightarrow> prices \<Rightarrow> fill list \<Rightarrow> nat \<Rightarrow> fill list \<Rightarrow>
    ('x, execution_report) live_eff" where
  "submit_fills vn cl action p [] n acc = lift_res (make_report (fa_source_run_id action) EXEC_SUBMITTED acc None)"
| "submit_fills vn cl action p (f # fs) n acc =
     (if fl_status f \<noteq> FILL_FILLED then submit_fills vn cl action p fs n acc
      else seq (gets (\<lambda>s. order_key vn action f (sys_world s))) (\<lambda>key.
        seq (send_order vn cl f key) (\<lambda>r. case r of
          Inr ord \<Rightarrow> seq (book_order vn action p f key ord) (\<lambda>lf.
            submit_fills vn cl action p fs (Suc n) (acc @ [lf]))
        | Inl (AlpacaError err) \<Rightarrow> reject_batch vn cl action f err n
        | Inl e \<Rightarrow> raise e)))"

section \<open>Execute\<close>

definition skip_live :: "'x venue \<Rightarrow> feasible_action \<Rightarrow> string \<Rightarrow> ('x, execution_report) live_eff" where
  "skip_live vn action reason = seq (emit_rejected vn (fa_source_run_id action) reason) (\<lambda>_.
     lift_res (make_report (fa_source_run_id action) EXEC_SKIPPED [] (Some reason)))"

definition preflight_reason :: "execution_report \<Rightarrow> string" where
  "preflight_reason r = ''paper pre-flight '' @ execution_status_value (xr_status r) @ '': '' @
     (case xr_reason r of None \<Rightarrow> ''no reason given''
      | Some x \<Rightarrow> if x = [] then ''no reason given'' else x)"

definition execute_live :: "'x venue \<Rightarrow> feasible_action \<Rightarrow> prices \<Rightarrow> ('x, execution_report) live_eff" where
  "execute_live vn action p = seq (gets sys_world) (\<lambda>b.
     if lb_kill b then skip_live vn action ''kill switch engaged''
     else if \<not> lb_enabled b then skip_live vn action ''live orders disabled''
     else seq (in_world (in_paper (paper_execute (vn_fx vn) action p))) (\<lambda>paper_report.
       if xr_status paper_report \<noteq> EXEC_FILLED then skip_live vn action (preflight_reason paper_report)
       else (case lb_client b of None \<Rightarrow> raise RuntimeError
         | Some cl \<Rightarrow> submit_fills vn cl action p (xr_fills paper_report) 0 [])))"

text \<open>The live broker as a port of the cycle runner.\<close>

definition live_port :: "'x venue \<Rightarrow> 'x live broker_port" where
  "live_port vn = Live_Broker attach_cycle_context (execute_live vn) detach_cycle_context"

end
