(* ===== verification/Cycle_Laws.thy ===== *)
theory Cycle_Laws
  imports Cycle_Runner
begin

text \<open>
  What a returned cycle result and the events of its run say: the story in the log, the shape of
  the artifacts, the token accounts; and that a run returns when nothing it calls raises.
\<close>

section \<open>The story in the log\<close>

definition transition_payload :: "orch_state \<Rightarrow> orch_state \<Rightarrow> payload" where
  "transition_payload s t = [(''src'', PStr (state_value s)), (''dst'', PStr (state_value t))]"

text \<open>Events of the middle of a cycle that lead the machine from one state to another: state
  transitions are whitelisted and follow one another, the others neither start nor end a cycle.\<close>

fun tells :: "string \<Rightarrow> orch_state \<Rightarrow> cycle_event list \<Rightarrow> orch_state \<Rightarrow> bool" where
  "tells cid s [] t = (s = t)"
| "tells cid s (e # es) t = (ev_cycle e = cid \<and>
     (if ev_kind e = STATE_TRANSITION
      then \<exists>u. step s u \<and> ev_payload e = transition_payload s u \<and> tells cid u es t
      else ev_kind e \<notin> {CYCLE_STARTED, CYCLE_COMPLETED, CYCLE_ABORTED} \<and> tells cid s es t))"

lemma tells_append: "tells cid s es t \<Longrightarrow> tells cid t fs u \<Longrightarrow> tells cid s (es @ fs) u"
  by (induction cid s es t rule: tells.induct) (auto split: if_splits)

definition plain_kind :: "event_kind \<Rightarrow> bool" where
  "plain_kind k = (k \<notin> {CYCLE_STARTED, CYCLE_COMPLETED, CYCLE_ABORTED, STATE_TRANSITION})"

lemma tells_plain: "\<forall>e\<in>set es. ev_cycle e = cid \<and> plain_kind (ev_kind e) \<Longrightarrow> tells cid s es s"
  by (induction es) (auto simp: plain_kind_def)

text \<open>The closing event of a cycle and the result it belongs to.\<close>

definition closing :: "cycle_result \<Rightarrow> orch_state \<Rightarrow> cycle_event \<Rightarrow> bool" where
  "closing r fin e = (ev_cycle e = cy_cycle_id r \<and> (case cy_aborted_reason r of
     None \<Rightarrow> cy_terminal r \<noteq> ERROR \<and> fin = IDLE \<and> ev_kind e = CYCLE_COMPLETED \<and>
       ev_payload e = [(''terminal_state'', PStr (state_value (cy_terminal r))),
         (''artifacts_emitted'', PInt (int (count_artifacts (cy_artifacts r)))),
         (''total_token_in'', PInt (cy_token_in r)), (''total_token_out'', PInt (cy_token_out r))]
   | Some why \<Rightarrow> cy_terminal r = ERROR \<and> fin = ERROR \<and> ev_kind e = CYCLE_ABORTED \<and>
       (\<exists>st. ev_payload e = [(''reason'', PStr why), (''at_state'', PStr (state_value st))])))"

section \<open>Single steps\<close>

text \<open>What the runner relies on of a live broker port: on a log with the listeners \<open>ls\<close>, its
  hooks and its execution add only live broker events of the attached cycle to the log.\<close>

definition live_kind :: "event_kind \<Rightarrow> bool" where
  "live_kind k = (k \<in> {BROKER_LIVE_SUBMITTED, BROKER_LIVE_FILLED, BROKER_LIVE_REJECTED,
     BROKER_LIVE_CANCELLED, BROKER_LIVE_KILL_SWITCH})"

definition adds_live :: "string \<Rightarrow> 'w sys \<Rightarrow> 'w sys \<Rightarrow> bool" where
  "adds_live cid s s' \<longleftrightarrow> (\<exists>es. log_grows (sys_log s) es (sys_log s') \<and>
     (\<forall>e\<in>set es. ev_cycle e = cid \<and> live_kind (ev_kind e)))"

definition port_ok :: "(cycle_event \<Rightarrow> ('w, unit) eff) list \<Rightarrow> string \<Rightarrow> 'w broker_port \<Rightarrow> bool" where
  "port_ok ls cid b = (case b of Plain_Broker _ \<Rightarrow> True
     | Live_Broker att ex det \<Rightarrow> \<forall>s s1 s2 u r a p. el_listeners (sys_log s) = ls \<longrightarrow> att cid s = (Inr u, s1) \<longrightarrow> ex a p s1 = (Inr r, s2) \<longrightarrow>
         adds_live cid s (det s2))"

definition ctx_ok :: "'w runner \<Rightarrow> 'w run_ctx \<Rightarrow> bool" where
  "ctx_ok rn c \<longleftrightarrow> sm_listeners (rc_machine c) = [emit_state_transition rn] \<and>
     bg_budget (rc_guard c) = rn_budget rn \<and> bg_tokens (rc_guard c) = rc_token_in c + rc_token_out c \<and>
     pred_option (port_ok (el_listeners (sys_log (rc_sys c))) (cycle_id rn)) (rn_broker rn)"

lemma log_grows_listeners: "log_grows l es l' \<Longrightarrow> el_listeners l' = el_listeners l"
  by (simp add: log_grows_def)

abbreviation ctx_log :: "'w run_ctx \<Rightarrow> 'w event_log" where
  "ctx_log c \<equiv> sys_log (rc_sys c)"

abbreviation ctx_state :: "'w run_ctx \<Rightarrow> orch_state" where
  "ctx_state c \<equiv> sm_state (rc_machine c)"

definition advance :: "'w runner \<Rightarrow> 'w run_ctx \<Rightarrow> 'w run_ctx \<Rightarrow> bool" where
  "advance rn c c' \<longleftrightarrow> ctx_ok rn c' \<and>
     (\<exists>es. log_grows (ctx_log c) es (ctx_log c') \<and> tells (cycle_id rn) (ctx_state c) es (ctx_state c'))"

lemma advance_trans: "advance rn c c' \<Longrightarrow> advance rn c' c'' \<Longrightarrow> advance rn c c''"
  unfolding advance_def using log_grows_trans tells_append by blast

lemma advance_from:
  "advance rn d c' \<Longrightarrow> ctx_log d = ctx_log c \<Longrightarrow> ctx_state d = ctx_state c \<Longrightarrow> advance rn c c'"
  by (simp add: advance_def)

lemma advance_ok: "advance rn c c' \<Longrightarrow> ctx_ok rn c'"
  by (simp add: advance_def)

lemma advance_refl: "ctx_ok rn c \<Longrightarrow> advance rn c c"
  by (auto simp: advance_def intro: exI [of _ "[]"])

lemma in_sys_apply [simp]:
  "in_sys m c = (fst (m (rc_sys c)), c\<lparr>rc_sys := snd (m (rc_sys c))\<rparr>)"
  by (simp add: in_sys_def)

lemma log_event_ok:
  assumes "log_event rn (build_event (rn_env rn) (cycle_id rn) k p) c = (Inr u, c')"
  shows "\<exists>s' e. c' = c\<lparr>rc_sys := s'\<rparr> \<and> log_grows (ctx_log c) [e] (sys_log s') \<and> ev_kind e = k \<and>
    ev_cycle e = cycle_id rn \<and> ev_payload e = p"
  using assms emit_ok [of "rn_env rn" "cycle_id rn" k p "rc_sys c" u "rc_sys c'"]
  by (auto simp: log_event_def prod_eq_iff)

lemma log_plain_advance:
  assumes "log_event rn (build_event (rn_env rn) (cycle_id rn) k p) c = (Inr u, c')"
    and "plain_kind k" and "ctx_ok rn c"
  shows "advance rn c c' \<and> (\<exists>s'. c' = c\<lparr>rc_sys := s'\<rparr>)"
proof -
  obtain s' e where e: "c' = c\<lparr>rc_sys := s'\<rparr>" "log_grows (ctx_log c) [e] (sys_log s')" "ev_kind e = k"
    "ev_cycle e = cycle_id rn"
    using log_event_ok [OF assms(1)] by blast
  then have "tells (cycle_id rn) (ctx_state c) [e] (ctx_state c)"
    using assms(2) by (intro tells_plain) simp
  with e assms(3) show ?thesis by (auto simp: advance_def ctx_ok_def dest: log_grows_listeners)
qed

lemma world_advance:
  assumes "in_sys (in_world m) c = (r, c')" and "ctx_ok rn c"
  shows "advance rn c c' \<and> (\<exists>s'. c' = c\<lparr>rc_sys := s'\<rparr>)"
  using assms by (auto simp: advance_def ctx_ok_def prod_eq_iff intro: exI [of _ "[]"])

lemma go_advance:
  assumes "go t c = (Inr u, c')" and "ctx_ok rn c" and "step (ctx_state c) t"
  shows "advance rn c c' \<and> (\<exists>s'. c' = c\<lparr>rc_machine := (rc_machine c)\<lparr>sm_state := t\<rparr>, rc_sys := s'\<rparr>)"
proof -
  let ?m = "rc_machine c" and ?s = "rc_sys c"
  let ?r = "\<lparr>st_src = sm_state ?m, st_dst = t\<rparr>"
  have can: "can_transition_to ?m t" using assms(3) by (simp add: step_iff can_transition_to_def)
  have heard: "notify (sm_listeners ?m) ?r ?s = seq (emit_state_transition rn ?r) (\<lambda>_. ret ()) ?s"
    using assms(2) by (simp add: notify_def ctx_ok_def)
  obtain x s' where em: "emit_state_transition rn ?r ?s = (x, s')" by (cases "emit_state_transition rn ?r ?s")
  with assms(1) heard obtain v where x: "x = Inr v"
    and c': "c' = c\<lparr>rc_machine := ?m\<lparr>sm_state := t\<rparr>, rc_sys := s'\<rparr>"
    by (auto simp: go_def in_machine_def seq_apply transition_accepted [OF can] split: sum.splits)
  obtain e where e: "log_grows (sys_log ?s) [e] (sys_log s')" "ev_kind e = STATE_TRANSITION"
    "ev_cycle e = cycle_id rn" "ev_payload e = transition_payload (sm_state ?m) t"
    using emit_ok em x by (force simp: emit_state_transition_def state_transition_event_def transition_payload_def)
  then have "tells (cycle_id rn) (ctx_state c) [e] t" using assms(3) by simp
  with e(1) c' assms(2) show ?thesis by (auto simp: advance_def ctx_ok_def dest: log_grows_listeners)
qed

definition only_breaches :: "string \<Rightarrow> 'w event_log \<Rightarrow> 'w event_log \<Rightarrow> bool" where
  "only_breaches cid l l' \<longleftrightarrow> (\<exists>es. log_grows l es l' \<and>
     (\<forall>e\<in>set es. ev_cycle e = cid \<and> ev_kind e = BUDGET_EXCEEDED))"

lemma only_breaches_refl [simp]: "only_breaches cid l l"
  by (auto simp: only_breaches_def intro: exI [of _ "[]"])

lemma check_budget_ok:
  assumes "check_budget env clk (g, s) = (Inr st, (g', s'))"
  shows "bg_budget g' = bg_budget g \<and> bg_tokens g' = bg_tokens g \<and>
    (bs_kind st = BUDGET_OK \<longrightarrow> bg_tokens g \<le> cb_token_cap (bg_budget g)) \<and>
    only_breaches (cb_cycle_id (bg_budget g)) (sys_log s) (sys_log s')"
proof -
  define el where "el = elapsed_seconds g (fst (clk (sys_world s)))"
  let ?s1 = "s\<lparr>sys_world := snd (clk (sys_world s))\<rparr>"
  have run: "(case make_budget_status (classify g el) (bg_tokens g)
            (cb_token_cap (bg_budget g)) el (cb_wallclock_cap (bg_budget g)) of
        Inl e \<Rightarrow> (Inl e, (g, ?s1))
      | Inr st \<Rightarrow> seq (emit_if_first_breach env st) (\<lambda>_. ret st) (g, ?s1)) = (Inr st, (g', s'))"
    using assms unfolding el_def
    by (simp add: check_budget_def seq_apply [of "on_sys _"] seq_apply [of "gets _"]
        seq_apply [of "lift_res _"] Let_def)
  then have kind: "bs_kind st = classify g el" and
    em: "emit_if_first_breach env st (g, ?s1) = (Inr (), (g', s'))"
    by (auto simp: make_budget_status_def seq_apply split: if_splits sum.splits prod.splits)
  have one: "only_breaches cid (sys_log s) (sys_log t)"
    if "emit env (budget_exceeded_event env cid k n m) ?s1 = (Inr u, t)" for cid k n m t u
    using emit_ok [OF that [unfolded budget_exceeded_event_def]] by (force simp: only_breaches_def)
  have "bg_budget g' = bg_budget g \<and> bg_tokens g' = bg_tokens g \<and>
    only_breaches (cb_cycle_id (bg_budget g)) (sys_log s) (sys_log s')"
    using em one by (auto simp: emit_if_first_breach_def seq_apply prod_eq_iff split: if_splits)
  moreover have "classify g el = BUDGET_OK \<Longrightarrow> bg_tokens g \<le> cb_token_cap (bg_budget g)"
    by (auto simp: classify_def split: if_splits)
  ultimately show ?thesis using kind by simp
qed

lemma consume_advance:
  assumes "in_guard (consume (rn_env rn) clk i out) c = (Inr st, c')"
    and "sm_listeners (rc_machine c) = [emit_state_transition rn]" "bg_budget (rc_guard c) = rn_budget rn"
    and "bg_tokens (rc_guard c) + (i + out) = rc_token_in c + rc_token_out c"
    and "pred_option (port_ok (el_listeners (ctx_log c)) (cycle_id rn)) (rn_broker rn)"
  shows "advance rn c c' \<and> rc_machine c' = rc_machine c \<and> rc_artifacts c' = rc_artifacts c \<and>
    (bs_kind st = BUDGET_OK \<longrightarrow> bg_tokens (rc_guard c') \<le> cb_token_cap (rn_budget rn))"
proof -
  let ?g = "(rc_guard c)\<lparr>bg_tokens := bg_tokens (rc_guard c) + (i + out)\<rparr>"
  from assms(1) obtain g' s' where run: "check_budget (rn_env rn) clk (?g, rc_sys c) = (Inr st, (g', s'))"
    and c': "c' = c\<lparr>rc_guard := g', rc_sys := s'\<rparr>"
    by (auto simp: in_guard_def consume_def seq_apply [of "modify _"] prod_eq_iff split: if_splits)
  obtain es where "log_grows (ctx_log c) es (sys_log s')"
    "\<forall>e\<in>set es. ev_cycle e = cycle_id rn \<and> ev_kind e = BUDGET_EXCEEDED"
    using check_budget_ok [OF run] assms(3) by (auto simp: only_breaches_def cycle_id_def)
  moreover from this(2) have "tells (cycle_id rn) (ctx_state c) es (ctx_state c)"
    by (intro tells_plain) (simp add: plain_kind_def)
  ultimately show ?thesis
    using check_budget_ok [OF run] assms(2-5) c' by (auto simp: advance_def ctx_ok_def dest: log_grows_listeners)
qed

lemma agent_failure_ok:
  assumes "agent_failure rn nm rid res c = (Inr x, c')" and "ctx_ok rn c"
  shows "advance rn c c' \<and> (\<exists>s'. c' = c\<lparr>rc_sys := s'\<rparr>) \<and> (\<exists>h. x = Inl h)"
proof -
  from assms(1) obtain u where "log_event rn (build_event (rn_env rn) (cycle_id rn) AGENT_FAILED
       [(''agent_name'', PStr nm), (''run_id'', PStr rid), (''error'', PStr (error_text res))]) c = (Inr u, c')"
    and "\<exists>h. x = Inl h"
    by (auto simp: agent_failure_def seq_apply agent_failed_event_def split: prod.splits sum.splits)
  with log_plain_advance [OF this(1) _ assms(2)] show ?thesis by (simp add: plain_kind_def)
qed

lemma agent_success_ok:
  assumes "agent_success rn nm sch rid meta out c = (Inr x, c')" and "ctx_ok rn c"
  shows "advance rn c c' \<and> ctx_state c' = ctx_state c \<and> rc_artifacts c' = rc_artifacts c \<and>
    (\<forall>y. x = Inr y \<longrightarrow> bg_tokens (rc_guard c') \<le> cb_token_cap (rn_budget rn))"
proof -
  let ?add = "\<lambda>c. c\<lparr>rc_token_in := rc_token_in c + md_token_in meta,
       rc_token_out := rc_token_out c + md_token_out meta\<rparr>"
  from assms(1) obtain u c1 st where
    ev: "log_event rn (agent_succeeded_event (rn_env rn) (cycle_id rn) nm rid sch
       (md_token_in meta) (md_token_out meta) (md_latency_ms meta)) c = (Inr u, c1)" and
    con: "in_guard (consume (rn_env rn) (rn_clock rn) (md_token_in meta) (md_token_out meta)) (?add c1) = (Inr st, c')"
    and x: "\<forall>y. x = Inr y \<longrightarrow> bs_kind st = BUDGET_OK"
    by (auto simp: agent_success_def seq_apply split: prod.splits sum.splits if_splits)
  have 1: "advance rn c c1" "\<exists>s'. c1 = c\<lparr>rc_sys := s'\<rparr>"
    using log_plain_advance [OF ev [unfolded agent_succeeded_event_def] _ assms(2)] by (simp_all add: plain_kind_def)
  then have ok1: "ctx_ok rn c1" by (simp add: advance_def)
  have 2: "advance rn (?add c1) c' \<and> rc_machine c' = rc_machine (?add c1) \<and>
      rc_artifacts c' = rc_artifacts (?add c1) \<and>
      (bs_kind st = BUDGET_OK \<longrightarrow> bg_tokens (rc_guard c') \<le> cb_token_cap (rn_budget rn))"
  proof (rule consume_advance [OF con])
    have t: "bg_tokens (rc_guard c1) = rc_token_in c1 + rc_token_out c1" using ok1 unfolding ctx_ok_def by blast
    show "bg_tokens (rc_guard (?add c1)) + (md_token_in meta + md_token_out meta) =
        rc_token_in (?add c1) + rc_token_out (?add c1)"
      using t by simp
  qed (use ok1 in \<open>simp add: ctx_ok_def\<close>)+
  then have "advance rn (?add c1) c'" ..
  then have "advance rn c1 c'" by (rule advance_from) simp_all
  then have "advance rn c c'" by (rule advance_trans [OF 1(1)])
  moreover have "ctx_state c' = ctx_state c" "rc_artifacts c' = rc_artifacts c" using 1(2) 2 by fastforce+
  ultimately show ?thesis using 2 x by blast
qed

lemma call_agent_ok:
  assumes "call_agent rn agent nm sch payload c = (Inr x, c')" and "ctx_ok rn c"
  shows "advance rn c c' \<and> ctx_state c' = ctx_state c \<and> rc_artifacts c' = rc_artifacts c \<and>
    (\<forall>y. x = Inr y \<longrightarrow> bg_tokens (rc_guard c') \<le> cb_token_cap (rn_budget rn))"
proof -
  from assms(1) obtain rid c1 u c2 res c3 where
    1: "in_sys (in_world (call (env_token_hex (rn_env rn)))) c = (Inr rid, c1)" and
    2: "log_event rn (agent_invoked_event (rn_env rn) (cycle_id rn) nm rid) c1 = (Inr u, c2)" and
    3: "in_sys (in_world (agent payload)) c2 = (Inr res, c3)" and
    4: "(case ag_output res of None \<Rightarrow> agent_failure rn nm rid res
       | Some out \<Rightarrow> if agent_is_ok res then agent_success rn nm sch rid (ag_metadata res) out
                     else agent_failure rn nm rid res) c3 = (Inr x, c')"
    unfolding call_agent_def by (elim seq_Inr_cases)
  have a1: "advance rn c c1 \<and> (\<exists>s'. c1 = c\<lparr>rc_sys := s'\<rparr>)" using world_advance [OF 1 assms(2)] .
  then have a2: "advance rn c1 c2 \<and> (\<exists>s'. c2 = c1\<lparr>rc_sys := s'\<rparr>)"
    using log_plain_advance [OF 2 [unfolded agent_invoked_event_def]] by (simp add: plain_kind_def advance_def)
  have a3: "advance rn c2 c3 \<and> (\<exists>s'. c3 = c2\<lparr>rc_sys := s'\<rparr>)"
    by (rule world_advance [OF 3]) (use a2 advance_ok in blast)
  then have ok3: "ctx_ok rn c3" using advance_ok by blast
  have a4: "advance rn c3 c' \<and> ctx_state c' = ctx_state c3 \<and> rc_artifacts c' = rc_artifacts c3 \<and>
    (\<forall>y. x = Inr y \<longrightarrow> bg_tokens (rc_guard c') \<le> cb_token_cap (rn_budget rn))"
  proof (cases "ag_output res \<noteq> None \<and> agent_is_ok res")
    case True
    with 4 obtain out where "agent_success rn nm sch rid (ag_metadata res) out c3 = (Inr x, c')" by auto
    from agent_success_ok [OF this ok3] show ?thesis .
  next
    case False
    with 4 have "agent_failure rn nm rid res c3 = (Inr x, c')" by (auto split: option.splits)
    from agent_failure_ok [OF this ok3] show ?thesis by auto
  qed
  have "advance rn c c'" using a1 a2 a3 a4 advance_trans by blast
  moreover have "ctx_state c3 = ctx_state c" "rc_artifacts c3 = rc_artifacts c" using a1 a2 a3 by force+
  ultimately show ?thesis using a4 by simp
qed

section \<open>Endings\<close>

definition ending :: "'w runner \<Rightarrow> 'w run_ctx \<Rightarrow> cycle_result \<Rightarrow> 'w run_ctx \<Rightarrow> bool" where
  "ending rn c r c' \<longleftrightarrow> cy_cycle_id r = cycle_id rn \<and>
     (\<exists>mid e fin. log_grows (ctx_log c) (mid @ [e]) (ctx_log c') \<and>
       tells (cycle_id rn) (ctx_state c) mid fin \<and> closing r fin e)"

lemma ending_advance: "advance rn c c1 \<Longrightarrow> ending rn c1 r c' \<Longrightarrow> ending rn c r c'"
  unfolding advance_def ending_def by (metis append_assoc log_grows_trans tells_append)

lemma persist_log:
  assumes "persist_if_configured rn r c = (Inr u, c')"
  shows "ctx_log c' = ctx_log c"
  using assms by (auto simp: persist_if_configured_def seq_apply split: option.splits)

lemma complete_ok:
  assumes "complete_cycle rn t c = (Inr r, c')" and "ctx_ok rn c"
    and "t \<noteq> ERROR" and "step (ctx_state c) IDLE"
  shows "ending rn c r c' \<and> cy_terminal r = t \<and> cy_artifacts r = rc_artifacts c \<and>
    cy_aborted_reason r = None \<and> cy_token_in r + cy_token_out r = bg_tokens (rc_guard c)"
proof -
  from assms(1) obtain u c1 v c2 w where
    1: "go IDLE c = (Inr u, c1)" and
    2: "log_event rn (cycle_completed_event (rn_env rn) (cycle_id rn) (state_value t)
       (count_artifacts (rc_artifacts c1)) (rc_token_in c1) (rc_token_out c1)) c1 = (Inr v, c2)" and
    3: "persist_if_configured rn r c2 = (Inr w, c')" and
    r: "r = \<lparr>cy_cycle_id = cycle_id rn, cy_terminal = t, cy_artifacts = rc_artifacts c1,
       cy_aborted_reason = None, cy_token_in = rc_token_in c1, cy_token_out = rc_token_out c1\<rparr>"
    unfolding complete_cycle_def by (auto simp: Let_def elim!: seq_Inr_cases)
  obtain s1 where a: "advance rn c c1" "c1 = c\<lparr>rc_machine := (rc_machine c)\<lparr>sm_state := IDLE\<rparr>, rc_sys := s1\<rparr>"
    using go_advance [OF 1 assms(2,4)] by blast
  obtain s' e where e: "c2 = c1\<lparr>rc_sys := s'\<rparr>" "log_grows (ctx_log c1) [e] (sys_log s')"
    "ev_kind e = CYCLE_COMPLETED" "ev_cycle e = cycle_id rn"
    "ev_payload e = [(''terminal_state'', PStr (state_value t)),
        (''artifacts_emitted'', PInt (int (count_artifacts (rc_artifacts c1)))),
        (''total_token_in'', PInt (rc_token_in c1)),
        (''total_token_out'', PInt (rc_token_out c1))]"
    using log_event_ok [OF 2 [unfolded cycle_completed_event_def]] by blast
  have "closing r IDLE e" using e assms(3) by (simp add: closing_def r)
  moreover have "log_grows (ctx_log c1) ([] @ [e]) (ctx_log c')"
    using e persist_log [OF 3] by simp
  moreover have "tells (cycle_id rn) (ctx_state c1) [] IDLE" using a(2) by simp
  ultimately have "ending rn c1 r c'"
    unfolding ending_def using r by (metis cycle_result.select_convs(1))
  from ending_advance [OF a(1) this] show ?thesis using r a(2) assms(2) by (simp add: ctx_ok_def)
qed

lemma finalize_ok:
  assumes "finalize_cycle rn h c = (Inr r, c')" and "ctx_ok rn c"
  shows "ending rn c r c' \<and> cy_terminal r = ERROR \<and> cy_artifacts r = rc_artifacts c \<and>
    cy_aborted_reason r = Some (ha_reason h) \<and> cy_token_in r + cy_token_out r = bg_tokens (rc_guard c)"
proof -
  from assms(1) obtain u c1 v c2 w where
    1: "go ERROR c = (Inr u, c1)" and
    2: "log_event rn (cycle_aborted_event (rn_env rn) (cycle_id rn) (ha_reason h) (state_value (ctx_state c))) c1
      = (Inr v, c2)" and
    3: "persist_if_configured rn r c2 = (Inr w, c')" and
    r: "r = \<lparr>cy_cycle_id = cycle_id rn, cy_terminal = ERROR, cy_artifacts = rc_artifacts c2,
       cy_aborted_reason = Some (ha_reason h), cy_token_in = rc_token_in c2, cy_token_out = rc_token_out c2\<rparr>"
    unfolding finalize_cycle_def by (auto simp: Let_def elim!: seq_Inr_cases)
  have st: "step (ctx_state c) ERROR" by (simp add: step_iff valid_iff)
  obtain s1 where a: "advance rn c c1" "c1 = c\<lparr>rc_machine := (rc_machine c)\<lparr>sm_state := ERROR\<rparr>, rc_sys := s1\<rparr>"
    using go_advance [OF 1 assms(2) st] by blast
  obtain s' e where e: "c2 = c1\<lparr>rc_sys := s'\<rparr>" "log_grows (ctx_log c1) [e] (sys_log s')"
    "ev_kind e = CYCLE_ABORTED" "ev_cycle e = cycle_id rn"
    "ev_payload e = [(''reason'', PStr (ha_reason h)), (''at_state'', PStr (state_value (ctx_state c)))]"
    using log_event_ok [OF 2 [unfolded cycle_aborted_event_def]] by blast
  have "closing r ERROR e" using e by (auto simp: closing_def r)
  moreover have "log_grows (ctx_log c1) ([] @ [e]) (ctx_log c')"
    using e persist_log [OF 3] by simp
  moreover have "tells (cycle_id rn) (ctx_state c1) [] ERROR" using a(2) by simp
  ultimately have "ending rn c1 r c'"
    unfolding ending_def using r by (metis cycle_result.select_convs(1))
  from ending_advance [OF a(1) this] show ?thesis using r a(2) e(1) assms(2) by (simp add: ctx_ok_def)
qed

section \<open>The shape of the artifacts\<close>

text \<open>Each artifact was produced after the ones before it, from a decision to go on.\<close>

definition artifacts_ok :: "'w runner \<Rightarrow> cycle_artifacts \<Rightarrow> bool" where
  "artifacts_ok rn a \<longleftrightarrow>
     (ca_hypothesis a \<noteq> None \<longrightarrow> ca_observer a \<noteq> None) \<and>
     (ca_skeptic a \<noteq> None \<longrightarrow> ca_hypothesis a \<noteq> None) \<and>
     (ca_research a \<noteq> None \<longrightarrow> (\<exists>sk. ca_skeptic a = Some sk \<and> sk_verdict sk = PROCEED)) \<and>
     (ca_backtest a \<noteq> None \<longrightarrow> ca_research a \<noteq> None) \<and>
     (ca_audit a \<noteq> None \<longrightarrow> ca_backtest a \<noteq> None) \<and>
     (ca_decision a \<noteq> None \<longrightarrow> (\<exists>au. ca_audit a = Some au \<and> ar_verdict au = PASS)) \<and>
     (ca_feasible a \<noteq> None \<longrightarrow> (\<exists>dec cfg f. ca_decision a = Some dec \<and> rn_gateway rn = Some cfg \<and>
        ca_feasible a = Some f \<and> apply_policy_gateway (rn_fx rn) dec cfg = Inr f)) \<and>
     (ca_execution a \<noteq> None \<longrightarrow> ca_feasible a \<noteq> None \<and> rn_broker rn \<noteq> None \<and> rn_prices rn \<noteq> None)"

definition terminal_ok :: "'w runner \<Rightarrow> cycle_result \<Rightarrow> bool" where
  "terminal_ok rn r \<longleftrightarrow> (let a = cy_artifacts r in case cy_terminal r of
     SCRUTINIZING \<Rightarrow> (\<exists>sk. ca_skeptic a = Some sk \<and> sk_verdict sk \<noteq> PROCEED) \<and> ca_research a = None
   | AUDITING \<Rightarrow> (\<exists>au. ca_audit a = Some au \<and> ar_verdict au \<noteq> PASS) \<and> ca_decision a = None
   | DECIDING \<Rightarrow> ca_decision a \<noteq> None \<and> (rn_gateway rn \<noteq> None \<longrightarrow> ca_feasible a \<noteq> None) \<and>
       (ca_feasible a \<noteq> None \<and> rn_broker rn \<noteq> None \<and> rn_prices rn \<noteq> None \<longrightarrow> ca_execution a \<noteq> None)
   | ERROR \<Rightarrow> ca_execution a = None
   | _ \<Rightarrow> False)"

definition result_ok :: "'w runner \<Rightarrow> cycle_result \<Rightarrow> bool" where
  "result_ok rn r \<longleftrightarrow> artifacts_ok rn (cy_artifacts r) \<and> terminal_ok rn r \<and>
     (cy_terminal r = ERROR \<longleftrightarrow> cy_aborted_reason r \<noteq> None) \<and>
     (cy_aborted_reason r = None \<longrightarrow> cy_token_in r + cy_token_out r \<le> cb_token_cap (rn_budget rn))"

definition good :: "'w runner \<Rightarrow> 'w run_ctx \<Rightarrow> cycle_result \<Rightarrow> 'w run_ctx \<Rightarrow> bool" where
  "good rn c r c' \<longleftrightarrow> ending rn c r c' \<and> result_ok rn r"

definition at_phase :: "'w runner \<Rightarrow> orch_state \<Rightarrow> cycle_artifacts \<Rightarrow> 'w run_ctx \<Rightarrow> bool" where
  "at_phase rn st a c \<longleftrightarrow> ctx_ok rn c \<and> ctx_state c = st \<and> rc_artifacts c = a \<and>
     bg_tokens (rc_guard c) \<le> cb_token_cap (rn_budget rn)"

lemma good_advance: "advance rn c c1 \<Longrightarrow> good rn c1 r c' \<Longrightarrow> good rn c r c'"
  by (auto simp: good_def intro: ending_advance)

lemma finalize_good:
  assumes "finalize_cycle rn h c = (Inr r, c')" and "ctx_ok rn c"
    and "artifacts_ok rn (rc_artifacts c)" and "ca_execution (rc_artifacts c) = None"
  shows "good rn c r c'"
  using finalize_ok [OF assms(1,2)] assms(3,4)
  by (auto simp: good_def result_ok_def terminal_ok_def Let_def)

lemma complete_good:
  assumes "complete_cycle rn t c = (Inr r, c')" and "at_phase rn st a c"
    and "t \<noteq> ERROR" and "step st IDLE" and "artifacts_ok rn a"
    and "\<And>r. cy_terminal r = t \<Longrightarrow> cy_artifacts r = a \<Longrightarrow> terminal_ok rn r"
  shows "good rn c r c'"
  using complete_ok [OF assms(1) _ assms(3)] assms(2-6)
  by (auto simp: good_def result_ok_def at_phase_def)

lemma go_phase:
  assumes "seq (go t) (\<lambda>_. f) c = (Inr r, c')" and "at_phase rn st a c" and "step st t"
    and "\<And>c1. f c1 = (Inr r, c') \<Longrightarrow> at_phase rn t a c1 \<Longrightarrow> good rn c1 r c'"
  shows "good rn c r c'"
proof -
  from assms(1) obtain u c1 where 1: "go t c = (Inr u, c1)" and 2: "f c1 = (Inr r, c')"
    by (elim seq_Inr_cases)
  have a: "advance rn c c1 \<and> (\<exists>s'. c1 = c\<lparr>rc_machine := (rc_machine c)\<lparr>sm_state := t\<rparr>, rc_sys := s'\<rparr>)"
    by (rule go_advance [OF 1]) (use assms(2,3) in \<open>auto simp: at_phase_def\<close>)
  then have "at_phase rn t a c1" using assms(2) advance_ok by (auto simp: at_phase_def)
  with 2 a assms(4) good_advance show ?thesis by blast
qed

text \<open>The rule for a phase that calls an agent.\<close>

lemma agent_phase_good:
  assumes "agent_phase rn (call_agent rn agent nm sch payload) put next_phase c = (Inr r, c')"
    and "at_phase rn st a c" and "artifacts_ok rn a" and "ca_execution a = None"
    and "\<And>out c1. next_phase out c1 = (Inr r, c') \<Longrightarrow> at_phase rn st (put out a) c1 \<Longrightarrow> good rn c1 r c'"
  shows "good rn c r c'"
proof -
  from assms(1) obtain x c1 where 1: "call_agent rn agent nm sch payload c = (Inr x, c1)"
    and 2: "(case x of Inl h \<Rightarrow> finalize_cycle rn h
       | Inr out \<Rightarrow> seq (put_artifacts (put out)) (\<lambda>_. next_phase out)) c1 = (Inr r, c')"
    unfolding agent_phase_def by (elim seq_Inr_cases)
  have call: "advance rn c c1 \<and> ctx_state c1 = ctx_state c \<and> rc_artifacts c1 = rc_artifacts c \<and>
    (\<forall>y. x = Inr y \<longrightarrow> bg_tokens (rc_guard c1) \<le> cb_token_cap (rn_budget rn))"
    using call_agent_ok [OF 1] assms(2) by (auto simp: at_phase_def)
  have "good rn c1 r c'"
  proof (cases x)
    case (Inl h)
    with 2 call assms(2-4) advance_ok show ?thesis
      by (intro finalize_good) (auto simp: at_phase_def)
  next
    case (Inr out)
    let ?c = "c1\<lparr>rc_artifacts := put out (rc_artifacts c1)\<rparr>"
    from 2 Inr have "next_phase out ?c = (Inr r, c')" by (simp add: put_artifacts_def seq_apply)
    moreover have "at_phase rn st (put out a) ?c"
      using call Inr assms(2) advance_ok [of rn c c1] by (auto simp: at_phase_def ctx_ok_def)
    ultimately have "good rn ?c r c'" by (rule assms(5))
    then show ?thesis by (simp add: good_def ending_def)
  qed
  with call good_advance show ?thesis by blast
qed

section \<open>The phases\<close>

lemma adds_live_advance:
  assumes "adds_live (cycle_id rn) (rc_sys c) s'" and "ctx_ok rn c"
  shows "advance rn c (c\<lparr>rc_sys := s'\<rparr>)"
proof -
  obtain es where es: "log_grows (ctx_log c) es (sys_log s')"
    "\<forall>e\<in>set es. ev_cycle e = cycle_id rn \<and> live_kind (ev_kind e)"
    using assms(1) by (auto simp: adds_live_def)
  from es(2) have "tells (cycle_id rn) (ctx_state c) es (ctx_state c)"
    by (intro tells_plain) (auto simp: plain_kind_def live_kind_def)
  with es(1) assms(2) show ?thesis by (auto simp: advance_def ctx_ok_def dest: log_grows_listeners)
qed

lemma execute_with_ok:
  assumes "execute_with rn b act p c = (Inr u, c')" and "ctx_ok rn c" and "rn_broker rn = Some b"
  shows "advance rn c c' \<and> ctx_state c' = ctx_state c \<and> rc_guard c' = rc_guard c \<and>
    (\<exists>report. rc_artifacts c' = ca_execution_update (\<lambda>_. Some report) (rc_artifacts c))"
proof (cases b)
  case (Live_Broker att ex det)
  with assms(1) obtain v s1 report s2 where 1: "att (cycle_id rn) (rc_sys c) = (Inr v, s1)"
    "ex act p s1 = (Inr report, s2)"
    and c': "c' = c\<lparr>rc_sys := det s2, rc_artifacts := ca_execution_update (\<lambda>_. Some report) (rc_artifacts c)\<rparr>"
    by (auto simp: execute_with_def seq_apply put_artifacts_def prod_eq_iff split: sum.splits)
  have "adds_live (cycle_id rn) (rc_sys c) (det s2)"
    using assms(2,3) 1 Live_Broker by (simp add: port_ok_def ctx_ok_def) blast
  from adds_live_advance [OF this assms(2)] show ?thesis
    unfolding c' by (auto simp: advance_def ctx_ok_def dest: log_grows_listeners)
next
  case (Plain_Broker ex)
  with assms(1) obtain report c1 v where 1: "in_sys (in_world (ex act p)) c = (Inr report, c1)" and
    2: "log_event rn (broker_executed_event (rn_env rn) (cycle_id rn) (fa_source_run_id act)
         (execution_status_value (xr_status report)) (length (xr_fills report)) (xr_reason report))
       (c1\<lparr>rc_artifacts := ca_execution_update (\<lambda>_. Some report) (rc_artifacts c1)\<rparr>) = (Inr v, c')"
    by (auto simp: execute_with_def seq_apply put_artifacts_def split: sum.splits)
  let ?c1 = "c1\<lparr>rc_artifacts := ca_execution_update (\<lambda>_. Some report) (rc_artifacts c1)\<rparr>"
  have a1: "advance rn c c1 \<and> (\<exists>s'. c1 = c\<lparr>rc_sys := s'\<rparr>)" using world_advance [OF 1 assms(2)] .
  then have ok: "ctx_ok rn ?c1" by (simp add: advance_def ctx_ok_def)
  have a2: "advance rn ?c1 c' \<and> (\<exists>s'. c' = ?c1\<lparr>rc_sys := s'\<rparr>)"
    by (rule log_plain_advance [OF 2 [unfolded broker_executed_event_def] _ ok]) (simp add: plain_kind_def)
  then have "advance rn ?c1 c'" ..
  then have "advance rn c1 c'" by (rule advance_from) simp_all
  then have "advance rn c c'" using a1 advance_trans by blast
  with a1 a2 show ?thesis by fastforce
qed

text \<open>The artifacts at the start of each phase.\<close>

definition upto_skeptic :: "observer_artifact \<Rightarrow> hypothesis_card \<Rightarrow> skeptic_report \<Rightarrow> cycle_artifacts" where
  "upto_skeptic obs hyp sk = no_artifacts\<lparr>ca_observer := Some obs, ca_hypothesis := Some hyp,
     ca_skeptic := Some sk\<rparr>"

definition upto_audit :: "observer_artifact \<Rightarrow> hypothesis_card \<Rightarrow> skeptic_report \<Rightarrow> research_plan \<Rightarrow>
    backtest_report \<Rightarrow> audit_report \<Rightarrow> cycle_artifacts" where
  "upto_audit obs hyp sk pl bt au = (upto_skeptic obs hyp sk)\<lparr>ca_research := Some pl,
     ca_backtest := Some bt, ca_audit := Some au\<rparr>"

definition upto_decision :: "observer_artifact \<Rightarrow> hypothesis_card \<Rightarrow> skeptic_report \<Rightarrow> research_plan \<Rightarrow>
    backtest_report \<Rightarrow> audit_report \<Rightarrow> strategy_decision \<Rightarrow> cycle_artifacts" where
  "upto_decision obs hyp sk pl bt au dec = (upto_audit obs hyp sk pl bt au)\<lparr>ca_decision := Some dec\<rparr>"

lemmas artifact_shapes = no_artifacts_def upto_skeptic_def upto_audit_def upto_decision_def artifacts_ok_def

lemma step_simps [simp]: "step SCRUTINIZING IDLE" "step AUDITING IDLE" "step DECIDING IDLE"
  "step IDLE OBSERVING" "step OBSERVING HYPOTHESIZING" "step HYPOTHESIZING SCRUTINIZING"
  "step SCRUTINIZING RESEARCHING" "step RESEARCHING AUDITING" "step AUDITING DECIDING"
  by (simp_all add: step_iff valid_iff)

lemma broker_phase_good:
  assumes "broker_phase rn c = (Inr r, c')" and "at_phase rn DECIDING a c"
    and "artifacts_ok rn a" and "ca_execution a = None" and "ca_decision a \<noteq> None"
    and "rn_gateway rn \<noteq> None \<longrightarrow> ca_feasible a \<noteq> None"
   
  shows "good rn c r c'"
proof (cases "\<exists>b prov act. rn_broker rn = Some b \<and> rn_prices rn = Some prov \<and> ca_feasible a = Some act")
  case False
  have "ca_feasible (rc_artifacts c) = ca_feasible a" using assms(2) by (simp add: at_phase_def)
  with False assms(1) have run: "complete_cycle rn DECIDING c = (Inr r, c')"
    by (auto simp: broker_phase_def seq_apply split: option.splits)
  show ?thesis
    by (rule complete_good [OF run assms(2)]) (use False assms in \<open>auto simp: terminal_ok_def Let_def\<close>)
next
  case True
  then obtain b prov act where b: "rn_broker rn = Some b" "rn_prices rn = Some prov" "ca_feasible a = Some act"
    by blast
  have ok: "ctx_ok rn c" and art: "rc_artifacts c = a" using assms(2) by (simp_all add: at_phase_def)
  obtain x c1 where 1: "in_sys (in_world (try_except (prov act))) c = (Inr x, c1)" and
    2: "(case x of Inl e \<Rightarrow> finalize_cycle rn \<lparr>ha_kind = HALT_AGENT_FAILED, ha_reason = ''price_provider: '' @ rn_exn_text rn e\<rparr>
       | Inr prices \<Rightarrow> seq (execute_with rn b act prices) (\<lambda>_. complete_cycle rn DECIDING)) c1 = (Inr r, c')"
  proof -
    have "seq (in_sys (in_world (try_except (prov act)))) (\<lambda>x. case x of
         Inl e \<Rightarrow> finalize_cycle rn \<lparr>ha_kind = HALT_AGENT_FAILED, ha_reason = ''price_provider: '' @ rn_exn_text rn e\<rparr>
       | Inr prices \<Rightarrow> seq (execute_with rn b act prices) (\<lambda>_. complete_cycle rn DECIDING)) c = (Inr r, c')"
      using assms(1) b art by (simp add: broker_phase_def seq_apply [of "gets _"] del: append.simps)
    then show ?thesis using that by (elim seq_Inr_cases)
  qed
  have a1: "advance rn c c1" "\<exists>s'. c1 = c\<lparr>rc_sys := s'\<rparr>" using world_advance [OF 1 ok] by auto
  then have ok1: "ctx_ok rn c1" and art1: "rc_artifacts c1 = a" and st1: "ctx_state c1 = DECIDING"
    and tok1: "bg_tokens (rc_guard c1) \<le> cb_token_cap (rn_budget rn)"
    using assms(2) advance_ok by (auto simp: at_phase_def)
  have "good rn c1 r c'"
  proof (cases x)
    case (Inl e)
    with 2 show ?thesis using ok1 art1 assms(3,4) by (intro finalize_good) auto
  next
    case (Inr prices)
    with 2 obtain u c2 where 3: "execute_with rn b act prices c1 = (Inr u, c2)"
      and 4: "complete_cycle rn DECIDING c2 = (Inr r, c')"
      by (auto elim!: seq_Inr_cases)
    obtain report where a2: "advance rn c1 c2" "ctx_state c2 = ctx_state c1" "rc_guard c2 = rc_guard c1"
      "rc_artifacts c2 = a\<lparr>ca_execution := Some report\<rparr>"
      using execute_with_ok [OF 3 ok1 b(1)] art1 by auto
    have "at_phase rn DECIDING (a\<lparr>ca_execution := Some report\<rparr>) c2"
      using a2 st1 tok1 advance_ok [OF a2(1)] by (simp add: at_phase_def)
    then have "good rn c2 r c'"
      by (rule complete_good [OF 4])
        (use assms(3,5,6) b in \<open>auto simp: terminal_ok_def Let_def artifacts_ok_def\<close>)
    with a2(1) show ?thesis by (rule good_advance)
  qed
  with a1(1) show ?thesis by (rule good_advance)
qed

lemma gateway_phase_good:
  assumes "gateway_phase rn dec c = (Inr r, c')" and "at_phase rn DECIDING (upto_decision obs hyp sk pl bt au dec) c"
    and "sk_verdict sk = PROCEED" and "ar_verdict au = PASS"
   
  shows "good rn c r c'"
proof (cases "rn_gateway rn")
  case None
  with assms(1) have run: "broker_phase rn c = (Inr r, c')" by (simp add: gateway_phase_def)
  show ?thesis
    by (rule broker_phase_good [OF run assms(2)]) (use assms None in \<open>simp_all add: artifact_shapes\<close>)
next
  case (Some cfg)
  then obtain f u c1 where f: "apply_policy_gateway (rn_fx rn) dec cfg = Inr f" and
    1: "log_event rn (policy_gateway_applied_event (rn_env rn) (cycle_id rn)
         (md_run_id (sd_metadata dec)) (action_value (fa_action f)) (length (fa_violations f)))
       (c\<lparr>rc_artifacts := (rc_artifacts c)\<lparr>ca_feasible := Some f\<rparr>\<rparr>) = (Inr u, c1)" and
    2: "broker_phase rn c1 = (Inr r, c')"
    using assms(1) by (auto simp: gateway_phase_def put_artifacts_def seq_apply split: prod.splits sum.splits)
  let ?a = "(upto_decision obs hyp sk pl bt au dec)\<lparr>ca_feasible := Some f\<rparr>"
  let ?c = "c\<lparr>rc_artifacts := (rc_artifacts c)\<lparr>ca_feasible := Some f\<rparr>\<rparr>"
  have ok: "ctx_ok rn ?c" using assms(2) by (simp add: at_phase_def ctx_ok_def)
  have a1: "advance rn ?c c1" "\<exists>s'. c1 = ?c\<lparr>rc_sys := s'\<rparr>"
    using log_plain_advance [OF 1 [unfolded policy_gateway_applied_event_def] _ ok] by (simp_all add: plain_kind_def)
  have "at_phase rn DECIDING ?a c1"
    using a1 assms(2) advance_ok [OF a1(1)] by (auto simp: at_phase_def)
  then have "good rn c1 r c'"
    by (rule broker_phase_good [OF 2]) (use assms(3,4) Some f in \<open>simp_all add: artifact_shapes\<close>)
  with a1(1) have "good rn ?c r c'" by (rule good_advance)
  then show ?thesis by (simp add: good_def ending_def)
qed

lemma auditor_phase_good:
  assumes "auditor_phase rn hyp bt c = (Inr r, c')"
    and "at_phase rn AUDITING ((upto_skeptic obs hyp sk)\<lparr>ca_research := Some pl, ca_backtest := Some bt\<rparr>) c"
    and "sk_verdict sk = PROCEED"
  shows "good rn c r c'"
proof (rule agent_phase_good [OF assms(1) [unfolded auditor_phase_def] assms(2)])
  fix au c1
  assume run: "(if ar_verdict au \<noteq> PASS then complete_cycle rn AUDITING
      else seq (go DECIDING) (\<lambda>_. decider_phase rn hyp bt au)) c1 = (Inr r, c')"
    and "at_phase rn AUDITING (ca_audit_update (\<lambda>_. Some au)
      ((upto_skeptic obs hyp sk)\<lparr>ca_research := Some pl, ca_backtest := Some bt\<rparr>)) c1"
  then have at: "at_phase rn AUDITING (upto_audit obs hyp sk pl bt au) c1" by (simp add: upto_audit_def)
  show "good rn c1 r c'"
  proof (cases "ar_verdict au = PASS")
    case False
    with run have 1: "complete_cycle rn AUDITING c1 = (Inr r, c')" by simp
    show ?thesis
      by (rule complete_good [OF 1 at]) (use assms(3) False in \<open>simp_all add: artifact_shapes terminal_ok_def Let_def\<close>)
  next
    case True
    with run have 1: "seq (go DECIDING) (\<lambda>_. decider_phase rn hyp bt au) c1 = (Inr r, c')" by simp
    show ?thesis
    proof (rule go_phase [OF 1 at])
      fix c2
      assume run: "decider_phase rn hyp bt au c2 = (Inr r, c')" and
        at: "at_phase rn DECIDING (upto_audit obs hyp sk pl bt au) c2"
      show "good rn c2 r c'"
      proof (rule agent_phase_good [OF run [unfolded decider_phase_def] at])
        fix dec c3
        assume run: "gateway_phase rn dec c3 = (Inr r, c')"
          and "at_phase rn DECIDING (ca_decision_update (\<lambda>_. Some dec) (upto_audit obs hyp sk pl bt au)) c3"
        then have "at_phase rn DECIDING (upto_decision obs hyp sk pl bt au dec) c3"
          by (simp add: upto_decision_def)
        from gateway_phase_good [OF run this assms(3) True] show "good rn c3 r c'" .
      qed (use assms(3) True in \<open>simp_all add: artifact_shapes\<close>)
    qed simp
  qed
qed (use assms(3) in \<open>simp_all add: artifact_shapes\<close>)

lemma backtest_phase_good:
  assumes "backtest_phase rn hyp pl c = (Inr r, c')"
    and "at_phase rn RESEARCHING ((upto_skeptic obs hyp sk)\<lparr>ca_research := Some pl\<rparr>) c"
    and "sk_verdict sk = PROCEED"
  shows "good rn c r c'"
proof -
  let ?a = "(upto_skeptic obs hyp sk)\<lparr>ca_research := Some pl\<rparr>"
  obtain x c1 where 1: "in_sys (in_world (try_except (rn_backtest rn pl))) c = (Inr x, c1)" and
    2: "(case x of Inl e \<Rightarrow> finalize_cycle rn \<lparr>ha_kind = HALT_AGENT_FAILED,
           ha_reason = ''backtest_executor: '' @ rn_exn_text rn e\<rparr>
       | Inr bt \<Rightarrow> seq (put_artifacts (ca_backtest_update (\<lambda>_. Some bt)))
           (\<lambda>_. seq (go AUDITING) (\<lambda>_. auditor_phase rn hyp bt))) c1 = (Inr r, c')"
    using assms(1) unfolding backtest_phase_def by (elim seq_Inr_cases)
  have ok: "ctx_ok rn c" using assms(2) by (simp add: at_phase_def)
  have a1: "advance rn c c1" "\<exists>s'. c1 = c\<lparr>rc_sys := s'\<rparr>" using world_advance [OF 1 ok] by auto
  then have at: "at_phase rn RESEARCHING ?a c1"
    using assms(2) advance_ok [OF a1(1)] by (auto simp: at_phase_def)
  have "good rn c1 r c'"
  proof (cases x)
    case (Inl e)
    with 2 show ?thesis using at assms(3)
      by (intro finalize_good) (auto simp: at_phase_def artifact_shapes)
  next
    case (Inr bt)
    let ?c = "c1\<lparr>rc_artifacts := (rc_artifacts c1)\<lparr>ca_backtest := Some bt\<rparr>\<rparr>"
    from 2 Inr have 3: "seq (go AUDITING) (\<lambda>_. auditor_phase rn hyp bt) ?c = (Inr r, c')"
      by (simp add: put_artifacts_def seq_apply [of "modify _"])
    have "at_phase rn RESEARCHING (?a\<lparr>ca_backtest := Some bt\<rparr>) ?c"
      using at by (auto simp: at_phase_def ctx_ok_def)
    then have "good rn ?c r c'"
      by (rule go_phase [OF 3]) (use auditor_phase_good [OF _ _ assms(3)] in simp_all)
    then show ?thesis by (simp add: good_def ending_def)
  qed
  with a1(1) show ?thesis by (rule good_advance)
qed

lemma skeptic_phase_good:
  assumes "skeptic_phase rn hyp c = (Inr r, c')"
    and "at_phase rn SCRUTINIZING (no_artifacts\<lparr>ca_observer := Some obs, ca_hypothesis := Some hyp\<rparr>) c"
   
  shows "good rn c r c'"
proof (rule agent_phase_good [OF assms(1) [unfolded skeptic_phase_def] assms(2)])
  fix sk c1
  assume run: "(if sk_verdict sk \<noteq> PROCEED then complete_cycle rn SCRUTINIZING
           else seq (go RESEARCHING) (\<lambda>_. research_phase rn hyp sk)) c1 = (Inr r, c')"
    and "at_phase rn SCRUTINIZING (ca_skeptic_update (\<lambda>_. Some sk)
       (no_artifacts\<lparr>ca_observer := Some obs, ca_hypothesis := Some hyp\<rparr>)) c1"
  then have at: "at_phase rn SCRUTINIZING (upto_skeptic obs hyp sk) c1" by (simp add: upto_skeptic_def)
  show "good rn c1 r c'"
  proof (cases "sk_verdict sk = PROCEED")
    case False
    with run have 1: "complete_cycle rn SCRUTINIZING c1 = (Inr r, c')" by simp
    show ?thesis
      by (rule complete_good [OF 1 at]) (use False in \<open>simp_all add: artifact_shapes terminal_ok_def Let_def\<close>)
  next
    case True
    with run have 1: "seq (go RESEARCHING) (\<lambda>_. research_phase rn hyp sk) c1 = (Inr r, c')" by simp
    show ?thesis
    proof (rule go_phase [OF 1 at])
      fix c2
      assume run: "research_phase rn hyp sk c2 = (Inr r, c')"
        and at: "at_phase rn RESEARCHING (upto_skeptic obs hyp sk) c2"
      show "good rn c2 r c'"
      proof (rule agent_phase_good [OF run [unfolded research_phase_def] at])
        fix pl c3
        assume run: "backtest_phase rn hyp pl c3 = (Inr r, c')"
          and at: "at_phase rn RESEARCHING (ca_research_update (\<lambda>_. Some pl) (upto_skeptic obs hyp sk)) c3"
        show "good rn c3 r c'"
          by (rule backtest_phase_good [OF run _ True]) (use at in simp)
      qed (simp_all add: artifact_shapes)
    qed simp
  qed
qed (simp_all add: artifact_shapes)

lemma observer_phase_good:
  assumes "observer_phase rn input c = (Inr r, c')" and "at_phase rn OBSERVING no_artifacts c"
   
  shows "good rn c r c'"
proof (rule agent_phase_good [OF assms(1) [unfolded observer_phase_def] assms(2)])
  fix obs c1
  assume run: "seq (go HYPOTHESIZING) (\<lambda>_. hypothesis_phase rn obs) c1 = (Inr r, c')"
    and at: "at_phase rn OBSERVING (ca_observer_update (\<lambda>_. Some obs) no_artifacts) c1"
  show "good rn c1 r c'"
  proof (rule go_phase [OF run at])
    fix c2
    assume run: "hypothesis_phase rn obs c2 = (Inr r, c')"
      and at: "at_phase rn HYPOTHESIZING (ca_observer_update (\<lambda>_. Some obs) no_artifacts) c2"
    show "good rn c2 r c'"
    proof (rule agent_phase_good [OF run [unfolded hypothesis_phase_def] at])
      fix hyp c3
      assume run: "seq (go SCRUTINIZING) (\<lambda>_. skeptic_phase rn hyp) c3 = (Inr r, c')"
        and at: "at_phase rn HYPOTHESIZING (ca_hypothesis_update (\<lambda>_. Some hyp)
          (ca_observer_update (\<lambda>_. Some obs) no_artifacts)) c3"
      show "good rn c3 r c'"
        by (rule go_phase [OF run at]) (use skeptic_phase_good in simp_all)
    qed (simp_all add: artifact_shapes)
  qed simp
qed (simp_all add: artifact_shapes)

lemma resolver_phase_ok:
  assumes "resolver_phase rn input c = (Inr u, c')" and "ctx_ok rn c"
  shows "advance rn c c' \<and> (\<exists>s'. c' = c\<lparr>rc_sys := s'\<rparr>)"
proof (cases "rn_resolver rn")
  case None
  with assms show ?thesis by (auto simp: resolver_phase_def advance_refl intro: exI [of _ "rc_sys c"])
next
  case (Some resolve)
  let ?log = "\<lambda>r. log_event rn (identifier_resolved_event (rn_env rn) (cycle_id rn)
           (ir_input_ticker r) (ir_issuer_id r) (ir_matched_kind r))"
  from assms(1) Some obtain rs c1 where 1: "in_sys (in_world (resolve input)) c = (Inr rs, c1)"
    and 2: "for_each ?log rs c1 = (Inr u, c')"
    by (auto simp: resolver_phase_def elim!: seq_Inr_cases)
  have loop: "for_each ?log rs d = (Inr u, d') \<Longrightarrow> ctx_ok rn d \<Longrightarrow> advance rn d d' \<and> (\<exists>s'. d' = d\<lparr>rc_sys := s'\<rparr>)"
    for rs d d'
  proof (induction rs arbitrary: d)
    case Nil
    then show ?case by (auto simp: advance_refl intro: exI [of _ "rc_sys d"])
  next
    case (Cons x rs)
    from Cons.prems(1) obtain v d1 where a: "?log x d = (Inr v, d1)" and b: "for_each ?log rs d1 = (Inr u, d')"
      by (auto elim!: seq_Inr_cases)
    have 1: "advance rn d d1 \<and> (\<exists>s'. d1 = d\<lparr>rc_sys := s'\<rparr>)"
      by (rule log_plain_advance [OF a [unfolded identifier_resolved_event_def] _ Cons.prems(2)])
        (simp add: plain_kind_def)
    then have "advance rn d1 d' \<and> (\<exists>s'. d' = d1\<lparr>rc_sys := s'\<rparr>)" using Cons.IH [OF b] advance_ok by blast
    with 1 show ?case using advance_trans by fastforce
  qed
  have a1: "advance rn c c1 \<and> (\<exists>s'. c1 = c\<lparr>rc_sys := s'\<rparr>)" using world_advance [OF 1 assms(2)] .
  then have "advance rn c1 c' \<and> (\<exists>s'. c' = c1\<lparr>rc_sys := s'\<rparr>)" using loop [OF 2] advance_ok by blast
  with a1 show ?thesis using advance_trans by fastforce
qed

lemma run_cycle_good:
  assumes "run_cycle rn input s = (Inr r, s')" and "0 < cb_token_cap (rn_budget rn)"
    and "pred_option (port_ok (el_listeners (sys_log s)) (cycle_id rn)) (rn_broker rn)"
   
  shows "result_ok rn r \<and> cy_cycle_id r = cycle_id rn \<and>
    (\<exists>start mid e fin. log_grows (sys_log s) (start # mid @ [e]) (sys_log s') \<and>
      ev_kind start = CYCLE_STARTED \<and> ev_cycle start = cycle_id rn \<and>
      tells (cycle_id rn) IDLE mid fin \<and> closing r fin e)"
proof -
  define g where "g = new_guard (rn_budget rn) True (fst (rn_clock rn (sys_world s)))"
  define s0 where "s0 = s\<lparr>sys_world := snd (rn_clock rn (sys_world s))\<rparr>"
  have "sys_log s0 = sys_log s" by (simp add: s0_def)
  note s0 = this and g = g_def
  have "in_world (start_guard (rn_clock rn) (rn_budget rn) True) s = (Inr g, s0)"
    by (simp add: in_world_def start_guard_def zoom_def seq_apply call_def split_beta g_def s0_def)
  with assms(1) have split: "(case run_phases rn input (start_context rn g s0) of (r, c) \<Rightarrow> (r, rc_sys c)) = (Inr r, s')"
    by (simp add: run_cycle_def seq_apply)
  obtain q c' where "run_phases rn input (start_context rn g s0) = (q, c')" by fastforce
  with split have run: "run_phases rn input (start_context rn g s0) = (Inr r, c')" and s': "s' = rc_sys c'"
    by simp_all
  let ?c = "start_context rn g s0"
  from run obtain u c1 v where 1: "log_event rn (cycle_started_event (rn_env rn) (cycle_id rn) None) ?c = (Inr u, c1)"
    and 2: "seq (go OBSERVING) (\<lambda>_. seq (resolver_phase rn input) (\<lambda>_. observer_phase rn input)) c1 = (Inr r, c')"
    unfolding run_phases_def by (rule seq_Inr_cases)
  obtain s1 start where st: "c1 = ?c\<lparr>rc_sys := s1\<rparr>" "log_grows (ctx_log ?c) [start] (sys_log s1)"
    "ev_kind start = CYCLE_STARTED" "ev_cycle start = cycle_id rn"
    using log_event_ok [OF 1 [unfolded cycle_started_event_def]] by blast
  have "el_listeners (sys_log s1) = el_listeners (sys_log s)"
    using log_grows_listeners [OF st(2)] by (simp add: start_context_def s0)
  then have at1: "at_phase rn IDLE no_artifacts c1"
    using assms(2,3) by (simp add: st(1) at_phase_def start_context_def ctx_ok_def g new_guard_def
        on_transition_def new_machine_def)
  have "good rn c1 r c'"
  proof (rule go_phase [OF 2 at1])
    fix c2
    assume "seq (resolver_phase rn input) (\<lambda>_. observer_phase rn input) c2 = (Inr r, c')"
      and at2: "at_phase rn OBSERVING no_artifacts c2"
    then obtain w c3 where 3: "resolver_phase rn input c2 = (Inr w, c3)" and 4: "observer_phase rn input c3 = (Inr r, c')"
      by (elim seq_Inr_cases)
    have a: "advance rn c2 c3 \<and> (\<exists>s'. c3 = c2\<lparr>rc_sys := s'\<rparr>)"
      by (rule resolver_phase_ok [OF 3]) (use at2 in \<open>simp add: at_phase_def\<close>)
    then have "at_phase rn OBSERVING no_artifacts c3"
      using at2 advance_ok by (auto simp: at_phase_def)
    with observer_phase_good [OF 4] a good_advance show "good rn c2 r c'" by blast
  qed simp
  then obtain mid e fin where res: "result_ok rn r" "cy_cycle_id r = cycle_id rn"
    and grow: "log_grows (ctx_log c1) (mid @ [e]) (ctx_log c')"
    and tell: "tells (cycle_id rn) (ctx_state c1) mid fin" "closing r fin e"
    by (auto simp: good_def ending_def)
  have "ctx_state c1 = IDLE" using at1 by (simp add: at_phase_def)
  moreover have "ctx_log ?c = sys_log s" by (simp add: start_context_def s0)
  then have "log_grows (sys_log s) ([start] @ mid @ [e]) (sys_log s')"
    using log_grows_trans [OF st(2), of "mid @ [e]" "ctx_log c'"] grow s' st(1) by simp
  ultimately show ?thesis using res tell st(3,4) by auto
qed

end
