(* ===== verification/Live_Laws.thy ===== *)
theory Live_Laws
  imports Live_Broker Cycle_Laws
begin

text \<open>
  The laws of the live broker: what an execution can change of the broker and of the log, when it
  reaches the venue, how a rejected batch is undone, and what any sequence of its operations keeps.
\<close>

section \<open>What an execution can change\<close>

text \<open>The flag, the cap, the loss, the client and the context are left alone, and the kill switch is
  never released.\<close>

definition spares :: "'x live \<Rightarrow> 'x live \<Rightarrow> bool" where
  "spares b b' \<longleftrightarrow> lb_cycle b' = lb_cycle b \<and> lb_enabled b' = lb_enabled b \<and> lb_client b' = lb_client b \<and>
     lb_cap b' = lb_cap b \<and> lb_loss b' = lb_loss b \<and> (lb_kill b \<longrightarrow> lb_kill b')"

lemma spares_simps [simp]:
  "spares b b" "spares b (b\<lparr>lb_paper := p\<rparr>)" "spares b (b\<lparr>lb_rest := x\<rparr>)"
  "spares b (b\<lparr>lb_journal := j\<rparr>)" "spares b (b\<lparr>lb_kill := True\<rparr>)"
  "spares b (b\<lparr>lb_rest := x, lb_journal := j\<rparr>)"
  by (simp_all add: spares_def)

locale live_invariant =
  fixes vn :: "'x venue" and P :: "'x live sys \<Rightarrow> bool"
  assumes world: "P s \<Longrightarrow> spares (sys_world s) b \<Longrightarrow> P (s\<lparr>sys_world := b\<rparr>)"
    and emits: "live_kind k \<Longrightarrow> lb_cycle (sys_world s) = Some cid \<Longrightarrow> P s \<Longrightarrow>
      P (snd (emit (lift_env (vn_env vn)) (build_event (lift_env (vn_env vn)) cid k p) s))"
begin

lemma world_keeps: "(\<And>b. spares b (snd (m b))) \<Longrightarrow> keeps P (in_world m)"
  by (simp add: keeps_def world)

lemma rest_keeps: "keeps P (in_world (in_rest m))"
  by (rule world_keeps) (simp add: in_rest_def)

lemma emit_keeps: "live_kind k \<Longrightarrow>
    keeps P (emit_live vn (\<lambda>cid. build_event (lift_env (vn_env vn)) cid k p))"
  by (auto simp: keeps_def emit_live_def seq_apply emits split: option.split)

lemma events_keep:
  "keeps P (emit_rejected vn d r)" "keeps P (emit_kill_switch vn r)" "keeps P (emit_submitted vn d ord key sd)"
  unfolding emit_rejected_def emit_kill_switch_def emit_submitted_def broker_live_rejected_event_def
    broker_live_kill_switch_event_def broker_live_submitted_event_def
  by (rule emit_keeps, simp add: live_kind_def)+

lemma kill_keeps: "keeps P set_kill"
  unfolding set_kill_def by (rule world_keeps) simp

lemma cancel_keeps: "keeps P (roll_back vn cl n)"
  unfolding roll_back_def
  by (auto intro!: keeps_intros rest_keeps kill_keeps events_keep split: sum.split py_exn.split)

lemma reject_keeps: "keeps P (reject_batch vn cl a f e n)"
  unfolding reject_batch_def Let_def by (intro keeps_intros cancel_keeps events_keep)

lemma journal_spares: "spares b (snd (journal_order vn a f key ord b))"
  by (auto simp: journal_order_def seq_apply in_rest_def in_live_journal_def split: option.split)

lemma booked_keeps: "keeps P (book_order vn a p f key ord)"
  unfolding book_order_def by (intro keeps_intros events_keep world_keeps journal_spares)

lemma submit_keeps: "keeps P (submit_fills vn cl a p fs n acc)"
proof (induction fs arbitrary: n acc)
  case (Cons f fs)
  have send: "keeps P (send_order vn cl f key)" for key
    unfolding send_order_def by (rule rest_keeps)
  show ?case
    by (auto intro!: keeps_intros send booked_keeps Cons.IH reject_keeps split: sum.split py_exn.split)
qed (simp add: keeps_intros)

lemma skip_keeps: "keeps P (skip_live vn a r)"
  unfolding skip_live_def by (intro keeps_intros events_keep)

lemma execute_keeps: "keeps P (execute_live vn a p)"
proof -
  have dry: "keeps P (in_world (in_paper m))" for m :: "(paper, execution_report) eff"
    by (rule world_keeps) (simp add: in_paper_def)
  show ?thesis
    unfolding execute_live_def
    by (intro keeps_intros skip_keeps dry submit_keeps)
qed

end

text \<open>Three invariants: the listeners of the log stay; a predicate of the broker that \<open>spares\<close> and
  the listeners keep; the log gains live events of the attached cycle only.\<close>

definition kept_by :: "('x live \<Rightarrow> bool) \<Rightarrow> bool" where
  "kept_by J \<longleftrightarrow> (\<forall>b b'. J b \<longrightarrow> spares b b' \<longrightarrow> J b')"

lemma kept_env: "kept_by J \<Longrightarrow> env_keeps J (lift_env env)"
  by (auto simp: env_keeps_def kept_by_def lift_env_def lift_fun_def split: prod.split)

definition bound_to :: "string \<Rightarrow> 'x live sys \<Rightarrow> 'x live sys \<Rightarrow> bool" where
  "bound_to cid s0 s \<longleftrightarrow> guarded (\<lambda>b. lb_cycle b = Some cid) s \<and> adds_live cid s0 s"

definition own_guard :: "('x live \<Rightarrow> bool) \<Rightarrow> 'x live sys \<Rightarrow> bool" where
  "own_guard J s \<longleftrightarrow> kept_by J \<and> guarded J s"

lemma emit_listeners: "el_listeners (sys_log (snd (emit env mk s))) = el_listeners (sys_log s)"
proof (cases "emit env mk s")
  case (Pair r t)
  then show ?thesis by (cases rule: emit_cases) (simp_all add: Pair)
qed

lemma emit_adds_live:
  assumes "live_kind k" and "adds_live cid s0 s"
  shows "adds_live cid s0 (snd (emit env (build_event env cid k p) s))"
proof (cases "emit env (build_event env cid k p) s")
  case (Pair r t)
  obtain es where es: "log_grows (sys_log s0) es (sys_log s)" "\<forall>e\<in>set es. ev_cycle e = cid \<and> live_kind (ev_kind e)"
    using assms(2) by (auto simp: adds_live_def)
  from Pair show ?thesis
  proof (cases rule: emit_cases)
    case (refused x)
    with assms(2) Pair show ?thesis by (simp add: adds_live_def)
  next
    case (emitted e)
    then have "ev_kind e = k \<and> ev_cycle e = cid"
      by (auto simp: build_event_def seq_apply new_event_id_def make_event_def split: if_splits)
    moreover have "log_grows (sys_log s0) (es @ [e]) (sys_log t)"
      using es(1) emitted(2) log_grows_trans [OF es(1) log_grows_record] by simp
    ultimately show ?thesis
      using es(2) assms(1) Pair unfolding adds_live_def by (intro exI [of _ "es @ [e]"]) auto
  qed
qed

interpretation steady: live_invariant vn "\<lambda>s. el_listeners (sys_log s) = ls" for vn ls
  by unfold_locales (simp_all add: emit_listeners)

interpretation own: live_invariant vn "own_guard J" for vn J
proof
  show "own_guard J (s\<lparr>sys_world := b\<rparr>)" if "own_guard J s" "spares (sys_world s) b" for s :: "'a live sys" and b
    using that by (auto simp: own_guard_def guarded_def kept_by_def)
  show "own_guard J (snd (emit (lift_env (vn_env vn)) (build_event (lift_env (vn_env vn)) cid k p) s))"
    if "own_guard J s" for s cid k p
    using that by (simp add: own_guard_def guarded_emitted kept_env)
qed

interpretation bound: live_invariant vn "bound_to cid s0" for vn cid s0
proof
  show "bound_to cid s0 (s\<lparr>sys_world := b\<rparr>)" if "bound_to cid s0 s" "spares (sys_world s) b" for s b
    using that by (auto simp: bound_to_def guarded_def spares_def adds_live_def)
next
  fix k p c
  fix s :: "'a live sys"
  assume k: "live_kind k" and c: "lb_cycle (sys_world s) = Some c" and b: "bound_to cid s0 s"
  have "c = cid" using b c by (simp add: bound_to_def guarded_def)
  moreover have "env_keeps (\<lambda>b. lb_cycle b = Some cid) (lift_env (vn_env vn))"
    by (rule kept_env) (simp add: kept_by_def spares_def)
  ultimately show "bound_to cid s0 (snd (emit (lift_env (vn_env vn)) (build_event (lift_env (vn_env vn)) c k p) s))"
    using b by (auto simp: bound_to_def intro!: guarded_emitted emit_adds_live k)
qed

section \<open>The port of a cycle\<close>

text \<open>The listeners leave the context of the broker alone.\<close>

definition contexts_kept :: "(cycle_event \<Rightarrow> ('x live, unit) eff) list \<Rightarrow> bool" where
  "contexts_kept ls \<longleftrightarrow> (\<forall>k\<in>set ls. \<forall>e c. keeps (\<lambda>b. lb_cycle b = c) (k e))"

lemma attach_ok:
  "attach_cycle_context cid s = (Inr u, t) \<Longrightarrow> lb_cycle (sys_world s) = None \<and>
     t = s\<lparr>sys_world := (sys_world s)\<lparr>lb_cycle := Some cid\<rparr>\<rparr>"
  by (auto simp: attach_cycle_context_def seq_apply split: if_splits)

lemma live_port_ok:
  assumes "contexts_kept ls"
  shows "port_ok ls cid (live_port vn)"
proof -
  have "adds_live cid s (detach_cycle_context s2)"
    if "el_listeners (sys_log s) = ls" "attach_cycle_context cid s = (Inr u, s1)"
      "execute_live vn a p s1 = (Inr r, s2)" for s s1 s2 :: "'a live sys" and u a p r
  proof -
    have "bound_to cid s s1"
      using assms that(1) attach_ok [OF that(2)]
      by (auto simp: bound_to_def guarded_def heard_def contexts_kept_def adds_live_def intro!: exI [of _ "[]"])
    from keepsD [OF bound.execute_keeps this that(3)] show ?thesis
      by (simp add: bound_to_def adds_live_def detach_cycle_context_def)
  qed
  then show ?thesis by (simp add: port_ok_def live_port_def) blast
qed

section \<open>Silence towards the venue\<close>

definition dry_run_fills :: "'x venue \<Rightarrow> feasible_action \<Rightarrow> prices \<Rightarrow> 'x live \<Rightarrow> bool" where
  "dry_run_fills vn a p b \<longleftrightarrow> (case fst (paper_execute (vn_fx vn) a p (lb_paper b)) of Inl _ \<Rightarrow> False
     | Inr r \<Rightarrow> xr_status r = EXEC_FILLED)"

definition may_trade :: "'x venue \<Rightarrow> feasible_action \<Rightarrow> prices \<Rightarrow> 'x live \<Rightarrow> bool" where
  "may_trade vn a p b \<longleftrightarrow> \<not> lb_kill b \<and> lb_enabled b \<and> lb_client b \<noteq> None \<and> dry_run_fills vn a p b"

text \<open>What is said of the outside alone.\<close>

abbreviation outside :: "('x \<Rightarrow> bool) \<Rightarrow> 'x live \<Rightarrow> bool" where
  "outside Q \<equiv> \<lambda>b. Q (lb_rest b)"

lemma outside_env: "env_keeps Q (vn_env vn) \<Longrightarrow> env_keeps (outside Q) (lift_env (vn_env vn))"
  by (simp add: env_keeps_def lift_env_def lift_fun_def split_beta)

lemma emit_live_guarded:
  "env_keeps Q (lift_env (vn_env vn)) \<Longrightarrow>
     keeps (guarded Q) (emit_live vn (\<lambda>cid. build_event (lift_env (vn_env vn)) cid k p))"
  by (auto simp: keeps_def emit_live_def seq_apply guarded_emitted split: option.split)

lemma skip_guarded:
  "env_keeps Q (lift_env (vn_env vn)) \<Longrightarrow> keeps (guarded Q) (skip_live vn a r)"
  unfolding skip_live_def emit_rejected_def broker_live_rejected_event_def
  by (intro keeps_intros emit_live_guarded)

lemma skip_status:
  "skip_live vn a r s = (Inr rep, t) \<Longrightarrow> xr_status rep = EXEC_SKIPPED \<and> xr_fills rep = [] \<and>
     xr_reason rep = Some (strip r)"
  by (auto simp: skip_live_def make_report_Inr elim!: seq_Inr_cases)

lemma execute_live_apply:
  "execute_live vn a p s = (let b = sys_world s in
     if lb_kill b then skip_live vn a ''kill switch engaged'' s
     else if \<not> lb_enabled b then skip_live vn a ''live orders disabled'' s
     else (case paper_execute (vn_fx vn) a p (lb_paper b) of
       (Inl e, pp) \<Rightarrow> (Inl e, s\<lparr>sys_world := b\<lparr>lb_paper := pp\<rparr>\<rparr>)
     | (Inr r, pp) \<Rightarrow> (let t = s\<lparr>sys_world := b\<lparr>lb_paper := pp\<rparr>\<rparr> in
         if xr_status r \<noteq> EXEC_FILLED then skip_live vn a (preflight_reason r) t
         else (case lb_client b of None \<Rightarrow> (Inl RuntimeError, t)
           | Some cl \<Rightarrow> submit_fills vn cl a p (xr_fills r) 0 [] t))))"
  unfolding execute_live_def
  by (simp add: seq_apply [of "gets _"] Let_def)
    (auto simp: seq_apply in_paper_def split: prod.split sum.split option.split)

lemma gate_closed:
  assumes "\<not> may_trade vn a p (sys_world s)" and "env_keeps Q (lift_env (vn_env vn))" and "guarded Q s"
    and "\<And>b pp. Q b \<Longrightarrow> Q (b\<lparr>lb_paper := pp\<rparr>)" and "execute_live vn a p s = (r, t)"
  shows "guarded Q t \<and> (\<forall>rep. r = Inr rep \<longrightarrow> xr_status rep = EXEC_SKIPPED \<and> xr_fills rep = [])"
proof -
  have skip: "guarded Q t \<and> (\<forall>rep. r = Inr rep \<longrightarrow> xr_status rep = EXEC_SKIPPED \<and> xr_fills rep = [])"
    if "skip_live vn a m s1 = (r, t)" "guarded Q s1" for m s1
    using that keepsD [OF skip_guarded [OF assms(2)]] skip_status by blast
  have paper: "guarded Q (s\<lparr>sys_world := (sys_world s)\<lparr>lb_paper := pp\<rparr>\<rparr>)" for pp
    using assms(3,4) by (simp add: guarded_def)
  show ?thesis
  proof (cases "lb_kill (sys_world s) \<or> \<not> lb_enabled (sys_world s)")
    case True
    then obtain m where "skip_live vn a m s = (r, t)"
      using assms(5) by (cases "lb_kill (sys_world s)") (auto simp: execute_live_apply Let_def)
    from skip [OF this assms(3)] show ?thesis .
  next
    case False
    obtain x pp where dry: "paper_execute (vn_fx vn) a p (lb_paper (sys_world s)) = (x, pp)" by fastforce
    let ?t = "s\<lparr>sys_world := (sys_world s)\<lparr>lb_paper := pp\<rparr>\<rparr>"
    show ?thesis
    proof (cases "\<exists>rep. x = Inr rep \<and> xr_status rep \<noteq> EXEC_FILLED")
      case True
      with False dry assms(5) obtain rep where "skip_live vn a (preflight_reason rep) ?t = (r, t)"
        by (auto simp: execute_live_apply Let_def)
      from skip [OF this paper] show ?thesis .
    next
      case no_skip: False
      then have "(\<exists>e. r = Inl e) \<and> t = ?t"
        using False dry assms(1,5)
        by (cases x) (auto simp: execute_live_apply Let_def may_trade_def dry_run_fills_def)
      with paper show ?thesis by auto
    qed
  qed
qed

section \<open>Undoing a rejected batch\<close>

text \<open>\<open>clean\<close> says of the venue that no order of the batch is live. A status from 400 on answers
  that the order was not taken; a transport failure answers nothing.\<close>

definition definite_refusal :: "http_outcome \<Rightarrow> bool" where
  "definite_refusal r = (case r of Transport_Error _ \<Rightarrow> False | Response st _ \<Rightarrow> 400 \<le> st)"

definition venue_laws :: "('x \<Rightarrow> bool) \<Rightarrow> 'x venue \<Rightarrow> bool" where
  "venue_laws clean vn \<longleftrightarrow> env_keeps clean (vn_env vn) \<and>
     (\<forall>url bd x. clean x \<longrightarrow> definite_refusal (fst (ht_post (vn_http vn) url bd x)) \<longrightarrow>
        clean (snd (ht_post (vn_http vn) url bd x))) \<and>
     (\<forall>url x. \<not> venue_refuses (fst (ht_delete (vn_http vn) url x)) \<longrightarrow> clean (snd (ht_delete (vn_http vn) url x)))"

definition undone :: "('x \<Rightarrow> bool) \<Rightarrow> 'x live \<Rightarrow> bool" where
  "undone clean b \<longleftrightarrow> clean (lb_rest b) \<or> lb_kill b"

definition doubtful_post :: "'x venue \<Rightarrow> alpaca_client \<Rightarrow> 'x \<Rightarrow> bool" where
  "doubtful_post vn cl x \<longleftrightarrow> (\<exists>bd. \<not> definite_refusal (fst (ht_post (vn_http vn) (orders_url cl) bd x)))"

lemma undone_env: "venue_laws clean vn \<Longrightarrow> env_keeps (undone clean) (lift_env (vn_env vn))"
  by (auto simp: venue_laws_def env_keeps_def lift_env_def lift_fun_def undone_def split_beta)

lemma emit_rejected_guarded:
  "env_keeps Q (lift_env (vn_env vn)) \<Longrightarrow> keeps (guarded Q) (emit_rejected vn d m)"
  unfolding emit_rejected_def broker_live_rejected_event_def by (rule emit_live_guarded)

lemma emit_kill_guarded:
  "env_keeps Q (lift_env (vn_env vn)) \<Longrightarrow> keeps (guarded Q) (emit_kill_switch vn m)"
  unfolding emit_kill_switch_def broker_live_kill_switch_event_def by (rule emit_live_guarded)

lemma roll_back_undone:
  assumes "roll_back vn cl n s = (Inr u, t)" and "0 < n" and "venue_laws clean vn"
    and "heard (undone clean) (sys_log s)"
  shows "guarded (undone clean) t"
proof -
  let ?x = "lb_rest (sys_world s)"
  obtain r x' where c: "cancel_all_orders (vn_http vn) cl ?x = (r, x')" by fastforce
  let ?s1 = "s\<lparr>sys_world := (sys_world s)\<lparr>lb_rest := x'\<rparr>\<rparr>"
  from assms(1,2) c have run: "(case r of Inr _ \<Rightarrow> ret ()
     | Inl (AlpacaError _) \<Rightarrow> seq set_kill (\<lambda>_. emit_kill_switch vn ''rollback_failed'')
     | Inl e \<Rightarrow> raise e) ?s1 = (Inr u, t)"
    by (cases r) (simp_all add: roll_back_def seq_apply [of "in_world _"] in_rest_def)
  show ?thesis
  proof (cases r)
    case (Inr v)
    then have "clean x'"
      using cancel_all_cases [OF c] assms(3)
      by (auto simp: venue_laws_def is_alpaca_error_def split: if_splits)
    with run Inr assms(4) show ?thesis by (auto simp: guarded_def undone_def)
  next
    case (Inl e)
    then have "is_alpaca_error r" using cancel_all_cases [OF c] by (auto split: if_splits)
    then obtain m where e: "e = AlpacaError m" using Inl by (cases e) (auto simp: is_alpaca_error_def)
    let ?s2 = "s\<lparr>sys_world := (sys_world s)\<lparr>lb_rest := x', lb_kill := True\<rparr>\<rparr>"
    have "emit_kill_switch vn ''rollback_failed'' ?s2 = (Inr u, t)"
      using run Inl e by (simp add: set_kill_def seq_apply [of "in_world _"])
    moreover have "guarded (undone clean) ?s2" using assms(4) by (simp add: guarded_def undone_def)
    ultimately show ?thesis using keepsD [OF emit_kill_guarded [OF undone_env [OF assms(3)]]] by blast
  qed
qed

lemma reject_batch_undone:
  assumes "reject_batch vn cl a f err n s = (Inr rep, t)" and "venue_laws clean vn"
    and "heard (undone clean) (sys_log s)" and "n = 0 \<longrightarrow> clean (lb_rest (sys_world s))"
  shows "guarded (undone clean) t"
proof -
  from assms(1) obtain u s1 m v where 1: "roll_back vn cl n s = (Inr u, s1)"
    and 2: "emit_rejected vn (fa_source_run_id a) m s1 = (Inr v, t)"
    by (auto simp: reject_batch_def Let_def elim!: seq_Inr_cases)
  have "guarded (undone clean) s1"
  proof (cases "n = 0")
    case True
    with 1 assms(3,4) show ?thesis by (simp add: roll_back_def guarded_def undone_def)
  next
    case False
    with roll_back_undone [OF 1 _ assms(2,3)] show ?thesis by simp
  qed
  from keepsD [OF emit_rejected_guarded [OF undone_env [OF assms(2)]] this 2] show ?thesis .
qed

lemma submit_rejected:
  assumes "submit_fills vn cl a p fs n acc s = (Inr rep, t)" and "xr_status rep = EXEC_REJECTED"
    and "venue_laws clean vn" and "heard (undone clean) (sys_log s)"
    and "n = 0 \<longrightarrow> clean (lb_rest (sys_world s))"
  shows "undone clean (sys_world t) \<or> n = 0 \<and> doubtful_post vn cl (lb_rest (sys_world s))"
  using assms
proof (induction fs arbitrary: n acc s)
  case Nil
  then show ?case by (auto simp: make_report_Inr)
next
  case (Cons f fs)
  show ?case
  proof (cases "fl_status f = FILL_FILLED")
    case False
    with Cons.prems(1) have "submit_fills vn cl a p fs n acc s = (Inr rep, t)" by simp
    from Cons.IH [OF this Cons.prems(2-5)] show ?thesis .
  next
    case True
    let ?key = "order_key vn a f (sys_world s)" and ?x = "lb_rest (sys_world s)"
    obtain r x' where so: "submit_order (vn_http vn) (vn_other vn) cl (fl_ticker f) (fl_quantity f) (fl_side f)
        (take client_id_truncation ?key) ''market'' ''day'' ?x = (r, x')" by fastforce
    let ?s1 = "s\<lparr>sys_world := (sys_world s)\<lparr>lb_rest := x'\<rparr>\<rparr>"
    have run: "(case r of
          Inr ord \<Rightarrow> seq (book_order vn a p f ?key ord) (\<lambda>lf. submit_fills vn cl a p fs (Suc n) (acc @ [lf]))
        | Inl (AlpacaError err) \<Rightarrow> reject_batch vn cl a f err n
        | Inl e \<Rightarrow> raise e) ?s1 = (Inr rep, t)"
      using Cons.prems(1) True so
      by (simp add: seq_apply [of "gets _"] seq_apply [of "in_world _"] send_order_def in_rest_def)
    show ?thesis
    proof (cases r)
      case (Inr ord)
      with run obtain lf s2 where 1: "book_order vn a p f ?key ord ?s1 = (Inr lf, s2)"
        and 2: "submit_fills vn cl a p fs (Suc n) (acc @ [lf]) s2 = (Inr rep, t)"
        by (auto elim!: seq_Inr_cases)
      have "el_listeners (sys_log s2) = el_listeners (sys_log ?s1)"
        using keepsD [OF steady.booked_keeps _ 1] by simp
      then have "heard (undone clean) (sys_log s2)" using Cons.prems(4) by (simp add: heard_def)
      from Cons.IH [OF 2 Cons.prems(2,3) this] show ?thesis by simp
    next
      case (Inl e)
      with run obtain err where e: "e = AlpacaError err"
        and rej: "reject_batch vn cl a f err n ?s1 = (Inr rep, t)" by (cases e) auto
      obtain bd where bd: "x' = snd (ht_post (vn_http vn) (orders_url cl) bd ?x)"
        using so Inl e submit_order_cases [of "take client_id_truncation ?key" "fl_quantity f" "vn_http vn" "vn_other vn" cl
          "fl_ticker f" "fl_side f" "''market''" "''day''" ?x]
        by (auto split: if_splits)
      show ?thesis
      proof (cases "n = 0 \<and> doubtful_post vn cl ?x")
        case False
        then have "n = 0 \<longrightarrow> clean x'"
          using Cons.prems(3,5) bd by (auto simp: venue_laws_def doubtful_post_def)
        then show ?thesis
          using reject_batch_undone [OF rej Cons.prems(3)] Cons.prems(4) by (simp add: guarded_def)
      qed blast
    qed
  qed
qed

lemma execute_rejected:
  assumes "execute_live vn a p s = (Inr rep, t)" and "xr_status rep = EXEC_REJECTED"
    and "venue_laws clean vn" and "heard (undone clean) (sys_log s)" and "clean (lb_rest (sys_world s))"
  shows "undone clean (sys_world t) \<or> (\<exists>cl. lb_client (sys_world s) = Some cl \<and>
    doubtful_post vn cl (lb_rest (sys_world s)))"
proof -
  have no_skip: "skip_live vn a m s1 \<noteq> (Inr rep, t)" for m s1
    using skip_status [of vn a m s1 rep t] assms(2) by auto
  obtain x pp where dry: "paper_execute (vn_fx vn) a p (lb_paper (sys_world s)) = (x, pp)" by fastforce
  let ?t = "s\<lparr>sys_world := (sys_world s)\<lparr>lb_paper := pp\<rparr>\<rparr>"
  from assms(1) dry no_skip obtain fs cl where cl: "lb_client (sys_world s) = Some cl"
    and run: "submit_fills vn cl a p fs 0 [] ?t = (Inr rep, t)"
    by (auto simp: execute_live_apply Let_def split: if_splits sum.splits option.splits)
  from submit_rejected [OF run assms(2,3)] assms(4,5) cl show ?thesis by simp
qed

end
