(* ===== verification/Cycle_Samples.thy ===== *)
theory Cycle_Samples
  imports Cycle_Runner Policy
begin

text \<open>
  A small runner on which the properties of a cycle are tried: every agent answers at once, the
  gateway lets the sample decision through, and the broker rejects every order, as on a day on
  which the market is closed. The world counts the calls of the broker.
\<close>

definition agent_metadata :: run_metadata where
  "agent_metadata = sample_metadata\<lparr>md_token_in := 2, md_token_out := 1\<rparr>"

definition answers :: "'o \<Rightarrow> ('i, 'o, 'w) agent" where
  "answers x = (\<lambda>_. ret \<lparr>ag_output = Some x, ag_error = None, ag_metadata = agent_metadata\<rparr>)"

definition fails :: "string \<Rightarrow> ('i, 'o, 'w) agent" where
  "fails e = (\<lambda>_. ret \<lparr>ag_output = None, ag_error = Some e, ag_metadata = agent_metadata\<rparr>)"

definition sample_input :: observer_input where
  "sample_input = \<lparr>oi_schema_version = 1, oi_universe = [''AAPL''], oi_as_of = Aware 0,
     oi_horizon_days = 30, oi_dimensions = [DIM_PRICES], oi_signals = []\<rparr>"

definition sample_observation :: observer_artifact where
  "sample_observation = \<lparr>oa_schema_version = 1, oa_metadata = agent_metadata, oa_universe = [''AAPL''],
     oa_as_of = Aware 0, oa_regime_summary = ''calm'', oa_snapshots = [], oa_news_themes = [],
     oa_macro_notes = [], oa_data_quality_notes = [], oa_signals = []\<rparr>"

definition sample_hypothesis :: hypothesis_card where
  "sample_hypothesis = \<lparr>hc_schema_version = 1, hc_metadata = agent_metadata, hc_status = DRAFT,
     hc_claim = ''AAPL drifts up'', hc_rationale = ''r'', hc_universe = [''AAPL''], hc_direction = LONG,
     hc_horizon_days = 30, hc_variables = [''v''], hc_acceptance = [\<lparr>cr_metric_path = ''m'',
       cr_op = ''>='', cr_threshold = Dec 1 0\<rparr>], hc_max_drawdown_pct = Dec 20 0,
     hc_expected_window_start = Aware 0, hc_expected_window_end = Aware 1\<rparr>"

definition sample_skeptic :: skeptic_report where
  "sample_skeptic = \<lparr>sk_schema_version = 1, sk_metadata = agent_metadata,
     sk_hypothesis_run_id = ''0123456789abcdef'', sk_verdict = PROCEED, sk_falsification_paths = [],
     sk_concerns = [], sk_summary = ''s''\<rparr>"

definition sample_plan :: research_plan where
  "sample_plan = \<lparr>rp_schema_version = 1, rp_metadata = agent_metadata,
     rp_hypothesis_run_id = ''0123456789abcdef'', rp_universe = [''AAPL''], rp_frequency = DAILY,
     rp_walk_forward = [\<lparr>wf_train_start = Aware 0, wf_train_end = Aware 1, wf_test_start = Aware 1,
       wf_test_end = Aware 2\<rparr>], rp_cost_model_bps = Dec 1 0, rp_slippage_bps = Dec 1 0, rp_seed = 7\<rparr>"

definition sample_backtest :: backtest_report where
  "sample_backtest = \<lparr>br_schema_version = 1, br_metadata = agent_metadata,
     br_plan_run_id = ''0123456789abcdef'', br_folds = [\<lparr>fm_fold_index = 0, fm_test_start = Aware 0,
       fm_test_end = Aware 1, fm_sharpe = Dec 1 0, fm_max_drawdown_pct = Dec 1 0, fm_turnover = Dec 1 0,
       fm_n_trades = 1, fm_pnl_usd = Dec 1 0\<rparr>],
     br_aggregate = \<lparr>ag_median_sharpe = Dec 1 0, ag_mean_sharpe = Dec 1 0, ag_worst_fold_sharpe = Dec 1 0,
       ag_median_max_drawdown_pct = Dec 1 0, ag_total_pnl_usd = Dec 1 0, ag_total_trades = 1\<rparr>\<rparr>"

definition sample_audit :: "audit_verdict \<Rightarrow> audit_report" where
  "sample_audit v = \<lparr>ar_schema_version = 1, ar_metadata = agent_metadata,
     ar_hypothesis_run_id = ''0123456789abcdef'', ar_backtest_run_id = ''0123456789abcdef'', ar_verdict = v,
     ar_checks = [\<lparr>ac_metric_path = ''m'', ac_op = ''>='', ac_threshold = Dec 1 0, ac_actual = None,
       ac_passed = (v = PASS)\<rparr>], ar_rationale = ''r''\<rparr>"

text \<open>The clock stands still; a token cap of 30 covers the six agents.\<close>

definition desk_env :: "'w env" where
  "desk_env = \<lparr>env_now = (\<lambda>w. (0, w)), env_token_hex = (\<lambda>w. (''0123456789abcdef'', w)),
     env_dump = ev_id, env_parse = (\<lambda>_. Inl ValueError)\<rparr>"

definition desk_budget :: cycle_budget where
  "desk_budget = \<lparr>cb_cycle_id = ''c'', cb_token_cap = 30, cb_wallclock_cap = 5\<rparr>"

definition desk_config :: gateway_config where
  "desk_config = sample_config\<lparr>gc_denied := [], gc_realized_loss := dzero\<rparr>"

definition closed_market :: "feasible_action \<Rightarrow> prices \<Rightarrow> (nat, execution_report) eff" where
  "closed_market a p = (\<lambda>n. (Inr \<lparr>xr_source_run_id = fa_source_run_id a, xr_status = EXEC_REJECTED,
     xr_fills = [], xr_reason = Some ''market closed''\<rparr>, Suc n))"

definition office :: "'w env \<Rightarrow> 'w broker_port \<Rightarrow> audit_verdict \<Rightarrow> 'w runner" where
  "office env b v = \<lparr>rn_env = env, rn_fx = py_ctx, rn_exn_text = (\<lambda>_. ''boom''),
     rn_observer = answers sample_observation, rn_hypothesis = answers sample_hypothesis,
     rn_skeptic = answers sample_skeptic, rn_research = answers sample_plan,
     rn_auditor = answers (sample_audit v), rn_decider = answers sample_decision,
     rn_backtest = (\<lambda>_. ret sample_backtest), rn_budget = desk_budget, rn_clock = (\<lambda>w. (0, w)),
     rn_store = None, rn_gateway = Some desk_config, rn_broker = Some b,
     rn_prices = Some (\<lambda>_. ret []), rn_resolver = None\<rparr>"

definition desk :: "audit_verdict \<Rightarrow> nat runner" where
  "desk = office desk_env (Plain_Broker closed_market)"

definition desk_sys :: "nat sys" where
  "desk_sys = \<lparr>sys_log = new_log False None, sys_world = 0\<rparr>"

end
