(* ===== verification/Cycle_Total.thy ===== *)
theory Cycle_Total
  imports Cycle_Laws Cycle_Samples
begin

text \<open>
  A run returns a result: when nothing the runner calls raises, no guard, validator or transition
  of the cycle does. \<open>Q\<close> is what the callables keep of the world; it says that the clock has
  passed the start \<open>t0\<close> of the run. A callable need only return on what its suppliers hand it: a
  contract says what each agent, and the backtest executor, may put out.
\<close>

section \<open>What the callables promise\<close>

record cycle_contract =
  ct_input :: "observer_input \<Rightarrow> bool"
  ct_observation :: "observer_artifact \<Rightarrow> bool"
  ct_hypothesis :: "hypothesis_card \<Rightarrow> bool"
  ct_skeptic :: "skeptic_report \<Rightarrow> bool"
  ct_plan :: "research_plan \<Rightarrow> bool"
  ct_backtest :: "backtest_report \<Rightarrow> bool"
  ct_audit :: "audit_report \<Rightarrow> bool"

definition open_contract :: cycle_contract where
  "open_contract = \<lparr>ct_input = (\<lambda>_. True), ct_observation = (\<lambda>_. True), ct_hypothesis = (\<lambda>_. True),
     ct_skeptic = (\<lambda>_. True), ct_plan = (\<lambda>_. True), ct_backtest = (\<lambda>_. True), ct_audit = (\<lambda>_. True)\<rparr>"

definition research_fits :: "cycle_contract \<Rightarrow> research_input \<Rightarrow> bool" where
  "research_fits K x \<longleftrightarrow> ct_hypothesis K (ri_hypothesis x) \<and> ct_skeptic K (ri_skeptic x)"

definition auditor_fits :: "cycle_contract \<Rightarrow> auditor_input \<Rightarrow> bool" where
  "auditor_fits K x \<longleftrightarrow> ct_hypothesis K (ai_hypothesis x) \<and> ct_backtest K (ai_backtest x)"

definition decider_fits :: "cycle_contract \<Rightarrow> decider_input \<Rightarrow> bool" where
  "decider_fits K x \<longleftrightarrow> ct_hypothesis K (di_hypothesis x) \<and> ct_backtest K (di_backtest x) \<and> ct_audit K (di_audit x)"

definition sys_ok :: "'w env \<Rightarrow> ('w \<Rightarrow> bool) \<Rightarrow> 'w sys \<Rightarrow> bool" where
  "sys_ok env Q s \<longleftrightarrow> calm env (sys_log s) \<and> (\<forall>k\<in>set (el_listeners (sys_log s)). \<forall>e. keeps Q (k e)) \<and>
     Q (sys_world s)"

definition tame_agent :: "('w \<Rightarrow> bool) \<Rightarrow> ('i \<Rightarrow> bool) \<Rightarrow> ('o \<Rightarrow> bool) \<Rightarrow> ('i, 'o, 'w) agent \<Rightarrow> bool" where
  "tame_agent Q takes good_out agent \<longleftrightarrow> (\<forall>x w. takes x \<and> Q w \<longrightarrow> (\<exists>res w'. agent x w = (Inr res, w') \<and> Q w' \<and>
     0 \<le> md_token_in (ag_metadata res) \<and> 0 \<le> md_token_out (ag_metadata res) \<and>
     pred_option good_out (ag_output res)))"

definition tame_port :: "'w env \<Rightarrow> ('w \<Rightarrow> bool) \<Rightarrow> 'w broker_port \<Rightarrow> bool" where
  "tame_port env Q b = (case b of
     Plain_Broker ex \<Rightarrow> \<forall>a p. total Q (ex a p)
   | Live_Broker att ex det \<Rightarrow> \<forall>cid a p. id_ok cid \<longrightarrow>
       total (sys_ok env Q) (seq (att cid) (\<lambda>_. finally_do (ex a p) det)))"

definition gateway_accepts :: "'w runner \<Rightarrow> strategy_decision \<Rightarrow> bool" where
  "gateway_accepts rn d \<longleftrightarrow> pred_option (\<lambda>cfg. is_ok (apply_policy_gateway (rn_fx rn) d cfg)) (rn_gateway rn)"

definition tame :: "cycle_contract \<Rightarrow> 'w runner \<Rightarrow> int \<Rightarrow> ('w \<Rightarrow> bool) \<Rightarrow> bool" where
  "tame K rn t0 Q \<longleftrightarrow> budget_ok (rn_budget rn) \<and> env_keeps Q (rn_env rn) \<and>
     (\<forall>w. Q w \<longrightarrow> t0 \<le> fst (rn_clock rn w) \<and> Q (snd (rn_clock rn w))) \<and>
     tame_agent Q (ct_input K) (ct_observation K) (rn_observer rn) \<and>
     tame_agent Q (ct_observation K) (ct_hypothesis K) (rn_hypothesis rn) \<and>
     tame_agent Q (ct_hypothesis K) (ct_skeptic K) (rn_skeptic rn) \<and>
     tame_agent Q (research_fits K) (ct_plan K) (rn_research rn) \<and>
     tame_agent Q (auditor_fits K) (ct_audit K) (rn_auditor rn) \<and>
     tame_agent Q (decider_fits K) (gateway_accepts rn) (rn_decider rn) \<and>
     (\<forall>p. keeps Q (rn_backtest rn p)) \<and>
     (\<forall>p w r w'. ct_plan K p \<and> Q w \<and> rn_backtest rn p w = (Inr r, w') \<longrightarrow> ct_backtest K r) \<and>
     pred_option (\<lambda>f. \<forall>a. keeps Q (f a)) (rn_prices rn) \<and>
     (rn_prices rn \<noteq> None \<longrightarrow> pred_option (tame_port (rn_env rn) Q) (rn_broker rn)) \<and>
     pred_option (\<lambda>f. \<forall>r es. total Q (f r es)) (rn_store rn) \<and>
     pred_option (\<lambda>f. \<forall>x. total Q (f x)) (rn_resolver rn)"

section \<open>Effects on the log and the world\<close>

lemma total_in_world [total_intros]: "total Q m \<Longrightarrow> total (sys_ok env Q) (in_world m)"
  by (force simp: total_def sys_ok_def)

lemma total_emit:
  assumes "env_keeps Q env" and "id_ok cid"
  shows "total (sys_ok env Q) (emit env (build_event env cid k p))"
proof (rule totalI)
  fix s
  assume ok: "sys_ok env Q s"
  let ?r = "emit env (build_event env cid k p) s"
  have "calm env (sys_log s)" using ok by (simp add: sys_ok_def)
  from emit_calm [OF this assms(2)] obtain e where
    e: "fst ?r = Inr ()" "log_grows (sys_log s) [e] (sys_log (snd ?r))" by blast
  have world: "Q (snd (build_event env cid k p (sys_world s)))"
    using assms(1) ok by (auto simp: env_keeps_def sys_ok_def build_event_def new_event_id_def seq_apply)
  have "keeps Q (notify (el_listeners (sys_log s)) x)" for x
    using ok by (intro keeps_notify) (simp add: sys_ok_def)
  with world have "Q (sys_world (snd ?r))"
    by (auto simp: emit_def seq_apply append_event_apply keeps_def split: prod.splits sum.splits)
  then have "sys_ok env Q (snd ?r)"
    using ok e(2) calm_log_grows by (auto simp: sys_ok_def log_grows_def)
  with e(1) show "\<exists>x t. ?r = (Inr x, t) \<and> sys_ok env Q t" by (metis prod.collapse)
qed

section \<open>The context of a run\<close>

definition live_ctx :: "'w runner \<Rightarrow> int \<Rightarrow> ('w \<Rightarrow> bool) \<Rightarrow> 'w run_ctx \<Rightarrow> bool" where
  "live_ctx rn t0 Q c \<longleftrightarrow> sys_ok (rn_env rn) Q (rc_sys c) \<and>
     sm_listeners (rc_machine c) = [emit_state_transition rn] \<and>
     bg_budget (rc_guard c) = rn_budget rn \<and> bg_started (rc_guard c) = t0 \<and> 0 \<le> bg_tokens (rc_guard c)"

lemma tame_id: "tame K rn t0 Q \<Longrightarrow> id_ok (cycle_id rn)"
  by (simp add: tame_def budget_ok_def cycle_id_def)

lemma live_in_sys: "total (sys_ok (rn_env rn) Q) m \<Longrightarrow> total (live_ctx rn t0 Q) (in_sys m)"
  by (force simp: total_def live_ctx_def)

lemma tame_env: "tame K rn t0 Q \<Longrightarrow> env_keeps Q (rn_env rn)"
  by (simp add: tame_def)

lemma live_log_event:
  assumes "tame K rn t0 Q"
  shows "total (live_ctx rn t0 Q) (log_event rn (build_event (rn_env rn) (cycle_id rn) k p))"
  unfolding log_event_def by (rule live_in_sys [OF total_emit [OF tame_env [OF assms] tame_id [OF assms]]])

lemma live_put: "total (live_ctx rn t0 Q) (put_artifacts f)"
  unfolding put_artifacts_def by (rule total_modify) (simp add: live_ctx_def)

lemma live_go:
  assumes "tame K rn t0 Q"
  shows "total (live_ctx rn t0 Q) (go t)"
proof -
  have em: "total (sys_ok (rn_env rn) Q) (notify [emit_state_transition rn] r)" for r
    using total_emit [OF tame_env [OF assms] tame_id [OF assms]]
    by (auto simp: notify_def emit_state_transition_def state_transition_event_def intro!: total_seq total_ret)
  have "total (live_ctx rn t0 Q) (in_machine (transition t))"
  proof (rule totalI)
    fix c
    assume c: "live_ctx rn t0 Q c"
    let ?m = "rc_machine c"
    let ?r = "\<lparr>st_src = sm_state ?m, st_dst = t\<rparr>"
    obtain u s' where "notify (sm_listeners ?m) ?r (rc_sys c) = (Inr u, s')" "sys_ok (rn_env rn) Q s'"
      using totalD [OF em, of "rc_sys c" ?r] c by (auto simp: live_ctx_def)
    then show "\<exists>x c'. in_machine (transition t) c = (Inr x, c') \<and> live_ctx rn t0 Q c'"
      using c by (auto simp: in_machine_def transition_def Let_def live_ctx_def)
  qed
  then show ?thesis unfolding go_def by (intro total_seq total_ret)
qed

lemma total_gets_use: "(\<And>s. P s \<Longrightarrow> total P (f (g s))) \<Longrightarrow> total P (seq (gets g) f)"
  by (rule total_seq_gets) (blast dest: totalD)

text \<open>The part of the context the budget guard acts on.\<close>

definition live_guard :: "'w runner \<Rightarrow> int \<Rightarrow> ('w \<Rightarrow> bool) \<Rightarrow> budget_guard \<times> 'w sys \<Rightarrow> bool" where
  "live_guard rn t0 Q gs \<longleftrightarrow> sys_ok (rn_env rn) Q (snd gs) \<and> bg_budget (fst gs) = rn_budget rn \<and>
     bg_started (fst gs) = t0 \<and> 0 \<le> bg_tokens (fst gs)"

lemma live_on_sys: "total (sys_ok (rn_env rn) Q) m \<Longrightarrow> total (live_guard rn t0 Q) (on_sys m)"
  by (force simp: total_def live_guard_def on_sys_def)

lemma live_breach:
  assumes "tame K rn t0 Q"
  shows "total (live_guard rn t0 Q) (emit_if_first_breach (rn_env rn) st)"
proof (unfold emit_if_first_breach_def, rule total_gets_use)
  fix gs
  assume "live_guard rn t0 Q gs"
  then have "cb_cycle_id (bg_budget (fst gs)) = cycle_id rn" by (simp add: live_guard_def cycle_id_def)
  moreover have "total (live_guard rn t0 Q) (on_sys (emit (rn_env rn) (build_event (rn_env rn) (cycle_id rn) k p)))" for k p
    by (rule live_on_sys [OF total_emit [OF tame_env [OF assms] tame_id [OF assms]]])
  moreover have "total (live_guard rn t0 Q) (modify (\<lambda>gs. ((fst gs)\<lparr>bg_emitted := True\<rparr>, snd gs)))"
    by (rule total_modify) (simp add: live_guard_def)
  ultimately show "total (live_guard rn t0 Q) (if bs_kind st = BUDGET_OK then ret ()
       else if bg_emitted (fst gs) \<or> \<not> bg_has_log (fst gs) then ret ()
       else seq (modify (\<lambda>gs. ((fst gs)\<lparr>bg_emitted := True\<rparr>, snd gs))) (\<lambda>_.
         if bs_kind st = TOKEN_EXCEEDED
         then on_sys (emit (rn_env rn) (budget_exceeded_event (rn_env rn) (cb_cycle_id (bg_budget (fst gs))) ''token''
                (bs_tokens st) (bs_token_cap st)))
         else on_sys (emit (rn_env rn) (budget_exceeded_event (rn_env rn) (cb_cycle_id (bg_budget (fst gs))) ''wallclock''
                (trunc_rat (bs_elapsed st)) (trunc_rat (bs_wallclock_cap st))))))"
    by (auto simp: budget_exceeded_event_def intro!: total_intros)
qed

lemma live_check:
  assumes "tame K rn t0 Q"
  shows "total (live_guard rn t0 Q) (check_budget (rn_env rn) (rn_clock rn))"
proof (rule totalI)
  fix gs
  assume gs: "live_guard rn t0 Q gs"
  obtain g s where g: "gs = (g, s)" by (cases gs)
  let ?now = "fst (rn_clock rn (sys_world s))" and ?s = "s\<lparr>sys_world := snd (rn_clock rn (sys_world s))\<rparr>"
  have clk: "t0 \<le> ?now" "live_guard rn t0 Q (g, ?s)"
    using gs assms by (auto simp: tame_def live_guard_def sys_ok_def g)
  have "0 \<le> elapsed_seconds g ?now"
    using gs clk(1) by (auto simp: elapsed_seconds_def total_seconds_def live_guard_def g intro!: fl64_nonneg)
  then obtain st where st: "make_budget_status (classify g (elapsed_seconds g ?now)) (bg_tokens g)
      (cb_token_cap (bg_budget g)) (elapsed_seconds g ?now) (cb_wallclock_cap (bg_budget g)) = Inr st"
    using gs assms by (auto simp: make_budget_status_def live_guard_def tame_def budget_ok_def g)
  obtain x t where "emit_if_first_breach (rn_env rn) st (g, ?s) = (Inr x, t)" "live_guard rn t0 Q t"
    using totalD [OF live_breach [OF assms] clk(2)] by blast
  then show "\<exists>x t. check_budget (rn_env rn) (rn_clock rn) gs = (Inr x, t) \<and> live_guard rn t0 Q t"
    by (simp add: check_budget_def seq_apply Let_def g st)
qed

lemma live_consume:
  assumes "tame K rn t0 Q" and "0 \<le> i" and "0 \<le> out"
  shows "total (live_ctx rn t0 Q) (in_guard (consume (rn_env rn) (rn_clock rn) i out))"
proof -
  have "total (live_guard rn t0 Q) (consume (rn_env rn) (rn_clock rn) i out)"
    using assms(2,3) live_check [OF assms(1)]
    by (auto simp: consume_def live_guard_def intro!: total_seq total_modify)
  then show ?thesis by (force simp: total_def in_guard_def live_guard_def live_ctx_def)
qed

section \<open>Agents and phases\<close>

lemma live_agent_result:
  assumes "tame K rn t0 Q" and "0 \<le> md_token_in meta" and "0 \<le> md_token_out meta"
  shows "total (live_ctx rn t0 Q) (agent_success rn nm sch rid meta out)"
    and "total (live_ctx rn t0 Q) (agent_failure rn nm rid res)"
  using live_log_event [OF assms(1)] live_consume [OF assms]
  by (auto simp: agent_success_def agent_failure_def agent_succeeded_event_def agent_failed_event_def
      live_ctx_def intro!: total_intros total_modify)

text \<open>A total effect whose results satisfy a predicate.\<close>

definition yields :: "('s \<Rightarrow> bool) \<Rightarrow> ('a \<Rightarrow> bool) \<Rightarrow> ('s, 'a) eff \<Rightarrow> bool" where
  "yields P G m \<longleftrightarrow> (\<forall>s. P s \<longrightarrow> (\<exists>x t. m s = (Inr x, t) \<and> P t \<and> G x))"

lemma yieldsI: "total P m \<Longrightarrow> (\<And>s x t. m s = (Inr x, t) \<Longrightarrow> G x) \<Longrightarrow> yields P G m"
  unfolding yields_def total_def by blast

lemma yields_seq: "total P m \<Longrightarrow> (\<And>x. yields P G (f x)) \<Longrightarrow> yields P G (seq m f)"
  unfolding yields_def total_def by (metis seq_ok)

lemma yields_bind: "yields P H m \<Longrightarrow> (\<And>x. H x \<Longrightarrow> yields P G (f x)) \<Longrightarrow> yields P G (seq m f)"
  unfolding yields_def by (metis seq_ok)

lemma total_bind: "yields P H m \<Longrightarrow> (\<And>x. H x \<Longrightarrow> total P (f x)) \<Longrightarrow> total P (seq m f)"
  unfolding yields_def total_def by (metis seq_ok)

definition good_outcome :: "('o \<Rightarrow> bool) \<Rightarrow> halt + 'o \<Rightarrow> bool" where
  "good_outcome okay x = (case x of Inl _ \<Rightarrow> True | Inr out \<Rightarrow> okay out)"

lemma live_call_agent:
  assumes t: "tame K rn t0 Q" and a: "tame_agent Q takes okay agent" and fit: "takes payload"
  shows "yields (live_ctx rn t0 Q) (good_outcome okay) (call_agent rn agent nm sch payload)"
proof -
  let ?tame = "\<lambda>res. 0 \<le> md_token_in (ag_metadata res) \<and> 0 \<le> md_token_out (ag_metadata res) \<and>
     pred_option okay (ag_output res)"
  have hex: "total (live_ctx rn t0 Q) (in_sys (in_world (call (env_token_hex (rn_env rn)))))"
    using tame_env [OF t] by (intro live_in_sys total_in_world total_call) (simp add: env_keeps_def)
  have ask: "yields (live_ctx rn t0 Q) ?tame (in_sys (in_world (agent payload)))"
    unfolding yields_def
  proof (intro allI impI)
    fix c
    assume c: "live_ctx rn t0 Q c"
    then obtain res w' where "agent payload (sys_world (rc_sys c)) = (Inr res, w')" "Q w'" "?tame res"
      using a fit unfolding tame_agent_def live_ctx_def sys_ok_def by blast
    with c show "\<exists>x t. in_sys (in_world (agent payload)) c = (Inr x, t) \<and> live_ctx rn t0 Q t \<and> ?tame x"
      by (simp add: live_ctx_def sys_ok_def)
  qed
  have result: "yields (live_ctx rn t0 Q) (good_outcome okay) (case ag_output res of
       None \<Rightarrow> agent_failure rn nm rid res
     | Some out \<Rightarrow> if agent_is_ok res then agent_success rn nm sch rid (ag_metadata res) out
                   else agent_failure rn nm rid res)" if "?tame res" for rid res
  proof (rule yieldsI)
    show "total (live_ctx rn t0 Q) (case ag_output res of
       None \<Rightarrow> agent_failure rn nm rid res
     | Some out \<Rightarrow> if agent_is_ok res then agent_success rn nm sch rid (ag_metadata res) out
                   else agent_failure rn nm rid res)"
      using that by (auto intro: live_agent_result [OF t] split: option.split)
  next
    fix s x t
    assume "(case ag_output res of None \<Rightarrow> agent_failure rn nm rid res
     | Some out \<Rightarrow> if agent_is_ok res then agent_success rn nm sch rid (ag_metadata res) out
                   else agent_failure rn nm rid res) s = (Inr x, t)"
    with that show "good_outcome okay x"
      by (auto simp: good_outcome_def agent_failure_def agent_success_def
          split: option.splits if_splits sum.split elim!: seq_Inr_cases)
  qed
  show ?thesis
    unfolding call_agent_def
    by (rule yields_seq [OF hex yields_seq [OF _ yields_bind [OF ask result]]])
      (use live_log_event [OF t] in \<open>simp_all add: agent_invoked_event_def\<close>)
qed

lemma live_persist:
  assumes "tame K rn t0 Q"
  shows "total (live_ctx rn t0 Q) (persist_if_configured rn r)"
  using assms by (auto simp: persist_if_configured_def tame_def split: option.split
      intro!: total_intros live_in_sys)

lemma live_finalize:
  assumes "tame K rn t0 Q"
  shows "total (live_ctx rn t0 Q) (finalize_cycle rn h)"
  unfolding finalize_cycle_def cycle_aborted_event_def Let_def
  by (intro total_seq total_gets total_ret live_go [OF assms] live_log_event [OF assms] live_persist [OF assms])

lemma live_complete:
  assumes "tame K rn t0 Q"
  shows "total (live_ctx rn t0 Q) (complete_cycle rn st)"
  unfolding complete_cycle_def cycle_completed_event_def Let_def
  by (intro total_seq total_gets total_ret live_go [OF assms] live_log_event [OF assms] live_persist [OF assms])

lemma live_agent_phase:
  assumes "tame K rn t0 Q" and "tame_agent Q takes okay agent" and "takes payload"
    and "\<And>out. okay out \<Longrightarrow> total (live_ctx rn t0 Q) (next_phase out)"
  shows "total (live_ctx rn t0 Q) (agent_phase rn (call_agent rn agent nm sch payload) store next_phase)"
  unfolding agent_phase_def
  by (rule total_bind [OF live_call_agent [OF assms(1-3)]])
    (auto simp: good_outcome_def intro!: live_finalize live_put total_seq assms split: sum.splits)

lemma live_try:
  assumes "keeps Q m"
  shows "total (live_ctx rn t0 Q) (in_sys (in_world (try_except m)))"
proof -
  have "total Q (try_except m)"
    using assms by (auto simp: total_def try_except_def keeps_def split: prod.split)
  then show ?thesis by (intro live_in_sys total_in_world)
qed

lemma in_sys_seq: "in_sys (seq m f) = seq (in_sys m) (\<lambda>x. in_sys (f x))"
  by (rule ext) (simp add: seq_apply split: prod.split sum.split)

lemma live_execute:
  assumes "tame K rn t0 Q" and "rn_broker rn = Some b" and "rn_prices rn = Some prov"
  shows "total (live_ctx rn t0 Q) (execute_with rn b a p)"
proof (cases b)
  case (Plain_Broker ex)
  with assms have "total Q (ex a p)" by (simp add: tame_def tame_port_def)
  then show ?thesis using live_log_event [OF assms(1)] live_put
    by (auto simp: execute_with_def Plain_Broker broker_executed_event_def intro!: total_seq live_in_sys total_in_world)
next
  case (Live_Broker att ex det)
  let ?unit = "seq (att (cycle_id rn)) (\<lambda>_. finally_do (ex a p) det)"
  from Live_Broker assms have "total (sys_ok (rn_env rn) Q) ?unit"
    using tame_id [OF assms(1)] by (auto simp: tame_def tame_port_def)
  then have "total (live_ctx rn t0 Q) (seq (in_sys ?unit) (\<lambda>r. put_artifacts (ca_execution_update (\<lambda>_. Some r))))"
    by (rule total_seq [OF live_in_sys live_put])
  then show ?thesis
    by (simp add: execute_with_def Live_Broker in_sys_seq seq_assoc)
qed

lemma live_broker_phase:
  assumes "tame K rn t0 Q"
  shows "total (live_ctx rn t0 Q) (broker_phase rn)"
proof -
  have "total (live_ctx rn t0 Q) (case (rn_broker rn, rn_prices rn, act) of
       (Some b, Some provider, Some action) \<Rightarrow>
         seq (in_sys (in_world (try_except (provider action)))) (\<lambda>p. case p of
           Inl e \<Rightarrow> finalize_cycle rn \<lparr>ha_kind = HALT_AGENT_FAILED, ha_reason = ''price_provider: '' @ rn_exn_text rn e\<rparr>
         | Inr prices \<Rightarrow> seq (execute_with rn b action prices) (\<lambda>_. complete_cycle rn DECIDING))
     | _ \<Rightarrow> complete_cycle rn DECIDING)" for act
  proof (cases "\<exists>b pr a. rn_broker rn = Some b \<and> rn_prices rn = Some pr \<and> act = Some a")
    case True
    then obtain b pr a where x: "rn_broker rn = Some b" "rn_prices rn = Some pr" "act = Some a" by blast
    then have "keeps Q (pr a)" using assms by (simp add: tame_def)
    then show ?thesis
      using live_execute [OF assms x(1,2)] live_complete [OF assms] live_finalize [OF assms]
      by (auto simp: x intro!: total_seq live_try split: sum.split)
  next
    case False
    then show ?thesis using live_complete [OF assms] by (auto split: option.split)
  qed
  then show ?thesis unfolding broker_phase_def by (intro total_seq total_gets)
qed

lemma live_gateway_phase:
  assumes "tame K rn t0 Q" and "gateway_accepts rn d"
  shows "total (live_ctx rn t0 Q) (gateway_phase rn d)"
proof (cases "rn_gateway rn")
  case None
  then show ?thesis using live_broker_phase [OF assms(1)] by (simp add: gateway_phase_def)
next
  case (Some cfg)
  with assms(2) obtain f where "apply_policy_gateway (rn_fx rn) d cfg = Inr f"
    by (auto simp: gateway_accepts_def is_ok_iff)
  with Some show ?thesis
    using live_broker_phase [OF assms(1)] live_log_event [OF assms(1)] live_put
    by (auto simp: gateway_phase_def policy_gateway_applied_event_def intro!: total_seq total_lift_res)
qed

lemma live_backtest:
  assumes "tame K rn t0 Q" and "ct_plan K plan"
  shows "yields (live_ctx rn t0 Q) (\<lambda>x. case x of Inl _ \<Rightarrow> True | Inr bt \<Rightarrow> ct_backtest K bt)
    (in_sys (in_world (try_except (rn_backtest rn plan))))"
  unfolding yields_def
proof (intro allI impI)
  fix c
  assume c: "live_ctx rn t0 Q c"
  let ?w = "sys_world (rc_sys c)"
  obtain r w' where r: "rn_backtest rn plan ?w = (r, w')" by (cases "rn_backtest rn plan ?w")
  have q: "Q ?w" using c by (simp add: live_ctx_def sys_ok_def)
  have keep: "keeps Q (rn_backtest rn plan)"
    and "\<forall>p w r w'. ct_plan K p \<and> Q w \<and> rn_backtest rn p w = (Inr r, w') \<longrightarrow> ct_backtest K r"
    using assms(1) unfolding tame_def by blast+
  with assms(2) q r have good: "\<And>bt. r = Inr bt \<Longrightarrow> ct_backtest K bt" by blast
  from keepsD [OF keep q r] good c r
  show "\<exists>x t. in_sys (in_world (try_except (rn_backtest rn plan))) c = (Inr x, t) \<and> live_ctx rn t0 Q t \<and>
      (case x of Inl _ \<Rightarrow> True | Inr bt \<Rightarrow> ct_backtest K bt)"
    by (auto simp: live_ctx_def sys_ok_def split: sum.split)
qed

lemma live_run_phases:
  assumes "tame K rn t0 Q" and "ct_input K input"
  shows "total (live_ctx rn t0 Q) (run_phases rn input)"
proof -
  note parts = live_agent_phase [OF assms(1)] live_go [OF assms(1)] live_complete [OF assms(1)]
    live_finalize [OF assms(1)] live_put live_gateway_phase [OF assms(1)] live_log_event [OF assms(1)]
  have ag: "tame_agent Q (ct_input K) (ct_observation K) (rn_observer rn)"
    "tame_agent Q (ct_observation K) (ct_hypothesis K) (rn_hypothesis rn)"
    "tame_agent Q (ct_hypothesis K) (ct_skeptic K) (rn_skeptic rn)"
    "tame_agent Q (research_fits K) (ct_plan K) (rn_research rn)"
    "tame_agent Q (auditor_fits K) (ct_audit K) (rn_auditor rn)"
    "tame_agent Q (decider_fits K) (gateway_accepts rn) (rn_decider rn)"
    using assms(1) by (simp_all add: tame_def)
  have decide: "total (live_ctx rn t0 Q) (decider_phase rn hyp bt au)"
    if "ct_hypothesis K hyp" "ct_backtest K bt" "ct_audit K au" for hyp bt au
    unfolding decider_phase_def
    by (rule parts(1) [OF ag(6)]) (use that in \<open>auto simp: decider_fits_def intro: parts(6)\<close>)
  have audit: "total (live_ctx rn t0 Q) (auditor_phase rn hyp bt)"
    if "ct_hypothesis K hyp" "ct_backtest K bt" for hyp bt
    unfolding auditor_phase_def
    by (rule parts(1) [OF ag(5)]) (use that in \<open>auto simp: auditor_fits_def intro!: total_seq parts decide\<close>)
  have test: "total (live_ctx rn t0 Q) (backtest_phase rn hyp pl)"
    if "ct_hypothesis K hyp" "ct_plan K pl" for hyp pl
    unfolding backtest_phase_def
    by (rule total_bind [OF live_backtest [OF assms(1) that(2)]])
      (use that(1) in \<open>auto intro!: total_seq parts audit split: sum.splits\<close>)
  have research: "total (live_ctx rn t0 Q) (research_phase rn hyp sk)"
    if "ct_hypothesis K hyp" "ct_skeptic K sk" for hyp sk
    unfolding research_phase_def
    by (rule parts(1) [OF ag(4)]) (use that in \<open>auto simp: research_fits_def intro: test\<close>)
  have skeptic: "total (live_ctx rn t0 Q) (skeptic_phase rn hyp)" if "ct_hypothesis K hyp" for hyp
    unfolding skeptic_phase_def
    by (rule parts(1) [OF ag(3) that]) (use that in \<open>auto intro!: total_seq parts research\<close>)
  have hypothesis: "total (live_ctx rn t0 Q) (hypothesis_phase rn obs)" if "ct_observation K obs" for obs
    unfolding hypothesis_phase_def by (rule parts(1) [OF ag(2) that]) (auto intro!: total_seq parts skeptic)
  have observer: "total (live_ctx rn t0 Q) (observer_phase rn input)"
    unfolding observer_phase_def by (rule parts(1) [OF ag(1) assms(2)]) (auto intro!: total_seq parts hypothesis)
  have resolve: "total (live_ctx rn t0 Q) (resolver_phase rn input)"
    using assms(1) by (auto simp: resolver_phase_def tame_def identifier_resolved_event_def
        intro!: total_intros live_in_sys parts assms(1) split: option.split)
  show ?thesis
    unfolding run_phases_def cycle_started_event_def by (intro total_seq parts resolve observer)
qed

lemma run_cycle_total:
  assumes "tame K rn t0 Q" and "t0 = fst (rn_clock rn (sys_world s))" and "Q (snd (rn_clock rn (sys_world s)))"
    and "calm (rn_env rn) (sys_log s)" and "\<forall>k\<in>set (el_listeners (sys_log s)). \<forall>e. keeps Q (k e)"
    and "ct_input K input"
  shows "\<exists>r s'. run_cycle rn input s = (Inr r, s')"
proof -
  let ?s = "s\<lparr>sys_world := snd (rn_clock rn (sys_world s))\<rparr>"
  let ?c = "start_context rn (new_guard (rn_budget rn) True t0) ?s"
  have "live_ctx rn t0 Q ?c"
    using assms(3-5) by (simp add: live_ctx_def start_context_def sys_ok_def new_guard_def
        on_transition_def new_machine_def)
  then obtain r c where "run_phases rn input ?c = (Inr r, c)"
    using totalD [OF live_run_phases [OF assms(1,6)]] by blast
  then show ?thesis
    by (simp add: run_cycle_def start_guard_def seq_apply assms(2))
qed

end
