(* ===== verification/Cycle_Safety.thy ===== *)
theory Cycle_Safety
  imports Cycle_Total
begin

text \<open>
  The broker is not reached before the policy gateway has been passed and logged: an invariant of
  the phases of a run that the calls before the broker keep.
\<close>

section \<open>What every call before the broker keeps\<close>

text \<open>\<open>S\<close> is a predicate on the log and the world that the calls of the cycle keep, brokers left
  out.\<close>

definition inert :: "'w runner \<Rightarrow> ('w sys \<Rightarrow> bool) \<Rightarrow> bool" where
  "inert rn S \<longleftrightarrow> (\<forall>cid k p. keeps S (emit (rn_env rn) (build_event (rn_env rn) cid k p))) \<and>
     keeps S (in_world (call (env_token_hex (rn_env rn)))) \<and> keeps S (in_world (call (rn_clock rn))) \<and>
     (\<forall>x. keeps S (in_world (rn_observer rn x))) \<and> (\<forall>x. keeps S (in_world (rn_hypothesis rn x))) \<and>
     (\<forall>x. keeps S (in_world (rn_skeptic rn x))) \<and> (\<forall>x. keeps S (in_world (rn_research rn x))) \<and>
     (\<forall>x. keeps S (in_world (rn_auditor rn x))) \<and> (\<forall>x. keeps S (in_world (rn_decider rn x))) \<and>
     (\<forall>x. keeps S (in_world (try_except (rn_backtest rn x)))) \<and>
     pred_option (\<lambda>f. \<forall>x. keeps S (in_world (try_except (f x)))) (rn_prices rn) \<and>
     pred_option (\<lambda>f. \<forall>r es. keeps S (in_world (f r es))) (rn_store rn) \<and>
     pred_option (\<lambda>f. \<forall>x. keeps S (in_world (f x))) (rn_resolver rn)"

lemma inert_emit: "inert rn S \<Longrightarrow> keeps S (emit (rn_env rn) (build_event (rn_env rn) cid k p))"
  by (simp add: inert_def)

definition ctx_inv :: "'w runner \<Rightarrow> ('w sys \<Rightarrow> bool) \<Rightarrow> (cycle_artifacts \<Rightarrow> bool) \<Rightarrow> 'w run_ctx \<Rightarrow> bool" where
  "ctx_inv rn S R c \<longleftrightarrow> S (rc_sys c) \<and> R (rc_artifacts c) \<and>
     sm_listeners (rc_machine c) = [emit_state_transition rn]"

lemma inv_in_sys: "keeps S m \<Longrightarrow> keeps (ctx_inv rn S R) (in_sys m)"
  by (auto simp: keeps_def ctx_inv_def)

lemma inv_log: "inert rn S \<Longrightarrow> keeps (ctx_inv rn S R) (log_event rn (build_event (rn_env rn) cid k p))"
  unfolding log_event_def by (intro inv_in_sys inert_emit)

lemma inv_put: "(\<And>a. R a \<Longrightarrow> R (f a)) \<Longrightarrow> keeps (ctx_inv rn S R) (put_artifacts f)"
  by (simp add: keeps_def put_artifacts_def ctx_inv_def)

lemma inv_modify_tokens:
  "keeps (ctx_inv rn S R) (modify (\<lambda>c. c\<lparr>rc_token_in := f c, rc_token_out := g c\<rparr>))"
  by (simp add: keeps_def ctx_inv_def)

lemma inv_go:
  assumes "inert rn S"
  shows "keeps (ctx_inv rn S R) (go t)"
proof -
  have em: "keeps S (notify [emit_state_transition rn] r)" for r
    using inert_emit [OF assms]
    by (auto simp: notify_def emit_state_transition_def state_transition_event_def intro!: keeps_intros)
  have "ctx_inv rn S R (snd (in_machine (transition t) c))" if "ctx_inv rn S R c" for c
    using em [of "\<lparr>st_src = ctx_state c, st_dst = t\<rparr>"] that
    by (auto simp: keeps_def ctx_inv_def in_machine_def transition_def Let_def split: prod.split sum.split)
  then show ?thesis unfolding go_def by (intro keeps_seq keeps_ret) (simp add: keeps_def)
qed

lemma inv_consume:
  assumes "inert rn S"
  shows "keeps (ctx_inv rn S R) (in_guard (consume (rn_env rn) (rn_clock rn) i out))"
proof -
  let ?G = "\<lambda>gs. S (snd gs)"
  have sysm: "keeps ?G (on_sys m)" if "keeps S m" for m :: "('a sys, 'b) eff"
    using that by (simp add: keeps_def on_sys_def)
  have "keeps S (in_world (call (rn_clock rn)))" using assms by (simp add: inert_def)
  then have "keeps ?G (consume (rn_env rn) (rn_clock rn) i out)"
    using inert_emit [OF assms]
    by (auto simp: consume_def check_budget_def emit_if_first_breach_def budget_exceeded_event_def Let_def
        intro!: keeps_intros keeps_modify sysm)
  then show ?thesis by (simp add: keeps_def ctx_inv_def in_guard_def)
qed

lemma inv_call_agent:
  assumes "inert rn S" and "\<And>x. keeps S (in_world (agent x))"
  shows "keeps (ctx_inv rn S R) (call_agent rn agent nm sch payload)"
proof -
  have "keeps S (in_world (call (env_token_hex (rn_env rn))))" using assms(1) by (simp add: inert_def)
  then show ?thesis
    using assms inv_log [OF assms(1)] inv_consume [OF assms(1)]
    by (auto simp: call_agent_def agent_failure_def agent_success_def agent_invoked_event_def
        agent_failed_event_def agent_succeeded_event_def
        intro!: keeps_intros inv_in_sys inv_modify_tokens split: option.split)
qed

lemma inv_persist:
  assumes "inert rn S"
  shows "keeps (ctx_inv rn S R) (persist_if_configured rn r)"
  using assms by (auto simp: persist_if_configured_def inert_def intro!: keeps_intros inv_in_sys split: option.split)

lemma inv_complete:
  assumes "inert rn S"
  shows "keeps (ctx_inv rn S R) (complete_cycle rn st)"
  unfolding complete_cycle_def cycle_completed_event_def Let_def
  by (intro keeps_intros inv_go inv_log inv_persist assms)

lemma inv_finalize:
  assumes "inert rn S"
  shows "keeps (ctx_inv rn S R) (finalize_cycle rn h)"
  unfolding finalize_cycle_def cycle_aborted_event_def Let_def
  by (intro keeps_intros inv_go inv_log inv_persist assms)

section \<open>From one invariant to a weaker one\<close>

definition leads :: "('s \<Rightarrow> bool) \<Rightarrow> ('s \<Rightarrow> bool) \<Rightarrow> ('s, 'a) eff \<Rightarrow> bool" where
  "leads P P' m \<longleftrightarrow> (\<forall>s. P s \<longrightarrow> P' (snd (m s)))"

lemma leads_seq:
  "keeps P m \<Longrightarrow> (\<And>s. P s \<Longrightarrow> P' s) \<Longrightarrow> (\<And>x. leads P P' (f x)) \<Longrightarrow> leads P P' (seq m f)"
  by (auto simp: leads_def keeps_def seq_apply split: prod.split sum.split)

lemma leads_keeps: "keeps P m \<Longrightarrow> (\<And>s. P s \<Longrightarrow> P' s) \<Longrightarrow> leads P P' m"
  by (simp add: leads_def keeps_def)

lemma inv_agent_phase:
  assumes "inert rn S" and "\<And>x. keeps S (in_world (agent x))" and "\<And>out a. R a \<Longrightarrow> R (store out a)"
    and "\<And>c. ctx_inv rn S R c \<Longrightarrow> P' c" and "\<And>out. leads (ctx_inv rn S R) P' (next_phase out)"
  shows "leads (ctx_inv rn S R) P' (agent_phase rn (call_agent rn agent nm sch payload) store next_phase)"
  unfolding agent_phase_def
proof (rule leads_seq [OF inv_call_agent [OF assms(1,2)] assms(4)])
  fix x
  show "leads (ctx_inv rn S R) P' (case x of Inl h \<Rightarrow> finalize_cycle rn h
      | Inr out \<Rightarrow> seq (put_artifacts (store out)) (\<lambda>_. next_phase out))"
  proof (cases x)
    case (Inl h)
    then show ?thesis by (simp add: leads_keeps [OF inv_finalize [OF assms(1)] assms(4)])
  next
    case (Inr out)
    have "keeps (ctx_inv rn S R) (put_artifacts (store out))" by (rule inv_put) (rule assms(3))
    from leads_seq [OF this assms(4,5)] Inr show ?thesis by simp
  qed
qed

section \<open>The broker and the gateway\<close>

definition gateway_event :: "'w runner \<Rightarrow> cycle_event \<Rightarrow> bool" where
  "gateway_event rn e = (ev_kind e = POLICY_GATEWAY_APPLIED \<and> ev_cycle e = cycle_id rn)"

text \<open>The log has grown by some events since \<open>base\<close>, one of them the gateway's; or \<open>Q\<close> still
  holds of the world.\<close>

definition logged :: "'w runner \<Rightarrow> cycle_event list \<Rightarrow> 'w sys \<Rightarrow> bool" where
  "logged rn base s \<longleftrightarrow> (\<exists>es. el_events (sys_log s) = base @ es \<and> list_ex (gateway_event rn) es)"

definition untouched :: "('w \<Rightarrow> bool) \<Rightarrow> cycle_event list \<Rightarrow> 'w sys \<Rightarrow> bool" where
  "untouched Q base s \<longleftrightarrow> guarded Q s \<and> (\<exists>es. el_events (sys_log s) = base @ es)"

definition waits :: "'w runner \<Rightarrow> ('w \<Rightarrow> bool) \<Rightarrow> cycle_event list \<Rightarrow> 'w sys \<Rightarrow> bool" where
  "waits rn Q base s \<longleftrightarrow> untouched Q base s \<or> logged rn base s"

definition bystanders :: "('w \<Rightarrow> bool) \<Rightarrow> 'w runner \<Rightarrow> bool" where
  "bystanders Q rn \<longleftrightarrow> env_keeps Q (rn_env rn) \<and> (\<forall>w. Q w \<longrightarrow> Q (snd (rn_clock rn w))) \<and>
     (\<forall>x. keeps Q (rn_observer rn x)) \<and> (\<forall>x. keeps Q (rn_hypothesis rn x)) \<and>
     (\<forall>x. keeps Q (rn_skeptic rn x)) \<and> (\<forall>x. keeps Q (rn_research rn x)) \<and>
     (\<forall>x. keeps Q (rn_auditor rn x)) \<and> (\<forall>x. keeps Q (rn_decider rn x)) \<and>
     (\<forall>x. keeps Q (rn_backtest rn x)) \<and> pred_option (\<lambda>f. \<forall>x. keeps Q (f x)) (rn_prices rn) \<and>
     pred_option (\<lambda>f. \<forall>r es. keeps Q (f r es)) (rn_store rn) \<and>
     pred_option (\<lambda>f. \<forall>x. keeps Q (f x)) (rn_resolver rn)"

text \<open>A live broker only appends to the log.\<close>

definition appends :: "('w sys, 'a) eff \<Rightarrow> bool" where
  "appends m \<longleftrightarrow> (\<forall>s. \<exists>es. el_events (sys_log (snd (m s))) = el_events (sys_log s) @ es)"

definition port_appends :: "'w broker_port \<Rightarrow> bool" where
  "port_appends b = (case b of Plain_Broker _ \<Rightarrow> True
     | Live_Broker att ex det \<Rightarrow> (\<forall>cid. appends (att cid)) \<and> (\<forall>a p. appends (ex a p)) \<and>
         appends (\<lambda>s. (Inr (), det s)))"

lemma emit_appends:
  "\<exists>es. el_events (sys_log (snd (emit env mk s))) = el_events (sys_log s) @ es"
proof (cases "emit env mk s")
  case (Pair r t)
  then show ?thesis by (cases rule: emit_cases) (simp_all add: Pair)
qed

lemma appends_logged: "appends m \<Longrightarrow> keeps (logged rn base) m"
  unfolding keeps_def logged_def appends_def by (metis append_assoc list_ex_append)

lemma logged_in_world: "keeps (logged rn base) (in_world m)"
  by (simp add: keeps_def logged_def)

lemma inert_logged: "inert rn (logged rn base)"
proof -
  have "appends (emit env mk)" for env :: "'a env" and mk by (simp add: appends_def emit_appends)
  then show ?thesis by (simp add: inert_def appends_logged logged_in_world pred_option_def)
qed

lemma untouched_in_world: "keeps Q m \<Longrightarrow> keeps (untouched Q base) (in_world m)"
  using guarded_in_world by (auto simp: keeps_def untouched_def)

lemma untouched_emit:
  assumes "env_keeps Q env"
  shows "keeps (untouched Q base) (emit env (build_event env cid k p))"
proof (rule keepsI)
  fix s
  assume s: "untouched Q base s"
  obtain es where "el_events (sys_log (snd (emit env (build_event env cid k p) s))) = el_events (sys_log s) @ es"
    using emit_appends by blast
  with s guarded_emit [OF assms, of cid k p] show "untouched Q base (snd (emit env (build_event env cid k p) s))"
    by (auto simp: untouched_def keeps_def)
qed

lemma keeps_try: "keeps Q m \<Longrightarrow> keeps Q (try_except m)"
  by (auto simp: keeps_def try_except_def split: prod.split)

lemma keeps_disj: "keeps P m \<Longrightarrow> keeps P' m \<Longrightarrow> keeps (\<lambda>s. P s \<or> P' s) m"
  by (auto simp: keeps_def)

lemma inert_waits:
  assumes "bystanders Q rn"
  shows "inert rn (waits rn Q base)"
proof -
  have w: "waits rn Q base = (\<lambda>s. untouched Q base s \<or> logged rn base s)" by (auto simp: waits_def)
  have env: "keeps Q (call (env_token_hex (rn_env rn)))" "keeps Q (call (rn_clock rn))"
    using assms by (auto simp: bystanders_def env_keeps_def intro!: keeps_call)
  have world: "keeps (waits rn Q base) (in_world m)" if "keeps Q m" for m :: "('a, 'b) eff"
    unfolding w by (intro keeps_disj untouched_in_world logged_in_world that)
  have em: "keeps (waits rn Q base) (emit (rn_env rn) (build_event (rn_env rn) cid k p))" for cid k p
    unfolding w using assms inert_emit [OF inert_logged]
    by (intro keeps_disj untouched_emit) (simp_all add: bystanders_def)
  show ?thesis
    using assms unfolding inert_def bystanders_def
    by (auto simp: pred_option_def intro!: em world env keeps_try)
qed

text \<open>Once the gateway's event is logged it stays so, also through the broker.\<close>

abbreviation anything :: "cycle_artifacts \<Rightarrow> bool" where
  "anything \<equiv> \<lambda>_. True"

lemma logged_execute:
  assumes "port_appends b"
  shows "keeps (ctx_inv rn (logged rn base) anything) (execute_with rn b a p)"
proof -
  have put: "keeps (ctx_inv rn (logged rn base) anything) (put_artifacts f)" for f
    by (rule inv_put) simp
  show ?thesis
  proof (cases b)
    case (Plain_Broker ex)
    then show ?thesis using put inv_log [OF inert_logged]
      by (auto simp: execute_with_def broker_executed_event_def intro!: keeps_intros inv_in_sys logged_in_world)
  next
    case (Live_Broker att ex det)
    with assms have b: "appends (att (cycle_id rn))" "appends (ex a p)" "appends (\<lambda>s. (Inr (), det s))"
      by (simp_all add: port_appends_def)
    then have "keeps (logged rn base) (finally_do (ex a p) det)"
      using appends_logged [of "ex a p"] appends_logged [of "\<lambda>s. (Inr (), det s)"] by (simp add: keeps_def)
    then show ?thesis using put b(1)
      by (auto simp: execute_with_def Live_Broker intro!: keeps_intros inv_in_sys appends_logged)
  qed
qed

lemma logged_broker_phase:
  assumes "pred_option port_appends (rn_broker rn)"
  shows "keeps (ctx_inv rn (logged rn base) anything) (broker_phase rn)"
proof -
  have act: "keeps (ctx_inv rn (logged rn base) anything) (case (rn_broker rn, rn_prices rn, act) of
       (Some b, Some provider, Some action) \<Rightarrow>
         seq (in_sys (in_world (try_except (provider action)))) (\<lambda>p. case p of
           Inl e \<Rightarrow> finalize_cycle rn \<lparr>ha_kind = HALT_AGENT_FAILED, ha_reason = ''price_provider: '' @ rn_exn_text rn e\<rparr>
         | Inr prices \<Rightarrow> seq (execute_with rn b action prices) (\<lambda>_. complete_cycle rn DECIDING))
     | _ \<Rightarrow> complete_cycle rn DECIDING)" for act
    using assms inv_complete [OF inert_logged] inv_finalize [OF inert_logged]
    by (auto intro!: keeps_intros inv_in_sys logged_in_world logged_execute split: option.split sum.split)
  show ?thesis unfolding broker_phase_def by (rule keeps_seq [OF keeps_gets act])
qed

definition before_gateway :: "cycle_artifacts \<Rightarrow> bool" where
  "before_gateway a = (ca_feasible a = None)"

lemma waits_gateway_phase:
  assumes "bystanders Q rn" and "pred_option port_appends (rn_broker rn)"
  shows "leads (ctx_inv rn (waits rn Q base) before_gateway) (ctx_inv rn (waits rn Q base) anything)
    (gateway_phase rn dec)"
  unfolding leads_def
proof (intro allI impI)
  fix c
  assume c: "ctx_inv rn (waits rn Q base) before_gateway c"
  note inert = inert_waits [OF assms(1), of base]
  have weaken: "ctx_inv rn (waits rn Q base) anything c" using c by (simp add: ctx_inv_def)
  show "ctx_inv rn (waits rn Q base) anything (snd (gateway_phase rn dec c))"
  proof (cases "rn_gateway rn")
    case None
    have "broker_phase rn c = complete_cycle rn DECIDING c"
      using c by (auto simp: broker_phase_def seq_apply ctx_inv_def before_gateway_def split: option.split)
    with None weaken inv_complete [OF inert] show ?thesis by (simp add: gateway_phase_def keeps_def)
  next
    case (Some cfg)
    show ?thesis
    proof (cases "apply_policy_gateway (rn_fx rn) dec cfg")
      case (Inl e)
      with Some weaken show ?thesis by (simp add: gateway_phase_def seq_apply)
    next
      case (Inr f)
      let ?c = "c\<lparr>rc_artifacts := ca_feasible_update (\<lambda>_. Some f) (rc_artifacts c)\<rparr>"
      let ?p = "[(''source_run_id'', PStr (md_run_id (sd_metadata dec)))]"
      obtain r c2 where ev: "log_event rn (policy_gateway_applied_event (rn_env rn) (cycle_id rn)
         (md_run_id (sd_metadata dec)) (action_value (fa_action f)) (length (fa_violations f))) ?c = (r, c2)"
        by fastforce
      have c1: "ctx_inv rn (waits rn Q base) anything ?c" using c by (simp add: ctx_inv_def)
      from ev Some Inr have run: "gateway_phase rn dec c =
          (case r of Inl e \<Rightarrow> (Inl e, c2) | Inr _ \<Rightarrow> broker_phase rn c2)"
        by (simp add: gateway_phase_def seq_apply put_artifacts_def)
      show ?thesis
      proof (cases r)
        case (Inl e)
        have "ctx_inv rn (waits rn Q base) anything c2"
          using keepsD [OF inv_log [OF inert] c1 ev [unfolded policy_gateway_applied_event_def]] .
        with run Inl show ?thesis by simp
      next
        case (Inr u)
        obtain s' e where e: "c2 = ?c\<lparr>rc_sys := s'\<rparr>" "log_grows (ctx_log ?c) [e] (sys_log s')"
          "ev_kind e = POLICY_GATEWAY_APPLIED" "ev_cycle e = cycle_id rn"
          using log_event_ok [OF ev [unfolded policy_gateway_applied_event_def Inr]] by blast
        moreover obtain es where "el_events (ctx_log c) = base @ es"
          using c by (auto simp: ctx_inv_def waits_def untouched_def logged_def)
        ultimately have "logged rn base s'"
          by (auto simp: logged_def log_grows_def gateway_event_def intro!: exI [of _ "es @ [e]"])
        then have "ctx_inv rn (logged rn base) anything c2" using c e(1) by (simp add: ctx_inv_def)
        with logged_broker_phase [OF assms(2)] have
          "ctx_inv rn (logged rn base) anything (snd (broker_phase rn c2))" by (simp add: keeps_def)
        with run Inr show ?thesis by (simp add: ctx_inv_def waits_def)
      qed
    qed
  qed
qed

text \<open>What the phases before the gateway keep and the gateway leads on from, a run leads on from.\<close>

lemma run_phases_lead:
  assumes inert: "inert rn S" and gate: "\<And>dec. leads (ctx_inv rn S before_gateway) (ctx_inv rn S' anything) (gateway_phase rn dec)"
    and later: "\<And>s. S s \<Longrightarrow> S' s"
  shows "leads (ctx_inv rn S before_gateway) (ctx_inv rn S' anything) (run_phases rn input)"
proof -
  let ?P = "ctx_inv rn S before_gateway" and ?P' = "ctx_inv rn S' anything"
  have weaken: "?P c \<Longrightarrow> ?P' c" for c using later by (simp add: ctx_inv_def)
  note keep = inv_go [OF inert, of before_gateway] inv_log [OF inert, of before_gateway]
  note agent = inv_agent_phase [OF inert, where R = before_gateway and P' = ?P']
  have ag: "keeps S (in_world (rn_observer rn x1))" "keeps S (in_world (rn_hypothesis rn x2))"
    "keeps S (in_world (rn_skeptic rn x3))" "keeps S (in_world (rn_research rn x4))"
    "keeps S (in_world (rn_auditor rn x5))" "keeps S (in_world (rn_decider rn x6))"
    "keeps S (in_world (try_except (rn_backtest rn x7)))" for x1 x2 x3 x4 x5 x6 x7
    using inert by (simp_all add: inert_def)
  have finish: "leads ?P ?P' (finalize_cycle rn h)" "leads ?P ?P' (complete_cycle rn st)" for h st
    by (rule leads_keeps [OF inv_finalize [OF inert] weaken], assumption)
      (rule leads_keeps [OF inv_complete [OF inert] weaken], assumption)
  have decide: "leads ?P ?P' (decider_phase rn hyp bt au)" for hyp bt au
    unfolding decider_phase_def
    by (rule agent [OF ag(6) _ weaken gate]) (simp_all add: before_gateway_def)
  have audit: "leads ?P ?P' (auditor_phase rn hyp bt)" for hyp bt
    unfolding auditor_phase_def
    by (rule agent [OF ag(5) _ weaken])
      (auto simp: before_gateway_def intro!: finish leads_seq [OF keep(1) weaken] decide)
  have test: "leads ?P ?P' (backtest_phase rn hyp pl)" for hyp pl
    unfolding backtest_phase_def
    by (rule leads_seq [OF inv_in_sys [OF ag(7)] weaken])
      (auto simp: before_gateway_def intro!: finish leads_seq [OF keep(1) weaken] audit
        leads_seq [OF inv_put weaken] split: sum.split)
  have research: "leads ?P ?P' (research_phase rn hyp sk)" for hyp sk
    unfolding research_phase_def
    by (rule agent [OF ag(4) _ weaken test]) (simp_all add: before_gateway_def)
  have skeptic: "leads ?P ?P' (skeptic_phase rn hyp)" for hyp
    unfolding skeptic_phase_def
    by (rule agent [OF ag(3) _ weaken])
      (auto simp: before_gateway_def intro!: finish leads_seq [OF keep(1) weaken] research)
  have hypothesis: "leads ?P ?P' (hypothesis_phase rn obs)" for obs
    unfolding hypothesis_phase_def
    by (rule agent [OF ag(2) _ weaken])
      (auto simp: before_gateway_def intro!: leads_seq [OF keep(1) weaken] skeptic)
  have observer: "leads ?P ?P' (observer_phase rn input)"
    unfolding observer_phase_def
    by (rule agent [OF ag(1) _ weaken])
      (auto simp: before_gateway_def intro!: leads_seq [OF keep(1) weaken] hypothesis)
  have "keeps ?P (resolver_phase rn input)"
    using inert by (auto simp: resolver_phase_def inert_def identifier_resolved_event_def
        intro!: keeps_intros inv_in_sys keep(2) split: option.split)
  then show ?thesis
    unfolding run_phases_def cycle_started_event_def
    by (intro leads_seq [OF _ weaken] keep observer)
qed

lemma run_cycle_waits:
  assumes "bystanders Q rn" and "pred_option port_appends (rn_broker rn)"
    and "Q (sys_world s)" and "\<forall>k\<in>set (el_listeners (sys_log s)). \<forall>e. keeps Q (k e)"
    and "run_cycle rn input s = (r, s')"
  shows "waits rn Q (el_events (sys_log s)) s'"
proof -
  let ?s = "s\<lparr>sys_world := snd (rn_clock rn (sys_world s))\<rparr>"
  let ?c = "start_context rn (new_guard (rn_budget rn) True (fst (rn_clock rn (sys_world s)))) ?s"
  have "untouched Q (el_events (sys_log s)) ?s"
    using assms(1,3,4) by (simp add: untouched_def guarded_def heard_def bystanders_def)
  then have "ctx_inv rn (waits rn Q (el_events (sys_log s))) before_gateway ?c"
    by (simp add: ctx_inv_def start_context_def on_transition_def new_machine_def before_gateway_def
        no_artifacts_def waits_def)
  then have "ctx_inv rn (waits rn Q (el_events (sys_log s))) anything (snd (run_phases rn input ?c))"
    using run_phases_lead [OF inert_waits [OF assms(1)] waits_gateway_phase [OF assms(1,2)]]
    by (simp add: leads_def)
  moreover have "s' = rc_sys (snd (run_phases rn input ?c))"
    using assms(5) by (simp add: run_cycle_def start_guard_def seq_apply split: prod.splits)
  ultimately show ?thesis by (simp add: ctx_inv_def)
qed

section \<open>What the broker keeps too\<close>

definition port_keeps :: "('w sys \<Rightarrow> bool) \<Rightarrow> 'w broker_port \<Rightarrow> bool" where
  "port_keeps S b = (case b of Plain_Broker ex \<Rightarrow> \<forall>a p. keeps S (in_world (ex a p))
     | Live_Broker att ex det \<Rightarrow> (\<forall>cid. keeps S (att cid)) \<and> (\<forall>a p. keeps S (ex a p)) \<and>
         (\<forall>s. S s \<longrightarrow> S (det s)))"

lemma inv_execute:
  assumes "inert rn S" and "port_keeps S b"
  shows "keeps (ctx_inv rn S anything) (execute_with rn b a p)"
proof -
  have put: "keeps (ctx_inv rn S anything) (put_artifacts f)" for f by (rule inv_put) simp
  have fin: "keeps S (finally_do m det)" if "keeps S m" "\<forall>s. S s \<longrightarrow> S (det s)" for m :: "('a sys, execution_report) eff" and det
    using that by (simp add: keeps_def)
  show ?thesis
    using assms put inv_log [OF assms(1)] fin
    by (cases b) (auto simp: execute_with_def broker_executed_event_def port_keeps_def
        intro!: keeps_intros inv_in_sys)
qed

lemma inv_gateway_phase:
  assumes "inert rn S" and "pred_option (port_keeps S) (rn_broker rn)"
  shows "keeps (ctx_inv rn S anything) (gateway_phase rn dec)"
proof -
  have price: "keeps S (in_world (try_except (prov x)))" if "rn_prices rn = Some prov" for prov x
    using assms(1) that by (simp add: inert_def)
  have act: "keeps (ctx_inv rn S anything) (case (rn_broker rn, rn_prices rn, act) of
       (Some b, Some provider, Some action) \<Rightarrow>
         seq (in_sys (in_world (try_except (provider action)))) (\<lambda>p. case p of
           Inl e \<Rightarrow> finalize_cycle rn \<lparr>ha_kind = HALT_AGENT_FAILED, ha_reason = ''price_provider: '' @ rn_exn_text rn e\<rparr>
         | Inr prices \<Rightarrow> seq (execute_with rn b action prices) (\<lambda>_. complete_cycle rn DECIDING))
     | _ \<Rightarrow> complete_cycle rn DECIDING)" for act
    using assms(2) inv_complete [OF assms(1)] inv_finalize [OF assms(1)] inv_execute [OF assms(1)] price
    by (auto intro!: keeps_intros inv_in_sys split: option.split sum.split)
  have "keeps (ctx_inv rn S anything) (broker_phase rn)"
    unfolding broker_phase_def by (rule keeps_seq [OF keeps_gets act])
  then show ?thesis
    using inv_log [OF assms(1), of anything] inv_put [of anything _ rn S]
    by (auto simp: gateway_phase_def policy_gateway_applied_event_def intro!: keeps_intros split: option.split)
qed

lemma inert_guarded:
  assumes "bystanders Q rn"
  shows "inert rn (guarded Q)"
proof -
  have env: "keeps Q (call (env_token_hex (rn_env rn)))" "keeps Q (call (rn_clock rn))"
    using assms by (auto simp: bystanders_def env_keeps_def intro!: keeps_call)
  show ?thesis
    using assms unfolding inert_def bystanders_def
    by (auto simp: pred_option_def intro!: guarded_emit guarded_in_world env keeps_try)
qed

text \<open>What all callables of a cycle keep, its broker among them, a whole run keeps, also one that
  ends in an exception.\<close>

lemma run_cycle_keeps:
  assumes "inert rn S" and "pred_option (port_keeps S) (rn_broker rn)" and "S s"
    and "run_cycle rn input s = (r, s')"
  shows "S s'"
proof -
  let ?s = "s\<lparr>sys_world := snd (rn_clock rn (sys_world s))\<rparr>"
  let ?c = "start_context rn (new_guard (rn_budget rn) True (fst (rn_clock rn (sys_world s)))) ?s"
  have "keeps S (in_world (call (rn_clock rn)))" using assms(1) by (simp add: inert_def)
  then have "S ?s" using assms(3) by (simp add: keeps_def)
  then have c: "ctx_inv rn S before_gateway ?c"
    by (simp add: ctx_inv_def start_context_def on_transition_def new_machine_def before_gateway_def no_artifacts_def)
  have gate: "leads (ctx_inv rn S before_gateway) (ctx_inv rn S anything) (gateway_phase rn dec)" for dec
    using inv_gateway_phase [OF assms(1,2)] by (simp add: leads_def keeps_def ctx_inv_def)
  have "ctx_inv rn S anything (snd (run_phases rn input ?c))"
    using run_phases_lead [OF assms(1) gate] c by (simp add: leads_def)
  moreover have "s' = rc_sys (snd (run_phases rn input ?c))"
    using assms(4) by (simp add: run_cycle_def start_guard_def seq_apply split: prod.splits)
  ultimately show ?thesis by (simp add: ctx_inv_def)
qed

end
