(* ===== verification/Cycle_Properties.thy ===== *)
theory Cycle_Properties
  imports Cycle_Safety
begin

text \<open>
  The properties of a whole research cycle: the story its events tell, what the artifacts of its
  result prove about the run, and that the broker is not reached before the policy gateway.
\<close>

section \<open>The story in the log and the artifacts\<close>

lemma run_cycle_returns:
  assumes "tame K rn t0 Q" and "t0 = fst (rn_clock rn (sys_world s))" and "Q (snd (rn_clock rn (sys_world s)))"
    and "calm (rn_env rn) (sys_log s)" and "\<forall>k\<in>set (el_listeners (sys_log s)). \<forall>e. keeps Q (k e)"
    and "ct_input K input" and "pred_option (port_ok (el_listeners (sys_log s)) (cycle_id rn)) (rn_broker rn)"
  shows "\<exists>r s'. run_cycle rn input s = (Inr r, s') \<and>
    cy_terminal r \<in> {SCRUTINIZING, AUDITING, DECIDING, ERROR}"
proof -
  obtain r s' where run: "run_cycle rn input s = (Inr r, s')" using run_cycle_total [OF assms(1-6)] by blast
  have "0 < cb_token_cap (rn_budget rn)" using assms(1) by (simp add: tame_def budget_ok_def)
  then have "terminal_ok rn r" using run_cycle_good [OF run _ assms(7)] by (simp add: result_ok_def)
  with run show ?thesis by (cases "cy_terminal r") (auto simp: terminal_ok_def Let_def)
qed

text \<open>C1. The log tells the whole cycle. When \<open>run\<close> returns a result, it has added to the log a
  CYCLE\_STARTED event, then events none of which starts or ends a cycle and whose STATE\_TRANSITION
  events form a chain of whitelisted transitions from IDLE, and last exactly one closing event:
  CYCLE\_COMPLETED, with the terminal state, the artifact count and the token totals of the result,
  from IDLE, or CYCLE\_ABORTED, with the abort reason of the result, from ERROR. All of them carry
  the id of the cycle.\<close>

theorem cycle_story:
  assumes "run_cycle rn input s = (Inr r, s')" and "0 < cb_token_cap (rn_budget rn)"
    and "pred_option (port_ok (el_listeners (sys_log s)) (cycle_id rn)) (rn_broker rn)"
  shows "cy_cycle_id r = cycle_id rn \<and>
    (\<exists>start mid e fin. log_grows (sys_log s) (start # mid @ [e]) (sys_log s') \<and>
      ev_kind start = CYCLE_STARTED \<and> ev_cycle start = cycle_id rn \<and>
      tells (cycle_id rn) IDLE mid fin \<and> closing r fin e)"
  using run_cycle_good [OF assms] by blast

lemma desk_tame: "tame open_contract (desk v) 0 (\<lambda>_. True)"
proof -
  have "is_ok (apply_policy_gateway py_ctx sample_decision desk_config)" by code_simp
  then show ?thesis
    by (simp add: tame_def open_contract_def desk_def office_def budget_ok_def desk_budget_def id_ok_def env_keeps_def tame_agent_def
        answers_def agent_metadata_def sample_metadata_def keeps_def tame_port_def total_def
        closed_market_def gateway_accepts_def)
qed

lemma desk_calm: "calm (rn_env (desk v)) (sys_log desk_sys)"
  by (simp add: calm_def desk_def office_def desk_env_def id_ok_def desk_sys_def new_log_def)

lemma desk_ready:
  "0 < cb_token_cap (rn_budget (desk v))"
  "pred_option (port_ok (el_listeners (sys_log desk_sys)) (cycle_id (desk v))) (rn_broker (desk v))"
  by (simp_all add: desk_def office_def desk_budget_def port_ok_def)

lemma desk_run: "\<exists>r s'. run_cycle (desk v) sample_input desk_sys = (Inr r, s')"
  by (rule run_cycle_total [OF desk_tame _ TrueI desk_calm])
    (simp_all add: open_contract_def desk_def office_def desk_sys_def new_log_def)

theorem cycle_story_witness:
  "\<exists>r s' start mid e fin. run_cycle (desk FAIL) sample_input desk_sys = (Inr r, s') \<and>
     log_grows (new_log False None) (start # mid @ [e]) (sys_log s') \<and>
     ev_kind start = CYCLE_STARTED \<and> tells ''c'' IDLE mid fin \<and> closing r fin e"
proof -
  obtain r s' where run: "run_cycle (desk FAIL) sample_input desk_sys = (Inr r, s')"
    using desk_run by blast
  have "cycle_id (desk FAIL) = ''c''" "sys_log desk_sys = new_log False None"
    by (simp_all add: cycle_id_def desk_def office_def desk_budget_def desk_sys_def)
  with cycle_story [OF run desk_ready] run show ?thesis by metis
qed

text \<open>C2. What the artifacts of a result prove. An artifact is there only if those it builds on
  are; research started only after the skeptic said PROCEED; a decision was taken only after an
  audit that passed; the feasible action is what the policy gateway makes of the recorded decision,
  and an execution report is there only with one. The terminal state says where the cycle ended: a
  skeptic that did not say PROCEED, an audit that failed, a decision, or an error, which is the
  case exactly when an abort reason is given and then nothing was executed. When it was not
  aborted the agents used at most the token cap.\<close>

theorem cycle_artifacts_sound:
  assumes "run_cycle rn input s = (Inr r, s')" and "0 < cb_token_cap (rn_budget rn)"
    and "pred_option (port_ok (el_listeners (sys_log s)) (cycle_id rn)) (rn_broker rn)"
  shows "artifacts_ok rn (cy_artifacts r) \<and> terminal_ok rn r \<and>
    (cy_terminal r = ERROR \<longleftrightarrow> cy_aborted_reason r \<noteq> None) \<and>
    (cy_aborted_reason r = None \<longrightarrow> cy_token_in r + cy_token_out r \<le> cb_token_cap (rn_budget rn))"
  using run_cycle_good [OF assms] unfolding result_ok_def by blast

theorem cycle_artifacts_sound_witness:
  "\<exists>r s'. run_cycle (desk PASS) sample_input desk_sys = (Inr r, s') \<and>
     artifacts_ok (desk PASS) (cy_artifacts r) \<and> terminal_ok (desk PASS) r"
proof -
  obtain r s' where run: "run_cycle (desk PASS) sample_input desk_sys = (Inr r, s')"
    using desk_run by blast
  with cycle_artifacts_sound [OF run desk_ready] show ?thesis by blast
qed

text \<open>C4. A cycle always comes back with a result. When the callables the runner was given return
  on what the contract \<open>K\<close> lets through, and put out only that (the agents with non-negative token
  counts, be their answer an output or an error; the backtest executor and the price provider may
  raise), the budget is valid, ids are of legal length, the clock does not run backwards and the
  gateway's report of the decision fits its fields, then \<open>run\<close> returns, and the result ends in
  SCRUTINIZING, AUDITING, DECIDING or ERROR.\<close>

theorem cycle_always_returns:
  assumes "tame K rn t0 Q" and "t0 = fst (rn_clock rn (sys_world s))" and "Q (snd (rn_clock rn (sys_world s)))"
    and "calm (rn_env rn) (sys_log s)" and "\<forall>k\<in>set (el_listeners (sys_log s)). \<forall>e. keeps Q (k e)"
    and "ct_input K input" and "pred_option (port_ok (el_listeners (sys_log s)) (cycle_id rn)) (rn_broker rn)"
  shows "\<exists>r s'. run_cycle rn input s = (Inr r, s') \<and>
    cy_terminal r \<in> {SCRUTINIZING, AUDITING, DECIDING, ERROR}"
  by (rule run_cycle_returns [OF assms])

theorem cycle_always_returns_witness:
  "\<exists>r s'. run_cycle (desk PASS) sample_input desk_sys = (Inr r, s') \<and>
    cy_terminal r \<in> {SCRUTINIZING, AUDITING, DECIDING, ERROR}"
  by (rule cycle_always_returns [OF desk_tame _ TrueI desk_calm _ _ desk_ready(2)])
    (simp_all add: open_contract_def desk_def office_def desk_sys_def new_log_def)

section \<open>The broker waits for the gateway\<close>

text \<open>C3. Nothing is traded before the policy gateway. Take anything \<open>Q\<close> that can be said of
  the world, for instance that the positions of an account are what they were before the run, and
  that every callable but the broker leaves true. However the run ends, with a result or with an
  exception anywhere on the way, \<open>Q\<close> is still true, or this run has appended a
  POLICY\_GATEWAY\_APPLIED event of its cycle to the log.\<close>

theorem broker_waits_for_gateway:
  assumes "bystanders Q rn" and "pred_option port_appends (rn_broker rn)"
    and "Q (sys_world s)" and "\<forall>k\<in>set (el_listeners (sys_log s)). \<forall>e. keeps Q (k e)"
    and "run_cycle rn input s = (r, s')"
  shows "Q (sys_world s') \<or> (\<exists>es e. el_events (sys_log s') = el_events (sys_log s) @ es \<and> e \<in> set es \<and>
    ev_kind e = POLICY_GATEWAY_APPLIED \<and> ev_cycle e = cycle_id rn)"
  using run_cycle_waits [OF assms]
  by (auto simp: waits_def untouched_def guarded_def logged_def list_ex_iff gateway_event_def)

text \<open>An audit that fails: the broker's count of calls stays at 0, or the log says why not.\<close>

theorem broker_waits_for_gateway_witness:
  "sys_world (snd (run_cycle (desk FAIL) sample_input desk_sys)) = 0 \<or>
   (\<exists>es e. el_events (sys_log (snd (run_cycle (desk FAIL) sample_input desk_sys))) = [] @ es \<and> e \<in> set es \<and>
    ev_kind e = POLICY_GATEWAY_APPLIED \<and> ev_cycle e = ''c'')"
proof -
  have quiet: "bystanders (\<lambda>w. w = 0) (desk FAIL)" "pred_option port_appends (rn_broker (desk FAIL))"
    by (simp_all add: bystanders_def desk_def office_def env_keeps_def desk_env_def answers_def keeps_def port_appends_def)
  have start: "sys_world desk_sys = 0" "el_listeners (sys_log desk_sys) = []" "el_events (sys_log desk_sys) = []"
    "cycle_id (desk FAIL) = ''c''"
    by (simp_all add: desk_sys_def new_log_def cycle_id_def desk_def office_def desk_budget_def)
  obtain r s' where run: "run_cycle (desk FAIL) sample_input desk_sys = (r, s')" by fastforce
  have l: "\<forall>k\<in>set (el_listeners (sys_log desk_sys)). \<forall>e. keeps (\<lambda>w. w = 0) (k e)"
    by (simp add: start(2))
  from broker_waits_for_gateway [OF quiet start(1) l run] run show ?thesis
    unfolding start(3,4) by simp
qed

end
