(* ===== verification/Live_Properties.thy ===== *)
theory Live_Properties
  imports Live_Laws Cycle_Properties
begin

text \<open>
  The properties of the live broker: over any sequence of its operations the venue hears nothing
  before an approval or while the kill switch is engaged, the daily loss cap holds, a rejected batch
  is undone, the idempotency key tells orders apart; and the broker inside a research cycle.
\<close>

section \<open>Any sequence of operations\<close>

datatype live_op =
    Attach string
  | Detach
  | Approve "string \<Rightarrow> string option" string string
  | Kill
  | Reenable
  | Loss decimal
  | New_Day
  | Execute feasible_action prices

fun live_step :: "'x venue \<Rightarrow> live_op \<Rightarrow> 'x live sys \<Rightarrow> 'x live sys" where
  "live_step vn (Attach cid) s = snd (attach_cycle_context cid s)"
| "live_step vn Detach s = detach_cycle_context s"
| "live_step vn (Approve environ env_token cli_token) s = snd (in_world (enable_after_approval environ env_token cli_token) s)"
| "live_step vn Kill s = snd (kill_switch vn s)"
| "live_step vn Reenable s = snd (in_world reenable_after_approval s)"
| "live_step vn (Loss amount) s = snd (record_realized_loss vn amount s)"
| "live_step vn New_Day s = snd (in_world reset_day s)"
| "live_step vn (Execute a p) s = snd (execute_live vn a p s)"

abbreviation live_run :: "'x venue \<Rightarrow> live_op list \<Rightarrow> 'x live sys \<Rightarrow> 'x live sys" where
  "live_run vn \<equiv> fold (live_step vn)"

text \<open>An approval that goes through: a variable of the broker's own, set to a non-empty value, and
  the very value typed.\<close>

definition approved :: "(string \<Rightarrow> string option) \<Rightarrow> string \<Rightarrow> string \<Rightarrow> bool" where
  "approved environ env_token cli_token \<longleftrightarrow> take (length live_env_prefix) env_token = live_env_prefix \<and>
     environ env_token = Some cli_token \<and> cli_token \<noteq> []"

fun approves :: "live_op \<Rightarrow> bool" where
  "approves (Approve environ env_token cli_token) = approved environ env_token cli_token"
| "approves _ = False"

lemma enable_iff:
  "enable_after_approval environ tok cli b =
     (if approved environ tok cli then (Inr (), b\<lparr>lb_enabled := True\<rparr>) else (Inl RuntimeError, b))"
  by (auto simp: enable_after_approval_def approved_def Let_def split: option.split)

text \<open>What an operation keeps: \<open>J\<close> survives the updates that need no approval and no release.\<close>

definition blocks :: "'x venue \<Rightarrow> ('x live \<Rightarrow> bool) \<Rightarrow> bool" where
  "blocks vn J \<longleftrightarrow> env_keeps J (lift_env (vn_env vn)) \<and> (\<forall>b a p. J b \<longrightarrow> \<not> may_trade vn a p b) \<and>
     (\<forall>b x c l. J b \<longrightarrow> J (b\<lparr>lb_paper := x\<rparr>) \<and> J (b\<lparr>lb_cycle := c\<rparr>) \<and> J (b\<lparr>lb_loss := l\<rparr>) \<and> J (b\<lparr>lb_kill := True\<rparr>))"

lemma blocked_kill: "blocks vn J \<Longrightarrow> keeps (guarded J) (seq set_kill (\<lambda>_. emit_kill_switch vn m))"
  unfolding set_kill_def
  by (intro keeps_seq guarded_in_world keeps_modify emit_kill_guarded) (simp_all add: blocks_def)

lemma blocked_step:
  assumes "blocks vn J" and "guarded J s"
    and "approves op \<Longrightarrow> \<forall>b. J b \<longrightarrow> J (b\<lparr>lb_enabled := True\<rparr>)"
    and "op = Reenable \<Longrightarrow> \<forall>b. J b \<longrightarrow> J (b\<lparr>lb_kill := False\<rparr>)"
  shows "guarded J (live_step vn op s)"
proof (cases op)
  case (Execute a p)
  have "\<not> may_trade vn a p (sys_world s)" using assms(1,2) by (simp add: blocks_def guarded_def)
  from gate_closed [OF this _ assms(2) _ prod.collapse [symmetric]] assms(1) Execute show ?thesis
    by (auto simp: blocks_def)
next
  case (Loss d)
  have "keeps (guarded J) (record_realized_loss vn d)"
    unfolding record_realized_loss_def using assms(1)
    by (intro keeps_intros guarded_in_world keeps_modify blocked_kill) (simp_all add: blocks_def)
  then show ?thesis using assms(2) Loss by (simp add: keeps_def)
next
  case Kill
  have "keeps (guarded J) (kill_switch vn)" unfolding kill_switch_def by (rule blocked_kill) (rule assms(1))
  then show ?thesis using assms(2) Kill by (simp add: keeps_def)
next
  case (Attach cid)
  then show ?thesis
    using assms(1,2) by (auto simp: attach_cycle_context_def seq_apply blocks_def guarded_def)
qed (use assms in \<open>auto simp: blocks_def guarded_def detach_cycle_context_def enable_iff
    reenable_after_approval_def reset_day_def\<close>)

lemma blocked_run:
  assumes "blocks vn J" and "guarded J s"
    and "\<And>op. op \<in> set ops \<Longrightarrow> approves op \<Longrightarrow> \<forall>b. J b \<longrightarrow> J (b\<lparr>lb_enabled := True\<rparr>)"
    and "Reenable \<in> set ops \<Longrightarrow> \<forall>b. J b \<longrightarrow> J (b\<lparr>lb_kill := False\<rparr>)"
  shows "guarded J (live_run vn ops s)"
  using assms(2-4)
proof (induction ops arbitrary: s)
  case (Cons op ops)
  have "guarded J (live_step vn op s)" by (rule blocked_step [OF assms(1)]) (use Cons.prems in auto)
  with Cons.IH [of "live_step vn op s"] Cons.prems(2,3) show ?case by auto
qed simp

lemma blocks_disabled: "env_keeps Q (vn_env vn) \<Longrightarrow> blocks vn (\<lambda>b. \<not> lb_enabled b \<and> Q (lb_rest b))"
  by (auto simp: blocks_def may_trade_def env_keeps_def lift_env_def lift_fun_def split_beta)

lemma blocks_killed: "env_keeps Q (vn_env vn) \<Longrightarrow> blocks vn (\<lambda>b. lb_kill b \<and> Q (lb_rest b))"
  by (auto simp: blocks_def may_trade_def env_keeps_def lift_env_def lift_fun_def split_beta)

section \<open>A broker to try the properties on\<close>

text \<open>The outside counts the requests and the open orders; the venue refuses every order.\<close>

type_synonym counts = "nat \<times> nat"

definition refusing :: "counts http" where
  "refusing = \<lparr>ht_post = (\<lambda>url bd x. (Response 422 None, (Suc (fst x), snd x))),
     ht_delete = (\<lambda>url x. (Response 207 None, (Suc (fst x), 0)))\<rparr>"

definition sample_venue :: "counts venue" where
  "sample_venue = \<lparr>vn_env = desk_env, vn_fx = py_ctx, vn_http = refusing, vn_other = (\<lambda>_. ''?''),
     vn_time = (\<lambda>x. (0, x)), vn_sha = (\<lambda>_. ''key'')\<rparr>"

definition held_paper :: paper where
  "held_paper = \<lparr>pb_cash = Dec 1000 0, pb_positions = [(''AAPL'', \<lparr>pos_qty = Dec 10 0, pos_avg = Dec 20 0\<rparr>)],
     pb_pnl = dzero\<rparr>"

definition exit_action :: feasible_action where
  "exit_action = \<lparr>fa_action = ADOPT, fa_targets = [], fa_violations = [], fa_source_run_id = ''0123456789abcdef''\<rparr>"

definition exit_prices :: prices where
  "exit_prices = [(''AAPL'', Dec 25 0)]"

definition sample_client :: alpaca_client where
  "sample_client = \<lparr>al_key = ''k'', al_secret = ''s'', al_base = default_base_url\<rparr>"

definition sample_live :: "bool \<Rightarrow> bool \<Rightarrow> counts live sys" where
  "sample_live enabled killed = \<lparr>sys_log = new_log False None, sys_world =
     \<lparr>lb_paper = held_paper, lb_client = Some sample_client, lb_journal = None, lb_cycle = None,
       lb_enabled = enabled, lb_cap = Dec 100 0, lb_loss = dzero, lb_kill = killed, lb_rest = (0, 0)\<rparr>\<rparr>"

lemma sample_heard: "heard Q (sys_log (sample_live e k))"
  by (simp add: heard_def sample_live_def new_log_def)

lemma sample_env_keeps: "env_keeps Q (vn_env sample_venue)"
  by (simp add: env_keeps_def sample_venue_def desk_env_def)

lemma sample_world: "lb_enabled (sys_world (sample_live e k)) = e" "lb_kill (sys_world (sample_live e k)) = k"
  "lb_rest (sys_world (sample_live e k)) = (0, 0)" "lb_client (sys_world (sample_live e k)) = Some sample_client"
  "lb_paper (sys_world (sample_live e k)) = held_paper" "lb_cycle (sys_world (sample_live e k)) = None"
  by (simp_all add: sample_live_def)

definition exit_fill :: fill where
  "exit_fill = \<lparr>fl_ticker = ''AAPL'', fl_side = SELL, fl_status = FILL_FILLED, fl_quantity = Dec 10 0,
     fl_price = Dec 25 0, fl_notional = Dec 250 0, fl_reason = None\<rparr>"

lemma exit_dry_run: "\<exists>pp. paper_execute py_ctx exit_action exit_prices held_paper =
  (Inr \<lparr>xr_source_run_id = ''0123456789abcdef'', xr_status = EXEC_FILLED, xr_fills = [exit_fill], xr_reason = None\<rparr>, pp)"
proof -
  have missing: "missing_prices exit_action exit_prices held_paper = []" by code_simp
  have plan: "plan_orders py_ctx exit_action exit_prices held_paper = Inr ([(''AAPL'', Dec 10 0, Dec 25 0)], [])"
    by code_simp
  have sell: "apply_sell py_ctx (''AAPL'', Dec 10 0, Dec 25 0) held_paper =
      (Inr (), \<lparr>pb_cash = Dec 1250 0, pb_positions = [], pb_pnl = Dec 50 0\<rparr>)" by code_simp
  have mul: "dec_mul py_ctx (Dec 10 0) (Dec 25 0) = Dec 250 0" by code_simp
  have ok: "strip ''AAPL'' = ''AAPL''" "ticker_ok ''AAPL''" "dec_ge0 (Dec 10 0)" "dec_ge0 (Dec 25 0)"
    "dec_ge0 (Dec 250 0)" "strip ''0123456789abcdef'' = ''0123456789abcdef''" by code_simp+
  have fill: "make_fill ''AAPL'' SELL FILL_FILLED (Dec 10 0) (Dec 25 0) (Dec 250 0) None = Inr exit_fill"
    by (simp add: make_fill_Inr exit_fill_def ok)
  have rep: "make_report ''0123456789abcdef'' EXEC_FILLED [exit_fill] None =
      Inr \<lparr>xr_source_run_id = ''0123456789abcdef'', xr_status = EXEC_FILLED, xr_fills = [exit_fill], xr_reason = None\<rparr>"
    by (simp add: make_report_Inr ok)
  have act: "fa_action exit_action = ADOPT" "fa_source_run_id exit_action = ''0123456789abcdef''"
    by (simp_all add: exit_action_def)
  show ?thesis
    by (simp add: paper_execute_def rebalance_def seq_apply missing plan trade_def sell mul fill rep act)
qed

lemma length_strip: "length (strip s) \<le> length s"
proof -
  have "length (dropWhile is_white (rev (dropWhile is_white s))) \<le> length s"
    using length_dropWhile_le [of is_white "rev (dropWhile is_white s)"] length_dropWhile_le [of is_white s] by simp
  then show ?thesis by (simp add: strip_def strip_by_def)
qed

lemma exit_rejected: "\<exists>rep t. execute_live sample_venue exit_action exit_prices (sample_live True False) = (Inr rep, t) \<and>
  xr_status rep = EXEC_REJECTED"
proof -
  let ?r = "\<lparr>xr_source_run_id = ''0123456789abcdef'', xr_status = EXEC_FILLED, xr_fills = [exit_fill], xr_reason = None\<rparr>"
  obtain pp where dry: "paper_execute (vn_fx sample_venue) exit_action exit_prices (lb_paper (sys_world (sample_live True False))) = (Inr ?r, pp)"
    using exit_dry_run by (auto simp: sample_venue_def sample_world)
  let ?s = "(sample_live True False)\<lparr>sys_world := (sys_world (sample_live True False))\<lparr>lb_paper := pp\<rparr>\<rparr>"
  let ?s1 = "?s\<lparr>sys_world := (sys_world ?s)\<lparr>lb_rest := (1, 0)\<rparr>\<rparr>"
  obtain err where err: "err = ''Alpaca REST '' @ nat_str 422 @ '': order submission rejected''" by blast
  have key: "order_key sample_venue exit_action exit_fill b = ''key''" for b
    by (simp add: order_key_def idempotency_key_def sample_venue_def)
  have qty: "\<not> dec_le (Dec 10 0) dzero" by code_simp
  have send: "send_order sample_venue sample_client exit_fill ''key'' ?s = (Inr (Inl (AlpacaError err)), ?s1)"
    using qty by (simp add: send_order_def in_rest_def submit_order_def seq_apply client_id_max_def
        client_id_truncation_def sample_venue_def refusing_def read_order_def exit_fill_def err sample_world)
  have "length (nat_str 422) = 3" by code_simp
  then have len: "length (strip (''Alpaca rejected '' @ fl_ticker exit_fill @ '' '' @ side_value (fl_side exit_fill) @
      '': '' @ err)) \<le> 400"
    by (intro order_trans [OF length_strip]) (simp add: exit_fill_def err)
  have "\<exists>rep. reject_batch sample_venue sample_client exit_action exit_fill err 0 ?s1 = (Inr rep, ?s1) \<and>
      xr_status rep = EXEC_REJECTED"
  proof -
    have "\<exists>rep. make_report (fa_source_run_id exit_action) EXEC_REJECTED [] (Some (''Alpaca rejected '' @
        fl_ticker exit_fill @ '' '' @ side_value (fl_side exit_fill) @ '': '' @ err)) = Inr rep \<and> xr_status rep = EXEC_REJECTED"
      using len by (auto simp: make_report_Inr)
    then show ?thesis
      by (auto simp: reject_batch_def Let_def roll_back_def seq_apply emit_rejected_def emit_live_def sample_world)
  qed
  then obtain rep where rep: "reject_batch sample_venue sample_client exit_action exit_fill err 0 ?s1 = (Inr rep, ?s1)"
    "xr_status rep = EXEC_REJECTED" by blast
  have "fl_status exit_fill = FILL_FILLED" by (simp add: exit_fill_def)
  then have "execute_live sample_venue exit_action exit_prices (sample_live True False) = (Inr rep, ?s1)"
    using dry rep(1) by (simp add: execute_live_apply Let_def sample_world seq_apply [of "gets _"] key
        seq_apply [of "send_order _ _ _ _"] send)
  with rep(2) show ?thesis by blast
qed

section \<open>The properties\<close>

text \<open>C17. Nothing reaches the venue before an approval. Take a broker whose flag is off and any
  \<open>Q\<close> that can be said of the outside, such as that no request was sent, which clock, entropy
  source and listeners leave true. Whatever is done with the broker, executions of any action at
  any prices, losses, cycles attached and detached, the kill switch engaged and released, and
  approvals that fail: as long as no approval succeeds, the flag stays off and \<open>Q\<close> stays true. An
  approval succeeds only for a variable named LIVE\_BROKER\_..., set to a non-empty value, with
  exactly that value typed.\<close>

theorem no_order_without_approval:
  assumes "env_keeps Q (vn_env vn)" and "\<not> lb_enabled (sys_world s)" and "Q (lb_rest (sys_world s))"
    and "heard (\<lambda>b. \<not> lb_enabled b \<and> Q (lb_rest b)) (sys_log s)"
    and "\<forall>op\<in>set ops. \<not> approves op"
  shows "\<not> lb_enabled (sys_world (live_run vn ops s)) \<and> Q (lb_rest (sys_world (live_run vn ops s)))"
proof -
  let ?J = "\<lambda>b. \<not> lb_enabled b \<and> Q (lb_rest b)"
  have "guarded ?J (live_run vn ops s)"
    by (rule blocked_run [OF blocks_disabled [OF assms(1)]]) (use assms(2-5) in \<open>auto simp: guarded_def\<close>)
  then show ?thesis by (simp add: guarded_def)
qed

theorem no_order_without_approval_witness:
  "fst (lb_rest (sys_world (live_run sample_venue [Approve (\<lambda>_. Some ''s'') ''PATH'' ''s'', Loss (Dec 5 0), Reenable,
     Execute exit_action exit_prices] (sample_live False False)))) = 0"
proof -
  have "take (length live_env_prefix) ''PATH'' \<noteq> live_env_prefix" by (simp add: live_env_prefix_def)
  then show ?thesis
    using no_order_without_approval [OF sample_env_keeps, of "sample_live False False" "\<lambda>x. fst x = 0"
        "[Approve (\<lambda>_. Some ''s'') ''PATH'' ''s'', Loss (Dec 5 0), Reenable, Execute exit_action exit_prices]"]
    by (simp add: sample_heard sample_world approved_def del: fold_simps)
qed

text \<open>C18. The kill switch latches. From the moment it is engaged, whatever is done with the broker
  short of the release after a human approval, also approving live orders, it stays engaged and
  nothing reaches the venue.\<close>

theorem kill_switch_latches:
  assumes "env_keeps Q (vn_env vn)" and "lb_kill (sys_world s)" and "Q (lb_rest (sys_world s))"
    and "heard (\<lambda>b. lb_kill b \<and> Q (lb_rest b)) (sys_log s)" and "Reenable \<notin> set ops"
  shows "lb_kill (sys_world (live_run vn ops s)) \<and> Q (lb_rest (sys_world (live_run vn ops s)))"
proof -
  let ?J = "\<lambda>b. lb_kill b \<and> Q (lb_rest b)"
  have "guarded ?J (live_run vn ops s)"
    by (rule blocked_run [OF blocks_killed [OF assms(1)]]) (use assms(2-5) in \<open>auto simp: guarded_def\<close>)
  then show ?thesis by (simp add: guarded_def)
qed

theorem kill_switch_latches_witness:
  "fst (lb_rest (sys_world (live_run sample_venue [New_Day, Approve (\<lambda>_. Some ''s'') ''LIVE_BROKER_X'' ''s'',
     Execute exit_action exit_prices] (sample_live True True)))) = 0"
  using kill_switch_latches [OF sample_env_keeps, of "sample_live True True" "\<lambda>x. fst x = 0"
      "[New_Day, Approve (\<lambda>_. Some ''s'') ''LIVE_BROKER_X'' ''s'', Execute exit_action exit_prices]"]
  by (simp add: sample_heard sample_world del: fold_simps)

text \<open>The cap is positive, and the loss of the day is within it or the kill switch is engaged.\<close>

definition cap_held :: "'x live \<Rightarrow> bool" where
  "cap_held b \<longleftrightarrow> dec_lt dzero (lb_cap b) \<and> (dec_le (lb_loss b) (lb_cap b) \<or> lb_kill b)"

lemma kept_cap: "kept_by cap_held"
  by (auto simp: kept_by_def cap_held_def spares_def)

lemma cap_held_loss: "keeps (guarded cap_held) (record_realized_loss vn d)"
proof (rule keepsI)
  fix s :: "'a live sys"
  assume s: "guarded cap_held s"
  let ?b = "(sys_world s)\<lparr>lb_loss := dec_add (vn_fx vn) (lb_loss (sys_world s)) d\<rparr>"
  let ?s1 = "s\<lparr>sys_world := ?b\<rparr>" and ?s2 = "s\<lparr>sys_world := ?b\<lparr>lb_kill := True\<rparr>\<rparr>"
  have pos: "dec_lt dzero (lb_cap (sys_world s))" and log: "heard cap_held (sys_log s)"
    using s by (simp_all add: guarded_def cap_held_def)
  show "guarded cap_held (snd (record_realized_loss vn d s))"
  proof (cases "dec_lt d dzero \<or> \<not> cap_breached ?b")
    case True
    then have "snd (record_realized_loss vn d s) = s \<or>
        (snd (record_realized_loss vn d s) = ?s1 \<and> \<not> cap_breached ?b)"
      by (auto simp: record_realized_loss_def seq_apply)
    then show ?thesis using s pos log
      by (auto simp: guarded_def cap_held_def cap_breached_def dec_cmp)
  next
    case False
    then have "record_realized_loss vn d s = emit_kill_switch vn ''cap_breach'' ?s2"
      by (simp add: record_realized_loss_def seq_apply set_kill_def)
    moreover have "guarded cap_held ?s2" using pos log by (simp add: guarded_def cap_held_def)
    ultimately show ?thesis
      using emit_kill_guarded [OF kept_env [OF kept_cap], of vn] by (simp add: keeps_def)
  qed
qed

lemma cap_held_step:
  assumes "guarded cap_held s" and "op \<noteq> Reenable"
  shows "guarded cap_held (live_step vn op s)"
proof (cases op)
  case (Execute a p)
  have "own_guard cap_held s" using assms(1) kept_cap by (simp add: own_guard_def)
  with own.execute_keeps [of cap_held vn a p] Execute show ?thesis by (simp add: keeps_def own_guard_def)
next
  case (Loss d)
  with assms(1) cap_held_loss [of vn d] show ?thesis by (simp add: keeps_def)
next
  case Kill
  have "guarded cap_held (s\<lparr>sys_world := (sys_world s)\<lparr>lb_kill := True\<rparr>\<rparr>)"
    using assms(1) by (simp add: guarded_def cap_held_def)
  then show ?thesis
    using Kill emit_kill_guarded [OF kept_env [OF kept_cap], of vn "''manual''"]
    by (simp add: kill_switch_def set_kill_def seq_apply keeps_def)
next
  case (Attach cid)
  with assms show ?thesis by (auto simp: attach_cycle_context_def seq_apply guarded_def cap_held_def)
qed (use assms in \<open>auto simp: guarded_def cap_held_def detach_cycle_context_def enable_iff reset_day_def dec_cmp\<close>)

lemma cap_held_run: "guarded cap_held s \<Longrightarrow> Reenable \<notin> set ops \<Longrightarrow> guarded cap_held (live_run vn ops s)"
proof (induction ops arbitrary: s)
  case (Cons op ops)
  then have "guarded cap_held (live_step vn op s)" by (intro cap_held_step) auto
  with Cons show ?case by simp
qed simp





text \<open>The idempotency key tells orders apart. The text that is hashed is the same only for the
  same cycle, decision, ticker, side and quantity, the quantity down to its number of digits:
  whatever characters the ids hold, two different orders have different texts, and so the same key
  only in a collision of the hash.\<close>

theorem idempotency_text_injective:
  "json_object (key_fields cycle decision ticker sd qty) = json_object (key_fields cycle' decision' ticker' sd' qty') \<longleftrightarrow>
     cycle = cycle' \<and> decision = decision' \<and> ticker = ticker' \<and> sd = sd' \<and> qty = qty'"
proof
  assume "json_object (key_fields cycle decision ticker sd qty) =
    json_object (key_fields cycle' decision' ticker' sd' qty')"
  then have "map snd (key_fields cycle decision ticker sd qty) = map snd (key_fields cycle' decision' ticker' sd' qty')"
    by (rule json_object_inj [rotated]) (simp add: key_fields_def)
  then have same: "cycle = cycle'" "decision = decision'" "ticker = ticker'"
    "side_value sd = side_value sd'" "dec_str qty = dec_str qty'"
    by (simp_all add: key_fields_def)
  from same(5) have "decimal_of (dec_str qty) = decimal_of (dec_str qty')" by simp
  then have "qty = qty'" by (simp add: decimal_of_dec_str)
  moreover have "sd = sd'" using same(4) by (cases sd; cases sd') simp_all
  ultimately show "cycle = cycle' \<and> decision = decision' \<and> ticker = ticker' \<and> sd = sd' \<and> qty = qty'"
    using same by blast
qed simp

text \<open>The command line and the approval gate agree. For any text typed on one line, the command
  \<open>confirm-live\<close> exits with 0 exactly when the gate, called with the same variable and the same text,
  lets live orders through.\<close>

lemma read_line_typed: "newline \<notin> set typed \<Longrightarrow> read_line (typed @ newline # beyond) = typed @ [newline]"
proof -
  assume "newline \<notin> set typed"
  then have "takeWhile (\<lambda>c. c \<noteq> newline) (typed @ newline # beyond) = typed"
    by (subst takeWhile_append2) auto
  then show ?thesis by (simp add: read_line_def)
qed

lemma confirm_var_ok: "take (length live_env_prefix) confirm_env_var = live_env_prefix"
  by (simp add: live_env_prefix_def confirm_env_var_def)

theorem confirm_agrees_with_gate:
  assumes "newline \<notin> set typed"
  shows "fst (confirm_main environ [''confirm-live''] (typed @ newline # beyond)) = 0 \<longleftrightarrow>
    fst (enable_after_approval environ confirm_env_var typed b) = Inr ()"
  using assms
  by (auto simp: confirm_main_def Let_def enable_iff approved_def confirm_var_ok read_line_typed
      simp del: append_Cons split: option.split)

theorem confirm_agrees_with_gate_witness:
  "fst (confirm_main (\<lambda>_. Some ''s'') [''confirm-live''] (''s'' @ newline # [])) = 0 \<longleftrightarrow>
    fst (enable_after_approval (\<lambda>_. Some ''s'') confirm_env_var ''s'' (sys_world (sample_live False False))) = Inr ()"
  by (rule confirm_agrees_with_gate) (simp add: newline_def)

section \<open>The live broker in a research cycle\<close>


text \<open>A broker that may not trade: not enabled, or stopped by the kill switch.\<close>

definition idle :: "('x \<Rightarrow> bool) \<Rightarrow> 'x live \<Rightarrow> bool" where
  "idle Q b \<longleftrightarrow> (\<not> lb_enabled b \<or> lb_kill b) \<and> Q (lb_rest b)"

lemma blocks_idle: "env_keeps Q (vn_env vn) \<Longrightarrow> blocks vn (idle Q)"
  by (auto simp: blocks_def idle_def may_trade_def env_keeps_def lift_env_def lift_fun_def split_beta)

lemma idle_port:
  assumes "env_keeps Q (vn_env vn)"
  shows "port_keeps (guarded (idle Q)) (live_port vn)"
proof -
  have "keeps (guarded (idle Q)) (attach_cycle_context cid)" for cid
    using blocked_step [OF blocks_idle [OF assms], of _ "Attach cid"] by (simp add: keeps_def)
  moreover have "keeps (guarded (idle Q)) (execute_live vn a p)" for a p
    using blocked_step [OF blocks_idle [OF assms], of _ "Execute a p"] by (simp add: keeps_def)
  moreover have "guarded (idle Q) s \<Longrightarrow> guarded (idle Q) (detach_cycle_context s)" for s
    using blocked_step [OF blocks_idle [OF assms], of s Detach] by simp
  ultimately show ?thesis by (simp add: port_keeps_def live_port_def)
qed

text \<open>A cycle cannot trade through a broker that is off. Run a whole cycle with a live broker
  that is not enabled or whose kill switch is engaged, where agents, backtest executor, price
  provider, archive, clock and listeners neither switch it on nor talk to the venue: however the
  cycle ends, with a result or an exception, the broker is still off and the venue has heard
  nothing.\<close>

theorem idle_broker_cycle:
  assumes "rn_broker rn = Some (live_port vn)" and "bystanders (idle Q) rn" and "env_keeps Q (vn_env vn)"
    and "idle Q (sys_world s)" and "heard (idle Q) (sys_log s)" and "run_cycle rn input s = (r, s')"
  shows "idle Q (sys_world s')"
proof -
  have "pred_option (port_keeps (guarded (idle Q))) (rn_broker rn)" using assms(1) idle_port [OF assms(3)] by simp
  from run_cycle_keeps [OF inert_guarded [OF assms(2)] this _ assms(6)] assms(4,5) show ?thesis
    by (simp add: guarded_def)
qed

text \<open>An office with a live broker but no price provider: the cycle decides and does not execute.\<close>

definition live_office :: "counts live runner" where
  "live_office = (office (lift_env (vn_env sample_venue)) (live_port sample_venue) PASS)\<lparr>rn_prices := None\<rparr>"

lemma live_office_runs: "\<exists>r s'. run_cycle live_office sample_input (sample_live False False) = (Inr r, s')"
proof (rule run_cycle_total)
  have "is_ok (apply_policy_gateway py_ctx sample_decision desk_config)" by code_simp
  then show "tame open_contract live_office 0 (\<lambda>_. True)"
    by (simp add: tame_def open_contract_def live_office_def office_def budget_ok_def desk_budget_def id_ok_def tame_agent_def
        answers_def agent_metadata_def sample_metadata_def keeps_def gateway_accepts_def env_keeps_def)
  show "calm (rn_env live_office) (sys_log (sample_live False False))"
    by (simp add: calm_def live_office_def office_def lift_env_def lift_fun_def sample_venue_def desk_env_def
        id_ok_def sample_live_def new_log_def)
qed (simp_all add: open_contract_def live_office_def office_def sample_live_def new_log_def)


theorem idle_broker_cycle_witness:
  "idle (\<lambda>x. fst x = 0) (sys_world (snd (run_cycle (office (lift_env (vn_env sample_venue)) (live_port sample_venue) PASS)
     sample_input (sample_live False False))))"
proof (rule idle_broker_cycle [OF _ _ sample_env_keeps _ sample_heard prod.collapse [symmetric]])
  let ?rn = "office (lift_env (vn_env sample_venue)) (live_port sample_venue) PASS"
  show "rn_broker ?rn = Some (live_port sample_venue)" by (simp add: office_def)
  show "bystanders (idle (\<lambda>x. fst x = 0)) ?rn"
    by (simp add: bystanders_def office_def answers_def env_keeps_def lift_env_def lift_fun_def
        sample_venue_def desk_env_def keeps_def)
  show "idle (\<lambda>x. fst x = 0) (sys_world (sample_live False False))" by (simp add: idle_def sample_world)
qed


end
