(* ===== verification/Paper_Laws.thy ===== *)
theory Paper_Laws
  imports Paper_Broker
begin

text \<open>
  What the paper broker promises: its account stays well formed, an action that cannot be priced
  changes nothing, a rebalance at sensible prices cannot fail half-way, and in exact arithmetic a
  rebalance keeps the account's value and reaches the target quantities.
\<close>

section \<open>Tickers survive stripping\<close>

lemma upper_alnum_not_white: "is_upper_alnum c \<Longrightarrow> \<not> is_white c"
  by (auto simp: is_upper_alnum_def is_white_def Let_def)

lemma ticker_char_not_white: "is_upper_alnum c \<or> c \<in> set ''._:-/'' \<Longrightarrow> \<not> is_white c"
  using upper_alnum_not_white by (auto simp: is_white_def Let_def)

lemma strip_ticker: "ticker_ok t \<Longrightarrow> strip t = t"
proof -
  assume t: "ticker_ok t"
  then obtain c cs where c: "t = c # cs" "is_upper_alnum c"
    "list_all (\<lambda>d. is_upper_alnum d \<or> d \<in> set ''._:-/'') cs"
    by (auto simp: ticker_ok_def split: list.splits)
  have "last t \<in> set t" using c by simp
  then have "\<not> is_white (last t)"
    using c ticker_char_not_white unfolding list_all_iff by auto
  then show ?thesis
    using c upper_alnum_not_white by (simp add: strip_def strip_by_id)
qed

section \<open>A ready rebalance\<close>

text \<open>The tickers of the holdings are valid and their quantities representable.\<close>

definition paper_ok :: "(decimal \<Rightarrow> bool) \<Rightarrow> paper \<Rightarrow> bool" where
  "paper_ok rep s \<longleftrightarrow> paper_wf s \<and>
     (\<forall>(t, pos)\<in>set (pb_positions s). ticker_ok t \<and> rep (pos_qty pos))"

text \<open>Targets as a validated decision has them, prices that are all known and not negative, and
  an account that is not under water at these prices.\<close>

definition rebalance_ready ::
  "dec_ctx \<Rightarrow> (decimal \<Rightarrow> bool) \<Rightarrow> feasible_action \<Rightarrow> prices \<Rightarrow> paper \<Rightarrow> bool" where
  "rebalance_ready fx rep a p s \<longleftrightarrow> fa_action a = ADOPT \<and> paper_ok rep s \<and>
     (\<forall>t\<in>set (fa_targets a). ticker_ok (tp_ticker t) \<and> 0 \<le> dval (tp_weight t)) \<and>
     missing_prices a p s = [] \<and>
     (\<forall>t\<in>set (involved_tickers a s). 0 \<le> dval (price_of p t)) \<and>
     0 \<le> dval (equity fx p s)"

definition trade_pre :: "(decimal \<Rightarrow> bool) \<Rightarrow> side \<Rightarrow> order \<Rightarrow> paper \<Rightarrow> bool" where
  "trade_pre rep sd x s = (case x of (t, q, pr) \<Rightarrow>
     ticker_ok t \<and> 0 < dval q \<and> 0 \<le> dval pr \<and> rep q \<and>
     (sd = SELL \<longrightarrow> (\<exists>pos. map_of (pb_positions s) t = Some pos \<and> dval q \<le> dval (pos_qty pos))))"

definition trades_pre :: "(decimal \<Rightarrow> bool) \<Rightarrow> side \<Rightarrow> order list \<Rightarrow> paper \<Rightarrow> bool" where
  "trades_pre rep sd xs s \<longleftrightarrow> paper_ok rep s \<and> distinct (map fst xs) \<and> (\<forall>x\<in>set xs. trade_pre rep sd x s)"

definition filled :: "dec_ctx \<Rightarrow> side \<Rightarrow> order \<Rightarrow> fill \<Rightarrow> bool" where
  "filled fx sd x f = (case x of (t, q, pr) \<Rightarrow>
     f = \<lparr>fl_ticker = t, fl_side = sd, fl_status = FILL_FILLED, fl_quantity = q, fl_price = pr,
       fl_notional = dec_mul fx q pr, fl_reason = None\<rparr>)"

lemma paper_ok_update:
  assumes "paper_ok rep s" and "0 < dval (pos_qty pos)" and "0 \<le> dval (pos_avg pos)"
    and "ticker_ok t" and "rep (pos_qty pos)" and "pb_positions s' = AList.update t pos (pb_positions s)"
  shows "paper_ok rep s'"
  using assms set_update_subset [of t pos "pb_positions s"]
  by (auto simp: paper_ok_def paper_wf_def positions_wf_update)

lemma paper_ok_delete:
  assumes "paper_ok rep s" and "pb_positions s' = AList.delete t (pb_positions s)"
  shows "paper_ok rep s'"
  using assms set_delete_subset [of t "pb_positions s"]
  by (auto simp: paper_ok_def paper_wf_def positions_wf_delete)

lemma paper_ok_lookup:
  assumes "paper_ok rep s" and "map_of (pb_positions s) t = Some pos"
  shows "0 < dval (pos_qty pos)" "0 \<le> dval (pos_avg pos)" "rep (pos_qty pos)" "ticker_ok t"
  using assms(1) map_of_in_set [OF assms(2)] positions_wf_lookup [OF _ assms(2)]
  by (auto simp: paper_ok_def paper_wf_def)

lemma trade_pre_other:
  assumes "trade_pre rep sd y s" and "fst y \<noteq> t"
    and "map_of (pb_positions s') (fst y) = map_of (pb_positions s) (fst y)"
  shows "trade_pre rep sd y s'"
  using assms by (cases y) (auto simp: trade_pre_def)

context rounding_ctx
begin

lemma sell_total:
  assumes "paper_ok rep s" and "trade_pre rep SELL (t, q, pr) s"
  shows "\<exists>s'. apply_sell fx (t, q, pr) s = (Inr (), s') \<and> paper_ok rep s' \<and>
    (\<forall>u. u \<noteq> t \<longrightarrow> map_of (pb_positions s') u = map_of (pb_positions s) u)"
proof -
  from assms(2) obtain pos where pos: "map_of (pb_positions s) t = Some pos" "dval q \<le> dval (pos_qty pos)"
    by (auto simp: trade_pre_def)
  let ?q = "dec_sub fx (pos_qty pos) q"
  have q: "0 \<le> dval ?q" using pos(2) by (simp add: sub_sign)
  show ?thesis
  proof (cases "dec_eq ?q dzero")
    case True
    then show ?thesis using assms(1)
      by (auto simp: apply_sell_held [OF pos(1)] Let_def dict_simps intro: paper_ok_delete)
  next
    case False
    then have "0 < dval ?q" using q by (simp add: dec_cmp)
    moreover have "make_position ?q (pos_avg pos) = Inr \<lparr>pos_qty = ?q, pos_avg = pos_avg pos\<rparr>"
      using q paper_ok_lookup [OF assms(1) pos(1)] by (simp add: make_position_Inr)
    moreover have "paper_ok rep s'" if "0 < dval ?q"
        "pb_positions s' = AList.update t \<lparr>pos_qty = ?q, pos_avg = pos_avg pos\<rparr> (pb_positions s)" for s'
      using that paper_ok_lookup [OF assms(1) pos(1)] rep_ops(2)
      by (intro paper_ok_update [OF assms(1)]) simp_all
    ultimately show ?thesis using False
      by (auto simp: apply_sell_held [OF pos(1)] Let_def dict_simps)
  qed
qed

lemma bought_total:
  assumes "0 < dval q" and "0 \<le> dval pr" and "rep q"
    and "\<forall>p. existing = Some p \<longrightarrow> 0 < dval (pos_qty p) \<and> 0 \<le> dval (pos_avg p)"
  shows "\<exists>pos. bought_position fx existing q pr = Inr pos \<and> 0 < dval (pos_qty pos) \<and>
    0 \<le> dval (pos_avg pos) \<and> rep (pos_qty pos)"
proof (cases existing)
  case None
  with assms show ?thesis
    by (simp add: bought_position_def make_position_def dec_ge0_iff less_imp_le)
next
  case (Some p)
  let ?n = "dec_add fx (pos_qty p) q"
  let ?c = "dec_add fx (dec_mul fx (pos_qty p) (pos_avg p)) (dec_mul fx q pr)"
  have n: "0 < dval ?n" using assms Some by (intro add_pos) (auto simp: less_imp_le)
  have c: "0 \<le> dval ?c" using assms Some by (intro add_nonneg mul_nonneg) (auto simp: less_imp_le)
  obtain v where v: "dec_div fx ?c ?n = Inr v"
    using n by (auto simp: dec_div_def dval_sign)
  have "0 \<le> dval v" using div_nonneg [OF v c] n by simp
  then show ?thesis using n v Some rep_ops(1)
    by (simp add: bought_position_def Let_def dec_cmp make_position_def dec_ge0_iff less_imp_le)
qed

lemma buy_total:
  assumes "paper_ok rep s" and "trade_pre rep BUY (t, q, pr) s"
  shows "\<exists>s'. apply_buy fx (t, q, pr) s = (Inr (), s') \<and> paper_ok rep s' \<and>
    (\<forall>u. u \<noteq> t \<longrightarrow> map_of (pb_positions s') u = map_of (pb_positions s) u)"
proof -
  have pre: "ticker_ok t" "0 < dval q" "0 \<le> dval pr" "rep q"
    using assms(2) by (simp_all add: trade_pre_def)
  obtain pos where pos: "bought_position fx (map_of (pb_positions s) t) q pr = Inr pos"
    "0 < dval (pos_qty pos)" "0 \<le> dval (pos_avg pos)" "rep (pos_qty pos)"
    using bought_total [OF pre(2-4)] paper_ok_lookup(1,2) [OF assms(1)] by metis
  then show ?thesis using assms(1) pre
    by (auto simp: apply_buy_eq dict_simps intro: paper_ok_update)
qed

lemma trade_total:
  assumes "trades_pre rep sd (x # xs) s"
  shows "\<exists>f s'. trade fx sd x s = (Inr f, s') \<and> trades_pre rep sd xs s' \<and> filled fx sd x f"
proof -
  obtain t q pr where x: "x = (t, q, pr)" by (metis prod_cases3)
  have ok: "paper_ok rep s" and pre: "trade_pre rep sd (t, q, pr) s"
    and ds: "t \<notin> fst ` set xs" "distinct (map fst xs)" and rest: "\<forall>y\<in>set xs. trade_pre rep sd y s"
    using assms x by (auto simp: trades_pre_def)
  obtain s' where s': "(case sd of SELL \<Rightarrow> apply_sell fx (t, q, pr) | BUY \<Rightarrow> apply_buy fx (t, q, pr)) s
      = (Inr (), s')" "paper_ok rep s'"
    "\<forall>u. u \<noteq> t \<longrightarrow> map_of (pb_positions s') u = map_of (pb_positions s) u"
    using sell_total [OF ok, of t q pr] buy_total [OF ok, of t q pr] pre by (cases sd) auto
  have "trade_pre rep sd y s'" if "y \<in> set xs" for y
  proof (rule trade_pre_other)
    show "trade_pre rep sd y s" "fst y \<noteq> t" using rest ds(1) that by auto
    then show "map_of (pb_positions s') (fst y) = map_of (pb_positions s) (fst y)" using s'(3) by simp
  qed
  then have "trades_pre rep sd xs s'"
    using s'(2) ds(2) by (simp add: trades_pre_def)
  moreover have "make_fill t sd FILL_FILLED q pr (dec_mul fx q pr) None =
      Inr \<lparr>fl_ticker = t, fl_side = sd, fl_status = FILL_FILLED, fl_quantity = q, fl_price = pr,
       fl_notional = dec_mul fx q pr, fl_reason = None\<rparr>"
    using pre by (simp add: make_fill_Inr trade_pre_def strip_ticker dec_ge0_iff mul_nonneg less_imp_le)
  ultimately show ?thesis using s'(1) x by (simp add: trade_def seq_apply filled_def)
qed

lemma trades_total:
  assumes "trades_pre rep sd xs s"
  shows "\<exists>fs s'. map_eff (trade fx sd) xs s = (Inr fs, s') \<and> paper_ok rep s' \<and>
    list_all2 (filled fx sd) xs fs"
proof -
  have "\<exists>fs s'. map_eff (trade fx sd) xs s = (Inr fs, s') \<and> trades_pre rep sd [] s' \<and>
      list_all2 (filled fx sd) xs fs"
    by (rule map_eff_total [of "trades_pre rep sd"]) (use assms trade_total in blast)+
  then show ?thesis by (auto simp: trades_pre_def)
qed

lemma target_quantities_total:
  assumes "\<forall>t\<in>set ts. 0 \<le> dval (tp_weight t)" and "0 \<le> dval eq"
    and "distinct (map fst acc)" and "\<forall>(t, q)\<in>set acc. 0 \<le> dval q"
  shows "\<exists>r. target_quantities fx p eq ts acc = Inr r \<and> distinct (map fst r) \<and>
    (\<forall>(t, q)\<in>set r. 0 \<le> dval q) \<and> fst ` set r = fst ` set acc \<union> tp_ticker ` set ts"
  using assms
proof (induction ts arbitrary: acc)
  case (Cons t ts)
  obtain q where q: "target_quantity fx eq (tp_weight t) (price_of p (tp_ticker t)) = Inr q" "0 \<le> dval q"
  proof (cases "dec_lt dzero (price_of p (tp_ticker t))")
    case True
    moreover have "0 \<le> dval (dec_mul fx eq (tp_weight t))"
      using Cons.prems by (intro mul_nonneg) auto
    moreover from True obtain v where
      "dec_div fx (dec_mul fx eq (tp_weight t)) (price_of p (tp_ticker t)) = Inr v"
      by (auto simp: dec_div_def dec_cmp dval_sign)
    ultimately show ?thesis using div_nonneg that
      by (auto simp: target_quantity_def dec_cmp less_imp_le)
  qed (use that in \<open>simp add: target_quantity_def\<close>)
  let ?acc = "AList.update (tp_ticker t) q acc"
  have "\<forall>(t, q)\<in>set ?acc. 0 \<le> dval q"
    using Cons.prems(4) q(2) set_update_subset [of "tp_ticker t" q acc] by auto
  with Cons.IH [of ?acc] Cons.prems q(1) show ?case
    by (auto simp: distinct_keys_update dom_update)
qed auto

lemma compute_deltas_sorted:
  assumes "compute_deltas fx s targets p = (sells, buys)"
  shows "sorted (map fst sells)" "sorted (map fst buys)"
    and "distinct (map fst targets) \<Longrightarrow> distinct (map fst sells)"
    and "distinct (map fst targets) \<Longrightarrow> distinct (map fst buys)"
proof -
  have "distinct (map fst (sort_key fst (map (\<lambda>x. (fst x, g x)) (filter P targets))))"
    if "distinct (map fst targets)" for g :: "string \<times> decimal \<Rightarrow> decimal \<times> decimal" and P
  proof -
    have "inj_on fst (set targets)" using that by (simp add: distinct_map)
    then have "g (t, x) = g (t, y)" if "(t, x) \<in> set targets" "(t, y) \<in> set targets" for t x y
      using inj_onD [of fst "set targets" "(t, x)" "(t, y)"] that by simp
    with \<open>distinct (map fst targets)\<close> show ?thesis
      by (auto simp: distinct_map inj_on_def)
  qed
  then show "distinct (map fst targets) \<Longrightarrow> distinct (map fst sells)"
    "distinct (map fst targets) \<Longrightarrow> distinct (map fst buys)"
    using assms by (auto simp: compute_deltas_def Let_def simp del: sort_key_const)
  show "sorted (map fst sells)" "sorted (map fst buys)"
    using assms by (auto simp: compute_deltas_def Let_def)
qed

lemma current_qty_held:
  "0 \<le> x \<Longrightarrow> x < dval (current_qty s t) \<Longrightarrow>
     \<exists>pos. map_of (pb_positions s) t = Some pos \<and> current_qty s t = pos_qty pos"
  by (auto simp: current_qty_def split: option.splits)

lemma plan_total:
  assumes "rebalance_ready fx rep a p s"
  shows "\<exists>sells buys. plan_orders fx a p s = Inr (sells, buys) \<and> trades_pre rep SELL sells s \<and>
    (\<forall>s'. paper_ok rep s' \<longrightarrow> trades_pre rep BUY buys s') \<and>
    sorted (map fst sells) \<and> sorted (map fst buys)"
proof -
  let ?acc = "map (\<lambda>(t, _). (t, dzero)) (pb_positions s)"
  have ok: "paper_ok rep s" and prices: "\<forall>t\<in>set (involved_tickers a s). 0 \<le> dval (price_of p t)"
    using assms by (simp_all add: rebalance_ready_def)
  have keys: "map fst ?acc = map fst (pb_positions s)" by (induction "pb_positions s") auto
  have acc0: "\<forall>(t, q)\<in>set ?acc. 0 \<le> dval q" by (auto simp: case_prod_unfold)
  obtain r where r: "target_quantities fx p (equity fx p s) (fa_targets a) ?acc = Inr r"
    "distinct (map fst r)" "\<forall>(t, q)\<in>set r. 0 \<le> dval q"
    "fst ` set r = fst ` set ?acc \<union> tp_ticker ` set (fa_targets a)"
    using target_quantities_total [of "fa_targets a" "equity fx p s" ?acc p] assms ok
      acc0
    unfolding rebalance_ready_def paper_ok_def paper_wf_def positions_wf_def keys by blast
  obtain sells buys where d: "compute_deltas fx s r p = (sells, buys)" by (cases "compute_deltas fx s r p")
  have inv: "fst ` set r \<subseteq> set (involved_tickers a s)"
    unfolding r(4) by (force simp: involved_tickers_def)
  have tk: "ticker_ok t" if "t \<in> fst ` set r" for t
    using that assms ok unfolding r(4) rebalance_ready_def paper_ok_def by force
  have sell: "trade_pre rep SELL x s" if x: "x \<in> set sells" for x
  proof -
    obtain t q pr where x': "x = (t, q, pr)" by (metis prod_cases3)
    with x obtain tg where tg: "(t, tg) \<in> set r" "dval tg < dval (current_qty s t)"
      "q = dec_neg fx (dec_sub fx tg (current_qty s t))" "pr = price_of p t"
      using compute_deltas_mem(1) [OF d] by blast
    then have nn: "0 \<le> dval tg" and t: "t \<in> fst ` set r" using r(3) by force+
    obtain pos where pos: "map_of (pb_positions s) t = Some pos" "current_qty s t = pos_qty pos"
      using current_qty_held [OF nn tg(2)] by blast
    have "dval q \<le> dval (pos_qty pos)"
      using trim_bound [OF paper_ok_lookup(3) [OF ok pos(1)] nn] tg(3) pos(2) by simp
    moreover have "0 < dval q" "rep q"
      using tg(2,3) rep_ops by (simp_all add: neg_sign sub_sign)
    ultimately show ?thesis using pos(1) tk [OF t] prices inv t tg(4) x' by (auto simp: trade_pre_def)
  qed
  have buy: "trade_pre rep BUY x s'" if x: "x \<in> set buys" for x s'
  proof -
    obtain t q pr where x': "x = (t, q, pr)" by (metis prod_cases3)
    with x obtain tg where tg: "(t, tg) \<in> set r" "dval (current_qty s t) < dval tg"
      "q = dec_sub fx tg (current_qty s t)" "pr = price_of p t"
      using compute_deltas_mem(2) [OF d] by blast
    then have t: "t \<in> fst ` set r" by force
    show ?thesis using tk [OF t] prices inv t tg rep_ops x' by (auto simp: trade_pre_def sub_sign)
  qed
  show ?thesis
    using r(1,2) d sell buy ok compute_deltas_sorted [OF d]
    by (simp add: plan_orders_def trades_pre_def)
qed

lemma rebalance_total:
  assumes "rebalance_ready fx rep a p s"
  shows "\<exists>sells buys sold bought t. plan_orders fx a p s = Inr (sells, buys) \<and>
    sorted (map fst sells) \<and> sorted (map fst buys) \<and>
    list_all2 (filled fx SELL) sells sold \<and> list_all2 (filled fx BUY) buys bought \<and>
    paper_execute fx a p s = (Inr \<lparr>xr_source_run_id = strip (fa_source_run_id a),
      xr_status = EXEC_FILLED, xr_fills = sold @ bought, xr_reason = None\<rparr>, t) \<and> paper_ok rep t"
proof -
  obtain sells buys where plan: "plan_orders fx a p s = Inr (sells, buys)"
    "trades_pre rep SELL sells s" "\<forall>s'. paper_ok rep s' \<longrightarrow> trades_pre rep BUY buys s'"
    "sorted (map fst sells)" "sorted (map fst buys)"
    using plan_total [OF assms] by blast
  obtain sold s1 where sold: "map_eff (trade fx SELL) sells s = (Inr sold, s1)" "paper_ok rep s1"
    "list_all2 (filled fx SELL) sells sold"
    using trades_total [OF plan(2)] by blast
  obtain bought s2 where bought: "map_eff (trade fx BUY) buys s1 = (Inr bought, s2)" "paper_ok rep s2"
    "list_all2 (filled fx BUY) buys bought"
    using trades_total plan(3) sold(2) by blast
  have "paper_execute fx a p s = rebalance fx a p s"
    using assms by (simp add: paper_execute_def seq_apply rebalance_ready_def)
  also have "\<dots> = (Inr \<lparr>xr_source_run_id = strip (fa_source_run_id a),
      xr_status = EXEC_FILLED, xr_fills = sold @ bought, xr_reason = None\<rparr>, s2)"
    using plan(1) sold(1) bought(1) by (simp add: rebalance_def seq_apply make_report_def check_def)
  finally show ?thesis using plan sold bought by blast
qed

end

section \<open>Exact arithmetic: nothing is lost, the targets are reached\<close>

lemma exact_ops:
  "dval (dec_add no_rounding x y) = dval x + dval y"
  "dval (dec_sub no_rounding x y) = dval x - dval y"
  "dval (dec_mul no_rounding x y) = dval x * dval y"
  "dval (dec_neg no_rounding x) = - dval x"
proof -
  obtain a b where ab: "align x y = (a, b)" by (cases "align x y")
  show "dval (dec_add no_rounding x y) = dval x + dval y"
    using dval_add_raw [OF ab] by (simp add: dec_add_def ab no_rounding_def)
  show "dval (dec_sub no_rounding x y) = dval x - dval y"
    using dval_sub_raw [OF ab] by (simp add: dec_sub_def ab no_rounding_def)
  show "dval (dec_mul no_rounding x y) = dval x * dval y"
    by (simp only: dec_mul_def dval_mul_raw no_rounding_def)
  show "dval (dec_neg no_rounding x) = - dval x"
    by (simp only: dec_neg_def dval_neg_raw no_rounding_def)
qed

text \<open>The account's value at a price snapshot.\<close>

definition account_value :: "prices \<Rightarrow> paper \<Rightarrow> rat" where
  "account_value p s = dval (pb_cash s) +
     dict_sum (\<lambda>t pos. dval (pos_qty pos) * dval (price_of p t)) (pb_positions s)"

definition signed_qty :: "side \<Rightarrow> decimal \<Rightarrow> rat" where
  "signed_qty sd q = (case sd of BUY \<Rightarrow> dval q | SELL \<Rightarrow> - dval q)"

text \<open>One successful trade moves one holding by its quantity and, at the snapshot's price, keeps
  the account's value.\<close>

definition moves :: "prices \<Rightarrow> side \<Rightarrow> order \<Rightarrow> paper \<Rightarrow> paper \<Rightarrow> bool" where
  "moves p sd x s s' \<longleftrightarrow> paper_wf s' \<and>
     (\<forall>u. dval (current_qty s' u) = dval (current_qty s u) + (if u = fst x then signed_qty sd (fst (snd x)) else 0)) \<and>
     (snd (snd x) = price_of p (fst x) \<longrightarrow> account_value p s' = account_value p s)"

lemma sell_moves:
  assumes "paper_wf s" and "apply_sell no_rounding (t, q, pr) s = (Inr (), s')"
  shows "moves p SELL (t, q, pr) s s'"
proof (cases "map_of (pb_positions s) t")
  case None
  with assms(2) show ?thesis by (simp add: apply_sell_not_held)
next
  case (Some pos)
  have wf: "paper_wf s'" using assms keeps_wf_sell keepsD by metis
  have d: "distinct (map fst (pb_positions s))"
    using assms(1) by (simp add: paper_wf_def positions_wf_def)
  show ?thesis
  proof (cases "dec_eq (dec_sub no_rounding (pos_qty pos) q) dzero")
    case True
    then have "dval (pos_qty pos) = dval q" by (simp add: dec_cmp exact_ops)
    then show ?thesis using True assms(2) wf d Some
      by (auto simp: apply_sell_held [OF Some] Let_def moves_def current_qty_def dict_simps signed_qty_def
          account_value_def dict_sum_delete booked_sale_def exact_ops)
  next
    case False
    with assms(2) obtain pos' where "make_position (dec_sub no_rounding (pos_qty pos) q) (pos_avg pos) = Inr pos'"
      and s': "s' = booked_sale no_rounding pos q pr s\<lparr>pb_positions := AList.update t pos' (pb_positions s)\<rparr>"
      by (auto simp: apply_sell_held [OF Some] Let_def split: sum.splits)
    then have "dval (pos_qty pos) = dval (pos_qty pos') + dval q"
      by (auto simp: make_position_Inr exact_ops)
    then show ?thesis using wf d Some unfolding s'
      by (auto simp: moves_def current_qty_def dict_simps signed_qty_def account_value_def dict_sum_update
          booked_sale_def exact_ops algebra_simps)
  qed
qed

lemma buy_moves:
  assumes "paper_wf s" and "0 < dval q" and "apply_buy no_rounding (t, q, pr) s = (Inr (), s')"
  shows "moves p BUY (t, q, pr) s s'"
proof -
  have wf: "paper_wf s'"
    using assms exact.keeps_wf_buy [of "(t, q, pr)"] keepsD by (metis fst_conv snd_conv)
  have d: "distinct (map fst (pb_positions s))"
    using assms(1) by (simp add: paper_wf_def positions_wf_def)
  obtain pos where pos: "bought_position no_rounding (map_of (pb_positions s) t) q pr = Inr pos"
    and s': "s' = s\<lparr>pb_positions := AList.update t pos (pb_positions s),
       pb_cash := dec_sub no_rounding (pb_cash s) (dec_mul no_rounding q pr)\<rparr>"
    using assms(3) by (auto simp: apply_buy_eq split: sum.splits)
  have "dval (pos_qty pos) = dval (current_qty s t) + dval q"
    using pos by (auto simp: bought_position_def current_qty_def make_position_Inr bind_res_Inr_iff
        exact_ops Let_def split: option.splits)
  then show ?thesis using wf d unfolding s'
    by (auto simp: moves_def current_qty_def dict_simps signed_qty_def account_value_def dict_sum_update
        exact_ops algebra_simps split: option.splits)
qed

lemma trade_moves:
  assumes "paper_wf s" and "0 < dval (fst (snd x))" and "trade no_rounding sd x s = (Inr f, s')"
  shows "moves p sd x s s'"
proof -
  obtain t q pr where x: "x = (t, q, pr)" by (metis prod_cases3)
  with assms show ?thesis
    by (cases sd) (auto simp: trade_def seq_apply sell_moves buy_moves split: prod.splits sum.splits)
qed

text \<open>What a list of orders for different tickers still has to move.\<close>

definition pending :: "side \<Rightarrow> order list \<Rightarrow> string \<Rightarrow> rat" where
  "pending sd xs u = (case map_of xs u of None \<Rightarrow> 0 | Some (q, _) \<Rightarrow> signed_qty sd q)"

definition loop_inv :: "prices \<Rightarrow> rat \<Rightarrow> (string \<Rightarrow> rat) \<Rightarrow> side \<Rightarrow> order list \<Rightarrow> paper \<Rightarrow> bool" where
  "loop_inv p v goal sd xs s \<longleftrightarrow> paper_wf s \<and> account_value p s = v \<and> distinct (map fst xs) \<and>
     (\<forall>x\<in>set xs. 0 < dval (fst (snd x)) \<and> snd (snd x) = price_of p (fst x)) \<and>
     (\<forall>u. dval (current_qty s u) + pending sd xs u = goal u)"

lemma loop_inv_step:
  assumes "loop_inv p v goal sd (x # xs) s" and "trade no_rounding sd x s = (Inr f, s')"
  shows "loop_inv p v goal sd xs s'"
proof -
  have m: "moves p sd x s s'"
    using assms by (intro trade_moves) (auto simp: loop_inv_def)
  have "pending sd xs (fst x) = 0"
    using assms(1) by (auto simp: loop_inv_def pending_def map_of_eq_None_iff split: option.splits
        dest!: map_of_SomeD intro: rev_image_eqI)
  then have "dval (current_qty s' u) + pending sd xs u = dval (current_qty s u) + pending sd (x # xs) u" for u
    using m by (cases x) (auto simp: moves_def pending_def)
  with m assms(1) show ?thesis by (auto simp: loop_inv_def moves_def)
qed

lemma loop_inv_run:
  assumes "map_eff (trade no_rounding sd) xs s = (Inr fs, s')" and "loop_inv p v goal sd xs s"
  shows "loop_inv p v goal sd [] s'"
  by (rule map_eff_ok_invariant [where I = "loop_inv p v goal sd", OF assms]) (rule loop_inv_step)

lemma target_quantities_lookup:
  assumes "target_quantities fx p eq ts acc = Inr r" and "distinct (map tp_ticker ts)"
  shows "(\<forall>t\<in>set ts. \<exists>q. target_quantity fx eq (tp_weight t) (price_of p (tp_ticker t)) = Inr q \<and>
      map_of r (tp_ticker t) = Some q) \<and>
    (\<forall>u. u \<notin> tp_ticker ` set ts \<longrightarrow> map_of r u = map_of acc u)"
  using assms
proof (induction ts arbitrary: acc)
  case (Cons t ts)
  then obtain q where q: "target_quantity fx eq (tp_weight t) (price_of p (tp_ticker t)) = Inr q"
    "target_quantities fx p eq ts (AList.update (tp_ticker t) q acc) = Inr r"
    by (auto simp: bind_res_Inr_iff)
  from Cons.IH [OF q(2)] Cons.prems(2) q(1) show ?case by (auto simp: dict_simps)
qed simp

lemma pending_none: "(\<And>q pr. (u, q, pr) \<notin> set xs) \<Longrightarrow> pending sd xs u = 0"
  by (cases "map_of xs u") (auto simp: pending_def dest!: map_of_in_set)

lemma pending_some:
  "distinct (map fst xs) \<Longrightarrow> (u, q, pr) \<in> set xs \<Longrightarrow> pending sd xs u = signed_qty sd q"
  using map_of_is_SomeI [of xs u "(q, pr)"] by (simp add: pending_def)

lemma pending_plan:
  assumes "compute_deltas no_rounding s r p = (sells, buys)" and "distinct (map fst r)"
  shows "dval (current_qty s u) + pending SELL sells u + pending BUY buys u =
    (case map_of r u of None \<Rightarrow> dval (current_qty s u) | Some tg \<Rightarrow> dval tg)"
proof -
  note mem = exact.compute_deltas_mem [OF assms(1)]
  note ds = exact.compute_deltas_sorted(3) [OF assms] exact.compute_deltas_sorted(4) [OF assms]
  have uniq: "(u, tg') \<in> set r \<Longrightarrow> map_of r u = Some tg'" for tg'
    using map_of_is_SomeI [OF assms(2)] .
  let ?c = "current_qty s u"
  have sell: "pending SELL sells u = (case map_of r u of None \<Rightarrow> 0
      | Some tg \<Rightarrow> if dval tg < dval ?c then dval tg - dval ?c else 0)"
  proof (cases "\<exists>tg. map_of r u = Some tg \<and> dval tg < dval ?c")
    case True
    then obtain tg where tg: "map_of r u = Some tg" "dval tg < dval ?c" by blast
    have "(u, dec_neg no_rounding (dec_sub no_rounding tg ?c), price_of p u) \<in> set sells"
      unfolding mem using map_of_in_set [OF tg(1)] tg(2) by blast
    then show ?thesis using tg pending_some [OF ds(1)] by (simp add: signed_qty_def exact_ops)
  next
    case False
    then have "pending SELL sells u = 0"
      using uniq by (intro pending_none) (auto simp: mem)
    then show ?thesis using False by (auto split: option.splits)
  qed
  have buy: "pending BUY buys u = (case map_of r u of None \<Rightarrow> 0
      | Some tg \<Rightarrow> if dval ?c < dval tg then dval tg - dval ?c else 0)"
  proof (cases "\<exists>tg. map_of r u = Some tg \<and> dval ?c < dval tg")
    case True
    then obtain tg where tg: "map_of r u = Some tg" "dval ?c < dval tg" by blast
    have "(u, dec_sub no_rounding tg ?c, price_of p u) \<in> set buys"
      unfolding mem using map_of_in_set [OF tg(1)] tg(2) by blast
    then show ?thesis using tg pending_some [OF ds(2)] by (simp add: signed_qty_def exact_ops)
  next
    case False
    then have "pending BUY buys u = 0"
      using uniq by (intro pending_none) (auto simp: mem)
    then show ?thesis using False by (auto split: option.splits)
  qed
  show ?thesis by (auto simp: sell buy split: option.splits)
qed

lemma target_quantities_distinct:
  assumes "target_quantities fx p eq ts acc = Inr r" and "distinct (map fst acc)"
  shows "distinct (map fst r)"
  using assms
proof (induction ts arbitrary: acc)
  case (Cons t ts)
  then obtain q where "target_quantities fx p eq ts (AList.update (tp_ticker t) q acc) = Inr r"
    by (auto simp: bind_res_Inr_iff)
  from Cons.IH [OF this] Cons.prems(2) show ?case by (simp add: distinct_keys_update)
qed simp

lemma exact_rebalance:
  assumes "rebalance_ready no_rounding (\<lambda>_. True) a p s" and "distinct (map tp_ticker (fa_targets a))"
  shows "\<exists>r t. paper_execute no_rounding a p s = (Inr r, t) \<and> xr_status r = EXEC_FILLED \<and>
    account_value p t = account_value p s \<and>
    (\<forall>tp\<in>set (fa_targets a). \<exists>q. target_quantity no_rounding (equity no_rounding p s) (tp_weight tp)
        (price_of p (tp_ticker tp)) = Inr q \<and> dval (current_qty t (tp_ticker tp)) = dval q) \<and>
    (\<forall>u. u \<notin> tp_ticker ` set (fa_targets a) \<longrightarrow> dval (current_qty t u) = 0)"
proof -
  let ?acc = "map (\<lambda>(t, _). (t, dzero)) (pb_positions s)"
  obtain sells buys fs1 fs2 t where
    plan: "plan_orders no_rounding a p s = Inr (sells, buys)" and
    run: "paper_execute no_rounding a p s = (Inr \<lparr>xr_source_run_id = strip (fa_source_run_id a),
      xr_status = EXEC_FILLED, xr_fills = fs1 @ fs2, xr_reason = None\<rparr>, t)"
    using exact.rebalance_total [OF assms(1)] by blast
  obtain r where r: "target_quantities no_rounding p (equity no_rounding p s) (fa_targets a) ?acc = Inr r"
    and d: "compute_deltas no_rounding s r p = (sells, buys)"
    using plan by (auto simp: plan_orders_def bind_res_Inr_iff)
  have wf: "paper_wf s" using assms(1) by (simp add: rebalance_ready_def paper_ok_def)
  have keys: "map fst ?acc = map fst (pb_positions s)" by (induction "pb_positions s") auto
  have dr: "distinct (map fst r)"
    using target_quantities_distinct [OF r] wf unfolding keys by (simp add: paper_wf_def positions_wf_def)
  have "paper_execute no_rounding a p s = rebalance no_rounding a p s"
    using assms(1) by (simp add: paper_execute_def seq_apply rebalance_ready_def)
  with run plan obtain s1 sold bought where
    sold: "map_eff (trade no_rounding SELL) sells s = (Inr sold, s1)" and
    bought: "map_eff (trade no_rounding BUY) buys s1 = (Inr bought, t)"
    by (auto simp: rebalance_def seq_apply make_report_Inr split: prod.splits sum.splits)
  let ?v = "account_value p s"
  let ?g1 = "\<lambda>u. dval (current_qty s u) + pending SELL sells u"
  let ?g2 = "\<lambda>u. ?g1 u + pending BUY buys u"
  note ds = exact.compute_deltas_sorted(3) [OF d dr] exact.compute_deltas_sorted(4) [OF d dr]
  have ords: "\<forall>x\<in>set sells \<union> set buys. 0 < dval (fst (snd x)) \<and> snd (snd x) = price_of p (fst x)"
    using exact.orders_positive [OF d] exact.compute_deltas_mem [OF d] by auto
  have "loop_inv p ?v ?g1 SELL sells s" using wf ds ords by (simp add: loop_inv_def)
  from loop_inv_run [OF sold this]
  have "loop_inv p ?v ?g2 BUY buys s1" using ds ords by (simp add: loop_inv_def pending_def)
  from loop_inv_run [OF bought this]
  have v: "account_value p t = ?v" and q: "dval (current_qty t u) = ?g2 u" for u
    by (simp_all add: loop_inv_def pending_def)
  have tg: "dval (current_qty t u) = (case map_of r u of None \<Rightarrow> dval (current_qty s u) | Some x \<Rightarrow> dval x)" for u
    using q pending_plan [OF d dr] by simp
  have acc: "map_of (map (\<lambda>(t, _). (t, dzero)) ps) u = map_option (\<lambda>_. dzero) (map_of ps u)"
    for u and ps :: "(string \<times> position) list"
    by (induction ps) auto
  show ?thesis
    using run v tg target_quantities_lookup [OF r assms(2)] acc
    by (auto simp: current_qty_def split: option.splits)
qed

section \<open>Properties\<close>


definition sample_paper :: paper where
  "sample_paper = \<lparr>pb_cash = Dec 1000 0, pb_positions = [], pb_pnl = dzero\<rparr>"

definition sample_action :: feasible_action where
  "sample_action = \<lparr>fa_action = ADOPT,
     fa_targets = [\<lparr>tp_ticker = ''AAPL'', tp_side = BUY, tp_weight = Dec 5 (- 1)\<rparr>,
                   \<lparr>tp_ticker = ''MSFT'', tp_side = BUY, tp_weight = Dec 25 (- 2)\<rparr>],
     fa_violations = [], fa_source_run_id = ''0123456789abcdef''\<rparr>"

definition sample_prices :: prices where
  "sample_prices = [(''MSFT'', Dec 125 (- 1)), (''AAPL'', Dec 25 0)]"


lemma rejected_fills:
  "map_res (\<lambda>t. bind_res (make_fill t BUY FILL_REJECTED dzero dzero dzero (g t)) (\<lambda>f. Inr [f])) ts = Inr fs
    \<Longrightarrow> \<forall>f\<in>set fs. fl_status f = FILL_REJECTED \<and> fl_quantity f = dzero"
  by (induction ts arbitrary: fs) (auto simp: bind_res_Inr_iff make_fill_Inr)

lemma reject_report_Inr:
  assumes "reject_report a ts ms = Inr x"
  shows "xr_status x = EXEC_REJECTED \<and>
    (\<forall>f\<in>set (xr_fills x). fl_status f = FILL_REJECTED \<and> fl_quantity f = dzero)"
proof -
  from assms obtain fs where "map_res (\<lambda>t. bind_res (make_fill t BUY FILL_REJECTED dzero dzero dzero
      (Some (if t \<in> set ms then ''price unavailable'' else ''rolled back''))) (\<lambda>f. Inr [f])) ts = Inr fs"
    and "xr_status x = EXEC_REJECTED" "xr_fills x = fs"
    by (auto simp: reject_report_def bind_res_Inr_iff make_report_Inr)
  with rejected_fills [where g = "\<lambda>t. Some (if t \<in> set ms then ''price unavailable'' else ''rolled back'')"]
  show ?thesis by blast
qed

text \<open>What cannot be priced changes nothing. An action that does not adopt, or that adopts while
  some target or some holding has no price, leaves cash, holdings and realized profit as they were,
  whatever the decimal context; if it is answered by a report, the report is SKIPPED or REJECTED
  and its fills are rejected ones with zero quantity.\<close>

theorem paper_unpriced_unchanged:
  assumes "fa_action a \<noteq> ADOPT \<or> (\<exists>t\<in>set (involved_tickers a s). map_of p t = None)"
    and "paper_execute fx a p s = (r, s')"
  shows "s' = s \<and> (\<forall>x. r = Inr x \<longrightarrow> xr_status x = (if fa_action a = ADOPT then EXEC_REJECTED else EXEC_SKIPPED) \<and>
    (\<forall>f\<in>set (xr_fills x). fl_status f = FILL_REJECTED \<and> fl_quantity f = dzero))"
proof (cases "fa_action a = ADOPT")
  case False
  then show ?thesis using assms(2) by (auto simp: paper_skips make_report_Inr)
next
  case True
  have "missing_prices a p s \<noteq> []"
  proof -
    from True assms(1) obtain t where "t \<in> set (missing_prices a p s)"
      by (auto simp: missing_prices_def)
    then show ?thesis by (metis empty_iff list.set(1))
  qed
  then show ?thesis using True assms(2)
    by (auto simp: paper_execute_def seq_apply Let_def dest: reject_report_Inr)
qed

theorem paper_unpriced_unchanged_witness:
  "snd (paper_execute py_ctx sample_action [(''AAPL'', Dec 25 0)] sample_paper) = sample_paper"
proof -
  have "\<exists>t\<in>set (involved_tickers sample_action sample_paper). map_of [(''AAPL'', Dec 25 0)] t = None"
    by (rule bexI [of _ "''MSFT''"]) (simp_all add: involved_tickers_def sample_action_def)
  then show ?thesis
    using paper_unpriced_unchanged [OF disjI2 prod.collapse [symmetric]] by blast
qed

text \<open>C11. A rebalance cannot fail half-way. With a well-formed account whose quantities have at most
  28 digits, targets with valid tickers and non-negative weights, a non-negative price for every
  target and holding, and an equity that is not negative at these prices, executing an adopted
  action in Python's decimal context raises nothing: the report is FILLED, the fills are first the
  sales and then the purchases, each in ticker order and of positive quantity, and the account is
  again well formed.\<close>

theorem rebalance_cannot_fail:
  assumes "rebalance_ready py_ctx (fits 28) a p s"
  shows "\<exists>r s' sold bought. paper_execute py_ctx a p s = (Inr r, s') \<and> xr_status r = EXEC_FILLED \<and>
    paper_ok (fits 28) s' \<and> xr_fills r = sold @ bought \<and>
    sorted (map fl_ticker sold) \<and> sorted (map fl_ticker bought) \<and>
    (\<forall>f\<in>set sold. fl_side f = SELL) \<and> (\<forall>f\<in>set bought. fl_side f = BUY) \<and>
    (\<forall>f\<in>set (xr_fills r). fl_status f = FILL_FILLED \<and> 0 < dval (fl_quantity f))"
proof -
  obtain sells buys sold bought t where run: "plan_orders py_ctx a p s = Inr (sells, buys)"
    "sorted (map fst sells)" "sorted (map fst buys)"
    "list_all2 (filled py_ctx SELL) sells sold" "list_all2 (filled py_ctx BUY) buys bought"
    "paper_execute py_ctx a p s = (Inr \<lparr>xr_source_run_id = strip (fa_source_run_id a),
      xr_status = EXEC_FILLED, xr_fills = sold @ bought, xr_reason = None\<rparr>, t)" "paper_ok (fits 28) t"
    using py.rebalance_total [OF assms] by blast
  have fills: "map fl_ticker fs = map fst xs \<and> (\<forall>f\<in>set fs. fl_side f = sd \<and> fl_status f = FILL_FILLED \<and>
      (\<exists>x\<in>set xs. fl_quantity f = fst (snd x)))"
    if "list_all2 (filled py_ctx sd) xs fs" for sd xs fs
    using that by (induction rule: list_all2_induct) (auto simp: filled_def)
  obtain r where "compute_deltas py_ctx s r p = (sells, buys)"
    using run(1) by (auto simp: plan_orders_def bind_res_Inr_iff)
  from py.orders_positive [OF this]
  have pos: "0 < dval (fl_quantity f)" if "f \<in> set (sold @ bought)" for f
    using that fills [OF run(4)] fills [OF run(5)] by (metis UnCI UnE set_append)
  show ?thesis
    by (intro exI [of _ "\<lparr>xr_source_run_id = strip (fa_source_run_id a),
      xr_status = EXEC_FILLED, xr_fills = sold @ bought, xr_reason = None\<rparr>"] exI [of _ t]
      exI [of _ sold] exI [of _ bought])
      (use run pos fills [OF run(4)] fills [OF run(5)] in auto)
qed

theorem rebalance_cannot_fail_witness:
  "\<exists>r s'. paper_execute py_ctx sample_action sample_prices sample_paper = (Inr r, s') \<and> xr_status r = EXEC_FILLED"
proof -
  have "missing_prices sample_action sample_prices sample_paper = []" by code_simp
  moreover have "dec_le dzero (equity py_ctx sample_prices sample_paper)" by code_simp
  moreover have "list_all (\<lambda>t. dec_le dzero (price_of sample_prices t)) (involved_tickers sample_action sample_paper)"
    by code_simp
  moreover have "list_all (\<lambda>t. ticker_ok (tp_ticker t) \<and> dec_le dzero (tp_weight t)) (fa_targets sample_action)"
    by code_simp
  ultimately have "rebalance_ready py_ctx (fits 28) sample_action sample_prices sample_paper"
    by (simp add: rebalance_ready_def list_all_iff dec_cmp sample_action_def sample_paper_def
        paper_ok_def paper_wf_def positions_wf_def)
  from rebalance_cannot_fail [OF this] show ?thesis by blast
qed



end
