(* ===== verification/Cycle_Queue.thy ===== *)
theory Cycle_Queue
  imports Prelude
begin

text \<open>
  The serial cycle dispatcher (\<open>orchestrator/cycle\_queue.py\<close>). Callers are coroutines of one
  event loop: they run alone except at the one \<open>await\<close>, the call of the runner. A step of the
  machine is what happens between two awaits: a call of \<open>enqueue\<close>, \<open>run\_one\<close> or
  \<open>drain\<close> up to its first await or its return, or the return (or exception) of the runner into
  the coroutine that waits for it, up to that coroutine's next await or its return. Any caller may
  make a step at any time.

  \<open>qu\_active\<close> holds the coroutines that wait for the runner; \<open>qu\_started\<close>,
  \<open>qu\_enqueued\<close> and \<open>qu\_returned\<close> record what has happened.
\<close>

text \<open>Where a waiting coroutine goes on: in \<open>run\_one\<close>, or in \<open>drain\<close> with the results
  it has so far.\<close>

datatype 'r waiting = In_Run_One | In_Drain "'r list"

datatype 'r outcome = One_Result "'r option" | Drained "'r list" | Raised py_exn

record ('i, 'r) cycle_queue =
  qu_pending :: "'i list"
  qu_running :: bool
  qu_active :: "(nat \<times> 'r waiting \<times> 'i) list"
  qu_started :: "'i list"
  qu_enqueued :: "'i list"
  qu_returned :: "(nat \<times> 'r outcome) list"

definition new_queue :: "('i, 'r) cycle_queue" where
  "new_queue = \<lparr>qu_pending = [], qu_running = False, qu_active = [], qu_started = [],
     qu_enqueued = [], qu_returned = []\<rparr>"

definition enqueue :: "'i \<Rightarrow> ('i, 'r) cycle_queue \<Rightarrow> ('i, 'r) cycle_queue" where
  "enqueue x q = q\<lparr>qu_pending := qu_pending q @ [x], qu_enqueued := qu_enqueued q @ [x]\<rparr>"

definition return_to :: "nat \<Rightarrow> 'r outcome \<Rightarrow> ('i, 'r) cycle_queue \<Rightarrow> ('i, 'r) cycle_queue" where
  "return_to c r q = q\<lparr>qu_returned := qu_returned q @ [(c, r)]\<rparr>"

text \<open>\<open>popleft\<close> and the part of \<open>\_run\_guarded\<close> before its await.\<close>

definition begin_run :: "nat \<Rightarrow> 'r waiting \<Rightarrow> ('i, 'r) cycle_queue \<Rightarrow> ('i, 'r) cycle_queue" where
  "begin_run c k q = (case qu_pending q of [] \<Rightarrow> q
     | x # xs \<Rightarrow> q\<lparr>qu_pending := xs, qu_running := True, qu_active := (c, k, x) # qu_active q,
         qu_started := qu_started q @ [x]\<rparr>)"

definition run_one :: "nat \<Rightarrow> ('i, 'r) cycle_queue \<Rightarrow> ('i, 'r) cycle_queue" where
  "run_one c q = (if qu_running q \<or> qu_pending q = [] then return_to c (One_Result None) q
     else begin_run c In_Run_One q)"

definition drain_loop :: "nat \<Rightarrow> 'r list \<Rightarrow> ('i, 'r) cycle_queue \<Rightarrow> ('i, 'r) cycle_queue" where
  "drain_loop c results q = (if qu_pending q = [] then return_to c (Drained results) q
     else begin_run c (In_Drain results) q)"

definition drain :: "nat \<Rightarrow> ('i, 'r) cycle_queue \<Rightarrow> ('i, 'r) cycle_queue" where
  "drain c q = (if qu_running q then return_to c (Drained []) q else drain_loop c [] q)"

text \<open>The runner comes back to the \<open>n\<close>-th waiting coroutine with a result or an exception; the
  \<open>finally\<close> clause resets the flag first.\<close>

definition run_returns :: "nat \<Rightarrow> 'r res \<Rightarrow> ('i, 'r) cycle_queue \<Rightarrow> ('i, 'r) cycle_queue" where
  "run_returns n r q = (if length (qu_active q) \<le> n then q else
     let (c, k, x) = qu_active q ! n;
         q' = q\<lparr>qu_running := False, qu_active := take n (qu_active q) @ drop (Suc n) (qu_active q)\<rparr>
     in case r of Inl e \<Rightarrow> return_to c (Raised e) q'
      | Inr v \<Rightarrow> (case k of In_Run_One \<Rightarrow> return_to c (One_Result (Some v)) q'
          | In_Drain results \<Rightarrow> drain_loop c (results @ [v]) q'))"

inductive queue_step :: "('i, 'r) cycle_queue \<Rightarrow> ('i, 'r) cycle_queue \<Rightarrow> bool" where
  step_enqueue: "queue_step q (enqueue x q)"
| step_run_one: "queue_step q (run_one c q)"
| step_drain: "queue_step q (drain c q)"
| step_returns: "n < length (qu_active q) \<Longrightarrow> queue_step q (run_returns n r q)"

inductive queue_reachable :: "('i, 'r) cycle_queue \<Rightarrow> bool" where
  start: "queue_reachable new_queue"
| next_step: "queue_reachable q \<Longrightarrow> queue_step q q' \<Longrightarrow> queue_reachable q'"

section \<open>Serial and first-in-first-out\<close>

definition queue_inv :: "('i, 'r) cycle_queue \<Rightarrow> bool" where
  "queue_inv q \<longleftrightarrow> length (qu_active q) \<le> 1 \<and> qu_running q = (qu_active q \<noteq> []) \<and>
     qu_started q @ qu_pending q = qu_enqueued q"

lemma queue_inv_return [simp]: "queue_inv (return_to c r q) = queue_inv q"
  by (simp add: queue_inv_def return_to_def)

lemma queue_inv_begin: "queue_inv q \<Longrightarrow> \<not> qu_running q \<Longrightarrow> queue_inv (begin_run c k q)"
  by (auto simp: queue_inv_def begin_run_def split: list.split)

lemma queue_inv_loop: "queue_inv q \<Longrightarrow> \<not> qu_running q \<Longrightarrow> queue_inv (drain_loop c rs q)"
  by (simp add: drain_loop_def queue_inv_begin)

lemma queue_inv_step:
  assumes "queue_step q q'" and "queue_inv q"
  shows "queue_inv q'"
  using assms
proof cases
  case (step_returns n r)
  obtain c k x where act: "qu_active q = [(c, k, x)]" and n: "n = 0"
    using step_returns(2) assms(2) by (cases "qu_active q") (auto simp: queue_inv_def)
  then have "queue_inv (q\<lparr>qu_running := False, qu_active := []\<rparr>)"
    using assms(2) by (simp add: queue_inv_def)
  then show ?thesis
    by (auto simp: step_returns(1) run_returns_def act n queue_inv_loop Let_def split: sum.split waiting.split)
next
  case (step_enqueue x)
  then show ?thesis using assms(2) by (simp add: enqueue_def queue_inv_def flip: append_assoc)
qed (auto simp: run_one_def drain_def queue_inv_begin queue_inv_loop)

lemma queue_reachable_inv: "queue_reachable q \<Longrightarrow> queue_inv q"
proof (induction rule: queue_reachable.induct)
  case start
  then show ?case by (simp add: queue_inv_def new_queue_def)
next
  case (next_step q q')
  then show ?case using queue_inv_step by blast
qed

text \<open>C14. One cycle at a time, in the order of arrival. However the calls of any number of
  callers and the returns and exceptions of the runner are interleaved, at most one cycle is
  running, the flag \<open>is\_running\<close> tells exactly whether one is, and the inputs handed to the
  runner so far followed by the pending ones are the inputs enqueued so far: none is lost,
  duplicated or overtaken, not even when a cycle raises.\<close>

theorem queue_serial_fifo:
  assumes "queue_reachable q"
  shows "length (qu_active q) \<le> 1 \<and> (qu_running q \<longleftrightarrow> qu_active q \<noteq> []) \<and>
    qu_started q @ qu_pending q = qu_enqueued q"
  using queue_reachable_inv [OF assms] unfolding queue_inv_def .

text \<open>Two inputs; the first cycle raises while a second caller drains; the second input is run.\<close>

theorem queue_serial_fifo_witness:
  "qu_started (run_one 3 (run_returns 0 (Inl RuntimeError)
     (drain 2 (drain 1 (enqueue (8::nat) (enqueue 7 (new_queue :: (nat, bool) cycle_queue))))))) @ [] = [7, 8]"
proof -
  define q where "q = run_one 3 (run_returns 0 (Inl RuntimeError)
     (drain 2 (drain 1 (enqueue (8::nat) (enqueue 7 (new_queue :: (nat, bool) cycle_queue))))))"
  have "queue_reachable q"
    unfolding q_def
    by (intro queue_reachable.next_step [OF _ step_run_one] queue_reachable.next_step [OF _ step_drain]
        queue_reachable.next_step [OF _ step_returns] queue_reachable.next_step [OF _ step_enqueue]
        queue_reachable.start) code_simp
  from queue_serial_fifo [OF this] have "qu_started q @ qu_pending q = qu_enqueued q" by blast
  moreover have "qu_pending q = []" "qu_enqueued q = [7, 8]" unfolding q_def by code_simp+
  ultimately show ?thesis unfolding q_def by simp
qed

section \<open>Draining\<close>

fun all_return :: "'r list \<Rightarrow> ('i, 'r) cycle_queue \<Rightarrow> ('i, 'r) cycle_queue" where
  "all_return [] q = q"
| "all_return (r # rs) q = all_return rs (run_returns 0 (Inr r) q)"

lemma all_return_loop:
  assumes "qu_active q = []" and "length rs = length (qu_pending q)"
  shows "\<exists>q'. all_return rs (drain_loop c sofar q) = q' \<and> qu_pending q' = [] \<and>
    qu_started q' = qu_started q @ qu_pending q \<and> (qu_running q' \<longrightarrow> qu_running q) \<and> qu_active q' = [] \<and>
    qu_returned q' = qu_returned q @ [(c, Drained (sofar @ rs))]"
  using assms
proof (induction rs arbitrary: q sofar)
  case Nil
  then show ?case by (simp add: drain_loop_def return_to_def)
next
  case (Cons r rs)
  then obtain x xs where p: "qu_pending q = x # xs" by (cases "qu_pending q") auto
  let ?q = "q\<lparr>qu_pending := xs, qu_started := qu_started q @ [x], qu_running := False, qu_active := []\<rparr>"
  have step: "run_returns 0 (Inr r) (drain_loop c sofar q) = drain_loop c (sofar @ [r]) ?q"
    using Cons.prems(1) by (simp add: run_returns_def begin_run_def Let_def p drain_loop_def [of c sofar q])
  from Cons.IH [of ?q "sofar @ [r]"] Cons.prems p show ?case by (simp add: step)
qed

text \<open>A drain of an idle queue, left alone until the runner has returned for every pending
  input, returns the results of all of them in the order of the queue, and leaves the queue empty
  and idle; a second drain meanwhile returns the empty tuple at once and changes nothing.\<close>

theorem drain_returns_everything:
  assumes "queue_reachable q" and "\<not> qu_running q" and "length rs = length (qu_pending q)"
  shows "qu_returned (all_return rs (drain c q)) = qu_returned q @ [(c, Drained rs)] \<and>
    qu_started (all_return rs (drain c q)) = qu_enqueued q \<and> qu_pending (all_return rs (drain c q)) = [] \<and>
    \<not> qu_running (all_return rs (drain c q)) \<and>
    (qu_pending q = [] \<or> drain d (drain c q) = return_to d (Drained []) (drain c q))"
proof -
  have inv: "qu_active q = []" "qu_started q @ qu_pending q = qu_enqueued q"
    using queue_reachable_inv [OF assms(1)] assms(2) by (simp_all add: queue_inv_def)
  have d: "drain c q = drain_loop c [] q" using assms(2) by (simp add: drain_def)
  have "qu_pending q \<noteq> [] \<Longrightarrow> qu_running (drain c q)"
    by (simp add: d drain_loop_def begin_run_def split: list.split)
  then have "qu_pending q \<noteq> [] \<Longrightarrow> drain d (drain c q) = return_to d (Drained []) (drain c q)"
    by (simp add: drain_def)
  with all_return_loop [OF inv(1) assms(3), of c "[]"] assms(2) inv(2) show ?thesis by (auto simp: d)
qed

theorem drain_returns_everything_witness:
  "qu_returned (all_return [True, False] (drain 1 (enqueue (8::nat) (enqueue 7 new_queue)))) = [(1, Drained [True, False])]"
proof -
  let ?q = "enqueue (8::nat) (enqueue 7 (new_queue :: (nat, bool) cycle_queue))"
  have 1: "queue_reachable ?q"
    by (intro queue_reachable.next_step [OF _ step_enqueue] queue_reachable.start)
  have "\<not> qu_running ?q" "length [True, False] = length (qu_pending ?q)" "qu_returned ?q = []"
    by (simp_all add: enqueue_def new_queue_def)
  with drain_returns_everything [OF 1 this(1,2)] show ?thesis by simp
qed

end
