(* ===== verification/Loop_Detector.thy ===== *)
theory Loop_Detector
  imports Event_Log Py_Float
begin

text \<open>
  Loop detection over an agent's tool calls (\<open>orchestrator/loop\_detector.py\<close>): the sliding
  windows, the six probes, and their meaning over the full history of the calls.
  \<open>json.dumps\<close> of the call's parameters is a parameter \<open>dumps\<close>.
\<close>

record loop_detection =
  det_tool :: string
  det_count :: nat
  det_message :: string

definition make_detection :: "string \<Rightarrow> nat \<Rightarrow> string \<Rightarrow> loop_detection res" where
  "make_detection tool n msg =
     (if tool \<noteq> [] \<and> 1 \<le> n \<and> msg \<noteq> []
      then Inr \<lparr>det_tool = tool, det_count = n, det_message = msg\<rparr> else Inl ValidationError)"

record call_record =
  cr_tool :: string
  cr_params :: string
  cr_failed :: bool

definition absolute_max :: nat where "absolute_max = 25"
definition failed_absolute_max :: nat where "failed_absolute_max = 12"
definition no_action_max :: nat where "no_action_max = 5"
definition recent_calls_window :: nat where "recent_calls_window = 30"
definition recent_texts_window :: nat where "recent_texts_window = 12"
definition params_key_limit :: nat where "params_key_limit = 200"
definition identical_threshold :: nat where "identical_threshold = 3"
definition similar_failing_threshold :: nat where "similar_failing_threshold = 4"
definition text_repeat_threshold :: nat where "text_repeat_threshold = 3"
definition text_similarity_threshold :: rat where "text_similarity_threshold = fl64 (7 / 10)"
definition step_text_limit :: nat where "step_text_limit = 200"
definition step_text_min_len :: nat where "step_text_min_len = 10"
definition same_tool_base_normal :: nat where "same_tool_base_normal = 3"
definition same_tool_base_high :: nat where "same_tool_base_high = 5"
definition same_tool_drop_trigger :: nat where "same_tool_drop_trigger = 3"
definition same_tool_failing_normal :: nat where "same_tool_failing_normal = 2"
definition same_tool_failing_high :: nat where "same_tool_failing_high = 3"

lemmas detector_constants =
  absolute_max_def failed_absolute_max_def recent_calls_window_def
  identical_threshold_def similar_failing_threshold_def same_tool_base_normal_def
  same_tool_base_high_def same_tool_drop_trigger_def same_tool_failing_normal_def
  same_tool_failing_high_def

definition high_tolerance_tools :: "string list" where
  "high_tolerance_tools = [''fetch_url'', ''read_file'', ''list_dir'', ''web_search'', ''github_api'',
     ''fetch_prices'', ''fetch_news'', ''fetch_macro'']"

record detector =
  ld_calls :: "call_record list"
  ld_total :: nat
  ld_texts :: "string list"
  ld_no_action :: nat
  ld_aborted :: bool

definition new_detector :: detector where
  "new_detector = \<lparr>ld_calls = [], ld_total = 0, ld_texts = [], ld_no_action = 0, ld_aborted = False\<rparr>"

section \<open>Recording\<close>

definition call_of :: "('p \<Rightarrow> string) \<Rightarrow> string \<Rightarrow> 'p \<Rightarrow> bool \<Rightarrow> call_record" where
  "call_of dumps tool params failed =
     \<lparr>cr_tool = tool, cr_params = take params_key_limit (dumps params), cr_failed = failed\<rparr>"

definition record_call ::
  "('p \<Rightarrow> string) \<Rightarrow> string \<Rightarrow> 'p \<Rightarrow> bool \<Rightarrow> detector \<Rightarrow> detector" where
  "record_call dumps tool params failed d = d\<lparr>
     ld_calls := deque_append recent_calls_window (ld_calls d) (call_of dumps tool params failed),
     ld_total := ld_total d + 1,
     ld_no_action := 0\<rparr>"

definition record_no_action :: "detector \<Rightarrow> bool \<times> detector" where
  "record_no_action d = (let d' = d\<lparr>ld_no_action := ld_no_action d + 1\<rparr>
     in (no_action_max \<le> ld_no_action d', d'))"

definition record_step_text :: "string \<Rightarrow> detector \<Rightarrow> detector" where
  "record_step_text text d =
     (if text = [] \<or> length text < step_text_min_len then d
      else let normalised = take step_text_limit (join '' '' (split_ws (str_lower text)))
           in if normalised \<noteq> []
              then d\<lparr>ld_texts := deque_append recent_texts_window (ld_texts d) normalised\<rparr> else d)"

definition reset_detector :: "detector \<Rightarrow> detector" where
  "reset_detector d = d\<lparr>ld_calls := [], ld_total := 0, ld_texts := [], ld_no_action := 0,
     ld_aborted := False\<rparr>"

section \<open>Probes\<close>

definition detect_absolute_limit :: "detector \<Rightarrow> bool" where
  "detect_absolute_limit d =
     (if absolute_max \<le> ld_total d then True
      else failed_absolute_max \<le> length (filter cr_failed (ld_calls d)))"

definition detect_identical :: "(detector, loop_detection option) eff" where
  "detect_identical = seq (gets ld_calls) (\<lambda>calls.
     if length calls < identical_threshold then ret None
     else let l = last calls;
              n = count_while (\<lambda>r. cr_tool r = cr_tool l \<and> cr_params r = cr_params l) (rev calls)
          in if identical_threshold \<le> n
             then seq (modify (ld_aborted_update (\<lambda>_. True))) (\<lambda>_.
               seq (lift_res (make_detection (cr_tool l) n
                 (''Tool \"'' @ cr_tool l @ ''\" called '' @ nat_str n @
                  '' times with identical params; stopping to avoid budget burn.'')))
               (\<lambda>x. ret (Some x)))
             else ret None)"

definition detect_similar_failing :: "(detector, loop_detection option) eff" where
  "detect_similar_failing = seq (gets ld_calls) (\<lambda>calls.
     if length calls < similar_failing_threshold then ret None
     else let l = last calls
          in if \<not> cr_failed l then ret None
             else let n = count_while (\<lambda>r. \<not> (cr_tool r \<noteq> cr_tool l \<or> \<not> cr_failed r)) (rev calls)
                  in if similar_failing_threshold \<le> n
                     then seq (modify (ld_aborted_update (\<lambda>_. True))) (\<lambda>_.
                       seq (lift_res (make_detection (cr_tool l) n
                         (''Tool \"'' @ cr_tool l @ ''\" called '' @ nat_str n @
                          '' times, all failing; stopping the agent loop.'')))
                       (\<lambda>x. ret (Some x)))
                     else ret None)"

text \<open>The streak of a tool and the failures in it.\<close>

fun tool_streak :: "string \<Rightarrow> call_record list \<Rightarrow> nat \<times> nat" where
  "tool_streak tool [] = (0, 0)"
| "tool_streak tool (r # rs) =
     (if cr_tool r \<noteq> tool then (0, 0)
      else case tool_streak tool rs of (consecutive, failing) \<Rightarrow>
        (consecutive + 1, if cr_failed r then failing + 1 else failing))"

definition resolve_same_tool_threshold :: "string \<Rightarrow> nat \<Rightarrow> nat" where
  "resolve_same_tool_threshold tool failing_count =
     (let high = tool \<in> set high_tolerance_tools;
          base = (if high then same_tool_base_high else same_tool_base_normal)
      in if same_tool_drop_trigger \<le> failing_count
         then min base (if high then same_tool_failing_high else same_tool_failing_normal)
         else base)"

definition em_dash :: string where
  "em_dash = [CHR 0xE2, CHR 0x80, CHR 0x94]"

definition detect_same_tool :: "detector \<Rightarrow> loop_detection option res" where
  "detect_same_tool d = (let calls = ld_calls d in
     if length calls < same_tool_base_normal then Inr None
     else let l = last calls
          in case tool_streak (cr_tool l) (rev calls) of (consecutive, failing_among) \<Rightarrow>
            if resolve_same_tool_threshold (cr_tool l) failing_among \<le> consecutive
            then bind_res (make_detection (cr_tool l) consecutive
              (''Tool \"'' @ cr_tool l @ ''\" used '' @ nat_str consecutive @ '' times in a row '' @
               em_dash @ '' consider a different approach.'')) (\<lambda>x. Inr (Some x))
            else Inr None)"

definition jaccard_similarity :: "string \<Rightarrow> string \<Rightarrow> rat" where
  "jaccard_similarity a b =
     (if a = b then 1
      else if a = [] \<or> b = [] then 0
      else let set_a = set (split_ws a); set_b = set (split_ws b); union = set_a \<union> set_b
           in if union = {} then 0
              else fl64 (of_nat (card (set_a \<inter> set_b)) / of_nat (card union)))"

definition detect_text_repetition :: "detector \<Rightarrow> loop_detection option res" where
  "detect_text_repetition d = (let texts = ld_texts d in
     if length texts < text_repeat_threshold then Inr None
     else let l = last texts;
              repeats = count_while
                (\<lambda>t. text_similarity_threshold \<le> jaccard_similarity l t) (rev texts)
          in if text_repeat_threshold \<le> repeats
             then bind_res (make_detection ''(no-tool)'' repeats
               (''Assistant repeated near-identical text '' @ nat_str repeats @
                '' times in a row; stopping to break the repetition loop.'')) (\<lambda>x. Inr (Some x))
             else Inr None)"

section \<open>Histories\<close>

text \<open>The recording calls of a client, and the calls recorded since the last reset, the latest
  first.\<close>

datatype 'p loop_op = Record string 'p bool | No_Action | Step_Text string | Reset

fun apply_op :: "('p \<Rightarrow> string) \<Rightarrow> 'p loop_op \<Rightarrow> detector \<Rightarrow> detector" where
  "apply_op dumps (Record tool params failed) d = record_call dumps tool params failed d"
| "apply_op dumps No_Action d = snd (record_no_action d)"
| "apply_op dumps (Step_Text t) d = record_step_text t d"
| "apply_op dumps Reset d = reset_detector d"

fun history_step :: "('p \<Rightarrow> string) \<Rightarrow> 'p loop_op \<Rightarrow> call_record list \<Rightarrow> call_record list" where
  "history_step dumps (Record tool params failed) h = call_of dumps tool params failed # h"
| "history_step dumps Reset h = []"
| "history_step dumps _ h = h"

definition run_detector :: "('p \<Rightarrow> string) \<Rightarrow> 'p loop_op list \<Rightarrow> detector" where
  "run_detector dumps ops = fold (apply_op dumps) ops new_detector"

definition history :: "('p \<Rightarrow> string) \<Rightarrow> 'p loop_op list \<Rightarrow> call_record list" where
  "history dumps ops = fold (history_step dumps) ops []"

definition window_of :: "call_record list \<Rightarrow> detector \<Rightarrow> bool" where
  "window_of h d \<longleftrightarrow> rev (ld_calls d) = take recent_calls_window h \<and> ld_total d = length h"

lemma window_of_apply:
  "window_of h d \<Longrightarrow> window_of (history_step dumps x h) (apply_op dumps x d)"
  by (cases x) (auto simp: window_of_def record_call_def rev_deque_append record_no_action_def
      record_step_text_def reset_detector_def Let_def recent_calls_window_def take_Cons')

lemma window_of_run: "window_of (history dumps ops) (run_detector dumps ops)"
proof -
  have "window_of h d \<Longrightarrow> window_of (fold (history_step dumps) ops h) (fold (apply_op dumps) ops d)"
    for h d by (induction ops arbitrary: h d) (simp_all add: window_of_apply)
  moreover have "window_of [] new_detector"
    by (simp add: window_of_def new_detector_def)
  ultimately show ?thesis by (simp add: history_def run_detector_def)
qed

lemma window_last: "window_of h d \<Longrightarrow> ld_calls d \<noteq> [] \<Longrightarrow> last (ld_calls d) = hd h"
  by (cases h) (auto simp: window_of_def hd_rev [symmetric] recent_calls_window_def)

lemma window_length: "window_of h d \<Longrightarrow> length (ld_calls d) = min (length h) 30"
  by (metis length_rev length_take window_of_def recent_calls_window_def)

lemma window_count:
  assumes "window_of h d" and "n \<le> 30"
  shows "n \<le> count_while P (rev (ld_calls d)) \<longleftrightarrow> n \<le> length h \<and> list_all P (take n h)"
  using assms by (auto simp: window_of_def recent_calls_window_def count_while_ge_iff min_def)

text \<open>The call window loses nothing the caps look at. After any sequence of recordings and
  resets, the absolute limit fires exactly when at least 25 calls were recorded since the last
  reset or at least 12 of them failed: the window of 30 calls and the early return decide the same
  as the full history would.\<close>

theorem absolute_limit_exact:
  "detect_absolute_limit (run_detector dumps ops) \<longleftrightarrow>
     25 \<le> length (history dumps ops) \<or> 12 \<le> length (filter cr_failed (history dumps ops))"
proof -
  let ?d = "run_detector dumps ops" and ?h = "history dumps ops"
  have w: "rev (ld_calls ?d) = take 30 ?h" "ld_total ?d = length ?h"
    using window_of_run [of dumps ops] by (simp_all add: window_of_def recent_calls_window_def)
  have "length (filter cr_failed (ld_calls ?d)) = length (filter cr_failed (take 30 ?h))"
    using w(1) by (metis length_rev rev_filter)
  then show ?thesis
    using w(2) by (auto simp: detect_absolute_limit_def detector_constants)
qed

text \<open>What the hard-abort probes look for, over the history.\<close>

definition same_call :: "call_record \<Rightarrow> call_record \<Rightarrow> bool" where
  "same_call l r = (cr_tool r = cr_tool l \<and> cr_params r = cr_params l)"

definition same_failing :: "call_record \<Rightarrow> call_record \<Rightarrow> bool" where
  "same_failing l r = (cr_tool r = cr_tool l \<and> cr_failed r)"

definition identical_loop :: "call_record list \<Rightarrow> bool" where
  "identical_loop h = (3 \<le> length h \<and> list_all (same_call (hd h)) (take 3 h))"

definition failing_loop :: "call_record list \<Rightarrow> bool" where
  "failing_loop h = (4 \<le> length h \<and> list_all (same_failing (hd h)) (take 4 h))"

lemma window_last_hd: "window_of h d \<Longrightarrow> h \<noteq> [] \<Longrightarrow> last (ld_calls d) = hd h"
  by (rule window_last, assumption) (use window_length [of h d] in \<open>auto simp: min_def split: if_splits\<close>)

lemma detect_identical_eq:
  assumes "window_of h d"
  shows "\<exists>r. r \<noteq> Inr None \<and>
    detect_identical d = (if identical_loop h then (r, d\<lparr>ld_aborted := True\<rparr>) else (Inr None, d))"
proof (cases "3 \<le> length h")
  case False
  then show ?thesis using window_length [OF assms]
    by (intro exI [of _ "Inl ValueError"])
      (simp add: detect_identical_def seq_apply identical_loop_def identical_threshold_def)
next
  case True
  then have l: "last (ld_calls d) = hd h" by (intro window_last_hd [OF assms]) auto
  have len: "\<not> length (ld_calls d) < 3" using True window_length [OF assms] by simp
  have P: "(\<lambda>r. cr_tool r = cr_tool l \<and> cr_params r = cr_params l) = same_call l" for l
    by (simp add: fun_eq_iff same_call_def)
  let ?n = "count_while (same_call (hd h)) (rev (ld_calls d))"
  have c: "3 \<le> ?n \<longleftrightarrow> identical_loop h"
    using window_count [OF assms, of 3] by (simp add: identical_loop_def)
  have run: "detect_identical d = (if 3 \<le> ?n
    then seq (modify (ld_aborted_update (\<lambda>_. True))) (\<lambda>_.
               seq (lift_res (make_detection (cr_tool (hd h)) ?n
                 (''Tool \"'' @ cr_tool (hd h) @ ''\" called '' @ nat_str ?n @
                  '' times with identical params; stopping to avoid budget burn.'')))
               (\<lambda>x. ret (Some x))) d
    else (Inr None, d))"
    using len
    by (simp add: detect_identical_def seq_apply [of "gets _"] Let_def identical_threshold_def l P)
  show ?thesis
    by (cases "identical_loop h") (auto simp: run c seq_apply make_detection_def)
qed

lemma detect_similar_failing_eq:
  assumes "window_of h d"
  shows "\<exists>r. r \<noteq> Inr None \<and>
    detect_similar_failing d = (if failing_loop h then (r, d\<lparr>ld_aborted := True\<rparr>) else (Inr None, d))"
proof (cases "4 \<le> length h \<and> cr_failed (hd h)")
  case False
  then have "\<not> failing_loop h" by (cases h) (auto simp: failing_loop_def same_failing_def)
  moreover have "h \<noteq> [] \<Longrightarrow> last (ld_calls d) = hd h" using window_last_hd [OF assms] .
  ultimately show ?thesis using window_length [OF assms] False
    by (cases "h = []") (auto simp: detect_similar_failing_def seq_apply similar_failing_threshold_def)
next
  case True
  then have l: "last (ld_calls d) = hd h" by (intro window_last_hd [OF assms]) auto
  have len: "\<not> length (ld_calls d) < 4" using True window_length [OF assms] by (simp add: min_def)
  have P: "(\<lambda>r. \<not> (cr_tool r \<noteq> cr_tool l \<or> \<not> cr_failed r)) = same_failing l" for l
    by (simp add: fun_eq_iff same_failing_def)
  let ?n = "count_while (same_failing (hd h)) (rev (ld_calls d))"
  have c: "4 \<le> ?n \<longleftrightarrow> failing_loop h"
    using window_count [OF assms, of 4] by (simp add: failing_loop_def)
  have run: "detect_similar_failing d = (if 4 \<le> ?n
    then seq (modify (ld_aborted_update (\<lambda>_. True))) (\<lambda>_.
               seq (lift_res (make_detection (cr_tool (hd h)) ?n
                 (''Tool \"'' @ cr_tool (hd h) @ ''\" called '' @ nat_str ?n @
                  '' times, all failing; stopping the agent loop.'')))
               (\<lambda>x. ret (Some x))) d
    else (Inr None, d))"
    using len True
    by (simp only: detect_similar_failing_def seq_apply [of "gets _"] Let_def
        similar_failing_threshold_def gets_apply prod.case sum.case l P) simp
  show ?thesis
    by (cases "failing_loop h") (auto simp: run c seq_apply make_detection_def)
qed

text \<open>The two hard-abort probes see the full history. After any recordings, the
  identical-loop probe reports exactly when the last three calls since the reset share tool and
  parameter key, and the failing-loop probe exactly when the last four share the tool and all
  failed; each marks the detector aborted when it fires, also when the report itself is refused
  because the tool name is empty, and changes nothing when it does not.\<close>

theorem hard_abort_probes:
  "(fst (detect_identical (run_detector dumps ops)) = Inr None) = (\<not> identical_loop (history dumps ops)) \<and>
   snd (detect_identical (run_detector dumps ops)) = (if identical_loop (history dumps ops)
     then (run_detector dumps ops)\<lparr>ld_aborted := True\<rparr> else run_detector dumps ops) \<and>
   (fst (detect_similar_failing (run_detector dumps ops)) = Inr None) = (\<not> failing_loop (history dumps ops)) \<and>
   snd (detect_similar_failing (run_detector dumps ops)) = (if failing_loop (history dumps ops)
     then (run_detector dumps ops)\<lparr>ld_aborted := True\<rparr> else run_detector dumps ops)"
  using detect_identical_eq [OF window_of_run [of dumps ops]]
    detect_similar_failing_eq [OF window_of_run [of dumps ops]]
  by (cases "identical_loop (history dumps ops)"; cases "failing_loop (history dumps ops)") auto

text \<open>The soft warning: a tool's streak over the history.\<close>

lemma tool_streak_takeWhile:
  "tool_streak t rs = (let ys = takeWhile (\<lambda>r. cr_tool r = t) rs in (length ys, length (filter cr_failed ys)))"
  by (induction rs) (auto simp: Let_def split: prod.splits)

lemma tool_streak_failing_le: "snd (tool_streak t rs) \<le> fst (tool_streak t rs)"
  by (simp add: tool_streak_takeWhile Let_def)

text \<open>When the soft same-tool warning fires. On the streak of the last tool in the window: for a
  tool of the high-tolerance list it fires from five calls in a row, or from three failures in the
  streak; for every other tool from three calls in a row, and the lower threshold of two for a
  failing streak never decides anything, because three failures already make three calls.\<close>

theorem same_tool_threshold:
  "resolve_same_tool_threshold t (snd (tool_streak t rs)) \<le> fst (tool_streak t rs) \<longleftrightarrow>
     (if t \<in> set high_tolerance_tools
      then 5 \<le> fst (tool_streak t rs) \<or> 3 \<le> snd (tool_streak t rs)
      else 3 \<le> fst (tool_streak t rs))"
  using tool_streak_failing_le [of t rs]
  by (auto simp: resolve_same_tool_threshold_def detector_constants Let_def)

end
