(* ===== verification/Preflight.thy ===== *)
theory Preflight
  imports Loop_Detector
begin

text \<open>
  The pre-flight scanner (\<open>orchestrator/preflight.py\<close>), which looks at recent tool names and
  texts before a call, and the interval-based fire tracker (\<open>orchestrator/heartbeat.py\<close>).
\<close>

section \<open>Scanning recent activity\<close>

datatype preflight_kind = REPEATED_TOOL | REPEATED_TEXT

record preflight_warning =
  pw_kind :: preflight_kind
  pw_detail :: string

definition to_system_message :: "preflight_warning \<Rightarrow> string" where
  "to_system_message w = ''[PREFLIGHT WARNING] '' @ pw_detail w"

definition min_text_length :: nat where
  "min_text_length = 20"

definition scan_tool_repetition :: "string list \<Rightarrow> int \<Rightarrow> preflight_warning option res" where
  "scan_tool_repetition tool_history threshold =
     (if threshold \<le> 0 then Inl ValueError
      else if int (length tool_history) < threshold then Inr None
      else let l = last tool_history;
               streak = count_while (\<lambda>name. name = l) (rev tool_history)
           in if int streak < threshold then Inr None
              else Inr (Some \<lparr>pw_kind = REPEATED_TOOL,
                pw_detail = ''Tool \"'' @ l @ ''\" was used '' @ nat_str streak @
                  '' times in a row. Consider a different approach for the next call.''\<rparr>))"

definition normalise_for_jaccard :: "string \<Rightarrow> string" where
  "normalise_for_jaccard text = join '' '' (split_ws (str_lower text))"

definition jaccard_word_similarity :: "string \<Rightarrow> string \<Rightarrow> rat" where
  "jaccard_word_similarity a b =
     (if a = b then 1
      else if a = [] \<or> b = [] then 0
      else let set_a = set (split_ws a); set_b = set (split_ws b); union = set_a \<union> set_b
           in if union = {} then 0
              else fl64 (of_nat (card (set_a \<inter> set_b)) / of_nat (card union)))"

definition scan_text_repetition :: "string list \<Rightarrow> int \<Rightarrow> rat \<Rightarrow> preflight_warning option res" where
  "scan_text_repetition text_history threshold similarity_threshold =
     (if threshold \<le> 0 then Inl ValueError
      else if \<not> (0 \<le> similarity_threshold \<and> similarity_threshold \<le> 1) then Inl ValueError
      else let eligible = filter (\<lambda>t. min_text_length \<le> length t) text_history
           in if int (length eligible) < threshold then Inr None
              else let last_norm = normalise_for_jaccard (last eligible);
                       streak = count_while (\<lambda>t. similarity_threshold \<le>
                         jaccard_word_similarity last_norm (normalise_for_jaccard t)) (rev eligible)
                   in if int streak < threshold then Inr None
                      else Inr (Some \<lparr>pw_kind = REPEATED_TEXT,
                        pw_detail = ''Your last '' @ nat_str streak @
                          '' responses are near-identical. Stop repeating; either give a substantively different response or clearly state that the task cannot be completed.''\<rparr>))"

definition compose_preflight_message :: "preflight_warning list \<Rightarrow> string" where
  "compose_preflight_message warnings =
     (if warnings = [] then []
      else join [newline, newline] (map to_system_message warnings))"

lemma jaccard_same: "jaccard_word_similarity a a = 1"
  by (simp add: jaccard_word_similarity_def)

lemma jaccard_sym: "jaccard_word_similarity a b = jaccard_word_similarity b a"
  by (auto simp: jaccard_word_similarity_def Let_def Un_commute Int_commute)

lemma int_streak:
  "0 < k \<Longrightarrow> \<not> int (length xs) < k \<Longrightarrow>
     int (count_while P (rev xs)) < k \<longleftrightarrow> \<not> list_all P (take (nat k) (rev xs))"
  using count_while_ge_iff [of "nat k" P "rev xs"] by (auto simp: nat_le_iff)

lemma tool_scan_warns_iff:
  "(\<exists>w. scan_tool_repetition hist k = Inr (Some w)) \<longleftrightarrow>
     0 < k \<and> k \<le> int (length hist) \<and> (\<exists>name. take (nat k) (rev hist) = replicate (nat k) name)"
proof (cases "0 < k \<and> k \<le> int (length hist)")
  case False
  then show ?thesis by (auto simp: scan_tool_repetition_def)
next
  case True
  then have ne: "hist \<noteq> []" "rev hist \<noteq> []" by auto
  have len: "length (take (nat k) (rev hist)) = nat k" using True nat_le_iff [of k "length hist"] by simp
  have "list_all (\<lambda>name. name = last hist) (take (nat k) (rev hist)) \<longleftrightarrow>
      (\<exists>name. take (nat k) (rev hist) = replicate (nat k) name)"
  proof
    assume "list_all (\<lambda>name. name = last hist) (take (nat k) (rev hist))"
    then show "\<exists>name. take (nat k) (rev hist) = replicate (nat k) name"
      using replicate_length_same [of "take (nat k) (rev hist)" "last hist"] len
      by (auto simp only: list_all_iff intro!: exI [of _ "last hist"])
  next
    assume "\<exists>name. take (nat k) (rev hist) = replicate (nat k) name"
    then obtain name where n: "take (nat k) (rev hist) = replicate (nat k) name" ..
    moreover have "hd (take (nat k) (rev hist)) = last hist"
      using True ne by (simp add: hd_rev)
    moreover have "nat k \<noteq> 0" using True by simp
    ultimately have "name = last hist" by (metis hd_replicate)
    with n show "list_all (\<lambda>name. name = last hist) (take (nat k) (rev hist))"
      by (simp add: list_all_iff)
  qed
  then show ?thesis
    using True int_streak [of k hist "\<lambda>name. name = last hist"]
    by (simp add: scan_tool_repetition_def Let_def)
qed

text \<open>The pre-flight tool scan reports exactly the repetitions. A non-positive threshold is a
  \<open>ValueError\<close>; for a positive one \<open>k\<close> there is a warning if and only if the history holds at
  least \<open>k\<close> names and its last \<open>k\<close> names are all equal.\<close>

theorem tool_scan_exact:
  "(scan_tool_repetition hist k = Inl ValueError \<longleftrightarrow> k \<le> 0) \<and>
   ((\<exists>w. scan_tool_repetition hist k = Inr (Some w)) \<longleftrightarrow>
     0 < k \<and> k \<le> int (length hist) \<and> (\<exists>name. take (nat k) (rev hist) = replicate (nat k) name))"
  using tool_scan_warns_iff [of hist k] by (simp add: scan_tool_repetition_def Let_def)

section \<open>The heartbeat\<close>

text \<open>Instants and intervals in microseconds.\<close>

record heartbeat =
  hb_interval :: int
  hb_last_fired :: "int option"

definition new_heartbeat :: "int \<Rightarrow> heartbeat res" where
  "new_heartbeat interval =
     (if interval \<le> 0 then Inl ValueError else Inr \<lparr>hb_interval = interval, hb_last_fired = None\<rparr>)"

definition is_due :: "heartbeat \<Rightarrow> int \<Rightarrow> bool" where
  "is_due h now = (case hb_last_fired h of None \<Rightarrow> True | Some t \<Rightarrow> hb_interval h \<le> now - t)"

definition fire :: "heartbeat \<Rightarrow> int \<Rightarrow> heartbeat" where
  "fire h now = h\<lparr>hb_last_fired := Some now\<rparr>"

text \<open>The polling loop of a client: a clock reading for \<open>is\_due\<close>, and when due another for
  \<open>fire\<close>. The result is the list of instants at which it fired.\<close>

fun poll :: "heartbeat \<Rightarrow> (int \<times> int) list \<Rightarrow> int list" where
  "poll h [] = []"
| "poll h ((now, now') # rs) =
     (if is_due h now then now' # poll (fire h now') rs else poll h rs)"

fun spaced :: "int \<Rightarrow> int list \<Rightarrow> bool" where
  "spaced d [] = True"
| "spaced d [_] = True"
| "spaced d (x # y # zs) = (d \<le> y - x \<and> spaced d (y # zs))"

lemma poll_spaced:
  assumes "\<forall>(a, b)\<in>set rs. a \<le> b"
  shows "(case hb_last_fired h of None \<Rightarrow> True | Some t \<Rightarrow> spaced (hb_interval h) (t # poll h rs)) \<and>
    spaced (hb_interval h) (poll h rs)"
  using assms
proof (induction rs arbitrary: h)
  case Nil
  then show ?case by (auto split: option.splits)
next
  case (Cons r rs)
  obtain a b where r: "r = (a, b)" by (cases r)
  have IH: "spaced (hb_interval h) (b # poll (fire h b) rs)"
    using Cons.IH [of "fire h b"] Cons.prems by (auto simp: fire_def)
  show ?case
    using IH Cons.IH [of h] Cons.prems r by (auto simp: is_due_def split: option.splits)
qed

text \<open>Fires are at least an interval apart. A client that fires only when the heartbeat is due,
  with a clock that does not go back between the check and the fire, fires at instants of which
  neighbours are at least the interval apart.\<close>

theorem fires_spaced:
  assumes "new_heartbeat d = Inr h" and "\<forall>(a, b)\<in>set rs. a \<le> b"
  shows "spaced d (poll h rs)"
  using poll_spaced [OF assms(2), of h] assms(1)
  by (auto simp: new_heartbeat_def split: if_splits)

theorem fires_spaced_witness: "spaced 10 (poll \<lparr>hb_interval = 10, hb_last_fired = None\<rparr>
    [(0, 1), (5, 5), (11, 12), (21, 22), (22, 23)]) \<and>
  poll \<lparr>hb_interval = 10, hb_last_fired = None\<rparr> [(0, 1), (5, 5), (11, 12), (21, 22), (22, 23)] = [1, 12, 23]"
  using fires_spaced [of 10 "\<lparr>hb_interval = 10, hb_last_fired = None\<rparr>"
      "[(0, 1), (5, 5), (11, 12), (21, 22), (22, 23)]"]
  by (simp add: new_heartbeat_def is_due_def fire_def)

end
