(* ===== verification/Trade_Stream.thy ===== *)
theory Trade_Stream
  imports Event_Log Json Journal
begin

text \<open>
  The trade-update subscriber (\<open>execution/alpaca\_stream.py\<close>): the decoder of one message and
  the loop \<open>consume\<close> over the messages of the venue, which books every update in the journal
  and then appends its event to the log. \<open>tm\<close> is \<open>time.time\<close>, \<open>other\<close> the \<open>str\<close> of a JSON
  float or container.
\<close>

section \<open>Decoding\<close>

datatype update_kind = TU_FILL | TU_PARTIAL_FILL | TU_CANCELED | TU_REJECTED

definition update_kind_of :: "string \<Rightarrow> update_kind option" where
  "update_kind_of s = (if s = ''fill'' then Some TU_FILL
     else if s = ''partial_fill'' then Some TU_PARTIAL_FILL
     else if s = ''canceled'' then Some TU_CANCELED
     else if s = ''rejected'' then Some TU_REJECTED else None)"

definition is_fill :: "update_kind \<Rightarrow> bool" where
  "is_fill k = (k \<in> {TU_FILL, TU_PARTIAL_FILL})"

record trade_update =
  tu_kind :: update_kind
  tu_order_id :: string
  tu_client :: string
  tu_symbol :: string
  tu_side :: string
  tu_qty :: "py_number option"
  tu_price :: "py_number option"
  tu_reason :: "string option"
  tu_fill_id :: "string option"

type_synonym message = "(string \<times> json) list"

text \<open>Quantity, price and execution id of a fill: \<open>None\<close> drops the message.\<close>

definition decode_fill :: "(json \<Rightarrow> string) \<Rightarrow> message \<Rightarrow>
    (py_number \<times> py_number \<times> string option) option res" where
  "decode_fill other data = (case (get_value data ''qty'', get_value data ''price'') of
     (Some qr, Some pr) \<Rightarrow>
       (case (decimal_of (json_str other qr), decimal_of (json_str other pr)) of
          (Inr q, Inr p) \<Rightarrow>
            bind_res (number_le_zero q) (\<lambda>bad. if bad then Inr None else
            bind_res (number_le_zero p) (\<lambda>bad. if bad then Inr None else
              Inr (Some (q, p, case as_string (map_of data ''execution_id'') of
                 None \<Rightarrow> None | Some x \<Rightarrow> if x = [] then None else Some x))))
        | _ \<Rightarrow> Inr None)
   | _ \<Rightarrow> Inr None)"

definition decode_order :: "(json \<Rightarrow> string) \<Rightarrow> update_kind \<Rightarrow> message \<Rightarrow> message \<Rightarrow>
    trade_update option res" where
  "decode_order other kind data order =
     (let u = \<lparr>tu_kind = kind, tu_order_id = get_str other order ''id'',
        tu_client = get_str other order ''client_order_id'', tu_symbol = get_str other order ''symbol'',
        tu_side = get_str other order ''side'', tu_qty = None, tu_price = None,
        tu_reason = (if is_fill kind then None else as_string (map_of data ''reason'')),
        tu_fill_id = None\<rparr>
      in if tu_order_id u = [] \<or> tu_client u = [] \<or> tu_symbol u = [] \<or> tu_side u = [] then Inr None
         else if is_fill kind
         then bind_res (decode_fill other data) (\<lambda>x. case x of None \<Rightarrow> Inr None
           | Some (q, p, fid) \<Rightarrow> Inr (Some (u\<lparr>tu_qty := Some q, tu_price := Some p, tu_fill_id := fid\<rparr>)))
         else Inr (Some u))"

definition decode_trade_update :: "(json \<Rightarrow> string) \<Rightarrow> message \<Rightarrow> trade_update option res" where
  "decode_trade_update other raw = (case as_object (map_of raw ''data'') of None \<Rightarrow> Inr None
     | Some data \<Rightarrow> (case as_string (map_of data ''event'') of None \<Rightarrow> Inr None
         | Some name \<Rightarrow> (case update_kind_of name of None \<Rightarrow> Inr None
             | Some kind \<Rightarrow> (case as_object (map_of data ''order'') of None \<Rightarrow> Inr None
                 | Some order \<Rightarrow> decode_order other kind data order))))"

section \<open>Consuming\<close>

text \<open>The log and the world, with the journal if there is one.\<close>

record 'w stream =
  sm_sys :: "'w sys"
  sm_journal :: "journal option"

type_synonym resolver = "string \<Rightarrow> string option"

record 'w stream_env =
  se_env :: "'w env"
  se_time :: "'w \<Rightarrow> rat \<times> 'w"
  se_other :: "json \<Rightarrow> string"
  se_cycle :: "resolver option"
  se_decision :: "resolver option"

definition in_stream :: "('w sys, 'a) eff \<Rightarrow> ('w stream, 'a) eff" where
  "in_stream m = zoom sm_sys (\<lambda>s st. st\<lparr>sm_sys := s\<rparr>) m"

text \<open>A write to the journal, if there is one; without one every update is new.\<close>

definition in_journal :: "'w stream_env \<Rightarrow> (rat \<Rightarrow> journal \<Rightarrow> bool \<times> journal) \<Rightarrow> ('w stream, bool) eff" where
  "in_journal se f = seq (gets sm_journal) (\<lambda>oj. case oj of None \<Rightarrow> ret True
     | Some j \<Rightarrow> seq (in_stream (in_world (call (se_time se)))) (\<lambda>now.
         case f now j of (new, j') \<Rightarrow> seq (modify (\<lambda>st. st\<lparr>sm_journal := Some j'\<rparr>)) (\<lambda>_. ret new)))"

definition text_of :: "py_number option \<Rightarrow> string" where
  "text_of x = (case x of None \<Rightarrow> ''None'' | Some d \<Rightarrow> number_str d)"

definition number_or :: "py_number option \<Rightarrow> py_number" where
  "number_or x = (case x of None \<Rightarrow> Not_A_Number | Some d \<Rightarrow> d)"

definition update_event :: "'w env \<Rightarrow> string \<Rightarrow> string \<Rightarrow> trade_update \<Rightarrow> ('w, cycle_event) eff" where
  "update_event env cycle decision u = (if is_fill (tu_kind u)
     then broker_live_filled_event env cycle decision (tu_order_id u) (tu_client u) (tu_symbol u)
       (tu_side u) (text_of (tu_qty u)) (text_of (tu_price u)) (tu_kind u = TU_PARTIAL_FILL)
     else broker_live_cancelled_event env cycle decision (tu_order_id u) (tu_client u) (tu_symbol u)
       (tu_side u) (tu_reason u))"

definition book_update :: "trade_update \<Rightarrow> rat \<Rightarrow> journal \<Rightarrow> bool \<times> journal" where
  "book_update u now j = (if is_fill (tu_kind u)
     then record_fill now (tu_client u) (number_or (tu_qty u)) (number_or (tu_price u))
       (tu_kind u = TU_PARTIAL_FILL) (tu_fill_id u) j
     else record_cancel now (tu_client u) (tu_reason u) j)"

text \<open>One round of the loop. \<open>rc\<close> and \<open>rd\<close> resolve against the state: the default resolvers
  read the journal.\<close>

definition consume_one :: "'w stream_env \<Rightarrow> ('w stream \<Rightarrow> resolver) \<Rightarrow> ('w stream \<Rightarrow> resolver) \<Rightarrow>
    message \<Rightarrow> ('w stream, unit) eff" where
  "consume_one se rc rd raw = (case decode_trade_update (se_other se) raw of
     Inl _ \<Rightarrow> ret ()
   | Inr None \<Rightarrow> ret ()
   | Inr (Some u) \<Rightarrow> seq (gets (\<lambda>st. (rc st (tu_client u), rd st (tu_client u)))) (\<lambda>who. case who of
       (Some cycle, Some decision) \<Rightarrow>
         seq (in_journal se (book_update u)) (\<lambda>new.
         if new then in_stream (emit (se_env se) (update_event (se_env se) cycle decision u)) else ret ())
     | _ \<Rightarrow> ret ()))"

definition journal_resolver :: "(journal \<Rightarrow> resolver) \<Rightarrow> 'w stream \<Rightarrow> resolver" where
  "journal_resolver f st c = (case sm_journal st of None \<Rightarrow> None | Some j \<Rightarrow> f j c)"

definition consume_stream :: "'w stream_env \<Rightarrow> message list \<Rightarrow> ('w stream, unit) eff" where
  "consume_stream se ms = seq (gets sm_journal) (\<lambda>oj.
     case (se_cycle se, se_decision se) of
       (Some rc, Some rd) \<Rightarrow> for_each (consume_one se (\<lambda>_. rc) (\<lambda>_. rd)) ms
     | (None, None) \<Rightarrow> if oj = None then raise ValueError
         else for_each (consume_one se (journal_resolver cycle_resolver) (journal_resolver decision_resolver)) ms
     | _ \<Rightarrow> raise ValueError)"

section \<open>What the decoder lets through\<close>

definition positive :: "py_number \<Rightarrow> bool" where
  "positive x = (case x of Finite d \<Rightarrow> dec_lt dzero d | Infinity neg \<Rightarrow> \<not> neg | Not_A_Number \<Rightarrow> False)"

lemma number_le_zero_False: "number_le_zero x = Inr False \<longleftrightarrow> positive x"
  by (cases x) (auto simp: positive_def dec_cmp)

definition update_ok :: "trade_update \<Rightarrow> bool" where
  "update_ok u \<longleftrightarrow> tu_order_id u \<noteq> [] \<and> tu_client u \<noteq> [] \<and> tu_symbol u \<noteq> [] \<and> tu_side u \<noteq> [] \<and>
     (if is_fill (tu_kind u) then (\<exists>q p. tu_qty u = Some q \<and> tu_price u = Some p \<and> positive q \<and> positive p) \<and>
         tu_reason u = None \<and> tu_fill_id u \<noteq> Some []
      else tu_qty u = None \<and> tu_price u = None \<and> tu_fill_id u = None)"

lemma decode_fill_ok:
  assumes "decode_fill other data = Inr (Some (q, p, fid))"
  shows "positive q \<and> positive p \<and> fid \<noteq> Some []"
  using assms
  by (auto simp: decode_fill_def bind_res_Inr_iff number_le_zero_False
      split: option.splits sum.splits if_splits)

lemma decode_order_ok:
  assumes "decode_order other kind data order = Inr (Some u)"
  shows "update_ok u"
proof -
  let ?u = "\<lparr>tu_kind = kind, tu_order_id = get_str other order ''id'',
        tu_client = get_str other order ''client_order_id'', tu_symbol = get_str other order ''symbol'',
        tu_side = get_str other order ''side'', tu_qty = None, tu_price = None,
        tu_reason = (if is_fill kind then None else as_string (map_of data ''reason'')),
        tu_fill_id = None\<rparr>"
  have names: "get_str other order ''id'' \<noteq> []" "get_str other order ''client_order_id'' \<noteq> []"
    "get_str other order ''symbol'' \<noteq> []" "get_str other order ''side'' \<noteq> []"
    using assms by (simp_all add: decode_order_def Let_def split: if_splits)
  show ?thesis
  proof (cases "is_fill kind")
    case False
    with assms names have "u = ?u" by (simp add: decode_order_def Let_def)
    with False names show ?thesis by (simp add: update_ok_def)
  next
    case True
    with assms names obtain q p fid where d: "decode_fill other data = Inr (Some (q, p, fid))"
      and u: "u = ?u\<lparr>tu_qty := Some q, tu_price := Some p, tu_fill_id := fid\<rparr>"
      by (auto simp: decode_order_def Let_def bind_res_Inr_iff split: option.splits)
    with True names decode_fill_ok [OF d] show ?thesis by (simp add: update_ok_def)
  qed
qed

lemma decoded_ok:
  assumes "decode_trade_update other raw = Inr (Some u)"
  shows "update_ok u"
proof -
  obtain data where data: "as_object (map_of raw ''data'') = Some data"
    using assms by (cases "as_object (map_of raw ''data'')") (simp_all add: decode_trade_update_def)
  obtain name where name: "as_string (map_of data ''event'') = Some name"
    using assms data by (cases "as_string (map_of data ''event'')") (simp_all add: decode_trade_update_def)
  obtain kind where kind: "update_kind_of name = Some kind"
    using assms data name by (cases "update_kind_of name") (simp_all add: decode_trade_update_def)
  obtain order where "as_object (map_of data ''order'') = Some order"
    using assms data name kind by (cases "as_object (map_of data ''order'')") (simp_all add: decode_trade_update_def)
  with assms data name kind show ?thesis by (simp add: decode_trade_update_def decode_order_ok)
qed

text \<open>What the decoder lets through. An update it returns names an order, a client order id,
  a symbol and a side; a fill has a quantity and a price above zero, which are decimals or the
  positive infinity \<open>Decimal\<close> also reads, and an execution id that is not empty if there is one;
  a cancellation or rejection has neither. Everything else is dropped or, for a quantity or price
  that is not a number, raises.\<close>

theorem decoded_updates_ok:
  assumes "decode_trade_update other raw = Inr (Some u)"
  shows "update_ok u"
  using assms by (rule decoded_ok)

definition sample_fill :: "decimal \<Rightarrow> string \<Rightarrow> message" where
  "sample_fill qty execution = [(''stream'', JStr ''trade_updates''), (''data'', JObj
     [(''event'', JStr ''fill''), (''order'', JObj [(''id'', JStr ''v1''), (''client_order_id'', JStr ''o''),
        (''symbol'', JStr ''AAPL''), (''side'', JStr ''buy'')]),
      (''qty'', JStr (dec_str qty)), (''price'', JStr (dec_str (Dec 18005 (- 2)))),
      (''execution_id'', JStr execution)])]"

definition sample_update :: trade_update where
  "sample_update = \<lparr>tu_kind = TU_FILL, tu_order_id = ''v1'', tu_client = ''o'', tu_symbol = ''AAPL'',
     tu_side = ''buy'', tu_qty = Some (Finite (Dec 10 0)), tu_price = Some (Finite (Dec 18005 (- 2))),
     tu_reason = None, tu_fill_id = Some ''x1''\<rparr>"

lemma sample_fill_decodes: "decode_trade_update other (sample_fill (Dec 10 0) ''x1'') = Inr (Some sample_update)"
proof -
  have pos: "\<not> dec_le (Dec 10 0) dzero" "\<not> dec_le (Dec 18005 (- 2)) dzero" by code_simp+
  have u: "update_kind_of ''fill'' = Some TU_FILL" "is_fill TU_FILL"
    by (simp_all add: update_kind_of_def is_fill_def)
  show ?thesis
    by (simp add: decode_trade_update_def sample_fill_def as_object_def as_string_def u decode_order_def
        decode_fill_def get_str_def get_value_def decimal_of_dec_str pos sample_update_def Let_def)
qed

theorem decoded_updates_ok_witness: "update_ok sample_update"
  by (rule decoded_updates_ok [OF sample_fill_decodes])

end
