(* ===== verification/Stream_Laws.thy ===== *)
theory Stream_Laws
  imports Trade_Stream
begin

text \<open>
  What the trade-update stream makes of at-least-once delivery: a redelivered message changes
  neither the log nor the rows of the journal, and the events it appends mirror the rows it books.
\<close>

section \<open>One round\<close>

lemma in_stream_apply [simp]:
  "in_stream m st = (fst (m (sm_sys st)), st\<lparr>sm_sys := snd (m (sm_sys st))\<rparr>)"
  by (simp add: in_stream_def)

definition journal_rows :: "journal \<Rightarrow> submission list \<times> fill_row list \<times> cancel_row list" where
  "journal_rows j = (jr_submissions j, jr_fills j, jr_cancels j)"

definition rows_of :: "'w stream \<Rightarrow> (submission list \<times> fill_row list \<times> cancel_row list) option" where
  "rows_of st = map_option journal_rows (sm_journal st)"

definition submissions_of :: "'w stream \<Rightarrow> submission list option" where
  "submissions_of st = map_option jr_submissions (sm_journal st)"

definition booked :: "trade_update \<Rightarrow> journal \<Rightarrow> bool" where
  "booked u j = (if is_fill (tu_kind u) then fill_taken j (tu_client u) (tu_fill_id u)
     else tu_client u \<in> set (cancel_keys j))"

definition identified :: "trade_update \<Rightarrow> bool" where
  "identified u = (is_fill (tu_kind u) \<longrightarrow> tu_fill_id u \<noteq> None)"

lemma book_fill: "is_fill (tu_kind u) \<Longrightarrow> tu_fill_id u = Some x \<Longrightarrow>
    book_update u now j = put_fill (tu_client u, x)
      (now, number_or (tu_qty u), number_or (tu_price u), tu_kind u = TU_PARTIAL_FILL) j"
  by (simp add: book_update_def put_fill_def)

lemma book_cancel: "\<not> is_fill (tu_kind u) \<Longrightarrow>
    book_update u now j = put_cancel (tu_client u) (now, tu_reason u) j"
  by (simp add: book_update_def put_cancel_def)

lemma book_old: "booked u j \<Longrightarrow> \<not> fst (book_update u now j) \<and>
    journal_rows (snd (book_update u now j)) = journal_rows j"
  by (auto simp: booked_def book_update_def record_fill_def record_cancel_def cancel_keys_def journal_rows_def
      split: if_splits)

lemma book_submissions [simp]: "jr_submissions (snd (book_update u now j)) = jr_submissions j"
  by (simp add: book_update_def record_fill_def record_cancel_def)

lemma book_remembers: "identified u \<Longrightarrow> booked u (snd (book_update u now j))"
  by (cases "is_fill (tu_kind u)")
    (auto simp: booked_def identified_def fill_taken_iff book_fill book_cancel fills.remembers cancels.remembers)

lemma book_keeps_fills: "set (fill_keys j) \<subseteq> set (fill_keys (snd (book_update v now j)))"
  by (auto simp: book_update_def record_fill_def record_cancel_def fill_keys_add) (simp add: fill_keys_def)

lemma book_keeps_cancels: "set (cancel_keys j) \<subseteq> set (cancel_keys (snd (book_update v now j)))"
  by (auto simp: book_update_def record_fill_def record_cancel_def cancel_keys_def)

lemma book_keeps: "booked u j \<Longrightarrow> booked u (snd (book_update v now j))"
  using book_keeps_fills [of j v now] book_keeps_cancels [of j v now]
  by (auto simp: booked_def fill_taken_iff subset_iff split: if_splits)

text \<open>What a round does to a state with a journal, after its resolvers have answered.\<close>

definition book_and_emit :: "'w stream_env \<Rightarrow> string \<Rightarrow> string \<Rightarrow> trade_update \<Rightarrow> ('w stream, unit) eff" where
  "book_and_emit se cycle decision u = seq (in_journal se (book_update u)) (\<lambda>new.
     if new then in_stream (emit (se_env se) (update_event (se_env se) cycle decision u)) else ret ())"

lemma book_and_emit_apply:
  assumes "sm_journal st = Some j"
  shows "\<exists>now s1. sys_log s1 = sys_log (sm_sys st) \<and> book_and_emit se cy d u st =
    (let b = book_update u now j; st1 = st\<lparr>sm_sys := s1, sm_journal := Some (snd b)\<rparr> in
     if fst b then in_stream (emit (se_env se) (update_event (se_env se) cy d u)) st1 else (Inr (), st1))"
proof -
  let ?w = "sys_world (sm_sys st)"
  let ?s = "(sm_sys st)\<lparr>sys_world := snd (se_time se ?w)\<rparr>"
  have "book_and_emit se cy d u st =
    (let b = book_update u (fst (se_time se ?w)) j; st1 = st\<lparr>sm_sys := ?s, sm_journal := Some (snd b)\<rparr> in
     if fst b then in_stream (emit (se_env se) (update_event (se_env se) cy d u)) st1 else (Inr (), st1))"
    using assms by (simp add: book_and_emit_def in_journal_def seq_apply Let_def split: prod.split)
  then show ?thesis by (intro exI [of _ "fst (se_time se ?w)"] exI [of _ ?s]) simp
qed

text \<open>The update a message is acted on for, and who it belongs to.\<close>

definition acts_on :: "'w stream_env \<Rightarrow> ('w stream \<Rightarrow> resolver) \<Rightarrow> ('w stream \<Rightarrow> resolver) \<Rightarrow> 'w stream \<Rightarrow>
    message \<Rightarrow> (string \<times> string \<times> trade_update) option" where
  "acts_on se rc rd st raw = (case decode_trade_update (se_other se) raw of
     Inr (Some u) \<Rightarrow> (case (rc st (tu_client u), rd st (tu_client u)) of
        (Some cy, Some d) \<Rightarrow> Some (cy, d, u) | _ \<Rightarrow> None)
   | _ \<Rightarrow> None)"

lemma consume_one_eq: "consume_one se rc rd raw st = (case acts_on se rc rd st raw of None \<Rightarrow> (Inr (), st)
    | Some (cy, d, u) \<Rightarrow> book_and_emit se cy d u st)"
proof (cases "decode_trade_update (se_other se) raw")
  case (Inr ou)
  then show ?thesis
  proof (cases ou)
    case (Some u)
    with Inr show ?thesis
      by (cases "rc st (tu_client u)"; cases "rd st (tu_client u)")
        (simp_all add: consume_one_def acts_on_def book_and_emit_def seq_apply [of "gets _"])
  qed (simp add: consume_one_def acts_on_def)
qed (simp add: consume_one_def acts_on_def)

text \<open>Resolvers that look at nothing but the submissions.\<close>

definition steady :: "('w stream \<Rightarrow> resolver) \<Rightarrow> bool" where
  "steady r \<longleftrightarrow> (\<forall>st st'. submissions_of st = submissions_of st' \<longrightarrow> r st = r st')"

lemma acts_on_steady: "steady rc \<Longrightarrow> steady rd \<Longrightarrow> submissions_of st = submissions_of st' \<Longrightarrow>
    acts_on se rc rd st raw = acts_on se rc rd st' raw"
proof -
  assume "steady rc" "steady rd" "submissions_of st = submissions_of st'"
  then have "rc st = rc st'" "rd st = rd st'" unfolding steady_def by blast+
  then show ?thesis unfolding acts_on_def by (simp only:)
qed

definition settled :: "'w stream_env \<Rightarrow> ('w stream \<Rightarrow> resolver) \<Rightarrow> ('w stream \<Rightarrow> resolver) \<Rightarrow> 'w stream \<Rightarrow>
    message \<Rightarrow> bool" where
  "settled se rc rd st raw \<longleftrightarrow> (case acts_on se rc rd st raw of None \<Rightarrow> True
     | Some (cy, d, u) \<Rightarrow> \<exists>j. sm_journal st = Some j \<and> booked u j)"

lemma book_and_emit_journal:
  assumes "sm_journal st = Some j"
  shows "\<exists>now. sm_journal (snd (book_and_emit se cy d u st)) = Some (snd (book_update u now j))"
proof -
  obtain now s1 where e: "book_and_emit se cy d u st =
    (let b = book_update u now j; st1 = st\<lparr>sm_sys := s1, sm_journal := Some (snd b)\<rparr> in
     if fst b then in_stream (emit (se_env se) (update_event (se_env se) cy d u)) st1 else (Inr (), st1))"
    using book_and_emit_apply [OF assms] by blast
  show ?thesis by (rule exI [of _ now]) (simp add: e Let_def)
qed

lemma consume_one_keeps:
  assumes "sm_journal st = Some j" and "consume_one se rc rd raw st = (r, st')"
  shows "submissions_of st' = submissions_of st \<and>
    (\<exists>j'. sm_journal st' = Some j' \<and> (\<forall>u. booked u j \<longrightarrow> booked u j'))"
proof (cases "acts_on se rc rd st raw")
  case None
  with assms show ?thesis by (simp add: consume_one_eq)
next
  case (Some x)
  then obtain cy d v where x: "acts_on se rc rd st raw = Some (cy, d, v)" by (cases x) auto
  with assms(2) have "st' = snd (book_and_emit se cy d v st)" by (simp add: consume_one_eq prod_eq_iff)
  with book_and_emit_journal [OF assms(1), of se cy d v] obtain now where
    "sm_journal st' = Some (snd (book_update v now j))" by blast
  with assms(1) show ?thesis by (auto simp: submissions_of_def book_keeps)
qed

lemma settled_keeps:
  assumes "steady rc" "steady rd" "sm_journal st = Some j" "settled se rc rd st m"
    and "consume_one se rc rd raw st = (r, st')"
  shows "settled se rc rd st' m"
proof -
  from consume_one_keeps [OF assms(3,5)] obtain j' where s: "submissions_of st' = submissions_of st"
    and j': "sm_journal st' = Some j'" "\<forall>u. booked u j \<longrightarrow> booked u j'" by blast
  have "acts_on se rc rd st' m = acts_on se rc rd st m" by (rule acts_on_steady [OF assms(1,2) s])
  with assms(3,4) j' show ?thesis by (auto simp: settled_def split: option.splits)
qed

lemma settled_after:
  assumes "steady rc" "steady rd" "sm_journal st = Some j" "consume_one se rc rd m st = (r, st')"
    and "\<forall>u. decode_trade_update (se_other se) m = Inr (Some u) \<longrightarrow> identified u"
  shows "settled se rc rd st' m"
proof (cases "acts_on se rc rd st m")
  case None
  from consume_one_keeps [OF assms(3,4)] have "submissions_of st' = submissions_of st" by blast
  from acts_on_steady [OF assms(1,2) this] None show ?thesis by (simp add: settled_def)
next
  case (Some x)
  then obtain cy d u where x: "acts_on se rc rd st m = Some (cy, d, u)" by (cases x) auto
  then have "identified u" using assms(5) by (auto simp: acts_on_def split: sum.splits option.splits prod.splits)
  moreover have "st' = snd (book_and_emit se cy d u st)" using x assms(4) by (simp add: consume_one_eq prod_eq_iff)
  ultimately obtain j' where "sm_journal st' = Some j'" "booked u j'"
    using book_and_emit_journal [OF assms(3), of se cy d u] book_remembers by blast
  moreover from consume_one_keeps [OF assms(3,4)] have "submissions_of st' = submissions_of st" by blast
  from acts_on_steady [OF assms(1,2) this] x have "acts_on se rc rd st' m = Some (cy, d, u)" by simp
  ultimately show ?thesis by (simp add: settled_def)
qed

lemma settled_noop:
  assumes "settled se rc rd st m" and "consume_one se rc rd m st = (r, st')"
  shows "r = Inr () \<and> sys_log (sm_sys st') = sys_log (sm_sys st) \<and> rows_of st' = rows_of st"
proof (cases "acts_on se rc rd st m")
  case None
  with assms show ?thesis by (simp add: consume_one_eq)
next
  case (Some x)
  then obtain cy d u where x: "acts_on se rc rd st m = Some (cy, d, u)" by (cases x) auto
  with assms(1) obtain j where j: "sm_journal st = Some j" "booked u j" by (auto simp: settled_def)
  obtain now s1 where s1: "sys_log s1 = sys_log (sm_sys st)" "book_and_emit se cy d u st =
    (let b = book_update u now j; st1 = st\<lparr>sm_sys := s1, sm_journal := Some (snd b)\<rparr> in
     if fst b then in_stream (emit (se_env se) (update_event (se_env se) cy d u)) st1 else (Inr (), st1))"
    using book_and_emit_apply [OF j(1)] by blast
  with book_old [OF j(2), of now] x assms(2) j(1) show ?thesis
    by (auto simp: consume_one_eq Let_def rows_of_def)
qed

section \<open>The loop\<close>

lemma loop_keeps_settled:
  assumes "steady rc" "steady rd"
  shows "sm_journal st = Some j \<Longrightarrow> for_each (consume_one se rc rd) ms st = (Inr u, st') \<Longrightarrow>
    (\<exists>j'. sm_journal st' = Some j') \<and> submissions_of st' = submissions_of st \<and>
    (\<forall>m. settled se rc rd st m \<longrightarrow> settled se rc rd st' m) \<and>
    (\<forall>m\<in>set ms. (\<forall>v. decode_trade_update (se_other se) m = Inr (Some v) \<longrightarrow> identified v) \<longrightarrow>
       settled se rc rd st' m)"
proof (induction ms arbitrary: st j)
  case (Cons m ms)
  from Cons.prems(2) obtain x st1 where a: "consume_one se rc rd m st = (Inr x, st1)"
    and b: "for_each (consume_one se rc rd) ms st1 = (Inr u, st')" by (auto elim!: seq_Inr_cases)
  obtain j1 where j1: "sm_journal st1 = Some j1" and s1: "submissions_of st1 = submissions_of st"
    using consume_one_keeps [OF Cons.prems(1) a] by blast
  note IH = Cons.IH [OF j1 b]
  have 1: "\<And>m'. settled se rc rd st m' \<Longrightarrow> settled se rc rd st1 m'"
    by (rule settled_keeps [OF assms Cons.prems(1) _ a])
  have 2: "(\<forall>v. decode_trade_update (se_other se) m = Inr (Some v) \<longrightarrow> identified v) \<Longrightarrow> settled se rc rd st1 m"
    by (rule settled_after [OF assms Cons.prems(1) a])
  from IH s1 1 2 show ?case by auto
qed simp

lemma loop_noop:
  assumes "steady rc" "steady rd"
  shows "sm_journal st = Some j \<Longrightarrow> \<forall>m\<in>set ms. settled se rc rd st m \<Longrightarrow>
    for_each (consume_one se rc rd) ms st = (r, st') \<Longrightarrow>
    r = Inr () \<and> sys_log (sm_sys st') = sys_log (sm_sys st) \<and> rows_of st' = rows_of st"
proof (induction ms arbitrary: st j)
  case (Cons m ms)
  obtain x st1 where a: "consume_one se rc rd m st = (x, st1)" by fastforce
  have noop: "x = Inr ()" "sys_log (sm_sys st1) = sys_log (sm_sys st)" "rows_of st1 = rows_of st"
    using settled_noop [OF _ a] Cons.prems(2) by simp_all
  with a Cons.prems(3) have b: "for_each (consume_one se rc rd) ms st1 = (r, st')" by (simp add: seq_apply)
  obtain j1 where j1: "sm_journal st1 = Some j1" using consume_one_keeps [OF Cons.prems(1) a] by blast
  have "\<forall>m'\<in>set ms. settled se rc rd st1 m'"
    using settled_keeps [OF assms Cons.prems(1) _ a] Cons.prems(2) by simp
  from Cons.IH [OF j1 this b] noop show ?case by simp
qed simp

lemma steady_const [simp]: "steady (\<lambda>_. r)"
  by (simp add: steady_def)

lemma steady_journal: "steady (journal_resolver cycle_resolver)" "steady (journal_resolver decision_resolver)"
  by (auto simp: steady_def journal_resolver_def submissions_of_def cycle_resolver_def decision_resolver_def
      attribution_def fun_eq_iff split: option.splits)

text \<open>The resolvers a run of \<open>consume\<close> uses.\<close>

lemma consume_stream_loop:
  assumes "sm_journal st = Some j"
  obtains (refused) "\<And>ms st'. submissions_of st' = submissions_of st \<Longrightarrow> consume_stream se ms st' = (Inl ValueError, st')"
    | (loop) rc rd where "steady rc" "steady rd"
        "\<And>ms st' j'. sm_journal st' = Some j' \<Longrightarrow> consume_stream se ms st' = for_each (consume_one se rc rd) ms st'"
proof (cases "se_cycle se = None \<longleftrightarrow> se_decision se = None")
  case False
  then have "consume_stream se ms st' = (Inl ValueError, st')" for ms st'
    by (auto simp: consume_stream_def seq_apply split: option.split)
  then show ?thesis using refused by blast
next
  case True
  show ?thesis
  proof (cases "se_cycle se")
    case None
    with True show ?thesis
      by (intro loop [OF steady_journal]) (simp add: consume_stream_def seq_apply)
  next
    case (Some rc)
    with True obtain rd where "se_decision se = Some rd" by auto
    with Some show ?thesis
      by (intro loop [of "\<lambda>_. rc" "\<lambda>_. rd"]) (simp_all add: consume_stream_def seq_apply)
  qed
qed


text \<open>A message that is delivered twice in one run and once more in the next.\<close>

definition stream_env :: "unit stream_env" where
  "stream_env = \<lparr>se_env = sample_env, se_time = (\<lambda>w. (0, w)), se_other = (\<lambda>_. []), se_cycle = Some (\<lambda>_. Some ''c''),
     se_decision = Some (\<lambda>_. Some ''d'')\<rparr>"

definition stream_start :: "unit stream" where
  "stream_start = \<lparr>sm_sys = \<lparr>sys_log = new_log False None, sys_world = ()\<rparr>, sm_journal = Some empty_file\<rparr>"

lemma sample_acts: "acts_on stream_env (\<lambda>_ _. Some ''c'') (\<lambda>_ _. Some ''d'') st (sample_fill (Dec 10 0) ''x1'')
    = Some (''c'', ''d'', sample_update)"
  by (simp add: acts_on_def sample_fill_decodes)

lemma sample_consumed: "\<exists>st1. consume_stream stream_env [sample_fill (Dec 10 0) ''x1''] stream_start = (Inr (), st1)"
proof -
  have "consume_stream stream_env ms st = for_each (consume_one stream_env (\<lambda>_ _. Some ''c'') (\<lambda>_ _. Some ''d'')) ms st"
    for ms st by (simp add: consume_stream_def stream_env_def seq_apply)
  moreover have "is_fill TU_FILL" by (simp add: is_fill_def)
  then have "\<exists>st1. book_and_emit stream_env ''c'' ''d'' sample_update stream_start = (Inr (), st1)"
    by (simp add: book_and_emit_def in_journal_def book_update_def record_fill_def fill_taken_def seq_apply
        stream_start_def empty_file_def sample_update_def commit_def emit_def append_event_apply
        update_event_def broker_live_filled_event_def build_event_def new_event_id_def make_event_def id_ok_def
        stream_env_def sample_env_def notify_def new_log_def)
  ultimately show ?thesis by (auto simp: consume_one_eq sample_acts seq_apply)
qed


section \<open>The log mirrors the journal\<close>

definition mirrors_fill :: "cycle_event \<Rightarrow> fill_row \<Rightarrow> bool" where
  "mirrors_fill e r \<longleftrightarrow> map_of (ev_payload e) ''client_order_id'' = Some (PStr (fr_client r)) \<and>
     map_of (ev_payload e) ''filled_qty'' = Some (PStr (fr_qty r)) \<and>
     map_of (ev_payload e) ''filled_avg_price_usd'' = Some (PStr (fr_price r)) \<and>
     map_of (ev_payload e) ''is_partial'' = Some (PBool (fr_partial r))"

definition mirrors_cancel :: "cycle_event \<Rightarrow> cancel_row \<Rightarrow> bool" where
  "mirrors_cancel e r \<longleftrightarrow> map_of (ev_payload e) ''client_order_id'' = Some (PStr (cr_client r)) \<and>
     map_of (ev_payload e) ''reason'' = map_option PStr (cr_reason r)"

text \<open>The events \<open>es\<close> were appended while the rows of the journal grew from \<open>j\<close> to \<open>j'\<close>.\<close>

definition mirrored :: "journal \<Rightarrow> cycle_event list \<Rightarrow> journal \<Rightarrow> bool" where
  "mirrored j es j' \<longleftrightarrow> jr_submissions j' = jr_submissions j \<and>
     (\<exists>rows. jr_fills j' = jr_fills j @ rows \<and>
        list_all2 mirrors_fill (filter (\<lambda>e. ev_kind e = BROKER_LIVE_FILLED) es) rows) \<and>
     (\<exists>rows. jr_cancels j' = jr_cancels j @ rows \<and>
        list_all2 mirrors_cancel (filter (\<lambda>e. ev_kind e = BROKER_LIVE_CANCELLED) es) rows) \<and>
     (\<forall>e\<in>set es. ev_kind e \<in> {BROKER_LIVE_FILLED, BROKER_LIVE_CANCELLED})"

lemma mirrored_none: "journal_rows j' = journal_rows j \<Longrightarrow> mirrored j [] j'"
  by (simp add: mirrored_def journal_rows_def)

lemma mirrored_trans:
  assumes "mirrored j es j'" and "mirrored j' fs j''"
  shows "mirrored j (es @ fs) j''"
  using assms unfolding mirrored_def by (fastforce intro: list_all2_appendI)

lemma update_event_mirrors:
  assumes "update_ok u" and "emit env (update_event env cy d u) s = (Inr x, s')"
    and "fst (book_update u now j)"
  shows "\<exists>e. log_grows (sys_log s) [e] (sys_log s') \<and> mirrored j [e] (snd (book_update u now j))"
proof (cases "is_fill (tu_kind u)")
  case True
  then obtain q p where qp: "tu_qty u = Some q" "tu_price u = Some p"
    using assms(1) by (auto simp: update_ok_def)
  with True obtain e where "log_grows (sys_log s) [e] (sys_log s')" "ev_kind e = BROKER_LIVE_FILLED"
    "ev_payload e = [(''decision_run_id'', PStr d), (''order_id'', PStr (tu_order_id u)),
        (''client_order_id'', PStr (tu_client u)), (''symbol'', PStr (tu_symbol u)),
        (''side'', PStr (tu_side u)), (''filled_qty'', PStr (number_str q)),
        (''filled_avg_price_usd'', PStr (number_str p)), (''is_partial'', PBool (tu_kind u = TU_PARTIAL_FILL))]"
    using emit_ok [OF assms(2) [unfolded update_event_def broker_live_filled_event_def if_P [OF True]]]
    by (auto simp: text_of_def)
  with True qp assms(3) show ?thesis
    by (intro exI [of _ e]) (auto simp: mirrored_def mirrors_fill_def book_update_def record_fill_def
        number_or_def split: if_splits)
next
  case False
  then obtain e where "log_grows (sys_log s) [e] (sys_log s')" "ev_kind e = BROKER_LIVE_CANCELLED"
    "ev_payload e = [(''decision_run_id'', PStr d), (''order_id'', PStr (tu_order_id u)),
         (''client_order_id'', PStr (tu_client u)), (''symbol'', PStr (tu_symbol u)),
         (''side'', PStr (tu_side u))] @ (case tu_reason u of None \<Rightarrow> [] | Some r \<Rightarrow> [(''reason'', PStr r)])"
    using emit_ok [OF assms(2) [unfolded update_event_def broker_live_cancelled_event_def if_not_P [OF False]]]
    by blast
  with False assms(3) show ?thesis
    by (intro exI [of _ e]) (auto simp: mirrored_def mirrors_cancel_def book_update_def record_cancel_def
        split: if_splits option.split)
qed

lemma book_refused: "\<not> fst (book_update u now j) \<Longrightarrow> journal_rows (snd (book_update u now j)) = journal_rows j"
  by (auto simp: book_update_def record_fill_def record_cancel_def journal_rows_def split: if_splits)

definition tracks :: "'w stream \<Rightarrow> 'w stream \<Rightarrow> bool" where
  "tracks st st' \<longleftrightarrow> (\<exists>j j' es. sm_journal st = Some j \<and> sm_journal st' = Some j' \<and>
     log_grows (sys_log (sm_sys st)) es (sys_log (sm_sys st')) \<and> mirrored j es j')"

lemma tracks_refl: "sm_journal st = Some j \<Longrightarrow> tracks st st"
  unfolding tracks_def using mirrored_none [of j j] by force

lemma tracks_trans: "tracks st st1 \<Longrightarrow> tracks st1 st2 \<Longrightarrow> tracks st st2"
  unfolding tracks_def using log_grows_trans mirrored_trans by fastforce

lemma consume_one_tracks:
  assumes "sm_journal st = Some j" and "consume_one se rc rd m st = (Inr x, st')"
  shows "tracks st st'"
proof (cases "acts_on se rc rd st m")
  case None
  with assms show ?thesis by (simp add: consume_one_eq tracks_refl)
next
  case (Some y)
  then obtain cy d u where y: "acts_on se rc rd st m = Some (cy, d, u)" by (cases y) auto
  then have ok: "update_ok u"
    by (auto simp: acts_on_def split: sum.splits option.splits prod.splits intro: decoded_ok)
  obtain now s1 where s1: "sys_log s1 = sys_log (sm_sys st)" and run: "book_and_emit se cy d u st =
    (let b = book_update u now j; st1 = st\<lparr>sm_sys := s1, sm_journal := Some (snd b)\<rparr> in
     if fst b then in_stream (emit (se_env se) (update_event (se_env se) cy d u)) st1 else (Inr (), st1))"
    using book_and_emit_apply [OF assms(1)] by blast
  show ?thesis
  proof (cases "fst (book_update u now j)")
    case False
    with run assms y have "st' = st\<lparr>sm_sys := s1, sm_journal := Some (snd (book_update u now j))\<rparr>"
      by (simp add: consume_one_eq Let_def)
    with assms(1) s1 mirrored_none [OF book_refused [OF False]] show ?thesis
      by (auto simp: tracks_def intro!: exI [of _ "[]"])
  next
    case True
    obtain r s2 where em: "emit (se_env se) (update_event (se_env se) cy d u) s1 = (r, s2)" by fastforce
    with True run assms y have "r = Inr x" "st' = st\<lparr>sm_journal := Some (snd (book_update u now j)), sm_sys := s2\<rparr>"
      by (auto simp: consume_one_eq Let_def)
    with update_event_mirrors [OF ok, of "se_env se" cy d s1 x s2] em True assms(1) s1 show ?thesis
      by (fastforce simp: tracks_def)
  qed
qed

lemma loop_tracks:
  "sm_journal st = Some j \<Longrightarrow> for_each (consume_one se rc rd) ms st = (Inr u, st') \<Longrightarrow> tracks st st'"
proof (induction ms arbitrary: st j)
  case Nil
  then show ?case by (simp add: tracks_refl)
next
  case (Cons m ms)
  from Cons.prems(2) obtain x st1 where a: "consume_one se rc rd m st = (Inr x, st1)"
    and b: "for_each (consume_one se rc rd) ms st1 = (Inr u, st')" by (auto elim!: seq_Inr_cases)
  have t: "tracks st st1" by (rule consume_one_tracks [OF Cons.prems(1) a])
  then obtain j1 where "sm_journal st1 = Some j1" by (auto simp: tracks_def)
  from tracks_trans [OF t Cons.IH [OF this b]] show ?case .
qed

text \<open>C25. The log is the journal seen from the cycle. While \<open>consume\<close> works off messages with a
  journal and returns, it appends one BROKER\_LIVE\_FILLED event for every row it books in the fills
  table, in the same order and with the same order id, quantity, price and partial flag, one
  BROKER\_LIVE\_CANCELLED event for every row of the cancellations table, with its reason, and nothing
  else; the submissions it leaves alone.\<close>

theorem log_mirrors_journal:
  assumes "consume_stream se ms st = (Inr u, st')" and "sm_journal st = Some j"
  shows "\<exists>es j'. sm_journal st' = Some j' \<and> log_grows (sys_log (sm_sys st)) es (sys_log (sm_sys st')) \<and>
    mirrored j es j'"
proof (rule consume_stream_loop [OF assms(2), of se])
  assume "\<And>ms st'. submissions_of st' = submissions_of st \<Longrightarrow> consume_stream se ms st' = (Inl ValueError, st')"
  with assms(1) show ?thesis by simp
next
  fix rc rd
  assume "\<And>ms st' j'. sm_journal st' = Some j' \<Longrightarrow> consume_stream se ms st' = for_each (consume_one se rc rd) ms st'"
  with assms have "for_each (consume_one se rc rd) ms st = (Inr u, st')" by simp
  from loop_tracks [OF assms(2) this] assms(2) show ?thesis by (auto simp: tracks_def)
qed

theorem log_mirrors_journal_witness:
  "\<exists>st1 es j'. consume_stream stream_env [sample_fill (Dec 10 0) ''x1''] stream_start = (Inr (), st1) \<and>
     log_grows (new_log False None) es (sys_log (sm_sys st1)) \<and> mirrored empty_file es j'"
proof -
  obtain st1 where 1: "consume_stream stream_env [sample_fill (Dec 10 0) ''x1''] stream_start = (Inr (), st1)"
    using sample_consumed by blast
  have "sm_journal stream_start = Some empty_file" "sys_log (sm_sys stream_start) = new_log False None"
    by (simp_all add: stream_start_def)
  with log_mirrors_journal [OF 1 this(1)] 1 show ?thesis by auto
qed

end
