(* ===== verification/Entity_Types.thy ===== *)
theory Entity_Types
  imports Artifacts "HOL-Library.Product_Lexorder"
begin

text \<open>
  The entity types (\<open>entities/types.py\<close>) and the failures of an entity store
  (\<open>entities/errors.py\<close>). Every datetime of a stored row has passed the validator that turns it
  into UTC, so it is an instant in microseconds.
\<close>

section \<open>Sources and identifiers\<close>

datatype source =
    JQUANTS | YFINANCE | POLYMARKET_CLOB | POLYMARKET_GAMMA | POLYMARKET_ARCHIVE | EDINET | EDINETDB

fun source_value :: "source \<Rightarrow> string" where
  "source_value JQUANTS = ''jquants''"
| "source_value YFINANCE = ''yfinance''"
| "source_value POLYMARKET_CLOB = ''polymarket_clob''"
| "source_value POLYMARKET_GAMMA = ''polymarket_gamma''"
| "source_value POLYMARKET_ARCHIVE = ''polymarket_archive''"
| "source_value EDINET = ''edinet''"
| "source_value EDINETDB = ''edinetdb''"

datatype identifier_kind =
    JQUANTS_CODE | SEC_CODE | YFINANCE_TICKER | EDINET_CODE | JCN | LEI | POLYMARKET_TOKEN

fun kind_value :: "identifier_kind \<Rightarrow> string" where
  "kind_value JQUANTS_CODE = ''jquants_code''"
| "kind_value SEC_CODE = ''sec_code''"
| "kind_value YFINANCE_TICKER = ''yfinance_ticker''"
| "kind_value EDINET_CODE = ''edinet_code''"
| "kind_value JCN = ''jcn''"
| "kind_value LEI = ''lei''"
| "kind_value POLYMARKET_TOKEN = ''polymarket_token''"

text \<open>The kinds in declaration order, as iterating over the enum yields them.\<close>

definition all_kinds :: "identifier_kind list" where
  "all_kinds = [JQUANTS_CODE, SEC_CODE, YFINANCE_TICKER, EDINET_CODE, JCN, LEI, POLYMARKET_TOKEN]"

lemma kind_value_inj: "kind_value k = kind_value l \<longleftrightarrow> k = l"
  by (cases k; cases l) simp_all

lemma source_value_inj: "source_value k = source_value l \<longleftrightarrow> k = l"
  by (cases k; cases l) simp_all

record ident =
  id_kind :: identifier_kind
  id_value :: string

definition make_identifier :: "identifier_kind \<Rightarrow> string \<Rightarrow> ident res" where
  "make_identifier k v = bind_res (check (len_in 1 64 (strip v))) (\<lambda>_. Inr \<lparr>id_kind = k, id_value = strip v\<rparr>)"

section \<open>Issuers\<close>

text \<open>A test of an optional field.\<close>

fun opt_all :: "('a \<Rightarrow> bool) \<Rightarrow> 'a option \<Rightarrow> bool" where
  "opt_all P None = True"
| "opt_all P (Some x) = P x"

record issuer =
  is_id :: string
  is_lei :: "string option"
  is_jcn :: "string option"
  is_name :: string
  is_identifiers :: "ident list"

definition issuer_id_ok :: "string \<Rightarrow> bool" where
  "issuer_id_ok s = (case s of [] \<Rightarrow> False | c # cs \<Rightarrow> c = CHR ''I'' \<and> run_id_ok cs)"

definition identifier_sort_key :: "ident \<Rightarrow> string \<times> string" where
  "identifier_sort_key i = (kind_value (id_kind i), id_value i)"

definition is_digit_char :: "char \<Rightarrow> bool" where
  "is_digit_char c = (let n = (of_char c :: nat) in 48 \<le> n \<and> n \<le> 57)"

definition make_issuer :: "string \<Rightarrow> string option \<Rightarrow> string option \<Rightarrow> string \<Rightarrow> ident list \<Rightarrow> issuer res" where
  "make_issuer i lei jcn name ids =
     (let r = \<lparr>is_id = strip i, is_lei = map_option strip lei, is_jcn = map_option strip jcn,
        is_name = strip name, is_identifiers = sort_key identifier_sort_key ids\<rparr> in
      bind_res (check (issuer_id_ok (is_id r) \<and>
        opt_all (\<lambda>s. length s = 20 \<and> list_all is_upper_alnum s) (is_lei r) \<and>
        opt_all (\<lambda>s. length s = 13 \<and> list_all is_digit_char s) (is_jcn r) \<and>
        len_in 1 256 (is_name r))) (\<lambda>_. Inr r))"

section \<open>Market data\<close>

text \<open>A datetime argument: a naive one is refused, an aware one is its instant.\<close>

definition normalize_utc :: "pydt \<Rightarrow> int res" where
  "normalize_utc t = (case t of Naive _ \<Rightarrow> Inl ValidationError | Aware m \<Rightarrow> Inr m)"

record provenance =
  pv_source :: source
  pv_fetched :: int
  pv_hash :: string
  pv_cache_key :: "string option"

definition make_provenance :: "source \<Rightarrow> pydt \<Rightarrow> string \<Rightarrow> string option \<Rightarrow> provenance res" where
  "make_provenance src fetched hash ck = bind_res (normalize_utc fetched) (\<lambda>m.
     bind_res (check (length (strip hash) = 64 \<and> list_all is_hex (strip hash))) (\<lambda>_.
     Inr \<lparr>pv_source = src, pv_fetched = m, pv_hash = strip hash, pv_cache_key = map_option strip ck\<rparr>))"

datatype series_kind =
    DAILY_OPEN | DAILY_HIGH | DAILY_LOW | DAILY_CLOSE | DAILY_ADJ_CLOSE | DAILY_VOLUME | POLYMARKET_MIDPOINT

fun series_kind_value :: "series_kind \<Rightarrow> string" where
  "series_kind_value DAILY_OPEN = ''daily_open''"
| "series_kind_value DAILY_HIGH = ''daily_high''"
| "series_kind_value DAILY_LOW = ''daily_low''"
| "series_kind_value DAILY_CLOSE = ''daily_close''"
| "series_kind_value DAILY_ADJ_CLOSE = ''daily_adj_close''"
| "series_kind_value DAILY_VOLUME = ''daily_volume''"
| "series_kind_value POLYMARKET_MIDPOINT = ''polymarket_midpoint''"

record market_point =
  mp_time :: int
  mp_value :: decimal
  mp_provenance :: provenance

definition make_point :: "pydt \<Rightarrow> decimal \<Rightarrow> provenance \<Rightarrow> market_point res" where
  "make_point t v p = bind_res (normalize_utc t) (\<lambda>m. Inr \<lparr>mp_time = m, mp_value = v, mp_provenance = p\<rparr>)"

abbreviation point_source :: "market_point \<Rightarrow> source" where
  "point_source p \<equiv> pv_source (mp_provenance p)"

record conflict_record =
  cf_time :: int
  cf_chosen :: market_point
  cf_discarded :: "market_point list"

record market_series =
  ms_issuer :: string
  ms_kind :: series_kind
  ms_points :: "market_point list"
  ms_conflicts :: "conflict_record list"

section \<open>Filings and relations\<close>

record filing =
  fi_issuer :: string
  fi_doc_id :: string
  fi_doc_type :: string
  fi_submitted :: int
  fi_parent :: "string option"
  fi_provenance :: provenance

definition make_filing :: "string \<Rightarrow> string \<Rightarrow> string \<Rightarrow> pydt \<Rightarrow> string option \<Rightarrow> provenance \<Rightarrow> filing res" where
  "make_filing i d t submitted parent p =
     bind_res (check (issuer_id_ok (strip i) \<and> len_in 1 20 (strip d))) (\<lambda>_. bind_res (normalize_utc submitted) (\<lambda>m.
     Inr \<lparr>fi_issuer = strip i, fi_doc_id = strip d, fi_doc_type = strip t, fi_submitted = m,
       fi_parent = map_option strip parent, fi_provenance = p\<rparr>))"

datatype relation_kind = SUBSIDIARY_OF | LARGE_SHAREHOLDER_OF | PUBLIC_TENDER_TARGET | POLYMARKET_SUBJECT

fun relation_kind_value :: "relation_kind \<Rightarrow> string" where
  "relation_kind_value SUBSIDIARY_OF = ''subsidiary_of''"
| "relation_kind_value LARGE_SHAREHOLDER_OF = ''large_shareholder_of''"
| "relation_kind_value PUBLIC_TENDER_TARGET = ''public_tender_target''"
| "relation_kind_value POLYMARKET_SUBJECT = ''polymarket_subject''"

record relation =
  re_from :: string
  re_to :: string
  re_kind :: relation_kind
  re_valid_from :: int
  re_valid_to :: "int option"
  re_provenance :: provenance

definition make_relation ::
  "string \<Rightarrow> string \<Rightarrow> relation_kind \<Rightarrow> pydt \<Rightarrow> pydt option \<Rightarrow> provenance \<Rightarrow> relation res" where
  "make_relation f t k valid_from valid_to p =
     bind_res (check (issuer_id_ok (strip f) \<and> issuer_id_ok (strip t))) (\<lambda>_.
     bind_res (normalize_utc valid_from) (\<lambda>a.
     bind_res (case valid_to of None \<Rightarrow> Inr None | Some d \<Rightarrow> bind_res (normalize_utc d) (\<lambda>m. Inr (Some m))) (\<lambda>b.
     bind_res (check (opt_all (\<lambda>e. a < e) b)) (\<lambda>_.
     Inr \<lparr>re_from = strip f, re_to = strip t, re_kind = k, re_valid_from = a, re_valid_to = b,
       re_provenance = p\<rparr>))))"

section \<open>Failures\<close>

datatype store_error =
    Identifier_Conflict identifier_kind string string string
  | Unknown_Issuer string
  | Missing_Key            \<comment> \<open>\<open>KeyError\<close> of a dict\<close>
  | Constraint_Error       \<comment> \<open>the database refuses a row\<close>

end
