(* ===== verification/Entity_Store.thy ===== *)
theory Entity_Store
  imports Entity_Types
begin

text \<open>
  The in-memory entity store (\<open>entities/in\_memory.py\<close>). Dicts are association lists; a method that
  raises returns the store as the raise left it. Datetimes in queries are aware.
\<close>

section \<open>State\<close>

type_synonym id_key = "identifier_kind \<times> string"

type_synonym market_key = "string \<times> series_kind \<times> source"

record store =
  es_issuers :: "(string \<times> issuer) list"
  es_identifiers :: "(id_key \<times> string) list"
  es_points :: "(market_key \<times> market_point list) list"
  es_filings :: "filing list"
  es_relations :: "relation list"

definition empty_store :: store where
  "empty_store = \<lparr>es_issuers = [], es_identifiers = [], es_points = [], es_filings = [], es_relations = []\<rparr>"

type_synonym 'a store_result = "(store_error + 'a) \<times> store"

definition identifier_key :: "ident \<Rightarrow> id_key" where
  "identifier_key i = (id_kind i, id_value i)"

section \<open>Issuers\<close>

definition get_issuer :: "string \<Rightarrow> store \<Rightarrow> issuer option" where
  "get_issuer i s = map_of (es_issuers s) i"

definition lookup_issuer :: "identifier_kind \<Rightarrow> string \<Rightarrow> store \<Rightarrow> store_error + issuer option" where
  "lookup_issuer k v s = (case map_of (es_identifiers s) (k, v) of None \<Rightarrow> Inr None
     | Some i \<Rightarrow> (case map_of (es_issuers s) i of None \<Rightarrow> Inl Missing_Key | Some r \<Rightarrow> Inr (Some r)))"

text \<open>The first identifier that belongs to another issuer.\<close>

fun find_conflict :: "(id_key \<times> string) list \<Rightarrow> string \<Rightarrow> ident list \<Rightarrow> store_error option" where
  "find_conflict idx i [] = None"
| "find_conflict idx i (x # xs) = (case map_of idx (identifier_key x) of
     Some e \<Rightarrow> if e \<noteq> i then Some (Identifier_Conflict (id_kind x) (id_value x) e i) else find_conflict idx i xs
   | None \<Rightarrow> find_conflict idx i xs)"

definition drop_stale :: "issuer \<Rightarrow> issuer option \<Rightarrow> (id_key \<times> string) list \<Rightarrow> (id_key \<times> string) list" where
  "drop_stale r previous idx = (case previous of None \<Rightarrow> idx
     | Some old \<Rightarrow> fold (\<lambda>x idx. if identifier_key x \<notin> identifier_key ` set (is_identifiers r) \<and>
           map_of idx (identifier_key x) = Some (is_id r)
         then AList.delete (identifier_key x) idx else idx) (is_identifiers old) idx)"

definition add_identifiers :: "issuer \<Rightarrow> (id_key \<times> string) list \<Rightarrow> (id_key \<times> string) list" where
  "add_identifiers r idx = fold (\<lambda>x. AList.update (identifier_key x) (is_id r)) (is_identifiers r) idx"

definition upsert_issuer :: "issuer \<Rightarrow> store \<Rightarrow> issuer store_result" where
  "upsert_issuer r s = (case find_conflict (es_identifiers s) (is_id r) (is_identifiers r) of
     Some e \<Rightarrow> (Inl e, s)
   | None \<Rightarrow> (Inr r, s\<lparr>es_issuers := AList.update (is_id r) r (es_issuers s),
       es_identifiers := add_identifiers r
         (drop_stale r (map_of (es_issuers s) (is_id r)) (es_identifiers s))\<rparr>))"

definition identifier_union :: "ident list \<Rightarrow> ident list \<Rightarrow> ident list" where
  "identifier_union xs ys = map snd (fold (\<lambda>y d. if map_of d (identifier_key y) = None
     then AList.update (identifier_key y) y d else d) ys
     (fold (\<lambda>x. AList.update (identifier_key x) x) xs []))"

text \<open>The loop that moves the identifiers of the dropped issuer.\<close>

fun move_identifiers :: "string \<Rightarrow> string \<Rightarrow> ident list \<Rightarrow> (id_key \<times> string) list \<Rightarrow>
    (store_error + unit) \<times> (id_key \<times> string) list" where
  "move_identifiers keep drp [] idx = (Inr (), idx)"
| "move_identifiers keep drp (x # xs) idx = (case map_of idx (identifier_key x) of
     Some e \<Rightarrow> if e \<noteq> keep \<and> e \<noteq> drp then (Inl (Identifier_Conflict (id_kind x) (id_value x) e keep), idx)
       else move_identifiers keep drp xs (AList.update (identifier_key x) keep idx)
   | None \<Rightarrow> move_identifiers keep drp xs (AList.update (identifier_key x) keep idx))"

definition transfer_points :: "string \<Rightarrow> string \<Rightarrow> (market_key \<times> market_point list) list \<Rightarrow>
    (market_key \<times> market_point list) list" where
  "transfer_points keep drp pts = fold (\<lambda>((i, k, src), ps) acc.
     let key = (if i = drp then keep else i, k, src) in
     AList.update key ((case map_of acc key of None \<Rightarrow> [] | Some qs \<Rightarrow> qs) @ ps) acc) pts []"

definition retarget :: "string \<Rightarrow> string \<Rightarrow> string \<Rightarrow> string" where
  "retarget keep drp i = (if i = drp then keep else i)"

definition retarget_relation :: "string \<Rightarrow> string \<Rightarrow> relation \<Rightarrow> relation" where
  "retarget_relation keep drp r =
     r\<lparr>re_from := retarget keep drp (re_from r), re_to := retarget keep drp (re_to r)\<rparr>"

definition retarget_filing :: "string \<Rightarrow> string \<Rightarrow> filing \<Rightarrow> filing" where
  "retarget_filing keep drp f = f\<lparr>fi_issuer := retarget keep drp (fi_issuer f)\<rparr>"

definition merge_issuers :: "string \<Rightarrow> string \<Rightarrow> store \<Rightarrow> issuer store_result" where
  "merge_issuers keep drp s = (case map_of (es_issuers s) keep of
     None \<Rightarrow> (Inl (Unknown_Issuer keep), s)
   | Some a \<Rightarrow> if keep = drp then (Inr a, s)
     else (case map_of (es_issuers s) drp of None \<Rightarrow> (Inr a, s)
       | Some b \<Rightarrow>
           let merged = a\<lparr>is_identifiers := identifier_union (is_identifiers a) (is_identifiers b)\<rparr> in
           (case move_identifiers keep drp (is_identifiers b) (es_identifiers s) of
              (Inl e, idx) \<Rightarrow> (Inl e, s\<lparr>es_identifiers := idx\<rparr>)
            | (Inr _, idx) \<Rightarrow> (case upsert_issuer merged (s\<lparr>es_identifiers := idx\<rparr>) of
                (Inl e, t) \<Rightarrow> (Inl e, t)
              | (Inr _, t) \<Rightarrow> (Inr merged, t\<lparr>es_points := transfer_points keep drp (es_points t),
                  es_filings := map (retarget_filing keep drp) (es_filings t),
                  es_relations := map (retarget_relation keep drp) (es_relations t),
                  es_issuers := AList.delete drp (es_issuers t)\<rparr>)))))"

section \<open>Market series\<close>

definition require_issuer :: "string \<Rightarrow> store \<Rightarrow> (store_error + unit)" where
  "require_issuer i s = (if map_of (es_issuers s) i = None then Inl (Unknown_Issuer i) else Inr ())"

definition append_points :: "string \<Rightarrow> series_kind \<Rightarrow> market_point list \<Rightarrow> store \<Rightarrow> unit store_result" where
  "append_points i k ps s = (case require_issuer i s of Inl e \<Rightarrow> (Inl e, s)
     | Inr _ \<Rightarrow> (Inr (), s\<lparr>es_points := fold (\<lambda>p pts. let key = (i, k, point_source p) in
         AList.update key ((case map_of pts key of None \<Rightarrow> [] | Some qs \<Rightarrow> qs) @ [p]) pts) ps (es_points s)\<rparr>))"

text \<open>\<open>by\_timestamp\<close>: the points of the range per time and source; a later one of the same source
  replaces an earlier one.\<close>

type_synonym by_time = "(int \<times> (source \<times> market_point) list) list"

definition put_point :: "source \<Rightarrow> market_point \<Rightarrow> by_time \<Rightarrow> by_time" where
  "put_point src p bt = AList.update (mp_time p)
     (AList.update src p (case map_of bt (mp_time p) of None \<Rightarrow> [] | Some d \<Rightarrow> d)) bt"

definition collect_points :: "string \<Rightarrow> series_kind \<Rightarrow> int \<Rightarrow> int \<Rightarrow> (market_key \<times> market_point list) list \<Rightarrow> by_time" where
  "collect_points i k lo hi pts = fold (\<lambda>((j, l, src), ps) bt. if j \<noteq> i \<or> l \<noteq> k then bt
     else fold (\<lambda>p bt. if lo \<le> mp_time p \<and> mp_time p \<le> hi then put_point src p bt else bt) ps bt) pts []"

text \<open>\<open>\_choose\_point\<close>: by priority, else the first source in alphabetical order.\<close>

definition choose_point :: "(source \<times> market_point) list \<Rightarrow> source list \<Rightarrow> market_point option" where
  "choose_point d priority = (case find (\<lambda>src. map_of d src \<noteq> None) priority of
     Some src \<Rightarrow> map_of d src
   | None \<Rightarrow> (case sort_key source_value (map fst d) of [] \<Rightarrow> None | src # _ \<Rightarrow> map_of d src))"

definition discarded_points :: "(source \<times> market_point) list \<Rightarrow> market_point \<Rightarrow> market_point list" where
  "discarded_points d c = filter (\<lambda>p. point_source p \<noteq> point_source c \<and> \<not> dec_eq (mp_value p) (mp_value c)) (map snd d)"

definition select_points :: "by_time \<Rightarrow> source list \<Rightarrow> (int \<times> market_point \<times> market_point list) list" where
  "select_points bt priority = concat (map (\<lambda>t. case map_of bt t of None \<Rightarrow> []
     | Some d \<Rightarrow> (case choose_point d priority of None \<Rightarrow> []
         | Some c \<Rightarrow> [(t, c, discarded_points d c)])) (sort (map fst bt)))"

definition series_of :: "string \<Rightarrow> series_kind \<Rightarrow> (int \<times> market_point \<times> market_point list) list \<Rightarrow> market_series" where
  "series_of i k sel = \<lparr>ms_issuer = i, ms_kind = k, ms_points = map (fst \<circ> snd) sel,
     ms_conflicts = map (\<lambda>(t, c, ds). \<lparr>cf_time = t, cf_chosen = c, cf_discarded = ds\<rparr>)
       (filter (\<lambda>(t, c, ds). ds \<noteq> []) sel)\<rparr>"

definition get_series :: "string \<Rightarrow> series_kind \<Rightarrow> int \<Rightarrow> int \<Rightarrow> source list \<Rightarrow> store \<Rightarrow> market_series" where
  "get_series i k lo hi priority s = series_of i k (select_points (collect_points i k lo hi (es_points s)) priority)"

section \<open>Filings and relations\<close>

definition append_filing :: "filing \<Rightarrow> store \<Rightarrow> unit store_result" where
  "append_filing f s = (case require_issuer (fi_issuer f) s of Inl e \<Rightarrow> (Inl e, s)
     | Inr _ \<Rightarrow> (Inr (), s\<lparr>es_filings := es_filings s @ [f]\<rparr>))"

definition filing_matches :: "string \<Rightarrow> int \<Rightarrow> int \<Rightarrow> string list option \<Rightarrow> filing \<Rightarrow> bool" where
  "filing_matches i lo hi codes f \<longleftrightarrow> fi_issuer f = i \<and> lo \<le> fi_submitted f \<and> fi_submitted f \<le> hi \<and>
     (case codes of None \<Rightarrow> True | Some cs \<Rightarrow> fi_doc_type f \<in> set cs)"

definition filings_for :: "string \<Rightarrow> int \<Rightarrow> int \<Rightarrow> string list option \<Rightarrow> store \<Rightarrow> filing list" where
  "filings_for i lo hi codes s = sort_key fi_submitted (filter (filing_matches i lo hi codes) (es_filings s))"

definition append_relation :: "relation \<Rightarrow> store \<Rightarrow> unit store_result" where
  "append_relation r s = (case require_issuer (re_from r) s of Inl e \<Rightarrow> (Inl e, s)
     | Inr _ \<Rightarrow> (case require_issuer (re_to r) s of Inl e \<Rightarrow> (Inl e, s)
         | Inr _ \<Rightarrow> (Inr (), s\<lparr>es_relations := es_relations s @ [r]\<rparr>)))"

definition active_at :: "int \<Rightarrow> relation \<Rightarrow> bool" where
  "active_at t r \<longleftrightarrow> re_valid_from r \<le> t \<and> (case re_valid_to r of None \<Rightarrow> True | Some e \<Rightarrow> t < e)"

text \<open>Each issuer is looked up in the dict, which raises when it is missing.\<close>

fun all_found :: "'a option list \<Rightarrow> store_error + 'a list" where
  "all_found [] = Inr []"
| "all_found (x # xs) = (case x of None \<Rightarrow> Inl Missing_Key
     | Some a \<Rightarrow> bind_res (all_found xs) (\<lambda>as. Inr (a # as)))"

definition subsidiaries_of :: "string \<Rightarrow> int \<Rightarrow> store \<Rightarrow> store_error + issuer list" where
  "subsidiaries_of i t s = all_found (map (\<lambda>r. map_of (es_issuers s) (re_from r))
     (filter (\<lambda>r. re_kind r = SUBSIDIARY_OF \<and> re_to r = i \<and> active_at t r) (es_relations s)))"

definition relation_matches :: "string \<Rightarrow> relation_kind option \<Rightarrow> int option \<Rightarrow> relation \<Rightarrow> bool" where
  "relation_matches i k t r \<longleftrightarrow> (i = re_from r \<or> i = re_to r) \<and>
     (case k of None \<Rightarrow> True | Some k \<Rightarrow> re_kind r = k) \<and> (case t of None \<Rightarrow> True | Some t \<Rightarrow> active_at t r)"

definition relations_for :: "string \<Rightarrow> relation_kind option \<Rightarrow> int option \<Rightarrow> store \<Rightarrow> relation list" where
  "relations_for i k t s = filter (relation_matches i k t) (es_relations s)"

end
