(* ===== verification/Entity_Laws.thy ===== *)
theory Entity_Laws
  imports Entity_Store "HOL-Library.Multiset"
begin

text \<open>
  The identifier index of the in-memory entity store is exact: an identifier is bound to an issuer
  when, and only when, the issuer of that id in the store carries it. An upsert and a merge keep it so,
  and change the owner of an identifier the way two plain functions say.
\<close>

section \<open>The invariant\<close>

definition keys_of :: "issuer \<Rightarrow> id_key set" where
  "keys_of r = identifier_key ` set (is_identifiers r)"

definition known :: "store \<Rightarrow> string \<Rightarrow> bool" where
  "known s i \<longleftrightarrow> map_of (es_issuers s) i \<noteq> None"

definition index_exact :: "store \<Rightarrow> bool" where
  "index_exact s \<longleftrightarrow> (\<forall>i r. map_of (es_issuers s) i = Some r \<longrightarrow> is_id r = i) \<and>
     (\<forall>k i. map_of (es_identifiers s) k = Some i \<longleftrightarrow> (\<exists>r. map_of (es_issuers s) i = Some r \<and> k \<in> keys_of r))"

lemma index_exactI:
  assumes "\<And>i r. map_of (es_issuers s) i = Some r \<Longrightarrow> is_id r = i"
    and "\<And>k i. map_of (es_identifiers s) k = Some i \<longleftrightarrow> (\<exists>r. map_of (es_issuers s) i = Some r \<and> k \<in> keys_of r)"
  shows "index_exact s"
  using assms unfolding index_exact_def by blast

lemma exact_id: "index_exact s \<Longrightarrow> map_of (es_issuers s) i = Some r \<Longrightarrow> is_id r = i"
  unfolding index_exact_def by blast

lemma exact_iff: "index_exact s \<Longrightarrow>
    map_of (es_identifiers s) k = Some i \<longleftrightarrow> (\<exists>r. map_of (es_issuers s) i = Some r \<and> k \<in> keys_of r)"
  unfolding index_exact_def by blast

lemma exact_known: "index_exact s \<Longrightarrow> map_of (es_issuers s) i = Some r \<Longrightarrow>
    map_of (es_identifiers s) k = Some i \<longleftrightarrow> k \<in> keys_of r"
  using exact_iff [of s k i] by simp

section \<open>The index under an upsert\<close>

lemma find_conflict_None: "find_conflict idx i xs = None \<longleftrightarrow>
    (\<forall>x\<in>set xs. map_of idx (identifier_key x) \<in> {None, Some i})"
  by (induction xs) (auto split: option.split)

lemma find_conflict_Some: "find_conflict idx i xs = Some e \<Longrightarrow> \<exists>x\<in>set xs. \<exists>j. j \<noteq> i \<and>
    map_of idx (identifier_key x) = Some j \<and> e = Identifier_Conflict (id_kind x) (id_value x) j i"
  by (induction xs) (auto split: option.splits if_splits)

lemma fold_update_same:
  "map_of (fold (\<lambda>x. AList.update (f x) v) xs al) k = (if k \<in> f ` set xs then Some v else map_of al k)"
  by (induction xs arbitrary: al) (auto simp: map_of_update)

lemma add_identifiers_map:
  "map_of (add_identifiers r idx) k = (if k \<in> keys_of r then Some (is_id r) else map_of idx k)"
  by (simp add: add_identifiers_def fold_update_same keys_of_def)

lemma fold_delete_if:
  "map_of (fold (\<lambda>x idx. if f x \<notin> K \<and> map_of idx (f x) = Some i then AList.delete (f x) idx else idx) xs idx) k =
     (if k \<in> f ` set xs \<and> k \<notin> K \<and> map_of idx k = Some i then None else map_of idx k)"
  by (induction xs arbitrary: idx) (auto simp: map_of_delete)

lemma drop_stale_map:
  "map_of (drop_stale r prev idx) k = (case prev of None \<Rightarrow> map_of idx k
     | Some old \<Rightarrow> if k \<in> keys_of old \<and> k \<notin> keys_of r \<and> map_of idx k = Some (is_id r) then None else map_of idx k)"
  by (auto simp: drop_stale_def fold_delete_if keys_of_def split: option.split)

text \<open>What the owner of an identifier is after an upsert and after a merge: the plain specification.\<close>

definition owner_after_upsert :: "issuer \<Rightarrow> (id_key \<Rightarrow> string option) \<Rightarrow> id_key \<Rightarrow> string option" where
  "owner_after_upsert r own k = (if k \<in> keys_of r then Some (is_id r)
     else if own k = Some (is_id r) then None else own k)"

definition owner_after_merge :: "string \<Rightarrow> string \<Rightarrow> (id_key \<Rightarrow> string option) \<Rightarrow> id_key \<Rightarrow> string option" where
  "owner_after_merge keep drp own k = (if own k = Some drp then Some keep else own k)"

lemma upsert_ok:
  assumes "upsert_issuer r s = (Inr x, t)" and "index_exact s"
  shows "x = r \<and> es_issuers t = AList.update (is_id r) r (es_issuers s) \<and>
    map_of (es_identifiers t) = owner_after_upsert r (map_of (es_identifiers s)) \<and>
    es_points t = es_points s \<and> es_filings t = es_filings s \<and> es_relations t = es_relations s"
proof -
  have t: "x = r" "s\<lparr>es_issuers := AList.update (is_id r) r (es_issuers s),
       es_identifiers := add_identifiers r
         (drop_stale r (map_of (es_issuers s) (is_id r)) (es_identifiers s))\<rparr> = t"
    using assms(1) by (auto simp: upsert_issuer_def split: option.splits)
  have "map_of (es_identifiers t) k = owner_after_upsert r (map_of (es_identifiers s)) k" for k
    using exact_iff [OF assms(2), of k "is_id r"]
    by (auto simp: t(2) [symmetric] add_identifiers_map drop_stale_map owner_after_upsert_def split: option.split)
  with t show ?thesis by auto
qed

lemma upsert_raises:
  "upsert_issuer r s = (Inl e, t) \<Longrightarrow> t = s \<and> (\<exists>x\<in>set (is_identifiers r). \<exists>j. j \<noteq> is_id r \<and>
     map_of (es_identifiers s) (identifier_key x) = Some j \<and> e = Identifier_Conflict (id_kind x) (id_value x) j (is_id r))"
  by (auto simp: upsert_issuer_def dest!: find_conflict_Some split: option.splits)

lemma upsert_exact:
  assumes "upsert_issuer r s = (Inr x, t)" and "index_exact s"
  shows "index_exact t"
proof (rule index_exactI)
  note t = upsert_ok [OF assms]
  show "is_id q = i" if "map_of (es_issuers t) i = Some q" for i q
    using that t exact_id [OF assms(2)] by (auto simp: map_of_update split: if_splits)
  fix k i
  have "map_of (es_identifiers s) k \<in> {None, Some (is_id r)}" if "k \<in> keys_of r"
    using assms(1) that by (auto simp: upsert_issuer_def find_conflict_None keys_of_def split: option.splits)
  then show "map_of (es_identifiers t) k = Some i \<longleftrightarrow> (\<exists>r. map_of (es_issuers t) i = Some r \<and> k \<in> keys_of r)"
    using t exact_iff [OF assms(2), of k i] by (auto simp: owner_after_upsert_def map_of_update)
qed

section \<open>Merging\<close>

lemma move_identifiers_ok:
  "\<forall>x\<in>set xs. map_of idx (identifier_key x) \<in> {Some keep, Some drp} \<Longrightarrow>
     fst (move_identifiers keep drp xs idx) = Inr () \<and>
     map_of (snd (move_identifiers keep drp xs idx)) k =
       (if k \<in> identifier_key ` set xs then Some keep else map_of idx k)"
proof (induction xs arbitrary: idx)
  case (Cons x xs)
  let ?idx = "AList.update (identifier_key x) keep idx"
  have "\<forall>y\<in>set xs. map_of ?idx (identifier_key y) \<in> {Some keep, Some drp}"
    using Cons.prems by (auto simp: map_of_update)
  with Cons.IH [of ?idx] Cons.prems show ?case by (auto simp: map_of_update)
qed simp

lemma identifier_union_keys:
  "identifier_key ` set (identifier_union xs ys) = identifier_key ` set xs \<union> identifier_key ` set ys"
proof -
  define ok where "ok d \<longleftrightarrow> distinct (map fst d) \<and> (\<forall>(k, x)\<in>set d. identifier_key x = k)"
    for d :: "(id_key \<times> ident) list"
  have upd: "ok (AList.update (identifier_key x) x d)" if "ok d" for x d
    using that set_update_subset [of "identifier_key x" x d] by (auto simp: ok_def distinct_keys_update)
  have dom: "fst ` set (AList.update k x d) = insert k (fst ` set d)" for k x and d :: "(id_key \<times> ident) list"
    by (induction d) auto
  have first: "ok (fold (\<lambda>x. AList.update (identifier_key x) x) xs d) \<and>
      fst ` set (fold (\<lambda>x. AList.update (identifier_key x) x) xs d) = identifier_key ` set xs \<union> fst ` set d"
    if "ok d" for d
    using that by (induction xs arbitrary: d) (auto simp: upd dom)
  let ?f = "\<lambda>y d. if map_of d (identifier_key y) = None then AList.update (identifier_key y) y d else d"
  have second: "ok (fold ?f ys d) \<and> fst ` set (fold ?f ys d) = identifier_key ` set ys \<union> fst ` set d" if "ok d" for d
    using that
  proof (induction ys arbitrary: d)
    case (Cons y ys)
    have "ok (?f y d)" "fst ` set (?f y d) = insert (identifier_key y) (fst ` set d)"
      using Cons.prems upd [of d y] by (auto simp: dom map_of_eq_None_iff image_iff) force
    then show ?case using Cons.IH [of "?f y d"] by auto
  qed simp
  let ?d = "fold ?f ys (fold (\<lambda>x. AList.update (identifier_key x) x) xs [])"
  have nil: "ok []" by (simp add: ok_def)
  have d: "ok ?d" "fst ` set ?d = identifier_key ` set xs \<union> identifier_key ` set ys"
    using second first [OF nil] by auto
  have "identifier_key ` snd ` set ?d = fst ` set ?d"
    using d(1) by (force simp: ok_def image_iff)
  then show ?thesis using d(2) by (simp add: identifier_union_def image_image)
qed

definition merged_issuer :: "issuer \<Rightarrow> issuer \<Rightarrow> issuer" where
  "merged_issuer a b = a\<lparr>is_identifiers := identifier_union (is_identifiers a) (is_identifiers b)\<rparr>"

lemma merged_simps [simp]: "is_id (merged_issuer a b) = is_id a" "keys_of (merged_issuer a b) = keys_of a \<union> keys_of b"
  by (simp_all add: merged_issuer_def keys_of_def identifier_union_keys)

text \<open>A merge of two issuers of the store succeeds, and is the plain specification.\<close>

lemma merge_ok:
  assumes "index_exact s" and "map_of (es_issuers s) keep = Some a" and "map_of (es_issuers s) drp = Some b"
    and "keep \<noteq> drp"
  shows "\<exists>t. merge_issuers keep drp s = (Inr (merged_issuer a b), t) \<and>
    map_of (es_issuers t) = (map_of (es_issuers s))(keep \<mapsto> merged_issuer a b, drp := None) \<and>
    map_of (es_identifiers t) = owner_after_merge keep drp (map_of (es_identifiers s)) \<and>
    es_points t = transfer_points keep drp (es_points s) \<and>
    es_filings t = map (retarget_filing keep drp) (es_filings s) \<and>
    es_relations t = map (retarget_relation keep drp) (es_relations s)"
proof -
  let ?own = "map_of (es_identifiers s)"
  have own: "?own k = Some keep \<longleftrightarrow> k \<in> keys_of a" "?own k = Some drp \<longleftrightarrow> k \<in> keys_of b" for k
    using exact_known [OF assms(1)] assms(2,3) by auto
  have ids: "is_id a = keep" "is_id b = drp" using exact_id [OF assms(1)] assms(2,3) by auto
  obtain idx where mv: "move_identifiers keep drp (is_identifiers b) (es_identifiers s) = (Inr (), idx)"
    and idx: "map_of idx = owner_after_merge keep drp ?own"
  proof -
    have "\<forall>x\<in>set (is_identifiers b). ?own (identifier_key x) \<in> {Some keep, Some drp}"
      using own(2) by (simp add: keys_of_def)
    note mv = move_identifiers_ok [OF this]
    have "map_of (snd (move_identifiers keep drp (is_identifiers b) (es_identifiers s))) = owner_after_merge keep drp ?own"
      using mv own by (auto simp: owner_after_merge_def keys_of_def fun_eq_iff)
    with mv that show ?thesis by (metis prod.collapse)
  qed
  let ?m = "merged_issuer a b" and ?s = "s\<lparr>es_identifiers := idx\<rparr>"
  have "find_conflict idx (is_id ?m) (is_identifiers ?m) = None"
  proof -
    have "map_of idx k \<in> {None, Some keep}" if "k \<in> keys_of ?m" for k
      using that own idx by (auto simp: owner_after_merge_def)
    then show ?thesis unfolding find_conflict_None by (auto simp: keys_of_def ids)
  qed
  note free = this
  obtain t where up: "upsert_issuer ?m ?s = (Inr ?m, t)"
    and t: "es_issuers t = AList.update keep ?m (es_issuers s)" "es_points t = es_points s"
      "es_filings t = es_filings s" "es_relations t = es_relations s"
      "es_identifiers t = add_identifiers ?m (drop_stale ?m (Some a) idx)"
    by (rule that [of "?s\<lparr>es_issuers := AList.update keep ?m (es_issuers s),
          es_identifiers := add_identifiers ?m (drop_stale ?m (Some a) idx)\<rparr>"])
      (use free assms(2) in \<open>simp_all add: upsert_issuer_def ids\<close>)
  have "map_of (es_identifiers t) k = owner_after_merge keep drp ?own k" for k
    using own [of k] by (auto simp: t(5) add_identifiers_map drop_stale_map idx ids owner_after_merge_def)
  then have "map_of (es_identifiers t) = owner_after_merge keep drp ?own" ..
  with mv up t assms show ?thesis
    by (simp add: merge_issuers_def Let_def merged_issuer_def [symmetric] map_of_update map_of_delete)
qed

lemma merge_exact:
  assumes "index_exact s" and "map_of (es_issuers s) keep = Some a" and "map_of (es_issuers s) drp = Some b"
    and "keep \<noteq> drp" and "merge_issuers keep drp s = (x, t)"
  shows "index_exact t"
proof (rule index_exactI)
  have t: "map_of (es_issuers t) = (map_of (es_issuers s))(keep \<mapsto> merged_issuer a b, drp := None)"
    "map_of (es_identifiers t) = owner_after_merge keep drp (map_of (es_identifiers s))"
    using merge_ok [OF assms(1-4)] assms(5) by auto
  show "is_id q = i" if "map_of (es_issuers t) i = Some q" for i q
    using that exact_id [OF assms(1)] assms(2) by (auto simp: t split: if_splits)
  fix k i
  show "map_of (es_identifiers t) k = Some i \<longleftrightarrow> (\<exists>r. map_of (es_issuers t) i = Some r \<and> k \<in> keys_of r)"
    using exact_iff [OF assms(1), of k i] exact_known [OF assms(1,2), of k] exact_known [OF assms(1,3), of k] assms(2-4)
    by (cases "i = keep"; cases "i = drp") (auto simp: t owner_after_merge_def)
qed

end
