(* ===== verification/Entity_Ops.thy ===== *)
theory Entity_Ops
  imports Entity_Laws
begin

text \<open>
  The invariant of the in-memory entity store over every sequence of its operations: the index is
  exact, each stored point, filing and relation belongs to an issuer of the store, and the points of
  a key have the source of the key. What a merge does to the points.
\<close>

section \<open>The points of a key\<close>

definition points_at :: "(market_key \<times> market_point list) list \<Rightarrow> market_key \<Rightarrow> market_point list" where
  "points_at pts key = (case map_of pts key of None \<Rightarrow> [] | Some ps \<Rightarrow> ps)"

definition target_key :: "string \<Rightarrow> string \<Rightarrow> market_key \<Rightarrow> market_key" where
  "target_key keep drp key = (retarget keep drp (fst key), snd key)"

lemma points_at_update: "points_at (AList.update k ps al) key = (if key = k then ps else points_at al key)"
  by (simp add: points_at_def map_of_update)

abbreviation append_step :: "string \<Rightarrow> series_kind \<Rightarrow> market_point \<Rightarrow>
    (market_key \<times> market_point list) list \<Rightarrow> (market_key \<times> market_point list) list" where
  "append_step i k p pts \<equiv>
     AList.update (i, k, point_source p) (points_at pts (i, k, point_source p) @ [p]) pts"

lemma append_points_fold:
  "append_points i k ps s = (Inr (), t) \<Longrightarrow> es_points t = fold (append_step i k) ps (es_points s)"
  by (auto simp: append_points_def require_issuer_def Let_def points_at_def [abs_def] split: if_splits)

lemma append_points_at:
  assumes "append_points i k ps s = (Inr (), t)"
  shows "points_at (es_points t) key = points_at (es_points s) key @ filter (\<lambda>p. key = (i, k, point_source p)) ps"
proof -
  have "points_at (fold (append_step i k) ps al) key =
      points_at al key @ filter (\<lambda>p. key = (i, k, point_source p)) ps" for al
    by (induction ps arbitrary: al) (auto simp: points_at_update)
  then show ?thesis by (simp add: append_points_fold [OF assms])
qed

abbreviation transfer_step :: "string \<Rightarrow> string \<Rightarrow> market_key \<times> market_point list \<Rightarrow>
    (market_key \<times> market_point list) list \<Rightarrow> (market_key \<times> market_point list) list" where
  "transfer_step keep drp x acc \<equiv>
     AList.update (target_key keep drp (fst x)) (points_at acc (target_key keep drp (fst x)) @ snd x) acc"

lemma transfer_points_fold: "transfer_points keep drp pts = fold (transfer_step keep drp) pts []"
  unfolding transfer_points_def
  by (intro fold_cong refl) (auto simp: Let_def target_key_def retarget_def points_at_def fun_eq_iff)

lemma transfer_points_at: "points_at (transfer_points keep drp pts) key =
    concat (map snd (filter (\<lambda>x. target_key keep drp (fst x) = key) pts))"
proof -
  have "points_at (fold (transfer_step keep drp) pts acc) key =
      points_at acc key @ concat (map snd (filter (\<lambda>x. target_key keep drp (fst x) = key) pts))" for acc
    by (induction pts arbitrary: acc) (auto simp: points_at_update)
  then show ?thesis by (simp add: transfer_points_fold points_at_def)
qed

lemma concat_filter_key: "distinct (map fst pts) \<Longrightarrow>
    concat (map snd (filter (\<lambda>x. fst x = key) pts)) = points_at pts key"
proof (induction pts)
  case (Cons x pts)
  have "filter (\<lambda>y. fst y = fst x) pts = []" using Cons.prems by (force simp: filter_empty_conv image_iff)
  then show ?case using Cons by (cases x) (auto simp: points_at_def)
qed (simp add: points_at_def)

lemma mset_filter_or: "\<forall>x\<in>set xs. \<not> (P x \<and> Q x) \<Longrightarrow> mset (concat (map f (filter (\<lambda>x. P x \<or> Q x) xs))) =
    mset (concat (map f (filter P xs))) + mset (concat (map f (filter Q xs)))"
  by (induction xs) auto

text \<open>The points of the dropped issuer join those of the kept one, source by source.\<close>

lemma transfer_points_mset:
  assumes "distinct (map fst pts)" and "keep \<noteq> drp"
  shows "mset (points_at (transfer_points keep drp pts) (keep, x)) =
      mset (points_at pts (keep, x)) + mset (points_at pts (drp, x))"
    and "points_at (transfer_points keep drp pts) (drp, x) = []"
    and "i \<notin> {keep, drp} \<Longrightarrow> points_at (transfer_points keep drp pts) (i, x) = points_at pts (i, x)"
proof -
  have key: "target_key keep drp k = (keep, x) \<longleftrightarrow> k = (keep, x) \<or> k = (drp, x)" for k
    by (cases k) (auto simp: target_key_def retarget_def)
  show "mset (points_at (transfer_points keep drp pts) (keep, x)) =
      mset (points_at pts (keep, x)) + mset (points_at pts (drp, x))"
    unfolding transfer_points_at key using assms
    by (subst mset_filter_or) (auto simp: concat_filter_key)
  have "target_key keep drp k \<noteq> (drp, x)" for k
    using assms(2) by (auto simp: target_key_def retarget_def)
  then show "points_at (transfer_points keep drp pts) (drp, x) = []" by (simp add: transfer_points_at)
  assume "i \<notin> {keep, drp}"
  then have "target_key keep drp k = (i, x) \<longleftrightarrow> k = (i, x)" for k
    by (cases k) (auto simp: target_key_def retarget_def)
  then show "points_at (transfer_points keep drp pts) (i, x) = points_at pts (i, x)"
    using concat_filter_key [OF assms(1)] by (simp add: transfer_points_at)
qed

lemma update_keys: "fst ` set (AList.update k v al) = insert k (fst ` set al)"
  by (induction al) auto

lemma transfer_keys: "distinct (map fst (transfer_points keep drp pts)) \<and>
    fst ` set (transfer_points keep drp pts) = target_key keep drp ` fst ` set pts"
proof -
  have "distinct (map fst acc) \<Longrightarrow> distinct (map fst (fold (transfer_step keep drp) pts acc)) \<and>
      fst ` set (fold (transfer_step keep drp) pts acc) = fst ` set acc \<union> target_key keep drp ` fst ` set pts" for acc
    by (induction pts arbitrary: acc) (simp_all add: distinct_update update_keys)
  from this [of "[]"] show ?thesis by (simp add: transfer_points_fold)
qed

lemma append_keys:
  assumes "append_points i k ps s = (Inr (), t)" and "distinct (map fst (es_points s))"
  shows "distinct (map fst (es_points t)) \<and>
    fst ` set (es_points t) = fst ` set (es_points s) \<union> (\<lambda>p. (i, k, point_source p)) ` set ps"
proof -
  have "distinct (map fst al) \<Longrightarrow> distinct (map fst (fold (append_step i k) ps al)) \<and>
      fst ` set (fold (append_step i k) ps al) = fst ` set al \<union> (\<lambda>p. (i, k, point_source p)) ` set ps" for al
    by (induction ps arbitrary: al) (simp_all add: distinct_update update_keys)
  from this [OF assms(2)] show ?thesis by (simp only: append_points_fold [OF assms(1)])
qed

section \<open>The invariant\<close>

definition sourced :: "(market_key \<times> market_point list) list \<Rightarrow> bool" where
  "sourced pts \<longleftrightarrow> (\<forall>i k src. \<forall>p\<in>set (points_at pts (i, k, src)). point_source p = src)"

definition refs_known :: "store \<Rightarrow> bool" where
  "refs_known s \<longleftrightarrow> (\<forall>k\<in>fst ` set (es_points s). known s (fst k)) \<and>
     (\<forall>f\<in>set (es_filings s). known s (fi_issuer f)) \<and>
     (\<forall>r\<in>set (es_relations s). known s (re_from r) \<and> known s (re_to r))"

definition store_inv :: "store \<Rightarrow> bool" where
  "store_inv s \<longleftrightarrow> index_exact s \<and> distinct (map fst (es_points s)) \<and> sourced (es_points s) \<and> refs_known s"

datatype store_op =
    Op_Upsert issuer
  | Op_Merge string string
  | Op_Points string series_kind "market_point list"
  | Op_Filing filing
  | Op_Relation relation

text \<open>The store after an operation, one that raised included.\<close>

fun store_step :: "store_op \<Rightarrow> store \<Rightarrow> store" where
  "store_step (Op_Upsert r) s = snd (upsert_issuer r s)"
| "store_step (Op_Merge keep drp) s = snd (merge_issuers keep drp s)"
| "store_step (Op_Points i k ps) s = snd (append_points i k ps s)"
| "store_step (Op_Filing f) s = snd (append_filing f s)"
| "store_step (Op_Relation r) s = snd (append_relation r s)"

lemma store_inv_empty: "store_inv empty_store"
  by (simp add: store_inv_def empty_store_def index_exact_def sourced_def points_at_def refs_known_def)

lemma refs_mono: "refs_known s \<Longrightarrow> (\<And>i. known s i \<Longrightarrow> known t i) \<Longrightarrow> es_points t = es_points s \<Longrightarrow>
    es_filings t = es_filings s \<Longrightarrow> es_relations t = es_relations s \<Longrightarrow> refs_known t"
  unfolding refs_known_def by auto

lemma upsert_keeps:
  assumes "store_inv s" shows "store_inv (snd (upsert_issuer r s))"
proof (cases "upsert_issuer r s")
  case (Pair x t)
  show ?thesis
  proof (cases x)
    case (Inl e)
    with Pair upsert_raises [of r s e t] assms show ?thesis by simp
  next
    case (Inr y)
    with Pair have up: "upsert_issuer r s = (Inr y, t)" by simp
    have ex: "index_exact s" using assms by (simp add: store_inv_def)
    note t = upsert_ok [OF up ex]
    have "refs_known t"
      by (rule refs_mono [of s]) (use assms t in \<open>auto simp: store_inv_def known_def map_of_update\<close>)
    with t upsert_exact [OF up ex] assms Pair show ?thesis by (simp add: store_inv_def)
  qed
qed

lemma merge_keeps:
  assumes "store_inv s" shows "store_inv (snd (merge_issuers keep drp s))"
proof (cases "\<exists>a b. map_of (es_issuers s) keep = Some a \<and> map_of (es_issuers s) drp = Some b \<and> keep \<noteq> drp")
  case False
  then have "snd (merge_issuers keep drp s) = s" by (auto simp: merge_issuers_def split: option.splits)
  with assms show ?thesis by simp
next
  case True
  then obtain a b where ab: "map_of (es_issuers s) keep = Some a" "map_of (es_issuers s) drp = Some b" "keep \<noteq> drp"
    by blast
  have ex: "index_exact s" and d: "distinct (map fst (es_points s))" using assms by (simp_all add: store_inv_def)
  obtain t where m: "merge_issuers keep drp s = (Inr (merged_issuer a b), t)"
    and t: "map_of (es_issuers t) = (map_of (es_issuers s))(keep \<mapsto> merged_issuer a b, drp := None)"
      "es_points t = transfer_points keep drp (es_points s)"
      "es_filings t = map (retarget_filing keep drp) (es_filings s)"
      "es_relations t = map (retarget_relation keep drp) (es_relations s)"
    using merge_ok [OF ex ab] by blast
  have kn: "known t (retarget keep drp i)" if "known s i" for i
    using that ab by (auto simp: known_def t(1) retarget_def)
  have "sourced (es_points t)"
    using assms unfolding sourced_def t(2) transfer_points_at store_inv_def
    by (fastforce simp: target_key_def points_at_def dest: map_of_is_SomeI)
  moreover have "refs_known t"
    using assms kn transfer_keys [of keep drp "es_points s"] unfolding refs_known_def store_inv_def t(2-4)
    by (auto simp: retarget_filing_def retarget_relation_def target_key_def)
  ultimately show ?thesis
    using merge_exact [OF ex ab m] transfer_keys m by (simp add: store_inv_def t(2))
qed

lemma append_points_keeps:
  assumes "store_inv s" shows "store_inv (snd (append_points i k ps s))"
proof (cases "known s i")
  case False
  with assms show ?thesis by (simp add: append_points_def require_issuer_def known_def)
next
  case True
  then obtain t where ap: "append_points i k ps s = (Inr (), t)"
    and t: "es_issuers t = es_issuers s" "es_identifiers t = es_identifiers s" "es_filings t = es_filings s"
      "es_relations t = es_relations s"
    by (auto simp: append_points_def require_issuer_def known_def)
  have d: "distinct (map fst (es_points s))" using assms by (simp add: store_inv_def)
  have "index_exact t" using assms t by (simp add: store_inv_def index_exact_def)
  moreover have "sourced (es_points t)"
    using assms by (auto simp: sourced_def store_inv_def append_points_at [OF ap])
  moreover have "refs_known t"
    using assms t True append_keys [OF ap d] unfolding refs_known_def store_inv_def known_def by auto
  ultimately show ?thesis using append_keys [OF ap d] by (simp add: ap store_inv_def)
qed

lemma store_step_keeps:
  assumes "store_inv s" shows "store_inv (store_step x s)"
proof (cases x)
  case (Op_Filing f)
  with assms show ?thesis
    by (auto simp: append_filing_def require_issuer_def store_inv_def index_exact_def refs_known_def known_def)
next
  case (Op_Relation r)
  with assms show ?thesis
    by (auto simp: append_relation_def require_issuer_def store_inv_def index_exact_def refs_known_def known_def)
qed (simp_all add: assms upsert_keeps merge_keeps append_points_keeps)

lemma store_inv_run: "store_inv s \<Longrightarrow> store_inv (fold store_step xs s)"
  by (induction xs arbitrary: s) (simp_all add: store_step_keeps)

end
