(* ===== verification/Entity_Port.thy ===== *)
theory Entity_Port
  imports Entity_Ops Events
begin

text \<open>
  The part of the \<open>EntityStore\<close> protocol (\<open>entities/protocol.py\<close>) that the resolver and the seed
  loaders call, as a record of effects on a world; the contract those two rely on, as a locale; and
  the in-memory store behind the protocol, which meets it.
\<close>

section \<open>The protocol\<close>

text \<open>An upsert yields the typed failure of the store as a value, the way its caller catches it.\<close>

record 'w entity_port =
  ep_get :: "string \<Rightarrow> ('w, issuer option) eff"
  ep_lookup :: "identifier_kind \<Rightarrow> string \<Rightarrow> ('w, issuer option) eff"
  ep_upsert :: "issuer \<Rightarrow> ('w, store_error + issuer) eff"

definition store_exn :: "store_error \<Rightarrow> py_exn" where
  "store_exn e = (case e of Missing_Key \<Rightarrow> KeyError | _ \<Rightarrow> OtherError ''EntityStoreError'')"

definition raise_store :: "store_error + 'a \<Rightarrow> 'a res" where
  "raise_store r = (case r of Inl e \<Rightarrow> Inl (store_exn e) | Inr x \<Rightarrow> Inr x)"

text \<open>The in-memory store beside the rest of the world.\<close>

definition in_memory_port :: "('v \<times> store) entity_port" where
  "in_memory_port = \<lparr>
     ep_get = (\<lambda>i (v, s). (Inr (get_issuer i s), (v, s))),
     ep_lookup = (\<lambda>k x (v, s). (raise_store (lookup_issuer k x s), (v, s))),
     ep_upsert = (\<lambda>r (v, s). case upsert_issuer r s of (y, t) \<Rightarrow> (Inr y, (v, t)))\<rparr>"

definition beside :: "'v env \<Rightarrow> ('v \<times> 's) env" where
  "beside env = \<lparr>env_now = (\<lambda>(v, s). case env_now env v of (t, u) \<Rightarrow> (t, (u, s))),
     env_token_hex = (\<lambda>(v, s). case env_token_hex env v of (h, u) \<Rightarrow> (h, (u, s))),
     env_dump = env_dump env, env_parse = env_parse env\<rparr>"

definition aside :: "('v, 'a) eff \<Rightarrow> ('v \<times> 's, 'a) eff" where
  "aside m = (\<lambda>(v, s). case m v of (r, u) \<Rightarrow> (r, (u, s)))"

definition new_issuer_id :: "'w env \<Rightarrow> ('w, string) eff" where
  "new_issuer_id env = seq (call (env_token_hex env)) (\<lambda>h. ret (CHR ''I'' # h))"

section \<open>The contract\<close>

definition conflict_of :: "(string \<Rightarrow> issuer option) \<Rightarrow> issuer \<Rightarrow> store_error \<Rightarrow> bool" where
  "conflict_of b r e \<longleftrightarrow> (\<exists>x\<in>set (is_identifiers r). \<exists>q. is_id q \<noteq> is_id r \<and> b (is_id q) = Some q \<and>
     identifier_key x \<in> keys_of q \<and> e = Identifier_Conflict (id_kind x) (id_value x) (is_id q) (is_id r))"

locale entity_store =
  fixes P :: "'w entity_port" and env :: "'w env" and inv :: "'w \<Rightarrow> bool"
    and book :: "'w \<Rightarrow> string \<Rightarrow> issuer option"
  assumes get: "inv w \<Longrightarrow> ep_get P i w = (Inr (book w i), w)"
    and lookup: "inv w \<Longrightarrow> \<exists>x. ep_lookup P k v w = (Inr x, w) \<and>
      (\<forall>r. x = Some r \<longleftrightarrow> book w (is_id r) = Some r \<and> (k, v) \<in> keys_of r)"
    and book_id: "inv w \<Longrightarrow> book w i = Some r \<Longrightarrow> is_id r = i"
    and upsert: "inv w \<Longrightarrow> (\<exists>e. ep_upsert P r w = (Inr (Inl e), w) \<and> conflict_of (book w) r e) \<or>
      (\<exists>w'. ep_upsert P r w = (Inr (Inr r), w') \<and> inv w' \<and> book w' = (book w)(is_id r := Some r))"
    and clock: "inv w \<Longrightarrow> inv (snd (env_now env w)) \<and> book (snd (env_now env w)) = book w"
    and token: "inv w \<Longrightarrow> inv (snd (env_token_hex env w)) \<and> book (snd (env_token_hex env w)) = book w"
begin

text \<open>An identifier has at most one owner.\<close>

lemma lookup_owned: "inv w \<Longrightarrow> book w (is_id r) = Some r \<Longrightarrow> (k, v) \<in> keys_of r \<Longrightarrow>
    ep_lookup P k v w = (Inr (Some r), w)"
  using lookup [of w k v] by auto

lemma lookup_free: "inv w \<Longrightarrow> (\<And>r. book w (is_id r) = Some r \<Longrightarrow> (k, v) \<notin> keys_of r) \<Longrightarrow>
    ep_lookup P k v w = (Inr None, w)"
  using lookup [of w k v] by (metis option.exhaust)

lemma one_owner: "inv w \<Longrightarrow> book w i = Some r \<Longrightarrow> book w j = Some q \<Longrightarrow> key \<in> keys_of r \<Longrightarrow>
    key \<in> keys_of q \<Longrightarrow> r = q"
  using lookup_owned [of w r "fst key" "snd key"] lookup_owned [of w q "fst key" "snd key"] book_id by auto

end

section \<open>The in-memory store meets the contract\<close>

lemma lookup_exact:
  assumes "index_exact s"
  shows "\<exists>x. lookup_issuer k v s = Inr x \<and> (\<forall>r. x = Some r \<longleftrightarrow> get_issuer (is_id r) s = Some r \<and> (k, v) \<in> keys_of r)"
proof (cases "map_of (es_identifiers s) (k, v)")
  case None
  have "\<not> (get_issuer (is_id r) s = Some r \<and> (k, v) \<in> keys_of r)" for r
    using exact_iff [OF assms, of "(k, v)" "is_id r"] None by (auto simp: get_issuer_def)
  with None show ?thesis by (simp add: lookup_issuer_def)
next
  case (Some i)
  then obtain q where q: "map_of (es_issuers s) i = Some q" "(k, v) \<in> keys_of q"
    using exact_iff [OF assms, of "(k, v)" i] by blast
  have "get_issuer (is_id r) s = Some r \<and> (k, v) \<in> keys_of r \<longleftrightarrow> q = r" for r
  proof
    assume r: "get_issuer (is_id r) s = Some r \<and> (k, v) \<in> keys_of r"
    then have "map_of (es_identifiers s) (k, v) = Some (is_id r)"
      using exact_known [OF assms, of "is_id r" r "(k, v)"] by (simp add: get_issuer_def)
    with Some q(1) r show "q = r" by (simp add: get_issuer_def)
  next
    assume "q = r"
    with q exact_id [OF assms q(1)] show "get_issuer (is_id r) s = Some r \<and> (k, v) \<in> keys_of r"
      by (simp add: get_issuer_def)
  qed
  with Some q(1) show ?thesis by (simp add: lookup_issuer_def)
qed

lemma upsert_contract:
  assumes "store_inv s"
  shows "(\<exists>e. upsert_issuer r s = (Inl e, s) \<and> conflict_of (\<lambda>i. get_issuer i s) r e) \<or>
    (\<exists>t. upsert_issuer r s = (Inr r, t) \<and> store_inv t \<and>
       (\<lambda>i. get_issuer i t) = (\<lambda>i. get_issuer i s)(is_id r := Some r))"
proof (cases "upsert_issuer r s")
  case (Pair x t)
  have ex: "index_exact s" using assms by (simp add: store_inv_def)
  show ?thesis
  proof (cases x)
    case (Inl e)
    with Pair have e: "upsert_issuer r s = (Inl e, t)" by simp
    from upsert_raises [OF this] obtain y j where t: "t = s" and y: "y \<in> set (is_identifiers r)" "j \<noteq> is_id r"
      "map_of (es_identifiers s) (identifier_key y) = Some j" "e = Identifier_Conflict (id_kind y) (id_value y) j (is_id r)"
      by blast
    then obtain q where q: "map_of (es_issuers s) j = Some q" "identifier_key y \<in> keys_of q"
      using exact_iff [OF ex, of "identifier_key y" j] by blast
    with y exact_id [OF ex q(1)] have "conflict_of (\<lambda>i. get_issuer i s) r e"
      unfolding conflict_of_def get_issuer_def by blast
    with e t show ?thesis by simp
  next
    case (Inr z)
    with Pair have up: "upsert_issuer r s = (Inr z, t)" by simp
    note t = upsert_ok [OF up ex]
    have "store_inv t" using upsert_keeps [OF assms, of r] up by simp
    with up t show ?thesis by (auto simp: get_issuer_def map_of_update fun_eq_iff)
  qed
qed

lemma beside_simps [simp]:
  "env_now (beside env) (v, s) = (fst (env_now env v), (snd (env_now env v), s))"
  "env_token_hex (beside env) (v, s) = (fst (env_token_hex env v), (snd (env_token_hex env v), s))"
  by (simp_all add: beside_def split: prod.split)

lemma aside_apply [simp]: "aside m (v, s) = (fst (m v), (snd (m v), s))"
  by (simp add: aside_def split: prod.split)

lemma in_memory_simps [simp]:
  "ep_get in_memory_port i (v, s) = (Inr (get_issuer i s), (v, s))"
  "ep_lookup in_memory_port k x (v, s) = (raise_store (lookup_issuer k x s), (v, s))"
  "ep_upsert in_memory_port r (v, s) = (Inr (fst (upsert_issuer r s)), (v, snd (upsert_issuer r s)))"
  by (simp_all add: in_memory_port_def split: prod.split)

interpretation mem: entity_store in_memory_port "beside env" "\<lambda>w. store_inv (snd w)" "\<lambda>w i. get_issuer i (snd w)" for env
proof unfold_locales
  fix w :: "'v \<times> store" and k v
  assume "store_inv (snd w)"
  then obtain x where x: "lookup_issuer k v (snd w) = Inr x"
    "\<forall>r. x = Some r \<longleftrightarrow> get_issuer (is_id r) (snd w) = Some r \<and> (k, v) \<in> keys_of r"
    using lookup_exact [of "snd w" k v] by (auto simp: store_inv_def)
  then show "\<exists>x. ep_lookup in_memory_port k v w = (Inr x, w) \<and>
      (\<forall>r. x = Some r \<longleftrightarrow> get_issuer (is_id r) (snd w) = Some r \<and> (k, v) \<in> keys_of r)"
    by (cases w) (simp add: raise_store_def)
next
  fix w :: "'v \<times> store" and r
  assume "store_inv (snd w)"
  from upsert_contract [OF this, of r]
  show "(\<exists>e. ep_upsert in_memory_port r w = (Inr (Inl e), w) \<and> conflict_of (\<lambda>i. get_issuer i (snd w)) r e) \<or>
      (\<exists>w'. ep_upsert in_memory_port r w = (Inr (Inr r), w') \<and> store_inv (snd w') \<and>
        (\<lambda>i. get_issuer i (snd w')) = (\<lambda>i. get_issuer i (snd w))(is_id r := Some r))"
    by (cases w) auto
next
  fix w :: "'v \<times> store" and i r
  assume "store_inv (snd w)" "get_issuer i (snd w) = Some r"
  then show "is_id r = i" using exact_id by (auto simp: store_inv_def get_issuer_def)
qed (auto split: prod.split)

end
