(* ===== verification/Reconciliation.thy ===== *)
theory Reconciliation
  imports Entity_Port Cycle_Runner
begin

text \<open>
  The two clients of an entity store: the resolver the cycle runner calls
  (\<open>entities/resolver.py\<close>) and the seed loaders (\<open>entities/reconciliation.py\<close>). The source
  clients, the clock, the entropy source and the digest of a row (\<open>sha256\<close> of its JSON) are
  parameters. The loop over the pages of EDINET DB takes fuel: a client may serve full pages for
  ever; \<open>None\<close> means the fuel ran out.
\<close>

section \<open>The resolver\<close>

text \<open>The first kind, in declaration order, that binds the ticker.\<close>

fun first_hit :: "'w entity_port \<Rightarrow> string \<Rightarrow> identifier_kind list \<Rightarrow> ('w, (string \<times> identifier_kind) option) eff" where
  "first_hit P ticker [] = ret None"
| "first_hit P ticker (k # ks) = seq (ep_lookup P k ticker) (\<lambda>hit. case hit of
     Some r \<Rightarrow> ret (Some (is_id r, k)) | None \<Rightarrow> first_hit P ticker ks)"

definition resolve_ticker :: "'w entity_port \<Rightarrow> string \<Rightarrow> ('w, identifier_resolution) eff" where
  "resolve_ticker P ticker = seq (first_hit P ticker all_kinds) (\<lambda>hit. ret
     \<lparr>ir_input_ticker = ticker, ir_issuer_id = map_option fst hit,
      ir_matched_kind = map_option (kind_value \<circ> snd) hit\<rparr>)"

definition make_entity_resolver :: "'w entity_port \<Rightarrow> observer_input \<Rightarrow> ('w, identifier_resolution list) eff" where
  "make_entity_resolver P input = map_eff (resolve_ticker P) (oi_universe input)"

section \<open>Source rows\<close>

record listed_stock =
  jr_date :: string          \<comment> \<open>\<open>date.isoformat()\<close>\<close>
  jr_code :: string
  jr_name :: string
  jr_name_en :: "string option"

record company =
  co_edinet_code :: string
  co_sec_code :: "string option"
  co_jcn :: "string option"
  co_name :: string
  co_name_en :: "string option"
  co_name_ja :: string
  co_industry :: string
  co_accounting_standard :: string

text \<open>Building the identifiers raises when a value is not a valid one.\<close>

fun make_identifiers :: "(identifier_kind \<times> string) list \<Rightarrow> ident list res" where
  "make_identifiers [] = Inr []"
| "make_identifiers (x # xs) = bind_res (make_identifier (fst x) (snd x)) (\<lambda>i.
     bind_res (make_identifiers xs) (\<lambda>is. Inr (i # is)))"

definition jquants_identifiers :: "listed_stock \<Rightarrow> ident list res" where
  "jquants_identifiers row = (if jr_code row = [] then Inr []
     else make_identifiers ((JQUANTS_CODE, jr_code row) #
       (if length (jr_code row) = 5 then [(SEC_CODE, butlast (jr_code row))] else [])))"

definition truthy :: "string option \<Rightarrow> bool" where
  "truthy x = (case x of None \<Rightarrow> False | Some s \<Rightarrow> s \<noteq> [])"

definition edinetdb_identifiers :: "company \<Rightarrow> ident list res" where
  "edinetdb_identifiers c = (if co_edinet_code c = [] then Inr []
     else make_identifiers ((EDINET_CODE, co_edinet_code c) #
       (if truthy (co_jcn c) then [(JCN, the (co_jcn c))] else []) @
       (if truthy (co_sec_code c) then [(SEC_CODE, the (co_sec_code c))] else [])))"

type_synonym raw = "(string \<times> string) list"

definition raw_option :: "string \<Rightarrow> string option \<Rightarrow> raw" where
  "raw_option key x = (case x of None \<Rightarrow> [] | Some v \<Rightarrow> [(key, v)])"

definition jquants_raw :: "listed_stock \<Rightarrow> raw" where
  "jquants_raw row = [(''Date'', jr_date row), (''Code'', jr_code row), (''CoName'', jr_name row)] @
     raw_option ''CoNameEn'' (jr_name_en row)"

definition edinetdb_raw :: "company \<Rightarrow> raw" where
  "edinetdb_raw c = [(''edinet_code'', co_edinet_code c), (''name'', co_name c), (''name_ja'', co_name_ja c),
     (''industry'', co_industry c), (''accounting_standard'', co_accounting_standard c)] @
     raw_option ''sec_code'' (co_sec_code c) @ raw_option ''jcn'' (co_jcn c) @ raw_option ''name_en'' (co_name_en c)"

definition build_provenance :: "(raw \<Rightarrow> string) \<Rightarrow> source \<Rightarrow> int \<Rightarrow> raw \<Rightarrow> provenance res" where
  "build_provenance digest src fetched raw = make_provenance src (Aware fetched) (digest raw) None"

section \<open>One row\<close>

datatype upsert_outcome = Upserted | Skipped_No_Op | Skipped_Dry_Run | Conflict string

record ledger =
  lg_upserted :: int
  lg_skipped :: int
  lg_conflicts :: "string list"
  lg_provenance :: "provenance list"

definition empty_ledger :: ledger where
  "empty_ledger = \<lparr>lg_upserted = 0, lg_skipped = 0, lg_conflicts = [], lg_provenance = []\<rparr>"

definition format_conflict :: "identifier_kind \<Rightarrow> string \<Rightarrow> string \<Rightarrow> string \<Rightarrow> string" where
  "format_conflict kind v existing proposed = kind_value kind @ [CHR 32, CHR 39] @ v @ [CHR 39] @ '' already bound to '' @ existing @
     '', refused '' @ proposed"

text \<open>\<open>\_find\_existing\_owner\<close>: the first identifier that is bound, with its owner.\<close>

fun find_owner :: "'w entity_port \<Rightarrow> ident list \<Rightarrow> ('w, (string \<times> ident) option) eff" where
  "find_owner P [] = ret None"
| "find_owner P (x # xs) = seq (ep_lookup P (id_kind x) (id_value x)) (\<lambda>hit. case hit of
     Some r \<Rightarrow> ret (Some (is_id r, x)) | None \<Rightarrow> find_owner P xs)"

definition issuers_equivalent :: "issuer \<Rightarrow> issuer \<Rightarrow> bool" where
  "issuers_equivalent l r \<longleftrightarrow> is_id l = is_id r \<and> is_name l = is_name r \<and>
     set (is_identifiers l) = set (is_identifiers r)"

definition commit_issuer :: "'w entity_port \<Rightarrow> string \<Rightarrow> ident list \<Rightarrow> bool \<Rightarrow> string \<Rightarrow> ('w, upsert_outcome) eff" where
  "commit_issuer P name ids dry i = seq (lift_res (make_issuer i None None name ids)) (\<lambda>r.
     seq (ep_get P i) (\<lambda>existing.
     if opt_all (\<lambda>e. issuers_equivalent e r) existing \<and> existing \<noteq> None then ret Skipped_No_Op
     else if dry then ret Skipped_Dry_Run
     else seq (ep_upsert P r) (\<lambda>y. case y of
         Inr _ \<Rightarrow> ret Upserted
       | Inl (Identifier_Conflict k v e p) \<Rightarrow> ret (Conflict (format_conflict k v e p))
       | Inl e \<Rightarrow> raise (store_exn e))))"

definition try_upsert :: "'w entity_port \<Rightarrow> 'w env \<Rightarrow> string \<Rightarrow> ident list \<Rightarrow> bool \<Rightarrow> ('w, upsert_outcome) eff" where
  "try_upsert P env name ids dry = seq (find_owner P ids) (\<lambda>own. case own of
     None \<Rightarrow> seq (new_issuer_id env) (commit_issuer P name ids dry)
   | Some (i, x) \<Rightarrow> seq (ep_get P i) (\<lambda>r.
       if r \<noteq> None \<and> opt_all (\<lambda>q. is_name q \<noteq> name) r
       then ret (Conflict (format_conflict (id_kind x) (id_value x) i i))
       else commit_issuer P name ids dry i))"

fun apply_outcome :: "upsert_outcome \<Rightarrow> provenance \<Rightarrow> ledger \<Rightarrow> ledger" where
  "apply_outcome Upserted pv l = l\<lparr>lg_upserted := lg_upserted l + 1, lg_provenance := lg_provenance l @ [pv]\<rparr>"
| "apply_outcome Skipped_Dry_Run pv l = l\<lparr>lg_upserted := lg_upserted l + 1\<rparr>"
| "apply_outcome Skipped_No_Op pv l = l\<lparr>lg_skipped := lg_skipped l + 1\<rparr>"
| "apply_outcome (Conflict m) pv l = l\<lparr>lg_skipped := lg_skipped l + 1, lg_conflicts := lg_conflicts l @ [m]\<rparr>"

text \<open>The body of both loops, on what a row yields.\<close>

record load_item =
  it_name :: string
  it_identifiers :: "ident list res"
  it_raw :: raw

record 'w loader =
  ld_port :: "'w entity_port"
  ld_env :: "'w env"
  ld_digest :: "raw \<Rightarrow> string"
  ld_source :: source
  ld_dry :: bool

definition load_row :: "'w loader \<Rightarrow> int \<Rightarrow> load_item \<Rightarrow> ledger \<Rightarrow> ('w, ledger) eff" where
  "load_row c fetched x l = seq (lift_res (it_identifiers x)) (\<lambda>ids.
     if ids = [] then ret (l\<lparr>lg_skipped := lg_skipped l + 1\<rparr>)
     else seq (lift_res (build_provenance (ld_digest c) (ld_source c) fetched (it_raw x))) (\<lambda>pv.
       seq (try_upsert (ld_port c) (ld_env c) (it_name x) ids (ld_dry c)) (\<lambda>out. ret (apply_outcome out pv l))))"

fun load_rows :: "'w loader \<Rightarrow> int \<Rightarrow> load_item list \<Rightarrow> ledger \<Rightarrow> ('w, ledger) eff" where
  "load_rows c fetched [] l = ret l"
| "load_rows c fetched (x # xs) l = seq (load_row c fetched x l) (load_rows c fetched xs)"

definition jquants_item :: "listed_stock \<Rightarrow> load_item" where
  "jquants_item row = \<lparr>it_name = jr_name row, it_identifiers = jquants_identifiers row, it_raw = jquants_raw row\<rparr>"

definition edinetdb_item :: "company \<Rightarrow> load_item" where
  "edinetdb_item c = \<lparr>it_name = co_name c, it_identifiers = edinetdb_identifiers c, it_raw = edinetdb_raw c\<rparr>"

section \<open>The loaders\<close>

record reconciler_result =
  rr_upserted :: int
  rr_skipped :: int
  rr_conflicts :: "string list"
  rr_dry_run :: bool
  rr_provenance :: "provenance list"

definition ledger_result :: "bool \<Rightarrow> ledger \<Rightarrow> reconciler_result" where
  "ledger_result dry l = \<lparr>rr_upserted = lg_upserted l, rr_skipped = lg_skipped l, rr_conflicts = lg_conflicts l,
     rr_dry_run = dry, rr_provenance = lg_provenance l\<rparr>"

definition reconcile_from_jquants_master ::
  "'w entity_port \<Rightarrow> 'w env \<Rightarrow> (raw \<Rightarrow> string) \<Rightarrow> ('w, listed_stock list) eff \<Rightarrow> bool \<Rightarrow> ('w, reconciler_result) eff" where
  "reconcile_from_jquants_master P env digest list_master dry =
     (let c = \<lparr>ld_port = P, ld_env = env, ld_digest = digest, ld_source = JQUANTS, ld_dry = dry\<rparr> in
      seq (call (env_now env)) (\<lambda>fetched. seq list_master (\<lambda>rows.
      seq (load_rows c fetched (map jquants_item rows) empty_ledger) (\<lambda>l. ret (ledger_result dry l)))))"

definition edb_page_size :: int where
  "edb_page_size = 500"

text \<open>A page: its rows, and \<open>meta.pagination.total\<close>.\<close>

type_synonym listing = "company list \<times> int option"

fun edinetdb_pages :: "nat \<Rightarrow> 'w loader \<Rightarrow> int \<Rightarrow> (int \<Rightarrow> int \<Rightarrow> ('w, listing) eff) \<Rightarrow> int \<Rightarrow> int \<Rightarrow> ledger \<Rightarrow>
    ('w, ledger option) eff" where
  "edinetdb_pages 0 c fetched list_companies page seen l = ret None"
| "edinetdb_pages (Suc n) c fetched list_companies page seen l =
     seq (list_companies page edb_page_size) (\<lambda>listing.
     if fst listing = [] then ret (Some l)
     else seq (load_rows c fetched (map edinetdb_item (fst listing)) l) (\<lambda>l.
       let seen = seen + int (length (fst listing)) in
       if (case snd listing of Some tot \<Rightarrow> tot \<le> seen | None \<Rightarrow> int (length (fst listing)) < edb_page_size)
       then ret (Some l)
       else edinetdb_pages n c fetched list_companies (page + 1) seen l))"

definition reconcile_from_edinetdb_companies ::
  "nat \<Rightarrow> 'w entity_port \<Rightarrow> 'w env \<Rightarrow> (raw \<Rightarrow> string) \<Rightarrow> (int \<Rightarrow> int \<Rightarrow> ('w, listing) eff) \<Rightarrow> bool \<Rightarrow>
    ('w, reconciler_result option) eff" where
  "reconcile_from_edinetdb_companies fuel P env digest list_companies dry =
     (let c = \<lparr>ld_port = P, ld_env = env, ld_digest = digest, ld_source = EDINETDB, ld_dry = dry\<rparr> in
      seq (call (env_now env)) (\<lambda>fetched.
      seq (edinetdb_pages fuel c fetched list_companies 1 0 empty_ledger) (\<lambda>l.
      ret (map_option (ledger_result dry) l))))"

end
