(* ===== verification/Entity_Series.thy ===== *)
theory Entity_Series
  imports Entity_Ops
begin

text \<open>
  What a market series of the in-memory store holds: one point for each time of the range at which some
  source has one, from the preferred source, and a conflict entry for the sources that disagree with it.
\<close>

section \<open>The specification\<close>

definition latest :: "store \<Rightarrow> string \<Rightarrow> series_kind \<Rightarrow> source \<Rightarrow> int \<Rightarrow> market_point option" where
  "latest s i k src t = find (\<lambda>p. mp_time p = t) (rev (points_at (es_points s) (i, k, src)))"

definition preferred :: "source list \<Rightarrow> (source \<Rightarrow> bool) \<Rightarrow> source \<Rightarrow> bool" where
  "preferred priority avail src \<longleftrightarrow> avail src \<and> (case find avail priority of Some q \<Rightarrow> src = q
     | None \<Rightarrow> (\<forall>q. avail q \<longrightarrow> source_value src \<le> source_value q))"

definition rivals :: "store \<Rightarrow> string \<Rightarrow> series_kind \<Rightarrow> market_point \<Rightarrow> market_point set" where
  "rivals s i k p = {q. \<exists>src. src \<noteq> point_source p \<and> latest s i k src (mp_time p) = Some q \<and>
     \<not> dec_eq (mp_value q) (mp_value p)}"

definition series_point :: "store \<Rightarrow> string \<Rightarrow> series_kind \<Rightarrow> int \<Rightarrow> int \<Rightarrow> source list \<Rightarrow> market_point \<Rightarrow> bool" where
  "series_point s i k lo hi priority p \<longleftrightarrow> lo \<le> mp_time p \<and> mp_time p \<le> hi \<and>
     latest s i k (point_source p) (mp_time p) = Some p \<and>
     preferred priority (\<lambda>q. latest s i k q (mp_time p) \<noteq> None) (point_source p)"

section \<open>Collecting the points of the range\<close>

definition at_time :: "by_time \<Rightarrow> int \<Rightarrow> source \<Rightarrow> market_point option" where
  "at_time bt t src = (case map_of bt t of None \<Rightarrow> None | Some d \<Rightarrow> map_of d src)"

definition by_time_ok :: "by_time \<Rightarrow> bool" where
  "by_time_ok bt \<longleftrightarrow> distinct (map fst bt) \<and> (\<forall>t d. map_of bt t = Some d \<longrightarrow> d \<noteq> [] \<and> distinct (map fst d))"

lemma at_time_put: "at_time (put_point src p bt) t q = (if mp_time p = t \<and> src = q then Some p else at_time bt t q)"
  by (auto simp: at_time_def put_point_def map_of_update split: option.split)

lemma update_not_Nil [simp]: "AList.update k v al \<noteq> []"
  by (cases al) auto

lemma put_point_ok: "by_time_ok bt \<Longrightarrow> by_time_ok (put_point src p bt)"
  by (auto simp: by_time_ok_def put_point_def distinct_update map_of_update split: option.split)

abbreviation collect_in :: "int \<Rightarrow> int \<Rightarrow> source \<Rightarrow> market_point \<Rightarrow> by_time \<Rightarrow> by_time" where
  "collect_in lo hi src p bt \<equiv> if lo \<le> mp_time p \<and> mp_time p \<le> hi then put_point src p bt else bt"

lemma collect_in_ok: "by_time_ok bt \<Longrightarrow> by_time_ok (fold (collect_in lo hi src) ps bt)"
  by (induction ps arbitrary: bt) (simp_all add: put_point_ok)

lemma collect_points_ok: "by_time_ok (collect_points i k lo hi pts)"
proof -
  have "by_time_ok bt \<Longrightarrow> by_time_ok (fold (\<lambda>((j, l, src), ps) bt. if j \<noteq> i \<or> l \<noteq> k then bt
     else fold (collect_in lo hi src) ps bt) pts bt)" for bt
    by (induction pts arbitrary: bt) (auto simp: collect_in_ok)
  from this [of "[]"] show ?thesis by (simp add: collect_points_def by_time_ok_def)
qed

definition in_range :: "int \<Rightarrow> int \<Rightarrow> int \<Rightarrow> market_point list \<Rightarrow> market_point option" where
  "in_range lo hi t ps = (if lo \<le> t \<and> t \<le> hi then find (\<lambda>p. mp_time p = t) (rev ps) else None)"

lemma find_app_single: "find P (xs @ [y]) = (case find P xs of None \<Rightarrow> if P y then Some y else None | Some x \<Rightarrow> Some x)"
  by (simp add: find_append split: option.split)

lemma collect_in_at: "at_time (fold (collect_in lo hi src) ps bt) t q =
    (if q = src then case in_range lo hi t ps of None \<Rightarrow> at_time bt t q | Some p \<Rightarrow> Some p else at_time bt t q)"
  by (induction ps arbitrary: bt)
    (auto simp: at_time_put in_range_def find_app_single split: option.splits)

lemma collect_at:
  assumes "distinct (map fst pts)"
  shows "at_time (collect_points i k lo hi pts) t q = in_range lo hi t (points_at pts (i, k, q))"
proof -
  let ?step = "\<lambda>((j, l, src), ps) bt. if j \<noteq> i \<or> l \<noteq> k then bt else fold (collect_in lo hi src) ps bt"
  have nil: "in_range lo hi t [] = None" by (simp add: in_range_def)
  have "at_time (fold ?step pts bt) t q =
      (case in_range lo hi t (points_at pts (i, k, q)) of None \<Rightarrow> at_time bt t q | Some p \<Rightarrow> Some p)" for bt
    using assms
  proof (induction pts arbitrary: bt)
    case Nil
    then show ?case by (simp add: points_at_def nil)
  next
    case (Cons x pts)
    obtain j l src ps where x: "x = ((j, l, src), ps)" by (metis prod.collapse)
    have "points_at pts (j, l, src) = []"
    proof -
      have "map_of pts (j, l, src) = None" using Cons.prems by (simp add: x map_of_eq_None_iff)
      then show ?thesis by (simp add: points_at_def)
    qed
    moreover have "points_at (x # pts) (i, k, q) = (if (j, l, src) = (i, k, q) then ps else points_at pts (i, k, q))"
      by (simp add: x points_at_def)
    ultimately show ?case
      using Cons.IH [of "?step x bt"] Cons.prems by (auto simp: x collect_in_at nil split: option.split)
  qed
  from this [of "[]"] show ?thesis by (simp add: collect_points_def at_time_def split: option.split)
qed

section \<open>Choosing and discarding\<close>

lemma choose_point_ok:
  assumes "d \<noteq> []"
  shows "\<exists>c src. choose_point d priority = Some c \<and> map_of d src = Some c \<and>
    preferred priority (\<lambda>q. map_of d q \<noteq> None) src"
proof (cases "find (\<lambda>q. map_of d q \<noteq> None) priority")
  case (Some q)
  then have "map_of d q \<noteq> None" by (auto simp: find_Some_iff)
  with Some show ?thesis by (auto simp: choose_point_def preferred_def)
next
  case None
  let ?xs = "sort_key source_value (map fst d)"
  obtain q qs where xs: "?xs = q # qs" using assms by (cases ?xs) (auto dest: arg_cong [of _ _ length])
  have q: "q \<in> fst ` set d" using arg_cong [OF xs, of set] by auto
  have "sorted (map source_value (q # qs))" using sorted_sort_key [of source_value "map fst d"] by (simp only: xs)
  moreover have "r \<in> set (q # qs)" if "map_of d r \<noteq> None" for r
    using that arg_cong [OF xs, of set] by (auto simp: map_of_eq_None_iff)
  ultimately have "source_value q \<le> source_value r" if "map_of d r \<noteq> None" for r
    using that by fastforce
  note least = this
  obtain c where c: "map_of d q = Some c" using q by (cases "map_of d q") (auto simp: map_of_eq_None_iff)
  have "preferred priority (\<lambda>q. map_of d q \<noteq> None) q"
    using None c least by (simp add: preferred_def)
  moreover have "choose_point d priority = Some c" using None c by (simp add: choose_point_def xs)
  ultimately show ?thesis using c by blast
qed

lemma find_Some: "find P xs = Some x \<Longrightarrow> x \<in> set xs \<and> P x"
  by (induction xs) (auto split: if_splits)

lemma preferred_unique:
  assumes "preferred priority avail src" and "preferred priority avail q"
  shows "src = q"
proof (cases "find avail priority")
  case None
  then have "source_value src \<le> source_value q" "source_value q \<le> source_value src"
    using assms by (simp_all add: preferred_def)
  then have "source_value src = source_value q" by (rule order.antisym)
  then show ?thesis by (simp add: source_value_inj)
qed (use assms in \<open>simp add: preferred_def\<close>)

text \<open>The selection, one entry for each time of the range that some source covers.\<close>

definition chosen :: "by_time \<Rightarrow> source list \<Rightarrow> int \<Rightarrow> market_point" where
  "chosen bt priority t = the (choose_point (the (map_of bt t)) priority)"

lemma select_points_eq:
  assumes "by_time_ok bt"
  shows "select_points bt priority = map (\<lambda>t. (t, chosen bt priority t,
    discarded_points (the (map_of bt t)) (chosen bt priority t))) (sort (map fst bt))"
proof -
  have "(case map_of bt t of None \<Rightarrow> [] | Some d \<Rightarrow> (case choose_point d priority of None \<Rightarrow> []
      | Some c \<Rightarrow> [(t, c, discarded_points d c)])) =
      [(t, chosen bt priority t, discarded_points (the (map_of bt t)) (chosen bt priority t))]"
    if "t \<in> set (sort (map fst bt))" for t
  proof -
    obtain d where d: "map_of bt t = Some d"
      using \<open>t \<in> set (sort (map fst bt))\<close> by (cases "map_of bt t") (auto simp: map_of_eq_None_iff)
    then have "d \<noteq> []" using assms by (auto simp: by_time_ok_def)
    then obtain c where "choose_point d priority = Some c" using choose_point_ok by blast
    with d show ?thesis by (simp add: chosen_def)
  qed
  then have "map (\<lambda>t. case map_of bt t of None \<Rightarrow> [] | Some d \<Rightarrow> (case choose_point d priority of None \<Rightarrow> []
      | Some c \<Rightarrow> [(t, c, discarded_points d c)])) (sort (map fst bt)) =
    map (\<lambda>t. [(t, chosen bt priority t, discarded_points (the (map_of bt t)) (chosen bt priority t))])
      (sort (map fst bt))" by (intro map_cong refl)
  then show ?thesis unfolding select_points_def by (simp only: concat_map_singleton)
qed

lemma chosen_ok:
  assumes "by_time_ok bt" and "t \<in> fst ` set bt"
  shows "\<exists>src. at_time bt t src = Some (chosen bt priority t) \<and>
    preferred priority (\<lambda>q. at_time bt t q \<noteq> None) src"
proof -
  obtain d where d: "map_of bt t = Some d"
    using assms(2) by (cases "map_of bt t") (auto simp: map_of_eq_None_iff)
  then have "d \<noteq> []" using assms(1) by (auto simp: by_time_ok_def)
  from choose_point_ok [OF this, of priority] d show ?thesis
    by (auto simp: chosen_def at_time_def [abs_def])
qed

lemma at_time_dom: "by_time_ok bt \<Longrightarrow> t \<in> fst ` set bt \<longleftrightarrow> (\<exists>src. at_time bt t src \<noteq> None)"
proof
  assume "by_time_ok bt" "t \<in> fst ` set bt"
  from chosen_ok [OF this] show "\<exists>src. at_time bt t src \<noteq> None" by blast
next
  assume "\<exists>src. at_time bt t src \<noteq> None"
  then have "map_of bt t \<noteq> None" by (auto simp: at_time_def split: option.splits)
  then show "t \<in> fst ` set bt" by (simp add: map_of_eq_None_iff)
qed

section \<open>The series\<close>

locale collected =
  fixes s :: store and i :: string and k :: series_kind and lo hi :: int and bt :: by_time
  assumes inv: "store_inv s" and bt: "bt = collect_points i k lo hi (es_points s)"
begin

lemma ok: "by_time_ok bt"
  by (simp add: bt collect_points_ok)

lemma at_latest: "at_time bt t q = (if lo \<le> t \<and> t \<le> hi then latest s i k q t else None)"
  using inv by (simp add: bt store_inv_def collect_at in_range_def latest_def)

lemma latest_point:
  assumes "latest s i k q t = Some p"
  shows "mp_time p = t \<and> point_source p = q"
proof -
  have "p \<in> set (points_at (es_points s) (i, k, q)) \<and> mp_time p = t"
    using find_Some [OF assms [unfolded latest_def]] by simp
  moreover have "sourced (es_points s)" using inv by (simp add: store_inv_def)
  ultimately show ?thesis unfolding sourced_def by blast
qed

lemma time_covered: "t \<in> fst ` set bt \<longleftrightarrow> lo \<le> t \<and> t \<le> hi \<and> (\<exists>q. latest s i k q t \<noteq> None)"
  by (auto simp: at_time_dom [OF ok] at_latest)

lemma chosen_point:
  assumes "t \<in> fst ` set bt"
  shows "mp_time (chosen bt pr t) = t \<and> series_point s i k lo hi pr (chosen bt pr t)"
proof -
  have t: "lo \<le> t" "t \<le> hi" using assms by (simp_all add: time_covered)
  then obtain q where q: "latest s i k q t = Some (chosen bt pr t)" "preferred pr (\<lambda>q. latest s i k q t \<noteq> None) q"
    using chosen_ok [OF ok assms, of pr] by (auto simp: at_latest)
  with latest_point [OF q(1)] t show ?thesis by (simp add: series_point_def)
qed

lemma series_point_chosen: "series_point s i k lo hi pr p \<longleftrightarrow> mp_time p \<in> fst ` set bt \<and> p = chosen bt pr (mp_time p)"
proof
  assume p: "series_point s i k lo hi pr p"
  then have t: "mp_time p \<in> fst ` set bt" by (auto simp: time_covered series_point_def)
  note c = chosen_point [OF this, of pr]
  have "point_source (chosen bt pr (mp_time p)) = point_source p"
    by (rule preferred_unique [of pr "\<lambda>q. latest s i k q (mp_time p) \<noteq> None"])
      (use c p in \<open>auto simp: series_point_def\<close>)
  moreover have "latest s i k (point_source p) (mp_time p) = Some p"
    "latest s i k (point_source (chosen bt pr (mp_time p))) (mp_time p) = Some (chosen bt pr (mp_time p))"
    using p c unfolding series_point_def by auto
  ultimately have "Some p = Some (chosen bt pr (mp_time p))" by metis
  with t show "mp_time p \<in> fst ` set bt \<and> p = chosen bt pr (mp_time p)" by blast
qed (use chosen_point in metis)

lemma discarded_set:
  assumes "t \<in> fst ` set bt"
  shows "set (discarded_points (the (map_of bt t)) (chosen bt pr t)) = rivals s i k (chosen bt pr t)"
proof -
  obtain d where d: "map_of bt t = Some d"
    using assms by (cases "map_of bt t") (auto simp: map_of_eq_None_iff)
  have dist: "distinct (map fst d)" using ok d by (auto simp: by_time_ok_def)
  have "q \<in> snd ` set d \<longleftrightarrow> (\<exists>src. latest s i k src t = Some q)" for q
  proof -
    have "q \<in> snd ` set d \<longleftrightarrow> (\<exists>src. map_of d src = Some q)"
      using dist by (force simp: image_iff)
    also have "\<dots> \<longleftrightarrow> (\<exists>src. at_time bt t src = Some q)" by (simp add: at_time_def d)
    also have "\<dots> \<longleftrightarrow> (\<exists>src. latest s i k src t = Some q)" using assms by (simp add: time_covered at_latest)
    finally show ?thesis .
  qed
  then show ?thesis
    using chosen_point [OF assms, of pr] latest_point by (auto simp: discarded_points_def rivals_def d)
qed

lemma series_eq: "get_series i k lo hi pr s = series_of i k (map (\<lambda>t. (t, chosen bt pr t,
    discarded_points (the (map_of bt t)) (chosen bt pr t))) (sort (map fst bt)))"
  by (simp add: get_series_def bt [symmetric] select_points_eq [OF ok])

lemma sorted_times: "sorted_wrt (<) (sort (map fst bt))"
  using ok by (simp add: by_time_ok_def strict_sorted_iff)

lemma series_times: "map mp_time (ms_points (get_series i k lo hi pr s)) = sort (map fst bt)"
  by (simp add: series_eq series_of_def comp_def, rule map_idI, simp add: chosen_point)

lemma series_points: "p \<in> set (ms_points (get_series i k lo hi pr s)) \<longleftrightarrow> series_point s i k lo hi pr p"
  by (auto simp: series_eq series_of_def series_point_chosen) (use chosen_point in force)+

lemma series_conflicts: "c \<in> set (ms_conflicts (get_series i k lo hi pr s)) \<Longrightarrow>
    cf_time c = mp_time (cf_chosen c) \<and> series_point s i k lo hi pr (cf_chosen c) \<and>
    set (cf_discarded c) = rivals s i k (cf_chosen c) \<and> cf_discarded c \<noteq> []"
  using chosen_point discarded_set by (fastforce simp: series_eq series_of_def)

lemma series_conflict_logged: "series_point s i k lo hi pr p \<Longrightarrow> rivals s i k p \<noteq> {} \<Longrightarrow>
    \<exists>c\<in>set (ms_conflicts (get_series i k lo hi pr s)). cf_chosen c = p"
  using discarded_set [of "mp_time p" pr] by (force simp: series_eq series_of_def series_point_chosen image_iff)

end

interpretation ser: collected "fold store_step ops empty_store" i k lo hi
    "collect_points i k lo hi (es_points (fold store_step ops empty_store))" for ops i k lo hi
  by unfold_locales (simp_all add: store_inv_run store_inv_empty)

end
