(* ===== verification/Reconciliation_Laws.thy ===== *)
theory Reconciliation_Laws
  imports Reconciliation Entity_Series
begin

text \<open>
  What the resolver and the seed loaders guarantee on every store that meets the contract
  \<open>entity_store\<close>, and the properties of the entity component: they are stated on the in-memory
  store, the code's model of the contract.
\<close>

section \<open>The resolver\<close>

definition binds :: "(string \<Rightarrow> issuer option) \<Rightarrow> identifier_kind \<Rightarrow> string \<Rightarrow> issuer \<Rightarrow> bool" where
  "binds b k v r \<longleftrightarrow> b (is_id r) = Some r \<and> (k, v) \<in> keys_of r"

text \<open>A resolution: the owner under the first kind that has one.\<close>

definition resolves :: "(string \<Rightarrow> issuer option) \<Rightarrow> string \<Rightarrow> identifier_resolution \<Rightarrow> bool" where
  "resolves b t x \<longleftrightarrow> ir_input_ticker x = t \<and>
     (case find (\<lambda>k. \<exists>r. binds b k t r) all_kinds of
        None \<Rightarrow> ir_issuer_id x = None \<and> ir_matched_kind x = None
      | Some k \<Rightarrow> \<exists>r. binds b k t r \<and> ir_issuer_id x = Some (is_id r) \<and> ir_matched_kind x = Some (kind_value k))"

context entity_store
begin

lemma lookup_binds: "inv w \<Longrightarrow> \<exists>x. ep_lookup P k v w = (Inr x, w) \<and> (\<forall>r. x = Some r \<longleftrightarrow> binds (book w) k v r)"
  using lookup by (simp add: binds_def)

lemma first_hit_ok:
  assumes "inv w"
  shows "\<exists>h. first_hit P t ks w = (Inr h, w) \<and> (case find (\<lambda>k. \<exists>r. binds (book w) k t r) ks of
     None \<Rightarrow> h = None | Some k \<Rightarrow> \<exists>r. binds (book w) k t r \<and> h = Some (is_id r, k))"
proof (induction ks)
  case (Cons k ks)
  obtain x where x: "ep_lookup P k t w = (Inr x, w)" "\<forall>r. x = Some r \<longleftrightarrow> binds (book w) k t r"
    using lookup_binds [OF assms] by blast
  show ?case
  proof (cases x)
    case None
    with x Cons show ?thesis by (auto simp: seq_apply)
  next
    case (Some r)
    with x have "binds (book w) k t r" by blast
    with x Some show ?thesis by (auto simp: seq_apply)
  qed
qed simp

lemma resolve_ok:
  assumes "inv w"
  shows "\<exists>x. resolve_ticker P t w = (Inr x, w) \<and> resolves (book w) t x"
proof -
  from first_hit_ok [OF assms, of t all_kinds] obtain h where h: "first_hit P t all_kinds w = (Inr h, w)"
    "case find (\<lambda>k. \<exists>r. binds (book w) k t r) all_kinds of
       None \<Rightarrow> h = None | Some k \<Rightarrow> \<exists>r. binds (book w) k t r \<and> h = Some (is_id r, k)" by blast
  show ?thesis
  proof (cases "find (\<lambda>k. \<exists>r. binds (book w) k t r) all_kinds")
    case None
    with h show ?thesis by (simp add: resolve_ticker_def seq_apply resolves_def)
  next
    case (Some k)
    with h(2) obtain r where "binds (book w) k t r" "h = Some (is_id r, k)" by auto
    with Some h(1) show ?thesis by (auto simp: resolve_ticker_def seq_apply resolves_def)
  qed
qed

lemma resolver_ok: "inv w \<Longrightarrow> \<exists>xs. make_entity_resolver P input w = (Inr xs, w) \<and>
    list_all2 (resolves (book w)) (oi_universe input) xs"
  using map_eff_total [of "\<lambda>_ u. u = w" "oi_universe input" w "resolve_ticker P" "resolves (book w)"] resolve_ok [of w]
  unfolding make_entity_resolver_def by blast

end

section \<open>The ledger\<close>

lemma load_row_counts:
  assumes "load_row c f x l w = (Inr l', w')"
  shows "lg_upserted l' + lg_skipped l' = lg_upserted l + lg_skipped l + 1 \<and>
    int (length (lg_conflicts l')) - lg_skipped l' \<le> int (length (lg_conflicts l)) - lg_skipped l \<and>
    (if ld_dry c then lg_provenance l' = lg_provenance l
     else int (length (lg_provenance l')) - lg_upserted l' = int (length (lg_provenance l)) - lg_upserted l)"
proof -
  have out: "if ld_dry c then out \<noteq> Upserted else out \<noteq> Skipped_Dry_Run"
    if "try_upsert (ld_port c) (ld_env c) name ids (ld_dry c) u = (Inr out, u')" for name ids u out u'
  proof -
    have "if dry then out \<noteq> Upserted else out \<noteq> Skipped_Dry_Run"
      if "commit_issuer P name ids dry i u = (Inr out, u')" for P :: "'a entity_port" and dry i u
      using that by (auto simp: commit_issuer_def seq_apply split: prod.splits sum.splits if_splits store_error.splits)
    then show ?thesis using that
      unfolding try_upsert_def
      by (auto simp: seq_apply split: prod.splits sum.splits option.splits if_splits)
  qed
  show ?thesis
  proof (cases "it_identifiers x = Inr []")
    case True
    with assms show ?thesis by (auto simp: load_row_def seq_apply)
  next
    case False
    with assms obtain ids pv o' u where "try_upsert (ld_port c) (ld_env c) (it_name x) ids (ld_dry c) w = (Inr o', u)"
      "l' = apply_outcome o' pv l"
      by (auto simp: load_row_def seq_apply split: sum.splits prod.splits if_splits)
    with out [of "it_name x" ids w o' u] show ?thesis by (cases o') (auto split: if_splits)
  qed
qed

lemma load_rows_counts:
  assumes "load_rows c f xs l w = (Inr l', w')"
  shows "lg_upserted l' + lg_skipped l' = lg_upserted l + lg_skipped l + int (length xs) \<and>
    int (length (lg_conflicts l')) - lg_skipped l' \<le> int (length (lg_conflicts l)) - lg_skipped l \<and>
    (if ld_dry c then lg_provenance l' = lg_provenance l
     else int (length (lg_provenance l')) - lg_upserted l' = int (length (lg_provenance l)) - lg_upserted l)"
  using assms
proof (induction xs arbitrary: l w)
  case (Cons x xs)
  then obtain m u where one: "load_row c f x l w = (Inr m, u)" and rest: "load_rows c f xs m u = (Inr l', w')"
    by (auto simp: seq_apply split: prod.splits sum.splits)
  from load_row_counts [OF one] Cons.IH [OF rest] show ?case by (auto split: if_splits)
qed simp

text \<open>A dry run calls no upsert: it keeps whatever the reads and the entropy source keep.\<close>

lemma load_rows_keep:
  assumes "\<And>i. keeps Q (ep_get (ld_port c) i)" and "\<And>k v. keeps Q (ep_lookup (ld_port c) k v)"
    and "keeps Q (call (env_token_hex (ld_env c)))" and "ld_dry c \<or> (\<forall>r. keeps Q (ep_upsert (ld_port c) r))"
  shows "keeps Q (load_rows c f xs l)"
proof -
  have commit: "keeps Q (commit_issuer (ld_port c) name ids (ld_dry c) i)" for name ids i
    unfolding commit_issuer_def using assms by (auto intro!: keeps_intros split: sum.splits store_error.splits)
  have find: "keeps Q (find_owner (ld_port c) ids)" for ids
  proof (induction ids)
    case (Cons x ids)
    then show ?case by (auto intro!: keeps_intros assms split: option.split)
  qed (simp only: find_owner.simps keeps_ret)
  have "keeps Q (load_row c f x l)" for x l
    unfolding load_row_def try_upsert_def new_issuer_id_def
    by (auto intro!: keeps_intros assms commit find split: option.splits)
  then show ?thesis by (induction xs arbitrary: l) (auto intro: keeps_intros)
qed

section \<open>A row again\<close>

context entity_store
begin

lemma find_owner_ok:
  assumes "inv w"
  shows "\<exists>h. find_owner P ids w = (Inr h, w) \<and> (case h of
     None \<Rightarrow> \<forall>x\<in>set ids. \<forall>r. \<not> binds (book w) (id_kind x) (id_value x) r
   | Some (i, x) \<Rightarrow> x \<in> set ids \<and> (\<exists>r. is_id r = i \<and> binds (book w) (id_kind x) (id_value x) r))"
proof (induction ids)
  case (Cons x ids)
  obtain h where h: "ep_lookup P (id_kind x) (id_value x) w = (Inr h, w)"
    "\<forall>r. h = Some r \<longleftrightarrow> binds (book w) (id_kind x) (id_value x) r"
    using lookup_binds [OF assms] by blast
  show ?case
  proof (cases h)
    case None
    obtain g where g: "find_owner P ids w = (Inr g, w)" "case g of
       None \<Rightarrow> \<forall>x\<in>set ids. \<forall>r. \<not> binds (book w) (id_kind x) (id_value x) r
     | Some (i, x) \<Rightarrow> x \<in> set ids \<and> (\<exists>r. is_id r = i \<and> binds (book w) (id_kind x) (id_value x) r)"
      using Cons by blast
    with h None show ?thesis by (cases g) (auto simp: seq_apply)
  next
    case (Some r)
    with h show ?thesis by (auto simp: seq_apply)
  qed
qed simp

lemma make_issuer_ok: "make_issuer i None None name ids = Inr r \<Longrightarrow>
    is_name r = strip name \<and> set (is_identifiers r) = set ids \<and> keys_of r = identifier_key ` set ids"
  by (auto simp: make_issuer_def Let_def check_def keys_of_def split: if_splits)

lemma commit_ok:
  assumes "inv w" and "commit_issuer P name ids False i w = (Inr out, w')"
  obtains r where "make_issuer i None None name ids = Inr r"
    and "(\<exists>e. out = Skipped_No_Op \<and> w' = w \<and> book w i = Some e \<and> issuers_equivalent e r) \<or>
      (\<exists>m e. out = Conflict m \<and> w' = w \<and> conflict_of (book w) r e) \<or>
      (out = Upserted \<and> inv w' \<and> book w' = (book w)(is_id r := Some r))"
proof -
  obtain r where r: "make_issuer i None None name ids = Inr r"
    using assms(2) by (auto simp: commit_issuer_def seq_apply split: sum.splits)
  have "(\<exists>e. out = Skipped_No_Op \<and> w' = w \<and> book w i = Some e \<and> issuers_equivalent e r) \<or>
      (\<exists>m e. out = Conflict m \<and> w' = w \<and> conflict_of (book w) r e) \<or>
      (out = Upserted \<and> inv w' \<and> book w' = (book w)(is_id r := Some r))"
  proof (cases "book w i \<noteq> None \<and> issuers_equivalent (the (book w i)) r")
    case True
    with assms r show ?thesis by (auto simp: commit_issuer_def seq_apply get)
  next
    case False
    with assms r have *: "seq (ep_upsert P r) (\<lambda>y. case y of
         Inr _ \<Rightarrow> ret Upserted
       | Inl (Identifier_Conflict k v e p) \<Rightarrow> ret (Conflict (format_conflict k v e p))
       | Inl e \<Rightarrow> raise (store_exn e)) w = (Inr out, w')"
      by (cases "book w i") (auto simp: commit_issuer_def seq_apply get)
    from upsert [OF assms(1), of r] show ?thesis
    proof (elim disjE exE conjE)
      fix e assume "ep_upsert P r w = (Inr (Inl e), w)" "conflict_of (book w) r e"
      with * show ?thesis by (auto simp: seq_apply conflict_of_def)
    next
      fix u assume "ep_upsert P r w = (Inr (Inr r), u)" "inv u" "book u = (book w)(is_id r := Some r)"
      with * show ?thesis by (auto simp: seq_apply)
    qed
  qed
  with r that show thesis by blast
qed

lemma try_upsert_again:
  assumes "inv w" and "ids \<noteq> []" and "strip name = name"
    and "try_upsert P env name ids False w = (Inr out, w')"
  shows "inv w' \<and> (\<exists>out'. try_upsert P env name ids False w' = (Inr out', w') \<and> out' \<noteq> Upserted \<and>
    (out \<noteq> Upserted \<longrightarrow> w' = w \<and> out' = out))"
proof -
  have again: ?thesis if "out \<noteq> Upserted" "w' = w" using that assms by blast
  have written: ?thesis if up: "out = Upserted" "inv w'" "book w' = (book v)(is_id r := Some r)"
    and r: "make_issuer i None None name ids = Inr r" for v r i
  proof -
    from find_owner_ok [OF up(2), of ids] obtain h where h: "find_owner P ids w' = (Inr h, w')"
      "case h of None \<Rightarrow> \<forall>x\<in>set ids. \<forall>r. \<not> binds (book w') (id_kind x) (id_value x) r
       | Some (j, x) \<Rightarrow> x \<in> set ids \<and> (\<exists>q. is_id q = j \<and> binds (book w') (id_kind x) (id_value x) q)" by blast
    have bound: "binds (book w') (id_kind x) (id_value x) r" if "x \<in> set ids" for x
      using that make_issuer_ok [OF r] up(3) by (auto simp: binds_def identifier_key_def)
    have "h \<noteq> None" using h(2) bound [of "hd ids"] assms(2) by (auto split: option.splits)
    with h(2) obtain j x q where "h = Some (j, x)" "x \<in> set ids" "is_id q = j"
      "binds (book w') (id_kind x) (id_value x) q" by auto
    moreover have "q = r" if "x \<in> set ids" "binds (book w') (id_kind x) (id_value x) q"
      using that bound [OF that(1)] one_owner [OF up(2)] unfolding binds_def by blast
    ultimately have h': "h = Some (is_id r, x)" by blast
    have same: "make_issuer (is_id r) None None name ids = Inr r"
      using r by (auto simp: make_issuer_def Let_def strip_def strip_by_idem bind_res_Inr_iff)
    have "issuers_equivalent r r" by (simp add: issuers_equivalent_def)
    with same up h(1) h' make_issuer_ok [OF r] assms(3)
    have "try_upsert P env name ids False w' = (Inr Skipped_No_Op, w')"
      by (simp add: try_upsert_def commit_issuer_def seq_apply get)
    with up show ?thesis by simp
  qed
  from find_owner_ok [OF assms(1), of ids] obtain h where h: "find_owner P ids w = (Inr h, w)"
    "case h of None \<Rightarrow> \<forall>x\<in>set ids. \<forall>r. \<not> binds (book w) (id_kind x) (id_value x) r
     | Some (j, x) \<Rightarrow> x \<in> set ids \<and> (\<exists>q. is_id q = j \<and> binds (book w) (id_kind x) (id_value x) q)" by blast
  show ?thesis
  proof (cases h)
    case None
    let ?u = "snd (env_token_hex env w)" and ?i = "CHR ''I'' # fst (env_token_hex env w)"
    have u: "inv ?u" "book ?u = book w" using token [OF assms(1)] by simp_all
    have "commit_issuer P name ids False ?i ?u = (Inr out, w')"
      using assms(4) h(1) None by (simp add: try_upsert_def new_issuer_id_def seq_apply)
    from commit_ok [OF u(1) this] obtain r where r: "make_issuer ?i None None name ids = Inr r"
      and cs: "(\<exists>e. out = Skipped_No_Op \<and> w' = ?u \<and> book ?u ?i = Some e \<and> issuers_equivalent e r) \<or>
        (\<exists>m e. out = Conflict m \<and> w' = ?u \<and> conflict_of (book ?u) r e) \<or>
        (out = Upserted \<and> inv w' \<and> book w' = (book ?u)(is_id r := Some r))" by blast
    have free: "\<not> binds (book w) (id_kind x) (id_value x) q" if "x \<in> set ids" for x q
      using h(2) None that by simp
    have "\<not> (book w ?i = Some e \<and> issuers_equivalent e r)" for e
      using free [of "hd ids" e] assms(2) book_id [OF assms(1), of ?i e] make_issuer_ok [OF r]
      by (auto simp: issuers_equivalent_def binds_def keys_of_def identifier_key_def image_iff)
    moreover have "\<not> conflict_of (book w) r e" for e
      using free make_issuer_ok [OF r] by (auto simp: conflict_of_def binds_def identifier_key_def)
    ultimately show ?thesis using cs u written [OF _ _ _ r] by auto
  next
    case (Some jx)
    then obtain j x where jx: "h = Some (j, x)" by (cases jx) simp
    with h(2) obtain q where q: "is_id q = j" "binds (book w) (id_kind x) (id_value x) q" by auto
    then have b: "book w j = Some q" by (auto simp: binds_def)
    show ?thesis
    proof (cases "is_name q = name")
      case False
      with assms(4) h(1) jx b show ?thesis
        by (intro again) (auto simp: try_upsert_def seq_apply get assms(1))
    next
      case True
      with assms(4) h(1) jx b have "commit_issuer P name ids False j w = (Inr out, w')"
        by (simp add: try_upsert_def seq_apply get assms(1))
      from commit_ok [OF assms(1) this] again written show ?thesis by (metis upsert_outcome.distinct)
    qed
  qed
qed

end

section \<open>The pages of a catalogue\<close>

lemma load_rows_append: "load_rows c f (xs @ ys) l w = seq (load_rows c f xs l) (load_rows c f ys) w"
  by (induction xs arbitrary: l w) (auto simp: seq_apply split: prod.split sum.split)

text \<open>A client that serves a fixed catalogue, and reports its size or not.\<close>

definition serve :: "company list \<Rightarrow> bool \<Rightarrow> int \<Rightarrow> int \<Rightarrow> ('w, listing) eff" where
  "serve catalogue sized page per = ret (take (nat per) (drop (nat ((page - 1) * per)) catalogue),
     if sized then Some (int (length catalogue)) else None)"

lemma pages_all: "length cat < 500 * (m + fuel) \<Longrightarrow>
    edinetdb_pages (Suc fuel) c f (serve cat sized) (int m + 1) (int (500 * m)) l w =
    seq (load_rows c f (map edinetdb_item (drop (500 * m) cat)) l) (\<lambda>l. ret (Some l)) w"
proof (induction fuel arbitrary: m l w)
  case 0
  then show ?case by (simp add: serve_def edb_page_size_def seq_apply nat_mult_distrib)
next
  case (Suc fuel)
  define chunk where "chunk = take 500 (drop (500 * m) cat)"
  define rest where "rest = drop (500 * Suc m) cat"
  have split: "drop (500 * m) cat = chunk @ rest"
    using append_take_drop_id [of 500 "drop (500 * m) cat"] by (simp add: chunk_def rest_def add.commute)
  have len: "length cat = 500 * m + length (chunk @ rest)" if "chunk \<noteq> []"
    using that by (simp add: split [symmetric]) (simp add: chunk_def)
  have short: "rest = []" if "length chunk < 500" using that by (auto simp: chunk_def rest_def)
  have page: "serve cat sized (int m + 1) edb_page_size w =
      (Inr (chunk, if sized then Some (int (length cat)) else None), w)" for w :: 'a
    by (simp add: serve_def edb_page_size_def chunk_def nat_mult_distrib mult.commute)
  have le: "length chunk \<le> 500" by (simp add: chunk_def)
  define stop where "stop \<longleftrightarrow> (if sized then rest = [] else length chunk < 500)"
  have stop: "stop \<longleftrightarrow> (case if sized then Some (int (length cat)) else None of
      Some tot \<Rightarrow> tot \<le> int (500 * m) + int (length chunk) | None \<Rightarrow> int (length chunk) < edb_page_size)"
    if "chunk \<noteq> []" using len [OF that] by (auto simp: stop_def edb_page_size_def)
  have step: "edinetdb_pages (Suc (Suc fuel)) c f (serve cat sized) (int m + 1) (int (500 * m)) l w =
      seq (load_rows c f (map edinetdb_item chunk) l) (\<lambda>k. if stop then ret (Some k)
        else edinetdb_pages (Suc fuel) c f (serve cat sized) (int m + 1 + 1) (int (500 * m) + int (length chunk)) k) w"
    if "chunk \<noteq> []"
    unfolding edinetdb_pages.simps(2) [of "Suc fuel"] seq_ok [OF page] stop [OF that]
    using that by (simp only: Let_def fst_conv snd_conv if_False)
  have stops: "rest = []" if stop using that short by (auto simp: stop_def split: if_splits)
  show ?case
  proof (cases "chunk = []")
    case True
    with short show ?thesis by (simp add: seq_ok [OF page] split seq_apply)
  next
    case False
    note step = step [OF False]
    show ?thesis
    proof (cases stop)
      case True
      with stops show ?thesis unfolding step split by (simp only: if_True append_Nil2)
    next
      case go: False
      have IH: "edinetdb_pages (Suc fuel) c f (serve cat sized) (int (Suc m) + 1) (int (500 * Suc m)) k u =
          seq (load_rows c f (map edinetdb_item rest) k) (\<lambda>l. ret (Some l)) u" for k u
        unfolding rest_def using Suc.prems by (intro Suc.IH) simp
      have "rest = [] \<or> length chunk = 500" using short le by fastforce
      moreover have "length chunk = 500" using go len [OF False] short le by (fastforce simp: stop_def split: if_splits)
      ultimately have next_page: "int (500 * m) + int (length chunk) = int (500 * Suc m)" "int m + 1 + 1 = int (Suc m) + 1"
        by simp_all
      have "edinetdb_pages (Suc (Suc fuel)) c f (serve cat sized) (int m + 1) (int (500 * m)) l w =
          seq (load_rows c f (map edinetdb_item chunk) l) (\<lambda>k. edinetdb_pages (Suc fuel) c f (serve cat sized)
            (int (Suc m) + 1) (int (500 * Suc m)) k) w"
        unfolding step next_page using go by (simp only: if_False)
      also have "\<dots> = seq (load_rows c f (map edinetdb_item (chunk @ rest)) l) (\<lambda>l. ret (Some l)) w"
        by (simp only: seq_apply IH load_rows_append map_append) (simp split: prod.split sum.split)
      finally show ?thesis by (simp only: split)
    qed
  qed
qed


section \<open>The properties\<close>

text \<open>C26. After any sequence of store operations, failed ones included, a lookup never raises: it returns
  exactly the issuer of the store that carries the identifier. Every stored point, filing and relation
  belongs to an issuer of the store, so asking for subsidiaries never raises either. The resolver of
  the cycle runner never raises: it gives each ticker its owner under the first kind that has one.
\<close>

theorem entity_index_exact:
  "\<exists>x. lookup_issuer k v (fold store_step ops empty_store) = Inr x \<and>
    (\<forall>r. x = Some r \<longleftrightarrow> get_issuer (is_id r) (fold store_step ops empty_store) = Some r \<and> (k, v) \<in> keys_of r) \<and>
    refs_known (fold store_step ops empty_store) \<and> (\<exists>rs. subsidiaries_of i t (fold store_step ops empty_store) = Inr rs) \<and>
    (\<exists>xs. make_entity_resolver in_memory_port input (w, fold store_step ops empty_store) =
        (Inr xs, (w, fold store_step ops empty_store)) \<and>
      list_all2 (resolves (\<lambda>i. get_issuer i (fold store_step ops empty_store))) (oi_universe input) xs)"
proof -
  let ?s = "fold store_step ops empty_store"
  have inv: "store_inv ?s" by (rule store_inv_run [OF store_inv_empty])
  have "\<forall>x\<in>set xs. x \<noteq> None \<Longrightarrow> \<exists>rs. all_found xs = Inr rs" for xs :: "issuer option list"
    by (induction xs) auto
  moreover have "\<forall>r\<in>set (es_relations ?s). map_of (es_issuers ?s) (re_from r) \<noteq> None"
    using inv by (simp add: store_inv_def refs_known_def known_def)
  ultimately have "\<exists>rs. subsidiaries_of i t ?s = Inr rs" by (auto simp: subsidiaries_of_def)
  with inv lookup_exact [of ?s k v] mem.resolver_ok [of "(w, ?s)" input] show ?thesis
    unfolding store_inv_def snd_conv by blast
qed

text \<open>C27. A merge loses nothing: from any reachable store in which both issuers exist it succeeds, every
  identifier of the dropped issuer now finds the kept one and no other lookup changes, and the points,
  filings and relations of the dropped issuer are those of the kept one.
\<close>

theorem entity_merge_conserves:
  assumes "s = fold store_step ops empty_store" and "get_issuer keep s = Some a" and "get_issuer drp s = Some b"
    and "keep \<noteq> drp"
  shows "\<exists>m t. merge_issuers keep drp s = (Inr m, t) \<and> keys_of m = keys_of a \<union> keys_of b \<and>
    (\<lambda>i. get_issuer i t) = (\<lambda>i. get_issuer i s)(keep := Some m, drp := None) \<and>
    (\<forall>k v. lookup_issuer k v t = (if (k, v) \<in> keys_of m then Inr (Some m) else lookup_issuer k v s)) \<and>
    (\<forall>x. mset (points_at (es_points t) (keep, x)) = mset (points_at (es_points s) (keep, x)) +
       mset (points_at (es_points s) (drp, x)) \<and> points_at (es_points t) (drp, x) = []) \<and>
    (\<forall>i x. i \<notin> {keep, drp} \<longrightarrow> points_at (es_points t) (i, x) = points_at (es_points s) (i, x)) \<and>
    es_filings t = map (retarget_filing keep drp) (es_filings s) \<and>
    es_relations t = map (retarget_relation keep drp) (es_relations s)"
proof -
  have inv: "store_inv s" unfolding assms(1) by (rule store_inv_run [OF store_inv_empty])
  then have ex: "index_exact s" and d: "distinct (map fst (es_points s))" by (simp_all add: store_inv_def)
  note ab = assms(2,3) [unfolded get_issuer_def] assms(4)
  obtain t where m: "merge_issuers keep drp s = (Inr (merged_issuer a b), t)"
    and t: "map_of (es_issuers t) = (map_of (es_issuers s))(keep \<mapsto> merged_issuer a b, drp := None)"
      "map_of (es_identifiers t) = owner_after_merge keep drp (map_of (es_identifiers s))"
      "es_points t = transfer_points keep drp (es_points s)"
      "es_filings t = map (retarget_filing keep drp) (es_filings s)"
      "es_relations t = map (retarget_relation keep drp) (es_relations s)"
    using merge_ok [OF ex ab] by blast
  have look: "lookup_issuer k v t = (if (k, v) \<in> keys_of (merged_issuer a b) then Inr (Some (merged_issuer a b))
      else lookup_issuer k v s)" for k v
    using exact_known [OF ex ab(1), of "(k, v)"] exact_known [OF ex ab(2), of "(k, v)"] ab(3)
    by (auto simp: lookup_issuer_def t(1,2) owner_after_merge_def split: option.split)
  show ?thesis
    using m look t transfer_points_mset [OF d ab(3)]
    by (intro exI [of _ "merged_issuer a b"] exI [of _ t]) (auto simp: get_issuer_def fun_eq_iff)
qed

text \<open>C28. A market series read after any sequence of store operations has one point for each time of the
  range at which some source has one, in increasing order of time: the latest point of the preferred
  source (the first of the priority list that has one, else the first in alphabetical order). Its
  conflict log has an entry for exactly the points some other source disagrees with.
\<close>

theorem entity_series_exact:
  fixes ops and i k lo hi priority
  defines "s \<equiv> fold store_step ops empty_store"
  defines "ser \<equiv> get_series i k lo hi priority s"
  shows "sorted_wrt (<) (map mp_time (ms_points ser)) \<and>
    set (map mp_time (ms_points ser)) = {t. lo \<le> t \<and> t \<le> hi \<and> (\<exists>q. latest s i k q t \<noteq> None)} \<and>
    (\<forall>p. p \<in> set (ms_points ser) \<longleftrightarrow> series_point s i k lo hi priority p) \<and>
    cf_chosen ` set (ms_conflicts ser) = {p. series_point s i k lo hi priority p \<and> rivals s i k p \<noteq> {}} \<and>
    list_all (\<lambda>c. cf_time c = mp_time (cf_chosen c) \<and> set (cf_discarded c) = rivals s i k (cf_chosen c)) (ms_conflicts ser)"
proof -
  have conf: "cf_time c = mp_time (cf_chosen c) \<and> series_point s i k lo hi priority (cf_chosen c) \<and>
      set (cf_discarded c) = rivals s i k (cf_chosen c) \<and> cf_discarded c \<noteq> []" if "c \<in> set (ms_conflicts ser)" for c
    using that unfolding s_def ser_def by (rule ser.series_conflicts)
  have "cf_chosen ` set (ms_conflicts ser) = {p. series_point s i k lo hi priority p \<and> rivals s i k p \<noteq> {}}"
  proof (intro set_eqI iffI)
    fix p assume "p \<in> cf_chosen ` set (ms_conflicts ser)"
    with conf show "p \<in> {p. series_point s i k lo hi priority p \<and> rivals s i k p \<noteq> {}}" by fastforce
  next
    fix p assume "p \<in> {p. series_point s i k lo hi priority p \<and> rivals s i k p \<noteq> {}}"
    then have "\<exists>c\<in>set (ms_conflicts ser). cf_chosen c = p"
      unfolding s_def ser_def by (intro ser.series_conflict_logged) simp_all
    then show "p \<in> cf_chosen ` set (ms_conflicts ser)" by blast
  qed
  moreover have "sorted_wrt (<) (map mp_time (ms_points ser))"
    unfolding ser_def s_def ser.series_times by (rule ser.sorted_times)
  moreover have "set (map mp_time (ms_points ser)) = {t. lo \<le> t \<and> t \<le> hi \<and> (\<exists>q. latest s i k q t \<noteq> None)}"
    unfolding ser_def s_def ser.series_times using ser.time_covered [of _ i k lo hi ops] by (auto simp: set_eq_iff)
  moreover have "p \<in> set (ms_points ser) \<longleftrightarrow> series_point s i k lo hi priority p" for p
    unfolding ser_def s_def by (rule ser.series_points)
  ultimately show ?thesis using conf by (simp add: list_all_iff)
qed

lemma mem_keeps:
  "keeps (\<lambda>w. Q (snd w)) (ep_get in_memory_port i)"
  "keeps (\<lambda>w. Q (snd w)) (ep_lookup in_memory_port k v)"
  "keeps (\<lambda>w. Q (snd w)) (call (env_token_hex (beside env)))"
  "keeps (\<lambda>w. store_inv (snd w)) (ep_upsert in_memory_port r)"
  by (auto simp: keeps_def upsert_keeps)

text \<open>C29. A run of the J-Quants loader accounts for every row: each is either upserted or skipped, each
  conflict is a skipped row, and each row written leaves one provenance record. A run keeps the
  invariant of the store, and a dry run leaves the store as it is.
\<close>

theorem reconcile_accounts:
  assumes "reconcile_from_jquants_master in_memory_port (beside env) digest (aside list_master) dry (v, s) = (Inr res, (v', s'))"
    and "store_inv s" and "fst (list_master (snd (env_now env v))) = Inr rows"
  shows "rr_upserted res + rr_skipped res = int (length rows) \<and> int (length (rr_conflicts res)) \<le> rr_skipped res \<and>
    int (length (rr_provenance res)) = (if dry then 0 else rr_upserted res) \<and> store_inv s' \<and> (dry \<longrightarrow> s' = s)"
proof -
  let ?c = "\<lparr>ld_port = in_memory_port, ld_env = beside env, ld_digest = digest, ld_source = JQUANTS, ld_dry = dry\<rparr>"
  obtain l f u where l: "load_rows ?c f (map jquants_item rows) empty_ledger (u, s) = (Inr l, (v', s'))"
    and res: "res = ledger_result dry l"
    using assms(1,3) by (auto simp: reconcile_from_jquants_master_def seq_apply split: prod.splits sum.splits)
  have "keeps (\<lambda>w. store_inv (snd w)) (load_rows ?c f (map jquants_item rows) empty_ledger)"
    by (rule load_rows_keep) (simp_all add: mem_keeps mem_keeps(1,2) [where Q = store_inv] mem_keeps(3) [where Q = store_inv])
  from keepsD [OF this _ l] assms(2) have inv: "store_inv s'" by simp
  have same: "s' = s" if dry
  proof -
    have "keeps (\<lambda>w. snd w = s) (load_rows ?c f (map jquants_item rows) empty_ledger)"
      by (rule load_rows_keep) (simp_all add: that mem_keeps(1,2) [where Q = "\<lambda>x. x = s"] mem_keeps(3) [where Q = "\<lambda>x. x = s"])
    from keepsD [OF this _ l] show ?thesis by simp
  qed
  from load_rows_counts [OF l] inv same show ?thesis
    by (auto simp: res ledger_result_def empty_ledger_def)
qed

text \<open>Loading a row a second time is a no-op: after a row has been loaded, whatever the outcome, the
  same row leaves the world as it is and counts as skipped, with the same conflict if there was one.
\<close>

theorem reconcile_row_again:
  assumes "load_row c fetched x l (v, s) = (Inr l1, (v1, s1))" and "store_inv s" and "strip (it_name x) = it_name x"
    and "ld_port c = in_memory_port" and "ld_env c = beside env" and "\<not> ld_dry c"
  shows "\<exists>l2. load_row c fetched2 x l1 (v1, s1) = (Inr l2, (v1, s1)) \<and> lg_upserted l2 = lg_upserted l1 \<and>
    lg_skipped l2 = lg_skipped l1 + 1 \<and> lg_provenance l2 = lg_provenance l1 \<and>
    (lg_conflicts l1 \<noteq> lg_conflicts l \<longrightarrow> lg_conflicts l2 = lg_conflicts l1 @ [last (lg_conflicts l1)])"
proof (cases "it_identifiers x = Inr []")
  case True
  with assms(1) show ?thesis by (auto simp: load_row_def seq_apply)
next
  case False
  with assms(1) obtain ids pv out where ids: "it_identifiers x = Inr ids" "ids \<noteq> []"
    and pv: "build_provenance (ld_digest c) (ld_source c) fetched (it_raw x) = Inr pv"
    and out: "try_upsert in_memory_port (beside env) (it_name x) ids False (v, s) = (Inr out, (v1, s1))"
    and l1: "l1 = apply_outcome out pv l"
    using assms(4-6) by (auto simp: load_row_def seq_apply split: sum.splits prod.splits if_splits)
  obtain pv2 where pv2: "build_provenance (ld_digest c) (ld_source c) fetched2 (it_raw x) = Inr pv2"
    using pv by (auto simp: build_provenance_def make_provenance_def normalize_utc_def bind_res_Inr_iff)
  obtain out' where out': "try_upsert in_memory_port (beside env) (it_name x) ids False (v1, s1) = (Inr out', (v1, s1))"
    "out' \<noteq> Upserted" "out \<noteq> Upserted \<longrightarrow> out' = out"
    using mem.try_upsert_again [OF _ ids(2) assms(3) out] assms(2) by auto
  have dry: "out' \<noteq> Skipped_Dry_Run"
    using load_row_counts [of c fetched2 x l "(v1, s1)" "apply_outcome out' pv2 l" "(v1, s1)"] ids pv2 out'(1) assms(4-6)
    by (auto simp: load_row_def seq_apply)
  have "load_row c fetched2 x l1 (v1, s1) = (Inr (apply_outcome out' pv2 l1), (v1, s1))"
    using ids pv2 out'(1) assms(4-6) by (simp add: load_row_def seq_apply)
  with out' dry l1 show ?thesis by (cases out'; cases out) auto
qed

text \<open>Against a source that serves a fixed catalogue page by page, whether or not it reports the
  size, the EDINET DB loader ends: it reads every page once, and the run is the loading of the whole
  catalogue in order. Two more steps of fuel than there are full pages are enough.
\<close>

theorem edinetdb_pages_exhausted:
  "reconcile_from_edinetdb_companies (length catalogue div 500 + 2 + n) P env digest (serve catalogue sized) dry =
     seq (call (env_now env)) (\<lambda>fetched. seq (load_rows
       \<lparr>ld_port = P, ld_env = env, ld_digest = digest, ld_source = EDINETDB, ld_dry = dry\<rparr> fetched
       (map edinetdb_item catalogue) empty_ledger) (\<lambda>l. ret (Some (ledger_result dry l))))"
proof -
  have "length catalogue < 500 * (0 + (length catalogue div 500 + 1 + n))"
    using div_mult_mod_eq [of "length catalogue" 500] mod_less_divisor [of 500 "length catalogue"] by simp
  note all = pages_all [OF this, of _ _ sized]
  have "edinetdb_pages (length catalogue div 500 + 2 + n) c f (serve catalogue sized) 1 0 l =
      seq (load_rows c f (map edinetdb_item catalogue) l) (\<lambda>l. ret (Some l))" for c :: "'a loader" and f l
    by (rule ext) (use all [of c f l] in \<open>simp del: edinetdb_pages.simps\<close>)
  then show ?thesis
    unfolding reconcile_from_edinetdb_companies_def Let_def
    by (intro ext) (simp add: seq_apply split: prod.split sum.split del: edinetdb_pages.simps)
qed

end
