(* ===== verification/Duck_Store.thy ===== *)
theory Duck_Store
  imports Entity_Store
begin

text \<open>
  The DuckDB entity store (\<open>entities/duckdb.py\<close>): tables as lists of rows in the order they were
  inserted, statements as functions on them, constraints where a statement could break one. An enum is
  kept as itself and an instant in microseconds, since the code writes their texts and UTC times and
  reads them back. A row read as an issuer, filing or relation was validated before it was written, and
  is not validated again here.

  What SQL leaves to the engine is a parameter: the order of rows no \<open>ORDER BY\<close> fixes, the cast of a
  \<open>Decimal\<close> to \<open>DECIMAL(38, 18)\<close>, whether the rows of an \<open>executemany\<close> before a refused one stay, and
  whether index entries deleted by a transaction still count for its later statements, the
  over-eager checking that DuckDB documents.
\<close>

record engine =
  en_cast :: "decimal \<Rightarrow> decimal option"
  en_scan_points :: "market_point list \<Rightarrow> market_point list"
  en_scan_filings :: "filing list \<Rightarrow> filing list"
  en_scan_relations :: "relation list \<Rightarrow> relation list"
  en_many_atomic :: bool
  en_eager :: bool

section \<open>The tables\<close>

record issuer_row =
  ir_id :: string
  ir_lei :: "string option"
  ir_jcn :: "string option"
  ir_name :: string

type_synonym point_row = "string \<times> series_kind \<times> market_point"

record duck =
  dk_issuers :: "issuer_row list"
  dk_identifiers :: "(id_key \<times> string) list"
  dk_points :: "point_row list"
  dk_filings :: "filing list"
  dk_relations :: "relation list"

definition empty_duck :: duck where
  "empty_duck = \<lparr>dk_issuers = [], dk_identifiers = [], dk_points = [], dk_filings = [], dk_relations = []\<rparr>"

type_synonym 'a duck_result = "(store_error + 'a) \<times> duck"

text \<open>\<open>init\<close>: a file has no version yet, or the one it was written with.\<close>

definition entities_schema_version :: int where
  "entities_schema_version = 1"

definition duck_init :: "int option \<Rightarrow> py_exn + int option" where
  "duck_init version = (case version of
       Some v \<Rightarrow> if v \<noteq> entities_schema_version then Inl (OtherError ''EntityStoreError'') else Inr version
     | None \<Rightarrow> Inr (Some entities_schema_version))"

text \<open>\<open>\_transaction\<close>: an exception of the body rolls back what it did.\<close>

definition transaction :: "(duck \<Rightarrow> store_error + duck) \<Rightarrow> duck \<Rightarrow> unit duck_result" where
  "transaction body d = (case body d of Inl e \<Rightarrow> (Inl e, d) | Inr d' \<Rightarrow> (Inr (), d'))"

section \<open>Issuers\<close>

definition identifiers_of :: "string \<Rightarrow> duck \<Rightarrow> ident list" where
  "identifiers_of i d = sort_key identifier_sort_key
     (map (\<lambda>(k, j). \<lparr>id_kind = fst k, id_value = snd k\<rparr>) (filter (\<lambda>(k, j). j = i) (dk_identifiers d)))"

definition issuer_from_row :: "duck \<Rightarrow> issuer_row \<Rightarrow> issuer" where
  "issuer_from_row d row = \<lparr>is_id = ir_id row, is_lei = ir_lei row, is_jcn = ir_jcn row, is_name = ir_name row,
     is_identifiers = identifiers_of (ir_id row) d\<rparr>"

definition row_of :: "string \<Rightarrow> duck \<Rightarrow> issuer_row option" where
  "row_of i d = find (\<lambda>row. ir_id row = i) (dk_issuers d)"

definition duck_get_issuer :: "string \<Rightarrow> duck \<Rightarrow> issuer option" where
  "duck_get_issuer i d = map_option (issuer_from_row d) (row_of i d)"

definition duck_lookup_issuer :: "identifier_kind \<Rightarrow> string \<Rightarrow> duck \<Rightarrow> issuer option" where
  "duck_lookup_issuer k v d = (case map_of (dk_identifiers d) (k, v) of None \<Rightarrow> None | Some i \<Rightarrow> duck_get_issuer i d)"

definition row_of_issuer :: "issuer \<Rightarrow> issuer_row" where
  "row_of_issuer r = \<lparr>ir_id = is_id r, ir_lei = is_lei r, ir_jcn = is_jcn r, ir_name = is_name r\<rparr>"

definition put_row :: "issuer \<Rightarrow> issuer_row list \<Rightarrow> issuer_row list" where
  "put_row r rows = (if find (\<lambda>row. ir_id row = is_id r) rows = None then rows @ [row_of_issuer r]
     else map (\<lambda>row. if ir_id row = is_id r then row_of_issuer r else row) rows)"

text \<open>\<open>INSERT INTO identifiers\<close>, one row after the other, under the primary key \<open>(kind, value)\<close>; \<open>stale\<close>
  are the keys of deleted rows that an over-eager engine still sees.\<close>

fun insert_identifiers :: "id_key set \<Rightarrow> string \<Rightarrow> ident list \<Rightarrow> (id_key \<times> string) list \<Rightarrow>
    store_error + (id_key \<times> string) list" where
  "insert_identifiers stale i [] rows = Inr rows"
| "insert_identifiers stale i (x # xs) rows =
     (if identifier_key x \<in> stale \<or> identifier_key x \<in> fst ` set rows then Inl Constraint_Error
      else insert_identifiers stale i xs (rows @ [(identifier_key x, i)]))"

definition upsert_rows :: "engine \<Rightarrow> issuer \<Rightarrow> duck \<Rightarrow> store_error + duck" where
  "upsert_rows en r d = (let remaining = filter (\<lambda>(k, j). j \<noteq> is_id r) (dk_identifiers d);
       stale = (if en_eager en then fst ` set (dk_identifiers d) else {}) in
     bind_res (insert_identifiers stale (is_id r) (is_identifiers r) remaining) (\<lambda>rows.
     Inr (d\<lparr>dk_issuers := put_row r (dk_issuers d), dk_identifiers := rows\<rparr>)))"

definition duck_upsert_issuer :: "engine \<Rightarrow> issuer \<Rightarrow> duck \<Rightarrow> issuer duck_result" where
  "duck_upsert_issuer en r d = (case find_conflict (dk_identifiers d) (is_id r) (is_identifiers r) of
     Some e \<Rightarrow> (Inl e, d)
   | None \<Rightarrow> (case transaction (upsert_rows en r) d of (Inl e, t) \<Rightarrow> (Inl e, t) | (Inr _, t) \<Rightarrow> (Inr r, t)))"

text \<open>The rows that reference an issuer through a foreign key. The points do not.\<close>

definition referenced :: "string \<Rightarrow> duck \<Rightarrow> bool" where
  "referenced i d \<longleftrightarrow> i \<in> snd ` set (dk_identifiers d) \<or> i \<in> fi_issuer ` set (dk_filings d) \<or>
     i \<in> re_from ` set (dk_relations d) \<or> i \<in> re_to ` set (dk_relations d)"

definition merge_rows :: "engine \<Rightarrow> string \<Rightarrow> string \<Rightarrow> duck \<Rightarrow> store_error + duck" where
  "merge_rows en keep drp d = (let moved = d\<lparr>
       dk_relations := map (retarget_relation keep drp) (dk_relations d),
       dk_points := map (\<lambda>(i, k, p). (retarget keep drp i, k, p)) (dk_points d),
       dk_filings := map (retarget_filing keep drp) (dk_filings d),
       dk_identifiers := map (\<lambda>(k, i). (k, retarget keep drp i)) (dk_identifiers d)\<rparr> in
     if referenced drp moved \<or> en_eager en \<and> referenced drp d then Inl Constraint_Error
     else Inr (moved\<lparr>dk_issuers := filter (\<lambda>row. ir_id row \<noteq> drp) (dk_issuers d)\<rparr>))"

definition duck_merge_issuers :: "engine \<Rightarrow> string \<Rightarrow> string \<Rightarrow> duck \<Rightarrow> issuer duck_result" where
  "duck_merge_issuers en keep drp d = (case duck_get_issuer keep d of
     None \<Rightarrow> (Inl (Unknown_Issuer keep), d)
   | Some a \<Rightarrow> if keep = drp then (Inr a, d)
     else (case duck_get_issuer drp d of None \<Rightarrow> (Inr a, d)
       | Some b \<Rightarrow> let merged = a\<lparr>is_identifiers := identifier_union (is_identifiers a) (is_identifiers b)\<rparr> in
           (case transaction (merge_rows en keep drp) d of
              (Inl e, t) \<Rightarrow> (Inl e, t) | (Inr _, t) \<Rightarrow> (Inr merged, t))))"

definition duck_require_issuer :: "string \<Rightarrow> duck \<Rightarrow> store_error + unit" where
  "duck_require_issuer i d = (if duck_get_issuer i d = None then Inl (Unknown_Issuer i) else Inr ())"

section \<open>Market points\<close>

definition cast_point :: "engine \<Rightarrow> market_point \<Rightarrow> market_point option" where
  "cast_point en p = map_option (\<lambda>v. p\<lparr>mp_value := v\<rparr>) (en_cast en (mp_value p))"

text \<open>\<open>executemany\<close> inserts row by row; a value out of range is refused.\<close>

fun insert_points :: "engine \<Rightarrow> string \<Rightarrow> series_kind \<Rightarrow> market_point list \<Rightarrow> point_row list \<Rightarrow> bool \<times> point_row list" where
  "insert_points en i k [] rows = (True, rows)"
| "insert_points en i k (p # ps) rows = (case cast_point en p of None \<Rightarrow> (False, rows)
     | Some q \<Rightarrow> insert_points en i k ps (rows @ [(i, k, q)]))"

definition duck_append_points :: "engine \<Rightarrow> string \<Rightarrow> series_kind \<Rightarrow> market_point list \<Rightarrow> duck \<Rightarrow> unit duck_result" where
  "duck_append_points en i k ps d = (case duck_require_issuer i d of Inl e \<Rightarrow> (Inl e, d)
     | Inr _ \<Rightarrow> (case insert_points en i k ps (dk_points d) of
         (True, rows) \<Rightarrow> (Inr (), d\<lparr>dk_points := rows\<rparr>)
       | (False, rows) \<Rightarrow> (Inl Constraint_Error, if en_many_atomic en then d else d\<lparr>dk_points := rows\<rparr>)))"

definition point_order :: "market_point \<Rightarrow> int \<times> string" where
  "point_order p = (mp_time p, source_value (point_source p))"

definition series_rows :: "engine \<Rightarrow> string \<Rightarrow> series_kind \<Rightarrow> int \<Rightarrow> int \<Rightarrow> duck \<Rightarrow> market_point list" where
  "series_rows en i k lo hi d = sort_key point_order (en_scan_points en (map (snd \<circ> snd)
     (filter (\<lambda>(j, l, p). j = i \<and> l = k \<and> lo \<le> mp_time p \<and> mp_time p \<le> hi) (dk_points d))))"

definition duck_get_series :: "engine \<Rightarrow> string \<Rightarrow> series_kind \<Rightarrow> int \<Rightarrow> int \<Rightarrow> source list \<Rightarrow> duck \<Rightarrow> market_series" where
  "duck_get_series en i k lo hi priority d = series_of i k (select_points
     (fold (\<lambda>p. put_point (point_source p) p) (series_rows en i k lo hi d) []) priority)"

section \<open>Filings and relations\<close>

definition duck_append_filing :: "filing \<Rightarrow> duck \<Rightarrow> unit duck_result" where
  "duck_append_filing f d = (case duck_require_issuer (fi_issuer f) d of Inl e \<Rightarrow> (Inl e, d)
     | Inr _ \<Rightarrow> if fi_doc_id f \<in> fi_doc_id ` set (dk_filings d) then (Inl Constraint_Error, d)
         else (Inr (), d\<lparr>dk_filings := dk_filings d @ [f]\<rparr>))"

definition duck_filings_for :: "engine \<Rightarrow> string \<Rightarrow> int \<Rightarrow> int \<Rightarrow> string list option \<Rightarrow> duck \<Rightarrow> filing list" where
  "duck_filings_for en i lo hi codes d = (if codes = Some [] then []
     else sort_key fi_submitted (en_scan_filings en (filter (filing_matches i lo hi codes) (dk_filings d))))"

definition duck_append_relation :: "relation \<Rightarrow> duck \<Rightarrow> unit duck_result" where
  "duck_append_relation r d = (case duck_require_issuer (re_from r) d of Inl e \<Rightarrow> (Inl e, d)
     | Inr _ \<Rightarrow> (case duck_require_issuer (re_to r) d of Inl e \<Rightarrow> (Inl e, d)
         | Inr _ \<Rightarrow> (Inr (), d\<lparr>dk_relations := dk_relations d @ [r]\<rparr>)))"

definition duck_subsidiaries_of :: "engine \<Rightarrow> string \<Rightarrow> int \<Rightarrow> duck \<Rightarrow> issuer list" where
  "duck_subsidiaries_of en i t d = List.map_filter (\<lambda>r. duck_get_issuer (re_from r) d)
     (en_scan_relations en (filter (\<lambda>r. re_kind r = SUBSIDIARY_OF \<and> re_to r = i \<and> active_at t r) (dk_relations d)))"

definition duck_relations_for :: "engine \<Rightarrow> string \<Rightarrow> relation_kind option \<Rightarrow> int option \<Rightarrow> duck \<Rightarrow> relation list" where
  "duck_relations_for en i k t d = en_scan_relations en (filter (relation_matches i k t) (dk_relations d))"

definition list_all_issuers :: "duck \<Rightarrow> issuer list" where
  "list_all_issuers d = map (issuer_from_row d) (sort_key ir_id (dk_issuers d))"

definition list_all_filings :: "duck \<Rightarrow> filing list" where
  "list_all_filings d = sort_key fi_doc_id (dk_filings d)"

definition list_all_relations :: "engine \<Rightarrow> duck \<Rightarrow> relation list" where
  "list_all_relations en d = sort_key (\<lambda>r. (re_from r, re_to r, relation_kind_value (re_kind r), re_valid_from r))
     (en_scan_relations en (dk_relations d))"

end
