(* ===== verification/Duck_Laws.thy ===== *)
theory Duck_Laws
  imports Duck_Store Entity_Series
begin

text \<open>
  The DuckDB store refines the in-memory store: the same operations give the same answers, up to the
  order of the identifiers of an issuer and the representation of a value. Where it does not.
\<close>

section \<open>What the stores are compared by\<close>

definition canonical :: "issuer \<Rightarrow> issuer" where
  "canonical r = r\<lparr>is_identifiers := sort_key identifier_sort_key (is_identifiers r)\<rparr>"

definition point_view :: "market_point \<Rightarrow> int \<times> rat \<times> provenance" where
  "point_view p = (mp_time p, dval (mp_value p), mp_provenance p)"

definition duck_points :: "duck \<Rightarrow> string \<Rightarrow> series_kind \<Rightarrow> source \<Rightarrow> market_point list" where
  "duck_points d i k src = map (snd \<circ> snd) (filter (\<lambda>(j, l, p). j = i \<and> l = k \<and> point_source p = src) (dk_points d))"

definition unambiguous :: "issuer \<Rightarrow> bool" where
  "unambiguous r \<longleftrightarrow> distinct (map identifier_key (is_identifiers r))"

definition refines :: "store \<Rightarrow> duck \<Rightarrow> bool" where
  "refines s d \<longleftrightarrow> store_inv s \<and> (\<forall>i r. map_of (es_issuers s) i = Some r \<longrightarrow> unambiguous r) \<and>
     (\<forall>i. row_of i d = map_option row_of_issuer (map_of (es_issuers s) i)) \<and>
     distinct (map fst (dk_identifiers d)) \<and> map_of (dk_identifiers d) = map_of (es_identifiers s) \<and>
     (\<forall>i k src. mset (map point_view (duck_points d i k src)) = mset (map point_view (points_at (es_points s) (i, k, src)))) \<and>
     dk_filings d = es_filings s \<and> dk_relations d = es_relations s"

lemma refines_empty: "refines empty_store empty_duck"
  by (simp add: refines_def store_inv_empty) (simp add: empty_store_def empty_duck_def row_of_def duck_points_def points_at_def)

section \<open>Identifiers of an issuer\<close>

lemma key_inj: "identifier_key x = identifier_key y \<longleftrightarrow> x = y"
  by (cases x; cases y) (simp add: identifier_key_def)

lemma keys_distinct: "distinct (map identifier_key xs) \<longleftrightarrow> distinct xs"
  by (auto simp: distinct_map inj_on_def key_inj)

lemma sort_key_inj: "identifier_sort_key x = identifier_sort_key y \<longleftrightarrow> x = y"
  by (cases x; cases y) (simp add: identifier_sort_key_def kind_value_inj)

lemma same_sorted:
  assumes "set xs = set ys" and "distinct xs" and "distinct ys"
  shows "sort_key identifier_sort_key xs = sort_key identifier_sort_key ys"
proof (rule sort_key_inj_key_eq)
  show "mset xs = mset (sort_key identifier_sort_key ys)" using assms by (simp add: set_eq_iff_mset_eq_distinct)
qed (auto simp: inj_on_def sort_key_inj)

lemma unambiguous_distinct: "unambiguous r \<Longrightarrow> distinct (is_identifiers r)"
  by (simp add: unambiguous_def keys_distinct)

lemma stored_identifiers:
  assumes "refines s d" and "map_of (es_issuers s) i = Some r"
  shows "identifiers_of i d = sort_key identifier_sort_key (is_identifiers r)"
proof -
  let ?mk = "\<lambda>(k, j). \<lparr>id_kind = fst k, id_value = snd k\<rparr> :: ident"
  let ?xs = "map ?mk (filter (\<lambda>(k, j). j = i) (dk_identifiers d))"
  have dk: "distinct (map fst (dk_identifiers d))" and same: "map_of (dk_identifiers d) = map_of (es_identifiers s)"
    and ex: "index_exact s" and un: "unambiguous r"
    using assms by (auto simp: refines_def store_inv_def)
  have mk: "identifier_key (?mk p) = fst p" for p by (cases p) (simp add: identifier_key_def)
  have keys: "map identifier_key ?xs = map fst (filter (\<lambda>(k, j). j = i) (dk_identifiers d))" by (simp add: mk)
  have dist: "distinct (map identifier_key ?xs)" unfolding keys using dk by (rule distinct_map_filter)
  have "x \<in> set ?xs \<longleftrightarrow> x \<in> set (is_identifiers r)" for x
  proof -
    have "x \<in> set ?xs \<longleftrightarrow> (identifier_key x, i) \<in> set (dk_identifiers d)"
      using mk by (force simp: identifier_key_def image_iff)
    also have "\<dots> \<longleftrightarrow> map_of (es_identifiers s) (identifier_key x) = Some i" using dk by (simp add: same [symmetric])
    also have "\<dots> \<longleftrightarrow> x \<in> set (is_identifiers r)"
      using exact_known [OF ex assms(2)] by (auto simp: keys_of_def key_inj)
    finally show ?thesis .
  qed
  then have "set ?xs = set (is_identifiers r)" by blast
  then show ?thesis unfolding identifiers_of_def
    using dist [unfolded keys_distinct] unambiguous_distinct [OF un] by (intro same_sorted)
qed

lemma duck_get:
  assumes "refines s d"
  shows "duck_get_issuer i d = map_option canonical (get_issuer i s)"
proof (cases "map_of (es_issuers s) i")
  case (Some r)
  then have "is_id r = i" using assms exact_id by (auto simp: refines_def store_inv_def)
  then have "issuer_from_row d (row_of_issuer r) = canonical r"
    using stored_identifiers [OF assms Some] by (simp add: issuer_from_row_def row_of_issuer_def canonical_def)
  with Some assms show ?thesis by (simp add: duck_get_issuer_def get_issuer_def refines_def)
qed (use assms in \<open>simp add: duck_get_issuer_def get_issuer_def refines_def\<close>)

lemma duck_lookup:
  assumes "refines s d"
  shows "lookup_issuer k v s = Inr x \<Longrightarrow> duck_lookup_issuer k v d = map_option canonical x"
    and "\<exists>x. lookup_issuer k v s = Inr x"
proof -
  have ex: "index_exact s" and same: "map_of (dk_identifiers d) = map_of (es_identifiers s)"
    using assms by (auto simp: refines_def store_inv_def)
  show "\<exists>x. lookup_issuer k v s = Inr x"
    using exact_iff [OF ex] by (force simp: lookup_issuer_def split: option.split)
  assume "lookup_issuer k v s = Inr x"
  then show "duck_lookup_issuer k v d = map_option canonical x"
    by (auto simp: duck_lookup_issuer_def lookup_issuer_def same duck_get [OF assms] get_issuer_def split: option.splits)
qed

lemma duck_require: "refines s d \<Longrightarrow> duck_require_issuer i d = require_issuer i s"
  by (simp add: duck_require_issuer_def require_issuer_def duck_get get_issuer_def)

section \<open>Upsert\<close>

lemma find_conflict_cong: "map_of a = map_of b \<Longrightarrow> find_conflict a i xs = find_conflict b i xs"
  by (induction xs) (auto split: option.split)

lemma insert_identifiers_ok:
  "distinct (map identifier_key xs) \<Longrightarrow> identifier_key ` set xs \<inter> fst ` set rows = {} \<Longrightarrow>
     insert_identifiers {} i xs rows = Inr (rows @ map (\<lambda>x. (identifier_key x, i)) xs)"
  by (induction xs arbitrary: rows) auto

lemma row_id [simp]: "ir_id (row_of_issuer r) = is_id r"
  by (simp add: row_of_issuer_def)

lemma find_map_row: "find (\<lambda>row. ir_id row = i) (map (\<lambda>row. if ir_id row = is_id r then row_of_issuer r else row) rows) =
    (if i = is_id r \<and> find (\<lambda>row. ir_id row = is_id r) rows \<noteq> None then Some (row_of_issuer r)
     else find (\<lambda>row. ir_id row = i) rows)"
  by (induction rows) auto

lemma put_row_find: "find (\<lambda>row. ir_id row = i) (put_row r rows) =
    (if i = is_id r then Some (row_of_issuer r) else find (\<lambda>row. ir_id row = i) rows)"
  by (auto simp: put_row_def find_append find_map_row split: option.split)

lemma map_of_filter_value:
  "distinct (map fst rows) \<Longrightarrow> map_of (filter (\<lambda>(k, j). P j) rows) k =
     (case map_of rows k of Some j \<Rightarrow> if P j then Some j else None | None \<Rightarrow> None)"
proof (induction rows)
  case (Cons x rows)
  then have "map_of rows (fst x) = None" by (simp add: map_of_eq_None_iff)
  with Cons show ?case by (cases x) (auto split: option.split)
qed simp

lemma map_of_inserted: "map_of (map (\<lambda>x. (identifier_key x, i)) xs) k = (if k \<in> identifier_key ` set xs then Some i else None)"
  by (induction xs) auto

lemma upsert_refines:
  assumes "refines s d" and "unambiguous r" and "\<not> en_eager en"
  shows "\<exists>x s' d'. upsert_issuer r s = (x, s') \<and> duck_upsert_issuer en r d = (x, d') \<and> refines s' d'"
proof -
  have dk: "distinct (map fst (dk_identifiers d))" and same: "map_of (dk_identifiers d) = map_of (es_identifiers s)"
    using assms(1) by (auto simp: refines_def)
  note agree = find_conflict_cong [OF same]
  show ?thesis
  proof (cases "find_conflict (es_identifiers s) (is_id r) (is_identifiers r)")
    case (Some e)
    with assms(1) agree show ?thesis by (simp add: upsert_issuer_def duck_upsert_issuer_def)
  next
    case None
    let ?rest = "filter (\<lambda>(k, j). j \<noteq> is_id r) (dk_identifiers d)"
    let ?rows = "?rest @ map (\<lambda>x. (identifier_key x, is_id r)) (is_identifiers r)"
    let ?d = "d\<lparr>dk_issuers := put_row r (dk_issuers d), dk_identifiers := ?rows\<rparr>"
    obtain s' where up: "upsert_issuer r s = (Inr r, s')" using None by (simp add: upsert_issuer_def)
    have inv: "store_inv s" and ex: "index_exact s" using assms(1) by (auto simp: refines_def store_inv_def)
    note t = upsert_ok [OF up ex]
    have own: "map_of (es_identifiers s) k = None \<or> map_of (es_identifiers s) k = Some (is_id r)" if "k \<in> keys_of r" for k
      using that None unfolding find_conflict_None by (auto simp: keys_of_def)
    have "map_of ?rest (identifier_key x) = None" if "x \<in> set (is_identifiers r)" for x
      using own [of "identifier_key x"] that dk by (auto simp: map_of_filter_value same keys_of_def)
    then have disj: "identifier_key ` set (is_identifiers r) \<inter> fst ` set ?rest = {}" by (force simp: map_of_eq_None_iff)
    have ins: "insert_identifiers {} (is_id r) (is_identifiers r) ?rest = Inr ?rows"
      using assms(2) disj by (intro insert_identifiers_ok) (simp_all add: unambiguous_def)
    have du: "duck_upsert_issuer en r d = (Inr r, ?d)"
      using None assms(3) ins by (simp add: duck_upsert_issuer_def agree transaction_def upsert_rows_def Let_def)
    have "distinct (map fst ?rest)" using dk by (rule distinct_map_filter)
    then have dist: "distinct (map fst ?rows)"
      using assms(2) disj by (simp add: unambiguous_def comp_def) blast
    have "map_of ?rows k = owner_after_upsert r (map_of (es_identifiers s)) k" for k
      using own [of k] dk
      by (auto simp: map_add_def map_of_filter_value map_of_inserted same owner_after_upsert_def keys_of_def
          split: option.split)
    then have ids: "map_of ?rows = map_of (es_identifiers s')" using t by auto
    have un: "unambiguous q" if "map_of (es_issuers s') i = Some q" for i q
      using that assms(1,2) t by (auto simp: refines_def map_of_update split: if_splits)
    have rows: "row_of i ?d = map_option row_of_issuer (map_of (es_issuers s') i)" for i
      using assms(1) t by (auto simp: refines_def row_of_def put_row_find map_of_update)
    have "store_inv s'" using upsert_keeps [OF inv, of r] up by simp
    then have "refines s' ?d"
      using assms(1) t dist ids un rows by (simp add: refines_def duck_points_def)
    with up du show ?thesis by blast
  qed
qed

section \<open>Merge\<close>

lemma union_unambiguous: "distinct (map identifier_key (identifier_union xs ys))"
proof -
  define ok where "ok d \<longleftrightarrow> distinct (map fst d) \<and> (\<forall>(k, x)\<in>set d. identifier_key x = k)"
    for d :: "(id_key \<times> ident) list"
  have upd: "ok (AList.update (identifier_key x) x d)" if "ok d" for x d
    using that set_update_subset [of "identifier_key x" x d] by (auto simp: ok_def distinct_keys_update)
  have first: "ok d \<Longrightarrow> ok (fold (\<lambda>x. AList.update (identifier_key x) x) xs d)" for d
    by (induction xs arbitrary: d) (simp_all add: upd)
  have second: "ok d \<Longrightarrow> ok (fold (\<lambda>y d. if map_of d (identifier_key y) = None
      then AList.update (identifier_key y) y d else d) ys d)" for d
    by (induction ys arbitrary: d) (simp_all add: upd)
  have keys: "map identifier_key (map snd d) = map fst d" if "ok d" for d
    using that by (auto simp: ok_def)
  have "ok []" by (simp add: ok_def)
  note d = second [OF first [OF this]]
  show ?thesis unfolding identifier_union_def keys [OF d] using d by (simp add: ok_def)
qed

lemma union_set: "set (identifier_union xs ys) = set xs \<union> set ys"
proof -
  have "identifier_key ` set (identifier_union xs ys) = identifier_key ` (set xs \<union> set ys)"
    by (simp add: identifier_union_keys image_Un)
  moreover have "inj identifier_key" by (rule injI) (simp add: key_inj)
  ultimately show ?thesis by (simp only: inj_image_eq_iff)
qed

lemma canonical_merged: "canonical (merged_issuer (canonical a) (canonical b)) = canonical (merged_issuer a b)"
proof -
  have "sort_key identifier_sort_key (identifier_union (sort_key identifier_sort_key (is_identifiers a))
      (sort_key identifier_sort_key (is_identifiers b))) =
    sort_key identifier_sort_key (identifier_union (is_identifiers a) (is_identifiers b))"
    using union_unambiguous by (intro same_sorted) (simp_all add: union_set keys_distinct)
  then show ?thesis by (simp add: merged_issuer_def canonical_def)
qed

lemma retarget_keep: "keep \<noteq> drp \<Longrightarrow> retarget keep drp i \<noteq> drp"
  by (simp add: retarget_def)

lemma find_not_dropped: "find (\<lambda>row. ir_id row = i) (filter (\<lambda>row. ir_id row \<noteq> drp) rows) =
    (if i = drp then None else find (\<lambda>row. ir_id row = i) rows)"
  by (induction rows) auto

lemma map_of_retargeted: "map_of (map (\<lambda>(k, i). (k, f i)) rows) k = map_option f (map_of rows k)"
  by (induction rows) auto

lemma points_view_merged:
  assumes "distinct (map fst pts)" and "keep \<noteq> drp"
    and "\<And>i k src. mset (map point_view (duck_points d i k src)) = mset (map point_view (points_at pts (i, k, src)))"
    and rows: "dk_points d' = map (\<lambda>(i, k, p). (retarget keep drp i, k, p)) (dk_points d)"
  shows "mset (map point_view (duck_points d' i k src)) = mset (map point_view (points_at (transfer_points keep drp pts) (i, k, src)))"
proof -
  let ?sel = "\<lambda>P. filter (\<lambda>(j, l, p). P j \<and> l = k \<and> point_source p = src) (dk_points d)"
  have moved: "duck_points d' i k src = map (snd \<circ> snd) (?sel (\<lambda>j. retarget keep drp j = i))"
    unfolding duck_points_def rows by (simp add: filter_map comp_def case_prod_unfold)
  consider "i = keep" | "i = drp" | "i \<notin> {keep, drp}" by blast
  then show ?thesis
  proof cases
    case 1
    have "mset (map (f \<circ> (snd \<circ> snd)) (filter (\<lambda>(j, l, p). retarget keep drp j = keep \<and> l = k \<and> point_source p = src) xs)) =
        mset (map (f \<circ> (snd \<circ> snd)) (filter (\<lambda>(j, l, p). j = keep \<and> l = k \<and> point_source p = src) xs)) +
        mset (map (f \<circ> (snd \<circ> snd)) (filter (\<lambda>(j, l, p). j = drp \<and> l = k \<and> point_source p = src) xs))"
      for xs :: "point_row list" and f :: "market_point \<Rightarrow> int \<times> rat \<times> provenance"
      using assms(2) by (induction xs) (auto simp: retarget_def split: if_splits)
    from this [of point_view "dk_points d"]
    have "mset (map point_view (duck_points d' i k src)) =
        mset (map point_view (duck_points d keep k src)) + mset (map point_view (duck_points d drp k src))"
      unfolding 1 moved [unfolded 1] by (simp add: duck_points_def)
    then show ?thesis using assms(3) [of keep k src] assms(3) [of drp k src]
      by (simp add: 1 transfer_points_mset(1) [OF assms(1,2)])
  next
    case 2
    then have "duck_points d' i k src = []"
      unfolding moved using retarget_keep [OF assms(2)] by (simp add: filter_empty_conv case_prod_unfold)
    with 2 show ?thesis by (simp add: transfer_points_mset(2) [OF assms(1,2)])
  next
    case 3
    then have "retarget keep drp j = i \<longleftrightarrow> j = i" for j by (auto simp: retarget_def)
    then have "duck_points d' i k src = duck_points d i k src" unfolding moved by (simp add: duck_points_def)
    then show ?thesis by (simp only: assms(3) transfer_points_mset(3) [OF assms(1,2) 3])
  qed
qed

lemma merge_refines:
  assumes "refines s d" and "\<not> en_eager en"
  shows "\<exists>x y s' d'. merge_issuers keep drp s = (x, s') \<and> duck_merge_issuers en keep drp d = (y, d') \<and>
    map_sum id canonical x = map_sum id canonical y \<and> refines s' d'"
proof -
  have get: "duck_get_issuer i d = map_option canonical (map_of (es_issuers s) i)" for i
    using duck_get [OF assms(1)] by (simp add: get_issuer_def)
  have idem: "canonical (canonical a) = canonical a" for a by (simp add: canonical_def sort_key_id_if_sorted)
  show ?thesis
  proof (cases "\<exists>a b. map_of (es_issuers s) keep = Some a \<and> map_of (es_issuers s) drp = Some b \<and> keep \<noteq> drp")
    case False
    with assms(1) show ?thesis
      by (auto simp: merge_issuers_def duck_merge_issuers_def get idem split: option.split)
  next
    case True
    then obtain a b where a: "map_of (es_issuers s) keep = Some a" and b: "map_of (es_issuers s) drp = Some b"
      and ne: "keep \<noteq> drp" by blast
    have ex: "index_exact s" and inv: "store_inv s" using assms(1) by (auto simp: refines_def store_inv_def)
    obtain t where mem: "merge_issuers keep drp s = (Inr (merged_issuer a b), t)"
      and t: "map_of (es_issuers t) = (map_of (es_issuers s))(keep \<mapsto> merged_issuer a b, drp := None)"
        "map_of (es_identifiers t) = owner_after_merge keep drp (map_of (es_identifiers s))"
        "es_points t = transfer_points keep drp (es_points s)"
        "es_filings t = map (retarget_filing keep drp) (es_filings s)"
        "es_relations t = map (retarget_relation keep drp) (es_relations s)"
      using merge_ok [OF ex a b ne] by (elim exE conjE) (rule that)
    let ?m = "d\<lparr>dk_relations := map (retarget_relation keep drp) (dk_relations d),
       dk_points := map (\<lambda>(i, k, p). (retarget keep drp i, k, p)) (dk_points d),
       dk_filings := map (retarget_filing keep drp) (dk_filings d),
       dk_identifiers := map (\<lambda>(k, i). (k, retarget keep drp i)) (dk_identifiers d)\<rparr>"
    let ?d = "?m\<lparr>dk_issuers := filter (\<lambda>row. ir_id row \<noteq> drp) (dk_issuers d)\<rparr>"
    have "\<not> referenced drp ?m"
      using retarget_keep [OF ne, THEN not_sym]
      by (simp add: referenced_def image_image case_prod_unfold retarget_relation_def retarget_filing_def image_iff)
    then have duck: "duck_merge_issuers en keep drp d = (Inr (merged_issuer (canonical a) (canonical b)), ?d)"
      using assms(2) ne by (simp add: duck_merge_issuers_def get a b transaction_def merge_rows_def Let_def merged_issuer_def)
    have rows: "row_of i ?d = map_option row_of_issuer (map_of (es_issuers t) i)" for i
    proof -
      have "row_of i ?d = (if i = drp then None else row_of i d)" by (simp add: row_of_def find_not_dropped)
      moreover have "row_of_issuer (merged_issuer a b) = row_of_issuer a" by (simp add: row_of_issuer_def merged_issuer_def)
      ultimately show ?thesis using assms(1) a by (simp add: refines_def t)
    qed
    have "map_of (dk_identifiers ?d) k = owner_after_merge keep drp (map_of (es_identifiers s)) k" for k
      using assms(1) by (cases "map_of (es_identifiers s) k")
        (auto simp: refines_def map_of_retargeted owner_after_merge_def retarget_def)
    then have ids: "map_of (dk_identifiers ?d) = map_of (es_identifiers t)" by (simp add: t fun_eq_iff)
    have "distinct (map (fst \<circ> (\<lambda>(k, i). (k, retarget keep drp i))) (dk_identifiers d))"
      using assms(1) by (simp add: refines_def comp_def case_prod_unfold)
    moreover have "unambiguous q" if "map_of (es_issuers t) i = Some q" for i q
      using that assms(1) union_unambiguous
      by (auto simp: refines_def t unambiguous_def merged_issuer_def split: if_splits)
    moreover have "mset (map point_view (duck_points ?d i k src)) = mset (map point_view (points_at (es_points t) (i, k, src)))" for i k src
      using assms(1) ne unfolding t(3) by (intro points_view_merged [of _ _ _ d]) (auto simp: refines_def store_inv_def)
    moreover have "store_inv t" using merge_keeps [OF inv, of keep drp] by (simp add: mem)
    ultimately have "refines t ?d"
      using assms(1) rows ids t by (simp add: refines_def)
    with mem duck show ?thesis by (auto simp: canonical_merged)
  qed
qed

section \<open>Points, filings and relations\<close>

text \<open>A value the column keeps without a change.\<close>

definition kept_value :: "engine \<Rightarrow> market_point \<Rightarrow> bool" where
  "kept_value en p = (case en_cast en (mp_value p) of None \<Rightarrow> False | Some v \<Rightarrow> dval v = dval (mp_value p))"

definition stored_point :: "engine \<Rightarrow> market_point \<Rightarrow> market_point" where
  "stored_point en p = the (cast_point en p)"

lemma kept_cast:
  assumes "kept_value en p"
  shows "cast_point en p = Some (stored_point en p)" and "point_view (stored_point en p) = point_view p"
    and "point_source (stored_point en p) = point_source p"
  using assms by (auto simp: kept_value_def stored_point_def cast_point_def point_view_def split: option.splits)

lemma insert_points_ok:
  "list_all (kept_value en) ps \<Longrightarrow> insert_points en i k ps rows = (True, rows @ map (\<lambda>p. (i, k, stored_point en p)) ps)"
  by (induction ps arbitrary: rows) (simp_all add: kept_cast)

lemma points_refine:
  assumes "refines s d" and "list_all (kept_value en) ps"
  shows "\<exists>x s' d'. append_points i k ps s = (x, s') \<and> duck_append_points en i k ps d = (x, d') \<and> refines s' d'"
proof (cases "require_issuer i s")
  case (Inl e)
  with assms(1) show ?thesis by (simp add: append_points_def duck_append_points_def duck_require)
next
  case (Inr u)
  obtain s' where mem: "append_points i k ps s = (Inr (), s')" using Inr by (simp add: append_points_def)
  let ?d = "d\<lparr>dk_points := dk_points d @ map (\<lambda>p. (i, k, stored_point en p)) ps\<rparr>"
  have duck: "duck_append_points en i k ps d = (Inr (), ?d)"
    using Inr by (simp add: duck_append_points_def duck_require [OF assms(1)] insert_points_ok [OF assms(2)])
  have t: "es_issuers s' = es_issuers s" "es_identifiers s' = es_identifiers s" "es_filings s' = es_filings s"
    "es_relations s' = es_relations s"
    using mem Inr by (auto simp: append_points_def)
  have "map point_view (map (snd \<circ> snd) (filter (\<lambda>(j, l, p). j = a \<and> l = b \<and> point_source p = src) (map (\<lambda>p. (i, k, stored_point en p)) ps))) =
      map point_view (filter (\<lambda>p. (a, b, src) = (i, k, point_source p)) ps)" for a b src
    using assms(2) by (induction ps) (auto simp: kept_cast)
  then have "mset (map point_view (duck_points ?d a b src)) = mset (map point_view (points_at (es_points s') (a, b, src)))" for a b src
    using assms(1) by (simp add: append_points_at [OF mem] duck_points_def refines_def)
  moreover have "store_inv s'" using append_points_keeps [of s i k ps] assms(1) mem by (simp add: refines_def)
  ultimately have "refines s' ?d" using assms(1) t by (simp add: refines_def row_of_def)
  with mem duck show ?thesis by blast
qed

lemma filing_refines:
  assumes "refines s d" and "fi_doc_id f \<notin> fi_doc_id ` set (es_filings s)"
  shows "\<exists>x s' d'. append_filing f s = (x, s') \<and> duck_append_filing f d = (x, d') \<and> refines s' d'"
proof (cases "require_issuer (fi_issuer f) s")
  case (Inl e)
  with assms(1) show ?thesis by (simp add: append_filing_def duck_append_filing_def duck_require)
next
  case (Inr u)
  have "store_inv (s\<lparr>es_filings := es_filings s @ [f]\<rparr>)"
    using store_step_keeps [of s "Op_Filing f"] assms(1) Inr by (simp add: refines_def append_filing_def)
  with assms Inr show ?thesis
    by (simp add: append_filing_def duck_append_filing_def duck_require) (simp add: refines_def row_of_def duck_points_def)
qed

lemma relation_refines:
  assumes "refines s d"
  shows "\<exists>x s' d'. append_relation r s = (x, s') \<and> duck_append_relation r d = (x, d') \<and> refines s' d'"
proof (cases "require_issuer (re_from r) s")
  case (Inl e)
  with assms show ?thesis by (simp add: append_relation_def duck_append_relation_def duck_require)
next
  case (Inr u)
  show ?thesis
  proof (cases "require_issuer (re_to r) s")
    case (Inl e)
    with Inr assms show ?thesis by (simp add: append_relation_def duck_append_relation_def duck_require)
  next
    case (Inr v)
    have "store_inv (s\<lparr>es_relations := es_relations s @ [r]\<rparr>)"
      using store_step_keeps [of s "Op_Relation r"] assms \<open>require_issuer (re_from r) s = Inr u\<close> Inr
      by (simp add: refines_def append_relation_def)
    with assms Inr \<open>require_issuer (re_from r) s = Inr u\<close> show ?thesis
      by (simp add: append_relation_def duck_append_relation_def duck_require) (simp add: refines_def row_of_def duck_points_def)
  qed
qed

section \<open>Any sequence of operations\<close>

datatype reply = Failed store_error | Issuer_Reply issuer | No_Reply

definition issuer_reply :: "store_error + issuer \<Rightarrow> reply" where
  "issuer_reply x = (case x of Inl e \<Rightarrow> Failed e | Inr r \<Rightarrow> Issuer_Reply (canonical r))"

definition unit_reply :: "store_error + unit \<Rightarrow> reply" where
  "unit_reply x = (case x of Inl e \<Rightarrow> Failed e | Inr _ \<Rightarrow> No_Reply)"

fun store_reply :: "store_op \<Rightarrow> store \<Rightarrow> reply" where
  "store_reply (Op_Upsert r) s = issuer_reply (fst (upsert_issuer r s))"
| "store_reply (Op_Merge keep drp) s = issuer_reply (fst (merge_issuers keep drp s))"
| "store_reply (Op_Points i k ps) s = unit_reply (fst (append_points i k ps s))"
| "store_reply (Op_Filing f) s = unit_reply (fst (append_filing f s))"
| "store_reply (Op_Relation r) s = unit_reply (fst (append_relation r s))"

fun duck_call :: "engine \<Rightarrow> store_op \<Rightarrow> duck \<Rightarrow> reply \<times> duck" where
  "duck_call en (Op_Upsert r) d = apfst issuer_reply (duck_upsert_issuer en r d)"
| "duck_call en (Op_Merge keep drp) d = apfst issuer_reply (duck_merge_issuers en keep drp d)"
| "duck_call en (Op_Points i k ps) d = apfst unit_reply (duck_append_points en i k ps d)"
| "duck_call en (Op_Filing f) d = apfst unit_reply (duck_append_filing f d)"
| "duck_call en (Op_Relation r) d = apfst unit_reply (duck_append_relation r d)"

fun duck_run :: "engine \<Rightarrow> store_op list \<Rightarrow> duck \<Rightarrow> reply list \<times> duck" where
  "duck_run en [] d = ([], d)"
| "duck_run en (x # xs) d = (case duck_call en x d of (y, t) \<Rightarrow> (case duck_run en xs t of (ys, u) \<Rightarrow> (y # ys, u)))"

fun store_replies :: "store_op list \<Rightarrow> store \<Rightarrow> reply list" where
  "store_replies [] s = []"
| "store_replies (x # xs) s = store_reply x s # store_replies xs (store_step x s)"

text \<open>What the database asks of an operation: no identifier twice on one issuer, values the column
  keeps, and of the sequence: no document id twice.\<close>

fun op_fits :: "engine \<Rightarrow> store_op \<Rightarrow> bool" where
  "op_fits en (Op_Upsert r) = unambiguous r"
| "op_fits en (Op_Points i k ps) = list_all (kept_value en) ps"
| "op_fits en _ = True"

fun doc_of :: "store_op \<Rightarrow> string option" where
  "doc_of (Op_Filing f) = Some (fi_doc_id f)"
| "doc_of _ = None"

lemma call_refines:
  assumes "refines s d" and "op_fits en x" and "\<not> en_eager en" and "\<And>i. doc_of x = Some i \<Longrightarrow> i \<notin> fi_doc_id ` set (es_filings s)"
  shows "\<exists>d'. duck_call en x d = (store_reply x s, d') \<and> refines (store_step x s) d'"
proof (cases x)
  case (Op_Upsert r)
  with upsert_refines [OF assms(1) _ assms(3), of r] assms(2) show ?thesis by (auto simp: apfst_def)
next
  case (Op_Merge keep drp)
  from merge_refines [OF assms(1,3), of keep drp] obtain a b s' d' where
    m: "merge_issuers keep drp s = (a, s')" "duck_merge_issuers en keep drp d = (b, d')"
      "map_sum id canonical a = map_sum id canonical b" "refines s' d'" by blast
  from m(3) have "issuer_reply a = issuer_reply b" by (cases a; cases b) (auto simp: issuer_reply_def)
  with m Op_Merge show ?thesis by simp
next
  case (Op_Points i k ps)
  with points_refine [OF assms(1), of en ps i k] assms(2) show ?thesis by (auto simp: apfst_def)
next
  case (Op_Filing f)
  with filing_refines [OF assms(1), of f] assms(4) show ?thesis by (auto simp: apfst_def)
next
  case (Op_Relation r)
  with relation_refines [OF assms(1), of r] show ?thesis by (auto simp: apfst_def)
qed

lemma docs_after: "fi_doc_id ` set (es_filings (store_step x s)) \<subseteq> fi_doc_id ` set (es_filings s) \<union> set_option (doc_of x)"
proof (cases x)
  case (Op_Merge keep drp)
  have "es_filings (snd (merge_issuers keep drp s)) \<in> {es_filings s, map (retarget_filing keep drp) (es_filings s)}"
    by (auto simp: merge_issuers_def upsert_issuer_def Let_def split: option.splits prod.splits sum.splits)
  with Op_Merge show ?thesis by (auto simp: retarget_filing_def)
qed (auto simp: upsert_issuer_def append_points_def append_filing_def append_relation_def split: option.splits sum.splits)

lemma run_refines:
  assumes "refines s d" and "list_all (op_fits en) xs" and "\<not> en_eager en"
    and "distinct (List.map_filter doc_of xs)" and "set (List.map_filter doc_of xs) \<inter> fi_doc_id ` set (es_filings s) = {}"
  shows "\<exists>d'. duck_run en xs d = (store_replies xs s, d') \<and> refines (fold store_step xs s) d'"
  using assms
proof (induction xs arbitrary: s d)
  case (Cons x xs)
  have docs: "List.map_filter doc_of (x # xs) = (case doc_of x of None \<Rightarrow> [] | Some i \<Rightarrow> [i]) @ List.map_filter doc_of xs"
    by (simp add: List.map_filter_def split: option.split)
  have fresh: "i \<notin> fi_doc_id ` set (es_filings s)" if "doc_of x = Some i" for i
    using that Cons.prems(5) by (simp add: docs)
  obtain e where e: "duck_call en x d = (store_reply x s, e)" "refines (store_step x s) e"
    using call_refines [OF Cons.prems(1) _ Cons.prems(3) fresh] Cons.prems(2) by auto
  have "set_option (doc_of x) \<inter> set (List.map_filter doc_of xs) = {}"
    using Cons.prems(4) by (cases "doc_of x") (auto simp: docs)
  moreover have "fi_doc_id ` set (es_filings s) \<inter> set (List.map_filter doc_of xs) = {}"
    using Cons.prems(5) by (cases "doc_of x") (auto simp: docs)
  ultimately have "set (List.map_filter doc_of xs) \<inter> fi_doc_id ` set (es_filings (store_step x s)) = {}"
    using docs_after [of x s] by blast
  moreover have "distinct (List.map_filter doc_of xs)"
    using Cons.prems(4) by (cases "doc_of x") (simp_all add: docs)
  ultimately obtain d' where
    "duck_run en xs e = (store_replies xs (store_step x s), d')" "refines (fold store_step xs (store_step x s)) d'"
    using Cons.IH [OF e(2) _ Cons.prems(3)] Cons.prems(2) by auto
  with e(1) show ?case by simp
qed simp

end
