(* ===== verification/Duck_Reads.thy ===== *)
theory Duck_Reads
  imports Duck_Laws
begin

text \<open>
  What the DuckDB store reads back after any operations, against the in-memory store: lookups, filings,
  relations and series.
\<close>

definition engine_ok :: "engine \<Rightarrow> bool" where
  "engine_ok en \<longleftrightarrow> (\<forall>ps. mset (en_scan_points en ps) = mset ps) \<and> (\<forall>fs. mset (en_scan_filings en fs) = mset fs) \<and>
     (\<forall>rs. mset (en_scan_relations en rs) = mset rs)"

section \<open>Filings and relations\<close>

lemma filings_same:
  assumes "refines s d" and "engine_ok en"
  shows "mset (duck_filings_for en i lo hi codes d) = mset (filings_for i lo hi codes s)"
    and "sorted (map fi_submitted (duck_filings_for en i lo hi codes d))"
proof -
  have "\<not> filing_matches i lo hi (Some []) f" for f by (simp add: filing_matches_def)
  with assms show "mset (duck_filings_for en i lo hi codes d) = mset (filings_for i lo hi codes s)"
    by (auto simp: duck_filings_for_def filings_for_def engine_ok_def refines_def)
  show "sorted (map fi_submitted (duck_filings_for en i lo hi codes d))" by (simp add: duck_filings_for_def)
qed

lemma relations_same:
  assumes "refines s d" and "engine_ok en"
  shows "mset (duck_relations_for en i k t d) = mset (relations_for i k t s)"
  using assms by (simp add: duck_relations_for_def relations_for_def engine_ok_def refines_def)

lemma all_found_Some: "\<forall>x\<in>set xs. x \<noteq> None \<Longrightarrow> all_found xs = Inr (map the xs)"
  by (induction xs) auto

lemma subsidiaries_same:
  assumes "refines s d" and "engine_ok en"
  shows "\<exists>xs. subsidiaries_of i t s = Inr xs \<and> mset (duck_subsidiaries_of en i t d) = mset (map canonical xs)"
proof -
  let ?rs = "filter (\<lambda>r. re_kind r = SUBSIDIARY_OF \<and> re_to r = i \<and> active_at t r) (es_relations s)"
  have known: "map_of (es_issuers s) (re_from r) \<noteq> None" if "r \<in> set (es_relations s)" for r
    using that assms(1) by (auto simp: refines_def store_inv_def refs_known_def known_def)
  then have mem: "subsidiaries_of i t s = Inr (map (\<lambda>r. the (map_of (es_issuers s) (re_from r))) ?rs)"
    unfolding subsidiaries_of_def by (subst all_found_Some) (auto simp: comp_def)
  have get: "duck_get_issuer j d = map_option canonical (map_of (es_issuers s) j)" for j
    using duck_get [OF assms(1)] by (simp add: get_issuer_def)
  have "duck_get_issuer (re_from r) d = Some (canonical (the (map_of (es_issuers s) (re_from r))))"
    if "r \<in> set (es_relations s)" for r using known [OF that] by (auto simp: get)
  then have "List.map_filter (\<lambda>r. duck_get_issuer (re_from r) d) rs = map (\<lambda>r. canonical (the (map_of (es_issuers s) (re_from r)))) rs"
    if "set rs \<subseteq> set (es_relations s)" for rs
    using that by (induction rs) (simp_all add: List.map_filter_def)
  moreover have scan: "mset (en_scan_relations en ?rs) = mset ?rs" using assms(2) by (simp add: engine_ok_def)
  moreover have "set (en_scan_relations en ?rs) \<subseteq> set (es_relations s)" unfolding mset_eq_setD [OF scan] by auto
  moreover have "dk_relations d = es_relations s" using assms(1) by (simp add: refines_def)
  ultimately have "mset (duck_subsidiaries_of en i t d) =
      mset (map (\<lambda>r. canonical (the (map_of (es_issuers s) (re_from r)))) ?rs)"
    by (simp add: duck_subsidiaries_of_def)
  with mem show ?thesis by (simp add: comp_def multiset.map_comp)
qed

section \<open>Series\<close>

text \<open>A series without what depends on the representation of a value or on the order in which a dict
  met its sources.\<close>

definition series_view :: "market_series \<Rightarrow> string \<times> series_kind \<times> (int \<times> rat \<times> provenance) list \<times>
    (int \<times> (int \<times> rat \<times> provenance) \<times> (int \<times> rat \<times> provenance) multiset) list" where
  "series_view x = (ms_issuer x, ms_kind x, map point_view (ms_points x),
     map (\<lambda>c. (cf_time c, point_view (cf_chosen c), mset (map point_view (cf_discarded c)))) (ms_conflicts x))"

lemma put_points_ok: "by_time_ok bt \<Longrightarrow> by_time_ok (fold (\<lambda>p. put_point (point_source p) p) ps bt)"
  by (induction ps arbitrary: bt) (simp_all add: put_point_ok)

lemma put_points_at: "at_time (fold (\<lambda>p. put_point (point_source p) p) ps bt) t q =
    (case find (\<lambda>p. mp_time p = t \<and> point_source p = q) (rev ps) of Some p \<Rightarrow> Some p | None \<Rightarrow> at_time bt t q)"
  by (induction ps arbitrary: bt) (auto simp: at_time_put find_app_single split: option.split)

lemma find_unique:
  assumes "\<And>x y. x \<in> set xs \<Longrightarrow> y \<in> set xs \<Longrightarrow> P x \<Longrightarrow> P y \<Longrightarrow> x = y"
  shows "find P (rev xs) = Some x \<longleftrightarrow> x \<in> set xs \<and> P x"
proof
  assume "find P (rev xs) = Some x" then show "x \<in> set xs \<and> P x" using find_Some [of P "rev xs" x] by simp
next
  assume x: "x \<in> set xs \<and> P x"
  then have "find P (rev xs) \<noteq> None" by (auto simp: find_None_iff)
  then obtain y where y: "find P (rev xs) = Some y" by auto
  with find_Some [OF y] assms x show "find P (rev xs) = Some x" by simp
qed

text \<open>Two collections that say the same of each source at each time give the same series.\<close>

definition same_views :: "by_time \<Rightarrow> by_time \<Rightarrow> bool" where
  "same_views a b \<longleftrightarrow> by_time_ok a \<and> by_time_ok b \<and>
     (\<forall>t q. map_option point_view (at_time a t q) = map_option point_view (at_time b t q))"

lemma same_viewsD:
  assumes "same_views a b"
  shows "by_time_ok a" and "by_time_ok b" and "map_option point_view (at_time a t q) = map_option point_view (at_time b t q)"
    and "at_time a t q \<noteq> None \<longleftrightarrow> at_time b t q \<noteq> None" and "t \<in> fst ` set a \<longleftrightarrow> t \<in> fst ` set b"
proof -
  show ok: "by_time_ok a" "by_time_ok b" and at: "map_option point_view (at_time a t q) = map_option point_view (at_time b t q)" for t q
    using assms by (simp_all add: same_views_def)
  show avail: "at_time a t q \<noteq> None \<longleftrightarrow> at_time b t q \<noteq> None" for t q
    using at [of t q] by (metis option.map_disc_iff)
  show "t \<in> fst ` set a \<longleftrightarrow> t \<in> fst ` set b"
    unfolding at_time_dom [OF ok(1)] at_time_dom [OF ok(2)] avail ..
qed

lemma same_times:
  assumes "same_views a b"
  shows "sort (map fst a) = sort (map fst b)"
proof (rule properties_for_sort)
  have "set (map fst a) = set (map fst b)" unfolding set_map using same_viewsD(5) [OF assms] by blast
  moreover have "distinct (map fst b)" "distinct (map fst a)" using same_viewsD(1,2) [OF assms] by (simp_all add: by_time_ok_def)
  ultimately show "mset (sort (map fst b)) = mset (map fst a)"
    unfolding mset_sort by (simp only: set_eq_iff_mset_eq_distinct)
qed simp

lemma same_chosen:
  assumes "same_views a b" and "t \<in> fst ` set b"
  shows "point_view (chosen a pr t) = point_view (chosen b pr t)"
proof -
  note same = same_viewsD [OF assms(1)]
  obtain p where p: "at_time a t p = Some (chosen a pr t)" "preferred pr (\<lambda>q. at_time a t q \<noteq> None) p"
    using chosen_ok [OF same(1), of t pr] assms(2) same(5) by blast
  obtain q where q: "at_time b t q = Some (chosen b pr t)" "preferred pr (\<lambda>q. at_time b t q \<noteq> None) q"
    using chosen_ok [OF same(2) assms(2), of pr] by blast
  have "p = q" using preferred_unique p(2) q(2) unfolding same(4) by blast
  with p(1) q(1) same(3) [of t p] show ?thesis by simp
qed

lemma same_entries:
  assumes "same_views a b" and "t \<in> fst ` set b"
  shows "mset (map point_view (map snd (the (map_of a t)))) = mset (map point_view (map snd (the (map_of b t))))"
proof -
  note same = same_viewsD [OF assms(1)]
  obtain x where x: "map_of a t = Some x" using assms(2) same(5) by (cases "map_of a t") (auto simp: map_of_eq_None_iff)
  obtain y where y: "map_of b t = Some y" using assms(2) by (cases "map_of b t") (auto simp: map_of_eq_None_iff)
  let ?v = "map (\<lambda>(q, p). (q, point_view p))"
  have dist: "distinct (map fst x)" "distinct (map fst y)" using same(1,2) x y by (auto simp: by_time_ok_def)
  have fsts: "map fst (?v xs) = map fst xs" and snds: "map snd (?v xs) = map point_view (map snd xs)"
    for xs :: "(source \<times> market_point) list" by (induction xs) auto
  have "map_of (?v x) q = map_of (?v y) q" for q using same(3) [of t q] by (simp add: at_time_def x y map_of_map)
  then have "map_of (?v x) = map_of (?v y)" ..
  moreover have keys: "distinct (map fst (?v x))" "distinct (map fst (?v y))" unfolding fsts by (rule dist)+
  ultimately have "set (?v x) = set (?v y)" by (simp only: map_of_inject_set)
  moreover have "distinct (?v x)" "distinct (?v y)"
    by (rule conjunct1 [OF iffD1 [OF distinct_map keys(1)]], rule conjunct1 [OF iffD1 [OF distinct_map keys(2)]])
  ultimately have "mset (map snd (?v x)) = mset (map snd (?v y))" by (simp only: set_eq_iff_mset_eq_distinct mset_map)
  then show ?thesis unfolding snds x y option.sel .
qed

lemma same_discarded:
  assumes "same_views a b" and "t \<in> fst ` set b"
  shows "mset (map point_view (discarded_points (the (map_of a t)) (chosen a pr t))) =
    mset (map point_view (discarded_points (the (map_of b t)) (chosen b pr t)))"
proof -
  define differs where "differs c p \<longleftrightarrow> pv_source (snd (snd p)) \<noteq> pv_source (snd (snd c)) \<and> fst (snd p) \<noteq> fst (snd c)"
    for c p :: "int \<times> rat \<times> provenance"
  have "map point_view (discarded_points e c) = filter (differs (point_view c)) (map point_view (map snd e))" for e c
    by (simp add: discarded_points_def filter_map comp_def differs_def point_view_def dec_eq_iff)
  then show ?thesis by (simp only: mset_filter same_chosen [OF assms] same_entries [OF assms])
qed

lemma same_series:
  assumes "same_views a b"
  shows "series_view (series_of i k (select_points a pr)) = series_view (series_of i k (select_points b pr))"
proof -
  have view: "series_view (series_of i k (map (\<lambda>t. (t, c t, f t)) ts)) = (i, k, map (\<lambda>t. point_view (c t)) ts,
      map (\<lambda>t. (t, point_view (c t), mset (map point_view (f t)))) (filter (\<lambda>t. mset (map point_view (f t)) \<noteq> {#}) ts))"
    for c f and ts :: "int list"
    by (simp add: series_view_def series_of_def comp_def filter_map)
  have t: "t \<in> fst ` set b" if "t \<in> set (sort (map fst b))" for t using that by simp
  show ?thesis
    unfolding select_points_eq [OF same_viewsD(1) [OF assms]] select_points_eq [OF same_viewsD(2) [OF assms]]
      same_times [OF assms] view
    by (intro arg_cong2 [of _ _ _ _ Pair] refl map_cong filter_cong)
      (simp_all only: set_filter mem_Collect_eq same_chosen [OF assms t] same_discarded [OF assms t])
qed

text \<open>At most one point per source and time: then the rows of both stores collect to the same.\<close>

definition one_per_time :: "store \<Rightarrow> string \<Rightarrow> series_kind \<Rightarrow> bool" where
  "one_per_time s i k \<longleftrightarrow> (\<forall>q. distinct (map mp_time (points_at (es_points s) (i, k, q))))"

lemma views_single:
  assumes "refines s d" and "one_per_time s i k"
  shows "distinct (map mp_time (duck_points d i k q))"
proof -
  have "mset (map point_view (duck_points d i k q)) = mset (map point_view (points_at (es_points s) (i, k, q)))"
    using assms(1) by (simp add: refines_def)
  moreover have "mset (map mp_time ps) = image_mset fst (mset (map point_view ps))" for ps
    by (simp add: multiset.map_comp comp_def point_view_def)
  ultimately have "mset (map mp_time (duck_points d i k q)) = mset (map mp_time (points_at (es_points s) (i, k, q)))"
    by (simp only:)
  then show ?thesis using assms(2) by (metis mset_eq_imp_distinct_iff one_per_time_def)
qed

lemma rows_set:
  assumes "engine_ok en"
  shows "p \<in> set (series_rows en i k lo hi d) \<longleftrightarrow> p \<in> set (duck_points d i k (point_source p)) \<and> lo \<le> mp_time p \<and> mp_time p \<le> hi"
proof -
  have "set (en_scan_points en ps) = set ps" for ps using assms by (auto simp: engine_ok_def dest: mset_eq_setD)
  then show ?thesis by (force simp: series_rows_def duck_points_def)
qed

lemma duck_at:
  assumes "refines s d" and "one_per_time s i k" and "engine_ok en"
  shows "at_time (fold (\<lambda>p. put_point (point_source p) p) (series_rows en i k lo hi d) []) t q = Some p \<longleftrightarrow>
    lo \<le> t \<and> t \<le> hi \<and> p \<in> set (duck_points d i k q) \<and> mp_time p = t"
proof -
  let ?P = "\<lambda>p. mp_time p = t \<and> point_source p = q"
  have "find ?P (rev (series_rows en i k lo hi d)) = Some p \<longleftrightarrow> p \<in> set (series_rows en i k lo hi d) \<and> ?P p"
  proof (rule find_unique)
    fix x y assume "x \<in> set (series_rows en i k lo hi d)" "y \<in> set (series_rows en i k lo hi d)" "?P x" "?P y"
    then show "x = y" using views_single [OF assms(1,2), of q] by (auto simp: rows_set [OF assms(3)] distinct_map inj_on_def)
  qed
  moreover have "at_time (fold (\<lambda>p. put_point (point_source p) p) (series_rows en i k lo hi d) []) t q =
      find ?P (rev (series_rows en i k lo hi d))"
    by (simp add: put_points_at) (simp add: at_time_def split: option.split)
  moreover have "p \<in> set (duck_points d i k q) \<Longrightarrow> point_source p = q" by (auto simp: duck_points_def)
  ultimately show ?thesis by (auto simp: rows_set [OF assms(3)])
qed

lemma mem_at:
  assumes "store_inv s" and "one_per_time s i k"
  shows "at_time (collect_points i k lo hi (es_points s)) t q = Some p \<longleftrightarrow>
    lo \<le> t \<and> t \<le> hi \<and> p \<in> set (points_at (es_points s) (i, k, q)) \<and> mp_time p = t"
proof -
  have single: "distinct (map mp_time (points_at (es_points s) (i, k, q)))" using assms(2) by (simp add: one_per_time_def)
  have "distinct (map fst (es_points s))" using assms(1) by (simp add: store_inv_def)
  moreover have "find (\<lambda>p. mp_time p = t) (rev (points_at (es_points s) (i, k, q))) = Some p \<longleftrightarrow>
      p \<in> set (points_at (es_points s) (i, k, q)) \<and> mp_time p = t"
    by (rule find_unique) (use single in \<open>auto simp: distinct_map inj_on_def\<close>)
  ultimately show ?thesis by (auto simp: collect_at in_range_def)
qed

lemma option_same: "(\<And>v. a = Some v \<longleftrightarrow> b = Some v) \<Longrightarrow> a = b"
  by (cases b) (metis option.exhaust, simp)

lemma same_at:
  assumes "refines s d" and "one_per_time s i k" and "engine_ok en"
  shows "same_views (fold (\<lambda>p. put_point (point_source p) p) (series_rows en i k lo hi d) []) (collect_points i k lo hi (es_points s))"
    (is "same_views ?a ?b")
proof -
  have inv: "store_inv s" and views: "mset (map point_view (duck_points d i k q)) = mset (map point_view (points_at (es_points s) (i, k, q)))" for q
    using assms(1) by (simp_all add: refines_def)
  have "map_option point_view (at_time ?a t q) = Some v \<longleftrightarrow> map_option point_view (at_time ?b t q) = Some v" for t q v
  proof -
    have seen: "(\<exists>p. p \<in> set ps \<and> mp_time p = t \<and> point_view p = v) \<longleftrightarrow> v \<in> set (map point_view ps) \<and> fst v = t" for ps
      by (auto simp: point_view_def)
    have "(\<exists>p. p \<in> set (duck_points d i k q) \<and> mp_time p = t \<and> point_view p = v) \<longleftrightarrow>
        (\<exists>p. p \<in> set (points_at (es_points s) (i, k, q)) \<and> mp_time p = t \<and> point_view p = v)"
      unfolding seen mset_eq_setD [OF views [of q]] ..
    then show ?thesis unfolding map_option_eq_Some duck_at [OF assms] mem_at [OF inv assms(2)] by blast
  qed
  then have "map_option point_view (at_time ?a t q) = map_option point_view (at_time ?b t q)" for t q
    by (rule option_same)
  moreover have "by_time_ok ?a" by (rule put_points_ok) (simp add: by_time_ok_def)
  ultimately show ?thesis unfolding same_views_def using collect_points_ok by blast
qed

section \<open>The two stores\<close>

text \<open>What both stores say when they are read.\<close>

definition reads_agree :: "engine \<Rightarrow> store \<Rightarrow> duck \<Rightarrow> bool" where
  "reads_agree en s d \<longleftrightarrow>
     (\<forall>i. duck_get_issuer i d = map_option canonical (get_issuer i s)) \<and>
     (\<forall>k v. \<exists>x. lookup_issuer k v s = Inr x \<and> duck_lookup_issuer k v d = map_option canonical x) \<and>
     (\<forall>i lo hi codes. mset (duck_filings_for en i lo hi codes d) = mset (filings_for i lo hi codes s) \<and>
        sorted (map fi_submitted (duck_filings_for en i lo hi codes d))) \<and>
     (\<forall>i k t. mset (duck_relations_for en i k t d) = mset (relations_for i k t s)) \<and>
     (\<forall>i t. \<exists>xs. subsidiaries_of i t s = Inr xs \<and> mset (duck_subsidiaries_of en i t d) = mset (map canonical xs)) \<and>
     (\<forall>i k lo hi pr. one_per_time s i k \<longrightarrow>
        series_view (duck_get_series en i k lo hi pr d) = series_view (get_series i k lo hi pr s))"

lemma refines_reads:
  assumes "refines s d" and "engine_ok en"
  shows "reads_agree en s d"
  unfolding reads_agree_def
proof (intro conjI allI impI)
  fix i k v
  show "duck_get_issuer i d = map_option canonical (get_issuer i s)" by (rule duck_get [OF assms(1)])
  obtain x where "lookup_issuer k v s = Inr x" using duck_lookup(2) [OF assms(1)] by blast
  with duck_lookup(1) [OF assms(1) this]
  show "\<exists>x. lookup_issuer k v s = Inr x \<and> duck_lookup_issuer k v d = map_option canonical x" by blast
next
  fix i k lo hi pr
  assume "one_per_time s i k"
  from same_series [OF same_at [OF assms(1) this assms(2)]]
  show "series_view (duck_get_series en i k lo hi pr d) = series_view (get_series i k lo hi pr s)"
    by (simp add: duck_get_series_def get_series_def)
qed (rule filings_same [OF assms] relations_same [OF assms] subsidiaries_same [OF assms])+


section \<open>Where the stores differ\<close>

text \<open>An issuer that carries an identifier twice is stored in memory and refused by the database, which
  keeps nothing of it.\<close>

lemma repeated_identifier_refused:
  assumes "\<not> unambiguous r" and "find_conflict (dk_identifiers d) (is_id r) (is_identifiers r) = None"
  shows "duck_upsert_issuer en r d = (Inl Constraint_Error, d)"
proof -
  have seen: "k \<in> fst ` set rows \<Longrightarrow> k \<in> identifier_key ` set ys \<Longrightarrow> insert_identifiers stale i ys rows = Inl Constraint_Error"
    for k stale i ys rows
  proof (induction ys arbitrary: rows)
    case (Cons y ys)
    then show ?case using Cons.IH [of "rows @ [(identifier_key y, i)]"] by (cases "k = identifier_key y") simp_all
  qed simp
  have "insert_identifiers stale i xs rows = Inl Constraint_Error" if "\<not> distinct (map identifier_key xs)" for stale i xs rows
    using that
  proof (induction xs arbitrary: rows)
    case (Cons x xs)
    then show ?case using seen [of "identifier_key x" "rows @ [(identifier_key x, i)]" xs]
      by (cases "identifier_key x \<in> identifier_key ` set xs") simp_all
  qed simp
  with assms show ?thesis by (simp add: duck_upsert_issuer_def transaction_def upsert_rows_def unambiguous_def Let_def)
qed

text \<open>A document id that is stored already is refused, also for another issuer.\<close>

lemma repeated_document_refused:
  "duck_require_issuer (fi_issuer f) d = Inr () \<Longrightarrow> fi_doc_id f \<in> fi_doc_id ` set (dk_filings d) \<Longrightarrow>
     duck_append_filing f d = (Inl Constraint_Error, d)"
  by (simp add: duck_append_filing_def)

text \<open>On an engine with over-eager checks no issuer with an identifier can be merged away, and no issuer
  can be upserted again with an identifier it has.\<close>

lemma eager_merge_refused:
  assumes "en_eager en" and "duck_get_issuer keep d = Some a" and "duck_get_issuer drp d = Some b" and "keep \<noteq> drp"
    and "drp \<in> snd ` set (dk_identifiers d)"
  shows "duck_merge_issuers en keep drp d = (Inl Constraint_Error, d)"
  using assms by (simp add: duck_merge_issuers_def transaction_def merge_rows_def referenced_def Let_def)

end
