(* ===== verification/Entity_Samples.thy ===== *)
theory Entity_Samples
  imports Reconciliation_Laws Duck_Reads
begin

text \<open>
  Concrete stores and source rows: the witnesses of the entity properties, and two runs of the seed
  loaders that show what replacing the identifiers of an issuer does.
\<close>

section \<open>Samples\<close>

definition sample_hash :: string where
  "sample_hash = replicate 64 (CHR ''0'')"

definition sample_provenance :: "source \<Rightarrow> provenance" where
  "sample_provenance src = \<lparr>pv_source = src, pv_fetched = 0, pv_hash = sample_hash, pv_cache_key = None\<rparr>"

definition sample_point :: market_point where
  "sample_point = \<lparr>mp_time = 5, mp_value = Dec 1 0, mp_provenance = sample_provenance JQUANTS\<rparr>"

definition left_issuer :: issuer where
  "left_issuer = \<lparr>is_id = ''Ia'', is_lei = None, is_jcn = None, is_name = ''A'',
     is_identifiers = [\<lparr>id_kind = SEC_CODE, id_value = ''1''\<rparr>]\<rparr>"

definition right_issuer :: issuer where
  "right_issuer = \<lparr>is_id = ''Ib'', is_lei = None, is_jcn = None, is_name = ''B'',
     is_identifiers = [\<lparr>id_kind = JCN, id_value = ''2''\<rparr>]\<rparr>"

definition sample_ops :: "store_op list" where
  "sample_ops = [Op_Upsert left_issuer, Op_Upsert right_issuer, Op_Points ''Ib'' DAILY_CLOSE [sample_point]]"

text \<open>A world that is the list of the tokens to come.\<close>

definition token_env :: "string list env" where
  "token_env = \<lparr>env_now = (\<lambda>w. (0, w)), env_token_hex = (\<lambda>w. (hd w, tl w)), env_dump = ev_id,
     env_parse = (\<lambda>t. Inl ValueError)\<rparr>"

definition tokens :: "string list" where
  "tokens = [''0123456789abcdef'', ''fedcba9876543210'']"

definition motor_row :: listed_stock where
  "motor_row = \<lparr>jr_date = ''2026-05-02'', jr_code = ''72030'', jr_name = ''Motor'', jr_name_en = None\<rparr>"

definition motor_company :: company where
  "motor_company = \<lparr>co_edinet_code = ''E02144'', co_sec_code = Some ''7203'', co_jcn = None, co_name = ''Motor'',
     co_name_en = None, co_name_ja = ''Motor'', co_industry = ''Cars'', co_accounting_standard = ''IFRS''\<rparr>"

definition motor_loader :: "(string list \<times> store) loader" where
  "motor_loader = \<lparr>ld_port = in_memory_port, ld_env = beside token_env, ld_digest = (\<lambda>_. sample_hash),
     ld_source = JQUANTS, ld_dry = False\<rparr>"

definition load_motor_row :: "bool \<Rightarrow> string list \<times> store \<Rightarrow> reconciler_result res \<times> string list \<times> store" where
  "load_motor_row dry = reconcile_from_jquants_master in_memory_port (beside token_env) (\<lambda>_. sample_hash)
     (aside (ret [motor_row])) dry"

definition load_motor_company :: "string list \<times> store \<Rightarrow> reconciler_result option res \<times> string list \<times> store" where
  "load_motor_company = reconcile_from_edinetdb_companies 2 in_memory_port (beside token_env) (\<lambda>_. sample_hash)
     (serve [motor_company] True) False"

section \<open>Witnesses\<close>

theorem entity_merge_conserves_witness:
  "\<exists>m t. merge_issuers ''Ia'' ''Ib'' (fold store_step sample_ops empty_store) = (Inr m, t) \<and>
    keys_of m = {(SEC_CODE, ''1''), (JCN, ''2'')}"
proof -
  let ?s = "fold store_step sample_ops empty_store"
  have "get_issuer ''Ia'' ?s = Some left_issuer" "get_issuer ''Ib'' ?s = Some right_issuer"
    by code_simp+
  from entity_merge_conserves [OF refl this] show ?thesis
    by (auto simp: keys_of_def identifier_key_def left_issuer_def right_issuer_def)
qed

lemma motor_row_loads: "\<exists>u. load_motor_row False (tokens, empty_store) = (Inr \<lparr>rr_upserted = 1, rr_skipped = 0,
    rr_conflicts = [], rr_dry_run = False, rr_provenance = [sample_provenance JQUANTS]\<rparr>, u)"
proof -
  have "fst (load_motor_row False (tokens, empty_store)) = Inr \<lparr>rr_upserted = 1, rr_skipped = 0,
      rr_conflicts = [], rr_dry_run = False, rr_provenance = [sample_provenance JQUANTS]\<rparr>"
    by code_simp
  then show ?thesis by (metis prod.collapse)
qed

theorem reconcile_accounts_witness:
  "\<exists>v s res. load_motor_row True (tokens, empty_store) = (Inr res, (v, s)) \<and> rr_upserted res + rr_skipped res = 1 \<and> s = empty_store"
proof -
  have "is_ok (fst (load_motor_row True (tokens, empty_store)))" by code_simp
  then obtain res v s where r: "load_motor_row True (tokens, empty_store) = (Inr res, (v, s))"
    by (auto simp: is_ok_iff) (metis prod.collapse)
  from reconcile_accounts [OF this [unfolded load_motor_row_def] store_inv_empty, of "[motor_row]"] r
  show ?thesis by simp
qed

theorem reconcile_row_again_witness:
  "\<exists>l v s. load_row motor_loader 0 (jquants_item motor_row) empty_ledger (tokens, empty_store) = (Inr l, (v, s)) \<and>
    (\<exists>l2. load_row motor_loader 9 (jquants_item motor_row) l (v, s) = (Inr l2, (v, s)) \<and> lg_skipped l2 = lg_skipped l + 1)"
proof -
  have "is_ok (fst (load_row motor_loader 0 (jquants_item motor_row) empty_ledger (tokens, empty_store)))" by code_simp
  then obtain l v s where r: "load_row motor_loader 0 (jquants_item motor_row) empty_ledger (tokens, empty_store) = (Inr l, (v, s))"
    by (auto simp: is_ok_iff) (metis prod.collapse)
  have "strip (it_name (jquants_item motor_row)) = it_name (jquants_item motor_row)" by code_simp
  from reconcile_row_again [OF r store_inv_empty this, of token_env 9] r show ?thesis
    by (auto simp: motor_loader_def)
qed

section \<open>Replacing identifiers\<close>

text \<open>After both loaders have seen the same company, its J-Quants code is bound to nothing: the second
  run upserts the issuer with the identifiers of its own row only.\<close>

lemma second_loader_drops_code:
  "lookup_issuer JQUANTS_CODE ''72030'' (snd (snd (load_motor_row False (tokens, empty_store)))) \<noteq> Inr None \<and>
   lookup_issuer JQUANTS_CODE ''72030'' (snd (snd (load_motor_company (snd (load_motor_row False (tokens, empty_store)))))) = Inr None"
  by code_simp

text \<open>Two rows that share a SEC code and a name are one issuer, which keeps the identifiers of the row
  that came last: the store depends on the order of the rows.\<close>

definition load_codes :: "string list \<Rightarrow> string list \<times> store \<Rightarrow> reconciler_result res \<times> string list \<times> store" where
  "load_codes codes = reconcile_from_jquants_master in_memory_port (beside token_env) (\<lambda>_. sample_hash)
     (aside (ret (map (\<lambda>c. motor_row\<lparr>jr_code := c\<rparr>) codes))) False"

lemma row_order_matters:
  "lookup_issuer JQUANTS_CODE ''72030'' (snd (snd (load_codes [''72030'', ''72035''] (tokens, empty_store)))) = Inr None \<and>
   lookup_issuer JQUANTS_CODE ''72030'' (snd (snd (load_codes [''72035'', ''72030''] (tokens, empty_store)))) \<noteq> Inr None"
  by code_simp

text \<open>
  An engine that scans backwards and refuses values from 10^20 on, and a run of the DuckDB store on it:
  the witness of the refinement, and what over-eager checks do to the same run.
\<close>

definition sample_engine :: "bool \<Rightarrow> engine" where
  "sample_engine eager = \<lparr>en_cast = (\<lambda>v. if dec_lt v (Dec 1 20) then Some v else None), en_scan_points = rev,
     en_scan_filings = rev, en_scan_relations = rev, en_many_atomic = False, en_eager = eager\<rparr>"

definition sample_filing :: "string \<Rightarrow> string \<Rightarrow> filing" where
  "sample_filing i doc = \<lparr>fi_issuer = i, fi_doc_id = doc, fi_doc_type = ''120'', fi_submitted = 7, fi_parent = None,
     fi_provenance = sample_provenance EDINET\<rparr>"

definition duck_ops :: "store_op list" where
  "duck_ops = sample_ops @ [Op_Filing (sample_filing ''Ib'' ''S1''), Op_Filing (sample_filing ''Ic'' ''S2''), Op_Merge ''Ia'' ''Ib'']"

definition both_issuer :: issuer where
  "both_issuer = left_issuer\<lparr>is_identifiers := [\<lparr>id_kind = JCN, id_value = ''2''\<rparr>, \<lparr>id_kind = SEC_CODE, id_value = ''1''\<rparr>]\<rparr>"

lemma sample_engine_ok: "engine_ok (sample_engine eager)"
  by (simp add: engine_ok_def sample_engine_def)


text \<open>With over-eager checks the merge of the same run fails.\<close>

lemma eager_run: "last (fst (duck_run (sample_engine True) duck_ops empty_duck)) = Failed Constraint_Error"
  by code_simp

end
