(* ===== verification/Cycle_Archive.thy ===== *)
theory Cycle_Archive
  imports Cycle_Runner
begin

text \<open>
  The archive of finished cycles (\<open>memory/cycle\_store.py\<close>). The root directory is a dict of files
  and a dict of cycle directories, each a dict of files; a cycle id is taken as a plain directory
  name. The JSON codecs of a result and of an index entry are parameters; a write replaces the file
  by a rename, so a save that runs to its end leaves no temporary file.
\<close>

section \<open>State\<close>

type_synonym files = "(string \<times> string) list"

record archive =
  av_root :: files
  av_cycles :: "(string \<times> files) list"

definition empty_archive :: archive where
  "empty_archive = \<lparr>av_root = [], av_cycles = []\<rparr>"

record index_entry =
  ix_cycle_id :: string
  ix_terminal :: orch_state
  ix_reason :: "string option"
  ix_artifacts :: nat
  ix_token_in :: int
  ix_token_out :: int
  ix_started :: int
  ix_ended :: int

record archive_codec =
  ac_dump :: "cycle_result \<Rightarrow> string"
  ac_parse :: "string \<Rightarrow> cycle_result res"
  ac_dump_entry :: "index_entry \<Rightarrow> string"
  ac_parse_entry :: "string \<Rightarrow> index_entry res"

definition result_file :: string where "result_file = ''result.json''"

definition events_file :: string where "events_file = ''events.jsonl''"

definition index_file :: string where "index_file = ''index.jsonl''"

section \<open>Files\<close>

definition atomic_write :: "string \<Rightarrow> string \<Rightarrow> files \<Rightarrow> files" where
  "atomic_write name content fs = (let tmp = name @ ''.tmp''; fs = AList.update tmp content fs in
     AList.update name content (AList.delete tmp fs))"

definition append_file :: "string \<Rightarrow> string \<Rightarrow> files \<Rightarrow> files" where
  "append_file name content fs =
     AList.update name ((case map_of fs name of None \<Rightarrow> [] | Some t \<Rightarrow> t) @ content) fs"

definition read_text :: "string \<Rightarrow> string" where
  "read_text t = universal_newlines t"

text \<open>\<open>str.splitlines()\<close>.\<close>

definition line_boundary :: "char \<Rightarrow> bool" where
  "line_boundary c = (let n = (of_char c :: nat) in (10 \<le> n \<and> n \<le> 13) \<or> (28 \<le> n \<and> n \<le> 30) \<or> n = 133)"

fun split_lines_aux :: "string \<Rightarrow> string \<Rightarrow> string list" where
  "split_lines_aux acc [] = (if acc = [] then [] else [rev acc])"
| "split_lines_aux acc (c # cs) =
     (if c = carriage_return \<and> cs \<noteq> [] \<and> hd cs = newline then split_lines_aux acc cs
      else if line_boundary c then rev acc # split_lines_aux [] cs
      else split_lines_aux (c # acc) cs)"

definition split_lines :: "string \<Rightarrow> string list" where
  "split_lines = split_lines_aux []"

section \<open>Saving\<close>

definition first_event_ts :: "cycle_event list \<Rightarrow> event_kind \<Rightarrow> int res" where
  "first_event_ts es k = (case find (\<lambda>e. ev_kind e = k) es of None \<Rightarrow> Inl ValueError | Some e \<Rightarrow> Inr (ev_time e))"

definition last_event_ts :: "cycle_event list \<Rightarrow> event_kind list \<Rightarrow> int res" where
  "last_event_ts es ks = (case find (\<lambda>e. ev_kind e \<in> set ks) (rev es) of
     None \<Rightarrow> Inl ValueError | Some e \<Rightarrow> Inr (ev_time e))"

text \<open>Six of the nine artifacts are counted.\<close>

definition count_indexed :: "cycle_result \<Rightarrow> nat" where
  "count_indexed r = (let a = cy_artifacts r in length (filter id [ca_observer a \<noteq> None, ca_hypothesis a \<noteq> None,
     ca_skeptic a \<noteq> None, ca_research a \<noteq> None, ca_backtest a \<noteq> None, ca_audit a \<noteq> None]))"

definition build_index_entry :: "cycle_result \<Rightarrow> cycle_event list \<Rightarrow> index_entry res" where
  "build_index_entry r es = bind_res (first_event_ts es CYCLE_STARTED) (\<lambda>started.
     bind_res (last_event_ts es [CYCLE_COMPLETED, CYCLE_ABORTED]) (\<lambda>ended.
     Inr \<lparr>ix_cycle_id = cy_cycle_id r, ix_terminal = cy_terminal r, ix_reason = cy_aborted_reason r,
       ix_artifacts = count_indexed r, ix_token_in = cy_token_in r, ix_token_out = cy_token_out r,
       ix_started = started, ix_ended = ended\<rparr>))"

definition events_text :: "'w env \<Rightarrow> cycle_event list \<Rightarrow> string" where
  "events_text env es = join [newline] (map (env_dump env) es) @ (if es = [] then [] else [newline])"

definition cycle_files :: "string \<Rightarrow> archive \<Rightarrow> files" where
  "cycle_files i a = (case map_of (av_cycles a) i of None \<Rightarrow> [] | Some fs \<Rightarrow> fs)"

definition put_cycle_file :: "string \<Rightarrow> string \<Rightarrow> string \<Rightarrow> archive \<Rightarrow> archive" where
  "put_cycle_file i name content a =
     a\<lparr>av_cycles := AList.update i (atomic_write name content (cycle_files i a)) (av_cycles a)\<rparr>"

definition make_cycle_dir :: "string \<Rightarrow> archive \<Rightarrow> archive" where
  "make_cycle_dir i a = a\<lparr>av_cycles := AList.update i (cycle_files i a) (av_cycles a)\<rparr>"

definition save_cycle :: "'w env \<Rightarrow> archive_codec \<Rightarrow> cycle_result \<Rightarrow> cycle_event list \<Rightarrow> (archive, unit) eff" where
  "save_cycle env ac r es =
     seq (modify (make_cycle_dir (cy_cycle_id r))) (\<lambda>_.
     seq (modify (put_cycle_file (cy_cycle_id r) result_file (ac_dump ac r))) (\<lambda>_.
     seq (modify (put_cycle_file (cy_cycle_id r) events_file (events_text env es))) (\<lambda>_.
     seq (lift_res (build_index_entry r es)) (\<lambda>entry.
     modify (av_root_update (append_file index_file (ac_dump_entry ac entry @ [newline])))))))"

section \<open>Loading\<close>

definition load_cycle :: "'w env \<Rightarrow> archive_codec \<Rightarrow> string \<Rightarrow> archive \<Rightarrow> (cycle_result \<times> cycle_event list) res" where
  "load_cycle env ac i a = (case map_of (cycle_files i a) result_file of
     None \<Rightarrow> Inl FileNotFoundError
   | Some t \<Rightarrow> bind_res (ac_parse ac (read_text t)) (\<lambda>r.
       bind_res (load_jsonl env (map_of (cycle_files i a) events_file)) (\<lambda>es. Inr (r, es))))"

definition list_cycle_ids :: "archive \<Rightarrow> string list" where
  "list_cycle_ids a = sort (map fst (av_cycles a))"

fun parse_entries :: "archive_codec \<Rightarrow> string list \<Rightarrow> index_entry list res" where
  "parse_entries ac [] = Inr []"
| "parse_entries ac (l # ls) = (if py_strip l = [] then parse_entries ac ls
     else bind_res (ac_parse_entry ac (py_strip l)) (\<lambda>e. bind_res (parse_entries ac ls) (\<lambda>es. Inr (e # es))))"

definition index_entries :: "archive_codec \<Rightarrow> archive \<Rightarrow> index_entry list res" where
  "index_entries ac a = (case map_of (av_root a) index_file of None \<Rightarrow> Inr []
     | Some t \<Rightarrow> parse_entries ac (split_lines (read_text t)))"

section \<open>Pruning\<close>

definition latest_ends :: "index_entry list \<Rightarrow> (string \<times> int) list" where
  "latest_ends es = fold (\<lambda>e d. if (case map_of d (ix_cycle_id e) of None \<Rightarrow> True | Some t \<Rightarrow> t < ix_ended e)
     then AList.update (ix_cycle_id e) (ix_ended e) d else d) es []"

definition pruned_ids :: "int \<Rightarrow> index_entry list \<Rightarrow> string list" where
  "pruned_ids cutoff es = fold (\<lambda>e ids. if ix_cycle_id e \<in> set ids then ids
     else if the (map_of (latest_ends es) (ix_cycle_id e)) < cutoff then ids @ [ix_cycle_id e] else ids) es []"

definition rewrite_index :: "archive_codec \<Rightarrow> index_entry list \<Rightarrow> archive \<Rightarrow> archive" where
  "rewrite_index ac es a = (if es = [] then a\<lparr>av_root := AList.delete index_file (av_root a)\<rparr>
     else a\<lparr>av_root := atomic_write index_file (join [newline] (map (ac_dump_entry ac) es) @ [newline]) (av_root a)\<rparr>)"

definition prune_older_than :: "archive_codec \<Rightarrow> int \<Rightarrow> (archive, string list) eff" where
  "prune_older_than ac cutoff =
     seq (gets (index_entries ac)) (\<lambda>x. seq (lift_res x) (\<lambda>es.
     let ids = pruned_ids cutoff es in
     if ids = [] then ret []
     else seq (modify (av_cycles_update (\<lambda>d. fold AList.delete ids d))) (\<lambda>_.
       seq (modify (rewrite_index ac (filter (\<lambda>e. ix_cycle_id e \<notin> set ids) es))) (\<lambda>_. ret ids))))"

end
