(* ===== verification/Archive_Laws.thy ===== *)
theory Archive_Laws
  imports Cycle_Archive Cycle_Samples Entity_Port
begin

text \<open>
  The archive against its plain specification, a shelf: what was last saved under each id and not
  pruned, and the list of index entries. A run of the cycle runner ends by saving.
\<close>

section \<open>The specification\<close>

record shelf =
  sh_cycles :: "string \<Rightarrow> (cycle_result \<times> cycle_event list) option"
  sh_index :: "index_entry list"

definition empty_shelf :: shelf where
  "empty_shelf = \<lparr>sh_cycles = (\<lambda>_. None), sh_index = []\<rparr>"

text \<open>A cycle has expired when every index entry of it ended before the cutoff.\<close>

definition expired :: "int \<Rightarrow> index_entry list \<Rightarrow> string \<Rightarrow> bool" where
  "expired cutoff es i \<longleftrightarrow> i \<in> ix_cycle_id ` set es \<and> (\<forall>e\<in>set es. ix_cycle_id e = i \<longrightarrow> ix_ended e < cutoff)"

datatype archive_op = Save_Cycle cycle_result "cycle_event list" | Prune int

fun shelf_step :: "archive_op \<Rightarrow> shelf \<Rightarrow> shelf" where
  "shelf_step (Save_Cycle r es) b = \<lparr>sh_cycles = (sh_cycles b)(cy_cycle_id r \<mapsto> (r, es)),
     sh_index = sh_index b @ (case build_index_entry r es of Inl _ \<Rightarrow> [] | Inr e \<Rightarrow> [e])\<rparr>"
| "shelf_step (Prune cutoff) b = \<lparr>sh_cycles = (\<lambda>i. if expired cutoff (sh_index b) i then None else sh_cycles b i),
     sh_index = filter (\<lambda>e. \<not> expired cutoff (sh_index b) (ix_cycle_id e)) (sh_index b)\<rparr>"

fun archive_step :: "'w env \<Rightarrow> archive_codec \<Rightarrow> archive_op \<Rightarrow> archive \<Rightarrow> archive" where
  "archive_step env ac (Save_Cycle r es) a = snd (save_cycle env ac r es a)"
| "archive_step env ac (Prune cutoff) a = snd (prune_older_than ac cutoff a)"

text \<open>What is asked of the codecs: a text that reads back, on one line for an index entry.\<close>

definition result_text_ok :: "archive_codec \<Rightarrow> cycle_result \<Rightarrow> bool" where
  "result_text_ok ac r \<longleftrightarrow> carriage_return \<notin> set (ac_dump ac r) \<and> ac_parse ac (ac_dump ac r) = Inr r"

definition entry_line :: "archive_codec \<Rightarrow> index_entry \<Rightarrow> bool" where
  "entry_line ac e \<longleftrightarrow> (let t = ac_dump_entry ac e in t \<noteq> [] \<and> \<not> is_space (hd t) \<and> \<not> is_space (last t) \<and>
     list_all (\<lambda>c. \<not> line_boundary c) t \<and> ac_parse_entry ac t = Inr e)"

definition saveable :: "'w env \<Rightarrow> archive_codec \<Rightarrow> cycle_result \<Rightarrow> cycle_event list \<Rightarrow> bool" where
  "saveable env ac r es \<longleftrightarrow> result_text_ok ac r \<and> list_all (json_line env) es \<and>
     (case build_index_entry r es of Inl _ \<Rightarrow> True | Inr x \<Rightarrow> entry_line ac x)"

fun op_saveable :: "'w env \<Rightarrow> archive_codec \<Rightarrow> archive_op \<Rightarrow> bool" where
  "op_saveable env ac (Save_Cycle r es) = saveable env ac r es"
| "op_saveable env ac (Prune cutoff) = True"

section \<open>Lines\<close>

abbreviation line_text :: "string list \<Rightarrow> string" where
  "line_text ls \<equiv> concat (map (\<lambda>l. l @ [newline]) ls)"

lemma join_lines: "join [newline] xs @ (if xs = [] then [] else [newline]) = line_text xs"
proof (induction xs)
  case (Cons x xs)
  then show ?case by (cases xs) simp_all
qed simp

lemma boundary_chars: "line_boundary newline" "line_boundary carriage_return"
  by (simp_all add: line_boundary_def newline_def carriage_return_def)

lemma split_lines_line: "list_all (\<lambda>c. \<not> line_boundary c) l \<Longrightarrow>
    split_lines_aux acc (l @ newline # t) = (rev acc @ l) # split_lines_aux [] t"
  by (induction l arbitrary: acc) (auto simp: boundary_chars)

lemma split_lines_text: "\<forall>l\<in>set ls. list_all (\<lambda>c. \<not> line_boundary c) l \<Longrightarrow> split_lines (line_text ls) = ls"
  by (induction ls) (simp_all add: split_lines_def split_lines_line)

abbreviation index_text :: "archive_codec \<Rightarrow> index_entry list \<Rightarrow> string" where
  "index_text ac es \<equiv> line_text (map (ac_dump_entry ac) es)"

lemma parse_entry_lines: "\<forall>e\<in>set es. entry_line ac e \<Longrightarrow> parse_entries ac (map (ac_dump_entry ac) es) = Inr es"
proof (induction es)
  case (Cons e es)
  then have "py_strip (ac_dump_entry ac e) = ac_dump_entry ac e" "ac_dump_entry ac e \<noteq> []"
    by (auto simp: entry_line_def Let_def py_strip_def intro!: strip_by_id)
  with Cons show ?case by (simp add: entry_line_def Let_def)
qed simp

lemma index_reads_back:
  assumes "\<forall>e\<in>set es. entry_line ac e"
  shows "parse_entries ac (split_lines (read_text (index_text ac es))) = Inr es"
proof -
  have nb: "\<forall>l\<in>set (map (ac_dump_entry ac) es). list_all (\<lambda>c. \<not> line_boundary c) l"
    using assms by (auto simp: entry_line_def Let_def)
  then have "carriage_return \<notin> set (index_text ac es)"
    using boundary_chars by (auto simp: list_all_iff)
  then have "read_text (index_text ac es) = index_text ac es"
    unfolding read_text_def by (rule universal_newlines_id)
  with nb show ?thesis using assms by (simp only: split_lines_text parse_entry_lines)
qed

lemma events_read_back:
  assumes "list_all (json_line env) es"
  shows "load_jsonl env (Some (events_text env es)) = Inr es"
proof -
  have flat: "events_text env xs = line_text (map (env_dump env) xs)" for xs
    using join_lines [of "map (env_dump env) xs"] by (simp add: events_text_def)
  show ?thesis
    using assms
  proof (induction es rule: rev_induct)
    case Nil
    then show ?case by (simp add: flat load_jsonl_def file_lines_def)
  next
    case (snoc e es)
    have "ends_line (events_text env es)"
      by (cases es rule: rev_cases) (auto simp: flat ends_line_def)
    then have "in_sync env [] \<lparr>el_events = es, el_persist = True, el_file = Some (events_text env es), el_listeners = []\<rparr>"
      using snoc by (simp add: in_sync_def)
    from in_sync_record [OF this, of e] snoc.prems show ?case
      by (simp add: in_sync_def record_event_def flat)
  qed
qed

section \<open>Pruning\<close>

lemma latest_ends_ok: "case map_of (latest_ends es) i of
    None \<Rightarrow> i \<notin> ix_cycle_id ` set es
  | Some t \<Rightarrow> t \<in> ix_ended ` {e \<in> set es. ix_cycle_id e = i} \<and> (\<forall>e\<in>set es. ix_cycle_id e = i \<longrightarrow> ix_ended e \<le> t)"
proof (induction es rule: rev_induct)
  case Nil
  then show ?case by (simp add: latest_ends_def)
next
  case (snoc e es)
  have step: "map_of (latest_ends (es @ [e])) i = (if ix_cycle_id e = i then
      (case map_of (latest_ends es) i of None \<Rightarrow> Some (ix_ended e) | Some t \<Rightarrow> Some (max t (ix_ended e)))
    else map_of (latest_ends es) i)"
    by (auto simp: latest_ends_def map_of_update max_def split: option.split)
  show ?case
  proof (cases "ix_cycle_id e = i")
    case False
    with snoc step show ?thesis by (auto split: option.splits)
  next
    case True
    show ?thesis
    proof (cases "map_of (latest_ends es) i")
      case None
      with snoc.IH have "i \<notin> ix_cycle_id ` set es" by simp
      with None step True show ?thesis by (auto simp: image_iff)
    next
      case (Some t)
      with snoc have t: "t \<in> ix_ended ` {e \<in> set es. ix_cycle_id e = i}" "\<forall>e\<in>set es. ix_cycle_id e = i \<longrightarrow> ix_ended e \<le> t"
        by simp_all
      have "max t (ix_ended e) \<in> ix_ended ` {x \<in> set (es @ [e]). ix_cycle_id x = i}"
        using t(1) True by (auto simp: max_def)
      moreover have "\<forall>x\<in>set (es @ [e]). ix_cycle_id x = i \<longrightarrow> ix_ended x \<le> max t (ix_ended e)"
        using t(2) by (auto simp: le_max_iff_disj)
      ultimately show ?thesis using step True Some by simp
    qed
  qed
qed

lemma latest_before: "i \<in> ix_cycle_id ` set es \<Longrightarrow> the (map_of (latest_ends es) i) < cutoff \<longleftrightarrow> expired cutoff es i"
  using latest_ends_ok [where es = es and i = i] by (auto simp: expired_def split: option.splits)

lemma pruned_ids_set: "set (pruned_ids cutoff es) = {i. expired cutoff es i}"
proof -
  have "set (fold (\<lambda>e ids. if ix_cycle_id e \<in> set ids then ids
      else if the (m (ix_cycle_id e)) < cutoff then ids @ [ix_cycle_id e] else ids) xs ids) =
    set ids \<union> {i \<in> ix_cycle_id ` set xs. the (m i) < cutoff}" for m xs ids
    by (induction xs arbitrary: ids) auto
  from this [of "map_of (latest_ends es)" es "[]"]
  have "set (pruned_ids cutoff es) = {i \<in> ix_cycle_id ` set es. the (map_of (latest_ends es) i) < cutoff}"
    unfolding pruned_ids_def by simp
  then show ?thesis using latest_before by (auto simp: expired_def)
qed

section \<open>The refinement\<close>

definition on_shelf :: "'w env \<Rightarrow> archive_codec \<Rightarrow> archive \<Rightarrow> string \<Rightarrow> (cycle_result \<times> cycle_event list) option \<Rightarrow> bool" where
  "on_shelf env ac a i p \<longleftrightarrow> (case p of None \<Rightarrow> map_of (av_cycles a) i = None
     | Some (r, es) \<Rightarrow> map_of (av_cycles a) i \<noteq> None \<and> map_of (cycle_files i a) result_file = Some (ac_dump ac r) \<and>
         map_of (cycle_files i a) events_file = Some (events_text env es) \<and> result_text_ok ac r \<and> list_all (json_line env) es)"

definition shelved :: "'w env \<Rightarrow> archive_codec \<Rightarrow> archive \<Rightarrow> shelf \<Rightarrow> bool" where
  "shelved env ac a b \<longleftrightarrow> distinct (map fst (av_cycles a)) \<and> (\<forall>i. on_shelf env ac a i (sh_cycles b i)) \<and>
     map_of (av_root a) index_file = (if sh_index b = [] then None else Some (index_text ac (sh_index b))) \<and>
     (\<forall>e\<in>set (sh_index b). entry_line ac e)"

lemma map_of_atomic_write: "n \<noteq> name @ ''.tmp'' \<Longrightarrow>
    map_of (atomic_write name c fs) n = (if n = name then Some c else map_of fs n)"
  by (simp add: atomic_write_def Let_def map_of_update map_of_delete)

lemma file_names [simp]: "result_file \<noteq> events_file" "events_file \<noteq> result_file"
  "result_file \<noteq> events_file @ ''.tmp''" "events_file \<noteq> result_file @ ''.tmp''"
  by (simp_all add: result_file_def events_file_def)

lemma not_own_tmp [simp]: "n \<noteq> n @ ''.tmp''"
  by simp

lemma cycle_files_simps [simp]:
  "cycle_files j (put_cycle_file i name c a) = (if j = i then atomic_write name c (cycle_files i a) else cycle_files j a)"
  "cycle_files j (make_cycle_dir i a) = cycle_files j a"
  "av_root (put_cycle_file i name c a) = av_root a" "av_root (make_cycle_dir i a) = av_root a"
  "map_of (av_cycles (put_cycle_file i name c a)) j = None \<longleftrightarrow> j \<noteq> i \<and> map_of (av_cycles a) j = None"
  "map_of (av_cycles (make_cycle_dir i a)) j = None \<longleftrightarrow> j \<noteq> i \<and> map_of (av_cycles a) j = None"
  "distinct (map fst (av_cycles a)) \<Longrightarrow> distinct (map fst (av_cycles (put_cycle_file i name c a)))"
  "distinct (map fst (av_cycles a)) \<Longrightarrow> distinct (map fst (av_cycles (make_cycle_dir i a)))"
  by (auto simp: put_cycle_file_def make_cycle_dir_def cycle_files_def map_of_update distinct_update split: option.split)

text \<open>The archive after the two files of a cycle have been written.\<close>

definition with_files :: "'w env \<Rightarrow> archive_codec \<Rightarrow> cycle_result \<Rightarrow> cycle_event list \<Rightarrow> archive \<Rightarrow> archive" where
  "with_files env ac r es a = put_cycle_file (cy_cycle_id r) events_file (events_text env es)
     (put_cycle_file (cy_cycle_id r) result_file (ac_dump ac r) (make_cycle_dir (cy_cycle_id r) a))"

lemma save_cycle_apply: "save_cycle env ac r es a = (case build_index_entry r es of
     Inl e \<Rightarrow> (Inl e, with_files env ac r es a)
   | Inr x \<Rightarrow> (Inr (), av_root_update (append_file index_file (ac_dump_entry ac x @ [newline])) (with_files env ac r es a)))"
  by (simp add: save_cycle_def seq_apply with_files_def split: sum.split)

lemma with_files_shelved:
  assumes "shelved env ac a b" and "saveable env ac r es"
  shows "on_shelf env ac (with_files env ac r es a) i (((sh_cycles b)(cy_cycle_id r \<mapsto> (r, es))) i) \<and>
    distinct (map fst (av_cycles (with_files env ac r es a))) \<and> av_root (with_files env ac r es a) = av_root a"
proof -
  have "on_shelf env ac (with_files env ac r es a) (cy_cycle_id r) (Some (r, es))"
    using assms(2) by (simp add: on_shelf_def with_files_def map_of_atomic_write saveable_def)
  moreover have "on_shelf env ac (with_files env ac r es a) i (sh_cycles b i)" if "i \<noteq> cy_cycle_id r"
  proof -
    have "on_shelf env ac a i (sh_cycles b i)" using assms(1) by (simp add: shelved_def)
    then show ?thesis using that by (auto simp: on_shelf_def with_files_def split: option.splits)
  qed
  ultimately show ?thesis using assms(1) by (simp add: shelved_def with_files_def)
qed

lemma on_shelf_root: "on_shelf env ac (av_root_update f a) i p = on_shelf env ac a i p"
  by (cases p) (auto simp: on_shelf_def cycle_files_def)

lemma save_shelved:
  assumes "shelved env ac a b" and "saveable env ac r es"
  shows "shelved env ac (snd (save_cycle env ac r es a)) (shelf_step (Save_Cycle r es) b)"
proof -
  note w = with_files_shelved [OF assms]
  have root: "map_of (av_root a) index_file = (if sh_index b = [] then None else Some (index_text ac (sh_index b)))"
    "\<forall>e\<in>set (sh_index b). entry_line ac e" using assms(1) by (simp_all add: shelved_def)
  show ?thesis
  proof (cases "build_index_entry r es")
    case (Inl e)
    with w root show ?thesis by (simp add: save_cycle_apply shelved_def)
  next
    case (Inr x)
    have "entry_line ac x" using assms(2) Inr by (simp add: saveable_def)
    with Inr w root show ?thesis
      by (auto simp: save_cycle_apply shelved_def on_shelf_root append_file_def map_of_update)
  qed
qed

lemma shelved_entries: "shelved env ac a b \<Longrightarrow> index_entries ac a = Inr (sh_index b)"
  using index_reads_back [of "sh_index b" ac] by (simp add: shelved_def index_entries_def split_lines_def read_text_def)

lemma fold_delete_keys: "map_of (fold AList.delete ks d) i = (if i \<in> set ks then None else map_of d i)"
  by (induction ks arbitrary: d) (auto simp: map_of_delete)

lemma prune_shelved:
  assumes "shelved env ac a b"
  shows "shelved env ac (snd (prune_older_than ac cutoff a)) (shelf_step (Prune cutoff) b) \<and>
    (\<exists>ids. fst (prune_older_than ac cutoff a) = Inr ids \<and> set ids = {i. expired cutoff (sh_index b) i})"
proof -
  let ?ids = "pruned_ids cutoff (sh_index b)" and ?keep = "filter (\<lambda>e. ix_cycle_id e \<notin> set (pruned_ids cutoff (sh_index b))) (sh_index b)"
  have ids: "i \<in> set ?ids \<longleftrightarrow> expired cutoff (sh_index b) i" for i by (simp add: pruned_ids_set)
  have keep: "?keep = filter (\<lambda>e. \<not> expired cutoff (sh_index b) (ix_cycle_id e)) (sh_index b)" by (simp add: ids)
  have eq: "prune_older_than ac cutoff a = (if ?ids = [] then (Inr [], a) else
      (Inr ?ids, rewrite_index ac ?keep (av_cycles_update (\<lambda>d. fold AList.delete ?ids d) a)))"
    by (simp add: prune_older_than_def seq_apply shelved_entries [OF assms] Let_def)
  show ?thesis
  proof (cases "?ids = []")
    case True
    then have "\<not> expired cutoff (sh_index b) i" for i using ids [of i] by simp
    with True assms show ?thesis by (cases b) (simp add: eq)
  next
    case False
    define t where "t = rewrite_index ac ?keep (av_cycles_update (\<lambda>d. fold AList.delete ?ids d) a)"
    have cyc: "av_cycles t = fold AList.delete ?ids (av_cycles a)" by (simp add: t_def rewrite_index_def)
    have "distinct (map fst (fold AList.delete ks d))" if "distinct (map fst d)" for ks and d :: "(string \<times> files) list"
      using that by (induction ks arbitrary: d) (simp_all add: distinct_keys_delete)
    then have dist: "distinct (map fst (av_cycles t))" using assms by (simp add: cyc shelved_def)
    have "on_shelf env ac t i (if expired cutoff (sh_index b) i then None else sh_cycles b i)" for i
    proof -
      have "on_shelf env ac a i (sh_cycles b i)" using assms by (simp add: shelved_def)
      then show ?thesis by (auto simp: on_shelf_def cycle_files_def cyc fold_delete_keys ids split: option.splits)
    qed
    moreover have "map_of (av_root t) index_file = (if ?keep = [] then None else Some (index_text ac ?keep))"
      using join_lines [of "map (ac_dump_entry ac) ?keep"]
      by (auto simp: t_def rewrite_index_def map_of_delete map_of_atomic_write)
    moreover have "\<forall>e\<in>set ?keep. entry_line ac e" using assms by (simp add: shelved_def)
    ultimately have "shelved env ac t (shelf_step (Prune cutoff) b)"
      using dist unfolding shelved_def shelf_step.simps shelf.simps keep by blast
    with False eq show ?thesis by (simp add: t_def pruned_ids_set)
  qed
qed

lemma archive_shelved:
  assumes "shelved env ac a b" and "list_all (op_saveable env ac) ops"
  shows "shelved env ac (fold (archive_step env ac) ops a) (fold shelf_step ops b)"
  using assms
proof (induction ops arbitrary: a b)
  case (Cons x ops)
  then have "shelved env ac (archive_step env ac x a) (shelf_step x b)"
    by (cases x) (simp_all add: save_shelved prune_shelved del: shelf_step.simps)
  with Cons show ?case by simp
qed simp

lemma shelved_empty: "shelved env ac empty_archive empty_shelf"
  by (simp add: shelved_def on_shelf_def empty_archive_def empty_shelf_def)

lemma shelved_load:
  assumes "shelved env ac a b"
  shows "load_cycle env ac i a = (case sh_cycles b i of None \<Rightarrow> Inl FileNotFoundError | Some p \<Rightarrow> Inr p)"
proof -
  have "on_shelf env ac a i (sh_cycles b i)" using assms by (simp add: shelved_def)
  then show ?thesis
    by (auto simp: on_shelf_def load_cycle_def read_text_def result_text_ok_def universal_newlines_id events_read_back
        cycle_files_def split: option.splits)
qed

lemma shelved_ids:
  assumes "shelved env ac a b"
  shows "set (list_cycle_ids a) = dom (sh_cycles b) \<and> sorted (list_cycle_ids a) \<and> distinct (list_cycle_ids a)"
proof -
  have "i \<in> fst ` set (av_cycles a) \<longleftrightarrow> sh_cycles b i \<noteq> None" for i
  proof -
    have "on_shelf env ac a i (sh_cycles b i)" using assms by (simp add: shelved_def)
    then show ?thesis by (auto simp: on_shelf_def map_of_eq_None_iff split: option.splits)
  qed
  then have "fst ` set (av_cycles a) = dom (sh_cycles b)" by (auto simp: dom_def)
  with assms show ?thesis by (simp add: list_cycle_ids_def shelved_def)
qed

section \<open>A run ends by saving\<close>

definition archive_store :: "('v \<times> archive) env \<Rightarrow> archive_codec \<Rightarrow> cycle_result \<Rightarrow> cycle_event list \<Rightarrow>
    ('v \<times> archive, unit) eff" where
  "archive_store env ac r es = zoom snd (\<lambda>a w. (fst w, a)) (save_cycle env ac r es)"

definition closes :: "'w runner \<Rightarrow> ('w, cycle_result) run_eff \<Rightarrow> bool" where
  "closes rn m \<longleftrightarrow> (\<forall>c r c'. m c = (Inr r, c') \<longrightarrow> cy_cycle_id r = cycle_id rn \<and>
     (\<exists>c0. persist_if_configured rn r c0 = (Inr (), c')))"

named_theorems closing "effects that end by saving the result"

lemma closes_seq [closing]: "(\<And>x. closes rn (f x)) \<Longrightarrow> closes rn (seq m f)"
  unfolding closes_def by (metis seq_Inr_cases)

lemma closes_complete [closing]: "closes rn (complete_cycle rn st)"
  by (auto simp: closes_def complete_cycle_def Let_def seq_apply split: prod.splits sum.splits)

lemma closes_finalize [closing]: "closes rn (finalize_cycle rn h)"
  by (auto simp: closes_def finalize_cycle_def Let_def seq_apply split: prod.splits sum.splits)

lemma closes_agent_phase [closing]: "(\<And>out. closes rn (next_phase out)) \<Longrightarrow> closes rn (agent_phase rn m put next_phase)"
  unfolding agent_phase_def by (auto intro!: closing split: sum.split)

lemma closes_broker_phase [closing]: "closes rn (broker_phase rn)"
  unfolding broker_phase_def by (auto intro!: closing split: sum.split option.split prod.split)

lemma closes_run_phases: "closes rn (run_phases rn input)"
  unfolding run_phases_def observer_phase_def hypothesis_phase_def skeptic_phase_def research_phase_def
    backtest_phase_def auditor_phase_def decider_phase_def gateway_phase_def
  by (auto intro!: closing split: sum.split option.split)

lemma run_cycle_saves:
  assumes "run_cycle rn input s = (Inr r, s')" and "rn_store rn = Some save"
  shows "cy_cycle_id r = cycle_id rn \<and> (\<exists>w. save r (filter_by_cycle (cycle_id rn) (sys_log s')) w = (Inr (), sys_world s'))"
proof -
  obtain c c' where "run_phases rn input c = (Inr r, c')" "rc_sys c' = s'"
    using assms(1) by (auto simp: run_cycle_def seq_apply split: prod.splits sum.splits)
  then obtain c0 where "cy_cycle_id r = cycle_id rn" "persist_if_configured rn r c0 = (Inr (), c')"
    using closes_run_phases unfolding closes_def by blast
  with assms(2) \<open>rc_sys c' = s'\<close> show ?thesis
    by (auto simp: persist_if_configured_def seq_apply in_sys_def) (metis prod.collapse)
qed

section \<open>The properties\<close>

text \<open>C15. The archive refines its specification. After any saves and prunings of cycles whose texts
  read back (a save may fail for want of a start or an end event, and then leaves its two files), loading
  an id gives what was last saved under it and not pruned, or FileNotFoundError; the index is the list of
  entries of the successful saves that were not pruned; the ids are listed sorted; and a pruning removes
  exactly the cycles whose every index entry ended before the cutoff.\<close>

theorem archive_refines:
  assumes "list_all (op_saveable env ac) ops"
  defines "a \<equiv> fold (archive_step env ac) ops empty_archive" and "b \<equiv> fold shelf_step ops empty_shelf"
  shows "load_cycle env ac i a = (case sh_cycles b i of None \<Rightarrow> Inl FileNotFoundError | Some p \<Rightarrow> Inr p) \<and>
    index_entries ac a = Inr (sh_index b) \<and>
    set (list_cycle_ids a) = dom (sh_cycles b) \<and> sorted (list_cycle_ids a) \<and> distinct (list_cycle_ids a) \<and>
    (\<exists>ids. fst (prune_older_than ac cutoff a) = Inr ids \<and> set ids = {i. expired cutoff (sh_index b) i})"
proof -
  have "shelved env ac a b" unfolding a_def b_def by (rule archive_shelved [OF shelved_empty assms(1)])
  from shelved_load [OF this] shelved_entries [OF this] shelved_ids [OF this] prune_shelved [OF this]
  show ?thesis by blast
qed

text \<open>C16. A cycle that has run can be read back. When a runner whose store is the archive returns a
  result, loading its cycle id from the archive gives that result and exactly the events of the cycle in
  the log, and the last line of the index is the entry of this run.\<close>

theorem archived_cycle_reads_back:
  assumes "run_cycle rn input s = (Inr r, s')" and "rn_store rn = Some (archive_store (rn_env rn) ac)"
    and "saveable (rn_env rn) ac r (filter_by_cycle (cycle_id rn) (sys_log s'))"
  shows "load_cycle (rn_env rn) ac (cycle_id rn) (snd (sys_world s')) =
      Inr (r, filter_by_cycle (cycle_id rn) (sys_log s')) \<and>
    (\<exists>x t. build_index_entry r (filter_by_cycle (cycle_id rn) (sys_log s')) = Inr x \<and>
      map_of (av_root (snd (sys_world s'))) index_file = Some (t @ ac_dump_entry ac x @ [newline]))"
proof -
  let ?es = "filter_by_cycle (cycle_id rn) (sys_log s')"
  obtain w where id: "cy_cycle_id r = cycle_id rn" and w: "archive_store (rn_env rn) ac r ?es w = (Inr (), sys_world s')"
    using run_cycle_saves [OF assms(1,2)] by blast
  then obtain x where x: "build_index_entry r ?es = Inr x" and a: "snd (sys_world s') =
      av_root_update (append_file index_file (ac_dump_entry ac x @ [newline])) (with_files (rn_env rn) ac r ?es (snd w))"
    by (auto simp: archive_store_def save_cycle_apply split: sum.splits dest: arg_cong [of _ _ snd])
  have files: "map_of (cycle_files (cycle_id rn) (snd (sys_world s'))) result_file = Some (ac_dump ac r)"
    "map_of (cycle_files (cycle_id rn) (snd (sys_world s'))) events_file = Some (events_text (rn_env rn) ?es)"
    unfolding a id [symmetric] by (simp_all add: cycle_files_def [of _ "av_root_update _ _"] with_files_def
        cycle_files_def [symmetric] map_of_atomic_write)
  with assms(3) have "load_cycle (rn_env rn) ac (cycle_id rn) (snd (sys_world s')) = Inr (r, ?es)"
    by (simp add: load_cycle_def saveable_def result_text_ok_def read_text_def universal_newlines_id events_read_back)
  with x show ?thesis by (auto simp: a append_file_def map_of_update)
qed

text \<open>
  Witnesses of the archive properties: a run whose observer fails, saved to the archive and read back.
  The codecs are tables of the texts that occur.
\<close>

section \<open>A short run\<close>

definition short_event :: "string \<Rightarrow> event_kind \<Rightarrow> payload \<Rightarrow> cycle_event" where
  "short_event i k p = \<lparr>ev_id = i, ev_cycle = ''c'', ev_kind = k, ev_time = 0, ev_payload = p\<rparr>"

definition short_events :: "cycle_event list" where
  "short_events =
     [short_event ''0'' CYCLE_STARTED [],
      short_event ''1'' STATE_TRANSITION [(''src'', PStr ''idle''), (''dst'', PStr ''observing'')],
      short_event ''3'' AGENT_INVOKED [(''agent_name'', PStr ''observer''), (''run_id'', PStr ''2'')],
      short_event ''4'' AGENT_FAILED [(''agent_name'', PStr ''observer''), (''run_id'', PStr ''2''), (''error'', PStr ''no data'')],
      short_event ''5'' STATE_TRANSITION [(''src'', PStr ''observing''), (''dst'', PStr ''error'')],
      short_event ''6'' CYCLE_ABORTED [(''reason'', PStr ''observer: no data''), (''at_state'', PStr ''observing'')]]"

definition short_result :: cycle_result where
  "short_result = \<lparr>cy_cycle_id = ''c'', cy_terminal = ERROR, cy_artifacts = no_artifacts,
     cy_aborted_reason = Some ''observer: no data'', cy_token_in = 0, cy_token_out = 0\<rparr>"

definition short_entry :: index_entry where
  "short_entry = \<lparr>ix_cycle_id = ''c'', ix_terminal = ERROR, ix_reason = Some ''observer: no data'', ix_artifacts = 0,
     ix_token_in = 0, ix_token_out = 0, ix_started = 0, ix_ended = 0\<rparr>"

text \<open>Tokens count up; an event is written as its id.\<close>

definition count_env :: "(nat \<times> archive) env" where
  "count_env = \<lparr>env_now = (\<lambda>w. (0, w)), env_token_hex = (\<lambda>(n, a). (nat_str n, (Suc n, a))), env_dump = ev_id,
     env_parse = (\<lambda>t. case find (\<lambda>e. ev_id e = t) short_events of None \<Rightarrow> Inl ValueError | Some e \<Rightarrow> Inr e)\<rparr>"

definition short_codec :: archive_codec where
  "short_codec = \<lparr>ac_dump = (\<lambda>_. ''r''), ac_parse = (\<lambda>_. Inr short_result),
     ac_dump_entry = (\<lambda>_. ''e''), ac_parse_entry = (\<lambda>_. Inr short_entry)\<rparr>"

definition short_runner :: "(nat \<times> archive) runner" where
  "short_runner = (office count_env (Plain_Broker (\<lambda>_ _. raise RuntimeError)) PASS)
     \<lparr>rn_observer := (\<lambda>_. ret \<lparr>ag_output = None, ag_error = Some ''no data'', ag_metadata = agent_metadata\<rparr>),
      rn_store := Some (archive_store count_env short_codec)\<rparr>"

definition short_sys :: "(nat \<times> archive) sys" where
  "short_sys = \<lparr>sys_log = new_log False None, sys_world = (0, empty_archive)\<rparr>"

section \<open>Witnesses\<close>

lemma short_saveable: "saveable count_env short_codec short_result short_events"
  by code_simp

theorem archive_refines_witness:
  "load_cycle count_env short_codec ''c''
      (fold (archive_step count_env short_codec) [Save_Cycle short_result short_events, Prune 0] empty_archive) =
        Inr (short_result, short_events) \<and>
   load_cycle count_env short_codec ''c''
      (fold (archive_step count_env short_codec) [Save_Cycle short_result short_events, Prune 1] empty_archive) =
        Inl FileNotFoundError"
proof -
  have ok: "list_all (op_saveable count_env short_codec) [Save_Cycle short_result short_events, Prune n]" for n
    using short_saveable by simp
  have "build_index_entry short_result short_events = Inr short_entry" by code_simp
  then have "sh_cycles (fold shelf_step [Save_Cycle short_result short_events, Prune n] empty_shelf) ''c'' =
      (if 0 < n then None else Some (short_result, short_events))" for n
    by (simp add: empty_shelf_def expired_def short_entry_def short_result_def)
  with archive_refines [OF ok, where i = "''c''"] show ?thesis by simp
qed

theorem archived_cycle_reads_back_witness:
  "\<exists>s'. run_cycle short_runner sample_input short_sys = (Inr short_result, s') \<and>
     load_cycle count_env short_codec ''c'' (snd (sys_world s')) = Inr (short_result, short_events)"
proof -
  have "fst (run_cycle short_runner sample_input short_sys) = Inr short_result" by code_simp
  then obtain s' where run: "run_cycle short_runner sample_input short_sys = (Inr short_result, s')"
    by (metis prod.collapse)
  have "filter_by_cycle ''c'' (sys_log (snd (run_cycle short_runner sample_input short_sys))) = short_events"
    by code_simp
  with run have es: "filter_by_cycle ''c'' (sys_log s') = short_events" by simp
  have rn: "rn_env short_runner = count_env" "cycle_id short_runner = ''c''"
    "rn_store short_runner = Some (archive_store (rn_env short_runner) short_codec)"
    by (simp_all add: short_runner_def office_def cycle_id_def desk_budget_def)
  from archived_cycle_reads_back [OF run rn(3)] short_saveable es run show ?thesis
    unfolding rn(1,2) by simp
qed

section \<open>Characters that break a line\<close>

text \<open>The index is split with \<open>str.splitlines\<close>, which also breaks at U+0085; a JSON text may hold that
  character as it is, so an abort reason with one makes the whole index unreadable.\<close>

lemma next_line_splits: "split_lines (''a'' @ [char_of (133 :: nat)] @ ''b'' @ [newline]) = [''a'', ''b'']"
  by code_simp

end
