(* ===== verification/Credential_Lint.thy ===== *)
theory Credential_Lint
  imports Prelude "HOL-Library.Product_Lexorder"
begin

text \<open>
  Python syntax trees, and what the credential lint reads off one module
  (\<open>lint/credential\_isolation.py\<close>): its import edges and its reads of environment variables. The
  constructors are the classes of the module \<open>ast\<close> that the lint tells apart; every other class is
  \<open>Other\<close> with its children. A field that holds no node and that no function here reads is left out.
\<close>

section \<open>Trees\<close>

datatype node =
    Import "string list"                                  \<comment> \<open>the \<open>name\<close> of each alias\<close>
  | ImportFrom "string option" "string list" nat          \<comment> \<open>module, names, level\<close>
  | Arg string "node option"                              \<comment> \<open>arg, annotation\<close>
  | Arguments "node list" "node list" "node option" "node list" "node option list" "node option" "node list"
      \<comment> \<open>posonlyargs, args, vararg, kwonlyargs, kw\_defaults, kwarg, defaults\<close>
  | FunctionDef node "node list" "node list" "node option" "node list"
      \<comment> \<open>args, body, decorator\_list, returns, type\_params; also for \<open>AsyncFunctionDef\<close>\<close>
  | Call node "node list" "node list" int                 \<comment> \<open>func, args, keywords, lineno\<close>
  | Subscript node node int                               \<comment> \<open>value, slice, lineno\<close>
  | Attribute node string                                 \<comment> \<open>value, attr\<close>
  | Name string
  | Constant "string option"                              \<comment> \<open>the value, when it is a string\<close>
  | Other "node list"

text \<open>\<open>ast.iter\_child\_nodes\<close>: the nodes among the fields, in the order of the fields.\<close>

definition opt_list :: "'a option \<Rightarrow> 'a list" where
  "opt_list x = (case x of None \<Rightarrow> [] | Some y \<Rightarrow> [y])"

fun children :: "node \<Rightarrow> node list" where
  "children (Arg a ann) = opt_list ann"
| "children (Arguments po as va ko kd kw ds) =
     po @ as @ opt_list va @ ko @ concat (map opt_list kd) @ opt_list kw @ ds"
| "children (FunctionDef args body decos rt tps) = args # body @ decos @ opt_list rt @ tps"
| "children (Call f as kws _) = f # as @ kws"
| "children (Subscript v s _) = [v, s]"
| "children (Attribute v _) = [v]"
| "children (Other ns) = ns"
| "children _ = []"

lemma opt_list_set [simp]: "x \<in> set (opt_list y) \<longleftrightarrow> y = Some x"
  by (auto simp: opt_list_def split: option.split)

lemma size_child: "m \<in> set (children n) \<Longrightarrow> size m < size n"
proof -
  have opts: "size m < Suc (size_list (size_option size) xs)" if "Some m \<in> set xs" for xs
    using that by (induction xs) auto
  have lst: "size m \<le> size_list size xs" if "m \<in> set xs" for xs
    using that by (induction xs) auto
  show "m \<in> set (children n) \<Longrightarrow> size m < size n"
    by (cases n) (auto dest!: lst opts)
qed

text \<open>\<open>ast.walk\<close>, up to the order of the nodes.\<close>

function walk :: "node \<Rightarrow> node list" where
  "walk n = n # concat (map walk (children n))"
  by auto
termination by (relation "measure size") (simp_all add: size_child)

declare walk.simps [simp del]

section \<open>Dotted names\<close>

text \<open>\<open>str.split(".")\<close> and \<open>".".join\<close>.\<close>

fun split_dots :: "string \<Rightarrow> string list" where
  "split_dots [] = [[]]"
| "split_dots (c # cs) = (if c = CHR ''.'' then [] # split_dots cs
     else (c # hd (split_dots cs)) # tl (split_dots cs))"

abbreviation dotted :: "string list \<Rightarrow> string" where
  "dotted \<equiv> join ''.''"

section \<open>Import edges\<close>

definition import_base :: "string \<Rightarrow> nat \<Rightarrow> string" where
  "import_base current level = (if 0 < level
     then (let parts = if current = [] then [] else split_dots current in dotted (take (length parts - level) parts))
     else [])"

fun import_edges :: "string \<Rightarrow> node \<Rightarrow> string list" where
  "import_edges current (Import names) = names"
| "import_edges current (ImportFrom module names level) =
     (let base = import_base current level; part = (case module of None \<Rightarrow> [] | Some m \<Rightarrow> m);
        edges = (\<lambda>full. full # map (\<lambda>n. full @ ''.'' @ n) (filter (\<lambda>n. n \<noteq> ''*'') names)) in
      if base \<noteq> [] \<and> part \<noteq> [] then edges (base @ ''.'' @ part)
      else if base \<noteq> [] then edges base
      else if part \<noteq> [] then edges part
      else [])"
| "import_edges current _ = []"

definition extract_imports :: "node \<Rightarrow> string \<Rightarrow> string list" where
  "extract_imports tree current = remdups (concat (map (import_edges current) (walk tree)))"

section \<open>Reads of environment variables\<close>

record env_read =
  er_name :: "string option"
  er_line :: int

definition is_name :: "node \<Rightarrow> string \<Rightarrow> bool" where
  "is_name n s = (case n of Name i \<Rightarrow> i = s | _ \<Rightarrow> False)"

definition is_environ :: "node \<Rightarrow> bool" where
  "is_environ n = (case n of Attribute inner attr \<Rightarrow> attr = ''environ'' \<and> is_name inner ''os'' | _ \<Rightarrow> False)"

definition is_env_read_call :: "node \<Rightarrow> bool" where
  "is_env_read_call func = (case func of
     Attribute value attr \<Rightarrow> if attr = ''get'' then is_environ value
       else if attr = ''getenv'' then is_name value ''os'' else False
   | _ \<Rightarrow> False)"

definition is_environ_subscript :: "node \<Rightarrow> bool" where
  "is_environ_subscript value = is_environ value"

text \<open>The scopes of the visitor, innermost first: the string defaults of the parameters.\<close>

type_synonym scope = "(string \<times> string) list"

fun resolve :: "scope list \<Rightarrow> node \<Rightarrow> string option" where
  "resolve scopes (Constant v) = v"
| "resolve scopes (Name i) = (case find (\<lambda>d. map_of d i \<noteq> None) scopes of None \<Rightarrow> None | Some d \<Rightarrow> map_of d i)"
| "resolve scopes _ = None"

text \<open>\<open>xs[k:]\<close> and \<open>zip(xs, ys, strict=True)\<close>.\<close>

definition slice_from :: "int \<Rightarrow> 'a list \<Rightarrow> 'a list" where
  "slice_from k xs = drop (nat (if 0 \<le> k then k else int (length xs) + k)) xs"

definition zip_strict :: "'a list \<Rightarrow> 'b list \<Rightarrow> ('a \<times> 'b) list res" where
  "zip_strict xs ys = (if length xs = length ys then Inr (zip xs ys) else Inl ValueError)"

definition arg_name :: "node \<Rightarrow> string" where
  "arg_name n = (case n of Arg a _ \<Rightarrow> a | _ \<Rightarrow> [])"

definition put_default :: "node \<times> node option \<Rightarrow> scope \<Rightarrow> scope" where
  "put_default p d = (case p of
     (arg, Some (Constant (Some v))) \<Rightarrow> AList.update (arg_name arg) v d
   | _ \<Rightarrow> d)"

definition collect_param_defaults :: "node \<Rightarrow> scope res" where
  "collect_param_defaults arguments = (case arguments of
     Arguments po as va ko kd kw ds \<Rightarrow>
       bind_res (if ds = [] then Inr [] else zip_strict (slice_from (int (length as) - int (length ds)) as) (map Some ds)) (\<lambda>pos.
       bind_res (zip_strict ko kd) (\<lambda>kws. Inr (fold put_default kws (fold put_default pos []))))
   | _ \<Rightarrow> Inr [])"

text \<open>The loop of \<open>generic\_visit\<close> over the children.\<close>

fun concat_res :: "'a list res list \<Rightarrow> 'a list res" where
  "concat_res [] = Inr []"
| "concat_res (x # xs) = bind_res x (\<lambda>a. bind_res (concat_res xs) (\<lambda>b. Inr (a @ b)))"

definition own_reads :: "scope list \<Rightarrow> node \<Rightarrow> env_read list" where
  "own_reads scopes n = (case n of
     Call func as _ line \<Rightarrow> if is_env_read_call func \<and> as \<noteq> [] then [\<lparr>er_name = resolve scopes (hd as), er_line = line\<rparr>] else []
   | Subscript value s line \<Rightarrow> if is_environ_subscript value then [\<lparr>er_name = resolve scopes s, er_line = line\<rparr>] else []
   | _ \<Rightarrow> [])"

definition enter :: "scope list \<Rightarrow> node \<Rightarrow> scope list res" where
  "enter scopes n = (case n of
     FunctionDef args _ _ _ _ \<Rightarrow> bind_res (collect_param_defaults args) (\<lambda>d. Inr (d # scopes))
   | _ \<Rightarrow> Inr scopes)"

function visit :: "scope list \<Rightarrow> node \<Rightarrow> env_read list res" where
  "visit scopes n = bind_res (enter scopes n) (\<lambda>inner.
     bind_res (concat_res (map (visit inner) (children n))) (\<lambda>rs. Inr (own_reads scopes n @ rs)))"
  by auto
termination by (relation "measure (size \<circ> snd)") (simp_all add: size_child)

declare visit.simps [simp del]

definition extract_env_reads :: "node \<Rightarrow> env_read list res" where
  "extract_env_reads tree = visit [[]] tree"

text \<open>
  The credential-isolation lint (\<open>lint/credential\_isolation.py\<close>): the module graph of a source tree, the
  breadth-first search from a boundary module, and the audit. A source file is its path relative to the
  root, as parts, with its syntax tree, or none when it does not parse.
\<close>

section \<open>Boundaries and violations\<close>

record boundary =
  bd_module :: string
  bd_prefixes :: "string list"

definition make_boundary :: "string \<Rightarrow> string list \<Rightarrow> boundary res" where
  "make_boundary m ps = (if m = [] then Inl ValueError
     else if ps = [] then Inl ValueError
     else if list_ex (\<lambda>p. p = []) ps then Inl ValueError
     else Inr \<lparr>bd_module = m, bd_prefixes = ps\<rparr>)"

record violation =
  vi_boundary :: string
  vi_prefix :: string
  vi_env_var :: string
  vi_site :: string
  vi_path :: "string list"

definition data_side_prefixes :: "string list" where
  "data_side_prefixes = [''JQUANTS_'', ''EDINET_'', ''EDINETDB_'', ''POLYMARKET_'', ''YFINANCE_'']"

definition default_boundaries :: "boundary list" where
  "default_boundaries =
     [\<lparr>bd_module = ''caqrs.execution.paper_broker'', bd_prefixes = [''LIVE_BROKER_'']\<rparr>,
      \<lparr>bd_module = ''caqrs.execution.live_broker_alpaca'', bd_prefixes = data_side_prefixes\<rparr>]"

section \<open>The module graph\<close>

type_synonym source_file = "string list \<times> node option"

record module_info =
  mi_name :: string
  mi_path :: "string list"
  mi_imports :: "string list"
  mi_env_reads :: "env_read list"

type_synonym graph = "(string \<times> module_info) list"

definition module_parts :: "string list \<Rightarrow> string list" where
  "module_parts parts = (if last parts = ''__init__.py'' then butlast parts
     else butlast parts @ [take (length (last parts) - 3) (last parts)])"

definition add_module :: "source_file \<Rightarrow> graph \<Rightarrow> graph res" where
  "add_module f g = (case f of (parts, parsed) \<Rightarrow>
     let rel = module_parts parts; name = dotted rel in
     if rel = [] then Inr g
     else (case parsed of None \<Rightarrow> Inr g
       | Some tree \<Rightarrow> bind_res (extract_env_reads tree) (\<lambda>reads.
           Inr (AList.update name \<lparr>mi_name = name, mi_path = parts, mi_imports = extract_imports tree name,
             mi_env_reads = reads\<rparr> g))))"

fun add_modules :: "source_file list \<Rightarrow> graph \<Rightarrow> graph res" where
  "add_modules [] g = Inr g"
| "add_modules (f # fs) g = bind_res (add_module f g) (add_modules fs)"

definition walk_modules :: "source_file list \<Rightarrow> graph res" where
  "walk_modules files = add_modules (sort_key fst files) []"

section \<open>Reachability\<close>

type_synonym paths = "(string \<times> string list) list"

definition bfs_target :: "graph \<Rightarrow> string \<Rightarrow> string \<Rightarrow> paths \<times> string list \<Rightarrow> paths \<times> string list" where
  "bfs_target g current target = (\<lambda>(paths, queue).
     if map_of paths target \<noteq> None \<or> map_of g target = None then (paths, queue)
     else (AList.update target (the (map_of paths current) @ [target]) paths, queue @ [target]))"

definition unseen :: "graph \<Rightarrow> paths \<Rightarrow> nat" where
  "unseen g paths = card (set (map fst g) - set (map fst paths))"

abbreviation bfs_measure :: "graph \<Rightarrow> paths \<times> string list \<Rightarrow> nat" where
  "bfs_measure g s \<equiv> (case s of (paths, queue) \<Rightarrow> unseen g paths + length queue)"

lemma keys_update: "fst ` set (AList.update k v al) = insert k (fst ` set al)"
  by (simp add: dom_update)

lemma unseen_target: "bfs_measure g (bfs_target g c t s) = bfs_measure g s"
proof (cases s)
  case (Pair p q)
  show ?thesis
  proof (cases "map_of p t \<noteq> None \<or> map_of g t = None")
    case False
    then have "t \<in> fst ` set g - fst ` set p" by (auto simp: map_of_eq_None_iff)
    then have "Suc (card (fst ` set g - insert t (fst ` set p))) = card (fst ` set g - fst ` set p)"
      using card_Suc_Diff1 [of "fst ` set g - fst ` set p" t] by (simp only: Diff_insert [symmetric] finite_Diff finite_imageI finite_set)
    with False Pair show ?thesis by (simp add: bfs_target_def unseen_def keys_update del: not_None_eq)
  qed (use Pair in \<open>simp add: bfs_target_def\<close>)
qed

lemma unseen_targets: "bfs_measure g (fold (bfs_target g c) ts s) = bfs_measure g s"
  by (induction ts arbitrary: s) (simp_all add: unseen_target)

function bfs_loop :: "graph \<Rightarrow> paths \<Rightarrow> string list \<Rightarrow> paths" where
  "bfs_loop g paths [] = paths"
| "bfs_loop g paths (current # queue) = (case map_of g current of
     None \<Rightarrow> bfs_loop g paths queue
   | Some info \<Rightarrow> (case fold (bfs_target g current) (sort (mi_imports info)) (paths, queue) of
       (paths', queue') \<Rightarrow> bfs_loop g paths' queue'))"
  by pat_completeness auto
termination
  by (relation "measure (\<lambda>(g, paths, queue). unseen g paths + length queue)")
    (auto simp: unseen_targets)

definition bfs_reachable :: "graph \<Rightarrow> string \<Rightarrow> paths" where
  "bfs_reachable g root = bfs_loop g [(root, [root])] [root]"

section \<open>The audit\<close>

definition starts_with :: "string \<Rightarrow> string \<Rightarrow> bool" where
  "starts_with s p = (take (length p) s = p)"

definition read_violations :: "boundary \<Rightarrow> string \<Rightarrow> string list \<Rightarrow> env_read \<Rightarrow> violation list" where
  "read_violations b name path r = (case er_name r of None \<Rightarrow> []
     | Some var \<Rightarrow> (case find (starts_with var) (bd_prefixes b) of None \<Rightarrow> []
       | Some p \<Rightarrow> [\<lparr>vi_boundary = bd_module b, vi_prefix = p, vi_env_var = var, vi_site = name, vi_path = path\<rparr>]))"

definition boundary_violations :: "graph \<Rightarrow> boundary \<Rightarrow> violation list" where
  "boundary_violations g b = (if map_of g (bd_module b) = None then []
     else concat (map (\<lambda>(name, path). concat (map (read_violations b name path) (mi_env_reads (the (map_of g name)))))
       (bfs_reachable g (bd_module b))))"

definition violation_key :: "violation \<Rightarrow> string \<times> string \<times> string" where
  "violation_key v = (vi_boundary v, vi_env_var v, vi_site v)"

definition audit_credential_isolation :: "source_file list \<Rightarrow> boundary list \<Rightarrow> violation list res" where
  "audit_credential_isolation files bs = bind_res (walk_modules files) (\<lambda>g.
     Inr (sort_key violation_key (concat (map (boundary_violations g) bs))))"

end
