(* ===== verification/Lint_Laws.thy ===== *)
theory Lint_Laws
  imports Credential_Lint
begin

text \<open>
  The credential lint finds what it looks for: the search visits exactly the modules a chain of imports
  leads to, each with a shortest chain, and the audit reports exactly their forbidden reads, sorted.
\<close>

section \<open>Chains of imports\<close>

definition edge :: "graph \<Rightarrow> string \<Rightarrow> string \<Rightarrow> bool" where
  "edge g u v \<longleftrightarrow> (case map_of g u of None \<Rightarrow> False
     | Some info \<Rightarrow> v \<in> set (mi_imports info) \<and> map_of g v \<noteq> None)"

definition import_chain :: "graph \<Rightarrow> string \<Rightarrow> string list \<Rightarrow> string \<Rightarrow> bool" where
  "import_chain g root path m \<longleftrightarrow> path \<noteq> [] \<and> hd path = root \<and> last path = m \<and> successively (edge g) path"

lemma chain_root: "import_chain g root [root] root"
  by (simp add: import_chain_def)

lemma chain_step: "import_chain g root p u \<Longrightarrow> edge g u v \<Longrightarrow> import_chain g root (p @ [v]) v"
  by (auto simp: import_chain_def successively_append_iff)

lemma chain_cases:
  assumes "import_chain g root p m"
  obtains (root) "p = [root]" "m = root"
  | (step) q u where "p = q @ [m]" "import_chain g root q u" "edge g u m"
proof (cases p rule: rev_cases)
  case (snoc q x)
  show ?thesis
  proof (cases "q = []")
    case False
    with assms snoc show ?thesis
      by (intro step [of q "last q"]) (auto simp: import_chain_def successively_append_iff)
  next
    case True
    with assms snoc show ?thesis by (intro root) (auto simp: import_chain_def)
  qed
qed (use assms in \<open>simp add: import_chain_def\<close>)

lemma chain_reach: "(\<exists>p. import_chain g root p m) \<longleftrightarrow> (edge g)\<^sup>*\<^sup>* root m"
proof
  assume "(edge g)\<^sup>*\<^sup>* root m"
  then show "\<exists>p. import_chain g root p m"
    by (induction rule: rtranclp_induct) (blast intro: chain_root chain_step)+
next
  assume "\<exists>p. import_chain g root p m"
  then obtain p where "import_chain g root p m" ..
  then show "(edge g)\<^sup>*\<^sup>* root m"
  proof (induction p arbitrary: m rule: rev_induct)
    case (snoc v p)
    from snoc.prems show ?case
      by (rule chain_cases) (auto dest: snoc.IH)
  qed (simp add: import_chain_def)
qed

section \<open>The invariant of the search\<close>

abbreviation dist :: "paths \<Rightarrow> string \<Rightarrow> nat" where
  "dist P m \<equiv> length (the (map_of P m))"

text \<open>\<open>T\<close> are the edges of \<open>c\<close>, the module being expanded, that are still to be followed.\<close>

definition found :: "graph \<Rightarrow> string \<Rightarrow> paths \<Rightarrow> string list \<Rightarrow> bool" where
  "found g root P Q \<longleftrightarrow> map_of P root = Some [root] \<and> (\<forall>m p. map_of P m = Some p \<longrightarrow> import_chain g root p m) \<and>
     set Q \<subseteq> dom (map_of P) \<and> distinct (map fst P)"

definition closed_but :: "graph \<Rightarrow> paths \<Rightarrow> string list \<Rightarrow> string \<Rightarrow> string set \<Rightarrow> bool" where
  "closed_but g P Q c T \<longleftrightarrow> (\<forall>u v. u \<in> dom (map_of P) - set Q \<and> edge g u v \<longrightarrow>
     (u = c \<and> v \<in> T) \<or> (v \<in> dom (map_of P) \<and> dist P v \<le> Suc (dist P u)))"

definition expanding :: "graph \<Rightarrow> string \<Rightarrow> string \<Rightarrow> nat \<Rightarrow> string set \<Rightarrow> paths \<times> string list \<Rightarrow> bool" where
  "expanding g root c n T s \<longleftrightarrow> (case s of (P, Q) \<Rightarrow> found g root P Q \<and> closed_but g P Q c T \<and>
     c \<in> dom (map_of P) \<and> dist P c = n \<and> sorted (map (dist P) Q) \<and> (\<forall>q\<in>set Q. n \<le> dist P q) \<and>
     (\<forall>m\<in>dom (map_of P). dist P m \<le> Suc n))"

definition searching :: "graph \<Rightarrow> string \<Rightarrow> paths \<Rightarrow> string list \<Rightarrow> bool" where
  "searching g root P Q \<longleftrightarrow> found g root P Q \<and> closed_but g P Q root {} \<and> sorted (map (dist P) Q) \<and>
     (Q \<noteq> [] \<longrightarrow> (\<forall>m\<in>dom (map_of P). dist P m \<le> Suc (dist P (hd Q))))"

lemma expanding_step:
  assumes e: "expanding g root c n T s" and imp: "\<And>info. map_of g c = Some info \<Longrightarrow> t \<in> set (mi_imports info)"
    and c: "map_of g c \<noteq> None"
  shows "expanding g root c n (T - {t}) (bfs_target g c t s)"
proof -
  obtain P Q where s: "s = (P, Q)" by fastforce
  note e = e [unfolded s expanding_def prod.case]
  show ?thesis
  proof (cases "map_of P t \<noteq> None \<or> map_of g t = None")
    case True
    have "closed_but g P Q c (T - {t})"
      unfolding closed_but_def
    proof (intro allI impI)
      fix u v assume uv: "u \<in> dom (map_of P) - set Q \<and> edge g u v"
      then consider "u = c" "v \<in> T" | "v \<in> dom (map_of P)" "dist P v \<le> Suc (dist P u)"
        using e by (auto simp: closed_but_def)
      then show "(u = c \<and> v \<in> T - {t}) \<or> (v \<in> dom (map_of P) \<and> dist P v \<le> Suc (dist P u))"
      proof cases
        case 1
        show ?thesis
        proof (cases "v = t")
          case t: True
          with uv True have "t \<in> dom (map_of P)" by (auto simp: edge_def split: option.splits)
          moreover from this e have "dist P t \<le> Suc (dist P c)" by auto
          ultimately show ?thesis using t 1 by simp
        qed (use 1 in simp)
      qed simp
    qed
    then show ?thesis using True e by (auto simp: s expanding_def bfs_target_def)
  next
    case False
    obtain pc where pc: "map_of P c = Some pc" "length pc = n" using e by auto
    let ?P = "AList.update t (pc @ [t]) P"
    have new: "map_of ?P m = (if m = t then Some (pc @ [t]) else map_of P m)" for m
      by (simp add: map_of_update)
    have tQ: "t \<notin> set Q" "t \<noteq> root" "t \<noteq> c" using False e by (auto simp: found_def)
    have tc: "edge g c t" using False c imp by (auto simp: edge_def split: option.split)
    have "import_chain g root (pc @ [t]) t"
      using e tc pc by (auto simp: found_def intro!: chain_step)
    then have f: "found g root ?P (Q @ [t])"
      using e tQ by (auto simp: found_def new distinct_keys_update simp del: map_of_eq_Some_iff split: if_splits)
    have d: "dist ?P m = dist P m" if "m \<noteq> t" for m using that by (simp add: new)
    have dt: "dist ?P t = Suc n" using pc by (simp add: new)
    have "closed_but g ?P (Q @ [t]) c (T - {t})"
      unfolding closed_but_def
    proof (intro allI impI)
      fix u v assume uv: "u \<in> dom (map_of ?P) - set (Q @ [t]) \<and> edge g u v"
      then have u: "u \<noteq> t" "u \<in> dom (map_of P) - set Q" by (auto simp: new split: if_splits)
      with uv e have "(u = c \<and> v \<in> T) \<or> (v \<in> dom (map_of P) \<and> dist P v \<le> Suc (dist P u))"
        by (auto simp: closed_but_def)
      then show "(u = c \<and> v \<in> T - {t}) \<or> (v \<in> dom (map_of ?P) \<and> dist ?P v \<le> Suc (dist ?P u))"
        using pc False u(1) by (cases "v = t") (auto simp: new)
    qed
    moreover have "map (dist ?P) Q = map (dist P) Q" using tQ by (intro map_cong refl d) auto
    then have "map (dist ?P) (Q @ [t]) = map (dist P) Q @ [Suc n]" using dt by simp
    moreover have "\<forall>q\<in>set Q. dist P q \<le> Suc n" "sorted (map (dist P) Q)" using e by (auto simp: found_def)
    then have "sorted (map (dist P) Q @ [Suc n])" by (simp add: sorted_append)
    moreover have "\<forall>q\<in>set (Q @ [t]). n \<le> dist ?P q" "\<forall>m\<in>dom (map_of ?P). dist ?P m \<le> Suc n"
      using e tQ dt pc by (auto simp: new split: if_splits)
    ultimately show ?thesis
      using f False tQ pc by (simp add: s expanding_def bfs_target_def new domIff del: not_None_eq map_append)
  qed
qed

lemma expanding_fold:
  assumes "expanding g root c n T s" and "map_of g c = Some info" and "set ts \<subseteq> set (mi_imports info)"
  shows "expanding g root c n (T - set ts) (fold (bfs_target g c) ts s)"
  using assms
proof (induction ts arbitrary: T s)
  case (Cons t ts)
  then have "expanding g root c n (T - {t}) (bfs_target g c t s)" by (auto intro!: expanding_step)
  with Cons have "expanding g root c n (T - {t} - set ts) (fold (bfs_target g c) ts (bfs_target g c t s))" by simp
  then show ?case by (simp add: Diff_insert [symmetric] Diff_insert2 [symmetric])
qed simp

lemma search_ends:
  "searching g root P Q \<Longrightarrow> searching g root (bfs_loop g P Q) []"
proof (induction g P Q rule: bfs_loop.induct)
  case (2 g P c Q)
  let ?n = "dist P c"
  have s: "found g root P (c # Q)" "closed_but g P (c # Q) root {}" "sorted (map (dist P) (c # Q))"
    "\<forall>m\<in>dom (map_of P). dist P m \<le> Suc ?n"
    using "2.prems" by (simp_all add: searching_def)
  have e: "expanding g root c ?n {v. edge g c v} (P, Q)"
    using s by (auto simp: expanding_def found_def closed_but_def)
  show ?case
  proof (cases "map_of g c")
    case None
    then have "{v. edge g c v} = {}" by (simp add: edge_def)
    with e have "searching g root P Q"
      by (cases Q) (auto simp: expanding_def searching_def closed_but_def intro: order_trans)
    with None "2.IH"(1) show ?thesis by simp
  next
    case (Some info)
    let ?s = "fold (bfs_target g c) (sort (mi_imports info)) (P, Q)"
    have "expanding g root c ?n ({v. edge g c v} - set (mi_imports info)) ?s"
      using expanding_fold [OF e Some, of "sort (mi_imports info)"] by simp
    moreover have "{v. edge g c v} - set (mi_imports info) = {}" using Some by (auto simp: edge_def)
    ultimately obtain P' Q' where s': "?s = (P', Q')" and e': "expanding g root c ?n {} (P', Q')"
      by (metis prod.collapse)
    then have "searching g root P' Q'"
      by (cases Q') (auto simp: expanding_def searching_def closed_but_def intro: order_trans)
    with Some s' "2.IH"(2) [OF Some s' [symmetric]] show ?thesis by simp
  qed
qed simp

lemma search_start: "searching g root [(root, [root])] [root]"
  by (auto simp: searching_def found_def closed_but_def chain_root)

lemma found_all:
  assumes "searching g root P []" and "import_chain g root p m"
  shows "m \<in> dom (map_of P) \<and> dist P m \<le> length p"
  using assms(2)
proof (induction p arbitrary: m rule: rev_induct)
  case (snoc v p)
  from snoc.prems show ?case
  proof (cases rule: chain_cases)
    case root
    with assms(1) show ?thesis by (auto simp: searching_def found_def)
  next
    case (step q u)
    with snoc have "u \<in> dom (map_of P)" "dist P u \<le> length p" by auto
    moreover have "m \<in> dom (map_of P) \<and> dist P m \<le> Suc (dist P u)"
      using assms(1) step(3) calculation(1) by (auto simp: searching_def closed_but_def)
    ultimately show ?thesis by simp
  qed
qed (simp add: import_chain_def)

lemma bfs_search: "searching g root (bfs_reachable g root) []"
  unfolding bfs_reachable_def by (rule search_ends [OF search_start])

lemma bfs_chain: "map_of (bfs_reachable g root) m = Some p \<Longrightarrow> import_chain g root p m"
  using bfs_search by (auto simp: searching_def found_def)

lemma bfs_dom: "map_of (bfs_reachable g root) m \<noteq> None \<longleftrightarrow> (edge g)\<^sup>*\<^sup>* root m"
  using found_all [OF bfs_search] bfs_chain unfolding chain_reach [symmetric] by blast

section \<open>The modules of a tree\<close>

definition file_module :: "source_file \<Rightarrow> string" where
  "file_module f = dotted (module_parts (fst f))"

definition module_of :: "source_file list \<Rightarrow> string \<Rightarrow> node \<Rightarrow> bool" where
  "module_of files m tree \<longleftrightarrow> (\<exists>parts. (parts, Some tree) \<in> set files \<and> module_parts parts \<noteq> [] \<and> dotted (module_parts parts) = m)"

lemma add_modules_graph:
  assumes "add_modules fs g = Inr h" and "distinct (map file_module fs)"
  shows "\<forall>m. (m \<notin> file_module ` set fs \<longrightarrow> map_of h m = map_of g m) \<and>
    (\<forall>tree. module_of fs m tree \<longrightarrow> (\<exists>info. map_of h m = Some info \<and> mi_imports info = extract_imports tree m \<and>
      extract_env_reads tree = Inr (mi_env_reads info)))"
  using assms
proof (induction fs g rule: add_modules.induct)
  case (2 f fs g)
  from "2.prems" obtain g1 where g1: "add_module f g = Inr g1" "add_modules fs g1 = Inr h"
    by (auto simp: bind_res_Inr_iff)
  obtain parts parsed where f: "f = (parts, parsed)" by fastforce
  note IH = "2.IH" [OF g1(2)]
  have one: "(m \<noteq> file_module f \<longrightarrow> map_of g1 m = map_of g m) \<and>
      (m = file_module f \<and> module_parts parts \<noteq> [] \<and> parsed = Some tree \<longrightarrow>
        (\<exists>info. map_of g1 m = Some info \<and> mi_imports info = extract_imports tree m \<and>
          extract_env_reads tree = Inr (mi_env_reads info)))" for m tree
    using g1(1) by (auto simp: f file_module_def add_module_def Let_def bind_res_Inr_iff map_of_update
        split: if_splits option.splits)
  show ?case
  proof (intro allI conjI impI)
    fix m assume "m \<notin> file_module ` set (f # fs)"
    with IH "2.prems"(2) one [of m] show "map_of h m = map_of g m" by simp
  next
    fix m tree assume "module_of (f # fs) m tree"
    then consider "module_of fs m tree" | "m = file_module f" "module_parts parts \<noteq> []" "parsed = Some tree"
      by (auto simp: module_of_def f file_module_def)
    then show "\<exists>info. map_of h m = Some info \<and> mi_imports info = extract_imports tree m \<and>
        extract_env_reads tree = Inr (mi_env_reads info)"
    proof cases
      case 1
      with IH "2.prems"(2) show ?thesis by simp
    next
      case 2
      then have "map_of h m = map_of g1 m" using IH "2.prems"(2) by simp
      with 2 one [of m tree] show ?thesis by simp
    qed
  qed
qed (simp add: module_of_def)

lemma module_of_sorted: "module_of (sort_key fst files) = module_of files"
  by (simp add: fun_eq_iff module_of_def)

lemma walk_modules_graph:
  assumes "walk_modules files = Inr g" and "distinct (map file_module files)" and "module_of files m tree"
  shows "\<exists>info. map_of g m = Some info \<and> mi_imports info = extract_imports tree m \<and>
    extract_env_reads tree = Inr (mi_env_reads info)"
proof -
  have "distinct (map file_module (sort_key fst files))"
    using assms(2) by (simp add: distinct_map)
  from add_modules_graph [OF assms(1) [unfolded walk_modules_def] this] assms(3) show ?thesis
    by (simp add: module_of_sorted)
qed

section \<open>Reads that are written out\<close>

definition os_environ :: node where
  "os_environ = Attribute (Name ''os'') ''environ''"

definition literal_read :: "node \<Rightarrow> string option" where
  "literal_read n = (case n of
     Call func (Constant v # _) _ _ \<Rightarrow>
       if func \<in> {Attribute os_environ ''get'', Attribute (Name ''os'') ''getenv''} then v else None
   | Subscript value (Constant v) _ \<Rightarrow> if value = os_environ then v else None
   | _ \<Rightarrow> None)"

lemma env_read_forms:
  "is_env_read_call func \<longleftrightarrow> func \<in> {Attribute os_environ ''get'', Attribute (Name ''os'') ''getenv''}"
  "is_environ_subscript value \<longleftrightarrow> value = os_environ"
proof -
  have name: "is_name n s \<longleftrightarrow> n = Name s" for n s by (cases n) (auto simp: is_name_def)
  have env: "is_environ n \<longleftrightarrow> n = os_environ" for n by (cases n) (auto simp: is_environ_def os_environ_def name)
  show "is_env_read_call func \<longleftrightarrow> func \<in> {Attribute os_environ ''get'', Attribute (Name ''os'') ''getenv''}"
    by (cases func) (auto simp: is_env_read_call_def name env)
  show "is_environ_subscript value \<longleftrightarrow> value = os_environ" by (simp add: is_environ_subscript_def env)
qed

lemma own_literal: "literal_read n = Some x \<Longrightarrow> \<exists>r\<in>set (own_reads scopes n). er_name r = Some x"
  by (auto simp: literal_read_def own_reads_def env_read_forms split: node.splits list.splits if_splits)

lemma concat_res_member: "concat_res xs = Inr ys \<Longrightarrow> x \<in> set xs \<Longrightarrow> \<exists>zs. x = Inr zs \<and> set zs \<subseteq> set ys"
  by (induction xs arbitrary: ys) (auto simp: bind_res_Inr_iff, fastforce)

lemma visit_literal:
  "visit scopes tree = Inr rs \<Longrightarrow> n \<in> set (walk tree) \<Longrightarrow> literal_read n = Some x \<Longrightarrow> \<exists>r\<in>set rs. er_name r = Some x"
proof (induction scopes tree arbitrary: rs rule: visit.induct)
  case (1 scopes tree)
  from "1.prems"(1) obtain inner ms where v: "enter scopes tree = Inr inner"
    "concat_res (map (visit inner) (children tree)) = Inr ms" "rs = own_reads scopes tree @ ms"
    by (subst (asm) visit.simps) (auto simp: bind_res_Inr_iff)
  from "1.prems"(2) consider "n = tree" | c where "c \<in> set (children tree)" "n \<in> set (walk c)"
    by (subst (asm) walk.simps) auto
  then show ?case
  proof cases
    case 1
    with own_literal [OF "1.prems"(3)] v show ?thesis by auto
  next
    case 2
    then have "visit inner c \<in> set (map (visit inner) (children tree))" by simp
    from concat_res_member [OF v(2) this] obtain zs where "visit inner c = Inr zs" "set zs \<subseteq> set ms" by blast
    with "1.IH" [OF 2(1) _ 2(2) "1.prems"(3)] v(3) show ?thesis by fastforce
  qed
qed

section \<open>The audit\<close>

definition reported :: "graph \<Rightarrow> boundary \<Rightarrow> violation \<Rightarrow> bool" where
  "reported g b v \<longleftrightarrow> map_of g (bd_module b) \<noteq> None \<and> vi_boundary v = bd_module b \<and>
     map_of (bfs_reachable g (bd_module b)) (vi_site v) = Some (vi_path v) \<and>
     (\<exists>r\<in>set (mi_env_reads (the (map_of g (vi_site v)))). er_name r = Some (vi_env_var v) \<and>
       find (starts_with (vi_env_var v)) (bd_prefixes b) = Some (vi_prefix v))"

lemma read_violations_iff: "v \<in> set (read_violations b name path r) \<longleftrightarrow>
    vi_boundary v = bd_module b \<and> vi_site v = name \<and> vi_path v = path \<and> er_name r = Some (vi_env_var v) \<and>
    find (starts_with (vi_env_var v)) (bd_prefixes b) = Some (vi_prefix v)"
  by (cases v) (auto simp: read_violations_def split: option.splits)

lemma paths_distinct: "distinct (map fst (bfs_reachable g root))"
  using bfs_search [of g root] by (simp add: searching_def found_def)

lemma boundary_violations_iff: "v \<in> set (boundary_violations g b) \<longleftrightarrow> reported g b v"
proof -
  have "(name, path) \<in> set (bfs_reachable g (bd_module b)) \<longleftrightarrow> map_of (bfs_reachable g (bd_module b)) name = Some path" for name path
    using paths_distinct by (simp add: map_of_eq_Some_iff)
  then show ?thesis
    by (force simp: boundary_violations_def reported_def read_violations_iff)
qed

definition imports_module :: "source_file list \<Rightarrow> string \<Rightarrow> string \<Rightarrow> bool" where
  "imports_module files u v \<longleftrightarrow> (\<exists>t t'. module_of files u t \<and> v \<in> set (extract_imports t u) \<and> module_of files v t')"

lemma imports_edge:
  assumes "walk_modules files = Inr g" and "distinct (map file_module files)" and "imports_module files u v"
  shows "edge g u v"
proof -
  obtain t t' where t: "module_of files u t" "v \<in> set (extract_imports t u)" "module_of files v t'"
    using assms(3) by (auto simp: imports_module_def)
  from walk_modules_graph [OF assms(1,2) t(1)] walk_modules_graph [OF assms(1,2) t(3)] t(2) show ?thesis
    by (auto simp: edge_def)
qed

lemma imports_reach:
  assumes "walk_modules files = Inr g" and "distinct (map file_module files)" and "(imports_module files)\<^sup>*\<^sup>* u v"
  shows "(edge g)\<^sup>*\<^sup>* u v"
  using assms(3) by (induction rule: rtranclp_induct) (auto intro: rtranclp.rtrancl_into_rtrancl imports_edge [OF assms(1,2)])

section \<open>The properties\<close>

text \<open>C32. The search over the module graph is exact and finds shortest chains. From any root it visits
  every module some chain of imports inside the graph leads to, and no other, each once, and the path it
  keeps for a module is such a chain, of the least length.\<close>

theorem shortest_chains:
  "distinct (map fst (bfs_reachable g root)) \<and>
   (case map_of (bfs_reachable g root) m of
      None \<Rightarrow> \<not> (edge g)\<^sup>*\<^sup>* root m
    | Some p \<Rightarrow> import_chain g root p m \<and> length p = (LEAST n. \<exists>q. import_chain g root q m \<and> length q = n))"
proof (cases "map_of (bfs_reachable g root) m")
  case None
  with bfs_dom [of g root m] show ?thesis by (simp add: paths_distinct)
next
  case (Some p)
  then have p: "import_chain g root p m" by (rule bfs_chain)
  have "length p \<le> length q" if "import_chain g root q m" for q
    using found_all [OF bfs_search that] Some by auto
  then have "(LEAST n. \<exists>q. import_chain g root q m \<and> length q = n) = length p"
    using p by (intro Least_equality) auto
  with Some p show ?thesis by (simp add: paths_distinct)
qed

lemma audit_Inr: "audit_credential_isolation files bs = Inr vs \<Longrightarrow>
    \<exists>g. walk_modules files = Inr g \<and> set vs = (\<Union>b\<in>set bs. {v. reported g b v})"
  by (cases "walk_modules files") (auto simp: audit_credential_isolation_def boundary_violations_iff)

text \<open>The audit is exact. It raises when a module cannot be read off, and otherwise returns, sorted
  by boundary, variable and module, exactly one report for each boundary in the graph and each read of a
  known variable, in a module the boundary reaches, whose name starts with a forbidden prefix (the first
  of them is reported), with the chain of imports the search has found.\<close>

theorem audit_exact:
  "case walk_modules files of
     Inl e \<Rightarrow> audit_credential_isolation files bs = Inl e
   | Inr g \<Rightarrow> \<exists>vs. audit_credential_isolation files bs = Inr vs \<and> sorted (map violation_key vs) \<and>
       set vs = (\<Union>b\<in>set bs. {v. reported g b v})"
  by (auto simp: audit_credential_isolation_def boundary_violations_iff split: sum.split)

text \<open>C33. No read that is written out is missed. If a boundary module of the tree leads by imports to a
  module that contains, at any depth, \<open>os.environ["X"]\<close>, \<open>os.environ.get("X", ...)\<close> or
  \<open>os.getenv("X", ...)\<close> with a name that starts with a forbidden prefix, then an audit that returns
  reports that variable in that module for that boundary. The names of the modules are distinct.\<close>

theorem literal_reads_reported:
  assumes "audit_credential_isolation files bs = Inr vs" and "distinct (map file_module files)"
    and "b \<in> set bs" and "module_of files (bd_module b) t" and "(imports_module files)\<^sup>*\<^sup>* (bd_module b) m"
    and "module_of files m tree" and "n \<in> set (walk tree)" and "literal_read n = Some x"
    and "p \<in> set (bd_prefixes b)" and "starts_with x p"
  shows "\<exists>v\<in>set vs. vi_boundary v = bd_module b \<and> vi_env_var v = x \<and> vi_site v = m"
proof -
  obtain g where g: "walk_modules files = Inr g" and vs: "set vs = (\<Union>b\<in>set bs. {v. reported g b v})"
    using audit_Inr [OF assms(1)] by metis
  note graph = walk_modules_graph [OF g assms(2)]
  obtain path where path: "map_of (bfs_reachable g (bd_module b)) m = Some path"
    using imports_reach [OF g assms(2,5)] bfs_dom [of g "bd_module b" m] by auto
  obtain info where info: "map_of g m = Some info" "extract_env_reads tree = Inr (mi_env_reads info)"
    using graph [OF assms(6)] by blast
  then obtain r where r: "r \<in> set (mi_env_reads info)" "er_name r = Some x"
    using visit_literal [OF _ assms(7,8)] by (auto simp: extract_env_reads_def)
  obtain p' where "find (starts_with x) (bd_prefixes b) = Some p'"
    using assms(9,10) by (cases "find (starts_with x) (bd_prefixes b)") (auto simp: find_None_iff)
  with path info r graph [OF assms(4)]
  have "reported g b \<lparr>vi_boundary = bd_module b, vi_prefix = p', vi_env_var = x, vi_site = m, vi_path = path\<rparr>"
    by (auto simp: reported_def)
  with vs assms(3) show ?thesis by fastforce
qed

section \<open>Samples\<close>

text \<open>A broker that imports a helper that reads a live credential.\<close>

definition environ_read :: "string \<Rightarrow> node" where
  "environ_read x = Subscript (Attribute (Name ''os'') ''environ'') (Constant (Some x)) 2"

definition leak_files :: "source_file list" where
  "leak_files =
     [([''pkg'', ''broker.py''], Some (Other [ImportFrom (Some ''pkg.helper'') [''KEY''] 0])),
      ([''pkg'', ''helper.py''], Some (Other [Import [''os''], Other [environ_read ''LIVE_BROKER_API_KEY'']]))]"

definition leak_boundary :: boundary where
  "leak_boundary = \<lparr>bd_module = ''pkg.broker'', bd_prefixes = [''LIVE_BROKER_'']\<rparr>"

lemma leak_audit: "audit_credential_isolation leak_files [leak_boundary] =
    Inr [\<lparr>vi_boundary = ''pkg.broker'', vi_prefix = ''LIVE_BROKER_'', vi_env_var = ''LIVE_BROKER_API_KEY'',
          vi_site = ''pkg.helper'', vi_path = [''pkg.broker'', ''pkg.helper'']\<rparr>]"
  by code_simp

theorem literal_reads_reported_witness:
  "\<exists>vs. audit_credential_isolation leak_files [leak_boundary] = Inr vs \<and>
     (\<exists>v\<in>set vs. vi_env_var v = ''LIVE_BROKER_API_KEY'' \<and> vi_site v = ''pkg.helper'')"
proof -
  have names: "map file_module leak_files = [''pkg.broker'', ''pkg.helper'']" by code_simp
  have broker: "module_of leak_files ''pkg.broker'' (Other [ImportFrom (Some ''pkg.helper'') [''KEY''] 0])"
    unfolding module_of_def by (intro exI [of _ "[''pkg'', ''broker.py'']"] conjI; code_simp)
  have helper: "module_of leak_files ''pkg.helper'' (Other [Import [''os''], Other [environ_read ''LIVE_BROKER_API_KEY'']])"
    unfolding module_of_def by (intro exI [of _ "[''pkg'', ''helper.py'']"] conjI; code_simp)
  have "''pkg.helper'' \<in> set (extract_imports (Other [ImportFrom (Some ''pkg.helper'') [''KEY''] 0]) ''pkg.broker'')"
    by code_simp
  with broker helper have "(imports_module leak_files)\<^sup>*\<^sup>* ''pkg.broker'' ''pkg.helper''"
    by (intro r_into_rtranclp) (auto simp: imports_module_def)
  moreover have "environ_read ''LIVE_BROKER_API_KEY'' \<in> set (walk (Other [Import [''os''], Other [environ_read ''LIVE_BROKER_API_KEY'']]))"
    by code_simp
  moreover have "literal_read (environ_read ''LIVE_BROKER_API_KEY'') = Some ''LIVE_BROKER_API_KEY''" by code_simp
  ultimately show ?thesis
    using literal_reads_reported [OF leak_audit _ _ _ _ helper, of leak_boundary] names broker leak_audit
    by (simp add: leak_boundary_def starts_with_def)
qed

text \<open>What the lint does not see. An import of \<open>a.b.c\<close> runs \<open>a/\_\_init\_\_.py\<close> and
  \<open>a/b/\_\_init\_\_.py\<close>, but no edge leads to them; a relative import inside a package's
  \<open>\_\_init\_\_.py\<close> is resolved one level too high; a function with a default for a positional-only
  parameter makes the audit raise.\<close>

lemma parent_package_missed:
  "audit_credential_isolation
     [([''pkg'', ''__init__.py''], Some (Other [environ_read ''LIVE_BROKER_API_KEY''])),
      ([''pkg'', ''broker.py''], Some (Other []))] [leak_boundary] = Inr []"
  by code_simp

lemma package_relative_import:
  "extract_imports (ImportFrom None [''helper''] 1) ''a.b'' = [''a'', ''a.helper'']"
  by code_simp

lemma posonly_default_raises:
  "extract_env_reads (FunctionDef (Arguments [Arg ''x'' None] [] None [] [] None [Constant (Some ''A'')]) [] [] None []) =
     Inl ValueError"
  by code_simp

end
