(* ===== verification/Float_Arith.thy ===== *)
theory Float_Arith
  imports Py_Float
begin

text \<open>
  Arithmetic on Python floats, \<open>statistics\<close> and \<open>Decimal(str(x))\<close>, over the rational numbers that floats
  denote (\<open>Py_Float\<close>). An operator computes the exact result and rounds it once; the functions of
  \<open>statistics\<close> compute with exact fractions and round at the end. Rounding is monotone and leaves a
  float as it is, which is what the bounds on computed metrics rest on.
\<close>

section \<open>Operators\<close>

definition fadd :: "rat \<Rightarrow> rat \<Rightarrow> rat" where "fadd x y = fl64 (x + y)"

definition fsub :: "rat \<Rightarrow> rat \<Rightarrow> rat" where "fsub x y = fl64 (x - y)"

definition fmul :: "rat \<Rightarrow> rat \<Rightarrow> rat" where "fmul x y = fl64 (x * y)"

definition fdiv :: "rat \<Rightarrow> rat \<Rightarrow> rat" where "fdiv x y = fl64 (x / y)"

text \<open>\<open>float(d)\<close> of a Decimal.\<close>

definition float_of_dec :: "decimal \<Rightarrow> rat" where
  "float_of_dec d = fl64 (dval d)"

section \<open>Rounding is monotone\<close>

lemma pow2_powi: "pow2 k = 2 powi k"
  by (simp add: pow2_def power_int_def field_simps)

lemma pow2_add: "pow2 (a + b) = pow2 a * pow2 b"
  by (simp add: pow2_powi power_int_add)

lemma pow2_mono: "a \<le> b \<Longrightarrow> pow2 a \<le> pow2 b"
  by (simp add: pow2_powi power_int_increasing)

lemma pow2_less: "pow2 a < pow2 b \<longleftrightarrow> a < b"
  by (metis linorder_not_le pow2_mono pow2_powi power_int_strict_increasing one_less_numeral_iff semiring_norm(76))

lemma nbits_bounds: "0 < n \<Longrightarrow> 2 ^ (nbits n - 1) \<le> n \<and> n < 2 ^ nbits n \<and> 0 < nbits n"
proof (induction n rule: nbits.induct)
  case (1 n)
  show ?case
  proof (cases "n = 1")
    case True
    then show ?thesis by (simp add: nbits.simps)
  next
    case False
    with "1" have IH: "2 ^ (nbits (n div 2) - 1) \<le> n div 2" "n div 2 < 2 ^ nbits (n div 2)" "0 < nbits (n div 2)"
      by auto
    then obtain m where m: "nbits (n div 2) = Suc m" by (cases "nbits (n div 2)") auto
    have "nbits n = Suc (Suc m)" using "1.prems" m by (subst nbits.simps) simp
    moreover have "2 * 2 ^ m \<le> n" using IH(1) m by (simp add: less_eq_div_iff_mult_less_eq)
    moreover have "n < 4 * 2 ^ m" using IH(2) m by (simp add: div_less_iff_less_mult)
    ultimately show ?thesis by simp
  qed
qed

lemma int_bits:
  assumes "0 < n"
  shows "pow2 (int (nbits (nat n)) - 1) \<le> of_int n \<and> of_int n < pow2 (int (nbits (nat n)))"
proof -
  let ?b = "nbits (nat n)"
  have b: "2 ^ (?b - 1) \<le> nat n" "nat n < 2 ^ ?b" "0 < ?b" using nbits_bounds [of "nat n"] assms by simp_all
  have p: "pow2 (int ?b - 1) = of_nat (2 ^ (?b - 1))" "pow2 (int ?b) = of_nat (2 ^ ?b)"
    using b(3) by (simp_all add: pow2_def nat_diff_distrib)
  have "of_int n = (of_nat (nat n) :: rat)" using assms by simp
  then show ?thesis unfolding p using b by (simp only: of_nat_le_iff of_nat_less_iff)
qed

lemma ilog2_bounds:
  assumes "0 < x"
  shows "pow2 (ilog2 x) \<le> x \<and> x < pow2 (ilog2 x + 1)"
proof -
  obtain n d where q: "quotient_of x = (n, d)" by (cases "quotient_of x")
  then have d: "0 < d" and x: "x = of_int n / of_int d"
    by (auto simp: quotient_of_denom_pos quotient_of_div)
  with assms have n: "0 < n" by (simp add: zero_less_divide_iff)
  let ?a = "nbits (nat n)" and ?b = "nbits (nat d)"
  have na: "pow2 (int ?a - 1) \<le> of_int n" "of_int n < pow2 (int ?a)" using int_bits [OF n] by simp_all
  have db: "pow2 (int ?b - 1) \<le> of_int d" "of_int d < pow2 (int ?b)" using int_bits [OF d] by simp_all
  define k where "k = int ?a - int ?b"
  have d': "(0::rat) < of_int d" using d by simp
  have "x < pow2 (k + 1)"
  proof -
    have "pow2 (int ?a) = pow2 (k + 1) * pow2 (int ?b - 1)" by (simp add: k_def flip: pow2_add)
    also have "\<dots> \<le> pow2 (k + 1) * of_int d" using db(1) by (intro mult_left_mono) (simp_all add: less_imp_le)
    finally show ?thesis using na(2) d' by (simp add: x pos_divide_less_eq)
  qed
  moreover have "pow2 (k - 1) < x"
  proof -
    have "pow2 (k - 1) * of_int d < pow2 (k - 1) * pow2 (int ?b)" using db(2) by (intro mult_strict_left_mono) simp_all
    also have "\<dots> = pow2 (int ?a - 1)" by (simp add: k_def flip: pow2_add)
    finally show ?thesis using na(1) d' by (simp add: x pos_less_divide_eq)
  qed
  moreover have "ilog2 x = (if pow2 k \<le> x then k else k - 1)"
    by (simp add: ilog2_def q k_def Let_def)
  ultimately show ?thesis by auto
qed

lemma ilog2_eq: "pow2 k \<le> x \<Longrightarrow> x < pow2 (k + 1) \<Longrightarrow> ilog2 x = k"
proof -
  assume x: "pow2 k \<le> x" "x < pow2 (k + 1)"
  then have "0 < x" using pow2_pos [of k] by linarith
  from ilog2_bounds [OF this] x have "pow2 k < pow2 (ilog2 x + 1)" "pow2 (ilog2 x) < pow2 (k + 1)" by linarith+
  then show ?thesis by (simp add: pow2_less)
qed

lemma round_rat_floor: "round_rat x = (let f = \<lfloor>x\<rfloor>; r = x - of_int f in
    if r < 1 / 2 then f else if 1 / 2 < r then f + 1 else if even f then f else f + 1)"
proof -
  obtain n d where q: "quotient_of x = (n, d)" by (cases "quotient_of x")
  then have d: "0 < d" and x: "x = of_int n / of_int d"
    by (auto simp: quotient_of_denom_pos quotient_of_div)
  have f: "\<lfloor>x\<rfloor> = n div d" by (simp add: x floor_divide_of_int_eq)
  have "of_int n = of_int (n div d) * of_int d + (of_int (n mod d) :: rat)"
    by (simp flip: of_int_mult of_int_add)
  then have r: "x - of_int \<lfloor>x\<rfloor> = of_int (n mod d) / of_int d" using d unfolding f unfolding x by (simp add: field_simps)
  have c: "x - of_int \<lfloor>x\<rfloor> < 1 / 2 \<longleftrightarrow> 2 * (n mod d) < d" "1 / 2 < x - of_int \<lfloor>x\<rfloor> \<longleftrightarrow> d < 2 * (n mod d)"
    unfolding r using d of_int_less_iff [of "2 * (n mod d)" d, where 'a = rat] of_int_less_iff [of d "2 * (n mod d)", where 'a = rat]
    by (simp_all add: pos_divide_less_eq pos_less_divide_eq mult.commute [of _ 2])
  show ?thesis unfolding round_rat_def q prod.case half_even_def Let_def c unfolding f by simp
qed

lemma round_rat_int [simp]: "round_rat (of_int n) = n"
  by (simp add: round_rat_floor Let_def)

lemma round_rat_mono: "x \<le> y \<Longrightarrow> round_rat x \<le> round_rat y"
proof -
  assume xy: "x \<le> y"
  have near: "\<lfloor>z\<rfloor> \<le> round_rat z \<and> round_rat z \<le> \<lfloor>z\<rfloor> + 1" for z
    by (auto simp: round_rat_floor Let_def)
  show ?thesis
  proof (cases "\<lfloor>x\<rfloor> = \<lfloor>y\<rfloor>")
    case True
    with xy show ?thesis by (auto simp: round_rat_floor Let_def)
  next
    case False
    with xy have "\<lfloor>x\<rfloor> + 1 \<le> \<lfloor>y\<rfloor>" using floor_mono [OF xy] by simp
    then show ?thesis using near [of x] near [of y] by linarith
  qed
qed

lemma round_rat_le: "x \<le> of_int n \<Longrightarrow> round_rat x \<le> n"
  using round_rat_mono [of x "of_int n"] by simp

lemma round_rat_ge: "of_int n \<le> x \<Longrightarrow> n \<le> round_rat x"
  using round_rat_mono [of "of_int n" x] by simp

lemma fl64_pos: "0 < x \<Longrightarrow> fl64 x = of_int (round_rat (x / pow2 (ilog2 x - 52))) * pow2 (ilog2 x - 52)"
  by (simp add: fl64_def Let_def)

lemma mantissa_bounds:
  assumes "0 < x"
  shows "2 ^ 52 \<le> round_rat (x / pow2 (ilog2 x - 52))" and "round_rat (x / pow2 (ilog2 x - 52)) \<le> 2 ^ 53"
proof -
  have p: "pow2 (ilog2 x) = pow2 52 * pow2 (ilog2 x - 52)" "pow2 (ilog2 x + 1) = pow2 53 * pow2 (ilog2 x - 52)"
    by (simp_all add: add.commute flip: pow2_add)
  have "pow2 52 = of_int (2 ^ 52)" "pow2 53 = of_int (2 ^ 53)" by (simp_all add: pow2_def)
  with p ilog2_bounds [OF assms] have "of_int (2 ^ 52) \<le> x / pow2 (ilog2 x - 52)" "x / pow2 (ilog2 x - 52) \<le> of_int (2 ^ 53)"
    by (simp_all add: pos_le_divide_eq pos_divide_le_eq del: of_int_power)
  then show "2 ^ 52 \<le> round_rat (x / pow2 (ilog2 x - 52))" "round_rat (x / pow2 (ilog2 x - 52)) \<le> 2 ^ 53"
    by (blast intro: round_rat_ge round_rat_le)+
qed

lemma fl64_binade:
  assumes "0 < x"
  shows "pow2 (ilog2 x) \<le> fl64 x \<and> fl64 x \<le> pow2 (ilog2 x + 1)"
proof -
  have p: "pow2 (ilog2 x) = of_int (2 ^ 52) * pow2 (ilog2 x - 52)" "pow2 (ilog2 x + 1) = of_int (2 ^ 53) * pow2 (ilog2 x - 52)"
    using pow2_add [of 52 "ilog2 x - 52"] pow2_add [of 53 "ilog2 x - 52"] by (simp_all add: pow2_def [of 52] pow2_def [of 53] add.commute)
  show ?thesis
    unfolding fl64_pos [OF assms] p using mantissa_bounds [OF assms]
    by (simp add: mult_le_cancel_right_pos del: of_int_power)
qed

lemma fl64_mono:
  assumes "0 \<le> x" and "x \<le> y"
  shows "fl64 x \<le> fl64 y"
proof (cases "x = 0")
  case True
  then show ?thesis using assms fl64_nonneg by simp
next
  case False
  with assms have x: "0 < x" and y: "0 < y" by simp_all
  have "pow2 (ilog2 x) < pow2 (ilog2 y + 1)" using ilog2_bounds [OF x] ilog2_bounds [OF y] assms(2) by linarith
  then have "ilog2 x \<le> ilog2 y" by (simp add: pow2_less)
  then consider "ilog2 x = ilog2 y" | "ilog2 x + 1 \<le> ilog2 y" by linarith
  then show ?thesis
  proof cases
    case 1
    then show ?thesis using assms(2) unfolding fl64_pos [OF x] fl64_pos [OF y]
      by (simp add: mult_le_cancel_right_pos round_rat_mono divide_right_mono less_imp_le)
  next
    case 2
    then have "pow2 (ilog2 x + 1) \<le> pow2 (ilog2 y)" by (rule pow2_mono)
    then show ?thesis using fl64_binade [OF x] fl64_binade [OF y] by linarith
  qed
qed

text \<open>A float is rounded to itself.\<close>

lemma fl64_exact: "0 < x \<Longrightarrow> x / pow2 (ilog2 x - 52) = of_int m \<Longrightarrow> fl64 x = x"
  by (simp add: fl64_pos field_simps) (metis nonzero_mult_div_cancel_right mult.commute pow2_pos less_irrefl times_divide_eq_right)

lemma fl64_idem:
  assumes "0 \<le> x"
  shows "fl64 (fl64 x) = fl64 x"
proof (cases "x = 0")
  case False
  with assms have x: "0 < x" by simp
  let ?m = "round_rat (x / pow2 (ilog2 x - 52))" and ?e = "ilog2 x - 52"
  have v: "fl64 x = of_int ?m * pow2 ?e" by (rule fl64_pos [OF x])
  have pos: "0 < fl64 x" using fl64_binade [OF x] pow2_pos [of "ilog2 x"] by linarith
  show ?thesis
  proof (cases "fl64 x = pow2 (ilog2 x + 1)")
    case True
    then have "ilog2 (fl64 x) = ilog2 x + 1" by (intro ilog2_eq) (simp_all add: pow2_less)
    moreover have "pow2 (ilog2 x + 1) = of_int (2 ^ 52) * pow2 (ilog2 x + 1 - 52)"
      using pow2_add [of 52 "ilog2 x + 1 - 52"] by (simp add: pow2_def [of 52] add.commute)
    then have "fl64 x / pow2 (ilog2 x + 1 - 52) = of_int (2 ^ 52)"
      using True less_imp_neq [OF pow2_pos [of "ilog2 x + 1 - 52"]] by (simp del: of_int_power)
    ultimately show ?thesis using pos by (intro fl64_exact) simp_all
  next
    case False
    then have "ilog2 (fl64 x) = ilog2 x" using fl64_binade [OF x] by (intro ilog2_eq) simp_all
    then have "fl64 x / pow2 (ilog2 (fl64 x) - 52) = of_int ?m"
      using less_imp_neq [OF pow2_pos [of ?e]] by (simp add: v)
    then show ?thesis using pos by (intro fl64_exact)
  qed
qed simp

lemma fl64_one [simp]: "fl64 1 = 1" and fl64_hundred [simp]: "fl64 100 = 100"
  by code_simp+

text \<open>Bounds of the operators on non-negative operands.\<close>

lemma fadd_nonneg: "0 \<le> x + y \<Longrightarrow> 0 \<le> fadd x y"
  by (simp add: fadd_def fl64_nonneg)

lemma fmul_nonneg: "0 \<le> x \<Longrightarrow> 0 \<le> y \<Longrightarrow> 0 \<le> fmul x y"
  by (simp add: fmul_def fl64_nonneg)

lemma fdiv_nonneg: "0 \<le> x \<Longrightarrow> 0 \<le> y \<Longrightarrow> 0 \<le> fdiv x y"
  by (simp add: fdiv_def fl64_nonneg)

lemma fsub_between: "0 \<le> x \<Longrightarrow> x \<le> y \<Longrightarrow> fl64 y = y \<Longrightarrow> 0 \<le> fsub y x \<and> fsub y x \<le> y"
  using fl64_mono [of "y - x" y] by (simp add: fsub_def fl64_nonneg)

lemma fdiv_unit: "0 \<le> x \<Longrightarrow> x \<le> y \<Longrightarrow> 0 < y \<Longrightarrow> 0 \<le> fdiv x y \<and> fdiv x y \<le> 1"
  using fl64_mono [of "x / y" 1] by (simp add: fdiv_def fl64_nonneg)

lemma fmul_percent: "0 \<le> x \<Longrightarrow> x \<le> 1 \<Longrightarrow> 0 \<le> fmul x 100 \<and> fmul x 100 \<le> 100"
  using fl64_mono [of "x * 100" 100] by (simp add: fmul_def fl64_nonneg)

section \<open>Square roots and statistics\<close>

function isqrt :: "int \<Rightarrow> int" where
  "isqrt n = (if n \<le> 0 then 0 else let r = 2 * isqrt (n div 4) in if (r + 1) * (r + 1) \<le> n then r + 1 else r)"
  by auto
termination by (relation "measure nat") auto

declare isqrt.simps [simp del]

text \<open>The integer square root with its last bit set when the root is not exact ("round to odd"), and the
  root of a fraction through 109 bits of it.\<close>

definition sqrt_rto :: "int \<Rightarrow> int \<Rightarrow> int" where
  "sqrt_rto n m = (let a = isqrt (n div m) in if a * a * m \<noteq> n \<and> even a then a + 1 else a)"

definition sqrt_of_frac :: "int \<Rightarrow> int \<Rightarrow> rat" where
  "sqrt_of_frac n m = (let q = (int (ibits n) - int (ibits m) - 109) div 2 in
     if 0 \<le> q then fl64 (of_int (sqrt_rto n (m * 4 ^ nat q) * 2 ^ nat q))
     else fl64 (of_int (sqrt_rto (n * 4 ^ nat (- q)) m) / of_int (2 ^ nat (- q))))"

definition float_sqrt :: "rat \<Rightarrow> rat" where
  "float_sqrt x = (case quotient_of x of (n, d) \<Rightarrow> sqrt_of_frac n d)"

definition stat_mean :: "rat list \<Rightarrow> rat" where
  "stat_mean xs = fl64 (sum_list xs / of_nat (length xs))"

definition stat_stdev :: "rat list \<Rightarrow> rat" where
  "stat_stdev xs = (let n = of_nat (length xs); sx = sum_list xs; sxx = sum_list (map (\<lambda>x. x * x) xs) in
     float_sqrt ((n * sxx - sx * sx) / n / (n - 1)))"

definition stat_median :: "rat list \<Rightarrow> rat" where
  "stat_median xs = (let ys = sort xs; n = length ys in
     if odd n then ys ! (n div 2) else fdiv (fadd (ys ! (n div 2 - 1)) (ys ! (n div 2))) 2)"

section \<open>\<open>Decimal(str(x))\<close>\<close>

text \<open>\<open>str\<close> of a float writes the shortest digits that read back as the float, the nearest of them, and at
  most 17; a value from 1e16 on or below 1e-4 in scientific notation, and an integer below with
  \<open>.0\<close>, which counts as a digit of the Decimal.\<close>

definition ilog10 :: "rat \<Rightarrow> int" where
  "ilog10 x = (case quotient_of x of (n, d) \<Rightarrow>
     let k = int (idig n) - int (idig d) in if 10 powi k \<le> x then k else k - 1)"

definition digit_unit :: "nat \<Rightarrow> rat \<Rightarrow> int" where
  "digit_unit n x = ilog10 x - int n + 1"

definition read_back :: "nat \<Rightarrow> rat \<Rightarrow> int option" where
  "read_back n x = (let u = 10 powi digit_unit n x; f = \<lfloor>x / u\<rfloor> in
     case filter (\<lambda>m. fl64 (of_int m * u) = x) [f, f + 1] of
       [] \<Rightarrow> None | [m] \<Rightarrow> Some m | _ # _ # _ \<Rightarrow> Some (round_rat (x / u)))"

definition shortest_digits :: "rat \<Rightarrow> int \<times> int" where
  "shortest_digits x = (case find (\<lambda>n. read_back n x \<noteq> None) [1..<17] of
     Some n \<Rightarrow> (let m = the (read_back n x) in
       if m = 10 ^ n then (1, digit_unit n x + int n) else (m, digit_unit n x))
   | None \<Rightarrow> (round_rat (x / 10 powi digit_unit 17 x), digit_unit 17 x))"

definition decimal_of_float :: "rat \<Rightarrow> decimal" where
  "decimal_of_float x = (if x = 0 then Dec 0 (- 1) else
     let (m, q) = shortest_digits \<bar>x\<bar>; e10 = q + int (idig m) - 1; s = (if x < 0 then - 1 else 1) in
     if - 4 \<le> e10 \<and> e10 < 16 \<and> 0 \<le> q then Dec (s * m * 10 ^ nat (q + 1)) (- 1) else Dec (s * m) q)"

lemma ilog10_le:
  assumes "0 < x"
  shows "10 powi ilog10 x \<le> x"
proof -
  obtain n d where q: "quotient_of x = (n, d)" by (cases "quotient_of x")
  then have d: "0 < d" and x: "x = of_int n / of_int d"
    by (auto simp: quotient_of_denom_pos quotient_of_div)
  with assms have n: "0 < n" by (simp add: zero_less_divide_iff)
  let ?a = "idig n" and ?b = "idig d"
  define k where "k = int ?a - int ?b"
  have a: "10 ^ (?a - 1) \<le> nat n" "0 < ?a" using ndig_bounds [of "nat n"] ndig_pos [of "nat n"] n by (simp_all add: idig_def)
  have b: "nat d < 10 ^ ?b" using ndig_bounds [of "nat d"] by (simp add: idig_def)
  have "of_nat (10 ^ (?a - 1)) \<le> (of_nat (nat n) :: rat)" using a(1) by (simp only: of_nat_le_iff)
  then have na: "(10::rat) powi (int ?a - 1) \<le> of_int n" using a(2) n by (simp add: power_int_def nat_diff_distrib)
  have "of_nat (nat d) < (of_nat (10 ^ ?b) :: rat)" using b by (simp only: of_nat_less_iff)
  then have db: "of_int d \<le> (10::rat) powi (int ?b)" using d by (simp add: power_int_def less_imp_le)
  have "(10::rat) powi (k - 1) * of_int d \<le> 10 powi (k - 1) * 10 powi (int ?b)" using db by (intro mult_left_mono) simp_all
  also have "\<dots> = 10 powi (k - 1 + int ?b)" by (rule power_int_add [symmetric]) simp
  also have "k - 1 + int ?b = int ?a - 1" by (simp add: k_def)
  finally have "10 powi (k - 1) \<le> x" using na d by (simp add: x pos_le_divide_eq)
  then show ?thesis by (simp add: ilog10_def q k_def Let_def)
qed

text \<open>The decimal is at most the value rounded up at some number of digits.\<close>

definition rounded_up :: "nat \<Rightarrow> rat \<Rightarrow> rat" where
  "rounded_up n x = of_int \<lceil>x / 10 powi digit_unit n x\<rceil> * 10 powi digit_unit n x"

lemma read_back_between:
  assumes "read_back n x = Some m" and "0 < x"
  shows "0 \<le> m \<and> of_int m * 10 powi digit_unit n x \<le> rounded_up n x"
proof -
  let ?u = "10 powi digit_unit n x :: rat"
  have u: "0 < ?u" by simp
  have f: "0 \<le> \<lfloor>x / ?u\<rfloor>" using assms(2) u by simp
  have r: "0 \<le> round_rat (x / ?u)" "round_rat (x / ?u) \<le> \<lceil>x / ?u\<rceil>"
    using assms(2) u by (auto intro!: round_rat_nonneg round_rat_le divide_nonneg_nonneg)
  have "m \<le> \<lceil>x / ?u\<rceil> \<and> 0 \<le> m"
  proof (cases "x / ?u = of_int \<lfloor>x / ?u\<rfloor>")
    case True
    then have "of_int \<lfloor>x / ?u\<rfloor> * ?u = x" using u by (simp add: field_simps)
    then have "m = \<lfloor>x / ?u\<rfloor> \<or> m = round_rat (x / ?u) \<or> fl64 x \<noteq> x" using assms(1)
      by (auto simp: read_back_def Let_def split: if_splits)
    moreover have "fl64 x = x"
    proof (rule ccontr)
      assume ne: "fl64 x \<noteq> x"
      then have "fl64 ((of_int \<lfloor>x / ?u\<rfloor> + 1) * ?u) = x" using assms(1) \<open>of_int \<lfloor>x / ?u\<rfloor> * ?u = x\<close>
        by (auto simp: read_back_def Let_def split: if_splits)
      moreover have "0 \<le> (of_int \<lfloor>x / ?u\<rfloor> + 1) * ?u" using f u by (intro mult_nonneg_nonneg) simp_all
      ultimately have "fl64 x = x" using fl64_idem by metis
      with ne show False ..
    qed
    ultimately show ?thesis using f r by (auto intro: order_trans [OF _ floor_le_ceiling])
  next
    case False
    then have "\<lceil>x / ?u\<rceil> = \<lfloor>x / ?u\<rfloor> + 1" by (metis ceiling_altdef)
    then show ?thesis using assms(1) f r by (auto simp: read_back_def Let_def split: if_splits)
  qed
  then show ?thesis using u by (simp add: rounded_up_def mult_le_cancel_right_pos)
qed

lemma shortest_digits_between:
  assumes "shortest_digits x = (m, q)" and "0 < x"
  shows "0 \<le> m \<and> (\<exists>n>0. of_int m * 10 powi q \<le> rounded_up n x)"
proof (cases "find (\<lambda>n. read_back n x \<noteq> None) [1..<17]")
  case None
  let ?u = "10 powi digit_unit 17 x :: rat"
  have "0 \<le> round_rat (x / ?u)" "round_rat (x / ?u) \<le> \<lceil>x / ?u\<rceil>"
    using assms(2) by (auto intro!: round_rat_nonneg round_rat_le divide_nonneg_nonneg)
  with None assms(1) show ?thesis
    by (auto simp: shortest_digits_def rounded_up_def mult_le_cancel_right_pos intro!: exI [of _ 17])
next
  case (Some n)
  then obtain k where k: "read_back n x = Some k" "0 < n" by (auto simp: find_Some_iff)
  then have "of_int m * 10 powi q = (of_int k * 10 powi digit_unit n x :: rat)" "0 \<le> k \<Longrightarrow> 0 \<le> m"
    using assms(1) Some by (auto simp: shortest_digits_def Let_def power_int_add mult.commute split: if_splits)
  with read_back_between [OF k(1) assms(2)] k(2) show ?thesis by metis
qed

lemma dval_decimal_of_float:
  assumes "0 < x" and "shortest_digits x = (m, q)"
  shows "dval (decimal_of_float x) = of_int m * 10 powi q"
proof -
  have "10 ^ nat (q + 1) = (10::rat) powi (q + 1)" if "0 \<le> q" using that by (simp add: power_int_def)
  then have "of_int m * 10 ^ nat (q + 1) * (10::rat) powi (- 1) = of_int m * 10 powi q" if "0 \<le> q"
    using that by (simp add: power_int_add)
  with assms show ?thesis by (auto simp: decimal_of_float_def Let_def dval_Dec)
qed

lemma decimal_of_float_nonneg:
  assumes "0 \<le> x"
  shows "0 \<le> dval (decimal_of_float x)"
proof (cases "x = 0")
  case False
  with assms have x: "0 < x" by simp
  obtain m q where mq: "shortest_digits x = (m, q)" by fastforce
  with shortest_digits_between [OF mq x] show ?thesis by (simp add: dval_decimal_of_float [OF x mq])
qed (simp add: decimal_of_float_def)

lemma decimal_of_float_le_100:
  assumes "0 \<le> x" and "x \<le> 100"
  shows "dval (decimal_of_float x) \<le> 100"
proof (cases "x = 0")
  case False
  with assms have x: "0 < x" by simp
  obtain m q where mq: "shortest_digits x = (m, q)" by fastforce
  obtain n where n: "0 < n" "of_int m * 10 powi q \<le> rounded_up n x" using shortest_digits_between [OF mq x] by blast
  let ?q = "digit_unit n x"
  have "ilog10 x \<le> 2"
  proof (rule ccontr)
    assume "\<not> ilog10 x \<le> 2"
    then have "(10::rat) powi 3 \<le> 10 powi ilog10 x" by (intro power_int_increasing) simp_all
    with ilog10_le [OF x] assms(2) show False by simp
  qed
  then have "?q \<le> 2" using n(1) by (simp add: digit_unit_def)
  then have h: "(100::rat) = of_int (10 ^ nat (2 - ?q)) * 10 powi ?q"
    using powi_nat_diff [of ?q 2] by simp
  then have "x / 10 powi ?q \<le> of_int (10 ^ nat (2 - ?q))" using assms(2) by (simp add: pos_divide_le_eq)
  then have "\<lceil>x / 10 powi ?q\<rceil> \<le> 10 ^ nat (2 - ?q)" by (simp only: ceiling_le_iff)
  then have "rounded_up n x \<le> of_int (10 ^ nat (2 - ?q)) * 10 powi ?q" unfolding rounded_up_def by (simp only: of_int_powi_le)
  with n(2) h show ?thesis by (simp add: dval_decimal_of_float [OF x mq])
qed (simp add: decimal_of_float_def)

lemma decimal_of_float_samples:
  "decimal_of_float 0 = Dec 0 (- 1)" "decimal_of_float 1 = Dec 10 (- 1)" "decimal_of_float (- 5 / 4) = Dec (- 125) (- 2)"
  by code_simp+

lemma statistics_samples:
  "float_sqrt (9 / 4) = 3 / 2" "stat_mean [1, 2, 6] = 3" "stat_median [4, 1, 2] = 2" "stat_median [4, 1] = 5 / 2"
  "stat_stdev [1, 1, 1] = 0"
  by code_simp+

end
