(* ===== verification/Frames.thy ===== *)
theory Frames
  imports Float_Arith
begin

text \<open>
  Data frames, as far as the backtest uses them. A long frame is the list of its rows (date, ticker, value);
  a wide frame is a date column and one column per ticker. The operations of polars are the fields of a
  record; \<open>polars_ok\<close> is what its documentation says of them. Dates are instants in microseconds.
\<close>

section \<open>Frames\<close>

type_synonym long = "(int \<times> string \<times> rat) list"

record 'c wide =
  wd_dates :: "int list"
  wd_cols :: "(string \<times> 'c list) list"

type_synonym raw_wide = "rat option wide"

definition row_date :: "int \<times> string \<times> rat \<Rightarrow> int" where "row_date r = fst r"

definition row_ticker :: "int \<times> string \<times> rat \<Rightarrow> string" where "row_ticker r = fst (snd r)"

definition row_value :: "int \<times> string \<times> rat \<Rightarrow> rat" where "row_value r = snd (snd r)"

definition ticker_cols :: "'c wide \<Rightarrow> string list" where
  "ticker_cols w = map fst (wd_cols w)"

text \<open>\<open>with\_columns\<close> with one expression per ticker column, and \<open>iter\_rows(named=True)\<close>.\<close>

definition map_cols :: "('c list \<Rightarrow> 'd list) \<Rightarrow> 'c wide \<Rightarrow> 'd wide" where
  "map_cols f w = \<lparr>wd_dates = wd_dates w, wd_cols = map (\<lambda>(c, v). (c, f v)) (wd_cols w)\<rparr>"

definition named_rows :: "'c wide \<Rightarrow> (string \<times> 'c) list list" where
  "named_rows w = map (\<lambda>i. map (\<lambda>(c, v). (c, v ! i)) (wd_cols w)) [0..<length (wd_dates w)]"

definition row_get :: "(string \<times> 'c) list \<Rightarrow> string \<Rightarrow> 'c res" where
  "row_get r c = (case map_of r c of None \<Rightarrow> Inl KeyError | Some x \<Rightarrow> Inr x)"

section \<open>The library\<close>

record polars =
  pl_between :: "int \<Rightarrow> int \<Rightarrow> long \<Rightarrow> long"                \<comment> \<open>\<open>filter(col("date").is\_between(a, b))\<close>\<close>
  pl_pivot :: "long \<Rightarrow> raw_wide res"                       \<comment> \<open>\<open>pivot(index="date", on="ticker")\<close>\<close>
  pl_sort :: "raw_wide \<Rightarrow> raw_wide"                        \<comment> \<open>\<open>sort("date")\<close>\<close>
  pl_join_left :: "int list \<Rightarrow> raw_wide \<Rightarrow> raw_wide"       \<comment> \<open>\<open>join(on="date", how="left")\<close> of a date column\<close>
  pl_pct_change :: "rat option list \<Rightarrow> rat option list"
  pl_shift :: "rat list \<Rightarrow> rat option list"                \<comment> \<open>\<open>shift(1)\<close>\<close>
  pl_fill_null :: "rat \<Rightarrow> rat option list \<Rightarrow> rat list"
  pl_unique :: "string list \<Rightarrow> string list"
  pl_unique_dates :: "int list \<Rightarrow> int list"

section \<open>What is documented\<close>

definition long_cell :: "long \<Rightarrow> int \<Rightarrow> string \<Rightarrow> rat option" where
  "long_cell l d c = map_option row_value (find (\<lambda>r. row_date r = d \<and> row_ticker r = c) l)"

definition long_keys :: "long \<Rightarrow> (int \<times> string) list" where
  "long_keys l = map (\<lambda>r. (row_date r, row_ticker r)) l"

text \<open>A pivoted frame: one row per date, one column per ticker, null where there is no row.\<close>

definition pivots :: "long \<Rightarrow> raw_wide \<Rightarrow> bool" where
  "pivots l w \<longleftrightarrow> distinct (wd_dates w) \<and> set (wd_dates w) = row_date ` set l \<and>
     distinct (ticker_cols w) \<and> set (ticker_cols w) = row_ticker ` set l \<and>
     wd_cols w = map (\<lambda>c. (c, map (\<lambda>d. long_cell l d c) (wd_dates w))) (ticker_cols w)"

definition column_at :: "int list \<Rightarrow> rat option list \<Rightarrow> int list \<Rightarrow> rat option list" where
  "column_at dates v ds = map (\<lambda>d. case map_of (zip dates v) d of None \<Rightarrow> None | Some x \<Rightarrow> x) ds"

definition polars_ok :: "polars \<Rightarrow> bool" where
  "polars_ok pl \<longleftrightarrow>
     (\<forall>a b l. pl_between pl a b l = filter (\<lambda>r. a \<le> row_date r \<and> row_date r \<le> b) l) \<and>
     (\<forall>l. case pl_pivot pl l of Inl _ \<Rightarrow> \<not> distinct (long_keys l) | Inr w \<Rightarrow> distinct (long_keys l) \<and> pivots l w) \<and>
     (\<forall>w. distinct (wd_dates w) \<longrightarrow> pl_sort pl w =
        \<lparr>wd_dates = sort (wd_dates w), wd_cols = map (\<lambda>(c, v). (c, column_at (wd_dates w) v (sort (wd_dates w)))) (wd_cols w)\<rparr>) \<and>
     (\<forall>ds w. distinct (wd_dates w) \<longrightarrow> pl_join_left pl ds w =
        \<lparr>wd_dates = ds, wd_cols = map (\<lambda>(c, v). (c, column_at (wd_dates w) v ds)) (wd_cols w)\<rparr>) \<and>
     (\<forall>v n. length (pl_pct_change pl v) = length v \<and> pl_pct_change pl (take n v) = take n (pl_pct_change pl v)) \<and>
     (\<forall>v. pl_shift pl v = (if v = [] then [] else None # map Some (butlast v))) \<and>
     (\<forall>x v. pl_fill_null pl x v = map (\<lambda>c. case c of None \<Rightarrow> x | Some y \<Rightarrow> y) v) \<and>
     (\<forall>ts. distinct (pl_unique pl ts) \<and> set (pl_unique pl ts) = set ts) \<and>
     (\<forall>ds. distinct (pl_unique_dates pl ds) \<and> set (pl_unique_dates pl ds) = set ds)"

text \<open>A library on lists, which shows that the documentation can be met.\<close>

definition list_pivot :: "long \<Rightarrow> raw_wide res" where
  "list_pivot l = (if distinct (long_keys l)
     then (let ds = remdups (map row_date l); cs = remdups (map row_ticker l) in
       Inr \<lparr>wd_dates = ds, wd_cols = map (\<lambda>c. (c, map (\<lambda>d. long_cell l d c) ds)) cs\<rparr>)
     else Inl (OtherError ''ComputeError''))"

text \<open>The change from one day to the next; the first day and a day without a price have none.\<close>

fun list_changes :: "rat option \<Rightarrow> rat option list \<Rightarrow> rat option list" where
  "list_changes p [] = []"
| "list_changes p (x # xs) = (case (p, x) of (Some a, Some b) \<Rightarrow> Some (fsub (fdiv b a) 1) | _ \<Rightarrow> None) # list_changes x xs"

definition list_polars :: polars where
  "list_polars = \<lparr>pl_between = (\<lambda>a b. filter (\<lambda>r. a \<le> row_date r \<and> row_date r \<le> b)),
     pl_pivot = list_pivot,
     pl_sort = (\<lambda>w. \<lparr>wd_dates = sort (wd_dates w),
       wd_cols = map (\<lambda>(c, v). (c, column_at (wd_dates w) v (sort (wd_dates w)))) (wd_cols w)\<rparr>),
     pl_join_left = (\<lambda>ds w. \<lparr>wd_dates = ds, wd_cols = map (\<lambda>(c, v). (c, column_at (wd_dates w) v ds)) (wd_cols w)\<rparr>),
     pl_pct_change = list_changes None,
     pl_shift = (\<lambda>v. if v = [] then [] else None # map Some (butlast v)),
     pl_fill_null = (\<lambda>x. map (\<lambda>c. case c of None \<Rightarrow> x | Some y \<Rightarrow> y)),
     pl_unique = remdups, pl_unique_dates = remdups\<rparr>"

lemma list_changes_take: "list_changes p (take n v) = take n (list_changes p v)"
  by (induction p v arbitrary: n rule: list_changes.induct) (auto simp: take_Cons split: nat.split)

lemma length_list_changes: "length (list_changes p v) = length v"
  by (induction p v rule: list_changes.induct) simp_all

lemma list_polars_ok: "polars_ok list_polars"
  by (simp add: polars_ok_def list_polars_def list_changes_take length_list_changes list_pivot_def Let_def pivots_def
      ticker_cols_def o_def)

lemma polars_okD:
  assumes "polars_ok pl"
  shows "pl_between pl a b l = filter (\<lambda>r. a \<le> row_date r \<and> row_date r \<le> b) l"
    and "pl_pivot pl l = Inr w \<Longrightarrow> pivots l w"
    and "distinct (wd_dates w) \<Longrightarrow> pl_sort pl w =
        \<lparr>wd_dates = sort (wd_dates w), wd_cols = map (\<lambda>(c, v). (c, column_at (wd_dates w) v (sort (wd_dates w)))) (wd_cols w)\<rparr>"
    and "distinct (wd_dates w) \<Longrightarrow> pl_join_left pl ds w =
        \<lparr>wd_dates = ds, wd_cols = map (\<lambda>(c, v). (c, column_at (wd_dates w) v ds)) (wd_cols w)\<rparr>"
    and "length (pl_pct_change pl v) = length v" and "take n (pl_pct_change pl v) = pl_pct_change pl (take n v)"
    and "pl_shift pl u = (if u = [] then [] else None # map Some (butlast u))"
    and "pl_fill_null pl x v = map (\<lambda>c. case c of None \<Rightarrow> x | Some y \<Rightarrow> y) v"
    and "distinct (pl_unique pl ts)" and "set (pl_unique pl ts) = set ts"
    and "distinct (pl_unique_dates pl ds)" and "set (pl_unique_dates pl ds) = set ds"
  using assms unfolding polars_ok_def by (auto dest: spec [of _ l])

end
