(* ===== verification/Backtest.thy ===== *)
theory Backtest
  imports Frames Artifacts Events
begin

text \<open>
  The walk-forward backtest (\<open>backtest/engine.py\<close>): one function per helper, over the frames and the library
  parameter of \<open>Frames\<close>. Prices and signals are long frames; floats are the rationals they denote.
\<close>

section \<open>Constants\<close>

definition default_notional :: decimal where "default_notional = Dec 1000000 0"

definition trading_days_per_year :: rat where "trading_days_per_year = 252"

definition bps_denominator :: decimal where "bps_denominator = Dec 10000 0"

definition trade_threshold :: rat where "trade_threshold = fl64 (1 / 10 ^ 12)"

definition sharpe_stdev_eps :: rat where "sharpe_stdev_eps = fl64 (1 / 10 ^ 12)"

section \<open>Frame helpers\<close>

definition filter_to_window :: "polars \<Rightarrow> long \<Rightarrow> pydt \<Rightarrow> pydt \<Rightarrow> long" where
  "filter_to_window pl df start end = pl_between pl (micros start) (micros end) df"

definition pivot_frame :: "polars \<Rightarrow> long \<Rightarrow> raw_wide res" where
  "pivot_frame pl df = bind_res (pl_pivot pl df) (\<lambda>w. Inr (pl_sort pl w))"

definition align_columns :: "polars \<Rightarrow> raw_wide \<Rightarrow> raw_wide \<Rightarrow> rat wide" where
  "align_columns pl price_wide signal_wide =
     (let aligned = pl_join_left pl (wd_dates price_wide) signal_wide;
        column = (\<lambda>c. case map_of (wd_cols aligned) c of
          None \<Rightarrow> replicate (length (wd_dates aligned)) (Some 0) | Some v \<Rightarrow> v) in
      \<lparr>wd_dates = wd_dates aligned, wd_cols = map (\<lambda>c. (c, pl_fill_null pl 0 (column c))) (ticker_cols price_wide)\<rparr>)"

definition daily_returns :: "polars \<Rightarrow> raw_wide \<Rightarrow> rat wide" where
  "daily_returns pl = map_cols (\<lambda>v. pl_fill_null pl 0 (pl_pct_change pl v))"

definition shift_one_day :: "polars \<Rightarrow> rat wide \<Rightarrow> rat wide" where
  "shift_one_day pl = map_cols (\<lambda>v. pl_fill_null pl 0 (pl_shift pl v))"

section \<open>Returns and costs per day\<close>

type_synonym row = "(string \<times> rat) list"

fun row_return :: "string list \<Rightarrow> row \<Rightarrow> row \<Rightarrow> rat \<Rightarrow> rat res" where
  "row_return [] r s acc = Inr acc"
| "row_return (c # cs) r s acc = bind_res (row_get r c) (\<lambda>x. bind_res (row_get s c) (\<lambda>y.
     row_return cs r s (fadd acc (fmul x y))))"

fun rows_return :: "string list \<Rightarrow> row list \<Rightarrow> row list \<Rightarrow> rat list res" where
  "rows_return cs (r # rs) (s # ss) = bind_res (row_return cs r s 0) (\<lambda>x. bind_res (rows_return cs rs ss) (\<lambda>xs. Inr (x # xs)))"
| "rows_return cs [] [] = Inr []"
| "rows_return cs _ _ = Inl ValueError"

definition portfolio_returns :: "rat wide \<Rightarrow> rat wide \<Rightarrow> rat list res" where
  "portfolio_returns returns_wide lagged = rows_return (ticker_cols returns_wide) (named_rows returns_wide) (named_rows lagged)"

text \<open>The loop over the tickers of one day that the cost series, the turnover and the trade count share: \<open>step\<close>
  takes the absolute change of a weight, and \<open>prev\<close> becomes the weights of the day.\<close>

fun row_changes :: "(rat \<Rightarrow> 'n \<Rightarrow> 'n) \<Rightarrow> string list \<Rightarrow> row \<Rightarrow> row \<Rightarrow> 'n \<Rightarrow> ('n \<times> row) res" where
  "row_changes step [] r prev acc = Inr (acc, prev)"
| "row_changes step (c # cs) r prev acc = bind_res (row_get r c) (\<lambda>curr. bind_res (row_get prev c) (\<lambda>old.
     row_changes step cs r (AList.update c curr prev) (step \<bar>fsub curr old\<bar> acc)))"

definition flat_book :: "string list \<Rightarrow> row" where
  "flat_book cs = map (\<lambda>c. (c, 0)) cs"

definition add_change :: "rat \<Rightarrow> rat \<Rightarrow> rat" where
  "add_change x acc = fadd acc x"

fun cost_rows :: "rat \<Rightarrow> string list \<Rightarrow> row \<Rightarrow> row list \<Rightarrow> rat list res" where
  "cost_rows rate cs prev [] = Inr []"
| "cost_rows rate cs prev (r # rs) = bind_res (row_changes add_change cs r prev 0) (\<lambda>(delta, prev').
     bind_res (cost_rows rate cs prev' rs) (\<lambda>xs. Inr (fmul rate delta # xs)))"

definition cost_rate :: "dec_ctx \<Rightarrow> decimal \<Rightarrow> decimal \<Rightarrow> rat" where
  "cost_rate fx cost_bps slippage_bps = fdiv (float_of_dec (dec_add fx cost_bps slippage_bps)) (float_of_dec bps_denominator)"

definition cost_series :: "dec_ctx \<Rightarrow> rat wide \<Rightarrow> decimal \<Rightarrow> decimal \<Rightarrow> rat list res" where
  "cost_series fx signal_wide cost_bps slippage_bps = (let cs = ticker_cols signal_wide in
     cost_rows (cost_rate fx cost_bps slippage_bps) cs (flat_book cs) (named_rows signal_wide))"

section \<open>Metrics\<close>

definition sharpe :: "rat list \<Rightarrow> decimal" where
  "sharpe returns = (if returns = [] then dzero
     else if length returns < 2 then dzero
     else let sigma = stat_stdev returns in
       if sigma < sharpe_stdev_eps then dzero
       else decimal_of_float (fmul (fdiv (stat_mean returns) sigma) (float_sqrt trading_days_per_year)))"

fun drawdown_loop :: "rat list \<Rightarrow> rat \<Rightarrow> rat \<Rightarrow> rat \<Rightarrow> rat" where
  "drawdown_loop [] equity peak worst = worst"
| "drawdown_loop (r # rs) equity peak worst =
     (let equity = fmul equity (fadd 1 r); peak = max peak equity;
        worst = (if 0 < peak then max worst (fdiv (fsub peak equity) peak) else worst) in
      drawdown_loop rs equity peak worst)"

definition max_drawdown_pct :: "rat list \<Rightarrow> decimal" where
  "max_drawdown_pct returns = (if returns = [] then dzero else decimal_of_float (fmul (drawdown_loop returns 1 1 0) 100))"

fun changes_loop :: "(rat \<Rightarrow> 'n \<Rightarrow> 'n) \<Rightarrow> string list \<Rightarrow> row list \<Rightarrow> row \<Rightarrow> 'n \<Rightarrow> 'n res" where
  "changes_loop step cs [] prev acc = Inr acc"
| "changes_loop step cs (r # rs) prev acc = bind_res (row_changes step cs r prev acc) (\<lambda>(acc', prev').
     changes_loop step cs rs prev' acc')"

definition turnover :: "rat wide \<Rightarrow> decimal res" where
  "turnover signal_wide = (let cs = ticker_cols signal_wide; height = length (wd_dates signal_wide) in
     if height = 0 then Inr dzero
     else bind_res (changes_loop add_change cs (named_rows signal_wide) (flat_book cs) 0) (\<lambda>tot.
       Inr (decimal_of_float (fdiv tot (of_nat height)))))"

definition count_trade :: "rat \<Rightarrow> nat \<Rightarrow> nat" where
  "count_trade x n = (if trade_threshold < x then n + 1 else n)"

definition n_trades :: "rat wide \<Rightarrow> nat res" where
  "n_trades signal_wide = (let cs = ticker_cols signal_wide in
     changes_loop count_trade cs (named_rows signal_wide) (flat_book cs) 0)"

definition final_equity :: "rat list \<Rightarrow> rat" where
  "final_equity returns = foldl (\<lambda>equity r. fmul equity (fadd 1 r)) 1 returns"

definition pnl :: "dec_ctx \<Rightarrow> rat list \<Rightarrow> decimal \<Rightarrow> decimal" where
  "pnl fx returns notional_usd = dec_mul fx notional_usd (decimal_of_float (fsub (final_equity returns) 1))"

section \<open>One fold\<close>

text \<open>The first part of \<open>\_run\_fold\<close>: the aligned signals and the net return of each day but the first. The cost of
  a rebalancing is paid out of the return of the next day.\<close>

definition net_returns :: "rat list \<Rightarrow> rat list \<Rightarrow> rat list" where
  "net_returns portfolio cost = (if length portfolio \<le> 1 then []
     else map (\<lambda>i. fsub (portfolio ! i) (cost ! (i - 1))) [1..<length portfolio])"

definition fold_series :: "polars \<Rightarrow> dec_ctx \<Rightarrow> walk_forward_window \<Rightarrow> long \<Rightarrow> long \<Rightarrow> decimal \<Rightarrow> decimal \<Rightarrow>
    (rat wide \<times> rat list) res" where
  "fold_series pl fx w prices signals cost_bps slippage_bps =
     (let fold_prices = filter_to_window pl prices (wf_test_start w) (wf_test_end w) in
      if fold_prices = [] then Inl ValueError
      else let fold_signals = filter_to_window pl signals (wf_test_start w) (wf_test_end w) in
        bind_res (pivot_frame pl fold_prices) (\<lambda>price_wide.
        bind_res (pivot_frame pl fold_signals) (\<lambda>signal_wide.
        let aligned = align_columns pl price_wide signal_wide;
          returns_wide = daily_returns pl price_wide;
          lagged = shift_one_day pl aligned in
        bind_res (portfolio_returns returns_wide lagged) (\<lambda>portfolio.
        bind_res (cost_series fx aligned cost_bps slippage_bps) (\<lambda>cost.
        Inr (aligned, net_returns portfolio cost))))))"

definition run_fold :: "polars \<Rightarrow> dec_ctx \<Rightarrow> nat \<Rightarrow> walk_forward_window \<Rightarrow> long \<Rightarrow> long \<Rightarrow> decimal \<Rightarrow> decimal \<Rightarrow> decimal \<Rightarrow>
    fold_metrics res" where
  "run_fold pl fx i w prices signals cost_bps slippage_bps notional_usd =
     bind_res (fold_series pl fx w prices signals cost_bps slippage_bps) (\<lambda>(aligned, net).
     bind_res (turnover aligned) (\<lambda>tn.
     bind_res (n_trades aligned) (\<lambda>tr.
     validate_fold \<lparr>fm_fold_index = int i, fm_test_start = wf_test_start w, fm_test_end = wf_test_end w,
       fm_sharpe = sharpe net, fm_max_drawdown_pct = max_drawdown_pct net, fm_turnover = tn,
       fm_n_trades = int tr, fm_pnl_usd = pnl fx net notional_usd\<rparr>)))"

section \<open>The report\<close>

definition aggregate_folds :: "dec_ctx \<Rightarrow> fold_metrics list \<Rightarrow> aggregate_metrics res" where
  "aggregate_folds fx folds = (if folds = [] then Inl ValueError
     else let sharpes = map (\<lambda>f. float_of_dec (fm_sharpe f)) folds;
       drawdowns = map (\<lambda>f. float_of_dec (fm_max_drawdown_pct f)) folds in
     validate_aggregate \<lparr>ag_median_sharpe = decimal_of_float (stat_median sharpes),
       ag_mean_sharpe = decimal_of_float (stat_mean sharpes),
       ag_worst_fold_sharpe = decimal_of_float (Min (set sharpes)),
       ag_median_max_drawdown_pct = decimal_of_float (stat_median drawdowns),
       ag_total_pnl_usd = dec_sum fx dzero (map fm_pnl_usd folds),
       ag_total_trades = sum_list (map fm_n_trades folds)\<rparr>)"

definition validate_universe :: "polars \<Rightarrow> long \<Rightarrow> long \<Rightarrow> unit res" where
  "validate_universe pl prices signals =
     (if list_all (\<lambda>t. t \<in> set (pl_unique pl (map row_ticker prices))) (pl_unique pl (map row_ticker signals))
      then Inr () else Inl ValueError)"

fun run_folds :: "polars \<Rightarrow> dec_ctx \<Rightarrow> research_plan \<Rightarrow> long \<Rightarrow> long \<Rightarrow> decimal \<Rightarrow> nat \<Rightarrow> walk_forward_window list \<Rightarrow>
    fold_metrics list res" where
  "run_folds pl fx plan prices signals notional_usd i [] = Inr []"
| "run_folds pl fx plan prices signals notional_usd i (w # ws) =
     bind_res (run_fold pl fx i w prices signals (rp_cost_model_bps plan) (rp_slippage_bps plan) notional_usd) (\<lambda>f.
     bind_res (run_folds pl fx plan prices signals notional_usd (Suc i) ws) (\<lambda>fs. Inr (f # fs)))"

definition build_run_metadata :: "'w env \<Rightarrow> ('w, run_metadata) eff" where
  "build_run_metadata env = seq (call (env_token_hex env)) (\<lambda>hex. seq (call (env_now env)) (\<lambda>now.
     lift_res (validate_metadata \<lparr>md_run_id = hex, md_parent_id = None, md_agent_name = ''backtest_engine'',
       md_model_id = ''caqrs.backtest.run_walk_forward'', md_created_at = Aware now, md_llm_cost_usd = dzero,
       md_latency_ms = 0, md_token_in = 0, md_token_out = 0\<rparr>)))"

definition run_walk_forward :: "'w env \<Rightarrow> polars \<Rightarrow> dec_ctx \<Rightarrow> research_plan \<Rightarrow> long \<Rightarrow> long \<Rightarrow> decimal \<Rightarrow>
    ('w, backtest_report) eff" where
  "run_walk_forward env pl fx plan prices signals notional_usd =
     seq (lift_res (validate_universe pl prices signals)) (\<lambda>_.
     seq (lift_res (run_folds pl fx plan prices signals notional_usd 0 (rp_walk_forward plan))) (\<lambda>folds.
     seq (build_run_metadata env) (\<lambda>md.
     seq (lift_res (aggregate_folds fx folds)) (\<lambda>agg.
     lift_res (validate_backtest \<lparr>br_schema_version = 1, br_metadata = md, br_plan_run_id = md_run_id (rp_metadata plan),
       br_folds = folds, br_aggregate = agg\<rparr>)))))"

end
