(* ===== verification/Signals.thy ===== *)
theory Signals
  imports Backtest
begin

text \<open>
  Where prices and signals come from (\<open>backtest/providers.py\<close>, \<open>backtest/templates.py\<close>): the price provider
  over the J-Quants client, the three signal templates, and the executors the cycle runner is given. The
  client's \<open>daily\_bars\<close> is an effect; days are day numbers, and a parameter gives the day a datetime has in
  its own time zone.
\<close>

section \<open>Prices\<close>

record daily_bar =
  db_date :: int
  db_close :: "decimal option"
  db_adjusted_close :: "decimal option"

type_synonym 'w bars_client = "string \<Rightarrow> int \<Rightarrow> int \<Rightarrow> ('w, daily_bar list) eff"

definition micros_per_day :: int where "micros_per_day = 86400000000"

definition utc_midnight :: "int \<Rightarrow> int" where
  "utc_midnight day = day * micros_per_day"

definition bar_rows :: "string \<Rightarrow> daily_bar \<Rightarrow> long" where
  "bar_rows code bar = (case (case db_adjusted_close bar of Some c \<Rightarrow> Some c | None \<Rightarrow> db_close bar) of
     None \<Rightarrow> [] | Some close \<Rightarrow> [(utc_midnight (db_date bar), code, float_of_dec close)])"

fun fetch_prices :: "'w bars_client \<Rightarrow> string list \<Rightarrow> int \<Rightarrow> int \<Rightarrow> ('w, long) eff" where
  "fetch_prices client [] start end = ret []"
| "fetch_prices client (code # codes) start end = seq (client code start end) (\<lambda>bars.
     seq (fetch_prices client codes start end) (\<lambda>rows. ret (concat (map (bar_rows code) bars) @ rows)))"

section \<open>Signals\<close>

definition buy_and_hold_signals :: "polars \<Rightarrow> research_plan \<Rightarrow> long \<Rightarrow> long" where
  "buy_and_hold_signals pl plan prices = (let universe = rp_universe plan; n = length universe;
     weight = (if 0 < n then fdiv 1 (of_nat n) else 0) in
     concat (map (\<lambda>d. map (\<lambda>t. (d, t, weight)) universe) (sort (pl_unique_dates pl (map row_date prices)))))"

datatype rank_direction = Top | Bottom

text \<open>The sort key of a ticker: a float, or one of the infinities that serve as sentinel.\<close>

datatype score = Neg_Inf | Score rat | Pos_Inf

instantiation score :: linorder
begin

fun less_eq_score :: "score \<Rightarrow> score \<Rightarrow> bool" where
  "less_eq_score Neg_Inf y = True"
| "less_eq_score (Score a) Neg_Inf = False"
| "less_eq_score (Score a) (Score b) = (a \<le> b)"
| "less_eq_score (Score a) Pos_Inf = True"
| "less_eq_score Pos_Inf y = (y = Pos_Inf)"

definition less_score :: "score \<Rightarrow> score \<Rightarrow> bool" where
  "less_score x y \<longleftrightarrow> x \<le> y \<and> \<not> y \<le> x"

instance
proof
  fix x y z :: score
  show "x < y \<longleftrightarrow> x \<le> y \<and> \<not> y \<le> x" by (rule less_score_def)
  show "x \<le> x" by (cases x) simp_all
  show "x \<le> y \<Longrightarrow> y \<le> z \<Longrightarrow> x \<le> z" by (cases x; cases y; cases z) simp_all
  show "x \<le> y \<Longrightarrow> y \<le> x \<Longrightarrow> x = y" by (cases x; cases y) simp_all
  show "x \<le> y \<or> y \<le> x" by (cases x; cases y) auto
qed

end

definition sentinel :: "rank_direction \<Rightarrow> score" where
  "sentinel dir = (case dir of Top \<Rightarrow> Neg_Inf | Bottom \<Rightarrow> Pos_Inf)"

type_synonym day_closes = "(string \<times> rat) list"

text \<open>\<open>close\_by\_date\<close>: for each date the closes by ticker, a later row replacing an earlier one.\<close>

definition put_close :: "int \<times> string \<times> rat \<Rightarrow> (int \<times> day_closes) list \<Rightarrow> (int \<times> day_closes) list" where
  "put_close r d = AList.update (row_date r)
     (AList.update (row_ticker r) (row_value r) (case map_of d (row_date r) of None \<Rightarrow> [] | Some m \<Rightarrow> m)) d"

definition sorted_dates :: "long \<Rightarrow> int list" where
  "sorted_dates prices = sorted_list_of_set (row_date ` set prices)"

definition close_by_date :: "long \<Rightarrow> (int \<times> day_closes) list" where
  "close_by_date prices = fold put_close prices (map (\<lambda>d. (d, [])) (sorted_dates prices))"

definition closes_on :: "long \<Rightarrow> int \<Rightarrow> day_closes" where
  "closes_on prices d = (case map_of (close_by_date prices) d of None \<Rightarrow> [] | Some m \<Rightarrow> m)"

definition ticker_score :: "rank_direction \<Rightarrow> day_closes \<Rightarrow> day_closes \<Rightarrow> string \<Rightarrow> score" where
  "ticker_score dir current prior t = (case (map_of current t, map_of prior t) of
     (Some c, Some p) \<Rightarrow> if p \<noteq> 0 then Score (fdiv (fsub c p) p) else sentinel dir
   | _ \<Rightarrow> sentinel dir)"

text \<open>\<open>list.sort(key=, reverse=)\<close> is stable in both directions.\<close>

definition ranked_tickers :: "rank_direction \<Rightarrow> (string \<Rightarrow> score) \<Rightarrow> string list \<Rightarrow> string list" where
  "ranked_tickers dir sc universe = (case dir of Top \<Rightarrow> rev (sort_key sc (rev universe)) | Bottom \<Rightarrow> sort_key sc universe)"

definition day_rows :: "rank_direction \<Rightarrow> string list \<Rightarrow> nat \<Rightarrow> nat \<Rightarrow> long \<Rightarrow> nat \<Rightarrow> long" where
  "day_rows dir universe k lookback prices i =
     (let day = sorted_dates prices ! i in
      if i < lookback then map (\<lambda>t. (day, t, 0)) universe
      else let prior = closes_on prices (sorted_dates prices ! (i - lookback)); current = closes_on prices day;
          winners = set (take k (ranked_tickers dir (ticker_score dir current prior) universe)) in
        map (\<lambda>t. (day, t, if t \<in> winners then fdiv 1 (of_nat k) else 0)) universe)"

definition selected_k :: "int option \<Rightarrow> nat \<Rightarrow> int res" where
  "selected_k k n = (let sel = (case k of Some j \<Rightarrow> j | None \<Rightarrow> int n) in
     if int n < sel then Inl ValueError else if sel \<le> 0 then Inl ValueError else Inr sel)"

definition rank_signals :: "research_plan \<Rightarrow> long \<Rightarrow> int \<Rightarrow> int option \<Rightarrow> rank_direction \<Rightarrow> long res" where
  "rank_signals plan prices lookback_days k dir =
     (if lookback_days \<le> 0 then Inl ValueError
      else bind_res (selected_k k (length (rp_universe plan))) (\<lambda>sel.
        Inr (concat (map (day_rows dir (rp_universe plan) (nat sel) (nat lookback_days) prices)
          [0..<length (sorted_dates prices)]))))"

definition momentum_signals :: "research_plan \<Rightarrow> long \<Rightarrow> int \<Rightarrow> int option \<Rightarrow> long res" where
  "momentum_signals plan prices lookback_days top_k = rank_signals plan prices lookback_days top_k Top"

definition mean_reversion_signals :: "research_plan \<Rightarrow> long \<Rightarrow> int \<Rightarrow> int option \<Rightarrow> long res" where
  "mean_reversion_signals plan prices lookback_days bottom_k = rank_signals plan prices lookback_days bottom_k Bottom"

section \<open>Executors\<close>

text \<open>\<open>min(...)\<close> and \<open>max(...)\<close> over the windows; the plan's bounds are aware.\<close>

definition first_test_start :: "(pydt \<Rightarrow> int) \<Rightarrow> research_plan \<Rightarrow> int res" where
  "first_test_start day_of plan = (case rp_walk_forward plan of [] \<Rightarrow> Inl ValueError
     | w # ws \<Rightarrow> Inr (day_of (foldl (\<lambda>a b. if micros b < micros a then b else a) (wf_test_start w) (map wf_test_start ws))))"

definition last_test_end :: "(pydt \<Rightarrow> int) \<Rightarrow> research_plan \<Rightarrow> int res" where
  "last_test_end day_of plan = (case rp_walk_forward plan of [] \<Rightarrow> Inl ValueError
     | w # ws \<Rightarrow> Inr (day_of (foldl (\<lambda>a b. if micros a < micros b then b else a) (wf_test_end w) (map wf_test_end ws))))"

definition buy_and_hold_executor :: "'w env \<Rightarrow> polars \<Rightarrow> dec_ctx \<Rightarrow> (pydt \<Rightarrow> int) \<Rightarrow> 'w bars_client \<Rightarrow> decimal \<Rightarrow>
    research_plan \<Rightarrow> ('w, backtest_report) eff" where
  "buy_and_hold_executor env pl fx day_of client notional_usd plan =
     seq (lift_res (first_test_start day_of plan)) (\<lambda>start.
     seq (lift_res (last_test_end day_of plan)) (\<lambda>end.
     seq (fetch_prices client (rp_universe plan) start end) (\<lambda>prices.
     run_walk_forward env pl fx plan prices (buy_and_hold_signals pl plan prices) notional_usd)))"

definition buffer_days :: "int \<Rightarrow> int" where
  "buffer_days lookback_days = max (lookback_days * 2) (lookback_days + 7)"

definition rank_executor :: "'w env \<Rightarrow> polars \<Rightarrow> dec_ctx \<Rightarrow> (pydt \<Rightarrow> int) \<Rightarrow> 'w bars_client \<Rightarrow> int \<Rightarrow> int option \<Rightarrow>
    rank_direction \<Rightarrow> decimal \<Rightarrow> research_plan \<Rightarrow> ('w, backtest_report) eff" where
  "rank_executor env pl fx day_of client lookback_days k dir notional_usd plan =
     seq (lift_res (first_test_start day_of plan)) (\<lambda>first.
     seq (lift_res (last_test_end day_of plan)) (\<lambda>end.
     seq (fetch_prices client (rp_universe plan) (first - buffer_days lookback_days) end) (\<lambda>prices.
     seq (lift_res (rank_signals plan prices lookback_days k dir)) (\<lambda>signals.
     run_walk_forward env pl fx plan prices signals notional_usd))))"

definition make_rank_executor :: "'w env \<Rightarrow> polars \<Rightarrow> dec_ctx \<Rightarrow> (pydt \<Rightarrow> int) \<Rightarrow> 'w bars_client \<Rightarrow> int \<Rightarrow> int option \<Rightarrow>
    rank_direction \<Rightarrow> decimal \<Rightarrow> (research_plan \<Rightarrow> ('w, backtest_report) eff) res" where
  "make_rank_executor env pl fx day_of client lookback_days k dir notional_usd =
     (if lookback_days \<le> 0 then Inl ValueError
      else Inr (rank_executor env pl fx day_of client lookback_days k dir notional_usd))"

section \<open>Templates\<close>

datatype strategy_spec =
    BuyAndHoldSpec
  | MomentumSpec int "int option"        \<comment> \<open>\<open>lookback\_days\<close>, \<open>top\_k\<close>\<close>
  | MeanReversionSpec int "int option"   \<comment> \<open>\<open>lookback\_days\<close>, \<open>bottom\_k\<close>\<close>

definition rank_fields_ok :: "int \<Rightarrow> int option \<Rightarrow> bool" where
  "rank_fields_ok lookback_days k = (0 < lookback_days \<and> (case k of None \<Rightarrow> True | Some j \<Rightarrow> 1 \<le> j))"

definition validate_spec :: "strategy_spec \<Rightarrow> strategy_spec res" where
  "validate_spec s = (case s of
     BuyAndHoldSpec \<Rightarrow> Inr s
   | MomentumSpec l k \<Rightarrow> bind_res (check (rank_fields_ok l k)) (\<lambda>_. Inr s)
   | MeanReversionSpec l k \<Rightarrow> bind_res (check (rank_fields_ok l k)) (\<lambda>_. Inr s))"

definition make_jquants_executor :: "'w env \<Rightarrow> polars \<Rightarrow> dec_ctx \<Rightarrow> (pydt \<Rightarrow> int) \<Rightarrow> 'w bars_client \<Rightarrow> strategy_spec \<Rightarrow>
    decimal \<Rightarrow> (research_plan \<Rightarrow> ('w, backtest_report) eff) res" where
  "make_jquants_executor env pl fx day_of client spec notional_usd = (case spec of
     BuyAndHoldSpec \<Rightarrow> Inr (buy_and_hold_executor env pl fx day_of client notional_usd)
   | MomentumSpec l k \<Rightarrow> make_rank_executor env pl fx day_of client l k Top notional_usd
   | MeanReversionSpec l k \<Rightarrow> make_rank_executor env pl fx day_of client l k Bottom notional_usd)"

end
