(* ===== verification/Backtest_Laws.thy ===== *)
theory Backtest_Laws
  imports Signals
begin

text \<open>
  The backtest does not look ahead, its metrics stay in their ranges, and the ranking templates hold the best
  tickers.
\<close>

section \<open>Drawdown\<close>

lemma drawdown_loop_unit:
  assumes "\<forall>r\<in>set rs. - 1 \<le> r" and "0 \<le> equity" and "1 \<le> peak" and "fl64 peak = peak" and "0 \<le> worst" and "worst \<le> 1"
  shows "0 \<le> drawdown_loop rs equity peak worst \<and> drawdown_loop rs equity peak worst \<le> 1"
  using assms
proof (induction rs arbitrary: equity peak worst)
  case (Cons r rs)
  let ?e = "fmul equity (fadd 1 r)"
  let ?p = "max peak ?e"
  let ?d = "fdiv (fsub ?p ?e) ?p"
  have f: "0 \<le> fadd 1 r" using Cons.prems(1) by (intro fadd_nonneg) simp
  have e: "0 \<le> ?e" "fl64 ?e = ?e"
    using f Cons.prems(2) by (simp_all add: fmul_def fl64_idem fl64_nonneg)
  have p: "1 \<le> ?p" "fl64 ?p = ?p" using Cons.prems e by (auto simp: max_def)
  have "0 \<le> fsub ?p ?e \<and> fsub ?p ?e \<le> ?p" using e p by (intro fsub_between) simp_all
  then have "0 \<le> ?d \<and> ?d \<le> 1" using p(1) by (intro fdiv_unit) simp_all
  moreover have "0 < ?p" using p(1) by simp
  ultimately show ?case
    using Cons.IH [OF _ e(1) p(1,2), of "max worst ?d"] Cons.prems(1,5,6) by (simp add: Let_def le_max_iff_disj)
qed simp

lemma max_drawdown_range:
  assumes "\<forall>r\<in>set net. - 1 \<le> r"
  shows "pct_ok (max_drawdown_pct net)"
proof -
  have "0 \<le> drawdown_loop net 1 1 0 \<and> drawdown_loop net 1 1 0 \<le> 1"
    using assms by (intro drawdown_loop_unit) simp_all
  then have "0 \<le> fmul (drawdown_loop net 1 1 0) 100 \<and> fmul (drawdown_loop net 1 1 0) 100 \<le> 100"
    by (simp add: fmul_percent)
  then have "0 \<le> dval (max_drawdown_pct net) \<and> dval (max_drawdown_pct net) \<le> 100"
    by (simp add: max_drawdown_pct_def decimal_of_float_nonneg decimal_of_float_le_100)
  then show ?thesis by (simp add: pct_ok_def dec_ge0_def dec_le_iff dval_Dec)
qed

section \<open>Frames by column\<close>

lemma map_of_tagged: "map_of (map (\<lambda>c. (c, f c)) cs) c = (if c \<in> set cs then Some (f c) else None)"
  by (simp add: map_of_map_restrict restrict_map_def)

definition frame_of :: "int list \<Rightarrow> string list \<Rightarrow> (string \<Rightarrow> 'c list) \<Rightarrow> 'c wide" where
  "frame_of ds cs f = \<lparr>wd_dates = ds, wd_cols = map (\<lambda>c. (c, f c)) cs\<rparr>"

lemma frame_of_simps [simp]:
  "wd_dates (frame_of ds cs f) = ds" "wd_cols (frame_of ds cs f) = map (\<lambda>c. (c, f c)) cs"
  "ticker_cols (frame_of ds cs f) = cs" "map_cols g (frame_of ds cs f) = frame_of ds cs (\<lambda>c. g (f c))"
  by (simp_all add: frame_of_def ticker_cols_def map_cols_def o_def)

lemma length_named_rows [simp]: "length (named_rows w) = length (wd_dates w)"
  by (simp add: named_rows_def)

lemma take_named_rows:
  assumes "k \<le> length ds" and "k \<le> length es" and "\<And>c. c \<in> set cs \<Longrightarrow> take k (f c) = take k (g c)"
  shows "take k (named_rows (frame_of ds cs f)) = take k (named_rows (frame_of es cs g))"
proof -
  have "f c ! i = g c ! i" if "c \<in> set cs" "i < k" for c i
    using assms(3) [OF that(1)] that(2) by (metis nth_take)
  then show ?thesis using assms(1,2) by (auto simp: named_rows_def take_map min_def)
qed

section \<open>Days before and after\<close>

text \<open>Each loop reads the rows from the first day on.\<close>

lemma rows_return_take: "rows_return cs rs ss = Inr xs \<Longrightarrow> rows_return cs (take k rs) (take k ss) = Inr (take k xs)"
  by (induction cs rs ss arbitrary: xs k rule: rows_return.induct) (auto simp: bind_res_Inr_iff take_Cons split: nat.split)

lemma rows_return_length: "rows_return cs rs ss = Inr xs \<Longrightarrow> length xs = length rs"
  by (induction cs rs ss arbitrary: xs rule: rows_return.induct) (auto simp: bind_res_Inr_iff)

lemma cost_rows_take: "cost_rows rate cs prev rs = Inr xs \<Longrightarrow> cost_rows rate cs prev (take k rs) = Inr (take k xs)"
  by (induction rate cs prev rs arbitrary: xs k rule: cost_rows.induct)
    (auto simp: bind_res_Inr_iff take_Cons split: nat.split prod.splits)

lemma cost_rows_length: "cost_rows rate cs prev rs = Inr xs \<Longrightarrow> length xs = length rs"
  by (induction rate cs prev rs arbitrary: xs rule: cost_rows.induct) (auto simp: bind_res_Inr_iff split: prod.splits)

lemma length_net_returns: "length (net_returns p c) = length p - 1"
  by (simp add: net_returns_def)

lemma net_returns_nth: "Suc i < length p \<Longrightarrow> net_returns p c ! i = fsub (p ! Suc i) (c ! i)"
  using nth_upt [of 1 i "length p"] by (simp add: net_returns_def)

lemma take_net_returns:
  assumes "take k p = take k q" and "take k c = take k d" and "k \<le> length p" and "k \<le> length q"
  shows "take (k - 1) (net_returns p c) = take (k - 1) (net_returns q d)"
proof (rule nth_equalityI)
  show "length (take (k - 1) (net_returns p c)) = length (take (k - 1) (net_returns q d))"
    using assms(3,4) by (simp add: length_net_returns)
  fix i assume "i < length (take (k - 1) (net_returns p c))"
  then have i: "Suc i < k" "Suc i < length p" "Suc i < length q" using assms(3,4) by (auto simp: length_net_returns)
  have "p ! Suc i = q ! Suc i" "c ! i = d ! i"
    using i(1) assms(1,2) by (metis nth_take, metis Suc_lessD nth_take)
  with i show "take (k - 1) (net_returns p c) ! i = take (k - 1) (net_returns q d) ! i"
    by (simp add: net_returns_nth)
qed

lemma sorted_filter_le: "sorted xs \<Longrightarrow> take (length (filter (\<lambda>d. d \<le> D) xs)) xs = filter (\<lambda>d. d \<le> D) (xs :: int list)"
proof (induction xs)
  case (Cons a xs)
  show ?case
  proof (cases "a \<le> D")
    case False
    with Cons.prems have "filter (\<lambda>d. d \<le> D) xs = []" by (fastforce simp: filter_empty_conv)
    with False show ?thesis by simp
  qed (use Cons in simp)
qed simp

section \<open>Closed forms of the frames\<close>

definition in_window :: "walk_forward_window \<Rightarrow> long \<Rightarrow> long" where
  "in_window w l = filter (\<lambda>r. micros (wf_test_start w) \<le> row_date r \<and> row_date r \<le> micros (wf_test_end w)) l"

definition weight_at :: "long \<Rightarrow> int \<Rightarrow> string \<Rightarrow> rat" where
  "weight_at l d c = (case long_cell l d c of None \<Rightarrow> 0 | Some x \<Rightarrow> x)"

lemma column_at_map: "distinct ds \<Longrightarrow> column_at ds (map g ds) es = map (\<lambda>d. if d \<in> set ds then g d else None) es"
  by (auto simp: column_at_def map_of_zip_map split: option.split)

lemma long_cell_None: "d \<notin> row_date ` set l \<Longrightarrow> long_cell l d c = None"
  by (auto simp: long_cell_def find_None_iff)

lemma pivot_frame_form:
  assumes "polars_ok pl" and "pivot_frame pl l = Inr w"
  shows "\<exists>cs. distinct cs \<and> set cs = row_ticker ` set l \<and> w = (let ds = sorted_list_of_set (row_date ` set l) in
    frame_of ds cs (\<lambda>c. map (\<lambda>d. long_cell l d c) ds))"
proof -
  obtain v where v: "pl_pivot pl l = Inr v" "w = pl_sort pl v"
    using assms(2) by (auto simp: pivot_frame_def bind_res_Inr_iff)
  have p: "pivots l v" using polars_okD(2) [OF assms(1) v(1)] .
  then have s: "sort (wd_dates v) = sorted_list_of_set (row_date ` set l)"
    by (metis pivots_def sorted_list_of_set_sort_remdups distinct_remdups_id)
  have cols: "wd_cols v = map (\<lambda>c. (c, map (\<lambda>d. long_cell l d c) (wd_dates v))) (ticker_cols v)"
    using p by (simp add: pivots_def)
  have "w = frame_of (sort (wd_dates v)) (ticker_cols v) (\<lambda>c. map (\<lambda>d. long_cell l d c) (sort (wd_dates v)))"
    using p unfolding v(2) polars_okD(3) [OF assms(1) p [unfolded pivots_def, THEN conjunct1]]
    by (subst cols) (auto simp: frame_of_def column_at_map pivots_def)
  with p s show ?thesis by (auto simp: pivots_def)
qed

lemma align_form:
  assumes "polars_ok pl" and "pivot_frame pl l = Inr sw"
  shows "align_columns pl (frame_of ds cs f) sw = frame_of ds cs (\<lambda>c. map (\<lambda>d. weight_at l d c) ds)"
proof -
  let ?es = "sorted_list_of_set (row_date ` set l)"
  obtain ts where ts: "distinct ts" "set ts = row_ticker ` set l" "sw = frame_of ?es ts (\<lambda>c. map (\<lambda>d. long_cell l d c) ?es)"
    using pivot_frame_form [OF assms] by (auto simp: Let_def)
  have "(if d \<in> set ?es then long_cell l d c else None) = long_cell l d c" for d c
    using long_cell_None by simp
  then have j: "pl_join_left pl ds sw = frame_of ds ts (\<lambda>c. map (\<lambda>d. long_cell l d c) ds)"
    using polars_okD(4) [OF assms(1), of sw ds] by (simp add: ts(3) column_at_map)
  have none: "long_cell l d c = None" if "c \<notin> set ts" for d c
    using that ts(2) by (auto simp: long_cell_def find_None_iff)
  have fill: "pl_fill_null pl 0 (case map_of (wd_cols (pl_join_left pl ds sw)) c of None \<Rightarrow> replicate (length ds) (Some 0) | Some v \<Rightarrow> v) =
      map (\<lambda>d. weight_at l d c) ds" for c
    using none by (auto simp: j map_of_tagged polars_okD(8) [OF assms(1)] weight_at_def o_def map_replicate_const)
  have dates: "wd_dates (pl_join_left pl ds sw) = ds" by (simp add: j)
  show ?thesis unfolding align_columns_def Let_def frame_of_simps dates fill by (simp add: frame_of_def)
qed

lemma fold_series_form:
  assumes "polars_ok pl" and "fold_series pl fx w prices signals cb sb = Inr (aligned, net)"
  defines "fp \<equiv> in_window w prices" and "fs \<equiv> in_window w signals"
  defines "ds \<equiv> sorted_list_of_set (row_date ` set fp)"
  obtains cs p c where "distinct cs" and "aligned = frame_of ds cs (\<lambda>c. map (\<lambda>d. weight_at fs d c) ds)"
    and "portfolio_returns (frame_of ds cs (\<lambda>c. pl_fill_null pl 0 (pl_pct_change pl (map (\<lambda>d. long_cell fp d c) ds))))
           (frame_of ds cs (\<lambda>c. pl_fill_null pl 0 (pl_shift pl (map (\<lambda>d. weight_at fs d c) ds)))) = Inr p"
    and "cost_series fx aligned cb sb = Inr c" and "net = net_returns p c" and "fp \<noteq> []"
proof -
  have win: "filter_to_window pl l (wf_test_start w) (wf_test_end w) = in_window w l" for l
    by (simp add: filter_to_window_def in_window_def polars_okD(1) [OF assms(1)])
  obtain pw sw p c where s: "fp \<noteq> []" "pivot_frame pl fp = Inr pw" "pivot_frame pl fs = Inr sw"
    "portfolio_returns (daily_returns pl pw) (shift_one_day pl (align_columns pl pw sw)) = Inr p"
    "cost_series fx (align_columns pl pw sw) cb sb = Inr c" "aligned = align_columns pl pw sw" "net = net_returns p c"
    using assms(2) unfolding fold_series_def win fp_def [symmetric] fs_def [symmetric]
    by (auto simp: bind_res_Inr_iff Let_def split: if_splits)
  obtain cs where cs: "distinct cs" "pw = frame_of ds cs (\<lambda>c. map (\<lambda>d. long_cell fp d c) ds)"
    using pivot_frame_form [OF assms(1) s(2)] by (auto simp: Let_def ds_def)
  have al: "align_columns pl pw sw = frame_of ds cs (\<lambda>c. map (\<lambda>d. weight_at fs d c) ds)"
    unfolding cs(2) by (rule align_form [OF assms(1) s(3)])
  from s(4) have "portfolio_returns (frame_of ds cs (\<lambda>c. pl_fill_null pl 0 (pl_pct_change pl (map (\<lambda>d. long_cell fp d c) ds))))
           (frame_of ds cs (\<lambda>c. pl_fill_null pl 0 (pl_shift pl (map (\<lambda>d. weight_at fs d c) ds)))) = Inr p"
    unfolding al unfolding cs(2) by (simp add: daily_returns_def shift_one_day_def)
  then show ?thesis using that [OF cs(1)] s al by simp
qed

section \<open>No look-ahead\<close>

definition upto :: "int \<Rightarrow> long \<Rightarrow> long" where
  "upto D l = filter (\<lambda>r. row_date r \<le> D) l"

text \<open>The number of days of the window up to a date.\<close>

definition known_days :: "walk_forward_window \<Rightarrow> int \<Rightarrow> long \<Rightarrow> nat" where
  "known_days w D prices = card {d \<in> row_date ` set (in_window w prices). d \<le> D}"

lemma upto_window: "upto D (in_window w l) = in_window w (upto D l)"
  by (auto simp: upto_def in_window_def intro: filter_cong)

lemma long_cell_upto: "d \<le> D \<Longrightarrow> long_cell (upto D l) d c = long_cell l d c"
proof -
  assume "d \<le> D"
  then have "find (\<lambda>r. row_date r = d \<and> row_ticker r = c) (upto D l) = find (\<lambda>r. row_date r = d \<and> row_ticker r = c) l"
    by (induction l) (auto simp: upto_def)
  then show ?thesis by (simp add: long_cell_def)
qed

lemma long_cell_agree: "upto D l = upto D m \<Longrightarrow> d \<le> D \<Longrightarrow> long_cell l d c = long_cell m d c"
  by (metis long_cell_upto)

lemma dates_upto: "{d \<in> row_date ` set l. d \<le> D} = row_date ` set (upto D l)"
  by (auto simp: upto_def)

lemma take_dates:
  fixes l :: long
  defines "ds \<equiv> sorted_list_of_set (row_date ` set l)"
  shows "take (card {d \<in> row_date ` set l. d \<le> D}) ds = sorted_list_of_set (row_date ` set (upto D l)) \<and>
    card {d \<in> row_date ` set l. d \<le> D} \<le> length ds"
proof -
  have "filter (\<lambda>d. d \<le> D) ds = sorted_list_of_set (row_date ` set (upto D l))"
    unfolding ds_def dates_upto [symmetric] by (rule sorted_distinct_set_unique) (simp_all add: sorted_wrt_filter distinct_filter)
  moreover have "length (filter (\<lambda>d. d \<le> D) ds) = card {d \<in> row_date ` set l. d \<le> D}"
    unfolding ds_def by (subst distinct_length_filter) (simp_all add: Int_def conj_commute)
  moreover have "length (filter (\<lambda>d. d \<le> D) ds) \<le> length ds" by simp
  ultimately show ?thesis using sorted_filter_le [of ds D] by (simp add: ds_def)
qed

lemma take_Suc_butlast: "take k (None # map Some (butlast v)) = take k (None # map Some (take (k - 1) v)) \<or> length v \<le> k"
proof (cases k)
  case (Suc j)
  then show ?thesis by (cases "length v \<le> Suc j") (simp_all add: take_map take_butlast)
qed simp

lemma take_shift:
  assumes "polars_ok pl" and "take k u = take k v" and "k \<le> length u" and "k \<le> length v"
  shows "take k (pl_fill_null pl 0 (pl_shift pl u)) = take k (pl_fill_null pl 0 (pl_shift pl v))"
proof (cases k)
  case (Suc j)
  then have ne: "u \<noteq> []" "v \<noteq> []" using assms(3,4) by auto
  have "take j (butlast x) = take j x" if "Suc j \<le> length x" for x :: "rat list"
    using that by (simp add: take_butlast)
  then have "take j (butlast u) = take j (butlast v)" using assms(2-4) Suc
    by (metis Suc_leD min.absorb1 take_take nat_le_linear not_less_eq_eq)
  then show ?thesis using ne Suc by (simp add: polars_okD(7,8) [OF assms(1)] take_map)
qed simp

lemma no_lookahead:
  assumes "polars_ok pl"
    and "fold_series pl fx w prices1 signals1 cb sb = Inr (a1, net1)"
    and "fold_series pl fx w prices2 signals2 cb sb = Inr (a2, net2)"
    and "upto D prices1 = upto D prices2" and "upto D signals1 = upto D signals2" and "ticker_cols a1 = ticker_cols a2"
  shows "take (known_days w D prices1 - 1) net1 = take (known_days w D prices1 - 1) net2 \<and>
    known_days w D prices1 - 1 \<le> length net1"
proof -
  note pl = assms(1)
  let ?fp1 = "in_window w prices1" and ?fp2 = "in_window w prices2"
  let ?fs1 = "in_window w signals1" and ?fs2 = "in_window w signals2"
  define ds1 where "ds1 = sorted_list_of_set (row_date ` set ?fp1)"
  define ds2 where "ds2 = sorted_list_of_set (row_date ` set ?fp2)"
  obtain cs p1 c1 where s1: "distinct cs" "a1 = frame_of ds1 cs (\<lambda>c. map (\<lambda>d. weight_at ?fs1 d c) ds1)"
    "portfolio_returns (frame_of ds1 cs (\<lambda>c. pl_fill_null pl 0 (pl_pct_change pl (map (\<lambda>d. long_cell ?fp1 d c) ds1))))
      (frame_of ds1 cs (\<lambda>c. pl_fill_null pl 0 (pl_shift pl (map (\<lambda>d. weight_at ?fs1 d c) ds1)))) = Inr p1"
    "cost_series fx a1 cb sb = Inr c1" "net1 = net_returns p1 c1"
    using fold_series_form [OF pl assms(2), folded ds1_def] by metis
  obtain cs2 p2 c2 where s2: "a2 = frame_of ds2 cs2 (\<lambda>c. map (\<lambda>d. weight_at ?fs2 d c) ds2)"
    "portfolio_returns (frame_of ds2 cs2 (\<lambda>c. pl_fill_null pl 0 (pl_pct_change pl (map (\<lambda>d. long_cell ?fp2 d c) ds2))))
      (frame_of ds2 cs2 (\<lambda>c. pl_fill_null pl 0 (pl_shift pl (map (\<lambda>d. weight_at ?fs2 d c) ds2)))) = Inr p2"
    "cost_series fx a2 cb sb = Inr c2" "net2 = net_returns p2 c2"
    using fold_series_form [OF pl assms(3), folded ds2_def] by metis
  have cs2: "cs2 = cs" using assms(6) s1(2) s2(1) by simp
  let ?k = "known_days w D prices1"
  have fp: "upto D ?fp1 = upto D ?fp2" and fs: "upto D ?fs1 = upto D ?fs2" using assms(4,5) by (simp_all add: upto_window)
  have k2: "?k = known_days w D prices2" using fp by (simp add: known_days_def dates_upto)
  have td: "take ?k ds1 = take ?k ds2" "?k \<le> length ds1" "?k \<le> length ds2"
    using take_dates [of ?fp1 D] take_dates [of ?fp2 D] fp k2 by (simp_all add: ds1_def ds2_def known_days_def)
  have le: "d \<le> D" if "d \<in> set (take ?k ds1)" for d
    using that take_dates [of ?fp1 D] by (auto simp: ds1_def known_days_def upto_def)
  have pc: "take ?k (map (\<lambda>d. long_cell ?fp1 d c) ds1) = take ?k (map (\<lambda>d. long_cell ?fp2 d c) ds2)" for c
    unfolding take_map td(1) [symmetric] using le long_cell_agree [OF fp] by (intro map_cong) auto
  have wc: "take ?k (map (\<lambda>d. weight_at ?fs1 d c) ds1) = take ?k (map (\<lambda>d. weight_at ?fs2 d c) ds2)" for c
    unfolding take_map td(1) [symmetric] weight_at_def using le long_cell_agree [OF fs] by (intro map_cong) auto
  have fill: "take k (pl_fill_null pl 0 v) = pl_fill_null pl 0 (take k v)" for k v
    by (simp add: polars_okD(8) [OF pl] take_map)
  have rets: "take ?k (named_rows (frame_of ds1 cs (\<lambda>c. pl_fill_null pl 0 (pl_pct_change pl (map (\<lambda>d. long_cell ?fp1 d c) ds1))))) =
      take ?k (named_rows (frame_of ds2 cs (\<lambda>c. pl_fill_null pl 0 (pl_pct_change pl (map (\<lambda>d. long_cell ?fp2 d c) ds2)))))"
    by (rule take_named_rows) (use td(2,3) in \<open>simp_all add: fill polars_okD(6) [OF pl] pc\<close>)
  have lags: "take ?k (named_rows (frame_of ds1 cs (\<lambda>c. pl_fill_null pl 0 (pl_shift pl (map (\<lambda>d. weight_at ?fs1 d c) ds1))))) =
      take ?k (named_rows (frame_of ds2 cs (\<lambda>c. pl_fill_null pl 0 (pl_shift pl (map (\<lambda>d. weight_at ?fs2 d c) ds2)))))"
    by (rule take_named_rows) (use td(2,3) in \<open>simp_all add: take_shift [OF pl wc]\<close>)
  have wts: "take ?k (named_rows a1) = take ?k (named_rows a2)"
    unfolding s1(2) s2(1) cs2 by (rule take_named_rows) (use td(2,3) wc in simp_all)
  have "take ?k p1 = take ?k p2" and lp: "length p1 = length ds1" "length p2 = length ds2"
    using rows_return_take [OF s1(3) [unfolded portfolio_returns_def], of ?k] rows_return_take [OF s2(2) [unfolded portfolio_returns_def], of ?k]
      rows_return_length [OF s1(3) [unfolded portfolio_returns_def]] rows_return_length [OF s2(2) [unfolded portfolio_returns_def]]
      rets lags by (simp_all add: cs2)
  moreover have "take ?k c1 = take ?k c2"
    using cost_rows_take [OF s1(4) [unfolded cost_series_def Let_def], of ?k] cost_rows_take [OF s2(3) [unfolded cost_series_def Let_def], of ?k]
      wts by (simp add: s1(2) s2(1) cs2)
  ultimately show ?thesis
    using td(2,3) take_net_returns [of ?k p1 p2 c1 c2] by (simp add: s1(5) s2(4) length_net_returns diff_le_mono)
qed

section \<open>Metrics in range\<close>

lemma row_changes_ok:
  assumes "\<forall>c\<in>set cs. map_of r c \<noteq> None \<and> map_of prev c \<noteq> None" and "P acc" and "\<And>x a. 0 \<le> x \<Longrightarrow> P a \<Longrightarrow> P (step x a)"
  shows "\<exists>acc' prev'. row_changes step cs r prev acc = Inr (acc', prev') \<and> P acc' \<and> (\<forall>c. map_of prev c \<noteq> None \<longrightarrow> map_of prev' c \<noteq> None)"
  using assms
proof (induction cs arbitrary: prev acc)
  case (Cons c cs)
  then obtain x y where xy: "map_of r c = Some x" "map_of prev c = Some y" by auto
  have "\<exists>acc' prev'. row_changes step cs r (AList.update c x prev) (step \<bar>fsub x y\<bar> acc) = Inr (acc', prev') \<and> P acc' \<and>
      (\<forall>d. map_of (AList.update c x prev) d \<noteq> None \<longrightarrow> map_of prev' d \<noteq> None)"
    using Cons.prems by (intro Cons.IH) (auto simp: map_of_update)
  with xy show ?case by (fastforce simp: row_get_def map_of_update)
qed auto

lemma changes_loop_ok:
  assumes "\<forall>r\<in>set rs. \<forall>c\<in>set cs. map_of r c \<noteq> None" and "\<forall>c\<in>set cs. map_of prev c \<noteq> None"
    and "P acc" and "\<And>x a. 0 \<le> x \<Longrightarrow> P a \<Longrightarrow> P (step x a)"
  shows "\<exists>acc'. changes_loop step cs rs prev acc = Inr acc' \<and> P acc'"
  using assms
proof (induction rs arbitrary: prev acc)
  case (Cons r rs)
  obtain acc1 prev1 where s: "row_changes step cs r prev acc = Inr (acc1, prev1)" "P acc1" "\<forall>c. map_of prev c \<noteq> None \<longrightarrow> map_of prev1 c \<noteq> None"
    using row_changes_ok [where P = P, of cs r prev acc step] Cons.prems by auto
  then have "\<exists>acc'. changes_loop step cs rs prev1 acc1 = Inr acc' \<and> P acc'" using Cons.prems by (intro Cons.IH) auto
  with s show ?case by simp
qed simp

lemma frame_rows_complete: "r \<in> set (named_rows (frame_of ds cs f)) \<Longrightarrow> c \<in> set cs \<Longrightarrow> map_of r c \<noteq> None"
  by (auto simp: named_rows_def o_def map_of_tagged)

lemma flat_book_complete: "c \<in> set cs \<Longrightarrow> map_of (flat_book cs) c \<noteq> None"
  by (simp add: flat_book_def map_of_tagged)

lemma turnover_ok: "\<exists>tn. turnover (frame_of ds cs f) = Inr tn \<and> 0 \<le> dval tn"
proof (cases "ds = []")
  case False
  have "\<exists>s. changes_loop add_change cs (named_rows (frame_of ds cs f)) (flat_book cs) 0 = Inr s \<and> 0 \<le> s"
    by (rule changes_loop_ok [where P = "\<lambda>x. 0 \<le> x"])
      (simp_all add: frame_rows_complete flat_book_complete add_change_def fadd_nonneg del: not_None_eq)
  then show ?thesis using False by (auto simp: turnover_def Let_def decimal_of_float_nonneg fdiv_nonneg)
qed (simp add: turnover_def)

lemma n_trades_ok: "\<exists>tr. n_trades (frame_of ds cs f) = Inr tr"
proof -
  have "\<exists>n. changes_loop count_trade cs (named_rows (frame_of ds cs f)) (flat_book cs) 0 = Inr n \<and> True"
    by (rule changes_loop_ok [where P = "\<lambda>_. True"]) (simp_all add: frame_rows_complete flat_book_complete del: not_None_eq)
  then show ?thesis by (simp add: n_trades_def)
qed

text \<open>A fold whose net returns are all at least -100 % is reported. When the series of the fold can be
  computed, the metrics of the fold are, none of the checks of its record refuses them, and the maximal
  drawdown lies between 0 and 100 per cent and the turnover is not negative, rounding included.\<close>

theorem fold_reported:
  assumes "polars_ok pl" and "fold_series pl fx w prices signals cb sb = Inr (aligned, net)" and "\<forall>r\<in>set net. - 1 \<le> r"
  shows "\<exists>f. run_fold pl fx i w prices signals cb sb notional_usd = Inr f \<and> fm_fold_index f = int i \<and>
    0 \<le> dval (fm_max_drawdown_pct f) \<and> dval (fm_max_drawdown_pct f) \<le> 100 \<and> 0 \<le> dval (fm_turnover f)"
proof -
  obtain ds cs f where al: "aligned = frame_of ds cs f"
    using fold_series_form [OF assms(1,2)] by metis
  obtain tn tr where t: "turnover aligned = Inr tn" "0 \<le> dval tn" "n_trades aligned = Inr tr"
    using turnover_ok n_trades_ok unfolding al by metis
  have "pct_ok (max_drawdown_pct net)" using assms(3) by (rule max_drawdown_range)
  with t assms(2) show ?thesis
    by (simp add: run_fold_def validate_fold_def check_def pct_ok_def dec_ge0_def dec_le_iff dval_Dec)
qed

end
