(* ===== verification/Signals_Laws.thy ===== *)
theory Signals_Laws
  imports Backtest_Laws
begin

text \<open>
  The signal templates: the signals of a day depend on the prices up to that day only, so a whole strategy does
  not look ahead; a ranking template holds, on each day with enough history, exactly the best tickers.
\<close>

section \<open>Closes of a day\<close>

definition on_day :: "int \<Rightarrow> long \<Rightarrow> long" where
  "on_day d l = filter (\<lambda>r. row_date r = d) l"

definition put_ticker :: "int \<times> string \<times> rat \<Rightarrow> day_closes \<Rightarrow> day_closes" where
  "put_ticker r m = AList.update (row_ticker r) (row_value r) m"

lemma map_of_put_closes: "map_of (fold put_close rs d0) d = (if on_day d rs = [] then map_of d0 d
    else Some (fold put_ticker (on_day d rs) (case map_of d0 d of None \<Rightarrow> [] | Some m \<Rightarrow> m)))"
  by (induction rs arbitrary: d0) (auto simp: on_day_def put_close_def put_ticker_def map_of_update split: option.split)

lemma closes_on_form: "closes_on prices d = fold put_ticker (on_day d prices) []"
  by (auto simp: closes_on_def close_by_date_def map_of_put_closes map_of_tagged)

lemma on_day_upto: "d \<le> D \<Longrightarrow> on_day d (upto D l) = on_day d l"
  by (auto simp: on_day_def upto_def intro: filter_cong)

lemma closes_on_agree: "upto D p = upto D q \<Longrightarrow> d \<le> D \<Longrightarrow> closes_on p d = closes_on q d"
  by (metis closes_on_form on_day_upto)

section \<open>The signals of a day\<close>

abbreviation seen :: "int \<Rightarrow> long \<Rightarrow> nat" where
  "seen D p \<equiv> card {d \<in> row_date ` set p. d \<le> D}"

lemma seen_dates:
  "take (seen D p) (sorted_dates p) = sorted_dates (upto D p)" "seen D p \<le> length (sorted_dates p)"
  using take_dates [of p D] by (simp_all add: sorted_dates_def)

lemma sorted_dates_nth: "i < length (sorted_dates p) \<Longrightarrow> sorted_dates p ! i \<le> D \<longleftrightarrow> i < seen D p"
proof -
  assume i: "i < length (sorted_dates p)"
  let ?k = "seen D p"
  have in_take: "d \<in> set (take ?k (sorted_dates p)) \<longleftrightarrow> d \<in> set (sorted_dates p) \<and> d \<le> D" for d
    unfolding seen_dates(1) by (auto simp: sorted_dates_def upto_def)
  have dist: "distinct (sorted_dates p)" by (simp add: sorted_dates_def)
  show ?thesis
  proof
    assume "i < ?k"
    then have "sorted_dates p ! i \<in> set (take ?k (sorted_dates p))" using i by (auto simp: in_set_conv_nth intro!: exI [of _ i])
    then show "sorted_dates p ! i \<le> D" by (simp add: in_take)
  next
    assume "sorted_dates p ! i \<le> D"
    then have "sorted_dates p ! i \<in> set (take ?k (sorted_dates p))" using i by (simp add: in_take)
    then obtain j where "j < ?k" "sorted_dates p ! j = sorted_dates p ! i" "j < length (sorted_dates p)"
      by (auto simp: in_set_conv_nth)
    with dist i show "i < ?k" by (simp add: nth_eq_iff_index_eq)
  qed
qed

lemma day_rows_date: "r \<in> set (day_rows dir u k L p i) \<Longrightarrow> row_date r = sorted_dates p ! i"
  by (auto simp: day_rows_def Let_def row_date_def split: if_splits)

lemma day_rows_agree:
  assumes "upto D p = upto D q" and "i < seen D p"
  shows "day_rows dir u k L p i = day_rows dir u k L q i"
proof -
  have eq: "seen D p = seen D q" using assms(1) by (simp add: dates_upto)
  have nth: "sorted_dates p ! j = sorted_dates q ! j \<and> sorted_dates p ! j \<le> D" if "j \<le> i" for j
  proof -
    have j: "j < seen D p" "j < length (sorted_dates p)" using that assms(2) seen_dates(2) [of p D] by linarith+
    then have "sorted_dates p ! j = sorted_dates q ! j"
      using seen_dates(1) [of p D] seen_dates(1) [of q D] assms(1) eq by (metis nth_take)
    with j sorted_dates_nth [of j p D] show ?thesis by simp
  qed
  have c: "closes_on p (sorted_dates p ! j) = closes_on q (sorted_dates q ! j)" if "j \<le> i" for j
    using nth [OF that] closes_on_agree [OF assms(1)] by simp
  show ?thesis using nth [of i] c [of i] c [of "i - L"] by (simp add: day_rows_def Let_def)
qed

lemma filter_concat: "filter P (concat xss) = concat (map (filter P) xss)"
  by (induction xss) simp_all

lemma upto_days:
  assumes "\<And>i r. r \<in> set (f i) \<Longrightarrow> row_date r = sorted_dates p ! i"
  shows "upto D (concat (map f [0..<length (sorted_dates p)])) = concat (map f [0..<seen D p])"
proof -
  have keep: "upto D (f i) = (if i < seen D p then f i else [])" if "i < length (sorted_dates p)" for i
    using assms sorted_dates_nth [OF that] by (auto simp: upto_def filter_id_conv filter_empty_conv)
  have "[0..<length (sorted_dates p)] = [0..<seen D p] @ [seen D p..<length (sorted_dates p)]"
    using upt_add_eq_append [of 0 "seen D p" "length (sorted_dates p) - seen D p"] seen_dates(2) [of p D] by simp
  moreover have "concat (map (\<lambda>i. upto D (f i)) [0..<seen D p]) = concat (map f [0..<seen D p])"
    using seen_dates(2) [of p D] keep by (intro arg_cong [of _ _ concat] map_cong) auto
  moreover have "concat (map (\<lambda>i. upto D (f i)) [seen D p..<length (sorted_dates p)]) = []"
    using keep by simp
  ultimately show ?thesis by (simp add: upto_def filter_concat o_def)
qed

lemma rank_signals_agree:
  assumes "upto D p = upto D q" and "rank_signals plan p L k dir = Inr s" and "rank_signals plan q L k dir = Inr t"
  shows "upto D s = upto D t"
proof -
  have eq: "seen D p = seen D q" using assms(1) by (simp add: dates_upto)
  obtain sel where s: "s = concat (map (day_rows dir (rp_universe plan) (nat sel) (nat L) p) [0..<length (sorted_dates p)])"
    and t: "t = concat (map (day_rows dir (rp_universe plan) (nat sel) (nat L) q) [0..<length (sorted_dates q)])"
    using assms(2,3) by (auto simp: rank_signals_def bind_res_Inr_iff split: if_splits)
  have "upto D s = concat (map (day_rows dir (rp_universe plan) (nat sel) (nat L) p) [0..<seen D p])"
    "upto D t = concat (map (day_rows dir (rp_universe plan) (nat sel) (nat L) q) [0..<seen D q])"
    unfolding s t by (rule upto_days, erule day_rows_date)+
  then show ?thesis using day_rows_agree [OF assms(1)] eq by (auto intro!: arg_cong [of _ _ concat])
qed

lemma buy_and_hold_agree:
  assumes "polars_ok pl" and "upto D p = upto D q"
  shows "upto D (buy_and_hold_signals pl plan p) = upto D (buy_and_hold_signals pl plan q)"
proof -
  have ds: "sort (pl_unique_dates pl (map row_date l)) = sorted_dates l" for l
    using sorted_list_of_set_sort_remdups [of "pl_unique_dates pl (map row_date l)"] polars_okD(11,12) [OF assms(1)]
    by (simp add: sorted_dates_def distinct_remdups_id)
  have index: "map g xs = map (\<lambda>i. g (xs ! i)) [0..<length xs]" for g :: "int \<Rightarrow> long" and xs
    by (rule nth_equalityI) simp_all
  define w where "w = (if 0 < length (rp_universe plan) then fdiv 1 (of_nat (length (rp_universe plan))) else 0)"
  have bh: "buy_and_hold_signals pl plan l = concat (map (\<lambda>i. map (\<lambda>t. (sorted_dates l ! i, t, w)) (rp_universe plan)) [0..<length (sorted_dates l)])" for l
    unfolding buy_and_hold_signals_def Let_def ds w_def [symmetric] by (rule arg_cong [OF index])
  have up: "upto D (buy_and_hold_signals pl plan l) = concat (map (\<lambda>i. map (\<lambda>t. (sorted_dates l ! i, t, w)) (rp_universe plan)) [0..<seen D l])" for l
    unfolding bh by (rule upto_days) (auto simp: row_date_def)
  have eq: "seen D p = seen D q" using assms(2) by (simp add: dates_upto)
  have "sorted_dates p ! i = sorted_dates q ! i" if "i < seen D p" for i
    using that seen_dates(1) [of p D] seen_dates(1) [of q D] assms(2) eq by (metis nth_take)
  then show ?thesis unfolding up eq [symmetric] by (intro arg_cong [of _ _ concat] map_cong) auto
qed

section \<open>Strategies\<close>

definition spec_signals :: "polars \<Rightarrow> research_plan \<Rightarrow> strategy_spec \<Rightarrow> long \<Rightarrow> long res" where
  "spec_signals pl plan spec prices = (case spec of
     BuyAndHoldSpec \<Rightarrow> Inr (buy_and_hold_signals pl plan prices)
   | MomentumSpec l k \<Rightarrow> momentum_signals plan prices l k
   | MeanReversionSpec l k \<Rightarrow> mean_reversion_signals plan prices l k)"

lemma spec_signals_agree:
  assumes "polars_ok pl" and "upto D p = upto D q" and "spec_signals pl plan spec p = Inr s" and "spec_signals pl plan spec q = Inr t"
  shows "upto D s = upto D t"
proof (cases spec)
  case BuyAndHoldSpec
  with assms(3,4) show ?thesis using buy_and_hold_agree [OF assms(1,2), of plan] by (simp add: spec_signals_def)
qed (use assms(3,4) rank_signals_agree [OF assms(2)] in
    \<open>simp_all add: spec_signals_def momentum_signals_def mean_reversion_signals_def\<close>)


section \<open>The best tickers\<close>

definition better :: "rank_direction \<Rightarrow> score \<Rightarrow> score \<Rightarrow> bool" where
  "better dir x y = (case dir of Top \<Rightarrow> y \<le> x | Bottom \<Rightarrow> x \<le> y)"

lemma ranked_sorted: "sorted_wrt (\<lambda>s t. better dir (sc s) (sc t)) (ranked_tickers dir sc u)"
proof -
  have "sorted_wrt (\<lambda>s t. sc s \<le> sc t) (sort_key sc v)" for v
    using sorted_sort_key [of sc v] by (simp add: sorted_wrt_map)
  then show ?thesis by (cases dir) (simp_all add: ranked_tickers_def better_def sorted_wrt_rev)
qed

lemma ranked_set [simp]: "set (ranked_tickers dir sc u) = set u" "length (ranked_tickers dir sc u) = length u"
  "distinct (ranked_tickers dir sc u) = distinct u"
  by (cases dir; simp add: ranked_tickers_def)+

lemma long_cell_unique:
  "(d, c, x) \<in> set l \<Longrightarrow> (\<And>r. r \<in> set l \<Longrightarrow> row_date r = d \<Longrightarrow> row_ticker r = c \<Longrightarrow> row_value r = x) \<Longrightarrow> long_cell l d c = Some x"
proof -
  assume m: "(d, c, x) \<in> set l" and u: "\<And>r. r \<in> set l \<Longrightarrow> row_date r = d \<Longrightarrow> row_ticker r = c \<Longrightarrow> row_value r = x"
  let ?P = "\<lambda>r. row_date r = d \<and> row_ticker r = c"
  have "?P (d, c, x)" by (simp add: row_date_def row_ticker_def)
  with m obtain r where "find ?P l = Some r" by (cases "find ?P l") (auto simp: find_None_iff)
  then have "r \<in> set l" "?P r" by (auto simp: find_Some_iff)
  with u \<open>find ?P l = Some r\<close> show ?thesis by (simp add: long_cell_def)
qed

lemma rank_signals_cell:
  assumes "i < length (sorted_dates p)" and "(sorted_dates p ! i, c, x) \<in> set (day_rows dir u k L p i)"
    and "\<And>r. r \<in> set (day_rows dir u k L p i) \<Longrightarrow> row_ticker r = c \<Longrightarrow> row_value r = x"
  shows "long_cell (concat (map (day_rows dir u k L p) [0..<length (sorted_dates p)])) (sorted_dates p ! i) c = Some x"
proof (rule long_cell_unique)
  show "(sorted_dates p ! i, c, x) \<in> set (concat (map (day_rows dir u k L p) [0..<length (sorted_dates p)]))"
    using assms(1,2) by auto
next
  fix r assume "r \<in> set (concat (map (day_rows dir u k L p) [0..<length (sorted_dates p)]))"
    and r: "row_date r = sorted_dates p ! i" "row_ticker r = c"
  then obtain j where j: "j < length (sorted_dates p)" "r \<in> set (day_rows dir u k L p j)" by auto
  with r day_rows_date [OF j(2)] assms(1) have "j = i" by (simp add: sorted_dates_def nth_eq_iff_index_eq)
  with j r assms(3) show "row_value r = x" by simp
qed

definition rank_count :: "research_plan \<Rightarrow> int option \<Rightarrow> nat" where
  "rank_count plan k = nat (case k of Some j \<Rightarrow> j | None \<Rightarrow> int (length (rp_universe plan)))"

text \<open>A ranking template holds the best tickers. For tickers that are distinct, on a day with less than
  \<open>lookback\<close> days before it every ticker has weight 0. On any later day exactly \<open>k\<close> tickers (all of them
  when no \<open>k\<close> is given) share the weight equally, the others have 0, and no ticker left out has a better
  past return than one that is held: a higher one for momentum, a lower one for mean reversion, where a
  ticker without a close on either day counts as the worst.\<close>

theorem rank_holds_best:
  assumes "rank_signals plan prices L k dir = Inr sig" and "distinct (rp_universe plan)" and "i < length (sorted_dates prices)"
  defines "day \<equiv> sorted_dates prices ! i" and "u \<equiv> set (rp_universe plan)"
  defines "sc \<equiv> ticker_score dir (closes_on prices day) (closes_on prices (sorted_dates prices ! (i - nat L)))"
  shows "if int i < L then \<forall>t\<in>u. long_cell sig day t = Some 0
    else \<exists>win\<subseteq>u. card win = rank_count plan k \<and>
      (\<forall>t\<in>u. long_cell sig day t = Some (if t \<in> win then fdiv 1 (of_nat (rank_count plan k)) else 0)) \<and>
      (\<forall>t\<in>win. \<forall>v\<in>u - win. better dir (sc t) (sc v))"
proof -
  let ?n = "rank_count plan k" and ?us = "rp_universe plan"
  have n: "?n \<le> length ?us" and sig: "sig = concat (map (day_rows dir ?us ?n (nat L) prices) [0..<length (sorted_dates prices)])"
    and L: "0 < L"
    using assms(1) by (auto simp: rank_signals_def selected_k_def Let_def rank_count_def bind_res_Inr_iff split: if_splits option.splits)
  note cell = rank_signals_cell [OF assms(3), of _ _ dir ?us ?n "nat L", folded sig day_def]
  show ?thesis
  proof (cases "int i < L")
    case True
    then have rows: "day_rows dir ?us ?n (nat L) prices i = map (\<lambda>t. (day, t, 0)) ?us"
      using L by (simp add: day_rows_def Let_def day_def zless_nat_eq_int_zless)
    have "long_cell sig day t = Some 0" if "t \<in> u" for t
      by (rule cell) (use that in \<open>auto simp: rows u_def row_value_def\<close>)
    with True show ?thesis by simp
  next
    case False
    let ?xs = "ranked_tickers dir sc ?us"
    let ?w = "set (take ?n ?xs)"
    have "\<not> i < nat L" using False L by linarith
    then have rows: "day_rows dir ?us ?n (nat L) prices i =
        map (\<lambda>t. (day, t, if t \<in> ?w then fdiv 1 (of_nat ?n) else 0)) ?us"
      by (simp add: day_rows_def Let_def day_def sc_def)
    have "?w \<subseteq> u" using set_take_subset [of ?n ?xs] by (simp add: u_def)
    moreover have "card ?w = ?n" using n assms(2) by (subst distinct_card) (simp_all add: min_def)
    moreover have "long_cell sig day t = Some (if t \<in> ?w then fdiv 1 (of_nat ?n) else 0)" if "t \<in> u" for t
      by (rule cell) (use that in \<open>auto simp: rows u_def row_ticker_def row_value_def\<close>)
    moreover have "better dir (sc t) (sc v)" if "t \<in> ?w" "v \<in> u - ?w" for t v
    proof -
      have "v \<in> set (drop ?n ?xs)" using that(2) by (metis Diff_iff Un_iff append_take_drop_id ranked_set(1) set_append u_def)
      moreover have "sorted_wrt (\<lambda>s t. better dir (sc s) (sc t)) (take ?n ?xs @ drop ?n ?xs)" using ranked_sorted by simp
      ultimately show ?thesis using that(1) unfolding sorted_wrt_append by blast
    qed
    ultimately show ?thesis using False by (simp only: if_False) blast
  qed
qed

end
