(* ===== verification/Backtest_Samples.thy ===== *)
theory Backtest_Samples
  imports Signals_Laws
begin

text \<open>
  Witnesses of the backtest properties, over the library on lists: one ticker whose price doubles, and a second
  history that differs on the last day.
\<close>

definition day_window :: walk_forward_window where
  "day_window = \<lparr>wf_train_start = Aware (- 2), wf_train_end = Aware (- 1), wf_test_start = Aware 0, wf_test_end = Aware 10\<rparr>"

definition rising :: long where
  "rising = [(1, ''A'', 1), (2, ''A'', 2), (3, ''A'', 4)]"

definition falling :: long where
  "falling = [(1, ''A'', 1), (2, ''A'', 2), (3, ''A'', 1)]"

definition plain_metadata :: run_metadata where
  "plain_metadata = \<lparr>md_run_id = ''0123456789abcdef'', md_parent_id = None, md_agent_name = ''research'', md_model_id = ''m'',
     md_created_at = Aware 0, md_llm_cost_usd = dzero, md_latency_ms = 0, md_token_in = 0, md_token_out = 0\<rparr>"

definition plan_over :: "string list \<Rightarrow> research_plan" where
  "plan_over universe = \<lparr>rp_schema_version = 1, rp_metadata = plain_metadata, rp_hypothesis_run_id = ''0123456789abcdef'',
     rp_universe = universe, rp_frequency = DAILY, rp_walk_forward = [day_window], rp_cost_model_bps = dzero,
     rp_slippage_bps = dzero, rp_seed = 0\<rparr>"

lemma held_signals:
  "spec_signals list_polars (plan_over [''A'']) BuyAndHoldSpec rising = Inr [(1, ''A'', 1), (2, ''A'', 1), (3, ''A'', 1)]"
  "spec_signals list_polars (plan_over [''A'']) BuyAndHoldSpec falling = Inr [(1, ''A'', 1), (2, ''A'', 1), (3, ''A'', 1)]"
  by code_simp+

lemma held_series:
  "fold_series list_polars py_ctx day_window rising [(1, ''A'', 1), (2, ''A'', 1), (3, ''A'', 1)] dzero dzero =
     Inr (\<lparr>wd_dates = [1, 2, 3], wd_cols = [(''A'', [1, 1, 1])]\<rparr>, [1, 1])"
  "fold_series list_polars py_ctx day_window falling [(1, ''A'', 1), (2, ''A'', 1), (3, ''A'', 1)] dzero dzero =
     Inr (\<lparr>wd_dates = [1, 2, 3], wd_cols = [(''A'', [1, 1, 1])]\<rparr>, [1, - 1 / 2])"
  by code_simp+


theorem fold_reported_witness:
  "\<exists>f. run_fold list_polars py_ctx 0 day_window falling [(1, ''A'', 1), (2, ''A'', 1), (3, ''A'', 1)] dzero dzero
      default_notional = Inr f \<and> 0 \<le> dval (fm_max_drawdown_pct f) \<and> dval (fm_max_drawdown_pct f) \<le> 100"
  using fold_reported [OF list_polars_ok held_series(2), of 0 default_notional] by auto

definition two_tickers :: long where
  "two_tickers = [(1, ''A'', 1), (1, ''B'', 1), (2, ''A'', 2), (2, ''B'', 3)]"

theorem rank_holds_best_witness:
  "\<exists>sig. rank_signals (plan_over [''A'', ''B'']) two_tickers 1 (Some 1) Top = Inr sig \<and>
     long_cell sig 1 ''B'' = Some 0 \<and> (\<exists>win\<subseteq>{''A'', ''B''}. card win = 1 \<and> (\<forall>t\<in>{''A'', ''B''}. long_cell sig 2 t = Some (if t \<in> win then 1 else 0)))"
proof -
  define sig where "sig = [(1, ''A'', 0), (1, ''B'', 0), (2, ''A'', 0), (2, ''B'', 1 :: rat)] @ ([] :: long)"
  have sig: "rank_signals (plan_over [''A'', ''B'']) two_tickers 1 (Some 1) Top = Inr sig" unfolding sig_def by code_simp
  have days: "sorted_dates two_tickers = [1, 2]" by code_simp
  have d: "distinct (rp_universe (plan_over [''A'', ''B'']))" by code_simp
  have one: "fdiv 1 1 = 1" by code_simp
  have len: "0 < length (sorted_dates two_tickers)" "1 < length (sorted_dates two_tickers)"
    and u: "set (rp_universe (plan_over [''A'', ''B''])) = {''A'', ''B''}" and k: "rank_count (plan_over [''A'', ''B'']) (Some 1) = 1"
    by (simp_all add: days plan_over_def rank_count_def)
  have "long_cell sig 1 ''B'' = Some 0"
    using rank_holds_best [OF sig d len(1)] by (simp add: days u)
  moreover obtain win where "win \<subseteq> {''A'', ''B''}" "card win = 1" "\<forall>t\<in>{''A'', ''B''}. long_cell sig 2 t = Some (if t \<in> win then 1 else 0)"
    using rank_holds_best [OF sig d len(2)] unfolding u k days by (auto simp: one)
  ultimately show ?thesis using sig by blast
qed

text \<open>A ticker without data is held all the same when there are not \<open>k\<close> tickers with data; a return below -100 % makes
  the fold refused.\<close>

lemma missing_ticker_held:
  "rank_signals (plan_over [''A'', ''B'']) [(1, ''A'', 1), (2, ''A'', 2)] 1 (Some 2) Top =
     Inr [(1, ''A'', 0), (1, ''B'', 0), (2, ''A'', 1 / 2), (2, ''B'', 1 / 2)]"
  by code_simp

lemma ruin_refused:
  "validate_fold \<lparr>fm_fold_index = 0, fm_test_start = Aware 0, fm_test_end = Aware 1, fm_sharpe = dzero,
     fm_max_drawdown_pct = max_drawdown_pct [- 2], fm_turnover = dzero, fm_n_trades = 0, fm_pnl_usd = dzero\<rparr> = Inl ValidationError"
  by code_simp

end
