(* ===== verification/Rate_Limit.thy ===== *)
theory Rate_Limit
  imports Complex_Main Http
begin

text \<open>
  The rate limiter shared by the market data clients (\<open>data/\_common/rate\_limit.py\<close>), and the
  timers it uses: a monotonic clock and \<open>asyncio.sleep\<close> are parameters that act on the outside
  \<open>'w\<close>. Seconds are exact numbers. A client works on the pair of its limiter and the outside.
\<close>

section \<open>The timers\<close>

record 'w timer =
  tm_monotonic :: "'w \<Rightarrow> rat \<times> 'w"
  tm_sleep :: "rat \<Rightarrow> 'w \<Rightarrow> 'w"

type_synonym 'w getter = "string \<Rightarrow> (string \<times> string) list \<Rightarrow> 'w \<Rightarrow> http_outcome \<times> 'w"

section \<open>The limiter\<close>

record limiter =
  rl_min_interval :: rat
  rl_schedule :: "int list"
  rl_last_acquire :: rat
  rl_429s :: nat

definition default_schedule :: "int list" where
  "default_schedule = [30, 60, 90]"

definition new_limiter :: "rat \<Rightarrow> int list \<Rightarrow> limiter res" where
  "new_limiter min_interval schedule =
     (if min_interval < 0 then Inl ValueError else if schedule = [] then Inl ValueError
      else Inr \<lparr>rl_min_interval = min_interval, rl_schedule = schedule, rl_last_acquire = 0, rl_429s = 0\<rparr>)"

type_synonym ('w, 'a) paced = "(limiter \<times> 'w, 'a) eff"

definition tick :: "'w timer \<Rightarrow> ('w, rat) paced" where
  "tick tm = (\<lambda>(l, w). case tm_monotonic tm w of (t, w') \<Rightarrow> (Inr t, (l, w')))"

definition pause :: "'w timer \<Rightarrow> rat \<Rightarrow> ('w, unit) paced" where
  "pause tm d = modify (\<lambda>(l, w). (l, tm_sleep tm d w))"

definition request :: "'w getter \<Rightarrow> string \<Rightarrow> (string \<times> string) list \<Rightarrow> ('w, http_outcome) paced" where
  "request get url params = (\<lambda>(l, w). case get url params w of (r, w') \<Rightarrow> (Inr r, (l, w')))"

text \<open>\<open>acquire\<close> up to its sleep, and after it: the other coroutines of the event loop run in between.\<close>

definition acquire_wait :: "'w timer \<Rightarrow> ('w, rat option) paced" where
  "acquire_wait tm = seq (tick tm) (\<lambda>t. gets (\<lambda>(l, w).
     let wait = rl_min_interval l - (t - rl_last_acquire l) in
     if 0 < wait \<and> 0 < rl_last_acquire l then Some wait else None))"

definition acquire_stamp :: "'w timer \<Rightarrow> ('w, unit) paced" where
  "acquire_stamp tm = seq (tick tm) (\<lambda>t. modify (\<lambda>(l, w). (l\<lparr>rl_last_acquire := t\<rparr>, w)))"

definition acquire :: "'w timer \<Rightarrow> ('w, unit) paced" where
  "acquire tm = seq (gets (\<lambda>(l, w). rl_min_interval l)) (\<lambda>mi.
     if mi \<le> 0 then acquire_stamp tm
     else seq (acquire_wait tm) (\<lambda>wait. case wait of
         None \<Rightarrow> acquire_stamp tm
       | Some d \<Rightarrow> seq (pause tm d) (\<lambda>_. acquire_stamp tm)))"

definition on_429 :: "('w, int) paced" where
  "on_429 = (\<lambda>(l, w). (Inr (rl_schedule l ! min (rl_429s l) (length (rl_schedule l) - 1)),
     (l\<lparr>rl_429s := rl_429s l + 1\<rparr>, w)))"

definition reset_429 :: "('w, unit) paced" where
  "reset_429 = modify (\<lambda>(l, w). (l\<lparr>rl_429s := 0\<rparr>, w))"

definition paced_get :: "'w timer \<Rightarrow> 'w getter \<Rightarrow> string \<Rightarrow> (string \<times> string) list \<Rightarrow> ('w, http_outcome) paced" where
  "paced_get tm get url params = seq (acquire tm) (\<lambda>_. request get url params)"

section \<open>The tape: what a client does to the outside\<close>

text \<open>The readings of the clock, the sleeps and the requests, in order. The taped timers and the
  taped HTTP library do what the plain ones do and write it down.\<close>

datatype net_event = Clock rat | Slept rat | Sent string "(string \<times> string) list" http_outcome

type_synonym 'w taped = "'w \<times> net_event list"

definition tape_timer :: "'w timer \<Rightarrow> 'w taped timer" where
  "tape_timer tm = \<lparr>tm_monotonic = (\<lambda>(w, tape). case tm_monotonic tm w of (t, w') \<Rightarrow> (t, (w', tape @ [Clock t]))),
     tm_sleep = (\<lambda>d (w, tape). (tm_sleep tm d w, tape @ [Slept d]))\<rparr>"

definition tape_getter :: "'w getter \<Rightarrow> 'w taped getter" where
  "tape_getter get = (\<lambda>url params (w, tape). case get url params w of
     (r, w') \<Rightarrow> (r, (w', tape @ [Sent url params r])))"

fun last_clock :: "rat \<Rightarrow> net_event list \<Rightarrow> rat" where
  "last_clock c [] = c"
| "last_clock c (Clock t # es) = last_clock t es"
| "last_clock c (Slept d # es) = last_clock c es"
| "last_clock c (Sent u p r # es) = last_clock c es"

text \<open>The instants of the requests: the last reading of the clock before each.\<close>

fun request_times :: "rat \<Rightarrow> net_event list \<Rightarrow> rat list" where
  "request_times c [] = []"
| "request_times c (Clock t # es) = request_times t es"
| "request_times c (Slept d # es) = request_times c es"
| "request_times c (Sent u p r # es) = c # request_times c es"

definition spaced :: "rat \<Rightarrow> rat list \<Rightarrow> bool" where
  "spaced d ts = successively (\<lambda>s t. s + d \<le> t) ts"

lemma last_clock_append: "last_clock c (xs @ ys) = last_clock (last_clock c xs) ys"
  by (induction c xs rule: last_clock.induct) auto

lemma request_times_append:
  "request_times c (xs @ ys) = request_times c xs @ request_times (last_clock c xs) ys"
  by (induction c xs rule: request_times.induct) auto

lemma spaced_snoc: "spaced d (ts @ [t]) \<longleftrightarrow> spaced d ts \<and> (ts \<noteq> [] \<longrightarrow> last ts + d \<le> t)"
  by (auto simp: spaced_def successively_append_iff)

text \<open>The requests, and the pause that follows each rate-limited answer.\<close>

fun requests :: "net_event list \<Rightarrow> (string \<times> (string \<times> string) list \<times> http_outcome) list" where
  "requests [] = []"
| "requests (Sent u p r # es) = (u, p, r) # requests es"
| "requests (Clock t # es) = requests es"
| "requests (Slept d # es) = requests es"

definition rate_limited :: "http_outcome \<Rightarrow> bool" where
  "rate_limited r = (case r of Response st b \<Rightarrow> st = 429 | Transport_Error e \<Rightarrow> False)"

fun backoffs :: "net_event list \<Rightarrow> rat list" where
  "backoffs (Sent u p r # Slept d # es) = (if rate_limited r then [d] else []) @ backoffs es"
| "backoffs (e # es) = backoffs es"
| "backoffs [] = []"

lemma requests_append: "requests (xs @ ys) = requests xs @ requests ys"
  by (induction xs rule: requests.induct) auto

lemma quiet_append: "requests xs = [] \<Longrightarrow> backoffs (xs @ ys) = backoffs ys"
  by (induction xs rule: requests.induct) auto

lemma quiet_request: "requests xs = [] \<Longrightarrow> backoffs (xs @ [Sent u p r]) = []"
  by (simp add: quiet_append)

section \<open>Requests are spaced\<close>

text \<open>A clock that does not run backwards, shows a time of the outside, and has moved on by at
  least the requested delay after a sleep. A request takes no negative time.\<close>

definition clock_ok :: "('w \<Rightarrow> rat) \<Rightarrow> 'w timer \<Rightarrow> 'w getter \<Rightarrow> bool" where
  "clock_ok now tm get \<longleftrightarrow>
     (\<forall>w. now w \<le> fst (tm_monotonic tm w) \<and> fst (tm_monotonic tm w) \<le> now (snd (tm_monotonic tm w))) \<and>
     (\<forall>d w. now w + max 0 d \<le> now (tm_sleep tm d w)) \<and>
     (\<forall>u p w. now w \<le> now (snd (get u p w)))"

text \<open>Between two requests, and just before a request.\<close>

definition paced_state :: "('w \<Rightarrow> rat) \<Rightarrow> rat \<Rightarrow> limiter \<times> 'w taped \<Rightarrow> bool" where
  "paced_state now d = (\<lambda>(l, w, tape). rl_min_interval l = d \<and> 0 \<le> d \<and> 0 < now w \<and>
     spaced d (request_times 0 tape) \<and>
     0 \<le> rl_last_acquire l \<and> rl_last_acquire l \<le> now w \<and>
     (request_times 0 tape \<noteq> [] \<longrightarrow> 0 < rl_last_acquire l \<and> last (request_times 0 tape) \<le> rl_last_acquire l))"

definition ready_state :: "('w \<Rightarrow> rat) \<Rightarrow> rat \<Rightarrow> limiter \<times> 'w taped \<Rightarrow> bool" where
  "ready_state now d = (\<lambda>(l, w, tape). paced_state now d (l, w, tape) \<and> 0 < rl_last_acquire l \<and>
     last_clock 0 tape = rl_last_acquire l \<and>
     (request_times 0 tape \<noteq> [] \<longrightarrow> last (request_times 0 tape) + d \<le> rl_last_acquire l))"


lemma tick_ready:
  assumes "clock_ok now tm get" and "paced_state now d (l, w, tape)"
    and "request_times 0 tape \<noteq> [] \<Longrightarrow> last (request_times 0 tape) + d \<le> now w"
  shows "ready_state now d (snd (acquire_stamp (tape_timer tm) (l, w, tape)))"
proof -
  obtain t w' where t: "tm_monotonic tm w = (t, w')" by (cases "tm_monotonic tm w")
  with assms(1) have "now w \<le> t" "t \<le> now w'" by (auto simp: clock_ok_def dest: spec [of _ w])
  with assms(2,3) show ?thesis
    by (auto simp: acquire_stamp_def tick_def tape_timer_def t seq_apply ready_state_def paced_state_def
      request_times_append last_clock_append)
qed

lemma acquire_ready:
  assumes "clock_ok now tm get" and "paced_state now d s"
  shows "ready_state now d (snd (acquire (tape_timer tm) s))"
proof -
  obtain l w tape where s: "s = (l, w, tape)" by (cases s)
  note st = assms(2) [unfolded s]
  show ?thesis
  proof (cases "d \<le> 0")
    case True
    with st have "acquire (tape_timer tm) s = acquire_stamp (tape_timer tm) (l, w, tape)"
      by (simp add: acquire_def seq_apply s paced_state_def)
    with tick_ready [OF assms(1) st] True st show ?thesis by (auto simp: paced_state_def)
  next
    case False
    obtain t w1 where t: "tm_monotonic tm w = (t, w1)" by (cases "tm_monotonic tm w")
    with assms(1) have now: "now w \<le> t" "t \<le> now w1" by (auto simp: clock_ok_def dest: spec [of _ w])
    let ?wait = "d - (t - rl_last_acquire l)"
    let ?w2 = "if 0 < ?wait \<and> 0 < rl_last_acquire l then (tm_sleep tm ?wait w1, tape @ [Clock t] @ [Slept ?wait]) else (w1, tape @ [Clock t])"
    have run: "acquire (tape_timer tm) s = acquire_stamp (tape_timer tm) (l, ?w2)"
      using False st by (auto simp: acquire_def acquire_wait_def tick_def pause_def tape_timer_def seq_apply s t paced_state_def Let_def)
    have "now w1 + max 0 ?wait \<le> now (tm_sleep tm ?wait w1)" using assms(1) by (simp add: clock_ok_def)
    then have "paced_state now d (l, ?w2) \<and> (request_times 0 (snd ?w2) \<noteq> [] \<longrightarrow> last (request_times 0 (snd ?w2)) + d \<le> now (fst ?w2))"
      using st now by (auto simp: paced_state_def request_times_append)
    then show ?thesis unfolding run using tick_ready [OF assms(1), of d l "fst ?w2" "snd ?w2"] by simp
  qed
qed

lemma acquire_ok: "fst (acquire tm s) = Inr ()"
  by (cases s) (auto simp: acquire_def acquire_wait_def acquire_stamp_def tick_def pause_def seq_apply Let_def
    split: prod.splits option.splits)

lemma acquire_quiet:
  "\<exists>t w' ev. acquire (tape_timer tm) (l, w, tape) = (Inr (), l\<lparr>rl_last_acquire := t\<rparr>, w', tape @ ev) \<and> requests ev = []"
  by (auto simp: acquire_def acquire_wait_def acquire_stamp_def tick_def pause_def tape_timer_def seq_apply Let_def
    split: prod.splits)

lemma request_paced:
  assumes "clock_ok now tm get" and "ready_state now d s"
  shows "paced_state now d (snd (request (tape_getter get) url params s))"
proof -
  obtain l w tape where s: "s = (l, w, tape)" by (cases s)
  have "now w \<le> now (snd (get url params w))" using assms(1) by (simp add: clock_ok_def)
  with assms(2) show ?thesis
    by (auto simp: s request_def tape_getter_def ready_state_def paced_state_def request_times_append spaced_snoc
      split: prod.split)
qed

lemma paced_get_eq: "paced_get tm get url params s = request get url params (snd (acquire tm s))"
  using acquire_ok [of tm s] by (simp add: paced_get_def seq_ok prod_eq_iff)

lemma keeps_paced_get [keeps_intros]:
  "clock_ok now tm get \<Longrightarrow> keeps (paced_state now d) (paced_get (tape_timer tm) (tape_getter get) url params)"
  by (simp add: keeps_def paced_get_eq request_paced acquire_ready)

lemma keeps_pause [keeps_intros]:
  assumes "clock_ok now tm get"
  shows "keeps (paced_state now d) (pause (tape_timer tm) k)"
proof (rule keepsI)
  fix s assume st: "paced_state now d s"
  obtain l w tape where s: "s = (l, w, tape)" by (cases s)
  have "now w + max 0 k \<le> now (tm_sleep tm k w)" using assms by (simp add: clock_ok_def)
  then have "now w \<le> now (tm_sleep tm k w)" by (simp add: max_def split: if_splits)
  then show "paced_state now d (snd (pause (tape_timer tm) k s))"
    using st by (auto simp: s pause_def tape_timer_def paced_state_def request_times_append)
qed

lemma keeps_counters [keeps_intros]:
  "keeps (paced_state now d) on_429" "keeps (paced_state now d) reset_429"
  by (auto intro!: keepsI simp: on_429_def reset_429_def paced_state_def)

lemma pause_tape: "pause (tape_timer tm) d (l, w, tape) = (Inr (), l, tm_sleep tm d w, tape @ [Slept d])"
  by (simp add: pause_def tape_timer_def)

text \<open>One paced request, on the tape.\<close>

lemma paced_get_tape:
  "\<exists>t w' ev r. paced_get (tape_timer tm) (tape_getter get) url params (l, w, tape) =
     (Inr r, l\<lparr>rl_last_acquire := t\<rparr>, w', tape @ ev @ [Sent url params r]) \<and> requests ev = []"
proof -
  obtain t w' ev where "acquire (tape_timer tm) (l, w, tape) = (Inr (), l\<lparr>rl_last_acquire := t\<rparr>, w', tape @ ev)" "requests ev = []"
    using acquire_quiet [of tm l w tape] by (elim exE conjE) (rule that)
  then show ?thesis by (auto simp: paced_get_eq request_def tape_getter_def split: prod.splits)
qed

lemma keeps_snd: "keeps P m \<Longrightarrow> P s \<Longrightarrow> P (snd (m s))"
  by (simp add: keeps_def)

text \<open>
  \<open>\_throttle\_sleep\<close>, the same method in the Yahoo Finance and the EDINET client
  (\<open>data/yfinance/client.py\<close>, \<open>data/edinet/client.py\<close>): it waits until \<open>throttle\_seconds\<close> have passed
  since the last call, and stamps the call. Its state is the stamp of the last call and the outside.
\<close>

type_synonym ('w, 'a) throttled = "(rat \<times> 'w, 'a) eff"

definition read_clock :: "'w timer \<Rightarrow> ('w, rat) throttled" where
  "read_clock tm = (\<lambda>(l, w). case tm_monotonic tm w of (t, w') \<Rightarrow> (Inr t, (l, w')))"

definition rest_for :: "'w timer \<Rightarrow> rat \<Rightarrow> ('w, unit) throttled" where
  "rest_for tm wait = (if 0 < wait then modify (\<lambda>(l, w). (l, tm_sleep tm wait w)) else ret ())"

definition throttle_gate :: "'w timer \<Rightarrow> rat \<Rightarrow> ('w, unit) throttled" where
  "throttle_gate tm d = (if d \<le> 0 then ret ()
     else seq (read_clock tm) (\<lambda>t. seq (gets fst) (\<lambda>prev. seq (rest_for tm (d - (t - prev))) (\<lambda>_.
       seq (read_clock tm) (\<lambda>t. modify (\<lambda>(l, w). (t, w)))))))"

text \<open>What a monotonic clock and a sleep promise, \<open>now\<close> being the time of the outside.\<close>

definition timer_ok :: "('w \<Rightarrow> rat) \<Rightarrow> 'w timer \<Rightarrow> bool" where
  "timer_ok now tm \<longleftrightarrow>
     (\<forall>w. now w \<le> fst (tm_monotonic tm w) \<and> fst (tm_monotonic tm w) \<le> now (snd (tm_monotonic tm w))) \<and>
     (\<forall>d w. now w + max 0 d \<le> now (tm_sleep tm d w))"

lemma throttle_gate_returns: "fst (throttle_gate tm d s) = Inr ()"
  by (cases s) (simp add: throttle_gate_def read_clock_def rest_for_def seq_apply Let_def split: prod.split)

text \<open>The stamp of a call is a time between the entry and the return of the gate, at least \<open>d\<close> after
  the stamp before.\<close>

lemma throttle_gate_spaces:
  assumes "timer_ok now tm" and "0 < d" and "throttle_gate tm d (l, w) = (r, (l', w'))"
  shows "l + d \<le> l'" and "now w \<le> l'" and "l' \<le> now w'"
proof -
  obtain t w1 where t: "tm_monotonic tm w = (t, w1)" by (cases "tm_monotonic tm w")
  define w2 where "w2 = (if 0 < d - (t - l) then tm_sleep tm (d - (t - l)) w1 else w1)"
  obtain u w3 where u: "tm_monotonic tm w2 = (u, w3)" by (cases "tm_monotonic tm w2")
  have end_state: "l' = u" "w' = w3"
    using assms(2,3) u by (cases "0 < d - (t - l)"; auto simp: throttle_gate_def read_clock_def rest_for_def seq_apply t w2_def)+
  have first: "now w \<le> t" "t \<le> now w1" using assms(1) t by (auto simp: timer_ok_def dest: spec [of _ w])
  have second: "now w2 \<le> u" "u \<le> now w3" using assms(1) u by (auto simp: timer_ok_def dest: spec [of _ w2])
  have "now w1 + max 0 (d - (t - l)) \<le> now (tm_sleep tm (d - (t - l)) w1)" using assms(1) by (simp add: timer_ok_def)
  with first have between: "l + d \<le> now w2" "now w1 \<le> now w2" by (auto simp: w2_def)
  show "l + d \<le> l'" "now w \<le> l'" "l' \<le> now w'" using first second between by (auto simp: end_state)
qed

end
