(* ===== verification/Py_Date.thy ===== *)
theory Py_Date
  imports Prelude
begin

text \<open>
  Dates of the Python library: a date is its number of days since 1 January 1970 in the proleptic
  Gregorian calendar. The code writes dates as \<open>YYYY-MM-DD\<close> and as \<open>YYYYMMDD\<close>. The calendar is
  computed on years that begin in March.
\<close>

type_synonym date = int

definition civil :: "date \<Rightarrow> int \<times> int \<times> int" where
  "civil day = (let z = day + 719468; era = z div 146097; doe = z mod 146097;
       yoe = (doe - doe div 1460 + doe div 36524 - doe div 146096) div 365;
       doy = doe - (365 * yoe + yoe div 4 - yoe div 100);
       mp = (5 * doy + 2) div 153;
       m = (if mp < 10 then mp + 3 else mp - 9) in
     (yoe + era * 400 + (if m \<le> 2 then 1 else 0), m, doy - (153 * mp + 2) div 5 + 1))"

definition two_digits :: "int \<Rightarrow> string" where
  "two_digits i = (if i < 10 then ''0'' @ int_str i else int_str i)"

definition four_digits :: "int \<Rightarrow> string" where
  "four_digits i = replicate (4 - length (int_str i)) (CHR ''0'') @ int_str i"

definition iso_date :: "date \<Rightarrow> string" where
  "iso_date day = (case civil day of (y, m, d) \<Rightarrow> four_digits y @ ''-'' @ two_digits m @ ''-'' @ two_digits d)"

definition compact_date :: "date \<Rightarrow> string" where
  "compact_date day = (case civil day of (y, m, d) \<Rightarrow> four_digits y @ two_digits m @ two_digits d)"


lemma civil_samples:
  "civil 0 = (1970, 1, 1)" "civil (- 1) = (1969, 12, 31)" "civil 11016 = (2000, 2, 29)" "civil 20574 = (2026, 5, 1)"
  by code_simp+

end
