(* ===== verification/Jquants_Client.thy ===== *)
theory Jquants_Client
  imports Rate_Limit Py_Date
begin

text \<open>
  The J-Quants client (\<open>data/jquants/client.py\<close>): every request waits for the rate limiter, a 429 is
  retried after a pause, and a listing is read page by page. The validation of a row by pydantic is a
  parameter; \<open>other\<close> is the \<open>str\<close> of a float, a list or an object.
\<close>

definition jquants_error :: "nat option \<Rightarrow> py_exn" where
  "jquants_error st = DataError ''JQuantsError'' st"

record jquants_client =
  jq_api_key :: string
  jq_base_url :: string

definition new_jquants_client :: "string \<Rightarrow> string \<Rightarrow> jquants_client res" where
  "new_jquants_client api_key base_url = (if api_key = [] then Inl ValueError
     else Inr \<lparr>jq_api_key = api_key, jq_base_url = rev (dropWhile (\<lambda>c. c = CHR ''/'') (rev base_url))\<rparr>)"

definition max_429_attempts :: nat where
  "max_429_attempts = 3"

text \<open>The attempts of \<open>\_execute\<close>, with \<open>n\<close> retries left.\<close>

fun attempts :: "nat \<Rightarrow> 'w timer \<Rightarrow> 'w getter \<Rightarrow> string \<Rightarrow> (string \<times> string) list \<Rightarrow> ('w, http_outcome) paced" where
  "attempts 0 tm get url params = paced_get tm get url params"
| "attempts (Suc n) tm get url params = seq (paced_get tm get url params) (\<lambda>r. case r of
     Response st b \<Rightarrow> if st = 429 then seq on_429 (\<lambda>backoff. seq (pause tm (of_int backoff)) (\<lambda>_.
         attempts n tm get url params)) else ret r
   | Transport_Error e \<Rightarrow> ret r)"

definition jquants_execute :: "'w timer \<Rightarrow> 'w getter \<Rightarrow> string \<Rightarrow> (string \<times> string) list \<Rightarrow>
    ('w, (string \<times> json) list) paced" where
  "jquants_execute tm get url params = seq (attempts max_429_attempts tm get url params) (\<lambda>r. case r of
     Transport_Error e \<Rightarrow> raise (jquants_error None)
   | Response st b \<Rightarrow> if st = 429 then raise (jquants_error (Some 429))
     else if st \<noteq> 200 then raise (jquants_error (Some st))
     else seq reset_429 (\<lambda>_. case b of
         Some (JObj payload) \<Rightarrow> ret payload
       | _ \<Rightarrow> raise (jquants_error None)))"

definition batch_of :: "(string \<times> json) list \<Rightarrow> json list" where
  "batch_of payload = (case map_of payload ''data'' of Some (JList rows) \<Rightarrow> rows | _ \<Rightarrow> [])"

definition next_token :: "(json \<Rightarrow> string) \<Rightarrow> (string \<times> json) list \<Rightarrow> string option" where
  "next_token other payload = (case map_of payload ''pagination_key'' of None \<Rightarrow> None
     | Some v \<Rightarrow> if json_truthy v then Some (json_str other v) else None)"

text \<open>The loop of \<open>\_get\_paginated\<close>; \<open>None\<close> when the fuel ends before the pages do.\<close>

fun get_paginated :: "nat \<Rightarrow> (json \<Rightarrow> string) \<Rightarrow> 'w timer \<Rightarrow> 'w getter \<Rightarrow> string \<Rightarrow> (string \<times> string) list \<Rightarrow>
    json list \<Rightarrow> ('w, json list option) paced" where
  "get_paginated 0 other tm get url query out = ret None"
| "get_paginated (Suc n) other tm get url query out = seq (jquants_execute tm get url query) (\<lambda>payload.
     let out = out @ batch_of payload in
     case next_token other payload of
       None \<Rightarrow> ret (Some out)
     | Some token \<Rightarrow> get_paginated n other tm get url (AList.update ''pagination_key'' token query) out)"

definition validated :: "(json \<Rightarrow> 'a res) \<Rightarrow> json list option \<Rightarrow> 'a list option res" where
  "validated validate rows = (case rows of None \<Rightarrow> Inr None | Some rs \<Rightarrow> bind_res (each_row validate rs) (\<lambda>xs. Inr (Some xs)))"

definition optional :: "string \<Rightarrow> string option \<Rightarrow> (string \<times> string) list" where
  "optional key v = (case v of None \<Rightarrow> [] | Some s \<Rightarrow> [(key, s)])"

definition list_master :: "nat \<Rightarrow> (json \<Rightarrow> string) \<Rightarrow> 'w timer \<Rightarrow> 'w getter \<Rightarrow> (json \<Rightarrow> 'a res) \<Rightarrow> jquants_client \<Rightarrow>
    string option \<Rightarrow> date option \<Rightarrow> ('w, 'a list option) paced" where
  "list_master fuel other tm get validate cl code as_of =
     seq (get_paginated fuel other tm get (jq_base_url cl @ ''/equities/master'')
       (optional ''code'' code @ optional ''date'' (map_option compact_date as_of)) [])
     (\<lambda>rows. lift_res (validated validate rows))"

definition daily_bars_query :: "string option \<Rightarrow> date option \<Rightarrow> date option \<Rightarrow> date option \<Rightarrow> (string \<times> string) list" where
  "daily_bars_query code as_of from_date to_date = optional ''code'' code @
     (case as_of of Some d \<Rightarrow> [(''date'', compact_date d)]
      | None \<Rightarrow> optional ''from'' (map_option compact_date from_date) @ optional ''to'' (map_option compact_date to_date))"

definition daily_bars :: "nat \<Rightarrow> (json \<Rightarrow> string) \<Rightarrow> 'w timer \<Rightarrow> 'w getter \<Rightarrow> (json \<Rightarrow> 'a res) \<Rightarrow> jquants_client \<Rightarrow>
    string option \<Rightarrow> date option \<Rightarrow> date option \<Rightarrow> date option \<Rightarrow> ('w, 'a list option) paced" where
  "daily_bars fuel other tm get validate cl code as_of from_date to_date =
     seq (get_paginated fuel other tm get (jq_base_url cl @ ''/equities/bars/daily'')
       (daily_bars_query code as_of from_date to_date) [])
     (\<lambda>rows. lift_res (validated validate rows))"

end
