(* ===== verification/Jquants_Laws.thy ===== *)
theory Jquants_Laws
  imports Jquants_Client
begin

text \<open>
  What the J-Quants client does to its upstream: its requests are spaced, a rate-limited request is
  retried as scheduled, and a listing is the concatenation of its pages.
\<close>

section \<open>Spacing\<close>

text \<open>The calls a program makes on one client, each with its own fuel; an exception of one does not
  keep the program from making the next.\<close>

datatype jquants_request =
    List_Master nat "string option" "date option"
  | Daily_Bars nat "string option" "date option" "date option" "date option"

fun jquants_call :: "(json \<Rightarrow> string) \<Rightarrow> 'w timer \<Rightarrow> 'w getter \<Rightarrow> (json \<Rightarrow> 'a res) \<Rightarrow> (json \<Rightarrow> 'b res) \<Rightarrow>
    jquants_client \<Rightarrow> jquants_request \<Rightarrow> limiter \<times> 'w \<Rightarrow> limiter \<times> 'w" where
  "jquants_call other tm get va vb cl (List_Master n code as_of) s = snd (list_master n other tm get va cl code as_of s)"
| "jquants_call other tm get va vb cl (Daily_Bars n code as_of from_date to_date) s =
     snd (daily_bars n other tm get vb cl code as_of from_date to_date s)"

lemma keeps_attempts [keeps_intros]:
  "clock_ok now tm get \<Longrightarrow> keeps (paced_state now d) (attempts n (tape_timer tm) (tape_getter get) url params)"
proof (induction n)
  case (Suc n)
  have "keeps (paced_state now d) (case r of Response st b \<Rightarrow> if st = 429 then seq on_429 (\<lambda>backoff.
      seq (pause (tape_timer tm) (of_int backoff)) (\<lambda>_. attempts n (tape_timer tm) (tape_getter get) url params)) else ret r
    | Transport_Error e \<Rightarrow> ret r)" for r
    using Suc by (cases r) (auto intro!: keeps_intros)
  with Suc.prems show ?case by (auto intro!: keeps_intros)
qed (auto intro: keeps_intros)

lemma keeps_execute [keeps_intros]:
  assumes "clock_ok now tm get"
  shows "keeps (paced_state now d) (jquants_execute (tape_timer tm) (tape_getter get) url params)"
  unfolding jquants_execute_def
  using assms by (auto intro!: keeps_intros split: http_outcome.split option.split json.split)

lemma keeps_paginated [keeps_intros]:
  "clock_ok now tm get \<Longrightarrow>
     keeps (paced_state now d) (get_paginated n other (tape_timer tm) (tape_getter get) url query out)"
  by (induction n arbitrary: query out) (auto intro!: keeps_intros simp: Let_def)

lemma jquants_call_paced:
  assumes "clock_ok now tm get" and "paced_state now d s"
  shows "paced_state now d (jquants_call other (tape_timer tm) (tape_getter get) va vb cl c s)"
proof -
  have "keeps (paced_state now d) (list_master n other (tape_timer tm) (tape_getter get) va cl code a)"
    "keeps (paced_state now d) (daily_bars n other (tape_timer tm) (tape_getter get) vb cl code a f t)" for n code a f t
    using assms(1) by (auto simp: list_master_def daily_bars_def intro!: keeps_intros)
  then show ?thesis using assms(2) by (cases c) (simp_all only: jquants_call.simps keeps_snd)
qed

lemma new_limiter_paced:
  "new_limiter d schedule = Inr l \<Longrightarrow> 0 < now w \<Longrightarrow> paced_state now d (l, w, [])"
  by (auto simp: new_limiter_def paced_state_def spaced_def split: if_splits)

text \<open>C35. The client never presses its upstream. Take any sequence of calls on one client with a fresh
  limiter, whatever the upstream answers and whichever calls raise: the instants at which its requests
  go out, retries included, are at least \<open>min\_interval\_seconds\<close> apart. The clock starts after 0 and
  does not run backwards, and a sleep lasts at least as long as asked.\<close>

theorem jquants_requests_spaced:
  assumes "new_limiter d schedule = Inr l" and "clock_ok now tm get" and "0 < now w"
  shows "spaced d (request_times 0 (snd (snd
    (fold (jquants_call other (tape_timer tm) (tape_getter get) va vb cl) calls (l, w, [])))))"
proof -
  have "paced_state now d (fold (jquants_call other (tape_timer tm) (tape_getter get) va vb cl) calls s)"
    if "paced_state now d s" for s
    using that by (induction calls arbitrary: s) (simp_all add: jquants_call_paced [OF assms(2)])
  from this [OF new_limiter_paced [OF assms(1), of now w]] assms(3) show ?thesis
    by (auto simp: paced_state_def split: prod.splits)
qed

section \<open>Retries\<close>

text \<open>The pauses the schedule of a limiter asks for after its \<open>c\<close>-th consecutive 429, and the answer of
  the last request as the client reads it.\<close>

definition scheduled :: "limiter \<Rightarrow> nat \<Rightarrow> rat list" where
  "scheduled l k = map (\<lambda>i. of_int (rl_schedule l ! min (rl_429s l + i) (length (rl_schedule l) - 1))) [0..<k]"

definition read_answer :: "http_outcome \<Rightarrow> (string \<times> json) list res" where
  "read_answer r = (case r of
     Response st (Some (JObj payload)) \<Rightarrow> if st = 200 then Inr payload else Inl (jquants_error (Some st))
   | Response st b \<Rightarrow> Inl (jquants_error (if st = 200 then None else Some st))
   | Transport_Error e \<Rightarrow> Inl (jquants_error None))"

lemma scheduled_Suc: "scheduled l (Suc k) = of_int (rl_schedule l ! min (rl_429s l) (length (rl_schedule l) - 1)) #
    scheduled (l\<lparr>rl_last_acquire := t, rl_429s := Suc (rl_429s l)\<rparr>) k"
  by (simp add: scheduled_def upt_conv_Cons map_Suc_upt [symmetric] del: upt_Suc)

lemma attempts_tape:
  "\<exists>rs r t w' ev. attempts n (tape_timer tm) (tape_getter get) url params (l, w, tape) =
     (Inr r, l\<lparr>rl_last_acquire := t, rl_429s := rl_429s l + length rs\<rparr>, w', tape @ ev) \<and>
     requests ev = map (\<lambda>a. (url, params, a)) (rs @ [r]) \<and> list_all rate_limited rs \<and>
     backoffs ev = scheduled l (length rs) \<and> length rs \<le> n \<and> (rate_limited r \<longrightarrow> length rs = n)"
proof (induction n arbitrary: l w tape)
  case 0
  obtain t w' ev r where p: "paced_get (tape_timer tm) (tape_getter get) url params (l, w, tape) =
      (Inr r, l\<lparr>rl_last_acquire := t\<rparr>, w', tape @ ev @ [Sent url params r])" "requests ev = []"
    using paced_get_tape [of tm get url params l w tape] by (elim exE conjE) (rule that)
  show ?case by (rule exI [of _ "[]"]) (use p in \<open>force simp: requests_append quiet_request scheduled_def\<close>)
next
  case (Suc n)
  obtain t w' ev r where p: "paced_get (tape_timer tm) (tape_getter get) url params (l, w, tape) =
      (Inr r, l\<lparr>rl_last_acquire := t\<rparr>, w', tape @ ev @ [Sent url params r])" "requests ev = []"
    using paced_get_tape [of tm get url params l w tape] by (elim exE conjE) (rule that)
  show ?case
  proof (cases "rate_limited r")
    case False
    then have run: "attempts (Suc n) (tape_timer tm) (tape_getter get) url params (l, w, tape) =
        (Inr r, l\<lparr>rl_last_acquire := t\<rparr>, w', tape @ ev @ [Sent url params r])"
      by (auto simp: seq_apply p rate_limited_def split: http_outcome.splits)
    show ?thesis by (rule exI [of _ "[]"]) (use run p(2) False in \<open>force simp: requests_append quiet_request scheduled_def\<close>)
  next
    case True
    let ?k = "rl_schedule l ! min (rl_429s l) (length (rl_schedule l) - 1)"
    let ?l = "l\<lparr>rl_last_acquire := t, rl_429s := Suc (rl_429s l)\<rparr>"
    let ?w = "tm_sleep tm (of_int ?k) w'"
    let ?tape = "tape @ ev @ [Sent url params r, Slept (of_int ?k)]"
    have run: "attempts (Suc n) (tape_timer tm) (tape_getter get) url params (l, w, tape) =
        attempts n (tape_timer tm) (tape_getter get) url params (?l, ?w, ?tape)"
      using True by (auto simp: seq_apply p rate_limited_def on_429_def pause_tape split: http_outcome.splits)
    obtain rs r' t' w'' ev' where q: "attempts n (tape_timer tm) (tape_getter get) url params (?l, ?w, ?tape) =
        (Inr r', ?l\<lparr>rl_last_acquire := t', rl_429s := rl_429s ?l + length rs\<rparr>, w'', ?tape @ ev')"
      "requests ev' = map (\<lambda>a. (url, params, a)) (rs @ [r'])" "list_all rate_limited rs"
      "backoffs ev' = scheduled ?l (length rs)" "length rs \<le> n" "rate_limited r' \<longrightarrow> length rs = n"
      using Suc.IH [of ?l ?w ?tape] by (elim exE conjE) (rule that)
    show ?thesis
      by (rule exI [of _ "r # rs"], rule exI [of _ r'], rule exI [of _ t'], rule exI [of _ w''],
          rule exI [of _ "ev @ [Sent url params r, Slept (of_int ?k)] @ ev'"])
        (use run p(2) q True in \<open>simp add: requests_append quiet_append scheduled_Suc [of l _ t]\<close>)
  qed
qed

text \<open>Retries. One call sends the same request at most four times, and sends it again only after a
  429. After the k-th consecutive 429 it pauses for the k-th entry of the schedule, where 429s of
  earlier calls count until a success and the last entry is repeated; after the last attempt it does
  not pause. The outcome is the reading of the last answer: an object with status 200 is returned,
  everything else is a \<open>JQuantsError\<close> with the status, and a success restarts the schedule.\<close>

theorem jquants_retries:
  "\<exists>rs r l' w' ev. jquants_execute (tape_timer tm) (tape_getter get) url params (l, w, tape) =
       (read_answer r, l', w', tape @ ev) \<and>
     requests ev = map (\<lambda>a. (url, params, a)) (rs @ [r]) \<and> list_all rate_limited rs \<and> length rs \<le> 3 \<and>
     (rate_limited r \<longrightarrow> length rs = 3) \<and> backoffs ev = scheduled l (length rs) \<and>
     rl_429s l' = (case r of Response st b \<Rightarrow> if st = 200 then 0 else rl_429s l + length rs
       | Transport_Error e \<Rightarrow> rl_429s l + length rs)"
proof -
  obtain rs r t w' ev where a: "attempts 3 (tape_timer tm) (tape_getter get) url params (l, w, tape) =
      (Inr r, l\<lparr>rl_last_acquire := t, rl_429s := rl_429s l + length rs\<rparr>, w', tape @ ev)"
    "requests ev = map (\<lambda>a. (url, params, a)) (rs @ [r])" "list_all rate_limited rs"
    "backoffs ev = scheduled l (length rs)" "length rs \<le> 3" "rate_limited r \<longrightarrow> length rs = 3"
    using attempts_tape [of 3 tm get url params l w tape]
    by (elim exE conjE) (rule that)
  have "\<exists>l'. jquants_execute (tape_timer tm) (tape_getter get) url params (l, w, tape) = (read_answer r, l', w', tape @ ev) \<and>
     rl_429s l' = (case r of Response st b \<Rightarrow> if st = 200 then 0 else rl_429s l + length rs
       | Transport_Error e \<Rightarrow> rl_429s l + length rs)"
    by (auto simp: jquants_execute_def max_429_attempts_def seq_apply a(1) read_answer_def reset_429_def split: http_outcome.split option.split json.split)
  with a(2-) show ?thesis by blast
qed

section \<open>Listings\<close>

text \<open>An upstream that serves the pages of one listing: a request with the parameters \<open>base\<close> is
  answered with the first page, one that also carries the token of a page with that page, and every
  page but the last names the token of the next.\<close>

definition page_body :: "json list list \<Rightarrow> (nat \<Rightarrow> string) \<Rightarrow> nat \<Rightarrow> (string \<times> json) list" where
  "page_body pages tok i = (''data'', JList (pages ! i)) #
     (if Suc i < length pages then [(''pagination_key'', JStr (tok (Suc i)))] else [])"

definition serves_pages :: "'w getter \<Rightarrow> string \<Rightarrow> (string \<times> string) list \<Rightarrow> json list list \<Rightarrow> (nat \<Rightarrow> string) \<Rightarrow> bool" where
  "serves_pages get url base pages tok \<longleftrightarrow> (\<forall>i w q. i < length pages \<longrightarrow>
     filter (\<lambda>(k, v). k \<noteq> ''pagination_key'') q = base \<longrightarrow>
     map_of q ''pagination_key'' = (if i = 0 then None else Some (tok i)) \<longrightarrow>
     fst (get url q w) = Response 200 (Some (JObj (page_body pages tok i))))"

lemma request_served: "(\<And>w. fst (get url q w) = r) \<Longrightarrow> fst (paced_get tm get url q s) = Inr r"
  by (cases "acquire tm s") (auto simp: paced_get_eq request_def split: prod.splits, metis fst_conv)

lemma execute_served:
  assumes "\<And>w. fst (get url q w) = Response 200 (Some (JObj payload))"
  shows "fst (jquants_execute tm get url q s) = Inr payload"
  using request_served [of get url q _ tm s, OF assms]
  by (cases "paced_get tm get url q s")
    (simp add: jquants_execute_def max_429_attempts_def numeral_3_eq_3 seq_apply reset_429_def)

lemma filter_update_key: "filter (\<lambda>(k, v). k \<noteq> key) (AList.update key v q) = filter (\<lambda>(k, v). k \<noteq> key) q"
  by (induction q) auto

lemma paginated_served:
  assumes "serves_pages get url base pages tok" and "\<And>i. tok i \<noteq> []"
    and "n < length pages" and "filter (\<lambda>(k, v). k \<noteq> ''pagination_key'') q = base"
    and "map_of q ''pagination_key'' = (if n = 0 then None else Some (tok n))" and "length pages - n \<le> fuel"
  shows "fst (get_paginated fuel other tm get url q out s) = Inr (Some (out @ concat (drop n pages)))"
  using assms(3-)
proof (induction fuel arbitrary: n q out s)
  case (Suc fuel)
  let ?p = "page_body pages tok n"
  have "fst (jquants_execute tm get url q s) = Inr ?p"
    using assms(1) Suc.prems by (intro execute_served) (simp add: serves_pages_def)
  then obtain s' where run: "jquants_execute tm get url q s = (Inr ?p, s')" by (cases "jquants_execute tm get url q s") auto
  have batch: "batch_of ?p = pages ! n" by (simp add: batch_of_def page_body_def)
  have drop: "drop n pages = pages ! n # drop (Suc n) pages" using Suc.prems(1) by (simp add: Cons_nth_drop_Suc)
  show ?case
  proof (cases "Suc n < length pages")
    case True
    then have token: "next_token other ?p = Some (tok (Suc n))" using assms(2) by (simp add: next_token_def page_body_def)
    have "fst (get_paginated fuel other tm get url (AList.update ''pagination_key'' (tok (Suc n)) q) (out @ pages ! n) s') =
        Inr (Some ((out @ pages ! n) @ concat (drop (Suc n) pages)))"
      using Suc.prems True by (intro Suc.IH) (simp_all add: filter_update_key update_conv')
    then show ?thesis using run token by (simp add: seq_apply batch drop)
  next
    case False
    then have "next_token other ?p = None" "drop (Suc n) pages = []" by (simp_all add: next_token_def page_body_def)
    then show ?thesis using run by (simp add: seq_apply batch drop)
  qed
qed simp

text \<open>A listing is complete. If the upstream serves the pages of a listing under non-empty tokens,
  then \<open>daily\_bars\<close>, with as much fuel as there are pages, returns the validated rows of all pages in
  their order, each once; it raises exactly when a row does not validate, and the filters of the call
  go with the request of every page.\<close>

theorem jquants_listing_complete:
  assumes "serves_pages get (jq_base_url cl @ ''/equities/bars/daily'') (daily_bars_query code as_of from_date to_date) pages tok"
    and "\<And>i. tok i \<noteq> []" and "pages \<noteq> []" and "length pages \<le> fuel"
  shows "fst (daily_bars fuel other tm get validate cl code as_of from_date to_date s) =
    bind_res (each_row validate (concat pages)) (\<lambda>bars. Inr (Some bars))"
proof -
  have "filter (\<lambda>(k, v). k \<noteq> ''pagination_key'') (daily_bars_query code as_of from_date to_date) =
      daily_bars_query code as_of from_date to_date"
    "map_of (daily_bars_query code as_of from_date to_date) ''pagination_key'' = None"
    by (auto simp: daily_bars_query_def optional_def split: option.split)
  then have "fst (get_paginated fuel other tm get (jq_base_url cl @ ''/equities/bars/daily'')
      (daily_bars_query code as_of from_date to_date) [] s) = Inr (Some ([] @ concat (drop 0 pages)))"
    using assms by (intro paginated_served [where n = 0]) simp_all
  then show ?thesis
    by (cases "get_paginated fuel other tm get (jq_base_url cl @ ''/equities/bars/daily'')
      (daily_bars_query code as_of from_date to_date) [] s") (simp add: daily_bars_def seq_apply validated_def)
qed

end
