(* ===== verification/Edinetdb_Client.thy ===== *)
theory Edinetdb_Client
  imports Rate_Limit
begin

text \<open>
  The EDINET DB client (\<open>data/edinetdb/client.py\<close>) with its daily quota (\<open>quota.py\<close>) and its cache
  (\<open>cache.py\<close>). The SQLite tables are lists of rows: the time stamps of the counted requests, in
  microseconds, and the cache entries by key with the instant they expire and the text of the payload.
  pydantic's validation, dump and load of the payloads are parameters.
\<close>

definition edinetdb_error :: py_exn where
  "edinetdb_error = DataError ''EdinetDbError'' None"

section \<open>The daily quota\<close>

record quota_tracker =
  qt_daily_cap :: int
  qt_log :: "int list"

definition new_quota_tracker :: "int \<Rightarrow> int list \<Rightarrow> quota_tracker res" where
  "new_quota_tracker cap rows = (if cap \<le> 0 then Inl ValueError else Inr \<lparr>qt_daily_cap = cap, qt_log = rows\<rparr>)"

definition day_micros :: int where
  "day_micros = 86400000000"

definition utc_day_floor :: "int \<Rightarrow> int" where
  "utc_day_floor now = now div day_micros * day_micros"

definition record_request :: "int \<Rightarrow> quota_tracker \<Rightarrow> quota_tracker" where
  "record_request now t = t\<lparr>qt_log := qt_log t @ [now]\<rparr>"

definition requests_today :: "int \<Rightarrow> quota_tracker \<Rightarrow> int" where
  "requests_today now t = int (length (filter (\<lambda>ts. utc_day_floor now \<le> ts \<and> ts < utc_day_floor now + day_micros) (qt_log t)))"

definition quota_remaining :: "int \<Rightarrow> quota_tracker \<Rightarrow> int" where
  "quota_remaining now t = max 0 (qt_daily_cap t - requests_today now t)"

definition quota_exhausted :: py_exn where
  "quota_exhausted = DataError ''EdinetDbQuotaExhaustedError'' None"

definition assert_quota_available :: "int \<Rightarrow> quota_tracker \<Rightarrow> unit res" where
  "assert_quota_available now t = (if qt_daily_cap t \<le> requests_today now t then Inl quota_exhausted else Inr ())"

definition purge_older_than :: "int \<Rightarrow> quota_tracker \<Rightarrow> int \<times> quota_tracker" where
  "purge_older_than cutoff t = (int (length (filter (\<lambda>ts. ts < cutoff) (qt_log t))),
     t\<lparr>qt_log := filter (\<lambda>ts. \<not> ts < cutoff) (qt_log t)\<rparr>)"

section \<open>The client\<close>

type_synonym cache_rows = "(string \<times> rat \<times> string) list"

record 'w edinetdb =
  eb_last_call :: rat
  eb_cache :: "cache_rows option"
  eb_tracker :: "quota_tracker option"
  eb_world :: 'w

record 'w edinetdb_env =
  ee_timer :: "'w timer"
  ee_time :: "'w \<Rightarrow> rat \<times> 'w"           \<comment> \<open>\<open>time.time()\<close>\<close>
  ee_utc_now :: "'w \<Rightarrow> int \<times> 'w"        \<comment> \<open>\<open>datetime.now(UTC)\<close>\<close>
  ee_get :: "string \<Rightarrow> 'w getter"       \<comment> \<open>with the key of the \<open>X-API-Key\<close> header\<close>
  ee_api_key :: "string option"
  ee_throttle :: rat
  ee_base_url :: string

type_synonym ('w, 'a) edb = "('w edinetdb, 'a) eff"

definition api_key_from_env :: "(string \<Rightarrow> string option) \<Rightarrow> string \<Rightarrow> string res" where
  "api_key_from_env environ var = (let key = py_strip (case environ var of None \<Rightarrow> [] | Some k \<Rightarrow> k) in
     if key = [] then Inl edinetdb_error else Inr key)"

definition outside :: "('w \<Rightarrow> 'a \<times> 'w) \<Rightarrow> ('w, 'a) edb" where
  "outside f = (\<lambda>s. case f (eb_world s) of (x, w) \<Rightarrow> (Inr x, s\<lparr>eb_world := w\<rparr>))"

definition require_api_key :: "'w edinetdb_env \<Rightarrow> string res" where
  "require_api_key env = (case ee_api_key env of None \<Rightarrow> Inl edinetdb_error
     | Some k \<Rightarrow> if k = [] then Inl edinetdb_error else Inr k)"

text \<open>The parts of \<open>\_get\_json\<close>, between its awaits.\<close>

definition check_quota :: "'w edinetdb_env \<Rightarrow> ('w, unit) edb" where
  "check_quota env = seq (gets eb_tracker) (\<lambda>q. case q of None \<Rightarrow> ret ()
     | Some t \<Rightarrow> seq (outside (ee_utc_now env)) (\<lambda>now. lift_res (assert_quota_available now t)))"

definition throttle_sleep :: "'w edinetdb_env \<Rightarrow> ('w, unit) edb" where
  "throttle_sleep env = (if ee_throttle env \<le> 0 then ret ()
     else seq (outside (tm_monotonic (ee_timer env))) (\<lambda>t. seq (gets eb_last_call) (\<lambda>prev.
       let wait = ee_throttle env - (t - prev) in
       seq (if 0 < wait then modify (\<lambda>s. s\<lparr>eb_world := tm_sleep (ee_timer env) wait (eb_world s)\<rparr>) else ret ()) (\<lambda>_.
       seq (outside (tm_monotonic (ee_timer env))) (\<lambda>t. modify (\<lambda>s. s\<lparr>eb_last_call := t\<rparr>))))))"

definition send :: "'w edinetdb_env \<Rightarrow> string \<Rightarrow> (string \<times> string) list \<Rightarrow> ('w, http_outcome) edb" where
  "send env url params = seq (lift_res (require_api_key env)) (\<lambda>key. outside (ee_get env key url params))"

definition count_request :: "'w edinetdb_env \<Rightarrow> ('w, unit) edb" where
  "count_request env = seq (gets eb_tracker) (\<lambda>q. case q of None \<Rightarrow> ret ()
     | Some t \<Rightarrow> seq (outside (ee_utc_now env)) (\<lambda>now.
         modify (\<lambda>s. s\<lparr>eb_tracker := map_option (record_request now) (eb_tracker s)\<rparr>)))"

definition error_response :: "json option \<Rightarrow> py_exn" where
  "error_response b = (case b of None \<Rightarrow> edinetdb_error | Some (JObj d) \<Rightarrow> edinetdb_error
     | Some _ \<Rightarrow> OtherError ''AttributeError'')"

definition read_response :: "'w edinetdb_env \<Rightarrow> http_outcome \<Rightarrow> ('w, json) edb" where
  "read_response env r = (case r of
     Transport_Error e \<Rightarrow> raise edinetdb_error
   | Response st b \<Rightarrow> if st \<noteq> 200 then raise (error_response b)
     else seq (count_request env) (\<lambda>_. case b of None \<Rightarrow> raise ValueError | Some j \<Rightarrow> ret j))"

definition edinetdb_get_json :: "'w edinetdb_env \<Rightarrow> string \<Rightarrow> (string \<times> string) list \<Rightarrow> ('w, json) edb" where
  "edinetdb_get_json env url params =
     seq (check_quota env) (\<lambda>_. seq (throttle_sleep env) (\<lambda>_. seq (send env url params) (read_response env)))"

section \<open>The cache\<close>

definition companies_key :: "int \<Rightarrow> int \<Rightarrow> string" where
  "companies_key page per_page = ''companies:page='' @ int_str page @ '':per_page='' @ int_str per_page"

definition financials_key :: "string \<Rightarrow> string" where
  "financials_key code = ''financials:'' @ code"

definition rankings_key :: "string \<Rightarrow> int \<Rightarrow> string" where
  "rankings_key endpoint limit = ''rankings:'' @ endpoint @ '':limit='' @ int_str limit"

text \<open>\<open>get\_...\<close> with the load of the family: the clock is read only when there is a row.\<close>

definition cache_get :: "'w edinetdb_env \<Rightarrow> (string \<Rightarrow> 'a res) \<Rightarrow> string \<Rightarrow> ('w, 'a option) edb" where
  "cache_get env load key = seq (gets eb_cache) (\<lambda>c. case c of None \<Rightarrow> ret None
     | Some rows \<Rightarrow> (case map_of rows key of None \<Rightarrow> ret None
         | Some (expires_at, payload) \<Rightarrow> seq (outside (ee_time env)) (\<lambda>now.
             if expires_at \<le> now then ret None
             else lift_res (bind_res (load payload) (\<lambda>x. Inr (Some x))))))"

definition cache_set :: "'w edinetdb_env \<Rightarrow> ('a \<Rightarrow> string) \<Rightarrow> string \<Rightarrow> 'a \<Rightarrow> int \<Rightarrow> ('w, unit) edb" where
  "cache_set env dump key x ttl = seq (gets eb_cache) (\<lambda>c. case c of None \<Rightarrow> ret ()
     | Some _ \<Rightarrow> seq (outside (ee_time env)) (\<lambda>now. modify (\<lambda>s. s\<lparr>eb_cache :=
         map_option (AList.update key (now + of_int ttl, dump x)) (eb_cache s)\<rparr>)))"

definition clear_cache :: "('w, unit) edb" where
  "clear_cache = modify (\<lambda>s. s\<lparr>eb_cache := map_option (\<lambda>_. []) (eb_cache s)\<rparr>)"

definition companies_ttl :: int where
  "companies_ttl = 7 * 86400"

definition financials_ttl :: int where
  "financials_ttl = 30 * 86400"

definition rankings_ttl :: int where
  "rankings_ttl = 7 * 86400"

section \<open>The endpoints\<close>

text \<open>The validation of an element of an answer, and the text of what is cached.\<close>

record ('e, 'v) codec =
  cd_validate :: "json \<Rightarrow> 'e res"
  cd_dump :: "'v \<Rightarrow> string"
  cd_load :: "string \<Rightarrow> 'v res"

definition list_companies :: "'w edinetdb_env \<Rightarrow> ('a, 'a) codec \<Rightarrow> int \<Rightarrow> int \<Rightarrow> ('w, 'a) edb" where
  "list_companies env cd page per_page =
     seq (cache_get env (cd_load cd) (companies_key page per_page)) (\<lambda>cached. case cached of
       Some listing \<Rightarrow> ret listing
     | None \<Rightarrow> seq (edinetdb_get_json env (ee_base_url env @ ''/companies'')
           [(''page'', int_str page), (''per_page'', int_str per_page)]) (\<lambda>b.
         seq (lift_res (cd_validate cd b)) (\<lambda>listing.
         seq (cache_set env (cd_dump cd) (companies_key page per_page) listing companies_ttl) (\<lambda>_. ret listing))))"

text \<open>The rows of an answer: what \<open>for row in body.get("data", [])\<close> goes over.\<close>

definition data_rows :: "json \<Rightarrow> json list res" where
  "data_rows b = (case b of JObj d \<Rightarrow> (case map_of d ''data'' of
       None \<Rightarrow> Inr [] | Some (JList rows) \<Rightarrow> Inr rows
     | Some (JStr s) \<Rightarrow> Inr (map (\<lambda>c. JStr [c]) s) | Some (JObj kvs) \<Rightarrow> Inr (map (\<lambda>(k, v). JStr k) kvs)
     | Some _ \<Rightarrow> Inl TypeError)
   | _ \<Rightarrow> Inl (OtherError ''AttributeError''))"

definition fetch_rows :: "'w edinetdb_env \<Rightarrow> ('a, 'a list) codec \<Rightarrow> string \<Rightarrow> int \<Rightarrow> string \<Rightarrow>
    (string \<times> string) list \<Rightarrow> ('w, 'a list) edb" where
  "fetch_rows env cd key ttl url params =
     seq (cache_get env (cd_load cd) key) (\<lambda>cached. case cached of
       Some rows \<Rightarrow> ret rows
     | None \<Rightarrow> seq (edinetdb_get_json env url params) (\<lambda>b.
         seq (lift_res (bind_res (data_rows b) (each_row (cd_validate cd)))) (\<lambda>rows.
         seq (if rows \<noteq> [] then cache_set env (cd_dump cd) key rows ttl else ret ()) (\<lambda>_. ret rows))))"

definition company_financials :: "'w edinetdb_env \<Rightarrow> ('a, 'a list) codec \<Rightarrow> string \<Rightarrow> ('w, 'a list) edb" where
  "company_financials env cd code = fetch_rows env cd (financials_key code) financials_ttl
     (ee_base_url env @ ''/companies/'' @ code @ ''/financials'') []"

definition ranking_roe :: "'w edinetdb_env \<Rightarrow> ('a, 'a list) codec \<Rightarrow> int \<Rightarrow> ('w, 'a list) edb" where
  "ranking_roe env cd limit = fetch_rows env cd (rankings_key ''roe'' limit) rankings_ttl
     (ee_base_url env @ ''/rankings/roe'') [(''limit'', int_str limit)]"

end
