(* ===== verification/Edinetdb_Laws.thy ===== *)
theory Edinetdb_Laws
  imports Edinetdb_Client
begin

text \<open>
  The daily quota of the EDINET DB client under any interleaving of its coroutines, and what its cache
  saves.
\<close>

section \<open>The outside\<close>

text \<open>The UTC clock \<open>now\<close> does not run backwards, and what the clock shows is the time.\<close>

definition wall_ok :: "('w \<Rightarrow> int) \<Rightarrow> 'w edinetdb_env \<Rightarrow> bool" where
  "wall_ok now env \<longleftrightarrow>
     (\<forall>w. now w \<le> fst (ee_utc_now env w) \<and> fst (ee_utc_now env w) \<le> now (snd (ee_utc_now env w))) \<and>
     (\<forall>w. now w \<le> now (snd (tm_monotonic (ee_timer env) w))) \<and> (\<forall>d w. now w \<le> now (tm_sleep (ee_timer env) d w)) \<and>
     (\<forall>w. now w \<le> now (snd (ee_time env w))) \<and> (\<forall>k u p w. now w \<le> now (snd (ee_get env k u p w)))"

definition utc_day :: "int \<Rightarrow> int" where
  "utc_day t = t div day_micros"

definition day_count :: "int \<Rightarrow> quota_tracker \<Rightarrow> nat" where
  "day_count d t = length (filter (\<lambda>ts. utc_day ts = d) (qt_log t))"

lemma same_day: "(utc_day_floor now \<le> ts \<and> ts < utc_day_floor now + day_micros) = (utc_day ts = utc_day now)"
proof -
  have "now div day_micros * day_micros \<le> ts \<and> ts < now div day_micros * day_micros + day_micros \<longleftrightarrow> ts div day_micros = now div day_micros"
    by (auto simp: day_micros_def)
  then show ?thesis by (simp add: utc_day_floor_def utc_day_def)
qed

lemma requests_today_count: "requests_today now t = int (day_count (utc_day now) t)"
  by (simp add: requests_today_def day_count_def same_day)

lemma utc_day_mono: "s \<le> t \<Longrightarrow> utc_day s \<le> utc_day t"
  by (simp add: utc_day_def day_micros_def zdiv_mono1)

lemma day_count_record: "day_count d (record_request now t) = day_count d t + (if utc_day now = d then 1 else 0)"
  by (simp add: day_count_def record_request_def)

section \<open>The quota with several coroutines\<close>

text \<open>\<open>k\<close> coroutines of at most \<open>n\<close> have passed the check and not yet counted their request.\<close>

definition quota_inv :: "('w \<Rightarrow> int) \<Rightarrow> int \<Rightarrow> nat \<Rightarrow> nat \<Rightarrow> 'w edinetdb \<Rightarrow> bool" where
  "quota_inv now cap n k s \<longleftrightarrow> 0 < cap \<and> k \<le> n \<and> (\<exists>t. eb_tracker s = Some t \<and> qt_daily_cap t = cap \<and>
     (\<forall>ts\<in>set (qt_log t). ts \<le> now (eb_world s)) \<and>
     (\<forall>d. int (day_count d t) \<le> cap + int n - 1) \<and>
     (\<forall>d. utc_day (now (eb_world s)) \<le> d \<longrightarrow> int (day_count d t) + int k \<le> cap + int n - 1))"

lemma future_day: "\<forall>ts\<in>set (qt_log t). ts \<le> m \<Longrightarrow> utc_day m < d \<Longrightarrow> day_count d t = 0"
  using utc_day_mono by (fastforce simp: day_count_def filter_empty_conv)

lemma quota_inv_later:
  assumes "quota_inv now cap n k s" and "now (eb_world s) \<le> now (eb_world s')" and "eb_tracker s' = eb_tracker s"
  shows "quota_inv now cap n k s'"
  using assms utc_day_mono [OF assms(2)] unfolding quota_inv_def by (metis order_trans)

lemma quota_inv_fewer: "quota_inv now cap n (Suc k) s \<Longrightarrow> quota_inv now cap n k s"
  unfolding quota_inv_def by (fastforce elim!: exE)

lemma outside_keeps:
  assumes "\<And>w. now w \<le> now (snd (f w))"
  shows "keeps (quota_inv now cap n k) (outside f)"
proof (rule keepsI)
  fix s assume "quota_inv now cap n k s"
  then show "quota_inv now cap n k (snd (outside f s))"
    using assms [of "eb_world s"] by (elim quota_inv_later) (auto simp: outside_def split: prod.splits)
qed

lemma check_passes:
  assumes "wall_ok now env" and "quota_inv now cap n k s" and "k < n" and "check_quota env s = (Inr (), s')"
  shows "quota_inv now cap n (Suc k) s'"
proof -
  obtain t where t: "eb_tracker s = Some t" "qt_daily_cap t = cap" "\<forall>ts\<in>set (qt_log t). ts \<le> now (eb_world s)"
      "\<forall>d. int (day_count d t) \<le> cap + int n - 1" and cap: "0 < cap"
    using assms(2) by (auto simp: quota_inv_def)
  obtain m w where m: "ee_utc_now env (eb_world s) = (m, w)" by (cases "ee_utc_now env (eb_world s)")
  with assms(1) have le: "now (eb_world s) \<le> m" "m \<le> now w" by (auto simp: wall_ok_def dest: spec [of _ "eb_world s"])
  have s': "s' = s\<lparr>eb_world := w\<rparr>" and free: "int (day_count (utc_day m) t) < cap"
    using assms(4) t(1,2) by (auto simp: check_quota_def seq_apply outside_def m assert_quota_available_def requests_today_count split: if_splits)
  have "int (day_count d t) + int (Suc k) \<le> cap + int n - 1" if "utc_day (now w) \<le> d" for d
  proof (cases "d = utc_day m")
    case True
    with free assms(3) show ?thesis by simp
  next
    case False
    with that utc_day_mono [OF le(2)] utc_day_mono [OF le(1)] have "utc_day (now (eb_world s)) < d" by simp
    from future_day [OF t(3) this] cap assms(3) show ?thesis by simp
  qed
  moreover have "\<forall>ts\<in>set (qt_log t). ts \<le> now w" using t(3) le by fastforce
  ultimately show ?thesis using t cap assms(3) by (auto simp: quota_inv_def s')
qed

lemma check_refuses:
  assumes "wall_ok now env" and "quota_inv now cap n k s"
  shows "quota_inv now cap n k (snd (check_quota env s))"
proof -
  have "now w \<le> now (snd (ee_utc_now env w))" for w using assms(1) by (meson order_trans wall_ok_def)
  then have "keeps (quota_inv now cap n k) (check_quota env)"
    unfolding check_quota_def by (auto intro!: keeps_intros outside_keeps)
  with assms(2) show ?thesis by (simp add: keeps_snd)
qed

lemma count_request_inv:
  assumes "wall_ok now env" and "quota_inv now cap n (Suc k) s"
  shows "quota_inv now cap n k (snd (count_request env s))"
proof -
  obtain t where t: "eb_tracker s = Some t" "qt_daily_cap t = cap" "\<forall>ts\<in>set (qt_log t). ts \<le> now (eb_world s)"
      "\<forall>d. int (day_count d t) \<le> cap + int n - 1" 
      "\<forall>d. utc_day (now (eb_world s)) \<le> d \<longrightarrow> int (day_count d t) + int (Suc k) \<le> cap + int n - 1"
      and cap: "0 < cap" "Suc k \<le> n"
    using assms(2) by (auto simp: quota_inv_def)
  obtain m w where m: "ee_utc_now env (eb_world s) = (m, w)" by (cases "ee_utc_now env (eb_world s)")
  with assms(1) have le: "now (eb_world s) \<le> m" "m \<le> now w" by (auto simp: wall_ok_def dest: spec [of _ "eb_world s"])
  note day = utc_day_mono [OF le(1)] utc_day_mono [OF le(2)]
  have s': "snd (count_request env s) = s\<lparr>eb_world := w, eb_tracker := Some (record_request m t)\<rparr>"
    by (simp add: count_request_def seq_apply outside_def m t(1))
  have "int (day_count d (record_request m t)) \<le> cap + int n - 1" for d
    using t(4) [THEN spec, of d] t(5) [THEN spec, of "utc_day m"] day by (auto simp: day_count_record)
  moreover have "int (day_count d (record_request m t)) + int k \<le> cap + int n - 1" if "utc_day (now w) \<le> d" for d
    using t(5) [THEN spec, of d] day that by (auto simp: day_count_record)
  moreover have "\<forall>ts\<in>set (qt_log (record_request m t)). ts \<le> now w" using t(3) le by (fastforce simp: record_request_def)
  ultimately show ?thesis using t(2) cap by (auto simp: quota_inv_def s' record_request_def)
qed

lemma read_response_inv:
  assumes "wall_ok now env" and "quota_inv now cap n (Suc k) s"
  shows "quota_inv now cap n k (snd (read_response env r s))"
  using count_request_inv [OF assms] quota_inv_fewer [OF assms(2)]
  by (auto simp: read_response_def seq_apply split: http_outcome.split prod.splits sum.splits option.splits)

lemma other_parts_keep:
  assumes "wall_ok now env"
  shows "keeps (quota_inv now cap n k) (throttle_sleep env)"
    and "keeps (quota_inv now cap n k) (send env url params)"
    and "keeps (quota_inv now cap n k) (cache_get env load key)"
    and "keeps (quota_inv now cap n k) (cache_set env dump key x ttl)"
    and "keeps (quota_inv now cap n k) clear_cache"
proof -
  have o: "keeps (quota_inv now cap n k) (outside (tm_monotonic (ee_timer env)))"
      "keeps (quota_inv now cap n k) (outside (ee_time env))" "keeps (quota_inv now cap n k) (outside (ee_get env key' url params))" for key' url params
    using assms by (auto intro!: outside_keeps simp: wall_ok_def)
  have s: "keeps (quota_inv now cap n k) (modify (\<lambda>s. s\<lparr>eb_world := tm_sleep (ee_timer env) d (eb_world s)\<rparr>))" for d
    using assms by (auto intro!: keeps_modify elim!: quota_inv_later simp: wall_ok_def)
  have m: "keeps (quota_inv now cap n k) (modify f)" if "\<And>s. eb_world (f s) = eb_world s" "\<And>s. eb_tracker (f s) = eb_tracker s" for f
    using that by (auto intro!: keeps_modify elim!: quota_inv_later)
  show "keeps (quota_inv now cap n k) (throttle_sleep env)" "keeps (quota_inv now cap n k) (send env url params)"
    "keeps (quota_inv now cap n k) (cache_get env load key)" "keeps (quota_inv now cap n k) (cache_set env dump key x ttl)"
    "keeps (quota_inv now cap n k) clear_cache"
    unfolding throttle_sleep_def send_def cache_get_def cache_set_def clear_cache_def
    by (auto intro!: keeps_intros o s m simp: Let_def split: prod.split)
qed

text \<open>The coroutines of one event loop that share a client and its tracker. A step is what one of them
  does between two awaits of a public method, with the definitions of the client; \<open>k\<close> of at most
  \<open>n\<close> are between their check and the end of their request. In \<open>elsewhere\<close> time passes, and a
  coroutine that waits in \<open>\_throttle\_sleep\<close> goes on.\<close>

inductive quota_step :: "('w \<Rightarrow> int) \<Rightarrow> 'w edinetdb_env \<Rightarrow> nat \<Rightarrow> nat \<times> 'w edinetdb \<Rightarrow> nat \<times> 'w edinetdb \<Rightarrow> bool"
  for now env n where
  passes: "k < n \<Longrightarrow> check_quota env s = (Inr (), s') \<Longrightarrow> quota_step now env n (k, s) (Suc k, s')"
| refused: "check_quota env s = (Inl e, s') \<Longrightarrow> quota_step now env n (k, s) (k, s')"
| paces: "quota_step now env n (k, s) (k, snd (throttle_sleep env s))"
| sends: "quota_step now env n (k, s) (k, snd (send env url params s))"
| reads: "quota_step now env n (Suc k, s) (k, snd (read_response env r s))"
| gives_up: "quota_step now env n (Suc k, s) (k, s)"
| looks_up: "quota_step now env n (k, s) (k, snd (cache_get env (load :: string \<Rightarrow> string res) key s))"
| caches: "quota_step now env n (k, s) (k, snd (cache_set env (dump :: string \<Rightarrow> string) key x ttl s))"
| clears: "quota_step now env n (k, s) (k, snd (clear_cache s))"
| elsewhere: "now (eb_world s) \<le> now w \<Longrightarrow> quota_step now env n (k, s) (k, s\<lparr>eb_world := w, eb_last_call := c\<rparr>)"

lemma quota_step_inv:
  assumes "wall_ok now env" and "quota_step now env n x y" and "quota_inv now cap n (fst x) (snd x)"
  shows "quota_inv now cap n (fst y) (snd y)"
  using assms(2,3)
proof cases
  case (passes k s s')
  then show ?thesis using assms(3) check_passes [OF assms(1)] by simp
next
  case (refused s e s' k)
  then show ?thesis using assms(3) check_refuses [OF assms(1), of cap n k s] by simp
next
  case (elsewhere s w k c)
  then show ?thesis using assms(3) by (auto elim: quota_inv_later)
qed (use assms(3) in \<open>auto simp: keeps_snd [OF other_parts_keep(1) [OF assms(1)]] keeps_snd [OF other_parts_keep(2) [OF assms(1)]]
  keeps_snd [OF other_parts_keep(3) [OF assms(1)]] keeps_snd [OF other_parts_keep(4) [OF assms(1)]]
  keeps_snd [OF other_parts_keep(5) [OF assms(1)]] quota_inv_fewer read_response_inv [OF assms(1)]\<close>)

definition quota_reachable :: "('w \<Rightarrow> int) \<Rightarrow> 'w edinetdb_env \<Rightarrow> nat \<Rightarrow> 'w edinetdb \<Rightarrow> 'w edinetdb \<Rightarrow> bool" where
  "quota_reachable now env n s s' \<longleftrightarrow> (\<exists>k. (quota_step now env n)\<^sup>*\<^sup>* (0, s) (k, s'))"

text \<open>C36. The daily cap. Let \<open>n\<close> coroutines use one client whose tracker starts empty, interleaved at
  their awaits in any way. On every UTC day at most \<open>daily\_cap + n - 1\<close> requests are counted: the cap
  itself when the calls do not overlap, but each further coroutine can add one, since the check and
  the count are separated by the awaits of the request.\<close>

theorem quota_overshoot_bounded:
  assumes "new_quota_tracker cap [] = Inr t" and "eb_tracker s = Some t" and "wall_ok now env" and "0 < n"
    and "quota_reachable now env n s s'" and "eb_tracker s' = Some t'"
  shows "requests_today m t' \<le> cap + int n - 1"
proof -
  have start: "quota_inv now cap n 0 s"
    using assms(1,2,4) by (auto simp: new_quota_tracker_def quota_inv_def day_count_def split: if_splits)
  obtain k where "(quota_step now env n)\<^sup>*\<^sup>* (0, s) (k, s')" using assms(5) by (auto simp: quota_reachable_def)
  then have "quota_inv now cap n (fst (k, s')) (snd (k, s'))"
    by (induction rule: rtranclp_induct) (use start quota_step_inv [OF assms(3)] in auto)
  then show ?thesis using assms(6) by (auto simp: quota_inv_def requests_today_count)
qed

text \<open>A call that nobody interrupts is a run of these steps.\<close>

lemma get_json_steps:
  assumes "edinetdb_get_json env url params s = (r, s')" and "k < n"
  shows "(quota_step now env n)\<^sup>*\<^sup>* (k, s) (k, s')"
proof -
  note step = r_into_rtranclp [of "quota_step now env n"]
  obtain c s1 where check: "check_quota env s = (c, s1)" by (cases "check_quota env s")
  show ?thesis
  proof (cases c)
    case (Inl e)
    with check assms(1) have "s' = s1" by (simp add: edinetdb_get_json_def seq_apply)
    with check Inl show ?thesis by (auto intro: step quota_step.refused)
  next
    case (Inr u)
    have "fst (throttle_sleep env s1) = Inr ()"
      by (simp add: throttle_sleep_def seq_apply outside_def Let_def split: prod.split)
    then obtain s2 where pace: "throttle_sleep env s1 = (Inr (), s2)" by (metis prod.collapse)
    obtain a s3 where send: "send env url params s2 = (a, s3)" by (cases "send env url params s2")
    have "quota_step now env n (k, s) (Suc k, s1)" using check Inr assms(2) by (auto intro: quota_step.passes)
    moreover have "quota_step now env n (Suc k, s1) (Suc k, s2)" using quota_step.paces [of now env n "Suc k" s1] pace by simp
    moreover have "quota_step now env n (Suc k, s2) (Suc k, s3)" using quota_step.sends [of now env n "Suc k" s2 url params] send by simp
    ultimately have "(quota_step now env n)\<^sup>*\<^sup>* (k, s) (Suc k, s3)" by (meson rtranclp.rtrancl_into_rtrancl step)
    moreover have "quota_step now env n (Suc k, s3) (k, s')"
    proof (cases a)
      case (Inl e)
      with assms(1) check \<open>c = Inr u\<close> pace send have "s' = s3" by (simp add: edinetdb_get_json_def seq_apply)
      then show ?thesis by (auto intro: quota_step.gives_up)
    next
      case (Inr resp)
      with assms(1) check \<open>c = Inr u\<close> pace send have "s' = snd (read_response env resp s3)"
        by (simp add: edinetdb_get_json_def seq_apply)
      then show ?thesis by (auto intro: quota_step.reads)
    qed
    ultimately show ?thesis by (rule rtranclp.rtrancl_into_rtrancl)
  qed
qed

section \<open>What the cache saves\<close>

definition cached_entry :: "'w edinetdb \<Rightarrow> string \<Rightarrow> (rat \<times> string) option" where
  "cached_entry s key = (case eb_cache s of None \<Rightarrow> None | Some rows \<Rightarrow> map_of rows key)"

text \<open>The wall clock \<open>clock\<close> of the cache does not run backwards either.\<close>

definition time_ok :: "('w \<Rightarrow> rat) \<Rightarrow> 'w edinetdb_env \<Rightarrow> bool" where
  "time_ok clock env \<longleftrightarrow>
     (\<forall>w. clock w \<le> fst (ee_time env w) \<and> fst (ee_time env w) \<le> clock (snd (ee_time env w))) \<and>
     (\<forall>w. clock w \<le> clock (snd (ee_utc_now env w))) \<and> (\<forall>w. clock w \<le> clock (snd (tm_monotonic (ee_timer env) w))) \<and>
     (\<forall>d w. clock w \<le> clock (tm_sleep (ee_timer env) d w)) \<and> (\<forall>k u p w. clock w \<le> clock (snd (ee_get env k u p w)))"

text \<open>Time passes, and the cache does not change.\<close>

definition later_same_cache :: "('w \<Rightarrow> rat) \<Rightarrow> 'w edinetdb \<Rightarrow> 'w edinetdb \<Rightarrow> bool" where
  "later_same_cache clock s s' \<longleftrightarrow> clock (eb_world s) \<le> clock (eb_world s') \<and> eb_cache s' = eb_cache s"

lemma keeps_later_outside: "(\<And>w. clock w \<le> clock (snd (f w))) \<Longrightarrow> keeps (later_same_cache clock s0) (outside f)"
  by (auto simp: keeps_def later_same_cache_def outside_def split: prod.splits intro: order_trans) (metis order_trans snd_conv)

lemma get_json_same_cache:
  assumes "time_ok clock env"
  shows "later_same_cache clock s (snd (edinetdb_get_json env url params s))"
proof -
  let ?P = "later_same_cache clock s"
  have o: "keeps ?P (outside (ee_utc_now env))" "keeps ?P (outside (tm_monotonic (ee_timer env)))"
      "keeps ?P (outside (ee_get env key url params))" for key
    using assms by (auto intro!: keeps_later_outside simp: time_ok_def)
  have m: "keeps ?P (modify (\<lambda>s. s\<lparr>eb_world := tm_sleep (ee_timer env) d (eb_world s)\<rparr>))" for d
    using assms by (auto simp: keeps_def later_same_cache_def time_ok_def intro: order_trans)
  have k: "keeps ?P (modify f)" if "\<And>s. eb_world (f s) = eb_world s" "\<And>s. eb_cache (f s) = eb_cache s" for f
    using that by (simp add: keeps_def later_same_cache_def)
  have "keeps ?P (check_quota env)" "keeps ?P (throttle_sleep env)" "keeps ?P (send env url params)" "keeps ?P (count_request env)"
    unfolding check_quota_def throttle_sleep_def send_def count_request_def
    by (auto intro!: keeps_intros o m k simp: Let_def)
  then have "keeps ?P (edinetdb_get_json env url params)"
    unfolding edinetdb_get_json_def read_response_def by (auto intro!: keeps_intros split: http_outcome.split)
  then show ?thesis by (rule keeps_snd) (simp add: later_same_cache_def)
qed

text \<open>An entry that has not expired stays as it is, whatever endpoint is called.\<close>

definition holds_entry :: "string \<Rightarrow> rat \<times> string \<Rightarrow> 'w edinetdb \<Rightarrow> bool" where
  "holds_entry key e s \<longleftrightarrow> cached_entry s key = Some e"

lemma holds_entry_later: "holds_entry key e s \<Longrightarrow> later_same_cache clock s s' \<Longrightarrow> holds_entry key e s'"
  by (simp add: holds_entry_def cached_entry_def later_same_cache_def)

lemma cache_get_cases:
  assumes "time_ok clock env" and "cache_get env load k s = (r, s')"
  shows "later_same_cache clock s s'"
    and "holds_entry k (e, p) s \<Longrightarrow> clock (eb_world s') < e \<Longrightarrow> r = bind_res (load p) (\<lambda>x. Inr (Some x))"
proof -
  have t: "clock w \<le> fst (ee_time env w)" "fst (ee_time env w) \<le> clock (snd (ee_time env w))" for w
    using assms(1) by (simp_all add: time_ok_def)
  note t' = order_trans [OF t]
  show "later_same_cache clock s s'"
    using assms(2) t' by (auto simp: cache_get_def seq_apply outside_def later_same_cache_def split: option.splits prod.splits if_splits) (metis fst_conv snd_conv)+
  show "r = bind_res (load p) (\<lambda>x. Inr (Some x))" if "holds_entry k (e, p) s" "clock (eb_world s') < e"
    using assms(2) that t(2) [of "eb_world s"]
    by (auto simp: cache_get_def seq_apply outside_def holds_entry_def cached_entry_def split: option.splits prod.splits if_splits)
qed

lemma cache_set_cases:
  assumes "time_ok clock env"
  shows "fst (cache_set env dump k x ttl s) = Inr ()"
    and "clock (eb_world s) \<le> clock (eb_world (snd (cache_set env dump k x ttl s)))"
    and "holds_entry key e s \<Longrightarrow> k \<noteq> key \<Longrightarrow> holds_entry key e (snd (cache_set env dump k x ttl s))"
proof -
  have t: "clock w \<le> clock (snd (ee_time env w))" for w using assms by (meson order_trans time_ok_def)
  note simps = cache_set_def seq_apply outside_def holds_entry_def cached_entry_def update_conv'
  show "fst (cache_set env dump k x ttl s) = Inr ()" by (auto simp: simps split: option.splits prod.splits)
  show "clock (eb_world s) \<le> clock (eb_world (snd (cache_set env dump k x ttl s)))"
    using t [of "eb_world s"] by (auto simp: simps split: option.splits prod.splits)
  show "holds_entry key e s \<Longrightarrow> k \<noteq> key \<Longrightarrow> holds_entry key e (snd (cache_set env dump k x ttl s))"
    by (auto simp: simps split: option.splits prod.splits)
qed

definition endpoint :: "'w edinetdb_env \<Rightarrow> (string \<Rightarrow> 'a res) \<Rightarrow> ('a \<Rightarrow> string) \<Rightarrow> string \<Rightarrow> int \<Rightarrow> string \<Rightarrow>
    (string \<times> string) list \<Rightarrow> (json \<Rightarrow> 'a res) \<Rightarrow> ('a \<Rightarrow> bool) \<Rightarrow> ('w, 'a) edb" where
  "endpoint env load dump k ttl url params F C =
     seq (cache_get env load k) (\<lambda>cached. case cached of
       Some x \<Rightarrow> ret x
     | None \<Rightarrow> seq (edinetdb_get_json env url params) (\<lambda>b. seq (lift_res (F b)) (\<lambda>x.
         seq (if C x then cache_set env dump k x ttl else ret ()) (\<lambda>_. ret x))))"

lemma list_companies_endpoint: "list_companies env cd p q =
    endpoint env (cd_load cd) (cd_dump cd) (companies_key p q) companies_ttl (ee_base_url env @ ''/companies'')
      [(''page'', int_str p), (''per_page'', int_str q)] (cd_validate cd) (\<lambda>_. True)"
  unfolding list_companies_def endpoint_def if_True by (rule refl)

lemma fetch_rows_endpoint: "fetch_rows env cd key ttl url params =
    endpoint env (cd_load cd) (cd_dump cd) key ttl url params
      (\<lambda>b. bind_res (data_rows b) (each_row (cd_validate cd))) (\<lambda>rows. rows \<noteq> [])"
  by (simp add: fetch_rows_def endpoint_def)

lemma endpoint_keeps_entry:
  assumes ok: "time_ok clock env" and run: "endpoint env load dump k ttl url params F C s = (r, s')"
  shows "clock (eb_world s) \<le> clock (eb_world s')"
    and "holds_entry key (e, p) s \<Longrightarrow> clock (eb_world s') < e \<Longrightarrow> holds_entry key (e, p) s'"
proof -
  obtain c s1 where get: "cache_get env load k s = (c, s1)" by (cases "cache_get env load k s")
  note l1 = cache_get_cases(1) [OF ok get] and hit = cache_get_cases(2) [OF ok get]
  obtain b s2 where json: "edinetdb_get_json env url params s1 = (b, s2)" by (cases "edinetdb_get_json env url params s1")
  have l2: "later_same_cache clock s1 s2" using get_json_same_cache [OF ok, of s1 url params] by (simp add: json)
  have le: "clock (eb_world s) \<le> clock (eb_world s1)" "clock (eb_world s1) \<le> clock (eb_world s2)"
    using l1 l2 by (simp_all add: later_same_cache_def)
  have cases: "(s' = s1 \<and> c \<noteq> Inr None) \<or> (c = Inr None \<and> (s' = s2 \<or> (\<exists>x. s' = snd (cache_set env dump k x ttl s2))))"
  proof (cases "c = Inr None")
    case True
    then have s': "s' = snd (case b of Inl e \<Rightarrow> (Inl e, s2) | Inr j \<Rightarrow> (seq (lift_res (F j)) (\<lambda>x.
         seq (if C x then cache_set env dump k x ttl else ret ()) (\<lambda>_. ret x)) s2))"
      using run by (cases b) (simp_all add: endpoint_def seq_apply get json)
    have "snd (seq (cache_set env dump k x ttl) (\<lambda>_. ret x) s2) = snd (cache_set env dump k x ttl s2)" for x
      using cache_set_cases(1) [OF ok, of dump k x ttl s2] by (cases "cache_set env dump k x ttl s2") (simp add: seq_apply)
    with True s' show ?thesis by (cases b) (auto simp: seq_apply split: sum.splits)
  qed (use run in \<open>auto simp: endpoint_def seq_apply get split: sum.splits option.splits\<close>)
  have set: "clock (eb_world s2) \<le> clock (eb_world s') \<and> (holds_entry key (e, p) s2 \<longrightarrow> k \<noteq> key \<longrightarrow> holds_entry key (e, p) s')"
    if "\<exists>x. s' = snd (cache_set env dump k x ttl s2)"
    using that by (auto simp: cache_set_cases [OF ok])
  show mono: "clock (eb_world s) \<le> clock (eb_world s')" using cases le set by (metis order_trans order_refl)
  show "holds_entry key (e, p) s'" if h: "holds_entry key (e, p) s" "clock (eb_world s') < e"
  proof -
    have "c \<noteq> Inr None" if "k = key"
    proof -
      have "clock (eb_world s1) < e" using cases le set h(2) by (metis order_le_less_trans order_trans)
      with hit [of e p] h(1) that show ?thesis by (cases "load p") auto
    qed
    then show ?thesis using cases set holds_entry_later [OF h(1) l1] holds_entry_later [OF holds_entry_later [OF h(1) l1] l2] by auto
  qed
qed

section \<open>The calls of a program\<close>

datatype edinetdb_call = List_Companies int int | Company_Financials string | Ranking_Roe int

fun edinetdb_calls :: "'w edinetdb_env \<Rightarrow> ('l, 'l) codec \<Rightarrow> ('f, 'f list) codec \<Rightarrow> ('k, 'k list) codec \<Rightarrow>
    edinetdb_call \<Rightarrow> 'w edinetdb \<Rightarrow> 'w edinetdb" where
  "edinetdb_calls env cl cf ck (List_Companies p q) s = snd (list_companies env cl p q s)"
| "edinetdb_calls env cl cf ck (Company_Financials code) s = snd (company_financials env cf code s)"
| "edinetdb_calls env cl cf ck (Ranking_Roe limit) s = snd (ranking_roe env ck limit s)"

lemma calls_keep_entry:
  assumes "time_ok clock env"
  shows "clock (eb_world s) \<le> clock (eb_world (edinetdb_calls env cl cf ck c s))"
    and "holds_entry key (e, p) s \<Longrightarrow> clock (eb_world (edinetdb_calls env cl cf ck c s)) < e \<Longrightarrow>
      holds_entry key (e, p) (edinetdb_calls env cl cf ck c s)"
  by (cases c; simp add: list_companies_endpoint company_financials_def ranking_roe_def fetch_rows_endpoint
      endpoint_keeps_entry(1) [OF assms surjective_pairing] endpoint_keeps_entry(2) [OF assms surjective_pairing])+

lemma all_calls_keep_entry:
  assumes "time_ok clock env"
  shows "clock (eb_world s) \<le> clock (eb_world (fold (edinetdb_calls env cl cf ck) calls s)) \<and>
    (holds_entry key (e, p) s \<longrightarrow> clock (eb_world (fold (edinetdb_calls env cl cf ck) calls s)) < e \<longrightarrow>
      holds_entry key (e, p) (fold (edinetdb_calls env cl cf ck) calls s))"
proof (induction calls arbitrary: s)
  case (Cons c calls)
  let ?s = "edinetdb_calls env cl cf ck c s"
  show ?case using Cons.IH [of ?s] calls_keep_entry(1) [OF assms, of s cl cf ck c]
      calls_keep_entry(2) [OF assms, of key e p s cl cf ck c] by auto
qed simp

text \<open>The cache shields the quota. If \<open>list\_companies\<close> misses the cache and returns a listing, then the
  same call, made after any other calls of the client but within seven days, returns the same listing
  and does nothing but read the clock: no request, no quota, no change of the cache.\<close>

theorem cache_shields_quota:
  assumes "time_ok clock env" and "eb_cache s \<noteq> None" and "cached_entry s (companies_key page per_page) = None"
    and "list_companies env cl page per_page s = (Inr listing, s1)" and "cd_load cl (cd_dump cl listing) = Inr listing"
    and "s2 = fold (edinetdb_calls env cl cf ck) calls s1"
    and "fst (ee_time env (eb_world s2)) < clock (eb_world s) + 7 * 86400"
  shows "list_companies env cl page per_page s2 = (Inr listing, s2\<lparr>eb_world := snd (ee_time env (eb_world s2))\<rparr>)"
proof -
  let ?key = "companies_key page per_page"
  have t: "clock w \<le> fst (ee_time env w)" "fst (ee_time env w) \<le> clock (snd (ee_time env w))" for w
    using assms(1) by (simp_all add: time_ok_def)
  obtain b s' where json: "edinetdb_get_json env (ee_base_url env @ ''/companies'')
      [(''page'', int_str page), (''per_page'', int_str per_page)] s = (b, s')" by fastforce
  have miss: "cache_get env (cd_load cl) ?key s = (Inr None, s)"
    using assms(2,3) by (auto simp: cache_get_def seq_apply cached_entry_def split: option.splits)
  have same: "later_same_cache clock s s'" using get_json_same_cache [OF assms(1), of s] json by (metis snd_conv)
  then obtain rows where rows: "eb_cache s' = Some rows" using assms(2) by (auto simp: later_same_cache_def)
  obtain m w where m: "ee_time env (eb_world s') = (m, w)" by fastforce
  have "s1 = s'\<lparr>eb_world := w, eb_cache := Some (AList.update ?key (m + of_int companies_ttl, cd_dump cl listing) rows)\<rparr>"
    using assms(4) by (auto simp: list_companies_def seq_apply miss json cache_set_def rows outside_def m split: sum.splits)
  then have held: "holds_entry ?key (m + 7 * 86400, cd_dump cl listing) s1"
    by (simp add: holds_entry_def cached_entry_def update_conv' companies_ttl_def)
  have "clock (eb_world s) \<le> m" using same t(1) [of "eb_world s'"] m by (simp add: later_same_cache_def)
  with assms(7) have fresh: "fst (ee_time env (eb_world s2)) < m + 7 * 86400" by simp
  with all_calls_keep_entry [OF assms(1), of s1 cl cf ck calls ?key "m + 7 * 86400" "cd_dump cl listing"] held t(1) [of "eb_world s2"]
  have "holds_entry ?key (m + 7 * 86400, cd_dump cl listing) s2" by (simp add: assms(6))
  with fresh assms(5) show ?thesis
    by (auto simp: list_companies_def seq_apply cache_get_def holds_entry_def cached_entry_def outside_def split: option.splits prod.splits)
qed

end
