(* ===== verification/Observer_Signals.thy ===== *)
theory Observer_Signals
  imports Signals Observer Py_Date
begin

text \<open>
  The helpers that reduce what a market data client returns to what the Observer reads
  (\<open>data/jquants/observer\_signals.py\<close>, \<open>data/yfinance/observer\_signals.py\<close>,
  \<open>data/edinetdb/observer\_signals.py\<close>, \<open>data/edinet/observer\_signals.py\<close>). The clients are effects;
  of a row the fields the helpers read are kept.
\<close>

definition trading_days_1m :: nat where
  "trading_days_1m = 21"

definition trading_days_12m :: nat where
  "trading_days_12m = 252"

definition volatility_window :: nat where
  "volatility_window = 30"

section \<open>J-Quants\<close>

definition chosen_close :: "daily_bar \<Rightarrow> decimal option" where
  "chosen_close b = (case db_adjusted_close b of Some c \<Rightarrow> Some c | None \<Rightarrow> db_close b)"

definition ordered_closes :: "daily_bar list \<Rightarrow> decimal list res" where
  "ordered_closes bars = (let closes = List.map_filter chosen_close (sort_key db_date bars) in
     if closes = [] then Inl ValueError else Inr closes)"

definition growth :: "dec_ctx \<Rightarrow> decimal \<Rightarrow> decimal \<Rightarrow> decimal res" where
  "growth fx new old = dec_div fx (dec_sub fx new old) old"

definition some_res :: "'a res \<Rightarrow> 'a option res" where
  "some_res r = bind_res r (\<lambda>x. Inr (Some x))"

definition simple_return :: "dec_ctx \<Rightarrow> decimal list \<Rightarrow> nat \<Rightarrow> decimal option res" where
  "simple_return fx closes lookback =
     (if length closes \<le> lookback then Inr None
      else let start = closes ! (length closes - 1 - lookback) in
        if dec_eq start dzero then Inr None else some_res (growth fx (last closes) start))"

text \<open>The returns of consecutive closes; \<open>None\<close> when a close to divide by is zero.\<close>

fun close_returns :: "dec_ctx \<Rightarrow> decimal list \<Rightarrow> rat list option res" where
  "close_returns fx (prev # cur # closes) =
     (if dec_eq prev dzero then Inr None
      else bind_res (growth fx cur prev) (\<lambda>g. bind_res (close_returns fx (cur # closes)) (\<lambda>rs.
        Inr (map_option ((#) (float_of_dec g)) rs))))"
| "close_returns fx closes = Inr (Some [])"

definition realized_volatility :: "dec_ctx \<Rightarrow> decimal list \<Rightarrow> nat \<Rightarrow> decimal option res" where
  "realized_volatility fx closes window =
     (if length closes \<le> window then Inr None
      else bind_res (close_returns fx (drop (length closes - (window + 1)) closes)) (\<lambda>rs.
        Inr (case rs of None \<Rightarrow> None
          | Some returns \<Rightarrow> if length returns < 2 then None else Some (decimal_of_float (stat_stdev returns)))))"

definition jquants_snapshot :: "dec_ctx \<Rightarrow> string \<Rightarrow> daily_bar list \<Rightarrow> asset_snapshot res" where
  "jquants_snapshot fx code bars =
     (if bars = [] then Inl ValueError
      else bind_res (ordered_closes bars) (\<lambda>closes.
        bind_res (simple_return fx closes trading_days_1m) (\<lambda>r1.
        bind_res (simple_return fx closes trading_days_12m) (\<lambda>r12.
        bind_res (realized_volatility fx closes volatility_window) (\<lambda>v.
        validate_snapshot \<lparr>as_ticker = code, as_return_1m = r1, as_return_12m = r12, as_volatility_30d = v,
          as_last_close = Some (last closes), as_note = None\<rparr>)))))"

definition fetch_jquants_asset_snapshot :: "dec_ctx \<Rightarrow>
    (string \<Rightarrow> date option \<Rightarrow> date option \<Rightarrow> ('w, daily_bar list) eff) \<Rightarrow> string \<Rightarrow> date option \<Rightarrow> int \<Rightarrow>
    ('w, asset_snapshot) eff" where
  "fetch_jquants_asset_snapshot fx daily_bars code as_of history_days =
     seq (case as_of of
         Some d \<Rightarrow> daily_bars code (Some (d - history_days)) (Some d)
       | None \<Rightarrow> daily_bars code None None)
     (\<lambda>bars. lift_res (jquants_snapshot fx code bars))"

section \<open>Yahoo Finance\<close>

record yfinance_price =
  yp_symbol :: string
  yp_date :: date
  yp_open :: decimal
  yp_high :: decimal
  yp_low :: decimal
  yp_close :: decimal
  yp_adjusted_close :: "decimal option"
  yp_volume :: "int option"

definition validate_price :: "yfinance_price \<Rightarrow> yfinance_price res" where
  "validate_price p0 = (let p = p0\<lparr>yp_symbol := strip (yp_symbol p0)\<rparr> in
     bind_res (check (len_in 1 20 (yp_symbol p) \<and> dec_ge0 (yp_open p) \<and> dec_ge0 (yp_high p) \<and> dec_ge0 (yp_low p) \<and>
       dec_ge0 (yp_close p) \<and> pred_option dec_ge0 (yp_adjusted_close p) \<and> pred_option (\<lambda>v. 0 \<le> v) (yp_volume p)))
     (\<lambda>_. bind_res (check (dec_le (yp_low p) (yp_high p))) (\<lambda>_. Inr p)))"

definition close_of :: "yfinance_price \<Rightarrow> decimal" where
  "close_of bar = (case yp_adjusted_close bar of Some c \<Rightarrow> c | None \<Rightarrow> yp_close bar)"

definition position_return :: "dec_ctx \<Rightarrow> decimal list \<Rightarrow> nat \<Rightarrow> decimal option res" where
  "position_return fx closes lookback =
     (if length closes \<le> lookback then Inr None
      else let prior = closes ! (length closes - lookback - 1) in
        if dec_le prior dzero then Inr None else some_res (growth fx (last closes) prior))"

fun recent_returns :: "dec_ctx \<Rightarrow> decimal list \<Rightarrow> rat list res" where
  "recent_returns fx (a # b # closes) =
     bind_res (if dec_lt dzero a then bind_res (growth fx b a) (\<lambda>g. Inr (float_of_dec g)) else Inr 0) (\<lambda>r.
     bind_res (recent_returns fx (b # closes)) (\<lambda>rs. Inr (r # rs)))"
| "recent_returns fx closes = Inr []"

definition recent_stdev :: "dec_ctx \<Rightarrow> decimal list \<Rightarrow> nat \<Rightarrow> decimal option res" where
  "recent_stdev fx closes window =
     (if length closes < window + 1 then Inr None
      else bind_res (recent_returns fx (drop (length closes - (window + 1)) closes)) (\<lambda>returns.
        Inr (Some (decimal_of_float (stat_stdev returns)))))"

definition yfinance_snapshot :: "dec_ctx \<Rightarrow> string \<Rightarrow> yfinance_price list \<Rightarrow> asset_snapshot res" where
  "yfinance_snapshot fx symbol bars =
     (if bars = [] then validate_snapshot \<lparr>as_ticker = symbol, as_return_1m = None, as_return_12m = None,
        as_volatility_30d = None, as_last_close = Some dzero, as_note = None\<rparr>
      else let closes = map close_of (sort_key yp_date bars) in
        bind_res (position_return fx closes trading_days_1m) (\<lambda>r1.
        bind_res (position_return fx closes trading_days_12m) (\<lambda>r12.
        bind_res (recent_stdev fx closes volatility_window) (\<lambda>v.
        validate_snapshot \<lparr>as_ticker = symbol, as_return_1m = r1, as_return_12m = r12, as_volatility_30d = v,
          as_last_close = Some (last closes), as_note = None\<rparr>))))"

definition fetch_yfinance_asset_snapshot :: "dec_ctx \<Rightarrow> ('w \<Rightarrow> date \<times> 'w) \<Rightarrow>
    (string \<Rightarrow> date \<Rightarrow> date \<Rightarrow> ('w, yfinance_price list) eff) \<Rightarrow> string \<Rightarrow> date option \<Rightarrow> int \<Rightarrow>
    ('w, asset_snapshot) eff" where
  "fetch_yfinance_asset_snapshot fx today daily_bars symbol as_of history_days =
     seq (case as_of of Some d \<Rightarrow> ret d | None \<Rightarrow> call today) (\<lambda>d.
     seq (daily_bars symbol (d - history_days) d) (\<lambda>bars. lift_res (yfinance_snapshot fx symbol bars)))"

section \<open>EDINET DB\<close>

record fin_period =
  fp_fiscal_year :: int
  fp_revenue :: "decimal option"
  fp_net_income :: "decimal option"
  fp_eps :: "decimal option"
  fp_bps :: "decimal option"
  fp_equity_ratio :: "decimal option"

record company_fundamentals =
  cf_edinet_code :: string
  cf_sec_code :: "string option"
  cf_latest_fiscal_year :: "int option"
  cf_latest_revenue :: "decimal option"
  cf_latest_net_income :: "decimal option"
  cf_latest_eps :: "decimal option"
  cf_latest_bps :: "decimal option"
  cf_latest_equity_ratio :: "decimal option"
  cf_revenue_growth_yoy :: "decimal option"
  cf_net_income_growth_yoy :: "decimal option"
  cf_latest_period :: "fin_period option"

definition validate_fundamentals :: "company_fundamentals \<Rightarrow> company_fundamentals res" where
  "validate_fundamentals x0 = (let x = x0\<lparr>cf_edinet_code := strip (cf_edinet_code x0)\<rparr> in
     bind_res (check (len_in 1 20 (cf_edinet_code x))) (\<lambda>_. Inr x))"

definition yoy_growth :: "dec_ctx \<Rightarrow> decimal option \<Rightarrow> decimal option \<Rightarrow> decimal option res" where
  "yoy_growth fx latest prior = (case (latest, prior) of
       (Some l, Some p) \<Rightarrow> if dec_eq p dzero then Inr None else some_res (growth fx l p)
     | _ \<Rightarrow> Inr None)"

definition no_fundamentals :: "string \<Rightarrow> company_fundamentals" where
  "no_fundamentals code = \<lparr>cf_edinet_code = code, cf_sec_code = None, cf_latest_fiscal_year = None,
     cf_latest_revenue = None, cf_latest_net_income = None, cf_latest_eps = None, cf_latest_bps = None,
     cf_latest_equity_ratio = None, cf_revenue_growth_yoy = None, cf_net_income_growth_yoy = None, cf_latest_period = None\<rparr>"

definition fundamentals_of :: "dec_ctx \<Rightarrow> string \<Rightarrow> fin_period list \<Rightarrow> company_fundamentals res" where
  "fundamentals_of fx code history =
     (if history = [] then validate_fundamentals (no_fundamentals code)
      else let rows = sort_key fp_fiscal_year history; latest = last rows;
          prior = (\<lambda>field. if 2 \<le> length rows then field (rows ! (length rows - 2)) else None) in
        bind_res (yoy_growth fx (fp_revenue latest) (prior fp_revenue)) (\<lambda>rg.
        bind_res (yoy_growth fx (fp_net_income latest) (prior fp_net_income)) (\<lambda>ng.
        validate_fundamentals \<lparr>cf_edinet_code = code, cf_sec_code = None,
          cf_latest_fiscal_year = Some (fp_fiscal_year latest), cf_latest_revenue = fp_revenue latest,
          cf_latest_net_income = fp_net_income latest, cf_latest_eps = fp_eps latest, cf_latest_bps = fp_bps latest,
          cf_latest_equity_ratio = fp_equity_ratio latest, cf_revenue_growth_yoy = rg, cf_net_income_growth_yoy = ng,
          cf_latest_period = Some latest\<rparr>)))"

definition fetch_edinetdb_company_fundamentals :: "dec_ctx \<Rightarrow> (string \<Rightarrow> ('w, fin_period list) eff) \<Rightarrow> string \<Rightarrow>
    ('w, company_fundamentals) eff" where
  "fetch_edinetdb_company_fundamentals fx company_financials code =
     seq (company_financials code) (\<lambda>history. lift_res (fundamentals_of fx code history))"

section \<open>EDINET\<close>

record edinet_document =
  ed_doc_id :: string
  ed_edinet_code :: string
  ed_doc_type_code :: string

text \<open>\<open>frozenset(codes) if codes else None\<close>: an empty sequence of codes is no filter.\<close>

definition code_filter :: "string list option \<Rightarrow> string list option" where
  "code_filter codes = (case codes of None \<Rightarrow> None | Some cs \<Rightarrow> if cs = [] then None else Some cs)"

definition passes_filter :: "string list option \<Rightarrow> string \<Rightarrow> bool" where
  "passes_filter f code = (case f of None \<Rightarrow> True | Some cs \<Rightarrow> code \<in> set cs)"

text \<open>The loop over the days, from \<open>cursor\<close>, with what has been collected.\<close>

function filings_loop :: "(date \<Rightarrow> bool \<Rightarrow> ('w, edinet_document list) eff) \<Rightarrow> string list option \<Rightarrow> string list option \<Rightarrow>
    date \<Rightarrow> date \<Rightarrow> edinet_document list \<Rightarrow> ('w, edinet_document list) eff" where
  "filings_loop documents_list codes types cursor to_date out =
     (if cursor \<le> to_date then seq (documents_list cursor True) (\<lambda>results.
        filings_loop documents_list codes types (cursor + 1) to_date
          (out @ filter (\<lambda>d. passes_filter codes (ed_edinet_code d) \<and> passes_filter types (ed_doc_type_code d)) results))
      else ret out)"
  by pat_completeness auto
termination
  by (relation "measure (\<lambda>(dl, codes, types, cursor, to_date, out). nat (to_date + 1 - cursor))") auto

declare filings_loop.simps [simp del]

definition fetch_recent_filings :: "(date \<Rightarrow> bool \<Rightarrow> ('w, edinet_document list) eff) \<Rightarrow> date \<Rightarrow> date \<Rightarrow>
    string list option \<Rightarrow> string list option \<Rightarrow> ('w, edinet_document list) eff" where
  "fetch_recent_filings documents_list from_date to_date edinet_codes doc_type_codes =
     (if to_date < from_date then raise ValueError
      else filings_loop documents_list (code_filter edinet_codes) (code_filter doc_type_codes) from_date to_date [])"

end
