(* ===== verification/Snapshot_Laws.thy ===== *)
theory Snapshot_Laws
  imports Observer_Signals
begin

text \<open>
  Both price sources reduce to the same snapshot, a fetch of filings covers every day, and where the
  helpers do something else than their comments say.
\<close>

section \<open>Two sources, one snapshot\<close>

lemma map_insort_key: "map f (insort_key (\<lambda>x. g (f x)) x xs) = insort_key g (f x) (map f xs)"
  by (induction xs) auto

lemma map_sort_key: "map f (sort_key (\<lambda>x. g (f x)) xs) = sort_key g (map f xs)"
  by (induction xs) (simp_all add: map_insort_key)

text \<open>The dates and the closes of a series, as either source serves it.\<close>

definition dated_close :: "daily_bar \<Rightarrow> date \<times> decimal option" where
  "dated_close b = (db_date b, chosen_close b)"

definition dated_price :: "yfinance_price \<Rightarrow> date \<times> decimal option" where
  "dated_price p = (yp_date p, Some (close_of p))"

lemma map_filter_dated: "List.map_filter chosen_close bars = List.map_filter snd (map dated_close bars)"
  by (induction bars) (simp_all add: List.map_filter_def dated_close_def)

lemma map_filter_prices: "List.map_filter snd (map dated_price ps) = map close_of ps"
  by (induction ps) (simp_all add: List.map_filter_def dated_price_def)

lemma same_closes:
  assumes "map dated_close bars = map dated_price prices"
  shows "List.map_filter chosen_close (sort_key db_date bars) = map close_of (sort_key yp_date prices)"
proof -
  have "map dated_close (sort_key db_date bars) = sort_key fst (map dated_close bars)"
    using map_sort_key [of dated_close fst bars] by (simp add: dated_close_def)
  also have "\<dots> = map dated_price (sort_key yp_date prices)"
    using map_sort_key [of dated_price fst prices] assms by (simp add: dated_price_def)
  finally show ?thesis by (simp add: map_filter_dated map_filter_prices)
qed

lemma same_returns:
  "list_all (dec_lt dzero) closes \<Longrightarrow> close_returns fx closes = bind_res (recent_returns fx closes) (\<lambda>rs. Inr (Some rs))"
proof (induction fx closes rule: close_returns.induct)
  case (1 fx prev cur closes)
  then have "\<not> dec_eq prev dzero" "dec_lt dzero prev" by (auto simp: dec_cmp)
  with 1 show ?case by (auto simp: bind_res_def split: sum.split)
qed simp_all

lemma recent_returns_length: "recent_returns fx closes = Inr rs \<Longrightarrow> length rs = length closes - 1"
  by (induction fx closes arbitrary: rs rule: recent_returns.induct) (auto simp: bind_res_Inr_iff)

lemma same_volatility:
  assumes "list_all (dec_lt dzero) closes"
  shows "realized_volatility fx closes volatility_window = recent_stdev fx closes volatility_window"
proof (cases "length closes \<le> volatility_window")
  case False
  let ?cs = "drop (length closes - (volatility_window + 1)) closes"
  have pos: "list_all (dec_lt dzero) ?cs" using assms by (auto simp: list_all_iff dest: in_set_dropD)
  have "length ?cs = 31" using False by (simp add: volatility_window_def)
  then have "\<not> length rs < 2" if "recent_returns fx ?cs = Inr rs" for rs
    using recent_returns_length [OF that] by simp
  then show ?thesis using False
    unfolding realized_volatility_def recent_stdev_def same_returns [OF pos] by (cases "recent_returns fx ?cs") auto
qed (simp add: realized_volatility_def recent_stdev_def)

lemma same_position_return:
  assumes "list_all (dec_lt dzero) closes"
  shows "simple_return fx closes n = position_return fx closes n"
proof (cases "length closes \<le> n")
  case False
  then have "dec_lt dzero (closes ! (length closes - 1 - n))" using assms by (auto simp: list_all_length)
  then show ?thesis using False by (simp add: simple_return_def position_return_def Let_def dec_cmp diff_commute)
qed (simp add: simple_return_def position_return_def)

text \<open>C39. The Observer cannot tell the two price sources apart. If J-Quants and Yahoo Finance serve the
  same closes for the same dates, at least one and all positive, in whatever order, both helpers
  return the same snapshot of a ticker, or raise the same exception.\<close>

theorem snapshots_agree:
  assumes "map dated_close bars = map dated_price prices" and "prices \<noteq> []"
    and "list_all (\<lambda>p. dec_lt dzero (close_of p)) prices"
  shows "jquants_snapshot fx ticker bars = yfinance_snapshot fx ticker prices"
proof -
  let ?closes = "map close_of (sort_key yp_date prices)"
  have "bars \<noteq> []" using assms(1,2) by auto
  moreover have "?closes \<noteq> []" using assms(2) by (metis Nil_is_map_conv set_empty set_sort)
  then have "ordered_closes bars = Inr ?closes" by (simp add: ordered_closes_def same_closes [OF assms(1)])
  moreover have pos: "list_all (dec_lt dzero) ?closes" using assms(3) by (simp add: list_all_iff)
  ultimately show ?thesis using assms(2)
    by (simp add: jquants_snapshot_def yfinance_snapshot_def Let_def same_volatility [OF pos] same_position_return [OF pos])
qed

section \<open>Filings of a range of days\<close>

text \<open>A fetch of filings covers its range. If the listing of each day is what \<open>docs\<close> says, the fetch
  returns the documents of every day from the first to the last, in order, that pass both filters,
  and an inverted range raises; a filter that is absent or empty passes everything.\<close>

theorem recent_filings_exact:
  assumes "\<And>d w. fst (documents_list d True w) = Inr (docs d)"
  shows "fst (fetch_recent_filings documents_list from_date to_date codes types w) =
    (if to_date < from_date then Inl ValueError
     else Inr (filter (\<lambda>d. (codes \<noteq> None \<and> codes \<noteq> Some [] \<longrightarrow> ed_edinet_code d \<in> set (the codes)) \<and>
         (types \<noteq> None \<and> types \<noteq> Some [] \<longrightarrow> ed_doc_type_code d \<in> set (the types)))
       (concat (map docs [from_date..to_date]))))"
proof -
  let ?P = "\<lambda>d. passes_filter (code_filter codes) (ed_edinet_code d) \<and> passes_filter (code_filter types) (ed_doc_type_code d)"
  have loop: "fst (filings_loop documents_list (code_filter codes) (code_filter types) c to_date out w) =
      Inr (out @ filter ?P (concat (map docs [c..to_date])))" for c out w
  proof (induction "nat (to_date + 1 - c)" arbitrary: c out w)
    case 0
    then show ?case by (simp add: filings_loop.simps [of _ _ _ c])
  next
    case (Suc n)
    obtain s where day: "documents_list c True w = (Inr (docs c), s)" using assms [of c w] by (metis prod.collapse)
    have "c \<le> to_date" "n = nat (to_date + 1 - (c + 1))" using Suc(2) by auto
    then show ?case using Suc(1) [of "c + 1"] by (simp add: filings_loop.simps [of _ _ _ c] seq_apply day upto_rec1)
  qed
  have "filter ?P ds = filter (\<lambda>d. (codes \<noteq> None \<and> codes \<noteq> Some [] \<longrightarrow> ed_edinet_code d \<in> set (the codes)) \<and>
      (types \<noteq> None \<and> types \<noteq> Some [] \<longrightarrow> ed_doc_type_code d \<in> set (the types))) ds" for ds
    by (rule filter_cong) (auto simp: passes_filter_def code_filter_def split: option.split)
  note same = this [symmetric]
  show ?thesis unfolding same by (simp add: fetch_recent_filings_def loop)
qed

section \<open>Where the comments differ\<close>

text \<open>An issuer without bars has no snapshot: the last close 0 of the empty case is not a valid one.\<close>

lemma yfinance_empty_raises: "yfinance_snapshot fx symbol [] = Inl ValidationError"
  by (simp add: yfinance_snapshot_def validate_snapshot_def check_def dec_cmp Let_def)

text \<open>The growth is from the row before the latest, here of the fiscal year three years earlier.\<close>

lemma growth_skips_years:
  "\<exists>f. fundamentals_of py_ctx ''E1'' [\<lparr>fp_fiscal_year = 2020, fp_revenue = Some (Dec 100 0), fp_net_income = None,
       fp_eps = None, fp_bps = None, fp_equity_ratio = None\<rparr>,
     \<lparr>fp_fiscal_year = 2023, fp_revenue = Some (Dec 150 0), fp_net_income = None, fp_eps = None, fp_bps = None,
       fp_equity_ratio = None\<rparr>] = Inr f \<and> cf_revenue_growth_yoy f = Some (Dec 5 (- 1))"
proof -
  have g: "growth py_ctx (Dec 150 0) (Dec 100 0) = Inr (Dec 5 (- 1))" by code_simp
  have z: "\<not> dec_eq (Dec 100 0) dzero" by (simp add: dec_cmp dval_Dec)
  show ?thesis
    by (simp add: fundamentals_of_def yoy_growth_def some_res_def g z validate_fundamentals_def check_def len_in_def Let_def
      numeral_2_eq_2) (code_simp)
qed

end
