(* ===== verification/Polymarket_Clob.thy ===== *)
theory Polymarket_Clob
  imports Rate_Limit Observer Float_Arith
begin

text \<open>
  The client of the Polymarket order books (\<open>data/polymarket/clob\_client.py\<close>) and the models it fills
  (\<open>data/polymarket/schemas.py\<close>). \<open>other\<close> is the \<open>str\<close> of a float, a list or an object. Instants are in
  microseconds.
\<close>

definition polymarket_error :: "nat option \<Rightarrow> py_exn" where
  "polymarket_error st = DataError ''PolymarketError'' st"

section \<open>The models\<close>

record orderbook_level =
  lv_price :: decimal
  lv_size :: decimal

record orderbook =
  ob_market :: string
  ob_asset_id :: string
  ob_timestamp :: int
  ob_bids :: "orderbook_level list"
  ob_asks :: "orderbook_level list"
  ob_min_order_size :: decimal
  ob_tick_size :: decimal
  ob_neg_risk :: bool
  ob_last_trade_price :: "decimal option"

text \<open>A field of type \<open>Decimal\<close> takes only finite numbers.\<close>

definition finite_field :: "py_number \<Rightarrow> decimal res" where
  "finite_field n = (case n of Finite d \<Rightarrow> Inr d | _ \<Rightarrow> Inl ValidationError)"

definition checked_field :: "(decimal \<Rightarrow> bool) \<Rightarrow> py_number \<Rightarrow> decimal res" where
  "checked_field P n = bind_res (finite_field n) (\<lambda>d. bind_res (check (P d)) (\<lambda>_. Inr d))"

definition make_level :: "py_number \<Rightarrow> py_number \<Rightarrow> orderbook_level res" where
  "make_level price size' = bind_res (checked_field probability_ok price) (\<lambda>p.
     bind_res (checked_field dec_ge0 size') (\<lambda>s. Inr \<lparr>lv_price = p, lv_size = s\<rparr>))"

definition best_bid :: "orderbook \<Rightarrow> decimal option" where
  "best_bid b = (case ob_bids b of [] \<Rightarrow> None | l # ls \<Rightarrow> Some (lv_price l))"

definition best_ask :: "orderbook \<Rightarrow> decimal option" where
  "best_ask b = (case ob_asks b of [] \<Rightarrow> None | l # ls \<Rightarrow> Some (lv_price l))"

definition book_midpoint :: "dec_ctx \<Rightarrow> orderbook \<Rightarrow> decimal option res" where
  "book_midpoint fx b = (case (best_bid b, best_ask b) of
       (Some bid, Some ask) \<Rightarrow> bind_res (dec_div fx (dec_add fx bid ask) (Dec 2 0)) (\<lambda>m. Inr (Some m))
     | _ \<Rightarrow> Inr None)"

definition book_spread :: "dec_ctx \<Rightarrow> orderbook \<Rightarrow> decimal option" where
  "book_spread fx b = (case (best_bid b, best_ask b) of
       (Some bid, Some ask) \<Rightarrow> Some (dec_sub fx ask bid) | _ \<Rightarrow> None)"

record price_point =
  pp_timestamp :: int
  pp_price :: decimal

record price_history =
  ph_asset_id :: string
  ph_interval :: string
  ph_points :: "price_point list"

definition latest_point :: "price_history \<Rightarrow> price_point option" where
  "latest_point h = (if ph_points h = [] then None else Some (last (ph_points h)))"

definition earliest_point :: "price_history \<Rightarrow> price_point option" where
  "earliest_point h = (if ph_points h = [] then None else Some (hd (ph_points h)))"

section \<open>The parsers\<close>

definition to_decimal :: "json \<Rightarrow> py_number res" where
  "to_decimal v = (case v of
       JInt i \<Rightarrow> Inr (Finite (Dec i 0))
     | JFloat x \<Rightarrow> Inr (Finite (decimal_of_float x))
     | JStr s \<Rightarrow> (case decimal_of s of Inl e \<Rightarrow> Inl (polymarket_error None) | Inr n \<Rightarrow> Inr n)
     | _ \<Rightarrow> Inl (polymarket_error None))"

definition coerce_decimal :: "(string \<times> json) list \<Rightarrow> string \<Rightarrow> py_number res" where
  "coerce_decimal b key = (case map_of b key of None \<Rightarrow> Inl (polymarket_error None) | Some v \<Rightarrow> to_decimal v)"

text \<open>\<open>int(s)\<close>: white space around, a sign, digits with single underscores between them.\<close>

fun underscores_ok :: "string \<Rightarrow> bool" where
  "underscores_ok [] = False"
| "underscores_ok [c] = is_digit c"
| "underscores_ok (c # d # s) = (is_digit c \<and> (if d = CHR ''_'' then underscores_ok s else underscores_ok (d # s)))"

definition int_of_text :: "string \<Rightarrow> int option" where
  "int_of_text s0 = (let s = py_strip s0; neg = (s \<noteq> [] \<and> hd s = CHR ''-'');
       u = (if s \<noteq> [] \<and> (hd s = CHR ''-'' \<or> hd s = CHR ''+'') then tl s else s);
       ds = filter (\<lambda>c. c \<noteq> CHR ''_'') u in
     if underscores_ok u \<and> length ds \<le> 4300
     then Some (if neg then - int (digits_value ds) else int (digits_value ds)) else None)"

definition millisecond_threshold :: int where
  "millisecond_threshold = 10 ^ 11"

text \<open>\<open>datetime.fromtimestamp(s, tz=UTC)\<close>, for the years 1 to 9999, rounded to microseconds.\<close>

definition utc_datetime :: "rat \<Rightarrow> int res" where
  "utc_datetime seconds = (if seconds < - (2 ^ 63) \<or> 2 ^ 63 \<le> seconds then Inl (OtherError ''OverflowError'')
     else if seconds < - 62135596800 \<or> 253402300800 \<le> seconds then Inl ValueError
     else Inr (round_rat (seconds * 1000000)))"

definition to_unix_seconds_datetime :: "json \<Rightarrow> int res" where
  "to_unix_seconds_datetime v =
     bind_res (case v of
         JStr s \<Rightarrow> (case int_of_text s of None \<Rightarrow> Inl (polymarket_error None) | Some i \<Rightarrow> Inr i)
       | JInt i \<Rightarrow> Inr i
       | _ \<Rightarrow> Inl (polymarket_error None))
     (\<lambda>raw. utc_datetime (if millisecond_threshold \<le> raw then fl64 (of_int raw / 1000) else of_int raw))"

definition parse_level :: "json \<Rightarrow> orderbook_level res" where
  "parse_level entry = (case entry of
       JObj d \<Rightarrow> bind_res (to_decimal (get_or_null d ''price'')) (\<lambda>p.
         bind_res (to_decimal (get_or_null d ''size'')) (\<lambda>s. make_level p s))
     | _ \<Rightarrow> Inl (polymarket_error None))"

definition parse_orderbook_levels :: "json \<Rightarrow> orderbook_level list res" where
  "parse_orderbook_levels raw = (case raw of JList entries \<Rightarrow> each_row parse_level entries
     | _ \<Rightarrow> Inl (polymarket_error None))"

definition levels_of :: "(string \<times> json) list \<Rightarrow> string \<Rightarrow> orderbook_level list res" where
  "levels_of b side = parse_orderbook_levels (case map_of b side of None \<Rightarrow> JList [] | Some v \<Rightarrow> v)"

text \<open>\<open>if last\_trade\_raw\<close>: a missing, empty or zero value is none.\<close>

definition last_trade :: "(string \<times> json) list \<Rightarrow> py_number option res" where
  "last_trade b = (let v = get_or_null b ''last_trade_price'' in
     if json_truthy v then bind_res (to_decimal v) (\<lambda>n. Inr (Some n)) else Inr None)"

definition optional_field :: "(decimal \<Rightarrow> bool) \<Rightarrow> py_number option \<Rightarrow> decimal option res" where
  "optional_field P n = (case n of None \<Rightarrow> Inr None | Some x \<Rightarrow> bind_res (checked_field P x) (\<lambda>d. Inr (Some d)))"

definition parse_orderbook :: "(json \<Rightarrow> string) \<Rightarrow> (string \<times> json) list \<Rightarrow> orderbook res" where
  "parse_orderbook other b =
     bind_res (last_trade b) (\<lambda>lt.
     bind_res (to_unix_seconds_datetime (get_or_null b ''timestamp'')) (\<lambda>ts.
     bind_res (levels_of b ''bids'') (\<lambda>bids.
     bind_res (levels_of b ''asks'') (\<lambda>asks.
     bind_res (to_decimal (get_or_null b ''min_order_size'')) (\<lambda>mn.
     bind_res (to_decimal (get_or_null b ''tick_size'')) (\<lambda>tick.
     let market = strip (get_str other b ''market''); asset = strip (get_str other b ''asset_id'') in
     bind_res (check (market \<noteq> [] \<and> asset \<noteq> [])) (\<lambda>_.
     bind_res (checked_field dec_ge0 mn) (\<lambda>mn.
     bind_res (checked_field (dec_lt dzero) tick) (\<lambda>tick.
     bind_res (optional_field probability_ok lt) (\<lambda>lt.
     Inr \<lparr>ob_market = market, ob_asset_id = asset, ob_timestamp = ts, ob_bids = bids, ob_asks = asks,
       ob_min_order_size = mn, ob_tick_size = tick, ob_neg_risk = json_truthy (get_or_null b ''neg_risk''),
       ob_last_trade_price = lt\<rparr>))))))))))"

definition parse_point :: "json \<Rightarrow> price_point res" where
  "parse_point entry = (case entry of
       JObj d \<Rightarrow> bind_res (to_unix_seconds_datetime (get_or_null d ''t'')) (\<lambda>t.
         bind_res (to_decimal (get_or_null d ''p'')) (\<lambda>p.
         bind_res (checked_field probability_ok p) (\<lambda>p. Inr \<lparr>pp_timestamp = t, pp_price = p\<rparr>)))
     | _ \<Rightarrow> Inl (polymarket_error None))"

definition parse_price_history :: "(string \<times> json) list \<Rightarrow> string \<Rightarrow> string \<Rightarrow> price_history res" where
  "parse_price_history b asset_id interval =
     (case (case map_of b ''history'' of None \<Rightarrow> JList [] | Some v \<Rightarrow> v) of
       JList entries \<Rightarrow> bind_res (each_row parse_point entries) (\<lambda>points.
         bind_res (check (strip asset_id \<noteq> [] \<and> strip interval \<noteq> [])) (\<lambda>_.
         Inr \<lparr>ph_asset_id = strip asset_id, ph_interval = strip interval, ph_points = points\<rparr>))
     | _ \<Rightarrow> Inl (polymarket_error None))"

section \<open>The client\<close>

definition stripped_base :: "string \<Rightarrow> string" where
  "stripped_base url = rev (dropWhile (\<lambda>c. c = CHR ''/'') (rev url))"

text \<open>\<open>\_execute\<close> of both Polymarket clients, up to the decoded body.\<close>

definition polymarket_execute :: "'w timer \<Rightarrow> 'w getter \<Rightarrow> string \<Rightarrow> (string \<times> string) list \<Rightarrow> ('w, json) paced" where
  "polymarket_execute tm get url params = seq (paced_get tm get url params) (\<lambda>r. case r of
     Transport_Error e \<Rightarrow> raise (polymarket_error None)
   | Response st b \<Rightarrow> if st \<noteq> 200 then raise (polymarket_error (Some st))
     else (case b of None \<Rightarrow> raise (polymarket_error None) | Some payload \<Rightarrow> ret payload))"

definition clob_execute :: "'w timer \<Rightarrow> 'w getter \<Rightarrow> string \<Rightarrow> string \<Rightarrow> (string \<times> string) list \<Rightarrow>
    ('w, (string \<times> json) list) paced" where
  "clob_execute tm get base path params = seq (polymarket_execute tm get (stripped_base base @ path) params) (\<lambda>p.
     case p of JObj payload \<Rightarrow> ret payload | _ \<Rightarrow> raise (polymarket_error None))"

definition get_midpoint :: "'w timer \<Rightarrow> 'w getter \<Rightarrow> string \<Rightarrow> string \<Rightarrow> ('w, py_number) paced" where
  "get_midpoint tm get base token_id =
     seq (clob_execute tm get base ''/midpoint'' [(''token_id'', token_id)]) (\<lambda>b.
       case find (\<lambda>k. map_of b k \<noteq> None) [''mid'', ''mid_price''] of
         None \<Rightarrow> raise (polymarket_error None)
       | Some key \<Rightarrow> lift_res (coerce_decimal b key))"

definition get_price :: "'w timer \<Rightarrow> 'w getter \<Rightarrow> string \<Rightarrow> string \<Rightarrow> side \<Rightarrow> ('w, py_number) paced" where
  "get_price tm get base token_id sd =
     seq (clob_execute tm get base ''/price'' [(''token_id'', token_id), (''side'', if sd = BUY then ''BUY'' else ''SELL'')])
       (\<lambda>b. lift_res (coerce_decimal b ''price''))"

definition get_orderbook :: "(json \<Rightarrow> string) \<Rightarrow> 'w timer \<Rightarrow> 'w getter \<Rightarrow> string \<Rightarrow> string \<Rightarrow> ('w, orderbook) paced" where
  "get_orderbook other tm get base token_id =
     seq (clob_execute tm get base ''/book'' [(''token_id'', token_id)]) (\<lambda>b. lift_res (parse_orderbook other b))"

datatype history_interval = ONE_MINUTE | ONE_HOUR | SIX_HOURS | ONE_DAY | ONE_WEEK | MAX_INTERVAL | ALL_HISTORY

fun interval_value :: "history_interval \<Rightarrow> string" where
  "interval_value ONE_MINUTE = ''1m''"
| "interval_value ONE_HOUR = ''1h''"
| "interval_value SIX_HOURS = ''6h''"
| "interval_value ONE_DAY = ''1d''"
| "interval_value ONE_WEEK = ''1w''"
| "interval_value MAX_INTERVAL = ''max''"
| "interval_value ALL_HISTORY = ''all''"

definition optional_int :: "string \<Rightarrow> int option \<Rightarrow> (string \<times> string) list" where
  "optional_int key v = (case v of None \<Rightarrow> [] | Some i \<Rightarrow> [(key, int_str i)])"

definition get_price_history :: "'w timer \<Rightarrow> 'w getter \<Rightarrow> string \<Rightarrow> string \<Rightarrow> history_interval \<Rightarrow> int option \<Rightarrow>
    int option \<Rightarrow> int option \<Rightarrow> ('w, price_history) paced" where
  "get_price_history tm get base token_id interval fidelity start_ts end_ts =
     seq (clob_execute tm get base ''/prices-history''
       ([(''market'', token_id), (''interval'', interval_value interval)] @ optional_int ''fidelity'' fidelity @
        optional_int ''startTs'' start_ts @ optional_int ''endTs'' end_ts))
     (\<lambda>b. lift_res (parse_price_history b token_id (interval_value interval)))"

end
