(* ===== verification/Polymarket_Gamma.thy ===== *)
theory Polymarket_Gamma
  imports Polymarket_Clob
begin

text \<open>
  The client of the Polymarket market metadata (\<open>data/polymarket/gamma\_client.py\<close>), its model of a
  market (\<open>schemas.py\<close>), and the signal composed of both clients (\<open>observer\_signals.py\<close>). The texts of
  floats and datetimes, \<open>datetime.fromisoformat\<close> and \<open>json.loads\<close> are fields of a record.
\<close>

record gamma_lib =
  gl_other :: "json \<Rightarrow> string"
  gl_float_str :: "rat \<Rightarrow> string"
  gl_isoformat :: "pydt \<Rightarrow> string"
  gl_fromisoformat :: "string \<Rightarrow> pydt option"
  gl_json_loads :: "string \<Rightarrow> json option"

section \<open>A market\<close>

record gamma_market =
  gm_id :: string
  gm_question :: "string option"
  gm_slug :: "string option"
  gm_end_date :: "pydt option"
  gm_active :: bool
  gm_closed :: bool
  gm_volume :: "decimal option"
  gm_liquidity :: "decimal option"
  gm_last_trade_price :: "decimal option"
  gm_clob_token_ids :: "string list"
  gm_outcomes :: "string list"
  gm_outcome_prices :: "decimal list"

definition is_binary_market :: "gamma_market \<Rightarrow> bool" where
  "is_binary_market m = (length (gm_outcomes m) = 2)"

text \<open>\<open>str.casefold\<close> of the characters below 256.\<close>

definition casefold :: "string \<Rightarrow> string" where
  "casefold s = concat (map (\<lambda>c. if (of_char c :: nat) = 223 then ''ss'' else [lower_char c]) s)"

definition lookup_parallel :: "gamma_market \<Rightarrow> 'a list \<Rightarrow> string \<Rightarrow> 'a option" where
  "lookup_parallel m values outcome =
     map_option snd (find (\<lambda>(label, v). casefold label = casefold outcome) (zip (gm_outcomes m) values))"

definition token_id_for :: "gamma_market \<Rightarrow> string \<Rightarrow> string option" where
  "token_id_for m outcome = (if \<not> is_binary_market m then None else lookup_parallel m (gm_clob_token_ids m) outcome)"

definition price_for :: "gamma_market \<Rightarrow> string \<Rightarrow> decimal option" where
  "price_for m outcome = (if \<not> is_binary_market m then None else lookup_parallel m (gm_outcome_prices m) outcome)"

definition yes_token_id :: "gamma_market \<Rightarrow> string option" where
  "yes_token_id m = token_id_for m ''Yes''"

definition no_token_id :: "gamma_market \<Rightarrow> string option" where
  "no_token_id m = token_id_for m ''No''"

definition yes_implied_prob :: "gamma_market \<Rightarrow> decimal option" where
  "yes_implied_prob m = price_for m ''Yes''"

definition no_implied_prob :: "gamma_market \<Rightarrow> decimal option" where
  "no_implied_prob m = price_for m ''No''"

section \<open>The parsers\<close>

definition optional_str :: "gamma_lib \<Rightarrow> json \<Rightarrow> string option" where
  "optional_str lib v = (case v of JNull \<Rightarrow> None | _ \<Rightarrow> Some (json_str (gl_other lib) v))"

definition absent :: "json \<Rightarrow> bool" where
  "absent v \<longleftrightarrow> v = JNull \<or> v = JStr []"

definition optional_decimal :: "json \<Rightarrow> py_number option res" where
  "optional_decimal v = (if absent v then Inr None else bind_res (to_decimal v) (\<lambda>n. Inr (Some n)))"

definition replace_z :: "string \<Rightarrow> string" where
  "replace_z s = concat (map (\<lambda>c. if c = CHR ''Z'' then ''+00:00'' else [c]) s)"

definition optional_iso_datetime :: "gamma_lib \<Rightarrow> json \<Rightarrow> pydt option res" where
  "optional_iso_datetime lib v = (if absent v then Inr None else (case v of
       JStr s \<Rightarrow> (case gl_fromisoformat lib (if s \<noteq> [] \<and> last s = CHR ''Z'' then replace_z s else s) of
           None \<Rightarrow> Inl (polymarket_error None) | Some t \<Rightarrow> Inr (Some t))
     | _ \<Rightarrow> Inl (polymarket_error None)))"

definition decode_string_list :: "gamma_lib \<Rightarrow> json \<Rightarrow> string list res" where
  "decode_string_list lib v = (if absent v then Inr [] else (case v of
       JList vs \<Rightarrow> Inr (map (json_str (gl_other lib)) vs)
     | JStr s \<Rightarrow> (case gl_json_loads lib s of
         Some (JList vs) \<Rightarrow> Inr (map (json_str (gl_other lib)) vs) | _ \<Rightarrow> Inl (polymarket_error None))
     | _ \<Rightarrow> Inl (polymarket_error None)))"

definition decode_decimal_list :: "gamma_lib \<Rightarrow> json \<Rightarrow> py_number list res" where
  "decode_decimal_list lib v = bind_res (decode_string_list lib v) (each_row (\<lambda>s. to_decimal (JStr s)))"

definition parse_market :: "gamma_lib \<Rightarrow> json \<Rightarrow> gamma_market res" where
  "parse_market lib item = (case item of
       JObj d \<Rightarrow>
         bind_res (optional_iso_datetime lib (get_or_null d ''endDate'')) (\<lambda>end_date.
         bind_res (optional_decimal (get_or_null d ''volume'')) (\<lambda>volume.
         bind_res (optional_decimal (get_or_null d ''liquidity'')) (\<lambda>liquidity.
         bind_res (optional_decimal (get_or_null d ''lastTradePrice'')) (\<lambda>last_price.
         bind_res (decode_string_list lib (get_or_null d ''clobTokenIds'')) (\<lambda>tokens.
         bind_res (decode_string_list lib (get_or_null d ''outcomes'')) (\<lambda>outcomes.
         bind_res (decode_decimal_list lib (get_or_null d ''outcomePrices'')) (\<lambda>prices.
         let mid = strip (get_str (gl_other lib) d ''id'') in
         bind_res (check (mid \<noteq> [])) (\<lambda>_.
         bind_res (optional_field (\<lambda>_. True) volume) (\<lambda>volume.
         bind_res (optional_field (\<lambda>_. True) liquidity) (\<lambda>liquidity.
         bind_res (optional_field probability_ok last_price) (\<lambda>last_price.
         bind_res (each_row (checked_field probability_ok) prices) (\<lambda>prices.
         Inr \<lparr>gm_id = mid, gm_question = map_option strip (optional_str lib (get_or_null d ''question'')),
           gm_slug = map_option strip (optional_str lib (get_or_null d ''slug'')), gm_end_date = end_date,
           gm_active = json_truthy (get_or_null d ''active''), gm_closed = json_truthy (get_or_null d ''closed''),
           gm_volume = volume, gm_liquidity = liquidity, gm_last_trade_price = last_price,
           gm_clob_token_ids = map strip tokens, gm_outcomes = map strip outcomes, gm_outcome_prices = prices\<rparr>))))))))))))
     | _ \<Rightarrow> Inl (OtherError ''AttributeError''))"

definition parse_market_list :: "gamma_lib \<Rightarrow> json \<Rightarrow> gamma_market list res" where
  "parse_market_list lib b = (case b of
       JList items \<Rightarrow> each_row (parse_market lib) items
     | JObj d \<Rightarrow> (case map_of d ''data'' of Some (JList items) \<Rightarrow> each_row (parse_market lib) items
         | _ \<Rightarrow> Inl (polymarket_error None))
     | _ \<Rightarrow> Inl (polymarket_error None))"

section \<open>The client\<close>

definition add_optional :: "('a \<Rightarrow> string) \<Rightarrow> string \<Rightarrow> 'a option \<Rightarrow> (string \<times> string) list \<Rightarrow> (string \<times> string) list" where
  "add_optional txt key v params = (case v of None \<Rightarrow> params | Some x \<Rightarrow> params @ [(key, txt x)])"

definition bool_text :: "bool \<Rightarrow> string" where
  "bool_text b = (if b then ''true'' else ''false'')"

definition add_repeated :: "string \<Rightarrow> string list option \<Rightarrow> (string \<times> string) list \<Rightarrow> (string \<times> string) list" where
  "add_repeated key vs params = (case vs of None \<Rightarrow> params | Some xs \<Rightarrow> params @ map (\<lambda>x. (key, x)) xs)"

record market_filter =
  mf_limit :: "int option"
  mf_offset :: "int option"
  mf_order :: "string option"
  mf_ascending :: "bool option"
  mf_slugs :: "string list option"
  mf_condition_ids :: "string list option"
  mf_clob_token_ids :: "string list option"
  mf_active :: "bool option"
  mf_closed :: "bool option"
  mf_liquidity_num_min :: "rat option"
  mf_liquidity_num_max :: "rat option"
  mf_volume_num_min :: "rat option"
  mf_volume_num_max :: "rat option"
  mf_end_date_min :: "pydt option"
  mf_end_date_max :: "pydt option"
  mf_tag_id :: "int option"

definition filter_params :: "gamma_lib \<Rightarrow> market_filter \<Rightarrow> (string \<times> string) list" where
  "filter_params lib f =
     (add_optional int_str ''tag_id'' (mf_tag_id f) \<circ>
      add_optional (gl_isoformat lib) ''end_date_max'' (mf_end_date_max f) \<circ>
      add_optional (gl_isoformat lib) ''end_date_min'' (mf_end_date_min f) \<circ>
      add_optional (gl_float_str lib) ''volume_num_max'' (mf_volume_num_max f) \<circ>
      add_optional (gl_float_str lib) ''volume_num_min'' (mf_volume_num_min f) \<circ>
      add_optional (gl_float_str lib) ''liquidity_num_max'' (mf_liquidity_num_max f) \<circ>
      add_optional (gl_float_str lib) ''liquidity_num_min'' (mf_liquidity_num_min f) \<circ>
      add_optional bool_text ''closed'' (mf_closed f) \<circ>
      add_optional bool_text ''active'' (mf_active f) \<circ>
      add_repeated ''clob_token_ids'' (mf_clob_token_ids f) \<circ>
      add_repeated ''condition_ids'' (mf_condition_ids f) \<circ>
      add_repeated ''slug'' (mf_slugs f) \<circ>
      add_optional bool_text ''ascending'' (mf_ascending f) \<circ>
      add_optional id ''order'' (mf_order f) \<circ>
      add_optional int_str ''offset'' (mf_offset f) \<circ>
      add_optional int_str ''limit'' (mf_limit f)) []"

definition list_markets :: "gamma_lib \<Rightarrow> 'w timer \<Rightarrow> 'w getter \<Rightarrow> string \<Rightarrow> market_filter \<Rightarrow> ('w, gamma_market list) paced" where
  "list_markets lib tm get base f =
     seq (polymarket_execute tm get (stripped_base base @ ''/markets'') (filter_params lib f))
       (\<lambda>b. lift_res (parse_market_list lib b))"

definition get_market_by_id :: "gamma_lib \<Rightarrow> 'w timer \<Rightarrow> 'w getter \<Rightarrow> string \<Rightarrow> string \<Rightarrow> ('w, gamma_market) paced" where
  "get_market_by_id lib tm get base market_id =
     seq (polymarket_execute tm get (stripped_base base @ ''/markets/'' @ market_id) []) (\<lambda>b. case b of
         JObj d \<Rightarrow> lift_res (parse_market lib b)
       | _ \<Rightarrow> raise (polymarket_error None))"

definition get_market_by_slug :: "gamma_lib \<Rightarrow> 'w timer \<Rightarrow> 'w getter \<Rightarrow> string \<Rightarrow> string \<Rightarrow> ('w, gamma_market) paced" where
  "get_market_by_slug lib tm get base slug =
     seq (polymarket_execute tm get (stripped_base base @ ''/markets'') [(''slug'', slug)]) (\<lambda>b.
     seq (lift_res (parse_market_list lib b)) (\<lambda>markets. case markets of
         [] \<Rightarrow> raise (polymarket_error (Some 404))
       | m # ms \<Rightarrow> ret m))"

text \<open>\<open>str.isdigit\<close> of the characters below 256: the decimal digits and the superscripts.\<close>

definition is_digit_text :: "string \<Rightarrow> bool" where
  "is_digit_text s = (s \<noteq> [] \<and> list_all (\<lambda>c. is_digit c \<or> (of_char c :: nat) \<in> {178, 179, 185}) s)"

definition get_market :: "gamma_lib \<Rightarrow> 'w timer \<Rightarrow> 'w getter \<Rightarrow> string \<Rightarrow> string \<Rightarrow> ('w, gamma_market) paced" where
  "get_market lib tm get base identifier' = (if is_digit_text identifier' then get_market_by_id lib tm get base identifier'
     else get_market_by_slug lib tm get base identifier')"

section \<open>The signal\<close>

text \<open>The two clients as the helper sees them, effects on one state, and the clock.\<close>

record 's signal_sources =
  sg_get_market :: "string \<Rightarrow> ('s, gamma_market) eff"
  sg_get_midpoint :: "string \<Rightarrow> ('s, py_number) eff"
  sg_get_orderbook :: "string \<Rightarrow> ('s, orderbook) eff"
  sg_now :: "'s \<Rightarrow> pydt \<times> 's"

text \<open>\<open>try: ... except PolymarketError: return d\<close>.\<close>

definition unless_polymarket_error :: "'a \<Rightarrow> ('s, 'a) eff \<Rightarrow> ('s, 'a) eff" where
  "unless_polymarket_error d m = seq (try_except m) (\<lambda>r. case r of
       Inr x \<Rightarrow> ret x
     | Inl (DataError cls st) \<Rightarrow> if cls = ''PolymarketError'' then ret d else raise (DataError cls st)
     | Inl e \<Rightarrow> raise e)"

definition safe_midpoint :: "'s signal_sources \<Rightarrow> string \<Rightarrow> ('s, py_number option) eff" where
  "safe_midpoint src token_id = unless_polymarket_error None (seq (sg_get_midpoint src token_id) (\<lambda>m. ret (Some m)))"

definition safe_book_metrics :: "dec_ctx \<Rightarrow> 's signal_sources \<Rightarrow> string \<Rightarrow> ('s, decimal option \<times> decimal option) eff" where
  "safe_book_metrics fx src token_id = unless_polymarket_error (None, None)
     (seq (sg_get_orderbook src token_id) (\<lambda>book. ret (book_spread fx book, ob_last_trade_price book)))"

definition make_outcome :: "string \<Rightarrow> string \<Rightarrow> py_number option \<Rightarrow> decimal option \<Rightarrow> decimal option \<Rightarrow> polymarket_outcome res" where
  "make_outcome label token_id midpoint last_price spread =
     bind_res (optional_field (\<lambda>_. True) midpoint) (\<lambda>m.
     validate_outcome \<lparr>po_label = label, po_token_id = token_id, po_midpoint = m, po_last_trade_price = last_price, po_spread = spread\<rparr>)"

definition fetch_outcome :: "dec_ctx \<Rightarrow> 's signal_sources \<Rightarrow> string \<times> string \<Rightarrow> ('s, polymarket_outcome) eff" where
  "fetch_outcome fx src = (\<lambda>(label, token_id).
     seq (safe_midpoint src token_id) (\<lambda>midpoint.
     seq (safe_book_metrics fx src token_id) (\<lambda>(spread, last_price).
     lift_res (make_outcome label token_id midpoint last_price spread))))"

definition no_metadata :: polymarket_outcome where
  "no_metadata = \<lparr>po_label = ''(no outcome metadata)'', po_token_id = ''0'', po_midpoint = None,
     po_last_trade_price = None, po_spread = None\<rparr>"

definition materialise_signal :: "dec_ctx \<Rightarrow> 's signal_sources \<Rightarrow> gamma_market \<Rightarrow> ('s, polymarket_signal) eff" where
  "materialise_signal fx src market =
     seq (map_eff (fetch_outcome fx src) (zip (gm_outcomes market) (gm_clob_token_ids market))) (\<lambda>outcomes.
     let outcomes = (if outcomes = [] then [no_metadata] else outcomes) in
     seq (call (sg_now src)) (\<lambda>now.
     lift_res (validate_signal \<lparr>ps_market_id = gm_id market, ps_slug = gm_slug market, ps_question = gm_question market,
       ps_end_date = gm_end_date market, ps_is_binary = (is_binary_market market \<and> length outcomes = 2),
       ps_outcomes = outcomes, ps_fetched_at = now\<rparr>)))"

definition fetch_polymarket_signal :: "dec_ctx \<Rightarrow> 's signal_sources \<Rightarrow> string \<Rightarrow> ('s, polymarket_signal) eff" where
  "fetch_polymarket_signal fx src identifier' = seq (sg_get_market src identifier') (materialise_signal fx src)"

definition fetch_polymarket_signals :: "dec_ctx \<Rightarrow> 's signal_sources \<Rightarrow> string list \<Rightarrow> ('s, polymarket_signal list) eff" where
  "fetch_polymarket_signals fx src identifiers = map_eff (fetch_polymarket_signal fx src) identifiers"

text \<open>The sources on the two clients, each with its limiter.\<close>

definition on_gamma :: "('w, 'a) paced \<Rightarrow> ((limiter \<times> limiter) \<times> 'w, 'a) eff" where
  "on_gamma m = (\<lambda>((g, c), w). case m (g, w) of (r, (g', w')) \<Rightarrow> (r, ((g', c), w')))"

definition on_clob :: "('w, 'a) paced \<Rightarrow> ((limiter \<times> limiter) \<times> 'w, 'a) eff" where
  "on_clob m = (\<lambda>((g, c), w). case m (c, w) of (r, (c', w')) \<Rightarrow> (r, ((g, c'), w')))"

definition polymarket_sources :: "gamma_lib \<Rightarrow> 'w timer \<Rightarrow> 'w getter \<Rightarrow> string \<Rightarrow> string \<Rightarrow> ('w \<Rightarrow> int \<times> 'w) \<Rightarrow>
    ((limiter \<times> limiter) \<times> 'w) signal_sources" where
  "polymarket_sources lib tm get gamma_base clob_base now =
     \<lparr>sg_get_market = (\<lambda>i. on_gamma (get_market lib tm get gamma_base i)),
      sg_get_midpoint = (\<lambda>t. on_clob (get_midpoint tm get clob_base t)),
      sg_get_orderbook = (\<lambda>t. on_clob (get_orderbook (gl_other lib) tm get clob_base t)),
      sg_now = (\<lambda>(ls, w). case now w of (t, w') \<Rightarrow> (Aware t, (ls, w')))\<rparr>"

end
