(* ===== verification/Polymarket_Laws.thy ===== *)
theory Polymarket_Laws
  imports Polymarket_Gamma
begin

text \<open>
  A signal in spite of the failures of single tokens, and the answers that break it.
\<close>

section \<open>What the order books answer\<close>

fun is_polymarket_error :: "py_exn \<Rightarrow> bool" where
  "is_polymarket_error (DataError cls st) = (cls = ''PolymarketError'')"
| "is_polymarket_error e = False"

text \<open>A quote is a \<open>PolymarketError\<close> or a value the Observer's schema takes.\<close>

definition midpoint_ok :: "py_number res \<Rightarrow> bool" where
  "midpoint_ok r = (case r of Inl e \<Rightarrow> is_polymarket_error e
     | Inr n \<Rightarrow> (case n of Finite d \<Rightarrow> probability_ok d | _ \<Rightarrow> False))"

definition book_ok :: "dec_ctx \<Rightarrow> orderbook res \<Rightarrow> bool" where
  "book_ok fx r = (case r of Inl e \<Rightarrow> is_polymarket_error e
     | Inr b \<Rightarrow> pred_option probability_ok (ob_last_trade_price b) \<and> pred_option dec_ge0 (book_spread fx b))"

definition quoted :: "dec_ctx \<Rightarrow> (string \<Rightarrow> py_number res) \<Rightarrow> (string \<Rightarrow> orderbook res) \<Rightarrow> string \<times> string \<Rightarrow> polymarket_outcome" where
  "quoted fx mid book = (\<lambda>(label, token). \<lparr>po_label = strip label, po_token_id = strip token,
     po_midpoint = (case mid token of Inr (Finite d) \<Rightarrow> Some d | _ \<Rightarrow> None),
     po_last_trade_price = (case book token of Inr b \<Rightarrow> ob_last_trade_price b | _ \<Rightarrow> None),
     po_spread = (case book token of Inr b \<Rightarrow> book_spread fx b | _ \<Rightarrow> None)\<rparr>)"

lemma unless_Inr: "fst (m s) = Inr x \<Longrightarrow> unless_polymarket_error d m s = m s"
  by (cases "m s") (simp add: unless_polymarket_error_def seq_apply)

lemma unless_error: "fst (m s) = Inl e \<Longrightarrow> is_polymarket_error e \<Longrightarrow> fst (unless_polymarket_error d m s) = Inr d"
  by (cases "m s"; cases e) (auto simp: unless_polymarket_error_def seq_apply)

lemma fst_seq_ret: "fst (seq m (\<lambda>x. ret (f x)) s) = bind_res (fst (m s)) (\<lambda>x. Inr (f x))"
  by (cases "m s"; cases "fst (m s)") (simp_all add: seq_apply)

lemma safe_midpoint_quote:
  assumes "\<And>s. fst (sg_get_midpoint src token s) = mid" and "midpoint_ok mid"
  shows "fst (safe_midpoint src token s) = Inr (case mid of Inr n \<Rightarrow> Some n | _ \<Rightarrow> None)"
proof -
  let ?m = "seq (sg_get_midpoint src token) (\<lambda>m. ret (Some m))"
  have "fst (?m s) = bind_res mid (\<lambda>x. Inr (Some x))" by (simp add: fst_seq_ret assms(1))
  then show ?thesis using assms(2) unless_Inr [of ?m s _ None] unless_error [of ?m s _ None]
    by (cases mid) (auto simp: safe_midpoint_def midpoint_ok_def)
qed

lemma safe_book_quote:
  assumes "\<And>s. fst (sg_get_orderbook src token s) = book" and "book_ok fx book"
  shows "fst (safe_book_metrics fx src token s) =
    Inr (case book of Inr b \<Rightarrow> (book_spread fx b, ob_last_trade_price b) | _ \<Rightarrow> (None, None))"
proof -
  let ?m = "seq (sg_get_orderbook src token) (\<lambda>book. ret (book_spread fx book, ob_last_trade_price book))"
  have "fst (?m s) = bind_res book (\<lambda>b. Inr (book_spread fx b, ob_last_trade_price b))" by (simp add: fst_seq_ret assms(1))
  then show ?thesis using assms(2) unless_Inr [of ?m s _ "(None, None)"] unless_error [of ?m s _ "(None, None)"]
    by (cases book) (auto simp: safe_book_metrics_def book_ok_def)
qed

definition token_ok :: "string \<times> string \<Rightarrow> bool" where
  "token_ok = (\<lambda>(label, token). len_in 1 120 (strip label) \<and> len_in 1 128 (strip token))"

lemma fetch_outcome_quote:
  assumes "\<And>t s. fst (sg_get_midpoint src t s) = mid t" and "\<And>t s. fst (sg_get_orderbook src t s) = book t"
    and "midpoint_ok (mid (snd lt))" and "book_ok fx (book (snd lt))" and "token_ok lt"
  shows "fst (fetch_outcome fx src lt s) = Inr (quoted fx mid book lt)"
proof -
  obtain label token where lt: "lt = (label, token)" by (cases lt)
  obtain m s1 where m: "safe_midpoint src token s = (Inr m, s1)" "m = (case mid token of Inr n \<Rightarrow> Some n | _ \<Rightarrow> None)"
    using safe_midpoint_quote [of src token "mid token" s, OF assms(1)] assms(3) lt by (cases "safe_midpoint src token s") auto
  obtain b s2 where b: "safe_book_metrics fx src token s1 = (Inr b, s2)"
      "b = (case book token of Inr b \<Rightarrow> (book_spread fx b, ob_last_trade_price b) | _ \<Rightarrow> (None, None))"
    using safe_book_quote [of src token "book token" fx s1, OF assms(2)] assms(4) lt by (cases "safe_book_metrics fx src token s1") auto
  have run: "fst (fetch_outcome fx src lt s) = make_outcome label token m (snd b) (fst b)"
    by (cases b) (simp add: fetch_outcome_def lt seq_apply m(1) b(1))
  show ?thesis unfolding run using assms(3,4,5) lt
    by (cases "mid token"; cases "book token")
      (auto simp: m(2) b(2) make_outcome_def optional_field_def checked_field_def finite_field_def validate_outcome_def check_def
        quoted_def token_ok_def midpoint_ok_def book_ok_def split: py_number.splits)
qed

section \<open>The signal\<close>

definition market_ok :: "gamma_market \<Rightarrow> bool" where
  "market_ok m \<longleftrightarrow> len_in 1 128 (strip (gm_id m)) \<and> pred_option (\<lambda>x. length (strip x) \<le> 200) (gm_slug m) \<and>
     pred_option (\<lambda>x. length (strip x) \<le> 500) (gm_question m) \<and> pred_option is_aware (gm_end_date m) \<and>
     length (zip (gm_outcomes m) (gm_clob_token_ids m)) \<le> 20 \<and>
     list_all token_ok (zip (gm_outcomes m) (gm_clob_token_ids m))"

lemma map_eff_pure: "(\<And>x s. x \<in> set xs \<Longrightarrow> fst (f x s) = Inr (g x)) \<Longrightarrow> fst (map_eff f xs s) = Inr (map g xs)"
proof (induction xs arbitrary: s)
  case (Cons x xs)
  obtain t where x: "f x s = (Inr (g x), t)" using Cons.prems [of x s] by (cases "f x s") auto
  have "fst (map_eff f xs t) = Inr (map g xs)" using Cons by auto
  then obtain u where "map_eff f xs t = (Inr (map g xs), u)" by (cases "map_eff f xs t") auto
  with x show ?case by (simp add: seq_apply)
qed simp


section \<open>The answers that break it\<close>

text \<open>A crossed book has a negative spread, which the schema of an outcome refuses: the fetch raises
  \<open>ValidationError\<close>, although only one token is affected. So does a midpoint outside 0 to 1.\<close>

lemma crossed_book_refused: "make_outcome ''Yes'' ''t'' None None (Some (Dec (- 1) (- 2))) = Inl ValidationError"
  by (simp add: make_outcome_def optional_field_def validate_outcome_def check_def dec_ge0_def dec_cmp dval_Dec Let_def)

lemma large_midpoint_refused: "make_outcome ''Yes'' ''t'' (Some (Finite (Dec 2 0))) None None = Inl ValidationError"
  by (simp add: make_outcome_def optional_field_def checked_field_def finite_field_def validate_outcome_def check_def
    probability_ok_def dec_cmp dval_Dec Let_def)

text \<open>An order book with a price outside 0 to 1, or a time stamp out of range, raises an exception that is
  not a \<open>PolymarketError\<close>.\<close>

lemma parse_level_escapes: "parse_level (JObj [(''price'', JInt 2), (''size'', JInt 1)]) = Inl ValidationError"
  by (simp add: parse_level_def get_or_null_def to_decimal_def make_level_def checked_field_def finite_field_def check_def
    probability_ok_def dec_cmp dval_Dec)

lemma timestamp_escapes: "to_unix_seconds_datetime (JInt (- 99999999999)) = Inl ValueError"
  by (simp add: to_unix_seconds_datetime_def millisecond_threshold_def utc_datetime_def)

section \<open>Requests are spaced\<close>

lemma keeps_polymarket_execute [keeps_intros]:
  "clock_ok now tm get \<Longrightarrow> keeps (paced_state now d) (polymarket_execute (tape_timer tm) (tape_getter get) url params)"
  unfolding polymarket_execute_def by (auto intro!: keeps_intros split: http_outcome.split option.split)

lemma polymarket_spaced:
  assumes "clock_ok now tm get"
  shows "keeps (paced_state now d) (get_midpoint (tape_timer tm) (tape_getter get) base token)"
    and "keeps (paced_state now d) (get_price (tape_timer tm) (tape_getter get) base token sd)"
    and "keeps (paced_state now d) (get_orderbook other (tape_timer tm) (tape_getter get) base token)"
    and "keeps (paced_state now d) (get_price_history (tape_timer tm) (tape_getter get) base token iv a b c)"
    and "keeps (paced_state now d) (list_markets lib (tape_timer tm) (tape_getter get) base f)"
    and "keeps (paced_state now d) (get_market lib (tape_timer tm) (tape_getter get) base ident)"
  using assms
  by (auto simp: get_midpoint_def get_price_def get_orderbook_def get_price_history_def list_markets_def get_market_def
    get_market_by_id_def get_market_by_slug_def clob_execute_def intro!: keeps_intros split: json.split option.split list.split)

end
