(* ===== verification/Client_Samples.thy ===== *)
theory Client_Samples
  imports Jquants_Laws Edinetdb_Laws Snapshot_Laws Polymarket_Laws
begin

text \<open>
  Concrete clocks and upstreams for the market data clients: the witnesses of their properties, and
  what concurrency does to the limiter; and of the Observer helpers with the Polymarket signal.
\<close>

section \<open>A clock that only sleeps move\<close>

definition sample_timer :: "rat timer" where
  "sample_timer = \<lparr>tm_monotonic = (\<lambda>w. (w, w)), tm_sleep = (\<lambda>d w. w + max 0 d)\<rparr>"

definition busy_get :: "rat getter" where
  "busy_get = (\<lambda>url params w. (Response 429 None, w))"

definition two_pages :: "json list list" where
  "two_pages = [[JInt 1, JInt 2], [JInt 3]]"

definition bars_url :: string where
  "bars_url = ''u/equities/bars/daily''"

definition pages_get :: "rat getter" where
  "pages_get = (\<lambda>url params w. (Response 200 (Some (JObj (page_body two_pages (\<lambda>_. ''t'')
     (if map_of params ''pagination_key'' = None then 0 else 1)))), w))"

definition sample_client :: jquants_client where
  "sample_client = \<lparr>jq_api_key = ''k'', jq_base_url = ''u''\<rparr>"

definition sample_limiter :: limiter where
  "sample_limiter = \<lparr>rl_min_interval = 12, rl_schedule = default_schedule, rl_last_acquire = 0, rl_429s = 0\<rparr>"

definition read_int :: "json \<Rightarrow> int res" where
  "read_int j = (case j of JInt i \<Rightarrow> Inr i | _ \<Rightarrow> Inl ValidationError)"

abbreviation sample_other :: "json \<Rightarrow> string" where
  "sample_other \<equiv> \<lambda>_. []"

lemma sample_clock: "clock_ok (\<lambda>w. w) sample_timer pages_get" "clock_ok (\<lambda>w. w) sample_timer busy_get"
  by (simp_all add: clock_ok_def sample_timer_def pages_get_def busy_get_def)

lemma sample_new_limiter: "new_limiter 12 default_schedule = Inr sample_limiter"
  by (simp add: new_limiter_def sample_limiter_def default_schedule_def)

theorem jquants_requests_spaced_witness:
  "spaced 12 (request_times 0 (snd (snd (fold (jquants_call sample_other (tape_timer sample_timer) (tape_getter pages_get)
     read_int read_int sample_client) [Daily_Bars 5 None None None None, List_Master 5 None None] (sample_limiter, 100, [])))))"
  by (rule jquants_requests_spaced [OF sample_new_limiter sample_clock(1)]) simp

text \<open>Four requests, two per call, from a clock that stands still between them.\<close>

lemma spaced_sample: "request_times 0 (snd (snd (fold (jquants_call sample_other (tape_timer sample_timer) (tape_getter pages_get)
     read_int read_int sample_client) [Daily_Bars 5 None None None None, List_Master 5 None None] (sample_limiter, 100, [])))) =
   [100, 112, 124, 136]"
  by code_simp

text \<open>An upstream that always says 429: four requests, three pauses, and the error with its status.\<close>

theorem jquants_retries_witness:
  "\<exists>l' w' ev. jquants_execute (tape_timer sample_timer) (tape_getter busy_get) ''u'' [] (sample_limiter, 100, []) =
       (Inl (jquants_error (Some 429)), l', w', ev) \<and> length (requests ev) = 4 \<and> backoffs ev = [30, 60, 90]"
proof -
  obtain rs r l' w' ev where x: "jquants_execute (tape_timer sample_timer) (tape_getter busy_get) ''u'' [] (sample_limiter, 100, []) =
       (read_answer r, l', w', [] @ ev)" "requests ev = map (\<lambda>a. (''u'', [], a)) (rs @ [r])"
     "rate_limited r \<longrightarrow> length rs = 3" "backoffs ev = scheduled sample_limiter (length rs)"
    using jquants_retries [of sample_timer busy_get "''u''" "[]" sample_limiter 100 "[]"] by (elim exE conjE) (rule that)
  have "fst (jquants_execute (tape_timer sample_timer) (tape_getter busy_get) ''u'' [] (sample_limiter, 100, [])) =
      Inl (jquants_error (Some 429))" by code_simp
  then have "read_answer r = Inl (jquants_error (Some 429))" by (simp add: x(1))
  then have "rate_limited r"
    by (auto simp: read_answer_def jquants_error_def rate_limited_def split: http_outcome.splits option.splits json.splits if_splits)
  then have three: "length rs = 3" using x(3) by simp
  have "scheduled sample_limiter 3 = [30, 60, 90]" by code_simp
  with x three \<open>read_answer r = _\<close> show ?thesis by auto
qed

lemma sample_serves:
  "serves_pages pages_get (jq_base_url sample_client @ ''/equities/bars/daily'') (daily_bars_query (Some ''7203'') None None None) two_pages (\<lambda>_. ''t'')"
  by (auto simp: serves_pages_def pages_get_def two_pages_def less_Suc_eq numeral_2_eq_2)

theorem jquants_listing_complete_witness:
  "fst (daily_bars 2 sample_other sample_timer pages_get read_int sample_client (Some ''7203'') None None None (sample_limiter, 100)) =
     Inr (Some [1, 2, 3])"
proof -
  have "fst (daily_bars 2 sample_other sample_timer pages_get read_int sample_client (Some ''7203'') None None None (sample_limiter, 100)) =
      bind_res (each_row read_int (concat two_pages)) (\<lambda>bars. Inr (Some bars))"
    by (rule jquants_listing_complete [OF sample_serves]) (simp_all add: two_pages_def)
  also have "\<dots> = Inr (Some [1, 2, 3])" by (simp add: two_pages_def read_int_def)
  finally show ?thesis .
qed

text \<open>Two coroutines that enter \<open>acquire\<close> before either has left it wait equally long: after the sleep
  both stamps, and with them both requests, fall on the same instant.\<close>

lemma concurrent_acquires_collide:
  "let l = sample_limiter\<lparr>rl_last_acquire := 95\<rparr>; (a, s1) = acquire_wait sample_timer (l, 100);
       (b, s2) = acquire_wait sample_timer s1 in
     a = Inr (Some 7) \<and> b = Inr (Some 7) \<and>
     (case acquire_stamp sample_timer (fst s2, 107) of (_, s3) \<Rightarrow>
       rl_last_acquire (fst s3) = 107 \<and> rl_last_acquire (fst (snd (acquire_stamp sample_timer s3))) = 107)"
  by code_simp

section \<open>The quota\<close>

text \<open>The outside is its UTC time in microseconds; every answer is an empty object.\<close>

definition quota_env :: "int edinetdb_env" where
  "quota_env = \<lparr>ee_timer = \<lparr>tm_monotonic = (\<lambda>w. (of_int w, w)), tm_sleep = (\<lambda>d w. w)\<rparr>, ee_time = (\<lambda>w. (of_int w, w)),
     ee_utc_now = (\<lambda>w. (w, w)), ee_get = (\<lambda>k u p w. (Response 200 (Some (JObj [])), w)), ee_api_key = Some ''edb'',
     ee_throttle = 0, ee_base_url = ''u''\<rparr>"

definition quota_start :: "int edinetdb" where
  "quota_start = \<lparr>eb_last_call = 0, eb_cache = Some [], eb_tracker = Some \<lparr>qt_daily_cap = 1, qt_log = []\<rparr>, eb_world = 5\<rparr>"

text \<open>With a cap of one, two coroutines get two requests through: the bound is reached.\<close>

theorem quota_overshoot_bounded_witness:
  "\<exists>s' t'. quota_reachable (\<lambda>w. w) quota_env 2 quota_start s' \<and> eb_tracker s' = Some t' \<and>
     requests_today 5 t' = 2 \<and> requests_today 5 t' \<le> 1 + int 2 - 1"
proof -
  let ?r = "Response 200 (Some (JObj []))"
  let ?t = "\<lparr>qt_daily_cap = 1, qt_log = [5, 5]\<rparr>"
  define s1 where "s1 = snd (read_response quota_env ?r quota_start)"
  define s2 where "s2 = snd (read_response quota_env ?r s1)"
  have check: "check_quota quota_env quota_start = (Inr (), quota_start)"
    by (simp add: check_quota_def seq_apply outside_def quota_env_def quota_start_def assert_quota_available_def requests_today_def)
  have "quota_step (\<lambda>w. w) quota_env 2 (k, quota_start) (Suc k, quota_start)" if "k < 2" for k
    using that check by (rule quota_step.passes)
  from this [of 0] this [of "Suc 0"]
  have "(quota_step (\<lambda>w. w) quota_env 2)\<^sup>*\<^sup>* (0, quota_start) (Suc (Suc 0), quota_start)"
    by (meson less_2_cases_iff One_nat_def r_into_rtranclp rtranclp.rtrancl_into_rtrancl)
  moreover have "quota_step (\<lambda>w. w) quota_env 2 (Suc (Suc 0), quota_start) (Suc 0, s1)"
    "quota_step (\<lambda>w. w) quota_env 2 (Suc 0, s1) (0, s2)"
    unfolding s1_def s2_def by (rule quota_step.reads)+
  ultimately have reach: "quota_reachable (\<lambda>w. w) quota_env 2 quota_start s2"
    unfolding quota_reachable_def by (meson rtranclp.rtrancl_into_rtrancl)
  have t: "eb_tracker s2 = Some ?t" unfolding s2_def s1_def by code_simp
  have wall: "wall_ok (\<lambda>w. w) quota_env" by (simp add: wall_ok_def quota_env_def)
  have "requests_today 5 ?t \<le> 1 + int 2 - 1"
    by (rule quota_overshoot_bounded [OF _ _ wall _ reach t, of 1 "\<lparr>qt_daily_cap = 1, qt_log = []\<rparr>"])
      (simp_all add: new_quota_tracker_def quota_start_def)
  moreover have "requests_today 5 ?t = 2" by code_simp
  ultimately show ?thesis using reach t by blast
qed

definition text_codec :: "(string, string) codec" where
  "text_codec = \<lparr>cd_validate = (\<lambda>_. Inr ''all''), cd_dump = id, cd_load = Inr\<rparr>"

definition rows_codec :: "(string, string list) codec" where
  "rows_codec = \<lparr>cd_validate = (\<lambda>_. Inr ''row''), cd_dump = concat, cd_load = (\<lambda>s. Inr [s])\<rparr>"

theorem cache_shields_quota_witness:
  "\<exists>s1 s2. list_companies quota_env text_codec 1 20 quota_start = (Inr ''all'', s1) \<and>
     s2 = fold (edinetdb_calls quota_env text_codec rows_codec rows_codec) [Company_Financials ''E1''] s1 \<and>
     list_companies quota_env text_codec 1 20 s2 = (Inr ''all'', s2)"
proof -
  have first: "fst (list_companies quota_env text_codec 1 20 quota_start) = Inr ''all''" by code_simp
  then obtain s1 where s1: "list_companies quota_env text_codec 1 20 quota_start = (Inr ''all'', s1)" by (metis prod.collapse)
  define s2 where "s2 = fold (edinetdb_calls quota_env text_codec rows_codec rows_codec) [Company_Financials ''E1''] s1"
  have "eb_world (fold (edinetdb_calls quota_env text_codec rows_codec rows_codec) [Company_Financials ''E1'']
      (snd (list_companies quota_env text_codec 1 20 quota_start))) = 5" by code_simp
  then have w: "eb_world s2 = 5" by (simp add: s2_def s1)
  have "list_companies quota_env text_codec 1 20 s2 = (Inr ''all'', s2\<lparr>eb_world := snd (ee_time quota_env (eb_world s2))\<rparr>)"
    by (rule cache_shields_quota [OF _ _ _ s1 _ s2_def, of of_int])
      (simp_all add: time_ok_def quota_env_def quota_start_def cached_entry_def text_codec_def w)
  with s1 s2_def show ?thesis by (auto simp: quota_env_def w)
qed

text \<open>
  Concrete price histories, filings and markets: the witnesses of the properties of the helpers that
  feed the Observer.
\<close>

section \<open>Twenty-two closes, served twice\<close>

definition sample_close :: "nat \<Rightarrow> decimal" where
  "sample_close i = Dec (if i = 21 then 150 else 100) 0"

definition sample_bars :: "daily_bar list" where
  "sample_bars = map (\<lambda>i. \<lparr>db_date = 21 - int i, db_close = Some (Dec 7 0), db_adjusted_close = Some (sample_close (21 - i))\<rparr>) [0..<22]"

definition sample_prices :: "yfinance_price list" where
  "sample_prices = map (\<lambda>i. \<lparr>yp_symbol = ''7203.T'', yp_date = 21 - int i, yp_open = Dec 7 0, yp_high = Dec 7 0,
     yp_low = Dec 7 0, yp_close = sample_close (21 - i), yp_adjusted_close = None, yp_volume = None\<rparr>) [0..<22]"

theorem snapshots_agree_witness:
  "jquants_snapshot py_ctx ''7203'' sample_bars = yfinance_snapshot py_ctx ''7203'' sample_prices \<and>
   map_sum id as_return_1m (jquants_snapshot py_ctx ''7203'' sample_bars) = Inr (Some (Dec 5 (- 1)))"
proof
  show "jquants_snapshot py_ctx ''7203'' sample_bars = yfinance_snapshot py_ctx ''7203'' sample_prices"
    by (rule snapshots_agree) (simp_all add: sample_bars_def sample_prices_def dated_close_def dated_price_def chosen_close_def
      close_of_def sample_close_def list_all_iff dec_cmp dval_Dec)
  show "map_sum id as_return_1m (jquants_snapshot py_ctx ''7203'' sample_bars) = Inr (Some (Dec 5 (- 1)))"
    by code_simp (simp add: dec_cmp dval_Dec)
qed

section \<open>Two days of filings\<close>

definition sample_doc :: "string \<Rightarrow> string \<Rightarrow> edinet_document" where
  "sample_doc i code = \<lparr>ed_doc_id = i, ed_edinet_code = code, ed_doc_type_code = ''120''\<rparr>"

definition sample_days :: "date \<Rightarrow> edinet_document list" where
  "sample_days d = (if d = 1 then [sample_doc ''a'' ''E1'', sample_doc ''b'' ''E2''] else [sample_doc ''c'' ''E1''])"

theorem recent_filings_exact_witness:
  "fst (fetch_recent_filings (\<lambda>d detailed (w::nat). (Inr (sample_days d), w)) 1 2 (Some [''E1'']) (Some []) 0) =
     Inr [sample_doc ''a'' ''E1'', sample_doc ''c'' ''E1'']"
proof -
  have days: "[1..2] = [1, 2 :: int]" by (simp add: upto_rec1)
  show ?thesis
    by (subst recent_filings_exact [of _ sample_days]) (simp_all add: days sample_days_def sample_doc_def)
qed

section \<open>A market with a failing token\<close>

definition sample_market :: gamma_market where
  "sample_market = \<lparr>gm_id = ''m1'', gm_question = None, gm_slug = Some ''rain'', gm_end_date = None, gm_active = True,
     gm_closed = False, gm_volume = None, gm_liquidity = None, gm_last_trade_price = None,
     gm_clob_token_ids = [''t1'', ''t2''], gm_outcomes = [''Yes'', ''No''], gm_outcome_prices = []\<rparr>"

definition sample_mid :: "string \<Rightarrow> py_number res" where
  "sample_mid t = (if t = ''t1'' then Inr (Finite (Dec 6 (- 1))) else Inl (polymarket_error (Some 404)))"

definition sample_book :: "string \<Rightarrow> orderbook res" where
  "sample_book t = Inl (polymarket_error None)"

definition sample_sources :: "nat signal_sources" where
  "sample_sources = \<lparr>sg_get_market = (\<lambda>i s. (Inr sample_market, s)), sg_get_midpoint = (\<lambda>t s. (sample_mid t, s)),
     sg_get_orderbook = (\<lambda>t s. (sample_book t, s)), sg_now = (\<lambda>s. (Aware 9, s))\<rparr>"


end
