(* ===== verification/Cli_Creds.thy ===== *)
theory Cli_Creds
  imports Http Float_Arith Artifacts
begin

text \<open>
  The login state of the command line tools whose subscriptions pay for the language models
  (\<open>providers/\_cli\_creds.py\<close>): parsing a payload, its expiry, and the look-up in the file and then
  in the keychain. What the code takes from the operating system and from the libraries of Python
  for JSON, base 64, SHA-256 and dates are fields of a record. \<open>None\<close> of Python and the null of JSON
  are the same value, \<open>JNull\<close>; a float of a decoded payload is a finite number. A path is the text
  \<open>str(path)\<close>.
\<close>

section \<open>Credentials\<close>

record oauth_credential =
  oc_provider :: string
  oc_access_token :: string
  oc_refresh_token :: string
  oc_expires_at_ms :: int
  oc_account_id :: "string option"
  oc_id_token :: "string option"

record token_credential =
  tc_provider :: string
  tc_access_token :: string
  tc_expires_at_ms :: int

datatype cli_credential = OAuth_Credential oauth_credential | Token_Credential token_credential

definition oauth_ok :: "oauth_credential \<Rightarrow> bool" where
  "oauth_ok c = (len_in 1 80 (oc_provider c) \<and> oc_access_token c \<noteq> [] \<and> oc_refresh_token c \<noteq> [] \<and>
     0 < oc_expires_at_ms c)"

definition token_cred_ok :: "token_credential \<Rightarrow> bool" where
  "token_cred_ok c = (len_in 1 80 (tc_provider c) \<and> tc_access_token c \<noteq> [] \<and> 0 < tc_expires_at_ms c)"

definition new_oauth :: "oauth_credential \<Rightarrow> oauth_credential res" where
  "new_oauth c = bind_res (check (oauth_ok c)) (\<lambda>_. Inr c)"

definition new_token :: "token_credential \<Rightarrow> token_credential res" where
  "new_token c = bind_res (check (token_cred_ok c)) (\<lambda>_. Inr c)"

fun access_token :: "cli_credential \<Rightarrow> string" where
  "access_token (OAuth_Credential c) = oc_access_token c"
| "access_token (Token_Credential c) = tc_access_token c"

fun expires_at_ms :: "cli_credential \<Rightarrow> int" where
  "expires_at_ms (OAuth_Credential c) = oc_expires_at_ms c"
| "expires_at_ms (Token_Credential c) = tc_expires_at_ms c"

fun account_id :: "cli_credential \<Rightarrow> string option" where
  "account_id (OAuth_Credential c) = oc_account_id c"
| "account_id (Token_Credential c) = None"

fun credential_ok :: "cli_credential \<Rightarrow> bool" where
  "credential_ok (OAuth_Credential c) = oauth_ok c"
| "credential_ok (Token_Credential c) = token_cred_ok c"

section \<open>The libraries and the machine\<close>

datatype command_outcome = Command_Failed | Command_Exit (returncode: int) (stdout: string)

record 'w cred_lib =
  cl_home :: string
  cl_codex_home :: "'w \<Rightarrow> string option"          \<comment> \<open>\<open>os.environ.get("CODEX\_HOME")\<close>\<close>
  cl_expanduser :: "string \<Rightarrow> string"
  cl_is_file :: "string \<Rightarrow> 'w \<Rightarrow> bool"
  cl_read_text :: "string \<Rightarrow> 'w \<Rightarrow> string option"  \<comment> \<open>\<open>None\<close>: an \<open>OSError\<close> or bytes that are not UTF-8\<close>
  cl_loads :: "string \<Rightarrow> json option"
  cl_b64_loads :: "string \<Rightarrow> json option"         \<comment> \<open>base 64, then JSON; \<open>None\<close>: a \<open>ValueError\<close> of either\<close>
  cl_sha256_hex :: "string \<Rightarrow> string"
  cl_timestamp :: "string \<Rightarrow> rat option"          \<comment> \<open>\<open>datetime.fromisoformat(s).timestamp()\<close>\<close>
  cl_isoformat :: "int \<Rightarrow> string"                 \<comment> \<open>of the moment so many milliseconds after the epoch\<close>
  cl_time :: "'w \<Rightarrow> rat \<times> 'w"                     \<comment> \<open>\<open>time.time()\<close>\<close>
  cl_platform :: string
  cl_run :: "string list \<Rightarrow> 'w \<Rightarrow> command_outcome \<times> 'w"

type_synonym 'w keychain_reader = "string \<Rightarrow> string option \<Rightarrow> 'w \<Rightarrow> string option \<times> 'w"

section \<open>Freshness\<close>

definition default_expiry_skew :: int where
  "default_expiry_skew = 60"

definition millis :: "rat \<Rightarrow> int" where
  "millis t = trunc_rat (fmul t 1000)"

definition is_cred_fresh :: "'w cred_lib \<Rightarrow> int \<Rightarrow> cli_credential \<Rightarrow> ('w, bool) eff" where
  "is_cred_fresh lib skew c = seq (call (cl_time lib)) (\<lambda>t.
     ret (millis t + skew * 1000 < expires_at_ms c))"

section \<open>Paths\<close>

definition path_join :: "string \<Rightarrow> string \<Rightarrow> string" where
  "path_join p q = (if p = ''.'' then q else if p = ''/'' then p @ q else p @ ''/'' @ q)"

definition claude_cli_creds_path :: "'w cred_lib \<Rightarrow> string option \<Rightarrow> string" where
  "claude_cli_creds_path lib home = path_join (case home of Some h \<Rightarrow> h | None \<Rightarrow> cl_home lib)
     ''.claude/.credentials.json''"

definition resolve_codex_home :: "'w cred_lib \<Rightarrow> string option \<Rightarrow> ('w, string) eff" where
  "resolve_codex_home lib codex_home = (case codex_home of Some h \<Rightarrow> ret h
     | None \<Rightarrow> seq (gets (cl_codex_home lib)) (\<lambda>e. case e of
         Some h \<Rightarrow> ret (if h \<noteq> [] then cl_expanduser lib h else path_join (cl_home lib) ''.codex'')
       | None \<Rightarrow> ret (path_join (cl_home lib) ''.codex'')))"

definition codex_cli_creds_path :: "'w cred_lib \<Rightarrow> string option \<Rightarrow> ('w, string) eff" where
  "codex_cli_creds_path lib codex_home = (case codex_home of Some h \<Rightarrow> ret (path_join h ''auth.json'')
     | None \<Rightarrow> seq (gets (cl_codex_home lib)) (\<lambda>e. case e of
         Some h \<Rightarrow> ret (if h \<noteq> [] then path_join (cl_expanduser lib h) ''auth.json''
             else path_join (path_join (cl_home lib) ''.codex'') ''auth.json'')
       | None \<Rightarrow> ret (path_join (path_join (cl_home lib) ''.codex'') ''auth.json'')))"

definition codex_keychain_account :: "'w cred_lib \<Rightarrow> string \<Rightarrow> string" where
  "codex_keychain_account lib codex_home = ''cli|'' @ take 16 (cl_sha256_hex lib codex_home)"

section \<open>The expiry of a token\<close>

primrec split_on :: "char \<Rightarrow> string \<Rightarrow> string list" where
  "split_on d [] = [[]]"
| "split_on d (c # s) = (if c = d then [] # split_on d s
     else (case split_on d s of [] \<Rightarrow> [[c]] | p # ps \<Rightarrow> (c # p) # ps))"

definition pad_b64 :: "string \<Rightarrow> string" where
  "pad_b64 s = s @ replicate (nat (- int (length s) mod 4)) (CHR ''='')"

text \<open>\<open>isinstance(v, int | float) and not isinstance(v, bool)\<close>, as a number; and \<open>int(v * 1000)\<close>.\<close>

fun number_value :: "json \<Rightarrow> rat option" where
  "number_value (JInt i) = Some (of_int i)"
| "number_value (JFloat x) = Some x"
| "number_value v = None"

fun int_of_number :: "json \<Rightarrow> int" where
  "int_of_number (JInt i) = i"
| "int_of_number (JFloat x) = trunc_rat x"
| "int_of_number v = 0"

fun number_millis :: "json \<Rightarrow> int" where
  "number_millis (JInt i) = i * 1000"
| "number_millis (JFloat x) = millis x"
| "number_millis v = 0"

definition positive_number :: "json \<Rightarrow> bool" where
  "positive_number v = (case number_value v of None \<Rightarrow> False | Some x \<Rightarrow> 0 < x)"

definition decode_jwt_exp_ms :: "'w cred_lib \<Rightarrow> string \<Rightarrow> int option" where
  "decode_jwt_exp_ms lib token = (let parts = split_on (CHR ''.'') token in
     if length parts < 2 then None
     else (case cl_b64_loads lib (pad_b64 (parts ! 1)) of
         Some (JObj payload) \<Rightarrow> (let e = get_or_null payload ''exp'' in
           if positive_number e then Some (number_millis e) else None)
       | _ \<Rightarrow> None))"

definition replace_z_offset :: "string \<Rightarrow> string" where
  "replace_z_offset s = concat (map (\<lambda>c. if c = CHR ''Z'' then ''+00:00'' else [c]) s)"

definition fallback_ttl_ms :: int where
  "fallback_ttl_ms = 60 * 60 * 1000"

fun last_refresh_ms :: "'w cred_lib \<Rightarrow> json \<Rightarrow> int option" where
  "last_refresh_ms lib (JStr s) = (if s = [] then None else map_option millis (cl_timestamp lib (replace_z_offset s)))"
| "last_refresh_ms lib (JInt i) = Some i"
| "last_refresh_ms lib (JFloat x) = Some (trunc_rat x)"
| "last_refresh_ms lib v = None"

definition resolve_codex_expiry_ms :: "'w cred_lib \<Rightarrow> string \<Rightarrow> json \<Rightarrow> ('w, int) eff" where
  "resolve_codex_expiry_ms lib token last_refresh = (case decode_jwt_exp_ms lib token of
     Some ms \<Rightarrow> ret ms
   | None \<Rightarrow> (case last_refresh_ms lib last_refresh of
         Some ms \<Rightarrow> ret (ms + fallback_ttl_ms)
       | None \<Rightarrow> seq (call (cl_time lib)) (\<lambda>t. ret (millis t + fallback_ttl_ms))))"

section \<open>Payloads\<close>

text \<open>A non-empty string, and a string.\<close>

definition filled_text :: "json \<Rightarrow> string option" where
  "filled_text v = (case v of JStr s \<Rightarrow> if s = [] then None else Some s | _ \<Rightarrow> None)"

definition optional_text :: "json \<Rightarrow> string option" where
  "optional_text v = (case v of JStr s \<Rightarrow> Some s | _ \<Rightarrow> None)"

definition claude_credential :: "(string \<times> json) list \<Rightarrow> cli_credential option res" where
  "claude_credential oauth = (let e = get_or_null oauth ''expiresAt'' in
     case filled_text (get_or_null oauth ''accessToken'') of None \<Rightarrow> Inr None
     | Some access \<Rightarrow> if \<not> positive_number e then Inr None
         else (case filled_text (get_or_null oauth ''refreshToken'') of
             Some refresh \<Rightarrow> bind_res (new_oauth \<lparr>oc_provider = ''anthropic'', oc_access_token = access,
               oc_refresh_token = refresh, oc_expires_at_ms = int_of_number e, oc_account_id = None,
               oc_id_token = None\<rparr>) (\<lambda>c. Inr (Some (OAuth_Credential c)))
           | None \<Rightarrow> bind_res (new_token \<lparr>tc_provider = ''anthropic'', tc_access_token = access,
               tc_expires_at_ms = int_of_number e\<rparr>) (\<lambda>c. Inr (Some (Token_Credential c)))))"

definition parse_claude_payload :: "json \<Rightarrow> cli_credential option res" where
  "parse_claude_payload raw = (case raw of
     JObj d \<Rightarrow> (case get_or_null d ''claudeAiOauth'' of JObj oauth \<Rightarrow> claude_credential oauth | _ \<Rightarrow> Inr None)
   | _ \<Rightarrow> Inr None)"

definition parse_codex_payload :: "'w cred_lib \<Rightarrow> json \<Rightarrow> ('w, oauth_credential option) eff" where
  "parse_codex_payload lib raw = (case raw of
     JObj d \<Rightarrow> (case get_or_null d ''tokens'' of
         JObj tokens \<Rightarrow> (case (filled_text (get_or_null tokens ''access_token''), filled_text (get_or_null tokens ''refresh_token'')) of
             (Some access, Some refresh) \<Rightarrow>
               seq (resolve_codex_expiry_ms lib access (get_or_null d ''last_refresh'')) (\<lambda>ms.
               seq (lift_res (new_oauth \<lparr>oc_provider = ''openai-codex'', oc_access_token = access,
                 oc_refresh_token = refresh, oc_expires_at_ms = ms,
                 oc_account_id = optional_text (get_or_null tokens ''account_id''),
                 oc_id_token = optional_text (get_or_null tokens ''id_token'')\<rparr>)) (\<lambda>c. ret (Some c)))
           | _ \<Rightarrow> ret None)
       | _ \<Rightarrow> ret None)
   | _ \<Rightarrow> ret None)"

section \<open>The file, then the keychain\<close>

definition read_json_file :: "'w cred_lib \<Rightarrow> string \<Rightarrow> ('w, json) eff" where
  "read_json_file lib path = gets (\<lambda>w. case cl_read_text lib path w of None \<Rightarrow> JNull
     | Some s \<Rightarrow> (case cl_loads lib s of None \<Rightarrow> JNull | Some v \<Rightarrow> v))"

definition security_args :: "string \<Rightarrow> string option \<Rightarrow> string list" where
  "security_args service account = [''security'', ''find-generic-password'', ''-s'', service] @
     (case account of None \<Rightarrow> [] | Some a \<Rightarrow> if a = [] then [] else [''-a'', a]) @ [''-w'']"

definition real_keychain_reader :: "'w cred_lib \<Rightarrow> 'w keychain_reader" where
  "real_keychain_reader lib service account w =
     (if cl_platform lib \<noteq> ''darwin'' then (None, w)
      else (case cl_run lib (security_args service account) w of
          (Command_Exit code text_out, w') \<Rightarrow>
            (if code \<noteq> 0 \<or> py_strip text_out = [] then None else Some (py_strip text_out), w')
        | (Command_Failed, w') \<Rightarrow> (None, w')))"

definition load_keychain_json :: "'w cred_lib \<Rightarrow> 'w keychain_reader option \<Rightarrow> string \<Rightarrow> string option \<Rightarrow> ('w, json) eff" where
  "load_keychain_json lib reader service account =
     seq (call ((case reader of Some r \<Rightarrow> r | None \<Rightarrow> real_keychain_reader lib) service account)) (\<lambda>secret.
     ret (case secret of None \<Rightarrow> JNull
       | Some s \<Rightarrow> (case cl_loads lib s of None \<Rightarrow> JNull | Some v \<Rightarrow> v)))"

definition from_file :: "'w cred_lib \<Rightarrow> string \<Rightarrow> (json \<Rightarrow> ('w, 'c option) eff) \<Rightarrow> ('w, 'c option) eff" where
  "from_file lib path parse = seq (gets (cl_is_file lib path)) (\<lambda>b.
     if b then seq (read_json_file lib path) parse else ret None)"

definition load_claude_cli_cred :: "'w cred_lib \<Rightarrow> 'w keychain_reader option \<Rightarrow> string option \<Rightarrow>
    ('w, cli_credential option) eff" where
  "load_claude_cli_cred lib reader home =
     seq (from_file lib (claude_cli_creds_path lib home) (\<lambda>v. lift_res (parse_claude_payload v))) (\<lambda>c.
     case c of Some x \<Rightarrow> ret (Some x)
     | None \<Rightarrow> seq (load_keychain_json lib reader ''Claude Code-credentials'' None) (\<lambda>v.
         lift_res (parse_claude_payload v)))"

definition load_codex_cli_cred :: "'w cred_lib \<Rightarrow> 'w keychain_reader option \<Rightarrow> string option \<Rightarrow>
    ('w, oauth_credential option) eff" where
  "load_codex_cli_cred lib reader codex_home =
     seq (codex_cli_creds_path lib codex_home) (\<lambda>path.
     seq (from_file lib path (parse_codex_payload lib)) (\<lambda>c.
     case c of Some x \<Rightarrow> ret (Some x)
     | None \<Rightarrow> seq (resolve_codex_home lib codex_home) (\<lambda>home.
         seq (load_keychain_json lib reader ''Codex Auth'' (Some (codex_keychain_account lib home)))
           (parse_codex_payload lib))))"

end
