(* ===== verification/Providers.thy ===== *)
theory Providers
  imports Cli_Creds
begin

text \<open>
  The providers of language models (\<open>providers/types.py\<close>, \<open>anthropic\_cli.py\<close>, \<open>codex\_cli.py\<close>,
  \<open>openai\_compat.py\<close>): each sends one request that forces the model to call a tool whose parameters
  are the wanted schema, and validates what the tool was called with. The HTTP library is a
  parameter: a request times out, fails or is answered, or raises something else. So is the
  validation of decoded JSON against a schema.
\<close>

section \<open>Messages and results\<close>

datatype role = ROLE_SYSTEM | ROLE_USER | ROLE_ASSISTANT

fun role_value :: "role \<Rightarrow> string" where
  "role_value ROLE_SYSTEM = ''system''"
| "role_value ROLE_USER = ''user''"
| "role_value ROLE_ASSISTANT = ''assistant''"

record chat_message =
  cm_role :: role
  cm_content :: string

definition new_message :: "role \<Rightarrow> string \<Rightarrow> chat_message res" where
  "new_message r s = bind_res (check (len_in 1 200000 s)) (\<lambda>_. Inr \<lparr>cm_role = r, cm_content = s\<rparr>)"

record provider_usage =
  us_token_in :: int
  us_token_out :: int
  us_latency_ms :: int
  us_cost_usd :: decimal

definition usage_ok :: "provider_usage \<Rightarrow> bool" where
  "usage_ok u = (0 \<le> us_token_in u \<and> 0 \<le> us_token_out u \<and> 0 \<le> us_latency_ms u \<and> dec_ge0 (us_cost_usd u))"

definition new_usage :: "provider_usage \<Rightarrow> provider_usage res" where
  "new_usage u = bind_res (check (usage_ok u)) (\<lambda>_. Inr u)"

record 'o completion =
  co_output :: 'o
  co_usage :: provider_usage
  co_provider_id :: string

definition new_completion :: "'o completion \<Rightarrow> 'o completion res" where
  "new_completion c = bind_res (check (len_in 1 200 (co_provider_id c))) (\<lambda>_. Inr c)"

text \<open>A class of models: its name, docstring and JSON schema, and \<open>model\_validate\<close>, which returns an
  instance or the text of its error.\<close>

record 'o out_schema =
  sc_name :: string
  sc_doc :: "string option"
  sc_json :: "(string \<times> json) list"
  sc_validate :: "json \<Rightarrow> string + 'o"

section \<open>The outside\<close>

record http_answer =
  an_status :: nat
  an_text :: string
  an_json :: "string + json"      \<comment> \<open>\<open>resp.json()\<close>, or the text of its \<open>ValueError\<close>\<close>

datatype post_outcome = Timed_Out string | Http_Failure string | Answered http_answer

type_synonym headers = "(string \<times> string) list"

record 'w llm_env =
  le_creds :: "'w cred_lib"
  le_post :: "string \<Rightarrow> headers \<Rightarrow> json \<Rightarrow> ('w, post_outcome) eff"
  le_monotonic :: "'w \<Rightarrow> rat \<times> 'w"
  le_loads :: "string \<Rightarrow> string + json"
  le_float_str :: "rat \<Rightarrow> string"
  le_repr :: "json \<Rightarrow> string"

definition timed_post :: "'w llm_env \<Rightarrow> rat \<Rightarrow> string \<Rightarrow> headers \<Rightarrow> json \<Rightarrow> ('w, http_answer \<times> int) eff" where
  "timed_post env timeout url headers payload =
     seq (call (le_monotonic env)) (\<lambda>start.
     seq (le_post env url headers payload) (\<lambda>out. case out of
       Timed_Out e \<Rightarrow> raise (ProviderError NETWORK_ERROR (''timeout after '' @ le_float_str env timeout @ ''s: '' @ e))
     | Http_Failure e \<Rightarrow> raise (ProviderError NETWORK_ERROR (''network failure: '' @ e))
     | Answered r \<Rightarrow> seq (call (le_monotonic env)) (\<lambda>now. ret (r, millis (fsub now start)))))"

definition raise_for_status :: "http_answer \<Rightarrow> unit res" where
  "raise_for_status r = (let s = an_status r in
     if s = 401 \<or> s = 403 then Inl (ProviderError AUTH_ERROR (''auth failed: HTTP '' @ nat_str s))
     else if s = 429 then Inl (ProviderError RATE_LIMIT_ERROR (''rate limit: HTTP '' @ nat_str s))
     else if 500 \<le> s then Inl (ProviderError NETWORK_ERROR (''server error: HTTP '' @ nat_str s))
     else if 400 \<le> s then Inl (ProviderError PROVIDER_ERROR (''HTTP '' @ nat_str s @ '': '' @ take 500 (an_text r)))
     else Inr ())"

definition decode_body :: "http_answer \<Rightarrow> (string \<times> json) list res" where
  "decode_body r = (case an_json r of
     Inl e \<Rightarrow> Inl (ProviderError PARSE_ERROR (''invalid JSON response: '' @ e))
   | Inr (JObj d) \<Rightarrow> Inr d
   | Inr _ \<Rightarrow> Inl (ProviderError PARSE_ERROR ''response body is not a JSON object''))"

text \<open>Token counts: an integer that is not a Boolean, else 0. The names of the two keys differ
  between the interfaces.\<close>

definition count_of :: "(string \<times> json) list \<Rightarrow> string \<Rightarrow> int" where
  "count_of d k = (case map_of d k of Some (JInt i) \<Rightarrow> i | _ \<Rightarrow> 0)"

definition build_usage :: "string \<Rightarrow> string \<Rightarrow> json \<Rightarrow> int \<Rightarrow> provider_usage res" where
  "build_usage key_in key_out raw latency = (let counts = (case raw of
         JObj d \<Rightarrow> (count_of d key_in, count_of d key_out) | _ \<Rightarrow> (0, 0))
     in new_usage \<lparr>us_token_in = fst counts, us_token_out = snd counts, us_latency_ms = latency,
          us_cost_usd = Dec 0 0\<rparr>)"

definition usage_of :: "(string \<times> json) list \<Rightarrow> json" where
  "usage_of ans = (case map_of ans ''usage'' of None \<Rightarrow> JObj [] | Some v \<Rightarrow> v)"

definition in_quotes :: "string \<Rightarrow> string" where
  "in_quotes s = CHR 0x27 # s @ [CHR 0x27]"

definition schema_violation :: "string \<Rightarrow> 'a res" where
  "schema_violation s = Inl (ProviderError SCHEMA_VIOLATION_ERROR s)"

text \<open>The validated output with its usage: the tail of the three parsers.\<close>

definition finish_completion :: "string \<Rightarrow> string \<Rightarrow> string \<Rightarrow> string \<Rightarrow> int \<Rightarrow> 'o out_schema \<Rightarrow> json \<Rightarrow>
    (string \<times> json) list \<Rightarrow> 'o completion res" where
  "finish_completion what key_in key_out pid latency sc v ans = (case sc_validate sc v of
     Inl e \<Rightarrow> schema_violation (what @ '' failed schema validation: '' @ e)
   | Inr out \<Rightarrow> bind_res (build_usage key_in key_out (usage_of ans) latency) (\<lambda>u.
       new_completion \<lparr>co_output = out, co_usage = u, co_provider_id = pid\<rparr>))"

section \<open>The tool\<close>

definition tool_name :: "'o out_schema \<Rightarrow> string" where
  "tool_name sc = ''emit_'' @ sc_name sc"

definition tool_description :: "'o out_schema \<Rightarrow> string" where
  "tool_description sc = py_strip (case sc_doc sc of Some (c # s) \<Rightarrow> c # s
     | _ \<Rightarrow> ''Emit a '' @ sc_name sc @ '' instance.'')"

definition parameters_of :: "'o out_schema \<Rightarrow> json" where
  "parameters_of sc = JObj (AList.delete ''$schema'' (sc_json sc))"

definition message_item :: "chat_message \<Rightarrow> json" where
  "message_item m = JObj [(''role'', JStr (role_value (cm_role m))), (''content'', JStr (cm_content m))]"

section \<open>Anthropic with the login of the Claude CLI\<close>

record anthropic_cli =
  ac_model :: string
  ac_home_dir :: "string option"
  ac_timeout_s :: rat

definition anthropic_id :: "anthropic_cli \<Rightarrow> string" where
  "anthropic_id p = ''anthropic-cli/'' @ ac_model p"

definition is_substring :: "string \<Rightarrow> string \<Rightarrow> bool" where
  "is_substring p s = list_ex (\<lambda>k. take (length p) (drop k s) = p) [0..<Suc (length s)]"

definition is_oauth_token :: "string \<Rightarrow> bool" where
  "is_oauth_token t = is_substring ''sk-ant-oat'' t"

definition oauth_betas :: "string list" where
  "oauth_betas = [''claude-code-20250219'', ''oauth-2025-04-20'', ''fine-grained-tool-streaming-2025-05-14'',
     ''interleaved-thinking-2025-05-14'']"

definition anthropic_headers :: "string \<Rightarrow> headers" where
  "anthropic_headers t = [(''content-type'', ''application/json''), (''anthropic-version'', ''2023-06-01'')] @
     (if is_oauth_token t then [(''Authorization'', ''Bearer '' @ t), (''anthropic-beta'', join '','' oauth_betas)]
      else [(''x-api-key'', t)])"

definition anthropic_tool :: "'o out_schema \<Rightarrow> json" where
  "anthropic_tool sc = JObj [(''name'', JStr (tool_name sc)), (''description'', JStr (tool_description sc)),
     (''input_schema'', parameters_of sc)]"

definition anthropic_payload :: "string \<Rightarrow> chat_message list \<Rightarrow> 'o out_schema \<Rightarrow> int \<Rightarrow> rat \<Rightarrow> json" where
  "anthropic_payload model ms sc max_tokens temperature =
     (let system_parts = map cm_content (filter (\<lambda>m. cm_role m = ROLE_SYSTEM) ms) in
      JObj ([(''model'', JStr model), (''max_tokens'', JInt max_tokens), (''temperature'', JFloat temperature),
        (''messages'', JList (map message_item (filter (\<lambda>m. cm_role m \<noteq> ROLE_SYSTEM) ms))),
        (''tools'', JList [anthropic_tool sc]),
        (''tool_choice'', JObj [(''type'', JStr ''tool''), (''name'', JStr (tool_name sc))])] @
        (if system_parts = [] then [] else [(''system'', JStr (join [CHR 0x0A, CHR 0x0A] system_parts))])))"

text \<open>The first object of a list whose \<open>type\<close> is the given one.\<close>

fun first_of_type :: "string \<Rightarrow> json list \<Rightarrow> (string \<times> json) list option" where
  "first_of_type t [] = None"
| "first_of_type t (JObj d # vs) = (if map_of d ''type'' = Some (JStr t) then Some d else first_of_type t vs)"
| "first_of_type t (_ # vs) = first_of_type t vs"

definition parse_messages_response :: "'w llm_env \<Rightarrow> string \<Rightarrow> int \<Rightarrow> 'o out_schema \<Rightarrow> (string \<times> json) list \<Rightarrow>
    'o completion res" where
  "parse_messages_response env pid latency sc ans = (case get_or_null ans ''content'' of
     JList (b # bs) \<Rightarrow> (case first_of_type ''tool_use'' (b # bs) of
         None \<Rightarrow> schema_violation ''model did not return a tool_use block; cannot extract structured output''
       | Some d \<Rightarrow> if get_or_null d ''name'' \<noteq> JStr (tool_name sc)
           then schema_violation (''unexpected tool_use name: got '' @ le_repr env (get_or_null d ''name'') @
             '', expected '' @ le_repr env (JStr (tool_name sc)))
           else (case get_or_null d ''input'' of
               JObj v \<Rightarrow> finish_completion ''tool_use.input'' ''input_tokens'' ''output_tokens'' pid latency sc (JObj v) ans
             | _ \<Rightarrow> schema_violation ''tool_use.input is not a JSON object''))
   | _ \<Rightarrow> schema_violation (''response missing '' @ in_quotes ''content'' @ '' array''))"

text \<open>Both subscription providers send a request only with a credential that is still fresh.\<close>

definition if_fresh :: "'w llm_env \<Rightarrow> string \<Rightarrow> string \<Rightarrow> cli_credential option \<Rightarrow>
    (cli_credential \<Rightarrow> ('w, 'a) eff) \<Rightarrow> ('w, 'a) eff" where
  "if_fresh env missing tool oc f = (case oc of
     None \<Rightarrow> raise (ProviderError AUTH_ERROR missing)
   | Some c \<Rightarrow> seq (is_cred_fresh (le_creds env) default_expiry_skew c) (\<lambda>fresh.
       if fresh then f c
       else raise (ProviderError AUTH_ERROR (tool @ '' cred expired at '' @ cl_isoformat (le_creds env) (expires_at_ms c) @
         ''. Run `'' @ (if tool = ''Claude CLI'' then ''claude'' else ''codex'') @
         '' login` to renew. Auto-refresh is out of scope per ADR-0003.''))))"

text \<open>One exchange: the request, then the status, the body and what the parser makes of it.\<close>

definition exchange :: "'w llm_env \<Rightarrow> rat \<Rightarrow> string \<Rightarrow> headers \<Rightarrow> json \<Rightarrow>
    (int \<Rightarrow> (string \<times> json) list \<Rightarrow> 'a res) \<Rightarrow> ('w, 'a) eff" where
  "exchange env timeout url headers payload parse =
     seq (timed_post env timeout url headers payload) (\<lambda>(r, latency).
     lift_res (bind_res (raise_for_status r) (\<lambda>_. bind_res (decode_body r) (parse latency))))"

definition messages_url :: string where
  "messages_url = ''https://api.anthropic.com/v1/messages''"

definition anthropic_complete :: "'w llm_env \<Rightarrow> anthropic_cli \<Rightarrow> chat_message list \<Rightarrow> 'o out_schema \<Rightarrow> int \<Rightarrow> rat \<Rightarrow>
    ('w, 'o completion) eff" where
  "anthropic_complete env p ms sc max_tokens temperature =
     seq (load_claude_cli_cred (le_creds env) None (ac_home_dir p)) (\<lambda>oc.
     if_fresh env ''Claude CLI not logged in; ~/.claude/.credentials.json missing.'' ''Claude CLI'' oc (\<lambda>c.
     exchange env (ac_timeout_s p) messages_url (anthropic_headers (access_token c))
       (anthropic_payload (ac_model p) ms sc max_tokens temperature)
       (\<lambda>latency. parse_messages_response env (anthropic_id p) latency sc)))"

definition anthropic_is_configured :: "'w llm_env \<Rightarrow> anthropic_cli \<Rightarrow> ('w, bool) eff" where
  "anthropic_is_configured env p = seq (load_claude_cli_cred (le_creds env) None (ac_home_dir p)) (\<lambda>oc. ret (oc \<noteq> None))"

section \<open>OpenAI with the login of the Codex CLI\<close>

record codex_cli =
  cx_model :: string
  cx_codex_home :: "string option"
  cx_timeout_s :: rat

definition codex_id :: "codex_cli \<Rightarrow> string" where
  "codex_id p = ''codex-cli/'' @ cx_model p"

definition codex_headers :: "string \<Rightarrow> string option \<Rightarrow> headers" where
  "codex_headers t account = [(''content-type'', ''application/json''), (''Authorization'', ''Bearer '' @ t)] @
     (case account of None \<Rightarrow> [] | Some a \<Rightarrow> if a = [] then [] else [(''ChatGPT-Account-Id'', a)])"

definition codex_tool :: "'o out_schema \<Rightarrow> json" where
  "codex_tool sc = JObj [(''type'', JStr ''function''), (''name'', JStr (tool_name sc)),
     (''description'', JStr (tool_description sc)), (''parameters'', parameters_of sc)]"

definition codex_payload :: "string \<Rightarrow> chat_message list \<Rightarrow> 'o out_schema \<Rightarrow> int \<Rightarrow> rat \<Rightarrow> json" where
  "codex_payload model ms sc max_tokens temperature = JObj [(''model'', JStr model),
     (''input'', JList (map message_item ms)), (''max_output_tokens'', JInt max_tokens),
     (''temperature'', JFloat temperature), (''tools'', JList [codex_tool sc]),
     (''tool_choice'', JObj [(''type'', JStr ''function''), (''name'', JStr (tool_name sc))])]"

text \<open>The arguments of a call are a JSON text.\<close>

definition finish_arguments :: "'w llm_env \<Rightarrow> string \<Rightarrow> string \<Rightarrow> string \<Rightarrow> string \<Rightarrow> int \<Rightarrow> 'o out_schema \<Rightarrow> string \<Rightarrow>
    (string \<times> json) list \<Rightarrow> 'o completion res" where
  "finish_arguments env what key_in key_out pid latency sc s ans = (case le_loads env s of
     Inl e \<Rightarrow> Inl (ProviderError PARSE_ERROR (what @ '' not valid JSON: '' @ e))
   | Inr v \<Rightarrow> finish_completion what key_in key_out pid latency sc v ans)"

definition parse_responses_body :: "'w llm_env \<Rightarrow> string \<Rightarrow> int \<Rightarrow> 'o out_schema \<Rightarrow> (string \<times> json) list \<Rightarrow>
    'o completion res" where
  "parse_responses_body env pid latency sc ans = (case get_or_null ans ''output'' of
     JList (b # bs) \<Rightarrow> (case first_of_type ''function_call'' (b # bs) of
         None \<Rightarrow> schema_violation ''model did not return a function_call; cannot extract structured output''
       | Some d \<Rightarrow> if get_or_null d ''name'' \<noteq> JStr (tool_name sc)
           then schema_violation (''unexpected function_call name: got '' @ le_repr env (get_or_null d ''name'') @
             '', expected '' @ le_repr env (JStr (tool_name sc)))
           else (case get_or_null d ''arguments'' of
               JStr s \<Rightarrow> finish_arguments env ''function_call arguments'' ''input_tokens'' ''output_tokens'' pid latency sc s ans
             | _ \<Rightarrow> schema_violation ''function_call.arguments is not a JSON string''))
   | _ \<Rightarrow> schema_violation (''response missing '' @ in_quotes ''output'' @ '' array''))"

definition responses_url :: string where
  "responses_url = ''https://chatgpt.com/backend-api/codex/responses''"

definition codex_complete :: "'w llm_env \<Rightarrow> codex_cli \<Rightarrow> chat_message list \<Rightarrow> 'o out_schema \<Rightarrow> int \<Rightarrow> rat \<Rightarrow>
    ('w, 'o completion) eff" where
  "codex_complete env p ms sc max_tokens temperature =
     seq (load_codex_cli_cred (le_creds env) None (cx_codex_home p)) (\<lambda>oc.
     if_fresh env ''Codex CLI not logged in; ~/.codex/auth.json missing.'' ''Codex CLI'' (map_option OAuth_Credential oc) (\<lambda>c.
     exchange env (cx_timeout_s p) responses_url (codex_headers (access_token c) (account_id c))
       (codex_payload (cx_model p) ms sc max_tokens temperature)
       (\<lambda>latency. parse_responses_body env (codex_id p) latency sc)))"

definition codex_is_configured :: "'w llm_env \<Rightarrow> codex_cli \<Rightarrow> ('w, bool) eff" where
  "codex_is_configured env p = seq (load_codex_cli_cred (le_creds env) None (cx_codex_home p)) (\<lambda>oc. ret (oc \<noteq> None))"

section \<open>Any OpenAI-compatible endpoint\<close>

record openai_compat =
  oa_base_url :: string
  oa_api_key :: string
  oa_model :: string
  oa_timeout_s :: rat

definition rstrip_slash :: "string \<Rightarrow> string" where
  "rstrip_slash s = rev (dropWhile (\<lambda>c. c = CHR ''/'') (rev s))"

definition new_openai_compat :: "string \<Rightarrow> string \<Rightarrow> string \<Rightarrow> rat \<Rightarrow> openai_compat res" where
  "new_openai_compat base_url api_key model timeout =
     (if base_url = [] \<or> api_key = [] \<or> model = [] then Inl ValueError
      else Inr \<lparr>oa_base_url = rstrip_slash base_url, oa_api_key = api_key, oa_model = model, oa_timeout_s = timeout\<rparr>)"

definition compat_id :: "openai_compat \<Rightarrow> string" where
  "compat_id p = ''openai-compat/'' @ oa_model p"

definition compat_tool :: "'o out_schema \<Rightarrow> json" where
  "compat_tool sc = JObj [(''type'', JStr ''function''), (''function'', JObj [(''name'', JStr (tool_name sc)),
     (''description'', JStr (tool_description sc)), (''parameters'', parameters_of sc)])]"

definition compat_payload :: "string \<Rightarrow> chat_message list \<Rightarrow> 'o out_schema \<Rightarrow> int \<Rightarrow> rat \<Rightarrow> json" where
  "compat_payload model ms sc max_tokens temperature = JObj [(''model'', JStr model),
     (''messages'', JList (map message_item ms)), (''max_tokens'', JInt max_tokens),
     (''temperature'', JFloat temperature), (''tools'', JList [compat_tool sc]),
     (''tool_choice'', JObj [(''type'', JStr ''function''),
        (''function'', JObj [(''name'', JStr (tool_name sc))])])]"

definition parse_tool_call_response :: "'w llm_env \<Rightarrow> string \<Rightarrow> int \<Rightarrow> 'o out_schema \<Rightarrow> (string \<times> json) list \<Rightarrow>
    'o completion res" where
  "parse_tool_call_response env pid latency sc ans = (case get_or_null ans ''choices'' of
     JList (c # cs) \<Rightarrow> (case c of
       JObj first \<Rightarrow> (case get_or_null first ''message'' of
         JObj message \<Rightarrow> (case get_or_null message ''tool_calls'' of
           JList (t # ts) \<Rightarrow> (case t of
             JObj first_call \<Rightarrow> (case get_or_null first_call ''function'' of
               JObj function \<Rightarrow> (case get_or_null function ''arguments'' of
                 JStr s \<Rightarrow> finish_arguments env ''tool_call arguments'' ''prompt_tokens'' ''completion_tokens'' pid latency sc s ans
               | _ \<Rightarrow> schema_violation ''tool_calls[0].function.arguments is not a string'')
             | _ \<Rightarrow> schema_violation ''tool_calls[0].function missing'')
           | _ \<Rightarrow> schema_violation ''tool_calls[0] is not an object'')
         | _ \<Rightarrow> schema_violation ''model did not return a tool_call; cannot extract structured output'')
       | _ \<Rightarrow> schema_violation ''choices[0].message missing'')
     | _ \<Rightarrow> schema_violation ''choices[0] is not an object'')
   | _ \<Rightarrow> schema_violation (''response missing '' @ in_quotes ''choices'' @ '' array''))"

definition compat_complete :: "'w llm_env \<Rightarrow> openai_compat \<Rightarrow> chat_message list \<Rightarrow> 'o out_schema \<Rightarrow> int \<Rightarrow> rat \<Rightarrow>
    ('w, 'o completion) eff" where
  "compat_complete env p ms sc max_tokens temperature =
     exchange env (oa_timeout_s p) (oa_base_url p @ ''/chat/completions'')
       [(''Authorization'', ''Bearer '' @ oa_api_key p), (''Content-Type'', ''application/json'')]
       (compat_payload (oa_model p) ms sc max_tokens temperature)
       (\<lambda>latency. parse_tool_call_response env (compat_id p) latency sc)"

section \<open>The three of them\<close>

datatype provider = Anthropic_CLI anthropic_cli | Codex_CLI codex_cli | OpenAI_Compat openai_compat

fun provider_id :: "provider \<Rightarrow> string" where
  "provider_id (Anthropic_CLI p) = anthropic_id p"
| "provider_id (Codex_CLI p) = codex_id p"
| "provider_id (OpenAI_Compat p) = compat_id p"

fun provider_complete :: "'w llm_env \<Rightarrow> provider \<Rightarrow> chat_message list \<Rightarrow> 'o out_schema \<Rightarrow> int \<Rightarrow> rat \<Rightarrow>
    ('w, 'o completion) eff" where
  "provider_complete env (Anthropic_CLI p) = anthropic_complete env p"
| "provider_complete env (Codex_CLI p) = codex_complete env p"
| "provider_complete env (OpenAI_Compat p) = compat_complete env p"

end
