(* ===== verification/Llm_Agents.thy ===== *)
theory Llm_Agents
  imports Providers Polymarket_Gamma Cycle_Runner
begin

text \<open>
  The fallback chain over providers (\<open>providers/registry.py\<close>), the prompts (\<open>agents/prompts/\<close>), the
  agents backed by a language model (\<open>agents/base\_llm\_agent.py\<close> and its six subclasses), and the
  runner of a cycle with these agents. The dump of a payload as JSON, the schemas, and the longer
  texts of the prompts, some of whose characters are above 255, are fields of a record.
\<close>

section \<open>The registry of providers\<close>

record 'p registry =
  rg_providers :: "'p list"
  rg_last :: nat

definition new_registry :: "'p list \<Rightarrow> 'p registry res" where
  "new_registry ps = (if ps = [] then Inl ValueError else Inr \<lparr>rg_providers = ps, rg_last = 0\<rparr>)"

definition provider_ids :: "provider registry \<Rightarrow> string list" where
  "provider_ids r = map provider_id (rg_providers r)"

definition last_successful_provider_id :: "provider registry \<Rightarrow> string" where
  "last_successful_provider_id r = provider_id (rg_providers r ! rg_last r)"

definition ordered_indices :: "'p registry \<Rightarrow> nat list" where
  "ordered_indices r = rg_last r # filter (\<lambda>i. i \<noteq> rg_last r) [0..<length (rg_providers r)]"

definition is_provider_error :: "py_exn \<Rightarrow> bool" where
  "is_provider_error e = (case e of ProviderError c t \<Rightarrow> True | _ \<Rightarrow> False)"

text \<open>The loop of \<open>complete\<close>; \<open>ask\<close> is the call of one provider and \<open>err\<close> the last error. The registry is
  shared by its users: its state is part of the world.\<close>

fun try_providers :: "('p \<Rightarrow> ('w, 'r) eff) \<Rightarrow> py_exn option \<Rightarrow> nat list \<Rightarrow> ('p registry \<times> 'w, 'r) eff" where
  "try_providers ask err [] = raise (case err of None \<Rightarrow> OtherError ''AssertionError'' | Some e \<Rightarrow> e)"
| "try_providers ask err (i # is) = (\<lambda>(r, w). case ask (rg_providers r ! i) w of
     (Inr x, w') \<Rightarrow> (Inr x, (r\<lparr>rg_last := i\<rparr>, w'))
   | (Inl e, w') \<Rightarrow> if is_provider_error e then try_providers ask (Some e) is (r, w') else (Inl e, (r, w')))"

definition registry_complete :: "('p \<Rightarrow> ('w, 'r) eff) \<Rightarrow> ('p registry \<times> 'w, 'r) eff" where
  "registry_complete ask = seq (gets (\<lambda>(r, w). ordered_indices r)) (try_providers ask None)"

section \<open>Prompts\<close>

text \<open>\<open>f"{d:.2f}"\<close> of a decimal that is not negative.\<close>

definition dec_fmt_2f :: "decimal \<Rightarrow> string" where
  "dec_fmt_2f d = (let k = expo d + 2;
       n = nat (if 0 \<le> k then coeff d * 10 ^ nat k else half_even (coeff d) (10 ^ nat (- k)))
     in nat_str (n div 100) @ ''.'' @ nat_str (n div 10 mod 10) @ nat_str (n mod 10))"

definition text_or :: "string option \<Rightarrow> string \<Rightarrow> string" where
  "text_or t s = (case t of None \<Rightarrow> s | Some x \<Rightarrow> if x = [] then s else x)"

definition outcome_text :: "polymarket_outcome \<Rightarrow> string" where
  "outcome_text x = po_label x @ ''='' @ (case po_midpoint x of None \<Rightarrow> ''?'' | Some d \<Rightarrow> dec_fmt_2f d)"

definition signal_line :: "string \<Rightarrow> polymarket_signal \<Rightarrow> string" where
  "signal_line dash s = (let slug = text_or (ps_slug s) (ps_market_id s);
       rest = '' '' @ dash @ '' '' @ text_or (ps_question s) ''(no question)'';
       yes = (if ps_is_binary s then find (\<lambda>x. casefold (po_label x) = ''yes'') (ps_outcomes s) else None)
     in case Option.bind yes po_midpoint of
          Some d \<Rightarrow> ''- '' @ slug @ '': P(Yes)='' @ dec_fmt_2f d @ rest
        | None \<Rightarrow> ''- '' @ slug @ '': '' @ join '', '' (map outcome_text (ps_outcomes s)) @ rest)"

definition newline :: string where
  "newline = [CHR 0x0A]"

definition format_polymarket_block :: "string \<Rightarrow> polymarket_signal list \<Rightarrow> string" where
  "format_polymarket_block dash ss = (if ss = [] then []
     else join newline (''Polymarket implied probabilities (live snapshot):'' # map (signal_line dash) ss))"

definition system_template :: "string \<Rightarrow> string \<Rightarrow> string \<Rightarrow> string \<Rightarrow> string \<Rightarrow> string" where
  "system_template role brief guardrails tool description = join newline
     [''You are the '' @ role @ '' agent in a quantitative-research orchestrator.'', [],
      ''Role: '' @ brief, [], guardrails, [],
      ''Task: emit exactly one structured output by calling the'',
      CHR 0x22 # tool @ CHR 0x22 # '' tool. '' @ description, [],
      ''Do not emit free text. Do not call other tools unless this prompt'',
      ''explicitly lists them. Call '' @ CHR 0x22 # tool @ CHR 0x22 # '' exactly once and stop.'', []]"

definition build_agent_system_prompt :: "string \<Rightarrow> string \<Rightarrow> string \<Rightarrow> string \<Rightarrow> string \<Rightarrow> string res" where
  "build_agent_system_prompt guardrails role brief tool description =
     (if py_strip role = [] \<or> py_strip brief = [] \<or> py_strip tool = [] \<or> py_strip description = [] then Inl ValueError
      else Inr (system_template (py_strip role) (py_strip brief) (py_strip guardrails) (py_strip tool) (py_strip description)))"

section \<open>An agent\<close>

record ('i, 'o) llm_agent =
  la_name :: string
  la_role :: string
  la_role_brief :: string
  la_emit_description :: string
  la_schema :: "'o out_schema"
  la_user_message :: "'i \<Rightarrow> string"

record agent_config =
  lc_max_output_tokens :: int
  lc_temperature :: rat
  lc_parent_run_id :: "string option"

definition default_config :: agent_config where
  "default_config = \<lparr>lc_max_output_tokens = 2048, lc_temperature = 0, lc_parent_run_id = None\<rparr>"

text \<open>The provider of an agent, called with the agent's messages; and its attribute \<open>provider\_id\<close>, which
  the registry does not have.\<close>

record ('v, 'o) backend =
  bk_complete :: "chat_message list \<Rightarrow> 'o out_schema \<Rightarrow> int \<Rightarrow> rat \<Rightarrow> ('v, 'o completion) eff"
  bk_provider_id :: "string res"

definition single_backend :: "'w llm_env \<Rightarrow> provider \<Rightarrow> ('w, 'o) backend" where
  "single_backend env p = \<lparr>bk_complete = provider_complete env p, bk_provider_id = Inr (provider_id p)\<rparr>"

definition chain_backend :: "'w llm_env \<Rightarrow> (provider registry \<times> 'w, 'o) backend" where
  "chain_backend env = \<lparr>bk_complete = (\<lambda>ms sc n t. registry_complete (\<lambda>p. provider_complete env p ms sc n t)),
     bk_provider_id = Inl AttributeError\<rparr>"

fun provider_error_name :: "provider_error \<Rightarrow> string" where
  "provider_error_name PROVIDER_ERROR = ''ProviderError''"
| "provider_error_name AUTH_ERROR = ''AuthError''"
| "provider_error_name RATE_LIMIT_ERROR = ''RateLimitError''"
| "provider_error_name NETWORK_ERROR = ''NetworkError''"
| "provider_error_name PARSE_ERROR = ''ParseError''"
| "provider_error_name SCHEMA_VIOLATION_ERROR = ''SchemaViolationError''"

definition agent_run_metadata :: "'v env \<Rightarrow> agent_config \<Rightarrow> string \<Rightarrow> string \<Rightarrow> provider_usage \<Rightarrow> ('v, run_metadata) eff" where
  "agent_run_metadata env cfg name pid u =
     seq (call (env_token_hex env)) (\<lambda>rid.
     seq (call (env_now env)) (\<lambda>now.
     lift_res (validate_metadata \<lparr>md_run_id = rid, md_parent_id = lc_parent_run_id cfg, md_agent_name = name,
       md_model_id = pid, md_created_at = Aware now, md_llm_cost_usd = us_cost_usd u,
       md_latency_ms = us_latency_ms u, md_token_in = us_token_in u, md_token_out = us_token_out u\<rparr>)))"

definition no_usage :: provider_usage where
  "no_usage = \<lparr>us_token_in = 0, us_token_out = 0, us_latency_ms = 0, us_cost_usd = Dec 0 0\<rparr>"

definition agent_messages :: "string \<Rightarrow> ('i, 'o) llm_agent \<Rightarrow> 'i \<Rightarrow> chat_message list res" where
  "agent_messages guardrails ag payload =
     bind_res (build_agent_system_prompt guardrails (la_role ag) (la_role_brief ag) (tool_name (la_schema ag))
       (la_emit_description ag)) (\<lambda>prompt.
     bind_res (new_message ROLE_SYSTEM prompt) (\<lambda>m1.
     bind_res (new_message ROLE_USER (la_user_message ag payload)) (\<lambda>m2. Inr [m1, m2])))"

definition agent_run :: "'v env \<Rightarrow> string \<Rightarrow> agent_config \<Rightarrow> ('v, 'o) backend \<Rightarrow> ('i, 'o) llm_agent \<Rightarrow>
    ('i, 'o, 'v) agent" where
  "agent_run env guardrails cfg bk ag payload =
     seq (lift_res (agent_messages guardrails ag payload)) (\<lambda>ms.
     seq (try_except (bk_complete bk ms (la_schema ag) (lc_max_output_tokens cfg) (lc_temperature cfg))) (\<lambda>r. case r of
       Inr c \<Rightarrow> seq (agent_run_metadata env cfg (la_name ag) (co_provider_id c) (co_usage c)) (\<lambda>m.
         ret \<lparr>ag_output = Some (co_output c), ag_error = None, ag_metadata = m\<rparr>)
     | Inl (ProviderError k s) \<Rightarrow> seq (lift_res (bk_provider_id bk)) (\<lambda>pid.
         seq (agent_run_metadata env cfg (la_name ag) pid no_usage) (\<lambda>m.
         ret \<lparr>ag_output = None, ag_error = Some (provider_error_name k @ '': '' @ s), ag_metadata = m\<rparr>))
     | Inl e \<Rightarrow> raise e))"

section \<open>The six agents\<close>

record agent_texts =
  at_brief :: string
  at_description :: string

record ('i, 'o) agent_types =
  ty_dump :: "'i \<Rightarrow> string"
  ty_schema :: "'o out_schema"

definition json_agent :: "string \<Rightarrow> agent_texts \<Rightarrow> ('i, 'o) agent_types \<Rightarrow> ('i, 'o) llm_agent" where
  "json_agent name tx ty = \<lparr>la_name = name, la_role = name, la_role_brief = at_brief tx,
     la_emit_description = at_description tx, la_schema = ty_schema ty, la_user_message = ty_dump ty\<rparr>"

definition with_signals :: "string \<Rightarrow> ('i \<Rightarrow> string) \<Rightarrow> ('i \<Rightarrow> polymarket_signal list) \<Rightarrow> 'i \<Rightarrow> string" where
  "with_signals dash dump signals x = (let block = format_polymarket_block dash (signals x) in
     if block = [] then dump x else dump x @ newline @ newline @ block)"

definition observer_agent :: "string \<Rightarrow> agent_texts \<Rightarrow> (observer_input, observer_artifact) agent_types \<Rightarrow>
    (observer_input, observer_artifact) llm_agent" where
  "observer_agent dash tx ty = (json_agent ''observer'' tx ty)
     \<lparr>la_user_message := with_signals dash (ty_dump ty) oi_signals\<rparr>"

definition hypothesis_agent :: "string \<Rightarrow> agent_texts \<Rightarrow> (observer_artifact, hypothesis_card) agent_types \<Rightarrow>
    (observer_artifact, hypothesis_card) llm_agent" where
  "hypothesis_agent dash tx ty = (json_agent ''hypothesis'' tx ty)
     \<lparr>la_user_message := with_signals dash (ty_dump ty) oa_signals\<rparr>"

definition skeptic_agent :: "agent_texts \<Rightarrow> (hypothesis_card, skeptic_report) agent_types \<Rightarrow>
    (hypothesis_card, skeptic_report) llm_agent" where
  "skeptic_agent = json_agent ''skeptic''"

definition research_agent :: "agent_texts \<Rightarrow> (research_input, research_plan) agent_types \<Rightarrow>
    (research_input, research_plan) llm_agent" where
  "research_agent = json_agent ''research''"

definition auditor_agent :: "agent_texts \<Rightarrow> (auditor_input, audit_report) agent_types \<Rightarrow>
    (auditor_input, audit_report) llm_agent" where
  "auditor_agent = json_agent ''auditor''"

definition decider_agent :: "agent_texts \<Rightarrow> (decider_input, strategy_decision) agent_types \<Rightarrow>
    (decider_input, strategy_decision) llm_agent" where
  "decider_agent = json_agent ''decider''"

end
