(* ===== verification/Llm_Laws.thy ===== *)
theory Llm_Laws
  imports Llm_Agents
begin

text \<open>
  What the providers promise: a loaded credential is valid, the subscription providers send exactly
  the one request they describe and only under a login that is fresh, whatever goes wrong in an
  exchange is a provider error, and the registry asks every provider at most once, the warm one
  first.
\<close>

section \<open>Credentials\<close>

lemma claude_credential_ok: "claude_credential d = Inr (Some c) \<Longrightarrow> credential_ok c"
  by (auto simp: claude_credential_def new_oauth_def new_token_def bind_res_Inr_iff Let_def
      split: option.splits if_splits)

lemma parse_claude_ok: "parse_claude_payload v = Inr (Some c) \<Longrightarrow> credential_ok c"
  by (auto simp: parse_claude_payload_def claude_credential_ok split: json.splits)

lemma parse_codex_ok: "parse_codex_payload lib v w = (Inr (Some c), w') \<Longrightarrow> oauth_ok c"
  by (auto simp: parse_codex_payload_def new_oauth_def bind_res_def seq_apply
      split: json.splits option.splits prod.splits sum.splits)

lemma from_file_ok:
  assumes "from_file lib path parse w = (Inr (Some c), w')"
    and "\<And>v w. parse v w = (Inr (Some c), w') \<Longrightarrow> P c"
  shows "P c"
  using assms by (auto simp: from_file_def read_json_file_def seq_apply split: if_splits)

lemma load_claude_ok:
  assumes "load_claude_cli_cred lib rd h w = (Inr (Some c), w')"
  shows "credential_ok c"
proof -
  consider (disk) "from_file lib (claude_cli_creds_path lib h) (\<lambda>v. lift_res (parse_claude_payload v)) w = (Inr (Some c), w')"
    | (keychain) v where "parse_claude_payload v = Inr (Some c)"
    using assms by (auto simp: load_claude_cli_cred_def seq_apply split: prod.splits sum.splits option.splits)
  then show ?thesis
    by cases (auto elim!: from_file_ok intro: parse_claude_ok)
qed

lemma load_codex_ok:
  assumes "load_codex_cli_cred lib rd h w = (Inr (Some c), w')"
  shows "oauth_ok c"
proof -
  consider (disk) path w1 where "from_file lib path (parse_codex_payload lib) w1 = (Inr (Some c), w')"
    | (keychain) v w1 where "parse_codex_payload lib v w1 = (Inr (Some c), w')"
    using assms by (auto simp: load_codex_cli_cred_def seq_apply split: prod.splits sum.splits option.splits)
  then show ?thesis
    by cases (auto elim!: from_file_ok intro: parse_codex_ok)
qed

text \<open>The login of a provider that has one.\<close>

fun load_login :: "'w cred_lib \<Rightarrow> provider \<Rightarrow> ('w, cli_credential option) eff" where
  "load_login lib (Anthropic_CLI p) = load_claude_cli_cred lib None (ac_home_dir p)"
| "load_login lib (Codex_CLI p) = seq (load_codex_cli_cred lib None (cx_codex_home p)) (\<lambda>c. ret (map_option OAuth_Credential c))"
| "load_login lib (OpenAI_Compat p) = ret None"

lemma load_login_ok: "load_login lib p w = (Inr (Some c), w') \<Longrightarrow> credential_ok c"
  by (cases p) (auto simp: seq_apply load_claude_ok dest: load_codex_ok split: prod.splits sum.splits)

section \<open>Beside another state\<close>

text \<open>An effect on the world, beside a record of the requests.\<close>

definition beside :: "('w, 'a) eff \<Rightarrow> ('w \<times> 't, 'a) eff" where
  "beside m = (\<lambda>(w, tape). case m w of (r, w') \<Rightarrow> (r, (w', tape)))"

lemma beside_apply: "beside m (w, tape) = (fst (m w), (snd (m w), tape))"
  by (simp add: beside_def split: prod.splits)

lemma beside_ret: "beside (ret x) = ret x"
  by (auto simp: beside_apply)

lemma beside_raise: "beside (raise e) = raise e"
  by (auto simp: beside_apply)

lemma beside_lift_res: "beside (lift_res r) = lift_res r"
  by (auto simp: beside_apply)

lemma beside_seq: "beside (seq m f) = seq (beside m) (\<lambda>x. beside (f x))"
  by (auto simp: beside_apply seq_apply fun_eq_iff split: prod.splits sum.splits)

lemmas beside_simps = beside_ret beside_raise beside_lift_res beside_seq

definition beside_call :: "('w \<Rightarrow> 'a \<times> 'w) \<Rightarrow> 'w \<times> 't \<Rightarrow> 'a \<times> 'w \<times> 't" where
  "beside_call f = (\<lambda>(w, tape). case f w of (x, w') \<Rightarrow> (x, (w', tape)))"

lemma beside_of_call: "call (beside_call f) = beside (call f)"
  by (auto simp: beside_apply beside_call_def fun_eq_iff split: prod.splits)

lemma beside_of_gets: "gets (\<lambda>(w, tape). f w) = beside (gets f)"
  by (auto simp: beside_apply fun_eq_iff)

definition beside_lib :: "'w cred_lib \<Rightarrow> ('w \<times> 't) cred_lib" where
  "beside_lib lib = \<lparr>cl_home = cl_home lib, cl_codex_home = (\<lambda>(w, tape). cl_codex_home lib w),
     cl_expanduser = cl_expanduser lib, cl_is_file = (\<lambda>f (w, tape). cl_is_file lib f w),
     cl_read_text = (\<lambda>f (w, tape). cl_read_text lib f w), cl_loads = cl_loads lib,
     cl_b64_loads = cl_b64_loads lib, cl_sha256_hex = cl_sha256_hex lib, cl_timestamp = cl_timestamp lib,
     cl_isoformat = cl_isoformat lib, cl_time = beside_call (cl_time lib), cl_platform = cl_platform lib,
     cl_run = (\<lambda>args. beside_call (cl_run lib args))\<rparr>"

lemma beside_lib_simps:
  "cl_home (beside_lib lib) = cl_home lib" "cl_codex_home (beside_lib lib) = (\<lambda>(w, tape). cl_codex_home lib w)"
  "cl_expanduser (beside_lib lib) = cl_expanduser lib" "cl_is_file (beside_lib lib) = (\<lambda>f (w, tape). cl_is_file lib f w)"
  "cl_read_text (beside_lib lib) = (\<lambda>f (w, tape). cl_read_text lib f w)" "cl_loads (beside_lib lib) = cl_loads lib"
  "cl_b64_loads (beside_lib lib) = cl_b64_loads lib" "cl_sha256_hex (beside_lib lib) = cl_sha256_hex lib"
  "cl_timestamp (beside_lib lib) = cl_timestamp lib" "cl_time (beside_lib lib) = beside_call (cl_time lib)"
  "cl_platform (beside_lib lib) = cl_platform lib" "cl_run (beside_lib lib) = (\<lambda>args. beside_call (cl_run lib args))"
  by (simp_all add: beside_lib_def)

lemma beside_real_reader: "real_keychain_reader (beside_lib lib) s a = beside_call (real_keychain_reader lib s a)"
  by (auto simp: real_keychain_reader_def beside_lib_simps beside_call_def fun_eq_iff split: prod.splits command_outcome.splits)

lemma beside_keychain: "load_keychain_json (beside_lib lib) None s a = beside (load_keychain_json lib None s a)"
  unfolding load_keychain_json_def option.case beside_real_reader beside_of_call beside_lib_simps
  by (simp add: beside_simps)

lemma beside_read_json: "read_json_file (beside_lib lib) f = beside (read_json_file lib f)"
  unfolding read_json_file_def beside_lib_simps by (auto simp: beside_apply fun_eq_iff)

lemma beside_from_file:
  assumes "\<And>v. parse' v = beside (parse v)"
  shows "from_file (beside_lib lib) f parse' = beside (from_file lib f parse)"
  by (auto simp: from_file_def assms beside_apply beside_read_json seq_apply fun_eq_iff beside_lib_simps
      split: prod.splits sum.splits)

lemma beside_jwt: "decode_jwt_exp_ms (beside_lib lib) = decode_jwt_exp_ms lib"
  unfolding decode_jwt_exp_ms_def beside_lib_simps by (rule refl)

lemma beside_last_refresh: "last_refresh_ms (beside_lib lib) v = last_refresh_ms lib v"
  by (cases v) (simp_all add: beside_lib_simps)

lemma beside_expiry: "resolve_codex_expiry_ms (beside_lib lib) t v = beside (resolve_codex_expiry_ms lib t v)"
  by (simp add: resolve_codex_expiry_ms_def beside_jwt beside_last_refresh beside_simps split: option.splits)
    (simp add: beside_lib_simps beside_of_call)

lemma beside_parse_codex: "parse_codex_payload (beside_lib lib) v = beside (parse_codex_payload lib v)"
  by (simp add: parse_codex_payload_def beside_expiry beside_simps split: json.splits option.splits)

lemma beside_codex_home: "resolve_codex_home (beside_lib lib) h = beside (resolve_codex_home lib h)"
  by (auto simp: resolve_codex_home_def beside_apply fun_eq_iff seq_apply beside_lib_simps split: option.splits)

lemma beside_codex_path: "codex_cli_creds_path (beside_lib lib) h = beside (codex_cli_creds_path lib h)"
  by (auto simp: codex_cli_creds_path_def beside_apply fun_eq_iff seq_apply beside_lib_simps split: option.splits)

lemma beside_case_option:
  "beside (case c of None \<Rightarrow> m | Some x \<Rightarrow> f x) = (case c of None \<Rightarrow> beside m | Some x \<Rightarrow> beside (f x))"
  by (cases c) simp_all

lemma beside_parser: "parse_codex_payload (beside_lib lib) = (\<lambda>v. beside (parse_codex_payload lib v))"
  by (rule ext) (rule beside_parse_codex)

lemma beside_load_claude: "load_claude_cli_cred (beside_lib lib) None h = beside (load_claude_cli_cred lib None h)"
proof -
  have p: "claude_cli_creds_path (beside_lib lib) h = claude_cli_creds_path lib h"
    unfolding claude_cli_creds_path_def beside_lib_simps by (rule refl)
  show ?thesis
    unfolding load_claude_cli_cred_def p beside_keychain
      beside_from_file [of "\<lambda>v. lift_res (parse_claude_payload v)" "\<lambda>v. lift_res (parse_claude_payload v)", OF beside_lift_res [symmetric]]
    by (simp add: beside_simps beside_case_option cong: option.case_cong)
qed

lemma beside_load_codex: "load_codex_cli_cred (beside_lib lib) None h = beside (load_codex_cli_cred lib None h)"
proof -
  have a: "codex_keychain_account (beside_lib lib) = codex_keychain_account lib"
    by (simp add: codex_keychain_account_def beside_lib_simps fun_eq_iff)
  show ?thesis
    unfolding load_codex_cli_cred_def beside_codex_path beside_codex_home a beside_keychain
      beside_parser beside_from_file [of "\<lambda>v. beside (parse_codex_payload lib v)" "parse_codex_payload lib" for lib, OF refl]
    by (simp add: beside_simps beside_case_option cong: option.case_cong)
qed

lemma beside_load_login: "load_login (beside_lib lib) p = beside (load_login lib p)"
  by (cases p) (simp_all add: beside_load_claude beside_load_codex beside_simps)

section \<open>The request of a provider\<close>

type_synonym sent_request = "string \<times> headers \<times> json"

text \<open>The environment, with the requests recorded.\<close>

definition logged_env :: "'w llm_env \<Rightarrow> ('w \<times> sent_request list) llm_env" where
  "logged_env env = \<lparr>le_creds = beside_lib (le_creds env),
     le_post = (\<lambda>url hs v (w, sent). case le_post env url hs v w of (r, w') \<Rightarrow> (r, (w', sent @ [(url, hs, v)]))),
     le_monotonic = beside_call (le_monotonic env), le_loads = le_loads env,
     le_float_str = le_float_str env, le_repr = le_repr env\<rparr>"

fun request_of :: "provider \<Rightarrow> cli_credential \<Rightarrow> chat_message list \<Rightarrow> 'o out_schema \<Rightarrow> int \<Rightarrow> rat \<Rightarrow> sent_request" where
  "request_of (Anthropic_CLI p) c ms sc n t = (messages_url, anthropic_headers (access_token c),
     anthropic_payload (ac_model p) ms sc n t)"
| "request_of (Codex_CLI p) c ms sc n t = (responses_url, codex_headers (access_token c) (account_id c),
     codex_payload (cx_model p) ms sc n t)"
| "request_of (OpenAI_Compat p) c ms sc n t = (oa_base_url p @ ''/chat/completions'',
     [(''Authorization'', ''Bearer '' @ oa_api_key p), (''Content-Type'', ''application/json'')],
     compat_payload (oa_model p) ms sc n t)"

fun is_subscription :: "provider \<Rightarrow> bool" where
  "is_subscription (OpenAI_Compat p) = False"
| "is_subscription p = True"

lemma exchange_logged:
  "exchange (logged_env env) timeout u h v parse (w, sent) = (r, w', sent') \<Longrightarrow> sent' = sent @ [(u, h, v)]"
  by (auto simp: exchange_def timed_post_def logged_env_def beside_call_def seq_apply
      split: prod.splits sum.splits post_outcome.splits)

definition fresh_at :: "'w cred_lib \<Rightarrow> 'w \<Rightarrow> cli_credential \<Rightarrow> bool" where
  "fresh_at lib w c \<longleftrightarrow> millis (fst (cl_time lib w)) + 60 * 1000 < expires_at_ms c"

lemma if_fresh_logged:
  assumes "if_fresh (logged_env env) a b oc f (w, sent) = (r, w', sent')"
  obtains (stale) "sent' = sent" "\<not> is_ok r"
    | (sent) c w2 where "oc = Some c" "fresh_at (le_creds env) w c" "f c (w2, sent) = (r, w', sent')"
  using assms
  by (auto simp: if_fresh_def is_cred_fresh_def logged_env_def beside_lib_simps beside_call_def seq_apply
      fresh_at_def default_expiry_skew_def split: option.splits prod.splits if_splits)

lemma subscription_logged:
  assumes "seq (load_login (le_creds (logged_env env)) p) (\<lambda>oc. if_fresh (logged_env env) a b oc (\<lambda>c.
      exchange (logged_env env) timeout (u c) (h c) (v c) parse)) (w, []) = (r, w', sent)"
  shows "sent = [] \<and> \<not> is_ok r \<or> (\<exists>c w1. load_login (le_creds env) p w = (Inr (Some c), w1) \<and>
    fresh_at (le_creds env) w1 c \<and> sent = [(u c, h c, v c)])"
proof -
  have lib: "le_creds (logged_env env) = beside_lib (le_creds env)" by (simp add: logged_env_def)
  obtain lr w1 where l: "load_login (le_creds env) p w = (lr, w1)" by (cases "load_login (le_creds env) p w")
  show ?thesis
  proof (cases lr)
    case (Inl e)
    with assms l show ?thesis by (auto simp: lib beside_load_login beside_apply seq_apply)
  next
    case (Inr oc)
    with assms l have f: "if_fresh (logged_env env) a b oc (\<lambda>c. exchange (logged_env env) timeout (u c) (h c) (v c) parse)
        (w1, []) = (r, w', sent)"
      by (simp add: lib beside_load_login beside_apply seq_apply)
    show ?thesis by (rule if_fresh_logged [OF f]) (use l Inr in \<open>auto dest: exchange_logged\<close>)
  qed
qed

lemma ret_seq: "seq (ret x) f = f x"
  by (simp add: seq_apply fun_eq_iff)

lemma subscription_complete:
  assumes "is_subscription p"
  obtains a b timeout parse where "\<And>env ms sc n t. provider_complete env p ms sc n t =
    seq (load_login (le_creds env) p) (\<lambda>oc. if_fresh env a b oc (\<lambda>c. exchange env timeout
      (fst (request_of p c ms sc n t)) (fst (snd (request_of p c ms sc n t))) (snd (snd (request_of p c ms sc n t)))
      (parse env sc)))"
proof (cases p)
  case (Anthropic_CLI q)
  show ?thesis
    by (rule that [of "''Claude CLI not logged in; ~/.claude/.credentials.json missing.''" "''Claude CLI''" "ac_timeout_s q"
          "\<lambda>env sc latency. parse_messages_response env (anthropic_id q) latency sc"])
      (simp add: Anthropic_CLI anthropic_complete_def)
next
  case (Codex_CLI q)
  show ?thesis
    by (rule that [of "''Codex CLI not logged in; ~/.codex/auth.json missing.''" "''Codex CLI''" "cx_timeout_s q"
          "\<lambda>env sc latency. parse_responses_body env (codex_id q) latency sc"])
      (simp add: Codex_CLI codex_complete_def seq_assoc ret_seq)
next
  case (OpenAI_Compat q)
  with assms show ?thesis by simp
qed

lemma provider_logged:
  fixes env :: "'w llm_env" and sc :: "'o out_schema"
  assumes "is_subscription p" and "provider_complete (logged_env env) p ms sc n t (w, []) = (r, w', sent)"
  shows "sent = [] \<and> \<not> is_ok r \<or> (\<exists>c w1. load_login (le_creds env) p w = (Inr (Some c), w1) \<and>
    credential_ok c \<and> fresh_at (le_creds env) w1 c \<and> sent = [request_of p c ms sc n t])"
proof (rule subscription_complete [OF assms(1)])
  fix a b timeout parse
  assume eq: "\<And>(env :: ('w \<times> sent_request list) llm_env) ms (sc :: 'o out_schema) n t. provider_complete env p ms sc n t =
    seq (load_login (le_creds env) p) (\<lambda>oc. if_fresh env a b oc (\<lambda>c. exchange env timeout
      (fst (request_of p c ms sc n t)) (fst (snd (request_of p c ms sc n t))) (snd (snd (request_of p c ms sc n t)))
      (parse env sc)))"
  from subscription_logged [OF assms(2) [unfolded eq]] show ?thesis
    by (auto dest: load_login_ok)
qed

section \<open>The registry\<close>

definition registry_ok :: "'p registry \<Rightarrow> bool" where
  "registry_ok r \<longleftrightarrow> rg_last r < length (rg_providers r)"

lemma new_registry_ok: "new_registry ps = Inr r \<Longrightarrow> registry_ok r"
  by (auto simp: new_registry_def registry_ok_def split: if_splits)

lemma ordered_indices_all:
  "registry_ok r \<Longrightarrow> distinct (ordered_indices r) \<and> set (ordered_indices r) = {..<length (rg_providers r)}"
  by (auto simp: ordered_indices_def registry_ok_def)

text \<open>The providers of a list were asked one after the other and each failed with a provider error; the
  last error, and the worlds before and after.\<close>

inductive fell_through :: "('p \<Rightarrow> ('w, 'r) eff) \<Rightarrow> 'p list \<Rightarrow> 'w \<Rightarrow> nat list \<Rightarrow> py_exn option \<Rightarrow> 'w \<Rightarrow> bool"
  for ask ps w where
  nobody: "fell_through ask ps w [] None w"
| one_more: "fell_through ask ps w is err w1 \<Longrightarrow> ask (ps ! i) w1 = (Inl e, w2) \<Longrightarrow> is_provider_error e \<Longrightarrow>
    fell_through ask ps w (is @ [i]) (Some e) w2"

inductive_simps fell_through_none: "fell_through ask ps w is None w1"

definition ends_with :: "('p \<Rightarrow> ('w, 'r) eff) \<Rightarrow> 'p registry \<Rightarrow> nat list \<Rightarrow> py_exn option \<Rightarrow> 'w \<Rightarrow>
    'r res \<Rightarrow> 'p registry \<Rightarrow> 'w \<Rightarrow> bool" where
  "ends_with ask r rest err w1 res r' w' \<longleftrightarrow> (case rest of
     [] \<Rightarrow> (\<exists>e. err = Some e \<and> res = Inl e) \<and> r' = r \<and> w' = w1
   | i # js \<Rightarrow> ask (rg_providers r ! i) w1 = (res, w') \<and> (case res of
         Inr x \<Rightarrow> r' = r\<lparr>rg_last := i\<rparr>
       | Inl e \<Rightarrow> \<not> is_provider_error e \<and> r' = r))"

lemma try_providers_cases:
  assumes "try_providers ask err0 is (r, w1) = (res, r', w')"
    and "fell_through ask (rg_providers r) w before err0 w1" and "before @ is \<noteq> []"
  shows "\<exists>tried rest err w2. before @ is = tried @ rest \<and> fell_through ask (rg_providers r) w tried err w2 \<and>
    ends_with ask r rest err w2 res r' w'"
  using assms
proof (induction "is" arbitrary: err0 w1 before)
  case Nil
  then obtain e where "err0 = Some e" by (cases err0) (auto simp: fell_through_none)
  with Nil have "before @ [] = before @ []" "fell_through ask (rg_providers r) w before err0 w1"
    "ends_with ask r [] err0 w1 res r' w'"
    by (auto simp: ends_with_def)
  then show ?case by blast
next
  case (Cons i js)
  obtain a w2 where a: "ask (rg_providers r ! i) w1 = (a, w2)" by (cases "ask (rg_providers r ! i) w1")
  show ?case
  proof (cases "\<exists>e. a = Inl e \<and> is_provider_error e")
    case True
    then obtain e where e: "a = Inl e" "is_provider_error e" by blast
    have run: "try_providers ask (Some e) js (r, w2) = (res, r', w')"
      using Cons.prems(1) a e by simp
    have "fell_through ask (rg_providers r) w (before @ [i]) (Some e) w2"
      by (rule one_more [OF Cons.prems(2) a [unfolded e(1)] e(2)])
    from Cons.IH [OF run this] show ?thesis by simp
  next
    case False
    with Cons.prems(1) a have "ends_with ask r (i # js) err0 w1 res r' w'"
      by (cases a) (auto simp: ends_with_def)
    with Cons.prems(2) show ?thesis by blast
  qed
qed

lemma registry_complete_cases:
  assumes "registry_complete ask (r, w) = (res, r', w')"
  shows "\<exists>tried rest err w1. ordered_indices r = tried @ rest \<and>
    fell_through ask (rg_providers r) w tried err w1 \<and> ends_with ask r rest err w1 res r' w'"
proof -
  have "try_providers ask None (ordered_indices r) (r, w) = (res, r', w')"
    using assms by (simp add: registry_complete_def seq_apply)
  from try_providers_cases [OF this nobody] show ?thesis by (simp add: ordered_indices_def)
qed

lemma ends_with_ok: "ends_with ask r rest err w1 res r' w' \<Longrightarrow> set rest \<subseteq> {..<length (rg_providers r)} \<Longrightarrow>
    registry_ok r \<Longrightarrow> registry_ok r' \<and> rg_providers r' = rg_providers r"
  by (auto simp: ends_with_def registry_ok_def split: list.splits sum.splits)

section \<open>Nothing but provider errors\<close>

text \<open>When the request is answered, or fails as HTTP requests fail, an exchange returns or fails with
  a provider error: the usage the answer reports must not be negative, nor the clock run
  backwards, for the bookkeeping refuses that with another exception.\<close>

definition counts_ok :: "http_answer \<Rightarrow> bool" where
  "counts_ok a \<longleftrightarrow> (\<forall>d u k. an_json a = Inr (JObj d) \<and> usage_of d = JObj u \<longrightarrow> 0 \<le> count_of u k)"

definition fine :: "('o \<Rightarrow> bool) \<Rightarrow> 'o res \<Rightarrow> bool" where
  "fine P r \<longleftrightarrow> (case r of Inr x \<Rightarrow> P x | Inl e \<Rightarrow> is_provider_error e)"

lemma fine_simps [simp]: "fine P (Inr x) \<longleftrightarrow> P x" "fine P (Inl e) \<longleftrightarrow> is_provider_error e"
  by (simp_all add: fine_def)

lemma provider_error_simps [simp]: "is_provider_error (ProviderError c t)"
  by (simp add: is_provider_error_def)

lemma schema_violation_fine [simp]: "fine P (schema_violation s)"
  by (simp add: schema_violation_def)

lemma fine_bind: "fine Q r \<Longrightarrow> (\<And>x. r = Inr x \<Longrightarrow> Q x \<Longrightarrow> fine P (f x)) \<Longrightarrow> fine P (bind_res r f)"
  by (cases r) simp_all

definition good_completion :: "string \<Rightarrow> 'o out_schema \<Rightarrow> 'o completion \<Rightarrow> bool" where
  "good_completion pid sc c \<longleftrightarrow> usage_ok (co_usage c) \<and> co_provider_id c = pid \<and>
     (\<exists>v. sc_validate sc v = Inr (co_output c))"

lemma finish_fine:
  assumes "\<forall>u k. usage_of d = JObj u \<longrightarrow> 0 \<le> count_of u k" and "0 \<le> latency" and "len_in 1 200 pid"
  shows "fine (good_completion pid sc) (finish_completion what ki ko pid latency sc v d)"
proof (cases "sc_validate sc v")
  case (Inl e)
  then show ?thesis by (simp add: finish_completion_def)
next
  case (Inr out)
  let ?u = "let counts = (case usage_of d of JObj d \<Rightarrow> (count_of d ki, count_of d ko) | _ \<Rightarrow> (0, 0))
     in \<lparr>us_token_in = fst counts, us_token_out = snd counts, us_latency_ms = latency, us_cost_usd = Dec 0 0\<rparr>"
  have "dec_ge0 (Dec 0 0)" by code_simp
  then have ok: "usage_ok ?u" using assms(1,2) by (auto simp: usage_ok_def split: json.splits)
  then have "build_usage ki ko (usage_of d) latency = Inr ?u"
    by (simp add: build_usage_def new_usage_def check_def Let_def split: json.splits)
  with Inr ok assms(3) show ?thesis
    by (auto simp: finish_completion_def new_completion_def check_def good_completion_def)
qed

lemma finish_arguments_fine:
  assumes "\<forall>u k. usage_of d = JObj u \<longrightarrow> 0 \<le> count_of u k" and "0 \<le> latency" and "len_in 1 200 pid"
  shows "fine (good_completion pid sc) (finish_arguments env what ki ko pid latency sc s d)"
  by (simp add: finish_arguments_def finish_fine [OF assms] split: sum.split)

lemma parsers_fine:
  assumes "\<forall>u k. usage_of d = JObj u \<longrightarrow> 0 \<le> count_of u k" and "0 \<le> latency" and "len_in 1 200 pid"
  shows "fine (good_completion pid sc) (parse_messages_response env pid latency sc d)"
    and "fine (good_completion pid sc) (parse_responses_body env pid latency sc d)"
    and "fine (good_completion pid sc) (parse_tool_call_response env pid latency sc d)"
  by (simp_all add: finish_fine [OF assms] finish_arguments_fine [OF assms] parse_messages_response_def parse_responses_body_def parse_tool_call_response_def
      split: json.split list.split option.split)

lemma status_fine: "fine (\<lambda>_. True) (raise_for_status a)"
  by (simp add: raise_for_status_def Let_def)

lemma decode_fine: "fine (\<lambda>d. an_json a = Inr (JObj d)) (decode_body a)"
  by (simp add: decode_body_def split: sum.split json.split)

lemma answer_fine:
  assumes "counts_ok a"
    and "\<And>d. \<forall>u k. usage_of d = JObj u \<longrightarrow> 0 \<le> count_of u k \<Longrightarrow> fine P (parse d)"
  shows "fine P (bind_res (raise_for_status a) (\<lambda>_. bind_res (decode_body a) parse))"
  by (intro fine_bind [OF status_fine] fine_bind [OF decode_fine] assms(2)) (use assms(1) in \<open>auto simp: counts_ok_def\<close>)

text \<open>An outside that keeps \<open>Q\<close>, whose monotonic clock shows times that do not run backwards, and where
  every request comes back; and a provider whose login, if it has one, is there to read.\<close>

definition steady_web :: "('w \<Rightarrow> bool) \<Rightarrow> ('w \<Rightarrow> rat) \<Rightarrow> 'w llm_env \<Rightarrow> bool" where
  "steady_web Q now env \<longleftrightarrow> (\<forall>w. Q w \<longrightarrow> Q (snd (cl_time (le_creds env) w))) \<and>
     (\<forall>args w. Q w \<longrightarrow> Q (snd (cl_run (le_creds env) args w))) \<and>
     (\<forall>w. Q w \<longrightarrow> Q (snd (le_monotonic env w)) \<and> now w \<le> fst (le_monotonic env w) \<and>
        fst (le_monotonic env w) \<le> now (snd (le_monotonic env w))) \<and>
     (\<forall>u h v w. Q w \<longrightarrow> (\<exists>out w'. le_post env u h v w = (Inr out, w') \<and> Q w' \<and> now w \<le> now w' \<and>
        (\<forall>a. out = Answered a \<longrightarrow> counts_ok a)))"

definition provider_ready :: "('w \<Rightarrow> bool) \<Rightarrow> 'w llm_env \<Rightarrow> provider \<Rightarrow> bool" where
  "provider_ready Q env p \<longleftrightarrow> len_in 1 200 (provider_id p) \<and>
     (\<forall>w. Q w \<longrightarrow> is_ok (fst (load_login (le_creds env) p w)))"

lemma steady_post:
  assumes "steady_web Q now env" and "Q w"
  shows "\<exists>out w'. le_post env u h v w = (Inr out, w') \<and> Q w' \<and> now w \<le> now w' \<and> (\<forall>a. out = Answered a \<longrightarrow> counts_ok a)"
  using assms by (simp add: steady_web_def)

lemma keeps_keychain:
  assumes "steady_web Q now env"
  shows "keeps Q (load_keychain_json (le_creds env) None s a)"
  using assms
  by (auto simp: keeps_def load_keychain_json_def real_keychain_reader_def seq_apply steady_web_def
      split: prod.splits command_outcome.splits) (metis snd_conv)+

lemma keeps_file: "(\<And>v. keeps Q (parse v)) \<Longrightarrow> keeps Q (from_file lib path parse)"
  by (auto simp: from_file_def read_json_file_def intro!: keeps_intros)

lemma keeps_parse_codex:
  assumes "steady_web Q now env"
  shows "keeps Q (parse_codex_payload (le_creds env) v)"
proof -
  have "keeps Q (resolve_codex_expiry_ms (le_creds env) t x)" for t x
    using assms by (auto simp: resolve_codex_expiry_ms_def steady_web_def intro!: keeps_intros keeps_call
        split: option.split)
  then show ?thesis
    by (auto simp: parse_codex_payload_def intro!: keeps_intros split: json.split option.split)
qed

lemma keeps_login:
  assumes "steady_web Q now env"
  shows "keeps Q (load_login (le_creds env) p)"
proof (cases p)
  case (Anthropic_CLI q)
  then show ?thesis
    by (auto simp: load_claude_cli_cred_def intro!: keeps_intros keeps_file keeps_keychain [OF assms])
next
  case (Codex_CLI q)
  then show ?thesis
    by (auto simp: load_codex_cli_cred_def codex_cli_creds_path_def resolve_codex_home_def
        intro!: keeps_intros keeps_file keeps_keychain [OF assms] keeps_parse_codex [OF assms] split: option.split)
qed (simp add: keeps_ret)

lemma millis_nonneg: "0 \<le> x \<Longrightarrow> 0 \<le> millis x"
  by (simp add: millis_def fmul_def trunc_rat_def fl64_nonneg)

lemma exchange_fine:
  assumes "steady_web Q now env" and "Q w"
    and parse: "\<And>latency d. 0 \<le> latency \<Longrightarrow> \<forall>u k. usage_of d = JObj u \<longrightarrow> 0 \<le> count_of u k \<Longrightarrow> fine P (parse latency d)"
  shows "\<exists>r w'. exchange env timeout url h v parse w = (r, w') \<and> fine P r \<and> Q w'"
proof -
  obtain start w1 where m1: "le_monotonic env w = (start, w1)" by (cases "le_monotonic env w")
  with assms(1,2) have q1: "Q w1" "start \<le> now w1" by (auto simp: steady_web_def dest: spec [of _ w])
  obtain out w2 where p: "le_post env url h v w1 = (Inr out, w2)" "Q w2" "now w1 \<le> now w2"
      and c: "\<And>a. out = Answered a \<Longrightarrow> counts_ok a"
    using steady_post [OF assms(1) q1(1), of url h v] by blast
  obtain fin w3 where m2: "le_monotonic env w2 = (fin, w3)" by (cases "le_monotonic env w2")
  with assms(1) p(2) have q3: "Q w3" "now w2 \<le> fin" by (auto simp: steady_web_def dest: spec [of _ w2])
  show ?thesis
  proof (cases out)
    case (Answered a)
    have "0 \<le> millis (fsub fin start)"
      using q1(2) p(3) q3(2) by (simp add: millis_nonneg fsub_def fl64_nonneg)
    from answer_fine [OF c [OF Answered] parse [OF this]]
    have "fine P (bind_res (raise_for_status a) (\<lambda>_. bind_res (decode_body a) (parse (millis (fsub fin start)))))" .
    with Answered m1 m2 p(1) q3(1) show ?thesis
      by (simp add: exchange_def timed_post_def seq_apply)
  qed (use m1 p in \<open>simp_all add: exchange_def timed_post_def seq_apply\<close>)
qed

lemma fresh_fine:
  assumes "steady_web Q now env" and "Q w"
    and "\<And>c w. Q w \<Longrightarrow> \<exists>r w'. f c w = (r, w') \<and> fine P r \<and> Q w'"
  shows "\<exists>r w'. if_fresh env a b oc f w = (r, w') \<and> fine P r \<and> Q w'"
  using assms
  by (cases oc) (auto simp: if_fresh_def is_cred_fresh_def seq_apply steady_web_def)

lemma login_fine:
  assumes "steady_web Q now env" and "Q w" and "is_ok (fst (load_login (le_creds env) p w))"
    and "\<And>oc w. Q w \<Longrightarrow> \<exists>r w'. f oc w = (r, w') \<and> fine P r \<and> Q w'"
  shows "\<exists>r w'. seq (load_login (le_creds env) p) f w = (r, w') \<and> fine P r \<and> Q w'"
proof -
  obtain oc w1 where l: "load_login (le_creds env) p w = (Inr oc, w1)"
    using assms(3) by (cases "load_login (le_creds env) p w") (auto simp: is_ok_iff)
  with keeps_login [OF assms(1)] assms(2) have "Q w1" by (rule keepsD)
  from assms(4) [OF this] l show ?thesis by (simp add: seq_apply)
qed

lemma provider_fine:
  assumes web: "steady_web Q now env" and "provider_ready Q env p" and "Q w"
  shows "\<exists>r w'. provider_complete env p ms sc n t w = (r, w') \<and> fine (good_completion (provider_id p) sc) r \<and> Q w'"
proof -
  have id: "len_in 1 200 (provider_id p)" and login: "is_ok (fst (load_login (le_creds env) p w))"
    using assms(2,3) by (simp_all add: provider_ready_def)
  show ?thesis
  proof (cases p)
    case (Anthropic_CLI q)
    have fit: "\<exists>r w'. if_fresh env a b oc (\<lambda>c. exchange env tm u (h c) v
        (\<lambda>latency. parse_messages_response env (provider_id p) latency sc)) w = (r, w') \<and>
        fine (good_completion (provider_id p) sc) r \<and> Q w'" if "Q w" for a b oc tm u h v w
      by (rule fresh_fine [OF web that], rule exchange_fine [OF web], assumption, rule parsers_fine(1) [OF _ _ id])
    show ?thesis
      using login_fine [OF web assms(3) login fit] by (simp add: Anthropic_CLI anthropic_complete_def)
  next
    case (Codex_CLI q)
    have fit: "\<exists>r w'. if_fresh env a b oc (\<lambda>c. exchange env tm u (h c) v
        (\<lambda>latency. parse_responses_body env (provider_id p) latency sc)) w = (r, w') \<and>
        fine (good_completion (provider_id p) sc) r \<and> Q w'" if "Q w" for a b oc tm u h v w
      by (rule fresh_fine [OF web that], rule exchange_fine [OF web], assumption, rule parsers_fine(2) [OF _ _ id])
    show ?thesis
      using login_fine [OF web assms(3) login fit] by (simp add: Codex_CLI codex_complete_def seq_assoc ret_seq)
  next
    case (OpenAI_Compat q)
    show ?thesis
      using exchange_fine [OF web assms(3) parsers_fine(3) [OF _ _ id]]
      by (simp add: OpenAI_Compat compat_complete_def)
  qed
qed

end
