(* ===== verification/Llm_Properties.thy ===== *)
theory Llm_Properties
  imports Llm_Laws Cycle_Properties
begin

text \<open>
  The properties of the providers, of the registry and of the agents, and what they mean for a
  cycle: its agents may lose their provider in any way HTTP requests fail, and it still ends with a
  result.
\<close>

section \<open>Requests and the registry\<close>

text \<open>C8. A subscription is used only under a login that is fresh. One call of the Claude or Codex
  provider sends at most one request. If it sends one, the login was loaded from the file or the
  keychain, it is valid, and the clock read just before says that it does not expire within the next
  minute; and the request is the one described: to the fixed URL, with the headers made of that
  login's token and a body that forces the model to call the tool of the schema. If it sends none,
  the call fails.\<close>

theorem requests_need_fresh_login:
  assumes "is_subscription p" and "provider_complete (logged_env env) p ms sc n t (w, []) = (r, w', sent)"
  shows "sent = [] \<and> \<not> is_ok r \<or> (\<exists>c w1. load_login (le_creds env) p w = (Inr (Some c), w1) \<and>
    credential_ok c \<and> fresh_at (le_creds env) w1 c \<and> sent = [request_of p c ms sc n t])"
  by (rule provider_logged [OF assms])


section \<open>The metadata of an agent\<close>

lemma hex_not_white: "is_hex c \<Longrightarrow> \<not> is_white c"
  by (auto simp: is_hex_def is_white_def Let_def)

lemma run_id_strip: "run_id_ok s \<Longrightarrow> strip s = s"
  unfolding strip_def
  by (rule strip_by_id) (auto simp: run_id_ok_def list_all_iff dest!: hex_not_white)

definition labels_ok :: "agent_config \<Rightarrow> string \<Rightarrow> bool" where
  "labels_ok cfg name \<longleftrightarrow> pred_option run_id_ok (lc_parent_run_id cfg) \<and> len_in 1 80 (strip name)"

definition model_id_ok :: "string \<Rightarrow> bool" where
  "model_id_ok pid \<longleftrightarrow> len_in 1 120 (strip pid)"

definition hex_ids :: "('v \<Rightarrow> bool) \<Rightarrow> 'v env \<Rightarrow> bool" where
  "hex_ids Q env \<longleftrightarrow> (\<forall>v. Q v \<longrightarrow> run_id_ok (fst (env_token_hex env v)))"

text \<open>After the run id and the time were drawn.\<close>

definition stamped :: "'v env \<Rightarrow> 'v \<Rightarrow> 'v" where
  "stamped env v = snd (env_now env (snd (env_token_hex env v)))"

lemma build_metadata_ok:
  assumes "hex_ids Q env" and "Q v" and "labels_ok cfg name" and "model_id_ok pid" and "usage_ok u"
  shows "\<exists>m. agent_run_metadata env cfg name pid u v = (Inr m, stamped env v) \<and> md_agent_name m = strip name \<and>
    md_model_id m = strip pid \<and> md_token_in m = us_token_in u \<and> md_token_out m = us_token_out u \<and>
    md_llm_cost_usd m = us_cost_usd u \<and> md_latency_ms m = us_latency_ms u"
proof -
  have rid: "run_id_ok (fst (env_token_hex env v))" "strip (fst (env_token_hex env v)) = fst (env_token_hex env v)"
    using assms(1,2) by (auto simp: hex_ids_def intro: run_id_strip)
  have parent: "pred_option run_id_ok (map_option strip (lc_parent_run_id cfg))"
    using assms(3) by (cases "lc_parent_run_id cfg") (auto simp: labels_ok_def run_id_strip)
  from rid parent assms(3-5) show ?thesis
    by (auto simp: agent_run_metadata_def seq_apply validate_metadata_def strip_metadata_def metadata_fields_ok_def
        check_def labels_ok_def model_id_ok_def usage_ok_def stamped_def Let_def)
qed

lemma no_usage_ok: "usage_ok no_usage"
  by code_simp

lemma failed_metadata_ok:
  assumes "hex_ids Q env" and "Q v" and "labels_ok cfg name" and "model_id_ok pid"
  shows "\<exists>m. agent_run_metadata env cfg name pid no_usage v = (Inr m, stamped env v) \<and> md_token_in m = 0 \<and> md_token_out m = 0"
  using build_metadata_ok [OF assms no_usage_ok] by (auto simp: no_usage_def)

section \<open>An agent wraps what its provider did\<close>

lemma agent_run_apply:
  assumes "agent_messages g ag x = Inr ms"
    and "bk_complete bk ms (la_schema ag) (lc_max_output_tokens cfg) (lc_temperature cfg) v = (r, v1)"
  shows "agent_run env g cfg bk ag x v = (case r of
      Inr c \<Rightarrow> seq (agent_run_metadata env cfg (la_name ag) (co_provider_id c) (co_usage c)) (\<lambda>m.
        ret \<lparr>ag_output = Some (co_output c), ag_error = None, ag_metadata = m\<rparr>) v1
    | Inl (ProviderError k s) \<Rightarrow> seq (lift_res (bk_provider_id bk)) (\<lambda>pid.
        seq (agent_run_metadata env cfg (la_name ag) pid no_usage) (\<lambda>m.
        ret \<lparr>ag_output = None, ag_error = Some (provider_error_name k @ '': '' @ s), ag_metadata = m\<rparr>)) v1
    | Inl e \<Rightarrow> (Inl e, v1))"
  using assms by (simp add: agent_run_def seq_apply split: sum.split py_exn.split)

text \<open>C6. What comes out of an agent. When the completion of its provider comes back, the agent's result
  is ok and holds the output, and its metadata the counts the provider reported. When the provider
  fails with a provider error, the result carries the class and the text of the error, no output
  and no tokens, provided the provider has an id; the registry has none, so an agent over a registry
  all of whose providers fail raises an \<open>AttributeError\<close>. Any other exception passes through.\<close>

theorem agent_wraps_completion:
  assumes "agent_messages g ag x = Inr ms"
    and "bk_complete bk ms (la_schema ag) (lc_max_output_tokens cfg) (lc_temperature cfg) v = (r, v1)"
    and "hex_ids Q env" and "Q v1" and "labels_ok cfg (la_name ag)"
  shows "case r of
      Inr c \<Rightarrow> usage_ok (co_usage c) \<and> model_id_ok (co_provider_id c) \<longrightarrow>
        (\<exists>res. agent_run env g cfg bk ag x v = (Inr res, stamped env v1) \<and> agent_is_ok res \<and>
           ag_output res = Some (co_output c) \<and> md_token_in (ag_metadata res) = us_token_in (co_usage c) \<and>
           md_token_out (ag_metadata res) = us_token_out (co_usage c))
    | Inl (ProviderError k s) \<Rightarrow> (case bk_provider_id bk of
          Inl e \<Rightarrow> agent_run env g cfg bk ag x v = (Inl e, v1)
        | Inr pid \<Rightarrow> model_id_ok pid \<longrightarrow>
            (\<exists>res. agent_run env g cfg bk ag x v = (Inr res, stamped env v1) \<and> ag_output res = None \<and>
               ag_error res = Some (provider_error_name k @ '': '' @ s) \<and>
               md_token_in (ag_metadata res) = 0 \<and> md_token_out (ag_metadata res) = 0))
    | Inl e \<Rightarrow> agent_run env g cfg bk ag x v = (Inl e, v1)"
proof (cases r)
  case (Inr c)
  show ?thesis unfolding agent_run_apply [OF assms(1,2)] Inr
    using build_metadata_ok [OF assms(3-5), of "co_provider_id c" "co_usage c"]
    by (auto simp: seq_apply agent_is_ok_def)
next
  case (Inl e)
  show ?thesis
  proof (cases e)
    case (ProviderError k s)
    show ?thesis unfolding agent_run_apply [OF assms(1,2)] Inl ProviderError
      using failed_metadata_ok [OF assms(3-5)]
      by (cases "bk_provider_id bk") (force simp: seq_apply)+
  qed (simp_all add: agent_run_apply [OF assms(1,2)] Inl)
qed

text \<open>A registry all of whose providers fail.\<close>

lemma exhausted_chain_raises:
  assumes "agent_messages g ag x = Inr ms"
    and "registry_complete (\<lambda>p. provider_complete le p ms (la_schema ag) (lc_max_output_tokens cfg) (lc_temperature cfg)) v
      = (Inl (ProviderError k s), v1)"
  shows "agent_run env g cfg (chain_backend le) ag x v = (Inl AttributeError, v1)"
  using agent_run_apply [OF assms(1), of "chain_backend le" cfg v "Inl (ProviderError k s)" v1] assms(2)
  by (simp add: chain_backend_def seq_apply)

section \<open>A cycle of such agents\<close>

lemma llm_agent_tame:
  assumes env: "env_keeps Q env" "hex_ids Q env" and "labels_ok cfg (la_name ag)" and pid: "model_id_ok (provider_id p)"
    and "steady_web Q now le" and "provider_ready Q le p" and msgs: "\<And>x. takes x \<Longrightarrow> is_ok (agent_messages g ag x)"
    and schema: "\<And>j x. sc_validate (la_schema ag) j = Inr x \<Longrightarrow> P x"
  shows "tame_agent Q takes P (agent_run env g cfg (single_backend le p) ag)"
  unfolding tame_agent_def
proof (intro allI impI)
  fix x w
  assume "takes x \<and> Q w"
  then have "takes x" "Q w" by simp_all
  obtain ms where ms: "agent_messages g ag x = Inr ms" using msgs [OF \<open>takes x\<close>] by (auto simp: is_ok_iff)
  obtain r w1 where r: "provider_complete le p ms (la_schema ag) (lc_max_output_tokens cfg) (lc_temperature cfg) w = (r, w1)"
    and fine: "fine (good_completion (provider_id p) (la_schema ag)) r" and "Q w1"
    using provider_fine [OF assms(5,6) \<open>Q w\<close>] by blast
  have bk: "bk_complete (single_backend le p) ms (la_schema ag) (lc_max_output_tokens cfg) (lc_temperature cfg) w = (r, w1)"
    using r by (simp add: single_backend_def)
  note run = agent_run_apply [OF ms bk]
  note meta = build_metadata_ok [OF env(2) \<open>Q w1\<close> assms(3)]
  have q: "Q (stamped env w1)" using env(1) \<open>Q w1\<close> by (simp add: stamped_def env_keeps_def)
  show "\<exists>res w'. agent_run env g cfg (single_backend le p) ag x w = (Inr res, w') \<and> Q w' \<and>
      0 \<le> md_token_in (ag_metadata res) \<and> 0 \<le> md_token_out (ag_metadata res) \<and> pred_option P (ag_output res)"
  proof (cases r)
    case (Inr c)
    with fine have u: "usage_ok (co_usage c)" "co_provider_id c = provider_id p"
      and "\<exists>j. sc_validate (la_schema ag) j = Inr (co_output c)"
      by (simp_all add: good_completion_def)
    with schema have "P (co_output c)" by blast
    with meta [OF _ u(1), of "co_provider_id c"] u pid q Inr show ?thesis
      unfolding run by (auto simp: seq_apply usage_ok_def)
  next
    case (Inl e)
    with fine obtain k s where "r = Inl (ProviderError k s)"
      by (auto simp: is_provider_error_def split: py_exn.splits)
    with failed_metadata_ok [OF env(2) \<open>Q w1\<close> assms(3) pid] q show ?thesis
      unfolding run by (auto simp: seq_apply single_backend_def)
  qed
qed

text \<open>The six agents of a cycle, each with its provider, and the runner they are given to.\<close>

record 'w llm_suite =
  su_web :: "'w llm_env"
  su_config :: agent_config
  su_guardrails :: string
  su_dash :: string
  su_texts :: "string \<Rightarrow> agent_texts"
  su_provider :: "string \<Rightarrow> provider"
  su_observer :: "(observer_input, observer_artifact) agent_types"
  su_hypothesis :: "(observer_artifact, hypothesis_card) agent_types"
  su_skeptic :: "(hypothesis_card, skeptic_report) agent_types"
  su_research :: "(research_input, research_plan) agent_types"
  su_auditor :: "(auditor_input, audit_report) agent_types"
  su_decider :: "(decider_input, strategy_decision) agent_types"

definition suite_run :: "'w llm_suite \<Rightarrow> 'w env \<Rightarrow> ('i, 'o) llm_agent \<Rightarrow> ('i, 'o, 'w) agent" where
  "suite_run su env ag = agent_run env (su_guardrails su) (su_config su)
     (single_backend (su_web su) (su_provider su (la_name ag))) ag"

definition llm_runner :: "'w llm_suite \<Rightarrow> 'w runner \<Rightarrow> 'w runner" where
  "llm_runner su rn = rn\<lparr>
     rn_observer := suite_run su (rn_env rn) (observer_agent (su_dash su) (su_texts su ''observer'') (su_observer su)),
     rn_hypothesis := suite_run su (rn_env rn) (hypothesis_agent (su_dash su) (su_texts su ''hypothesis'') (su_hypothesis su)),
     rn_skeptic := suite_run su (rn_env rn) (skeptic_agent (su_texts su ''skeptic'') (su_skeptic su)),
     rn_research := suite_run su (rn_env rn) (research_agent (su_texts su ''research'') (su_research su)),
     rn_auditor := suite_run su (rn_env rn) (auditor_agent (su_texts su ''auditor'') (su_auditor su)),
     rn_decider := suite_run su (rn_env rn) (decider_agent (su_texts su ''decider'') (su_decider su))\<rparr>"

text \<open>The runner with agents that only fail: what is left to assume of it is about the other callables.\<close>

definition without_agents :: "'w runner \<Rightarrow> 'w runner" where
  "without_agents rn = rn\<lparr>rn_observer := fails [], rn_hypothesis := fails [], rn_skeptic := fails [],
     rn_research := fails [], rn_auditor := fails [], rn_decider := fails []\<rparr>"

definition agent_ready :: "('w \<Rightarrow> bool) \<Rightarrow> 'w llm_suite \<Rightarrow> ('i \<Rightarrow> bool) \<Rightarrow> ('o \<Rightarrow> bool) \<Rightarrow> ('i, 'o) llm_agent \<Rightarrow> bool" where
  "agent_ready Q su takes gives ag \<longleftrightarrow> labels_ok (su_config su) (la_name ag) \<and>
     model_id_ok (provider_id (su_provider su (la_name ag))) \<and> provider_ready Q (su_web su) (su_provider su (la_name ag)) \<and>
     (\<forall>x. takes x \<longrightarrow> is_ok (agent_messages (su_guardrails su) ag x)) \<and>
     (\<forall>j x. sc_validate (la_schema ag) j = Inr x \<longrightarrow> gives x)"

definition suite_ready :: "cycle_contract \<Rightarrow> 'w runner \<Rightarrow> ('w \<Rightarrow> bool) \<Rightarrow> 'w llm_suite \<Rightarrow> bool" where
  "suite_ready K rn Q su \<longleftrightarrow>
     agent_ready Q su (ct_input K) (ct_observation K) (observer_agent (su_dash su) (su_texts su ''observer'') (su_observer su)) \<and>
     agent_ready Q su (ct_observation K) (ct_hypothesis K) (hypothesis_agent (su_dash su) (su_texts su ''hypothesis'') (su_hypothesis su)) \<and>
     agent_ready Q su (ct_hypothesis K) (ct_skeptic K) (skeptic_agent (su_texts su ''skeptic'') (su_skeptic su)) \<and>
     agent_ready Q su (research_fits K) (ct_plan K) (research_agent (su_texts su ''research'') (su_research su)) \<and>
     agent_ready Q su (auditor_fits K) (ct_audit K) (auditor_agent (su_texts su ''auditor'') (su_auditor su)) \<and>
     agent_ready Q su (decider_fits K) (gateway_accepts rn) (decider_agent (su_texts su ''decider'') (su_decider su))"

lemma suite_agent_tame:
  assumes "env_keeps Q env" "hex_ids Q env" "steady_web Q now (su_web su)" "agent_ready Q su takes gives ag"
  shows "tame_agent Q takes gives (suite_run su env ag)"
  unfolding suite_run_def
  by (rule llm_agent_tame [OF assms(1,2) _ _ assms(3)]) (use assms(4) in \<open>auto simp: agent_ready_def\<close>)

lemma llm_runner_tame:
  assumes "tame K (without_agents rn) t0 Q" and "hex_ids Q (rn_env rn)" and "steady_web Q now (su_web su)"
    and "suite_ready K rn Q su"
  shows "tame K (llm_runner su rn) t0 Q"
proof -
  have env: "env_keeps Q (rn_env rn)" using assms(1) by (simp add: tame_def without_agents_def)
  note ag = suite_agent_tame [OF env assms(2,3)]
  have "gateway_accepts (llm_runner su rn) = gateway_accepts rn" for su
    by (simp add: gateway_accepts_def llm_runner_def fun_eq_iff)
  with assms(1,4) show ?thesis
    unfolding tame_def suite_ready_def by (simp add: llm_runner_def without_agents_def ag)
qed


end
