(* ===== verification/Llm_Samples.thy ===== *)
theory Llm_Samples
  imports Llm_Properties
begin

text \<open>
  The properties of the providers, the registry and the agents on a small machine: a Claude login
  on disk, no Codex login, and an endpoint that answers every request with a call of the tool.
\<close>

definition sample_login :: json where
  "sample_login = JObj [(''claudeAiOauth'', JObj [(''accessToken'', JStr ''sk-ant-oat-1''),
     (''refreshToken'', JStr ''r''), (''expiresAt'', JInt 2000000)])]"

definition sample_lib :: "nat cred_lib" where
  "sample_lib = \<lparr>cl_home = ''/h'', cl_codex_home = (\<lambda>_. None), cl_expanduser = id,
     cl_is_file = (\<lambda>f _. f = ''/h/.claude/.credentials.json''),
     cl_read_text = (\<lambda>f _. if f = ''/h/.claude/.credentials.json'' then Some ''login'' else None),
     cl_loads = (\<lambda>s. if s = ''login'' then Some sample_login else None), cl_b64_loads = (\<lambda>_. None),
     cl_sha256_hex = id, cl_timestamp = (\<lambda>_. None), cl_isoformat = (\<lambda>_. ''then''),
     cl_time = (\<lambda>w. (1000, w)), cl_platform = ''linux'', cl_run = (\<lambda>_ w. (Command_Failed, w))\<rparr>"

definition sample_answer :: http_answer where
  "sample_answer = \<lparr>an_status = 200, an_text = [], an_json = Inr (JObj
     [(''content'', JList [JObj [(''type'', JStr ''tool_use''), (''name'', JStr ''emit_Card''), (''input'', JObj [])]]),
      (''choices'', JList [JObj [(''message'', JObj [(''tool_calls'', JList [JObj [(''function'',
         JObj [(''arguments'', JStr [])])]])])]]),
      (''usage'', JObj [(''input_tokens'', JInt 2), (''output_tokens'', JInt 1), (''prompt_tokens'', JInt 2),
         (''completion_tokens'', JInt 1)])])\<rparr>"

definition sample_llm :: "nat llm_env" where
  "sample_llm = \<lparr>le_creds = sample_lib, le_post = (\<lambda>_ _ _. ret (Answered sample_answer)),
     le_monotonic = (\<lambda>w. (0, w)), le_loads = (\<lambda>_. Inr (JObj [])), le_float_str = (\<lambda>_. []), le_repr = (\<lambda>_. [])\<rparr>"

definition card_schema :: "'o \<Rightarrow> 'o out_schema" where
  "card_schema x = \<lparr>sc_name = ''Card'', sc_doc = None, sc_json = [], sc_validate = (\<lambda>_. Inr x)\<rparr>"

definition claude :: provider where
  "claude = Anthropic_CLI \<lparr>ac_model = ''m'', ac_home_dir = None, ac_timeout_s = 120\<rparr>"

definition codex :: provider where
  "codex = Codex_CLI \<lparr>cx_model = ''m'', cx_codex_home = None, cx_timeout_s = 120\<rparr>"

definition gateway_llm :: provider where
  "gateway_llm = OpenAI_Compat \<lparr>oa_base_url = ''http://g'', oa_api_key = ''k'', oa_model = ''m'', oa_timeout_s = 60\<rparr>"

definition hello :: "chat_message list" where
  "hello = [\<lparr>cm_role = ROLE_USER, cm_content = ''hello''\<rparr>]"

definition claude_call :: "int res \<times> nat \<times> sent_request list" where
  "claude_call = (case provider_complete (logged_env sample_llm) claude hello (card_schema (7 :: int)) 64 0 (0, []) of
     (r, w, sent) \<Rightarrow> (bind_res r (\<lambda>c. Inr (co_output c)), w, sent))"

lemma claude_answers: "fst claude_call = Inr 7"
  by code_simp

theorem requests_need_fresh_login_witness:
  "\<exists>c. credential_ok c \<and> fresh_at sample_lib 0 c \<and>
     snd (snd (provider_complete (logged_env sample_llm) claude hello (card_schema (7 :: int)) 64 0 (0, []))) =
       [request_of claude c hello (card_schema (7 :: int)) 64 0]"
proof -
  obtain r w sent where run: "provider_complete (logged_env sample_llm) claude hello (card_schema (7 :: int)) 64 0 (0, [])
      = (r, w, sent)" by (metis prod_cases3)
  have "is_ok r" using claude_answers by (cases r) (simp_all add: claude_call_def run)
  moreover have "load_login (le_creds sample_llm) claude 0 = (Inr (Some c), w1) \<Longrightarrow> w1 = 0" for c w1
    by (auto simp: claude_def sample_llm_def sample_lib_def load_claude_cli_cred_def from_file_def
        read_json_file_def load_keychain_json_def real_keychain_reader_def seq_apply
        split: option.splits sum.splits prod.splits if_splits)
  moreover have "is_subscription claude" "le_creds sample_llm = sample_lib" by (simp_all add: claude_def sample_llm_def)
  ultimately show ?thesis using requests_need_fresh_login [OF _ run] run by auto
qed

text \<open>The Codex provider, which is not logged in, before the gateway.\<close>

definition two_providers :: "provider registry" where
  "two_providers = \<lparr>rg_providers = [codex, gateway_llm], rg_last = 0\<rparr>"

definition ask_sample :: "provider \<Rightarrow> (nat, int completion) eff" where
  "ask_sample p = provider_complete sample_llm p hello (card_schema 7) 64 0"

lemma two_providers_last: "rg_last (fst (snd (registry_complete ask_sample (two_providers, 0)))) = 1"
  by code_simp


section \<open>An agent\<close>

definition plain_texts :: agent_texts where
  "plain_texts = \<lparr>at_brief = ''brief'', at_description = ''description''\<rparr>"

definition constant_types :: "'o \<Rightarrow> ('i, 'o) agent_types" where
  "constant_types x = \<lparr>ty_dump = (\<lambda>_. ''{}''), ty_schema = card_schema x\<rparr>"

definition sample_agent :: "(hypothesis_card, int) llm_agent" where
  "sample_agent = json_agent ''skeptic'' plain_texts (constant_types 7)"

text \<open>The prompts of the six agents, with short texts, are short.\<close>

definition agent_names :: "string list" where
  "agent_names = [''observer'', ''hypothesis'', ''skeptic'', ''research'', ''auditor'', ''decider'']"

lemma prompts_short: "list_all (\<lambda>n. len_in 1 80 (strip n) \<and>
    (case build_agent_system_prompt ''g'' n ''brief'' ''emit_Card'' ''description'' of
       Inr s \<Rightarrow> len_in 1 900 s | Inl _ \<Rightarrow> False)) agent_names"
  by code_simp

lemma plain_messages:
  assumes "la_role ag \<in> set agent_names" and "la_role_brief ag = ''brief''" and "la_emit_description ag = ''description''"
    and "tool_name (la_schema ag) = ''emit_Card''" and "la_user_message ag x = ''{}''"
  shows "is_ok (agent_messages ''g'' ag x)"
proof -
  obtain s where "build_agent_system_prompt ''g'' (la_role ag) ''brief'' ''emit_Card'' ''description'' = Inr s" "len_in 1 900 s"
    using prompts_short [unfolded list_all_iff, rule_format, OF assms(1)]
    by (cases "build_agent_system_prompt ''g'' (la_role ag) ''brief'' ''emit_Card'' ''description''") simp_all
  with assms(2-) show ?thesis by (simp add: agent_messages_def new_message_def len_in_def check_def)
qed

lemma card_tool: "tool_name (card_schema x) = ''emit_Card''"
  by (simp add: tool_name_def card_schema_def)

lemma desk_hex: "hex_ids (\<lambda>_. True) desk_env"
  by (simp add: hex_ids_def desk_env_def) code_simp

lemma no_codex_login: "load_codex_cli_cred (le_creds sample_llm) None None 0 = (Inr None, 0)"
  by code_simp

lemma single_provider_id: "bk_provider_id (single_backend env p) = Inr (provider_id p)"
  by (simp add: single_backend_def)

theorem agent_wraps_completion_witness:
  "\<exists>res. agent_run desk_env ''g'' default_config (single_backend sample_llm codex) sample_agent sample_hypothesis 0
     = (Inr res, 0) \<and> ag_output res = None \<and>
     ag_error res = Some (''AuthError: Codex CLI not logged in; ~/.codex/auth.json missing.'')"
proof -
  obtain ms where ms: "agent_messages ''g'' sample_agent sample_hypothesis = Inr ms"
  proof -
    have "is_ok (agent_messages ''g'' sample_agent sample_hypothesis)"
      by (rule plain_messages)
        (simp_all add: sample_agent_def json_agent_def agent_names_def plain_texts_def constant_types_def card_tool)
    then show ?thesis using that by (auto simp: is_ok_iff)
  qed
  have bk: "bk_complete (single_backend sample_llm codex) ms (la_schema sample_agent)
      (lc_max_output_tokens default_config) (lc_temperature default_config) 0
      = (Inl (ProviderError AUTH_ERROR ''Codex CLI not logged in; ~/.codex/auth.json missing.''), 0)"
    by (simp add: single_backend_def codex_def codex_complete_def no_codex_login seq_apply if_fresh_def)
  have "labels_ok default_config (la_name sample_agent)"
    by (simp add: labels_ok_def default_config_def sample_agent_def json_agent_def) code_simp
  moreover have "model_id_ok (provider_id codex)" by code_simp
  moreover have "stamped desk_env 0 = (0 :: nat)" by (simp add: stamped_def desk_env_def)
  ultimately show ?thesis
    using agent_wraps_completion [OF ms bk desk_hex TrueI] by (auto simp: single_provider_id)
qed

section \<open>A cycle\<close>

definition sample_suite :: "nat llm_suite" where
  "sample_suite = \<lparr>su_web = sample_llm, su_config = default_config, su_guardrails = ''g'', su_dash = ''-'',
     su_texts = (\<lambda>_. plain_texts), su_provider = (\<lambda>_. gateway_llm),
     su_observer = constant_types sample_observation, su_hypothesis = constant_types sample_hypothesis,
     su_skeptic = constant_types sample_skeptic, su_research = constant_types sample_plan,
     su_auditor = constant_types (sample_audit PASS), su_decider = constant_types sample_decision\<rparr>"

text \<open>The contract: no prediction markets in the input or the observation.\<close>

definition no_signals :: cycle_contract where
  "no_signals = open_contract\<lparr>ct_input := (\<lambda>x. oi_signals x = []), ct_observation := (\<lambda>x. oa_signals x = [])\<rparr>"

lemma counts_nonneg: "\<forall>kv\<in>set u. \<forall>i. snd kv = JInt i \<longrightarrow> 0 \<le> i \<Longrightarrow> 0 \<le> count_of u k"
  by (auto simp: count_of_def dest: map_of_SomeD split: option.split json.split)

lemma sample_steady: "steady_web (\<lambda>_. True) (\<lambda>_. 0) sample_llm"
  by (auto simp: steady_web_def sample_llm_def counts_ok_def sample_answer_def usage_of_def intro!: counts_nonneg)

lemma gateway_llm_ready: "provider_ready (\<lambda>_. True) sample_llm gateway_llm"
  by (simp add: provider_ready_def gateway_llm_def compat_id_def len_in_def)

lemma plain_ready:
  assumes "\<And>x. takes x \<Longrightarrow> la_user_message ag x = ''{}''" and "gives o'"
    and "la_role ag = la_name ag" and "la_name ag \<in> set agent_names"
    and "la_role_brief ag = ''brief''" "la_emit_description ag = ''description''" "la_schema ag = card_schema o'"
  shows "agent_ready (\<lambda>_. True) sample_suite takes gives ag"
proof -
  have "pred_option run_id_ok (lc_parent_run_id default_config)" by (simp add: default_config_def)
  moreover have "model_id_ok (provider_id gateway_llm)" by code_simp
  moreover have "len_in 1 80 (strip (la_name ag))" using prompts_short assms(4) by (auto simp: list_all_iff)
  moreover have "is_ok (agent_messages ''g'' ag x)" if "takes x" for x
    by (rule plain_messages) (use assms that in \<open>simp_all add: card_tool\<close>)
  ultimately show ?thesis
    using assms(2,7) gateway_llm_ready
    by (auto simp: agent_ready_def sample_suite_def labels_ok_def card_schema_def)
qed

lemma sample_suite_ready: "suite_ready no_signals (desk PASS) (\<lambda>_. True) sample_suite"
proof -
  have "gateway_accepts (desk PASS) sample_decision"
    using desk_tame [of PASS] by (auto simp: tame_def tame_agent_def desk_def office_def answers_def open_contract_def decider_fits_def)
  then show ?thesis
    unfolding suite_ready_def
    by (intro conjI plain_ready)
      (auto simp: observer_agent_def hypothesis_agent_def skeptic_agent_def research_agent_def auditor_agent_def
        decider_agent_def json_agent_def sample_suite_def plain_texts_def constant_types_def with_signals_def
        format_polymarket_block_def no_signals_def open_contract_def sample_observation_def agent_names_def)
qed

lemma desk_without_agents: "tame no_signals (without_agents (desk PASS)) 0 (\<lambda>_. True)"
  using desk_tame [of PASS]
  by (simp add: tame_def without_agents_def tame_agent_def fails_def agent_metadata_def sample_metadata_def
      no_signals_def open_contract_def gateway_accepts_def)


section \<open>Two exceptions that are no provider errors\<close>

text \<open>A login that expires in the first millisecond of the epoch is malformed, but it raises.\<close>

lemma fractional_expiry_raises:
  "parse_claude_payload (JObj [(''claudeAiOauth'', JObj [(''accessToken'', JStr ''t''),
     (''expiresAt'', JFloat (1 / 2))])]) = Inl ValidationError"
  by code_simp

text \<open>So does an answer that reports a negative token count.\<close>

lemma negative_usage_raises:
  "build_usage ''input_tokens'' ''output_tokens'' (JObj [(''input_tokens'', JInt (- 1))]) 0 = Inl ValidationError"
  by code_simp

text \<open>An id a completion may have and metadata may not.\<close>

lemma long_id_not_recorded:
  "len_in 1 200 (replicate 150 (CHR ''m'')) \<and> \<not> model_id_ok (replicate 150 (CHR ''m''))"
  by code_simp

end
