(* ===== verification/Trade_Socket.thy ===== *)
theory Trade_Socket
  imports Json
begin

text \<open>
  The websocket of the trade updates (\<open>execution/alpaca\_websocket.py\<close>). What the connections meet is
  a script: one session for each attempt, saying for every operation on the socket whether it
  raises or what it returns. The generator is a function of the script: what it does, in order, and how
  it ends; when the script runs out it waits for the next connection. The parser of JSON and
  whether the websockets library is installed are parameters.
\<close>

section \<open>The script\<close>

text \<open>Exceptions of the socket: \<open>OSError\<close>, \<open>TimeoutError\<close> or \<open>EOFError\<close>; \<open>ConnectionClosed\<close> and
  \<open>InvalidStatus\<close> of the websockets library, the latter with its attribute \<open>status\_code\<close> if it has
  one; any other.\<close>

datatype ws_exn = Transport_Exn | Closed_Exn | Status_Exn "nat option" | Other_Exn string

record session =
  se_connect :: "ws_exn option"
  se_send_auth :: "ws_exn option"
  se_auth_reply :: "ws_exn + string"
  se_send_listen :: "ws_exn option"
  se_ack :: "ws_exn + string"
  se_frames :: "string list"
  se_close :: "ws_exn option"          \<comment> \<open>\<open>None\<close>: the iteration over the frames ends\<close>

record socket_config =
  sk_api_key :: string
  sk_api_secret :: string
  sk_base_url :: string
  sk_initial_backoff :: rat
  sk_max_backoff :: rat
  sk_loads :: "string \<Rightarrow> json option"
  sk_has_websockets :: bool

definition alpaca_paper_wss_url :: string where
  "alpaca_paper_wss_url = ''wss://paper-api.alpaca.markets/stream''"

section \<open>One attempt\<close>

datatype ws_action = Opened string | Sent json | Yielded json | Slept rat

datatype attempt_end = Ended | Auth_Rejected | Bad_Auth_Reply | Broken ws_exn

definition auth_authorized :: "json \<Rightarrow> bool" where
  "auth_authorized resp = (case resp of
     JObj d \<Rightarrow> (case get_or_null d ''data'' of JObj x \<Rightarrow> get_or_null x ''status'' = JStr ''authorized'' | _ \<Rightarrow> False)
   | _ \<Rightarrow> False)"

definition auth_message :: "socket_config \<Rightarrow> json" where
  "auth_message cfg = JObj [(''action'', JStr ''auth''), (''key'', JStr (sk_api_key cfg)),
     (''secret'', JStr (sk_api_secret cfg))]"

definition listen_message :: json where
  "listen_message = JObj [(''action'', JStr ''listen''),
     (''data'', JObj [(''streams'', JList [JStr ''trade_updates''])])]"

text \<open>Frames that are not JSON are skipped.\<close>

definition yields_of :: "socket_config \<Rightarrow> string list \<Rightarrow> json list" where
  "yields_of cfg frames = List.map_filter (sk_loads cfg) frames"

definition after_auth :: "socket_config \<Rightarrow> session \<Rightarrow> ws_action list \<times> bool \<times> attempt_end" where
  "after_auth cfg s = (case se_send_listen s of
     Some e \<Rightarrow> ([], False, Broken e)
   | None \<Rightarrow> (case se_ack s of
       Inl e \<Rightarrow> ([Sent listen_message], False, Broken e)
     | Inr ack \<Rightarrow> (Sent listen_message # map Yielded (yields_of cfg (se_frames s)), True,
         case se_close s of None \<Rightarrow> Ended | Some e \<Rightarrow> Broken e)))"

text \<open>The actions of one attempt, whether its handshake succeeded, and its end.\<close>

definition attempt :: "socket_config \<Rightarrow> session \<Rightarrow> ws_action list \<times> bool \<times> attempt_end" where
  "attempt cfg s = (case se_connect s of
     Some e \<Rightarrow> ([], False, Broken e)
   | None \<Rightarrow> (case se_send_auth s of
       Some e \<Rightarrow> ([Opened (sk_base_url cfg)], False, Broken e)
     | None \<Rightarrow> (let acts = [Opened (sk_base_url cfg), Sent (auth_message cfg)] in
         case se_auth_reply s of
           Inl e \<Rightarrow> (acts, False, Broken e)
         | Inr raw \<Rightarrow> (case sk_loads cfg raw of
             None \<Rightarrow> (acts, False, Bad_Auth_Reply)
           | Some resp \<Rightarrow> if \<not> auth_authorized resp then (acts, False, Auth_Rejected)
               else (case after_auth cfg s of (more_acts, shaken, fin) \<Rightarrow> (acts @ more_acts, shaken, fin))))))"

section \<open>Reconnecting\<close>

definition is_websockets_transient :: "bool \<Rightarrow> ws_exn \<Rightarrow> bool" where
  "is_websockets_transient has_lib e = (has_lib \<and> (case e of
     Closed_Exn \<Rightarrow> True
   | Status_Exn c \<Rightarrow> (let code = (case c of None \<Rightarrow> 0 | Some n \<Rightarrow> n) in 500 \<le> code \<and> code < 600)
   | _ \<Rightarrow> False))"

definition is_retried :: "socket_config \<Rightarrow> ws_exn \<Rightarrow> bool" where
  "is_retried cfg e = (e = Transport_Exn \<or> is_websockets_transient (sk_has_websockets cfg) e)"

datatype stream_end = Waiting | Returned | Raised attempt_end

fun trade_updates_from :: "socket_config \<Rightarrow> rat \<Rightarrow> session list \<Rightarrow> ws_action list \<times> stream_end" where
  "trade_updates_from cfg backoff [] = ([], Waiting)"
| "trade_updates_from cfg backoff (s # ss) = (case attempt cfg s of (acts, shaken, fin) \<Rightarrow>
     let b = (if shaken then sk_initial_backoff cfg else backoff) in
     case fin of
       Ended \<Rightarrow> (acts, Returned)
     | Broken e \<Rightarrow> if is_retried cfg e
         then (case trade_updates_from cfg (min (b * 2) (sk_max_backoff cfg)) ss of
             (rest, r) \<Rightarrow> (acts @ Slept b # rest, r))
         else (acts, Raised fin)
     | _ \<Rightarrow> (acts, Raised fin))"

definition trade_updates_stream :: "socket_config \<Rightarrow> session list \<Rightarrow> ws_action list \<times> stream_end" where
  "trade_updates_stream cfg = trade_updates_from cfg (sk_initial_backoff cfg)"

section \<open>What it delivers\<close>

definition shakes :: "socket_config \<Rightarrow> session \<Rightarrow> bool" where
  "shakes cfg s \<longleftrightarrow> fst (snd (attempt cfg s))"

definition ends :: "socket_config \<Rightarrow> session \<Rightarrow> attempt_end" where
  "ends cfg s = snd (snd (attempt cfg s))"

definition retries :: "socket_config \<Rightarrow> session \<Rightarrow> bool" where
  "retries cfg s \<longleftrightarrow> (case ends cfg s of Broken e \<Rightarrow> is_retried cfg e | _ \<Rightarrow> False)"

definition delivers :: "socket_config \<Rightarrow> session \<Rightarrow> json list" where
  "delivers cfg s = (if shakes cfg s then yields_of cfg (se_frames s) else [])"

fun yielded :: "ws_action list \<Rightarrow> json list" where
  "yielded [] = []"
| "yielded (Yielded m # as) = m # yielded as"
| "yielded (_ # as) = yielded as"

fun slept :: "ws_action list \<Rightarrow> rat list" where
  "slept [] = []"
| "slept (Slept d # as) = d # slept as"
| "slept (_ # as) = slept as"

lemma yielded_append [simp]: "yielded (as @ bs) = yielded as @ yielded bs"
  by (induction as rule: yielded.induct) auto

lemma slept_append [simp]: "slept (as @ bs) = slept as @ slept bs"
  by (induction as rule: slept.induct) auto

lemma map_Yielded [simp]: "yielded (map Yielded ms) = ms" "slept (map Yielded ms) = []"
  by (induction ms) simp_all

lemma attempt_acts: "yielded (fst (attempt cfg s)) = delivers cfg s" "slept (fst (attempt cfg s)) = []"
  by (auto simp: attempt_def after_auth_def delivers_def shakes_def Let_def
      split: option.split sum.split prod.split)

lemma attempt_parts: "attempt cfg s = (fst (attempt cfg s), shakes cfg s, ends cfg s)"
  by (simp add: shakes_def ends_def)

text \<open>The sessions used: all that are retried up to the first that is not, which is used too.\<close>

definition used_sessions :: "socket_config \<Rightarrow> session list \<Rightarrow> session list" where
  "used_sessions cfg ss = takeWhile (retries cfg) ss @ take 1 (dropWhile (retries cfg) ss)"

text \<open>The waits: the initial one after a session whose handshake succeeded, else twice the one
  before, at most the greatest.\<close>

fun waits_after :: "socket_config \<Rightarrow> rat \<Rightarrow> bool list \<Rightarrow> rat list" where
  "waits_after cfg b [] = []"
| "waits_after cfg b (shaken # hs) = (let b' = if shaken then sk_initial_backoff cfg else b in
     b' # waits_after cfg (min (b' * 2) (sk_max_backoff cfg)) hs)"

definition stream_result :: "socket_config \<Rightarrow> session list \<Rightarrow> stream_end" where
  "stream_result cfg ss = (case dropWhile (retries cfg) ss of [] \<Rightarrow> Waiting
     | s # _ \<Rightarrow> if ends cfg s = Ended then Returned else Raised (ends cfg s))"

lemma trade_updates_from_spec:
  "yielded (fst (trade_updates_from cfg b ss)) = concat (map (delivers cfg) (used_sessions cfg ss)) \<and>
   slept (fst (trade_updates_from cfg b ss)) = waits_after cfg b (map (shakes cfg) (takeWhile (retries cfg) ss)) \<and>
   snd (trade_updates_from cfg b ss) = stream_result cfg ss"
proof (induction ss arbitrary: b)
  case Nil
  then show ?case by (simp add: used_sessions_def stream_result_def)
next
  case (Cons s ss)
  let ?b = "if shakes cfg s then sk_initial_backoff cfg else b"
  note IH = Cons.IH [of "min (?b * 2) (sk_max_backoff cfg)"]
  show ?case
  proof (cases "retries cfg s")
    case True
    then obtain e where e: "ends cfg s = Broken e" "is_retried cfg e" by (auto simp: retries_def split: attempt_end.splits)
    then have "trade_updates_from cfg b (s # ss) = (case trade_updates_from cfg (min (?b * 2) (sk_max_backoff cfg)) ss of
        (rest, r) \<Rightarrow> (fst (attempt cfg s) @ Slept ?b # rest, r))"
      unfolding trade_updates_from.simps by (subst attempt_parts) (simp add: Let_def)
    with True IH show ?thesis
      by (cases "trade_updates_from cfg (min (?b * 2) (sk_max_backoff cfg)) ss")
        (simp add: attempt_acts used_sessions_def stream_result_def Let_def)
  next
    case False
    then have "trade_updates_from cfg b (s # ss) =
        (fst (attempt cfg s), if ends cfg s = Ended then Returned else Raised (ends cfg s))"
      unfolding trade_updates_from.simps retries_def
      by (subst attempt_parts) (auto simp: Let_def split: attempt_end.split)
    with False show ?thesis by (simp add: attempt_acts used_sessions_def stream_result_def)
  qed
qed

lemma waits_bounded:
  assumes "0 \<le> sk_initial_backoff cfg" and "sk_initial_backoff cfg \<le> sk_max_backoff cfg"
    and "sk_initial_backoff cfg \<le> b" and "b \<le> sk_max_backoff cfg"
  shows "\<forall>d\<in>set (waits_after cfg b hs). sk_initial_backoff cfg \<le> d \<and> d \<le> sk_max_backoff cfg"
  using assms(3,4)
proof (induction hs arbitrary: b)
  case (Cons h hs)
  let ?b = "if h then sk_initial_backoff cfg else b"
  have b: "sk_initial_backoff cfg \<le> ?b" "?b \<le> sk_max_backoff cfg" using assms(2) Cons.prems by simp_all
  then have "sk_initial_backoff cfg \<le> min (?b * 2) (sk_max_backoff cfg)" "min (?b * 2) (sk_max_backoff cfg) \<le> sk_max_backoff cfg"
    using assms(1,2) by (simp_all add: min_def)
  from Cons.IH [OF this] b show ?case unfolding waits_after.simps Let_def by simp
qed simp

text \<open>C22. What the subscriber to the venue's socket gets. Over any sequence of connections the messages
  yielded are, in order, the decoded frames of the sessions whose handshake succeeded, up to the
  first session that is not retried; frames that are not JSON are left out and nothing is yielded
  twice. The stream waits for another connection exactly while every session ended in a transient
  failure; it returns when the iteration over the frames of a session ends, and raises the failed
  authentication or the fatal error otherwise. Each wait is the initial one after a session whose
  handshake succeeded, twice the one before after one that failed, and never above the greatest.\<close>

theorem socket_delivers:
  assumes "0 \<le> sk_initial_backoff cfg" and "sk_initial_backoff cfg \<le> sk_max_backoff cfg"
    and "trade_updates_stream cfg ss = (acts, r)"
  shows "yielded acts = concat (map (delivers cfg) (used_sessions cfg ss)) \<and> r = stream_result cfg ss \<and>
    slept acts = waits_after cfg (sk_initial_backoff cfg) (map (shakes cfg) (takeWhile (retries cfg) ss)) \<and>
    (\<forall>d\<in>set (slept acts). sk_initial_backoff cfg \<le> d \<and> d \<le> sk_max_backoff cfg)"
  using trade_updates_from_spec [of cfg "sk_initial_backoff cfg" ss] assms(3)
    waits_bounded [OF assms(1,2) order_refl assms(2)]
  by (simp add: trade_updates_stream_def)

text \<open>A connection that the server closes in the normal way ends the stream, whatever could come after
  it: the iteration over the frames of a socket closed normally ends without an exception.\<close>

lemma normal_close_ends_stream:
  assumes "shakes cfg s" and "se_close s = None"
  shows "snd (trade_updates_stream cfg (s # ss)) = Returned"
proof -
  have "ends cfg s = Ended"
    using assms by (auto simp: ends_def shakes_def attempt_def after_auth_def Let_def
        split: option.splits sum.splits if_splits)
  then have "\<not> retries cfg s" by (simp add: retries_def)
  with \<open>ends cfg s = Ended\<close> show ?thesis
    using trade_updates_from_spec [of cfg "sk_initial_backoff cfg" "s # ss"]
    by (simp add: trade_updates_stream_def stream_result_def)
qed

text \<open>A refused handshake is retried only if the exception has an attribute \<open>status\_code\<close> in the 500s.\<close>

lemma refused_handshake_fatal: "\<not> is_retried cfg (Status_Exn None)"
  by (simp add: is_retried_def is_websockets_transient_def)

definition sample_socket :: socket_config where
  "sample_socket = \<lparr>sk_api_key = ''k'', sk_api_secret = ''s'', sk_base_url = alpaca_paper_wss_url,
     sk_initial_backoff = 1, sk_max_backoff = 3,
     sk_loads = (\<lambda>s. if s = ''ok'' then Some (JObj [(''data'', JObj [(''status'', JStr ''authorized'')])])
       else if s = ''bad'' then None else Some (JStr s)), sk_has_websockets = True\<rparr>"

definition served :: "string list \<Rightarrow> ws_exn option \<Rightarrow> session" where
  "served frames e = \<lparr>se_connect = None, se_send_auth = None, se_auth_reply = Inr ''ok'', se_send_listen = None,
     se_ack = Inr [], se_frames = frames, se_close = e\<rparr>"

definition refused :: session where
  "refused = (served [] None)\<lparr>se_connect := Some Transport_Exn\<rparr>"

definition sample_sessions :: "session list" where
  "sample_sessions = [served [''a'', ''bad'', ''b''] (Some Closed_Exn), refused, refused, served [''c''] (Some Transport_Exn),
     (served [] None)\<lparr>se_auth_reply := Inr ''no''\<rparr>, served [''d''] None]"

theorem socket_delivers_witness:
  "\<exists>acts. trade_updates_stream sample_socket sample_sessions = (acts, Raised Auth_Rejected) \<and>
     yielded acts = [JStr ''a'', JStr ''b'', JStr ''c''] \<and> slept acts = [1, 2, 3, 1]"
proof -
  obtain acts r where run: "trade_updates_stream sample_socket sample_sessions = (acts, r)"
    by (cases "trade_updates_stream sample_socket sample_sessions")
  have "stream_result sample_socket sample_sessions = Raised Auth_Rejected"
    "concat (map (delivers sample_socket) (used_sessions sample_socket sample_sessions)) = [JStr ''a'', JStr ''b'', JStr ''c'']"
    "waits_after sample_socket (sk_initial_backoff sample_socket)
      (map (shakes sample_socket) (takeWhile (retries sample_socket) sample_sessions)) = [1, 2, 3, 1]"
    by code_simp+
  with socket_delivers [OF _ _ run] run show ?thesis by (auto simp: sample_socket_def)
qed

end
