(* ===== verification/Yfinance_Client.thy ===== *)
theory Yfinance_Client
  imports Rate_Limit Observer_Signals Decimal_Text
begin

text \<open>
  The Yahoo Finance client (\<open>data/yfinance/client.py\<close>) with its cache (\<open>cache.py\<close>). The library
  yfinance, the temporary directories and pydantic's dump and load of the cached bars are parameters.
  A cell of a price column is the text \<open>str\<close> gives of it; the SQLite table is a list of rows.
\<close>

definition yfinance_quota :: py_exn where
  "yfinance_quota = DataError ''YFinanceQuotaExhaustedError'' None"

section \<open>A row of the data frame\<close>

datatype frame_index = Stamp date | Label string   \<comment> \<open>with a method \<open>date\<close>, or not\<close>

text \<open>What \<open>float(value)\<close> makes of the volume: no value, a failure, NaN, an infinity, a number.\<close>

datatype volume_cell = No_Volume | Not_A_Float | Volume_NaN | Volume_Infinite | Volume rat

record frame_row =
  fr_open :: "string option"
  fr_high :: "string option"
  fr_low :: "string option"
  fr_close :: "string option"
  fr_volume :: volume_cell

type_synonym price_frame = "(frame_index \<times> frame_row) list"

fun nan_safe_int :: "volume_cell \<Rightarrow> int option res" where
  "nan_safe_int No_Volume = Inr None"
| "nan_safe_int Not_A_Float = Inr None"
| "nan_safe_int Volume_NaN = Inr None"
| "nan_safe_int Volume_Infinite = Inl (OtherError ''OverflowError'')"
| "nan_safe_int (Volume x) = Inr (Some (trunc_rat x))"

definition price_cell :: "string option \<Rightarrow> py_number res" where
  "price_cell c = (case c of None \<Rightarrow> Inl KeyError | Some s \<Rightarrow> decimal_of s)"

text \<open>pydantic refuses NaN and the infinities in a field of type \<open>Decimal\<close>.\<close>

definition price_field :: "py_number \<Rightarrow> decimal res" where
  "price_field n = (case n of Finite d \<Rightarrow> Inr d | _ \<Rightarrow> Inl ValidationError)"

definition build_price :: "string \<Rightarrow> date \<Rightarrow> py_number \<Rightarrow> py_number \<Rightarrow> py_number \<Rightarrow> py_number \<Rightarrow> int option \<Rightarrow>
    yfinance_price res" where
  "build_price symbol day op hi lo cl vol =
     bind_res (price_field op) (\<lambda>op. bind_res (price_field hi) (\<lambda>hi. bind_res (price_field lo) (\<lambda>lo.
     bind_res (price_field cl) (\<lambda>cl. validate_price \<lparr>yp_symbol = symbol, yp_date = day, yp_open = op, yp_high = hi,
       yp_low = lo, yp_close = cl, yp_adjusted_close = None, yp_volume = vol\<rparr>))))"

definition index_date :: "(string \<Rightarrow> date res) \<Rightarrow> frame_index \<Rightarrow> date res" where
  "index_date fromisoformat idx = (case idx of Stamp d \<Rightarrow> Inr d | Label s \<Rightarrow> fromisoformat (take 10 s))"

definition row_to_price :: "(string \<Rightarrow> date res) \<Rightarrow> string \<Rightarrow> frame_index \<times> frame_row \<Rightarrow> yfinance_price res" where
  "row_to_price fromisoformat symbol row = (case row of (idx, r) \<Rightarrow>
     bind_res (index_date fromisoformat idx) (\<lambda>day. bind_res (price_cell (fr_open r)) (\<lambda>op.
     bind_res (price_cell (fr_high r)) (\<lambda>hi. bind_res (price_cell (fr_low r)) (\<lambda>lo.
     bind_res (price_cell (fr_close r)) (\<lambda>cl. bind_res (nan_safe_int (fr_volume r)) (\<lambda>vol.
     build_price symbol day op hi lo cl vol)))))))"

section \<open>The client\<close>

type_synonym cached_bars = "(string \<times> rat \<times> string) list"   \<comment> \<open>key, \<open>expires\_at\<close>, payload\<close>

record 'w yfinance =
  yf_last_call :: rat
  yf_empties :: nat
  yf_cache :: "cached_bars option"
  yf_tz_dir :: "string option"
  yf_world :: 'w

record 'w yfinance_env =
  ye_timer :: "'w timer"
  ye_time :: "'w \<Rightarrow> rat \<times> 'w"                          \<comment> \<open>\<open>time.time()\<close>\<close>
  ye_history :: "string \<Rightarrow> string \<Rightarrow> string \<Rightarrow> 'w \<Rightarrow> price_frame res \<times> 'w"   \<comment> \<open>symbol, start, end\<close>
  ye_mkdtemp :: "'w \<Rightarrow> string \<times> 'w"
  ye_set_tz :: "string \<Rightarrow> 'w \<Rightarrow> 'w"                    \<comment> \<open>\<open>set\_tz\_cache\_location\<close>\<close>
  ye_at_exit :: "'w \<Rightarrow> 'w"                             \<comment> \<open>registers the clean-up\<close>
  ye_exists :: "string \<Rightarrow> 'w \<Rightarrow> bool"
  ye_rmtree :: "string \<Rightarrow> 'w \<Rightarrow> 'w"
  ye_throttle :: rat
  ye_ttl :: int
  ye_date :: "string \<Rightarrow> date res"                      \<comment> \<open>\<open>date.fromisoformat\<close>\<close>
  ye_dump :: "yfinance_price list \<Rightarrow> string"
  ye_load :: "string \<Rightarrow> yfinance_price list res"

type_synonym ('w, 'a) yfe = "('w yfinance, 'a) eff"

definition new_yfinance :: "'w yfinance_env \<Rightarrow> cached_bars option \<Rightarrow> 'w \<Rightarrow> 'w yfinance" where
  "new_yfinance env cache w = (case ye_mkdtemp env w of (dir, w1) \<Rightarrow>
     \<lparr>yf_last_call = 0, yf_empties = 0, yf_cache = cache, yf_tz_dir = Some dir,
      yf_world = ye_at_exit env (ye_set_tz env dir w1)\<rparr>)"

text \<open>\<open>aclose\<close>, the exit of the context manager and the hook at the end of the process.\<close>

definition cleanup_tz_cache :: "'w yfinance_env \<Rightarrow> ('w, unit) yfe" where
  "cleanup_tz_cache env = modify (\<lambda>s. (case yf_tz_dir s of None \<Rightarrow> s
     | Some dir \<Rightarrow> if ye_exists env dir (yf_world s) then s\<lparr>yf_world := ye_rmtree env dir (yf_world s)\<rparr> else s)
       \<lparr>yf_tz_dir := None\<rparr>)"

definition beyond :: "('w \<Rightarrow> 'a \<times> 'w) \<Rightarrow> ('w, 'a) yfe" where
  "beyond f = (\<lambda>s. case f (yf_world s) of (x, w) \<Rightarrow> (Inr x, s\<lparr>yf_world := w\<rparr>))"

section \<open>The cache\<close>

definition bar_key :: "string \<Rightarrow> date \<Rightarrow> date \<Rightarrow> string" where
  "bar_key symbol from_date to_date = ''bars:'' @ symbol @ '':'' @ iso_date from_date @ '':'' @ iso_date to_date"

definition get_bars :: "'w yfinance_env \<Rightarrow> string \<Rightarrow> date \<Rightarrow> date \<Rightarrow> ('w, yfinance_price list option) yfe" where
  "get_bars env symbol from_date to_date = seq (gets yf_cache) (\<lambda>c. case c of None \<Rightarrow> ret None
     | Some rows \<Rightarrow> (case map_of rows (bar_key symbol from_date to_date) of None \<Rightarrow> ret None
         | Some (expires_at, payload) \<Rightarrow> seq (beyond (ye_time env)) (\<lambda>now.
             if expires_at \<le> now then ret None
             else lift_res (bind_res (ye_load env payload) (\<lambda>bars. Inr (Some bars))))))"

definition set_bars :: "'w yfinance_env \<Rightarrow> string \<Rightarrow> date \<Rightarrow> date \<Rightarrow> yfinance_price list \<Rightarrow> ('w, unit) yfe" where
  "set_bars env symbol from_date to_date bars = seq (gets yf_cache) (\<lambda>c. case c of None \<Rightarrow> ret ()
     | Some _ \<Rightarrow> seq (beyond (ye_time env)) (\<lambda>now. modify (\<lambda>s. s\<lparr>yf_cache := map_option
         (AList.update (bar_key symbol from_date to_date) (now + of_int (ye_ttl env), ye_dump env bars)) (yf_cache s)\<rparr>)))"

definition clear_bars :: "('w, unit) yfe" where
  "clear_bars = modify (\<lambda>s. s\<lparr>yf_cache := map_option (\<lambda>_. []) (yf_cache s)\<rparr>)"

section \<open>Fetching\<close>

definition empties_limit :: nat where
  "empties_limit = 3"

definition pace_call :: "'w yfinance_env \<Rightarrow> ('w, unit) yfe" where
  "pace_call env = zoom (\<lambda>s. (yf_last_call s, yf_world s)) (\<lambda>(l, w) s. s\<lparr>yf_last_call := l, yf_world := w\<rparr>)
     (throttle_gate (ye_timer env) (ye_throttle env))"

text \<open>\<open>end\<close> is exclusive in the library.\<close>

definition fetch_history :: "'w yfinance_env \<Rightarrow> string \<Rightarrow> date \<Rightarrow> date \<Rightarrow> ('w, price_frame) yfe" where
  "fetch_history env symbol from_date to_date =
     seq (beyond (ye_history env symbol (iso_date from_date) (iso_date (to_date + 1)))) lift_res"

definition count_empty :: "('w, yfinance_price list) yfe" where
  "count_empty = seq (modify (\<lambda>s. s\<lparr>yf_empties := yf_empties s + 1\<rparr>)) (\<lambda>_. seq (gets yf_empties) (\<lambda>n.
     if empties_limit \<le> n then raise yfinance_quota else ret []))"

definition take_frame :: "'w yfinance_env \<Rightarrow> string \<Rightarrow> date \<Rightarrow> date \<Rightarrow> price_frame \<Rightarrow> ('w, yfinance_price list) yfe" where
  "take_frame env symbol from_date to_date frame =
     seq (modify (\<lambda>s. s\<lparr>yf_empties := 0\<rparr>)) (\<lambda>_.
     seq (lift_res (each_row (row_to_price (ye_date env) symbol) frame)) (\<lambda>bars.
     seq (if bars \<noteq> [] then set_bars env symbol from_date to_date bars else ret ()) (\<lambda>_. ret bars)))"

definition fetch_bars :: "'w yfinance_env \<Rightarrow> string \<Rightarrow> date \<Rightarrow> date \<Rightarrow> ('w, yfinance_price list) yfe" where
  "fetch_bars env symbol from_date to_date = seq (pace_call env) (\<lambda>_.
     seq (fetch_history env symbol from_date to_date) (\<lambda>frame.
       if frame = [] then count_empty else take_frame env symbol from_date to_date frame))"

definition yfinance_bars :: "'w yfinance_env \<Rightarrow> string \<Rightarrow> date \<Rightarrow> date \<Rightarrow> ('w, yfinance_price list) yfe" where
  "yfinance_bars env symbol from_date to_date = seq (get_bars env symbol from_date to_date) (\<lambda>cached. case cached of
     Some bars \<Rightarrow> ret bars | None \<Rightarrow> fetch_bars env symbol from_date to_date)"

section \<open>Retries and batches\<close>

definition retry_schedule :: "int list" where
  "retry_schedule = [5, 10, 15]"

text \<open>The loop over the schedule; after it the last error is raised.\<close>

fun retry_loop :: "'w yfinance_env \<Rightarrow> ('w, 'a) yfe \<Rightarrow> int list \<Rightarrow> ('w, 'a) yfe" where
  "retry_loop env attempt [] = raise yfinance_quota"
| "retry_loop env attempt (backoff # rest) = seq (try_except attempt) (\<lambda>r. case r of
     Inr x \<Rightarrow> ret x
   | Inl e \<Rightarrow> if e = yfinance_quota
       then seq (modify (\<lambda>s. s\<lparr>yf_world := tm_sleep (ye_timer env) (of_int backoff) (yf_world s)\<rparr>)) (\<lambda>_. retry_loop env attempt rest)
       else raise e)"

definition yfinance_bars_with_retry :: "'w yfinance_env \<Rightarrow> string \<Rightarrow> date \<Rightarrow> date \<Rightarrow> ('w, yfinance_price list) yfe" where
  "yfinance_bars_with_retry env symbol from_date to_date = retry_loop env (yfinance_bars env symbol from_date to_date) retry_schedule"

text \<open>How a batch ends; the quota error carries the results so far.\<close>

type_synonym bar_results = "(string \<times> yfinance_price list) list"

datatype batch_end = Whole bar_results | Quota_Partial bar_results | Batch_Failed py_exn

fun batch_loop :: "'w yfinance_env \<Rightarrow> date \<Rightarrow> date \<Rightarrow> bar_results \<Rightarrow> string list \<Rightarrow> 'w yfinance \<Rightarrow> batch_end \<times> 'w yfinance" where
  "batch_loop env from_date to_date results [] s = (Whole results, s)"
| "batch_loop env from_date to_date results (symbol # symbols) s =
     (case yfinance_bars env symbol from_date to_date s of
       (Inr bars, s') \<Rightarrow> batch_loop env from_date to_date (AList.update symbol bars results) symbols s'
     | (Inl e, s') \<Rightarrow> (if e = yfinance_quota then Quota_Partial results else Batch_Failed e, s'))"

definition yfinance_bars_batch :: "'w yfinance_env \<Rightarrow> string list \<Rightarrow> date \<Rightarrow> date \<Rightarrow> 'w yfinance \<Rightarrow> batch_end \<times> 'w yfinance" where
  "yfinance_bars_batch env symbols from_date to_date = batch_loop env from_date to_date [] symbols"

text \<open>
  When the Yahoo Finance client reports an exhausted quota, and what its retries and batches make of
  it, over every sequence of calls on one client.
\<close>

section \<open>The answers of the library\<close>

text \<open>\<open>asked w\<close> are the answers of the library so far; nothing else the client does adds to them,
  and the library, the codec of the cache and the parser of dates have exceptions of their own.\<close>

definition answers_recorded :: "('w \<Rightarrow> price_frame res list) \<Rightarrow> 'w yfinance_env \<Rightarrow> bool" where
  "answers_recorded asked env \<longleftrightarrow>
     (\<forall>sym a b w. asked (snd (ye_history env sym a b w)) = asked w @ [fst (ye_history env sym a b w)]) \<and>
     (\<forall>w. asked (snd (tm_monotonic (ye_timer env) w)) = asked w) \<and> (\<forall>d w. asked (tm_sleep (ye_timer env) d w) = asked w) \<and>
     (\<forall>w. asked (snd (ye_time env w)) = asked w) \<and> (\<forall>d w. asked (ye_rmtree env d w) = asked w)"

definition own_exceptions :: "'w yfinance_env \<Rightarrow> bool" where
  "own_exceptions env \<longleftrightarrow> (\<forall>sym a b w. fst (ye_history env sym a b w) \<noteq> Inl yfinance_quota) \<and>
     (\<forall>p. ye_load env p \<noteq> Inl yfinance_quota) \<and> (\<forall>s. ye_date env s \<noteq> Inl yfinance_quota)"

text \<open>The empty answers since the last answer with rows; a call that raised counts for neither.\<close>

definition trailing_empties :: "price_frame res list \<Rightarrow> nat" where
  "trailing_empties hist = count_while (\<lambda>a. a = Inr []) (filter is_ok (rev hist))"

lemma trailing_empties_snoc:
  "trailing_empties (hist @ [Inl e]) = trailing_empties hist"
  "trailing_empties (hist @ [Inr []]) = Suc (trailing_empties hist)"
  "fr \<noteq> [] \<Longrightarrow> trailing_empties (hist @ [Inr fr]) = 0"
  by (simp_all add: trailing_empties_def)

definition counts_empties :: "('w \<Rightarrow> price_frame res list) \<Rightarrow> 'w yfinance \<Rightarrow> bool" where
  "counts_empties asked s \<longleftrightarrow> yf_empties s = trailing_empties (asked (yf_world s))"

section \<open>The exceptions of a row\<close>

lemma bind_res_Inl_iff: "bind_res r f = Inl e \<longleftrightarrow> r = Inl e \<or> (\<exists>x. r = Inr x \<and> f x = Inl e)"
  by (cases r) auto

lemma each_row_Inl: "each_row f xs = Inl e \<Longrightarrow> \<exists>x\<in>set xs. f x = Inl e"
  by (induction xs) (auto simp: bind_res_Inl_iff)

lemma yfinance_row_exceptions:
  assumes "row_to_price fromisoformat symbol row = Inl e" and "\<And>s. fromisoformat s \<noteq> Inl yfinance_quota"
  shows "e \<noteq> yfinance_quota"
proof -
  obtain idx r where row: "row = (idx, r)" by (cases row)
  have d: "index_date fromisoformat idx \<noteq> Inl yfinance_quota"
    using assms(2) by (simp add: index_date_def split: frame_index.split)
  have c: "price_cell c \<noteq> Inl yfinance_quota" for c
    by (auto simp: price_cell_def decimal_of_def yfinance_quota_def Let_def split: option.splits prod.splits)
  have v: "nan_safe_int v \<noteq> Inl yfinance_quota" for v by (cases v) (simp_all add: yfinance_quota_def)
  have f: "price_field n \<noteq> Inl yfinance_quota" for n by (cases n) (simp_all add: price_field_def yfinance_quota_def)
  have p: "validate_price q \<noteq> Inl yfinance_quota" for q
    by (auto simp: validate_price_def check_def yfinance_quota_def Let_def bind_res_Inl_iff split: if_splits)
  have b: "build_price symbol day op hi lo cl vol \<noteq> Inl yfinance_quota" for day op hi lo cl vol
    using f p by (simp add: build_price_def bind_res_Inl_iff)
  have "row_to_price fromisoformat symbol row \<noteq> Inl yfinance_quota"
    using d c v b by (simp add: row_to_price_def row bind_res_Inl_iff)
  with assms(1) show ?thesis by auto
qed

section \<open>One call\<close>

lemma get_bars_quiet:
  assumes "answers_recorded asked env" and "get_bars env symbol a b s = (r, s')"
  shows "asked (yf_world s') = asked (yf_world s)" and "yf_empties s' = yf_empties s"
    and "own_exceptions env \<Longrightarrow> r \<noteq> Inl yfinance_quota"
  using assms by (auto simp: get_bars_def beyond_def seq_apply answers_recorded_def own_exceptions_def bind_res_Inl_iff
      split: option.splits prod.splits if_splits) (metis snd_conv)+

lemma set_bars_quiet:
  assumes "answers_recorded asked env"
  shows "fst (set_bars env symbol a b bars s) = Inr ()"
    and "asked (yf_world (snd (set_bars env symbol a b bars s))) = asked (yf_world s)"
    and "yf_empties (snd (set_bars env symbol a b bars s)) = yf_empties s"
  using assms by (auto simp: set_bars_def beyond_def seq_apply answers_recorded_def split: option.splits prod.splits) (metis snd_conv)

lemma pace_call_quiet:
  assumes "answers_recorded asked env"
  shows "fst (pace_call env s) = Inr ()"
    and "asked (yf_world (snd (pace_call env s))) = asked (yf_world s)"
    and "yf_empties (snd (pace_call env s)) = yf_empties s"
proof -
  have m: "asked (snd (tm_monotonic (ye_timer env) w)) = asked w" "asked (tm_sleep (ye_timer env) d w) = asked w" for d w
    using assms by (simp_all add: answers_recorded_def)
  have "asked (snd (snd (throttle_gate (ye_timer env) d (l, w)))) = asked w" for d l w
    using m(1) [of w] m(1) m(2) by (auto simp: throttle_gate_def read_clock_def rest_for_def seq_apply split: prod.splits) (metis snd_conv)+
  then show "asked (yf_world (snd (pace_call env s))) = asked (yf_world s)"
    by (simp add: pace_call_def zoom_def split: prod.split) (metis snd_conv)
  show "fst (pace_call env s) = Inr ()" "yf_empties (snd (pace_call env s)) = yf_empties s"
    using throttle_gate_returns [of "ye_timer env" "ye_throttle env" "(yf_last_call s, yf_world s)"]
    by (auto simp: pace_call_def zoom_def split: prod.split)
qed

lemma take_frame_cases:
  assumes "answers_recorded asked env" and "own_exceptions env" and "take_frame env symbol a b frame s = (r, s')"
  shows "asked (yf_world s') = asked (yf_world s)" and "yf_empties s' = 0" and "r \<noteq> Inl yfinance_quota"
proof -
  note quiet = set_bars_quiet [OF assms(1)]
  have "each_row (row_to_price (ye_date env) symbol) frame \<noteq> Inl yfinance_quota"
    using assms(2) yfinance_row_exceptions by (fastforce simp: own_exceptions_def dest: each_row_Inl)
  then show "asked (yf_world s') = asked (yf_world s)" "yf_empties s' = 0" "r \<noteq> Inl yfinance_quota"
    using assms(3) quiet [of symbol a b _ "s\<lparr>yf_empties := 0\<rparr>"]
    by (auto simp: take_frame_def seq_apply lift_res_def split: sum.splits if_splits prod.splits)
      (metis fst_conv snd_conv Inr_not_Inl yfinance.select_convs yfinance.simps)+
qed

text \<open>What one request to the library does to the counter, and when the call fails with a quota error.\<close>

lemma fetch_bars_cases:
  assumes env: "answers_recorded asked env" "own_exceptions env" and run: "fetch_bars env symbol a b s = (r, s')"
  shows "\<exists>ans. asked (yf_world s') = asked (yf_world s) @ [ans] \<and>
    yf_empties s' = (case ans of Inl e \<Rightarrow> yf_empties s | Inr fr \<Rightarrow> if fr = [] then Suc (yf_empties s) else 0) \<and>
    (r = Inl yfinance_quota \<longleftrightarrow> ans = Inr [] \<and> empties_limit \<le> yf_empties s')"
proof -
  obtain u s1 where pace: "pace_call env s = (Inr u, s1)"
    using pace_call_quiet(1) [OF env(1), of s] by (metis prod.collapse)
  have s1: "asked (yf_world s1) = asked (yf_world s)" "yf_empties s1 = yf_empties s"
    using pace_call_quiet(2,3) [OF env(1), of s] pace by simp_all
  obtain ans w where hist: "ye_history env symbol (iso_date a) (iso_date (b + 1)) (yf_world s1) = (ans, w)"
    by (cases "ye_history env symbol (iso_date a) (iso_date (b + 1)) (yf_world s1)")
  have w: "asked w = asked (yf_world s) @ [ans]" "ans \<noteq> Inl yfinance_quota"
    using env hist s1 by (auto simp: answers_recorded_def own_exceptions_def) (metis fst_conv snd_conv)+
  let ?s2 = "s1\<lparr>yf_world := w\<rparr>"
  have fetched: "fetch_history env symbol a b s1 = (ans, ?s2)"
    using hist by (simp add: fetch_history_def beyond_def seq_apply lift_res_def)
  show ?thesis
  proof (cases ans)
    case (Inl e)
    then have "r = Inl e" "s' = ?s2" using run pace fetched by (simp_all add: fetch_bars_def seq_apply)
    then show ?thesis using w s1 Inl by auto
  next
    case (Inr frame)
    show ?thesis
    proof (cases "frame = []")
      case True
      then have "count_empty ?s2 = (r, s')" using run pace fetched Inr by (simp add: fetch_bars_def seq_apply)
      then show ?thesis using w s1 Inr True by (auto simp: count_empty_def seq_apply split: if_splits)
    next
      case False
      then have "take_frame env symbol a b frame ?s2 = (r, s')" using run pace fetched Inr by (simp add: fetch_bars_def seq_apply)
      from take_frame_cases [OF env this] show ?thesis using w Inr False by auto
    qed
  qed
qed

lemma yfinance_bars_cases:
  assumes env: "answers_recorded asked env" "own_exceptions env" and run: "yfinance_bars env symbol a b s = (r, s')"
  obtains (quiet) "asked (yf_world s') = asked (yf_world s)" and "yf_empties s' = yf_empties s" and "r \<noteq> Inl yfinance_quota"
  | (fetched) ans where "asked (yf_world s') = asked (yf_world s) @ [ans]"
      and "yf_empties s' = (case ans of Inl e \<Rightarrow> yf_empties s | Inr fr \<Rightarrow> if fr = [] then Suc (yf_empties s) else 0)"
      and "r = Inl yfinance_quota \<longleftrightarrow> ans = Inr [] \<and> empties_limit \<le> yf_empties s'"
proof -
  obtain c s1 where get: "get_bars env symbol a b s = (c, s1)" by (cases "get_bars env symbol a b s")
  note s1 = get_bars_quiet [OF env(1) get]
  consider (hit) "s' = s1" "r \<noteq> Inl yfinance_quota" | (miss) "fetch_bars env symbol a b s1 = (r, s')"
    using run get s1(3) [OF env(2)] by (auto simp: yfinance_bars_def seq_apply split: sum.splits option.splits)
  then show thesis
  proof cases
    case hit
    then show thesis using s1 that(1) by simp
  next
    case miss
    obtain ans where "asked (yf_world s') = asked (yf_world s) @ [ans]"
        "yf_empties s' = (case ans of Inl e \<Rightarrow> yf_empties s | Inr fr \<Rightarrow> if fr = [] then Suc (yf_empties s) else 0)"
        "r = Inl yfinance_quota \<longleftrightarrow> ans = Inr [] \<and> empties_limit \<le> yf_empties s'"
      using fetch_bars_cases [OF env miss] unfolding s1(1,2) by (elim exE conjE) (rule that)
    then show thesis by (rule that(2))
  qed
qed

lemma counts_empties_bars:
  assumes "answers_recorded asked env" and "own_exceptions env" and "counts_empties asked s"
    and "yfinance_bars env symbol a b s = (r, s')"
  shows "counts_empties asked s'"
  using assms(1,2,4)
proof (cases rule: yfinance_bars_cases)
  case quiet
  then show ?thesis using assms(3) by (simp add: counts_empties_def)
next
  case (fetched ans)
  then show ?thesis using assms(3)
    by (auto simp: counts_empties_def trailing_empties_snoc split: sum.splits if_splits)
qed

lemma keeps_counts_bars:
  "answers_recorded asked env \<Longrightarrow> own_exceptions env \<Longrightarrow> keeps (counts_empties asked) (yfinance_bars env symbol a b)"
  by (rule keepsI) (metis counts_empties_bars prod.collapse)

section \<open>Every sequence of calls\<close>

lemma keeps_retry_loop:
  assumes "keeps P attempt" and "\<And>d s. P s \<Longrightarrow> P (s\<lparr>yf_world := tm_sleep (ye_timer env) d (yf_world s)\<rparr>)"
  shows "keeps P (retry_loop env attempt ds)"
proof (induction ds)
  case Nil
  then show ?case by (simp add: keeps_def)
next
  case (Cons d ds)
  have "keeps P (try_except attempt)" using assms(1) by (simp add: keeps_def)
  then show ?case using Cons.IH assms(2) by (auto intro!: keeps_intros keeps_modify split: sum.split)
qed

lemma batch_loop_keeps:
  assumes "\<And>symbol. keeps P (yfinance_bars env symbol a b)" and "P s"
  shows "P (snd (batch_loop env a b results symbols s))"
  using assms(2)
proof (induction symbols arbitrary: results s)
  case (Cons symbol symbols)
  obtain r s1 where r: "yfinance_bars env symbol a b s = (r, s1)" by (cases "yfinance_bars env symbol a b s")
  with assms(1) Cons.prems have "P s1" by (metis keepsD)
  with Cons.IH r show ?case by (auto split: sum.split)
qed simp

text \<open>What a caller can do with one client; in \<open>elsewhere\<close> the outside goes on without asking the library.\<close>

inductive yfinance_step :: "('w \<Rightarrow> price_frame res list) \<Rightarrow> 'w yfinance_env \<Rightarrow> 'w yfinance \<Rightarrow> 'w yfinance \<Rightarrow> bool" for asked env where
  bars: "yfinance_step asked env s (snd (yfinance_bars env symbol a b s))"
| retries: "yfinance_step asked env s (snd (yfinance_bars_with_retry env symbol a b s))"
| batch: "yfinance_step asked env s (snd (yfinance_bars_batch env symbols a b s))"
| closes: "yfinance_step asked env s (snd (cleanup_tz_cache env s))"
| clears: "yfinance_step asked env s (snd (clear_bars s))"
| elsewhere: "asked w = asked (yf_world s) \<Longrightarrow> yfinance_step asked env s (s\<lparr>yf_world := w, yf_cache := c\<rparr>)"

lemma yfinance_step_counts:
  assumes "answers_recorded asked env" and "own_exceptions env" and "yfinance_step asked env s s'" and "counts_empties asked s"
  shows "counts_empties asked s'"
  using assms(3)
proof cases
  case (bars symbol a b)
  then show ?thesis using keeps_snd [OF keeps_counts_bars [OF assms(1,2)] assms(4)] by simp
next
  case (retries symbol a b)
  have "counts_empties asked (s\<lparr>yf_world := tm_sleep (ye_timer env) d (yf_world s)\<rparr>)" if "counts_empties asked s" for d s
    using that assms(1) by (simp add: counts_empties_def answers_recorded_def)
  then show ?thesis using retries keeps_snd [OF keeps_retry_loop [OF keeps_counts_bars [OF assms(1,2)]] assms(4)]
    by (simp add: yfinance_bars_with_retry_def)
next
  case (batch symbols a b)
  then show ?thesis using batch_loop_keeps [OF keeps_counts_bars [OF assms(1,2)] assms(4)]
    by (simp add: yfinance_bars_batch_def)
next
  case closes
  then show ?thesis using assms(1,4)
    by (auto simp: cleanup_tz_cache_def counts_empties_def answers_recorded_def split: option.split)
qed (use assms(4) in \<open>auto simp: clear_bars_def counts_empties_def\<close>)

definition yfinance_reachable :: "('w \<Rightarrow> price_frame res list) \<Rightarrow> 'w yfinance_env \<Rightarrow> 'w yfinance \<Rightarrow> bool" where
  "yfinance_reachable asked env s \<longleftrightarrow>
     (\<exists>cache w. asked (yf_world (new_yfinance env cache w)) = [] \<and> (yfinance_step asked env)\<^sup>*\<^sup>* (new_yfinance env cache w) s)"

lemma yfinance_reachable_counts:
  assumes "answers_recorded asked env" and "own_exceptions env" and "yfinance_reachable asked env s"
  shows "counts_empties asked s"
proof -
  obtain cache w where new: "asked (yf_world (new_yfinance env cache w)) = []"
      and steps: "(yfinance_step asked env)\<^sup>*\<^sup>* (new_yfinance env cache w) s"
    using assms(3) by (auto simp: yfinance_reachable_def)
  have "counts_empties asked (new_yfinance env cache w)"
    using new by (simp add: counts_empties_def trailing_empties_def new_yfinance_def split: prod.splits)
  with steps show ?thesis by (induction rule: rtranclp_induct) (auto intro: yfinance_step_counts [OF assms(1,2)])
qed

text \<open>C37. The quota heuristic. On a client that has been used in any way, a call reports an exhausted
  quota exactly when it asked the library, the answer was empty and the two answers with a result
  before it were empty too. Calls answered by the cache and calls that raised do not count, and one
  answer with rows starts the count afresh.\<close>

theorem yfinance_quota_exact:
  assumes "answers_recorded asked env" and "own_exceptions env" and "yfinance_reachable asked env s"
    and "yfinance_bars env symbol a b s = (r, s')"
  shows "r = Inl yfinance_quota \<longleftrightarrow>
    asked (yf_world s') = asked (yf_world s) @ [Inr []] \<and> 3 \<le> trailing_empties (asked (yf_world s'))"
proof -
  have "counts_empties asked s'"
    by (rule counts_empties_bars [OF assms(1,2) yfinance_reachable_counts [OF assms(1-3)] assms(4)])
  then have count: "yf_empties s' = trailing_empties (asked (yf_world s'))" by (simp add: counts_empties_def)
  from assms(1,2,4) show ?thesis
    by (cases rule: yfinance_bars_cases) (auto simp: count empties_limit_def)
qed

section \<open>Retries and batches\<close>

text \<open>Time, as \<open>now\<close> reads it off the outside, does not run backwards in any of the calls of the client.\<close>

definition time_passes :: "('w \<Rightarrow> rat) \<Rightarrow> 'w yfinance_env \<Rightarrow> bool" where
  "time_passes now env \<longleftrightarrow> timer_ok now (ye_timer env) \<and>
     (\<forall>sym a b w. now w \<le> now (snd (ye_history env sym a b w))) \<and> (\<forall>w. now w \<le> now (snd (ye_time env w)))"

lemma time_passes_bars:
  assumes "time_passes now env"
  shows "keeps (\<lambda>s. t \<le> now (yf_world s)) (yfinance_bars env symbol a b)"
proof -
  let ?P = "\<lambda>s. t \<le> now (yf_world s)"
  have b: "keeps ?P (beyond (ye_time env))" "keeps ?P (beyond (ye_history env sym x y))" for sym x y
    using assms by (auto simp: keeps_def beyond_def time_passes_def split: prod.splits) (metis order_trans snd_conv)+
  have m: "keeps ?P (modify f)" if "\<And>s. yf_world (f s) = yf_world s" for f
    using that by (simp add: keeps_modify)
  have timer: "now w \<le> now (snd (tm_monotonic (ye_timer env) w))" "now w \<le> now (tm_sleep (ye_timer env) d w)" for w d
    using assms by (auto simp: time_passes_def timer_ok_def intro: order_trans [of _ "fst (tm_monotonic (ye_timer env) w)"])
      (metis (no_types) add_increasing2 max.cobounded1 order_refl order_trans)
  have "now w \<le> now (snd (snd (throttle_gate (ye_timer env) d (l, w))))" for d l w
    using timer by (auto simp: throttle_gate_def read_clock_def rest_for_def seq_apply split: prod.splits) (metis order_trans snd_conv)+
  then have p: "keeps ?P (pace_call env)"
    by (auto simp: keeps_def pace_call_def zoom_def split: prod.split) (metis order_trans snd_conv)
  show ?thesis
    unfolding yfinance_bars_def get_bars_def fetch_bars_def fetch_history_def count_empty_def take_frame_def set_bars_def
    by (auto intro!: keeps_intros b m p)
qed

lemma retry_loop_gives_up:
  assumes env: "answers_recorded asked env" "own_exceptions env" "time_passes now env"
    and run: "retry_loop env (yfinance_bars env symbol a b) ds s = (Inl yfinance_quota, s')"
    and pos: "\<forall>d\<in>set ds. 0 \<le> d"
  shows "asked (yf_world s') = asked (yf_world s) @ replicate (length ds) (Inr [])"
    and "now (yf_world s) + of_int (sum_list ds) \<le> now (yf_world s')"
proof -
  have "asked (yf_world s') = asked (yf_world s) @ replicate (length ds) (Inr []) \<and>
      now (yf_world s) + of_int (sum_list ds) \<le> now (yf_world s')"
    using run pos
  proof (induction ds arbitrary: s)
    case (Cons d ds)
    obtain r s1 where one: "yfinance_bars env symbol a b s = (r, s1)" by (cases "yfinance_bars env symbol a b s")
    have time: "now (yf_world s) \<le> now (yf_world s1)"
      using keeps_snd [OF time_passes_bars [OF env(3), of "now (yf_world s)" symbol a b], of s] one by simp
    have r: "r = Inl yfinance_quota" using Cons.prems one by (auto simp: seq_apply split: sum.splits if_splits)
    have asked: "asked (yf_world s1) = asked (yf_world s) @ [Inr []]"
      using env(1,2) one by (cases rule: yfinance_bars_cases) (auto simp: r)
    let ?s2 = "s1\<lparr>yf_world := tm_sleep (ye_timer env) (of_int d) (yf_world s1)\<rparr>"
    have "now (yf_world s1) + of_int d \<le> now (yf_world ?s2)"
      using env(3) Cons.prems(2) by (simp add: time_passes_def timer_ok_def) (metis max_def of_int_0_le_iff)
    moreover have "asked (yf_world ?s2) = asked (yf_world s1)" using env(1) by (simp add: answers_recorded_def)
    moreover have "retry_loop env (yfinance_bars env symbol a b) ds ?s2 = (Inl yfinance_quota, s')"
      using Cons.prems(1) one r by (simp add: seq_apply)
    ultimately show ?case using Cons.IH [of ?s2] Cons.prems(2) asked time by auto
  qed simp
  then show "asked (yf_world s') = asked (yf_world s) @ replicate (length ds) (Inr [])"
    "now (yf_world s) + of_int (sum_list ds) \<le> now (yf_world s')" by simp_all
qed

text \<open>A call with retries that gives up has asked three times, in vain, and has waited thirty seconds,
  the last fifteen of them after its last attempt.\<close>

lemma retries_give_up:
  assumes "answers_recorded asked env" and "own_exceptions env" and "time_passes now env"
    and "yfinance_bars_with_retry env symbol a b s = (Inl yfinance_quota, s')"
  shows "asked (yf_world s') = asked (yf_world s) @ [Inr [], Inr [], Inr []] \<and> now (yf_world s) + 30 \<le> now (yf_world s')"
  using retry_loop_gives_up [OF assms(1-3) assms(4) [unfolded yfinance_bars_with_retry_def]]
  by (simp add: retry_schedule_def numeral_3_eq_3)

text \<open>A batch ends whole, with the bars of every symbol, or carries what it had when one failed.\<close>

lemma batch_loop_partial:
  assumes "batch_loop env a b results symbols s = (Quota_Partial found, s')"
  shows "\<exists>pre symbol post s1. symbols = pre @ symbol # post \<and> batch_loop env a b results pre s = (Whole found, s1) \<and>
    yfinance_bars env symbol a b s1 = (Inl yfinance_quota, s')"
  using assms
proof (induction symbols arbitrary: results s)
  case (Cons symbol symbols)
  obtain r s1 where one: "yfinance_bars env symbol a b s = (r, s1)" by (cases "yfinance_bars env symbol a b s")
  show ?case
  proof (cases r)
    case (Inl e)
    with one Cons.prems have "e = yfinance_quota" "found = results" "s' = s1" by (auto split: if_splits)
    with one Inl show ?thesis by (intro exI [of _ "[]"] exI [of _ symbol] exI [of _ symbols] exI [of _ s]) simp
  next
    case (Inr bars)
    with one Cons.prems have "batch_loop env a b (AList.update symbol bars results) symbols s1 = (Quota_Partial found, s')" by simp
    from Cons.IH [OF this] obtain pre sym post u where *: "symbols = pre @ sym # post"
        "batch_loop env a b (AList.update symbol bars results) pre s1 = (Whole found, u)"
        "yfinance_bars env sym a b u = (Inl yfinance_quota, s')" by blast
    with one Inr show ?thesis by (intro exI [of _ "symbol # pre"] exI [of _ sym] exI [of _ post] exI [of _ u]) simp
  qed
qed simp

lemma batch_loop_whole:
  "batch_loop env a b results symbols s = (Whole found, s') \<Longrightarrow> fst ` set found = fst ` set results \<union> set symbols"
proof (induction symbols arbitrary: results s)
  case (Cons symbol symbols)
  obtain r s1 where one: "yfinance_bars env symbol a b s = (r, s1)" by (cases "yfinance_bars env symbol a b s")
  then show ?case using Cons.prems Cons.IH [of "AList.update symbol _ results" s1]
    by (auto simp: dom_update split: sum.splits if_splits)
qed simp

text \<open>A row whose open is NaN loses the bars of the whole answer.\<close>

lemma nan_price_refused:
  "each_row (row_to_price fromisoformat ''AAPL'')
     [(Stamp 20574, \<lparr>fr_open = Some ''190.1'', fr_high = Some ''191.0'', fr_low = Some ''189.5'', fr_close = Some ''190.5'', fr_volume = Volume 100\<rparr>),
      (Stamp 20575, \<lparr>fr_open = Some ''nan'', fr_high = Some ''191.0'', fr_low = Some ''189.5'', fr_close = Some ''190.5'', fr_volume = Volume_NaN\<rparr>)] =
   Inl ValidationError"
  by (code_simp, simp)

text \<open>A library that has nothing for any symbol.\<close>

definition barren_env :: "price_frame res list yfinance_env" where
  "barren_env = \<lparr>ye_timer = \<lparr>tm_monotonic = (\<lambda>w. (0, w)), tm_sleep = (\<lambda>d w. w)\<rparr>, ye_time = (\<lambda>w. (0, w)),
     ye_history = (\<lambda>sym a b w. (Inr [], w @ [Inr []])), ye_mkdtemp = (\<lambda>w. (''/tmp/caqrs-yf-1'', w)),
     ye_set_tz = (\<lambda>d w. w), ye_at_exit = (\<lambda>w. w), ye_exists = (\<lambda>d w. True), ye_rmtree = (\<lambda>d w. w),
     ye_throttle = 1, ye_ttl = 86400, ye_date = (\<lambda>s. Inl ValueError), ye_dump = (\<lambda>bars. []), ye_load = (\<lambda>s. Inr [])\<rparr>"

lemma barren_env_ok: "answers_recorded (\<lambda>w. w) barren_env" "own_exceptions barren_env"
  by (simp_all add: answers_recorded_def own_exceptions_def barren_env_def yfinance_quota_def)

definition barren_call :: "price_frame res list yfinance \<Rightarrow> yfinance_price list res \<times> price_frame res list yfinance" where
  "barren_call = yfinance_bars barren_env ''AAPL'' 20574 20575"

definition barren_client :: "price_frame res list yfinance" where
  "barren_client = new_yfinance barren_env None []"

lemma barren_call_eq: "yf_cache s = None \<Longrightarrow> barren_call s =
    (if 3 \<le> Suc (yf_empties s) then Inl yfinance_quota else Inr [],
     s\<lparr>yf_last_call := 0, yf_empties := Suc (yf_empties s), yf_world := yf_world s @ [Inr []]\<rparr>)"
  by (simp add: barren_call_def yfinance_bars_def get_bars_def fetch_bars_def pace_call_def throttle_gate_def read_clock_def
    rest_for_def fetch_history_def beyond_def count_empty_def empties_limit_def barren_env_def seq_apply zoom_def lift_res_def)

lemma barren_client_eq: "barren_client =
    \<lparr>yf_last_call = 0, yf_empties = 0, yf_cache = None, yf_tz_dir = Some ''/tmp/caqrs-yf-1'', yf_world = []\<rparr>"
  by (simp add: barren_client_def new_yfinance_def barren_env_def)

lemma barren_reachable: "yfinance_reachable (\<lambda>w. w) barren_env (snd (barren_call (snd (barren_call barren_client))))"
proof -
  have step: "yfinance_step (\<lambda>w. w) barren_env s (snd (barren_call s))" for s
    unfolding barren_call_def by (rule yfinance_step.bars)
  have "(yfinance_step (\<lambda>w. w) barren_env)\<^sup>*\<^sup>* barren_client (snd (barren_call (snd (barren_call barren_client))))"
    by (rule rtranclp.rtrancl_into_rtrancl [OF r_into_rtranclp]) (rule step)+
  moreover have "yf_world barren_client = []" by (simp add: barren_client_eq)
  ultimately show ?thesis unfolding yfinance_reachable_def barren_client_def by blast
qed

text \<open>Two empty answers are taken for days without trade, the third is the quota.\<close>

lemma yfinance_quota_exact_witness:
  "fst (barren_call barren_client) = Inr [] \<and> fst (barren_call (snd (barren_call barren_client))) = Inr [] \<and>
   fst (barren_call (snd (barren_call (snd (barren_call barren_client))))) = Inl yfinance_quota"
proof (intro conjI)
  let ?s = "snd (barren_call (snd (barren_call barren_client)))"
  have "yfinance_bars barren_env ''AAPL'' 20574 20575 ?s = (fst (barren_call ?s), snd (barren_call ?s))"
    by (simp add: barren_call_def)
  note exact = yfinance_quota_exact [OF barren_env_ok barren_reachable this]
  have "yf_world (snd (barren_call ?s)) = yf_world ?s @ [Inr []] \<and> 3 \<le> trailing_empties (yf_world (snd (barren_call ?s)))"
    by (simp add: barren_call_eq barren_client_eq trailing_empties_def)
  then show "fst (barren_call ?s) = Inl yfinance_quota" using exact by blast
qed (simp_all add: barren_call_eq barren_client_eq)

end
