(* ===== verification/Edinet_Client.thy ===== *)
theory Edinet_Client
  imports Rate_Limit Observer_Signals
begin

text \<open>
  The EDINET client (\<open>data/edinet/client.py\<close>) and the schemas of its answers (\<open>schemas.py\<close>). The HTTP
  library is a parameter, and of pydantic the lenient reading of an integer, a date and a datetime;
  the strings, the flags, the names and aliases of the fields, the fields that may be missing and the
  refusal of unknown ones are modelled. The texts of the exceptions are left out.
\<close>

definition edinet_error :: py_exn where
  "edinet_error = DataError ''EdinetError'' None"

section \<open>Fields of an object\<close>

text \<open>A field is filled from its alias, else from its name. A key that fills no field is refused.\<close>

type_synonym field_key = "string \<times> string"    \<comment> \<open>alias and name\<close>

definition picked_key :: "(string \<times> json) list \<Rightarrow> field_key \<Rightarrow> string" where
  "picked_key kvs f = (if fst f \<in> fst ` set kvs then fst f else snd f)"

definition no_extra_keys :: "field_key list \<Rightarrow> (string \<times> json) list \<Rightarrow> bool" where
  "no_extra_keys fks kvs = list_all (\<lambda>(k, v). k \<in> set (map (picked_key kvs) fks)) kvs"

definition required :: "(string \<times> json) list \<Rightarrow> field_key \<Rightarrow> (json \<Rightarrow> 'a res) \<Rightarrow> 'a res" where
  "required kvs f parse = (case map_of kvs (picked_key kvs f) of None \<Rightarrow> Inl ValidationError | Some j \<Rightarrow> parse j)"

definition defaulted :: "(string \<times> json) list \<Rightarrow> field_key \<Rightarrow> (json \<Rightarrow> 'a res) \<Rightarrow> 'a option res" where
  "defaulted kvs f parse = (case map_of kvs (picked_key kvs f) of None \<Rightarrow> Inr None | Some JNull \<Rightarrow> Inr None
     | Some j \<Rightarrow> some_res (parse j))"

section \<open>Values\<close>

definition str_flag_to_bool :: "json \<Rightarrow> json" where
  "str_flag_to_bool j = (case j of JStr s \<Rightarrow> JBool (s = ''1'') | _ \<Rightarrow> j)"

definition empty_string_to_none :: "json \<Rightarrow> json" where
  "empty_string_to_none j = (if j = JStr [] then JNull else j)"

fun read_str :: "json \<Rightarrow> string res" where
  "read_str (JStr s) = Inr (strip s)"
| "read_str _ = Inl ValidationError"

definition read_str_in :: "nat \<Rightarrow> nat option \<Rightarrow> json \<Rightarrow> string res" where
  "read_str_in lo hi j = bind_res (read_str j) (\<lambda>s.
     bind_res (check (lo \<le> length s \<and> pred_option (\<lambda>m. length s \<le> m) hi)) (\<lambda>_. Inr s))"

fun lenient_bool :: "json \<Rightarrow> bool res" where
  "lenient_bool (JBool b) = Inr b"
| "lenient_bool (JInt i) = (if i = 0 \<or> i = 1 then Inr (i = 1) else Inl ValidationError)"
| "lenient_bool (JFloat x) = (if x = 0 \<or> x = 1 then Inr (x = 1) else Inl ValidationError)"
| "lenient_bool _ = Inl ValidationError"

definition read_flag :: "json \<Rightarrow> bool res" where
  "read_flag j = lenient_bool (str_flag_to_bool j)"

text \<open>A union with \<open>None\<close> behind the validator that turns an empty string into \<open>None\<close>.\<close>

definition or_none :: "(json \<Rightarrow> 'a res) \<Rightarrow> json \<Rightarrow> 'a option res" where
  "or_none parse j = (case empty_string_to_none j of JNull \<Rightarrow> Inr None | k \<Rightarrow> some_res (parse k))"

definition blankable :: "(string \<times> json) list \<Rightarrow> field_key \<Rightarrow> (json \<Rightarrow> 'a res) \<Rightarrow> 'a option res" where
  "blankable kvs f parse = (case map_of kvs (picked_key kvs f) of None \<Rightarrow> Inr None | Some j \<Rightarrow> or_none parse j)"

text \<open>The patterns \<open>^[0-2]$\<close>, \<open>^[0-3]$\<close> and \<open>^\\d{3}$\<close>.\<close>

definition status_flag :: "string \<Rightarrow> json \<Rightarrow> string res" where
  "status_flag allowed j = bind_res (read_str j) (\<lambda>s.
     bind_res (check (length s = 1 \<and> set s \<subseteq> set allowed)) (\<lambda>_. Inr s))"

definition status_code :: "json \<Rightarrow> string res" where
  "status_code j = bind_res (read_str j) (\<lambda>s.
     bind_res (check (length s = 3 \<and> set s \<subseteq> set ''0123456789'')) (\<lambda>_. Inr s))"

section \<open>The schemas\<close>

record lenient =
  lx_int :: "json \<Rightarrow> int res"
  lx_date :: "json \<Rightarrow> date res"
  lx_datetime :: "json \<Rightarrow> int res"

definition at_least :: "int \<Rightarrow> int \<Rightarrow> int res" where
  "at_least lo i = bind_res (check (lo \<le> i)) (\<lambda>_. Inr i)"

record edinet_metadata =
  em_title :: string
  em_status :: string
  em_message :: string
  em_resultset :: "int option"       \<comment> \<open>its \<open>count\<close>\<close>
  em_parameter :: "(string \<times> string) list option"
  em_process_date_time :: "string option"

definition read_resultset :: "lenient \<Rightarrow> json \<Rightarrow> int res" where
  "read_resultset lax j = (case j of JObj kvs \<Rightarrow>
       bind_res (check (no_extra_keys [(''count'', ''count'')] kvs)) (\<lambda>_.
       required kvs (''count'', ''count'') (\<lambda>j. bind_res (lx_int lax j) (at_least 0)))
     | _ \<Rightarrow> Inl ValidationError)"

definition read_parameter :: "json \<Rightarrow> (string \<times> string) list res" where
  "read_parameter j = (case j of JObj kvs \<Rightarrow> each_row (\<lambda>(k, v). bind_res (read_str v) (\<lambda>s. Inr (strip k, s))) kvs
     | _ \<Rightarrow> Inl ValidationError)"

definition metadata_fields :: "field_key list" where
  "metadata_fields = [(''title'', ''title''), (''status'', ''status''), (''message'', ''message''), (''resultset'', ''resultset''),
     (''parameter'', ''parameter''), (''processDateTime'', ''process_date_time'')]"

definition read_metadata :: "lenient \<Rightarrow> json \<Rightarrow> edinet_metadata res" where
  "read_metadata lax j = (case j of JObj kvs \<Rightarrow>
       bind_res (check (no_extra_keys metadata_fields kvs)) (\<lambda>_.
       bind_res (required kvs (''title'', ''title'') (read_str_in 1 None)) (\<lambda>title.
       bind_res (required kvs (''status'', ''status'') status_code) (\<lambda>st.
       bind_res (required kvs (''message'', ''message'') read_str) (\<lambda>message.
       bind_res (defaulted kvs (''resultset'', ''resultset'') (read_resultset lax)) (\<lambda>rs.
       bind_res (defaulted kvs (''parameter'', ''parameter'') read_parameter) (\<lambda>par.
       bind_res (defaulted kvs (''processDateTime'', ''process_date_time'') read_str) (\<lambda>pdt.
       Inr \<lparr>em_title = title, em_status = st, em_message = message, em_resultset = rs, em_parameter = par,
         em_process_date_time = pdt\<rparr>)))))))
     | _ \<Rightarrow> Inl ValidationError)"

record edinet_filing =
  sb_seq_number :: int
  sb_doc_id :: string
  sb_edinet_code :: string
  sb_sec_code :: "string option"
  sb_jcn :: "string option"
  sb_filer_name :: string
  sb_fund_code :: "string option"
  sb_ordinance_code :: string
  sb_form_code :: string
  sb_doc_type_code :: string
  sb_period_start :: "date option"
  sb_period_end :: "date option"
  sb_submit_date_time :: int
  sb_doc_description :: "string option"
  sb_issuer_edinet_code :: "string option"
  sb_subject_edinet_code :: "string option"
  sb_subsidiary_edinet_code :: "string option"
  sb_current_report_reason :: "string option"
  sb_parent_doc_id :: "string option"
  sb_ope_date_time :: "int option"
  sb_withdrawal_status :: string
  sb_doc_info_edit_status :: string
  sb_disclosure_status :: string
  sb_xbrl_flag :: bool
  sb_pdf_flag :: bool
  sb_attach_doc_flag :: bool
  sb_english_doc_flag :: bool
  sb_csv_flag :: bool
  sb_legal_status :: string

definition filing_fields :: "field_key list" where
  "filing_fields = [(''seqNumber'', ''seq_number''), (''docID'', ''doc_id''), (''edinetCode'', ''edinet_code''),
     (''secCode'', ''sec_code''), (''JCN'', ''jcn''), (''filerName'', ''filer_name''),
     (''fundCode'', ''fund_code''), (''ordinanceCode'', ''ordinance_code''), (''formCode'', ''form_code''),
     (''docTypeCode'', ''doc_type_code''), (''periodStart'', ''period_start''), (''periodEnd'', ''period_end''),
     (''submitDateTime'', ''submit_date_time''), (''docDescription'', ''doc_description''), (''issuerEdinetCode'', ''issuer_edinet_code''),
     (''subjectEdinetCode'', ''subject_edinet_code''), (''subsidiaryEdinetCode'', ''subsidiary_edinet_code''), (''currentReportReason'', ''current_report_reason''),
     (''parentDocID'', ''parent_doc_id''), (''opeDateTime'', ''ope_date_time''), (''withdrawalStatus'', ''withdrawal_status''),
     (''docInfoEditStatus'', ''doc_info_edit_status''), (''disclosureStatus'', ''disclosure_status''), (''xbrlFlag'', ''xbrl_flag''),
     (''pdfFlag'', ''pdf_flag''), (''attachDocFlag'', ''attach_doc_flag''), (''englishDocFlag'', ''english_doc_flag''),
     (''csvFlag'', ''csv_flag''), (''legalStatus'', ''legal_status'')]"

definition read_filing :: "lenient \<Rightarrow> json \<Rightarrow> edinet_filing res" where
  "read_filing lax j = (case j of JObj kvs \<Rightarrow>
       bind_res (check (no_extra_keys filing_fields kvs)) (\<lambda>_.
       bind_res (required kvs (''seqNumber'', ''seq_number'') (\<lambda>j. bind_res (lx_int lax j) (at_least 1))) (\<lambda>seq_number.
       bind_res (required kvs (''docID'', ''doc_id'') (read_str_in 1 (Some 20))) (\<lambda>doc_id.
       bind_res (required kvs (''edinetCode'', ''edinet_code'') (read_str_in 1 (Some 20))) (\<lambda>edinet_code.
       bind_res (blankable kvs (''secCode'', ''sec_code'') read_str) (\<lambda>sec_code.
       bind_res (blankable kvs (''JCN'', ''jcn'') read_str) (\<lambda>jcn.
       bind_res (required kvs (''filerName'', ''filer_name'') (read_str_in 1 None)) (\<lambda>filer_name.
       bind_res (blankable kvs (''fundCode'', ''fund_code'') read_str) (\<lambda>fund_code.
       bind_res (required kvs (''ordinanceCode'', ''ordinance_code'') (read_str_in 1 None)) (\<lambda>ordinance_code.
       bind_res (required kvs (''formCode'', ''form_code'') (read_str_in 1 None)) (\<lambda>form_code.
       bind_res (required kvs (''docTypeCode'', ''doc_type_code'') (read_str_in 1 None)) (\<lambda>doc_type_code.
       bind_res (blankable kvs (''periodStart'', ''period_start'') (lx_date lax)) (\<lambda>period_start.
       bind_res (blankable kvs (''periodEnd'', ''period_end'') (lx_date lax)) (\<lambda>period_end.
       bind_res (required kvs (''submitDateTime'', ''submit_date_time'') (lx_datetime lax)) (\<lambda>submit_date_time.
       bind_res (blankable kvs (''docDescription'', ''doc_description'') read_str) (\<lambda>doc_description.
       bind_res (blankable kvs (''issuerEdinetCode'', ''issuer_edinet_code'') read_str) (\<lambda>issuer_edinet_code.
       bind_res (blankable kvs (''subjectEdinetCode'', ''subject_edinet_code'') read_str) (\<lambda>subject_edinet_code.
       bind_res (blankable kvs (''subsidiaryEdinetCode'', ''subsidiary_edinet_code'') read_str) (\<lambda>subsidiary_edinet_code.
       bind_res (blankable kvs (''currentReportReason'', ''current_report_reason'') read_str) (\<lambda>current_report_reason.
       bind_res (blankable kvs (''parentDocID'', ''parent_doc_id'') read_str) (\<lambda>parent_doc_id.
       bind_res (defaulted kvs (''opeDateTime'', ''ope_date_time'') (lx_datetime lax)) (\<lambda>ope_date_time.
       bind_res (required kvs (''withdrawalStatus'', ''withdrawal_status'') (status_flag ''012'')) (\<lambda>withdrawal_status.
       bind_res (required kvs (''docInfoEditStatus'', ''doc_info_edit_status'') (status_flag ''012'')) (\<lambda>doc_info_edit_status.
       bind_res (required kvs (''disclosureStatus'', ''disclosure_status'') (status_flag ''0123'')) (\<lambda>disclosure_status.
       bind_res (required kvs (''xbrlFlag'', ''xbrl_flag'') read_flag) (\<lambda>xbrl_flag.
       bind_res (required kvs (''pdfFlag'', ''pdf_flag'') read_flag) (\<lambda>pdf_flag.
       bind_res (required kvs (''attachDocFlag'', ''attach_doc_flag'') read_flag) (\<lambda>attach_doc_flag.
       bind_res (required kvs (''englishDocFlag'', ''english_doc_flag'') read_flag) (\<lambda>english_doc_flag.
       bind_res (required kvs (''csvFlag'', ''csv_flag'') read_flag) (\<lambda>csv_flag.
       bind_res (required kvs (''legalStatus'', ''legal_status'') (status_flag ''012'')) (\<lambda>legal_status.
       Inr \<lparr>sb_seq_number = seq_number, sb_doc_id = doc_id, sb_edinet_code = edinet_code, sb_sec_code = sec_code,
         sb_jcn = jcn, sb_filer_name = filer_name, sb_fund_code = fund_code, sb_ordinance_code = ordinance_code,
         sb_form_code = form_code, sb_doc_type_code = doc_type_code, sb_period_start = period_start, sb_period_end = period_end,
         sb_submit_date_time = submit_date_time, sb_doc_description = doc_description, sb_issuer_edinet_code = issuer_edinet_code, sb_subject_edinet_code = subject_edinet_code,
         sb_subsidiary_edinet_code = subsidiary_edinet_code, sb_current_report_reason = current_report_reason, sb_parent_doc_id = parent_doc_id, sb_ope_date_time = ope_date_time,
         sb_withdrawal_status = withdrawal_status, sb_doc_info_edit_status = doc_info_edit_status, sb_disclosure_status = disclosure_status, sb_xbrl_flag = xbrl_flag,
         sb_pdf_flag = pdf_flag, sb_attach_doc_flag = attach_doc_flag, sb_english_doc_flag = english_doc_flag, sb_csv_flag = csv_flag,
         sb_legal_status = legal_status\<rparr>))))))))))))))))))))))))))))))
     | _ \<Rightarrow> Inl ValidationError)"

record edinet_listing =
  dl_metadata :: edinet_metadata
  dl_results :: "edinet_filing list"

text \<open>\<open>\_resultset\_count\_matches\_results\<close>, and the whole model.\<close>

definition validate_documents_list :: "edinet_listing \<Rightarrow> edinet_listing res" where
  "validate_documents_list l = bind_res (check (pred_option (\<lambda>n. n = int (length (dl_results l))) (em_resultset (dl_metadata l))))
     (\<lambda>_. Inr l)"

definition read_list :: "(json \<Rightarrow> 'a res) \<Rightarrow> json \<Rightarrow> 'a list res" where
  "read_list parse j = (case j of JList js \<Rightarrow> each_row parse js | _ \<Rightarrow> Inl ValidationError)"

definition read_documents_list :: "lenient \<Rightarrow> json \<Rightarrow> edinet_listing res" where
  "read_documents_list lax j = (case j of JObj kvs \<Rightarrow>
       bind_res (check (no_extra_keys [(''metadata'', ''metadata''), (''results'', ''results'')] kvs)) (\<lambda>_.
       bind_res (required kvs (''metadata'', ''metadata'') (read_metadata lax)) (\<lambda>m.
       bind_res (required kvs (''results'', ''results'') (read_list (read_filing lax))) (\<lambda>rs.
       validate_documents_list \<lparr>dl_metadata = m, dl_results = rs\<rparr>)))
     | _ \<Rightarrow> Inl ValidationError)"

section \<open>The client\<close>

text \<open>What the HTTP library gives back: a failure, or a response with its status, content type, content,
  and what its content decodes to.\<close>

datatype edinet_reply = Edinet_Failure
  | Edinet_Reply (reply_status: nat) (reply_type: "string option") (reply_content: string) (reply_json: "json option")

record 'w edinet_env =
  en_timer :: "'w timer"
  en_get :: "string \<Rightarrow> (string \<times> string) list \<Rightarrow> 'w \<Rightarrow> edinet_reply \<times> 'w"
  en_close :: "'w \<Rightarrow> 'w"
  en_lenient :: lenient
  en_api_key :: "string option"
  en_throttle :: rat
  en_base_url :: string

type_synonym ('w, 'a) edinet = "('w, 'a) throttled"    \<comment> \<open>\<open>\_last\_call\_at\<close> and the outside\<close>

definition edinet_key_from_env :: "(string \<Rightarrow> string option) \<Rightarrow> string \<Rightarrow> string res" where
  "edinet_key_from_env environ var = (let key = py_strip (case environ var of None \<Rightarrow> [] | Some k \<Rightarrow> k) in
     if key = [] then Inl edinet_error else Inr key)"

definition edinet_api_key :: "'w edinet_env \<Rightarrow> string res" where
  "edinet_api_key env = (case en_api_key env of None \<Rightarrow> Inl edinet_error
     | Some k \<Rightarrow> if k = [] then Inl edinet_error else Inr k)"

definition edinet_close :: "'w edinet_env \<Rightarrow> ('w, unit) edinet" where
  "edinet_close env = modify (\<lambda>(l, w). (l, en_close env w))"

text \<open>\<open>key in body and "message" in body\<close>; then the two error envelopes.\<close>

definition flat_error :: "(string \<times> json) list \<Rightarrow> string \<Rightarrow> bool" where
  "flat_error kvs key \<longleftrightarrow> key \<in> fst ` set kvs \<and> ''message'' \<in> fst ` set kvs"

definition metadata_error :: "json \<Rightarrow> unit res" where
  "metadata_error metadata = (case metadata of
     JObj m \<Rightarrow> (case map_of m ''status'' of None \<Rightarrow> Inr () | Some JNull \<Rightarrow> Inr ()
       | Some s \<Rightarrow> if s = JStr ''200'' then Inr () else Inl edinet_error)
   | _ \<Rightarrow> Inl AttributeError)"

definition raise_on_logical_error :: "json \<Rightarrow> unit res" where
  "raise_on_logical_error b = (case b of
     JObj kvs \<Rightarrow> if flat_error kvs ''StatusCode'' \<or> flat_error kvs ''statusCode'' then Inl edinet_error
       else metadata_error (case map_of kvs ''metadata'' of None \<Rightarrow> JObj [] | Some m \<Rightarrow> m)
   | JStr _ \<Rightarrow> Inl AttributeError
   | JList _ \<Rightarrow> Inl AttributeError
   | _ \<Rightarrow> Inl TypeError)"

definition edinet_fetch :: "'w edinet_env \<Rightarrow> string \<Rightarrow> (string \<times> string) list \<Rightarrow> ('w, edinet_reply) edinet" where
  "edinet_fetch env url params = seq (throttle_gate (en_timer env) (en_throttle env)) (\<lambda>_.
     seq (\<lambda>(l, w). case en_get env url params w of (r, w') \<Rightarrow> (Inr r, (l, w'))) (\<lambda>r. case r of
       Edinet_Failure \<Rightarrow> raise edinet_error | _ \<Rightarrow> ret r))"

definition edinet_get_json :: "'w edinet_env \<Rightarrow> string \<Rightarrow> (string \<times> string) list \<Rightarrow> ('w, json) edinet" where
  "edinet_get_json env url params = seq (edinet_fetch env url params) (\<lambda>r.
     if reply_status r \<noteq> 200 then raise edinet_error
     else case reply_json r of None \<Rightarrow> raise ValueError | Some j \<Rightarrow> ret j)"

definition documents_list :: "'w edinet_env \<Rightarrow> date \<Rightarrow> bool \<Rightarrow> ('w, edinet_listing) edinet" where
  "documents_list env day include_results = seq (lift_res (edinet_api_key env)) (\<lambda>key.
     seq (edinet_get_json env (en_base_url env @ ''/documents.json'') [(''date'', iso_date day),
       (''type'', if include_results then ''2'' else ''1''), (''Subscription-Key'', key)]) (\<lambda>b.
     seq (lift_res (raise_on_logical_error b)) (\<lambda>_. lift_res (read_documents_list (en_lenient env) b))))"

definition is_json_reply :: "edinet_reply \<Rightarrow> bool" where
  "is_json_reply r = (take 16 (case reply_type r of None \<Rightarrow> [] | Some t \<Rightarrow> t) = ''application/json'')"

definition download_document :: "'w edinet_env \<Rightarrow> string \<Rightarrow> int \<Rightarrow> ('w, string) edinet" where
  "download_document env doc_id doc_type = (if doc_type \<notin> {1, 2, 3, 4, 5} then raise ValueError
     else seq (lift_res (edinet_api_key env)) (\<lambda>key.
       seq (edinet_fetch env (en_base_url env @ ''/documents/'' @ doc_id)
         [(''type'', int_str doc_type), (''Subscription-Key'', key)]) (\<lambda>r.
       if is_json_reply r then (case reply_json r of None \<Rightarrow> raise ValueError
         | Some b \<Rightarrow> seq (lift_res (raise_on_logical_error b)) (\<lambda>_. raise edinet_error))
       else ret (reply_content r))))"

text \<open>What a listing of the EDINET client is worth, which answers it refuses and how its requests are spaced.\<close>

section \<open>Well-formed listings\<close>

definition flag_in :: "string \<Rightarrow> string \<Rightarrow> bool" where
  "flag_in allowed s \<longleftrightarrow> length s = 1 \<and> set s \<subseteq> set allowed"

definition filing_fields_ok :: "edinet_filing \<Rightarrow> bool" where
  "filing_fields_ok d \<longleftrightarrow> 1 \<le> sb_seq_number d \<and> len_in 1 20 (sb_doc_id d) \<and> len_in 1 20 (sb_edinet_code d) \<and>
     sb_filer_name d \<noteq> [] \<and> sb_ordinance_code d \<noteq> [] \<and> sb_form_code d \<noteq> [] \<and> sb_doc_type_code d \<noteq> [] \<and>
     flag_in ''012'' (sb_withdrawal_status d) \<and> flag_in ''012'' (sb_doc_info_edit_status d) \<and>
     flag_in ''0123'' (sb_disclosure_status d) \<and> flag_in ''012'' (sb_legal_status d)"

definition listing_ok :: "edinet_listing \<Rightarrow> bool" where
  "listing_ok l \<longleftrightarrow> em_title (dl_metadata l) \<noteq> [] \<and> length (em_status (dl_metadata l)) = 3 \<and>
     pred_option (\<lambda>n. n = int (length (dl_results l))) (em_resultset (dl_metadata l)) \<and> list_all filing_fields_ok (dl_results l)"

lemma required_Inr: "required kvs f parse = Inr x \<longleftrightarrow> (\<exists>j. map_of kvs (picked_key kvs f) = Some j \<and> parse j = Inr x)"
  by (auto simp: required_def split: option.split)

lemma read_str_in_Inr: "read_str_in lo hi j = Inr s \<Longrightarrow> lo \<le> length s \<and> pred_option (\<lambda>m. length s \<le> m) hi"
  by (auto simp: read_str_in_def bind_res_Inr_iff)

lemma status_flag_Inr: "status_flag allowed j = Inr s \<Longrightarrow> flag_in allowed s"
  by (auto simp: status_flag_def flag_in_def bind_res_Inr_iff)

lemma bind_res_InrE: "bind_res m f = Inr y \<Longrightarrow> (\<And>x. m = Inr x \<Longrightarrow> f x = Inr y \<Longrightarrow> P) \<Longrightarrow> P"
  by (auto simp: bind_res_Inr_iff)

lemma required_ranges:
  "required kvs f (read_str_in lo hi) = Inr s \<Longrightarrow> lo \<le> length s \<and> pred_option (\<lambda>m. length s \<le> m) hi"
  "required kvs f (status_flag allowed) = Inr s \<Longrightarrow> flag_in allowed s"
  "required kvs f (\<lambda>j. bind_res (g j) (at_least lo')) = Inr i \<Longrightarrow> lo' \<le> i"
  by (auto simp: required_Inr at_least_def bind_res_Inr_iff dest: read_str_in_Inr status_flag_Inr)

lemma read_filing_ok:
  assumes "read_filing lax j = Inr d"
  shows "filing_fields_ok d"
proof -
  obtain kvs where j: "j = JObj kvs" using assms by (cases j) (simp_all add: read_filing_def)
  from assms show ?thesis
    unfolding j read_filing_def json.case
    by (elim bind_res_InrE) (drule required_ranges, simp_all add: filing_fields_ok_def len_in_def, auto dest!: required_ranges)
qed

lemma read_metadata_ok: "read_metadata lax j = Inr m \<Longrightarrow> em_title m \<noteq> [] \<and> length (em_status m) = 3"
  by (cases j) (auto simp: read_metadata_def bind_res_Inr_iff required_Inr status_code_def dest!: read_str_in_Inr)

lemma read_documents_list_ok:
  assumes "read_documents_list lax j = Inr l"
  shows "\<exists>kvs js. j = JObj kvs \<and> map_of kvs ''results'' = Some (JList js) \<and> listing_ok l \<and>
    list_all2 (\<lambda>j d. read_filing lax j = Inr d) js (dl_results l)"
proof -
  obtain kvs where j: "j = JObj kvs" using assms by (cases j) (auto simp: read_documents_list_def)
  obtain m r rs where m: "read_metadata lax m = Inr (dl_metadata l)" and r: "map_of kvs ''results'' = Some r"
      and rs: "read_list (read_filing lax) r = Inr (dl_results l)"
      and n: "pred_option (\<lambda>n. n = int (length (dl_results l))) (em_resultset (dl_metadata l))"
    using assms unfolding j
    by (auto simp: read_documents_list_def bind_res_Inr_iff required_Inr validate_documents_list_def picked_key_def split: if_splits)
  obtain js where js: "r = JList js" "list_all2 (\<lambda>j d. read_filing lax j = Inr d) js (dl_results l)"
    using rs by (cases r) (auto simp: read_list_def each_row_Inr_iff)
  have "list_all filing_fields_ok (dl_results l)"
    using js(2) by (auto simp: list_all_length list_all2_conv_all_nth intro: read_filing_ok)
  with read_metadata_ok [OF m] n r j js show ?thesis by (auto simp: listing_ok_def)
qed

section \<open>Calls\<close>

lemma edinet_fetch_cases:
  assumes "edinet_fetch env url params s = (r, s')"
  obtains l w q w' where "throttle_gate (en_timer env) (en_throttle env) s = (Inr (), (l, w))" and "en_get env url params w = (q, w')"
    and "s' = (l, w')" and "r = (if q = Edinet_Failure then Inl edinet_error else Inr q)"
proof -
  obtain l w where gate: "throttle_gate (en_timer env) (en_throttle env) s = (Inr (), (l, w))"
    using throttle_gate_returns [of "en_timer env" "en_throttle env" s] by (metis prod.collapse)
  obtain q w' where get: "en_get env url params w = (q, w')" by (cases "en_get env url params w")
  show thesis
    using assms gate get by (intro that [OF gate get]) (auto simp: edinet_fetch_def seq_apply split: edinet_reply.splits)
qed

text \<open>The parameters of a request for the listing of a day.\<close>

definition listing_params :: "date \<Rightarrow> bool \<Rightarrow> string \<Rightarrow> (string \<times> string) list" where
  "listing_params day include_results key = [(''date'', iso_date day), (''type'', if include_results then ''2'' else ''1''),
     (''Subscription-Key'', key)]"

text \<open>An answer the service marks as a failure: its HTTP status, or an error envelope in it.\<close>

definition error_envelope :: "(string \<times> json) list \<Rightarrow> bool" where
  "error_envelope kvs \<longleftrightarrow>
     (\<exists>key\<in>{''StatusCode'', ''statusCode''}. map_of kvs key \<noteq> None) \<and> map_of kvs ''message'' \<noteq> None \<or>
     (\<exists>m s. map_of kvs ''metadata'' = Some (JObj m) \<and> map_of m ''status'' = Some s \<and> s \<notin> {JNull, JStr ''200''})"

definition marked_failure :: "edinet_reply \<Rightarrow> bool" where
  "marked_failure q \<longleftrightarrow> (case q of Edinet_Failure \<Rightarrow> True | Edinet_Reply st ty c b \<Rightarrow> st \<noteq> 200 \<or>
     (\<exists>kvs. b = Some (JObj kvs) \<and> error_envelope kvs))"

lemma error_envelope_raises: "error_envelope kvs \<Longrightarrow> raise_on_logical_error (JObj kvs) = Inl edinet_error"
  by (auto simp: error_envelope_def raise_on_logical_error_def flat_error_def metadata_error_def map_of_eq_None_iff split: json.split)

text \<open>C38. The listing of a day. The client asks once, with its key among the parameters. When the
  request fails, or the service marks its answer as a failure, the call raises \<open>EdinetError\<close>. A listing
  it returns was the answer, read field by field: as many documents, in the same order, as the answer
  has and as its metadata says, each with its identifiers and status flags in range.\<close>

theorem edinet_listing_sound:
  assumes "edinet_api_key env = Inr key" and "documents_list env day include_results s = (r, s')"
  shows "\<exists>w q. en_get env (en_base_url env @ ''/documents.json'') (listing_params day include_results key) w = (q, snd s') \<and>
    (marked_failure q \<longrightarrow> r = Inl edinet_error) \<and>
    (\<forall>l. r = Inr l \<longrightarrow> listing_ok l \<and> (\<exists>kvs js. reply_json q = Some (JObj kvs) \<and> map_of kvs ''results'' = Some (JList js) \<and>
       list_all2 (\<lambda>j d. read_filing (en_lenient env) j = Inr d) js (dl_results l)))"
proof -
  let ?url = "en_base_url env @ ''/documents.json''" and ?ps = "listing_params day include_results key"
  obtain f s1 where fetch: "edinet_fetch env ?url ?ps s = (f, s1)" by (cases "edinet_fetch env ?url ?ps s")
  from fetch obtain l w q w' where q: "en_get env ?url ?ps w = (q, w')" "s1 = (l, w')"
      and f: "f = (if q = Edinet_Failure then Inl edinet_error else Inr q)"
    by (rule edinet_fetch_cases)
  note run = assms(2) [unfolded documents_list_def edinet_get_json_def listing_params_def [symmetric]]
  show ?thesis
  proof (cases q)
    case Edinet_Failure
    with run fetch f assms(1) q show ?thesis
      by (intro exI [of _ w] exI [of _ q]) (auto simp: seq_apply lift_res_def)
  next
    case (Edinet_Reply st ty c b)
    show ?thesis
    proof (cases "st = 200 \<and> b \<noteq> None")
      case False
      with run fetch f assms(1) q Edinet_Reply show ?thesis
        by (intro exI [of _ w] exI [of _ q], cases "st = 200") (auto simp: seq_apply lift_res_def marked_failure_def)
    next
      case True
      then obtain j where b: "b = Some j" by auto
      have r: "r = bind_res (raise_on_logical_error j) (\<lambda>_. read_documents_list (en_lenient env) j)" and s': "s' = s1"
        using run fetch f assms(1) Edinet_Reply True b
        by (auto simp: seq_apply lift_res_def split: sum.splits)
      have "marked_failure q \<longrightarrow> r = Inl edinet_error"
        using True b by (auto simp: r marked_failure_def Edinet_Reply error_envelope_raises)
      moreover have "listing_ok l \<and> (\<exists>kvs js. reply_json q = Some (JObj kvs) \<and> map_of kvs ''results'' = Some (JList js) \<and>
          list_all2 (\<lambda>j d. read_filing (en_lenient env) j = Inr d) js (dl_results l))" if "r = Inr l" for l
        using that r read_documents_list_ok [of "en_lenient env" j l] by (auto simp: bind_res_Inr_iff Edinet_Reply b)
      ultimately show ?thesis using q s' by (intro exI [of _ w] exI [of _ q]) auto
    qed
  qed
qed

text \<open>The answer to a request for metadata alone has no \<open>results\<close>; it is always refused.\<close>

lemma metadata_only_refused:
  assumes "edinet_api_key env = Inr key" and "\<And>w. \<exists>w'. en_get env (en_base_url env @ ''/documents.json'') (listing_params day False key) w =
      (Edinet_Reply 200 ty c (Some (JObj [(''metadata'', m)])), w')"
    and "metadata_error m = Inr ()" and "read_metadata (en_lenient env) m = Inr md"
  shows "fst (documents_list env day False s) = Inl ValidationError"
proof -
  obtain l w where gate: "throttle_gate (en_timer env) (en_throttle env) s = (Inr (), (l, w))"
    using throttle_gate_returns [of "en_timer env" "en_throttle env" s] by (metis prod.collapse)
  obtain w' where get: "en_get env (en_base_url env @ ''/documents.json'') (listing_params day False key) w =
      (Edinet_Reply 200 ty c (Some (JObj [(''metadata'', m)])), w')"
    using assms(2) by blast
  have fine: "raise_on_logical_error (JObj [(''metadata'', m)]) = Inr ()"
    using assms(3) by (simp add: raise_on_logical_error_def flat_error_def)
  have "read_documents_list (en_lenient env) (JObj [(''metadata'', m)]) = Inl ValidationError"
    using assms(4) by (simp add: read_documents_list_def required_def picked_key_def no_extra_keys_def check_def)
  then show ?thesis using assms(1) gate get [unfolded listing_params_def] fine
    by (simp add: documents_list_def edinet_get_json_def edinet_fetch_def seq_apply lift_res_def)
qed

text \<open>A download hands out whatever is not JSON, without a look at the HTTP status.\<close>

lemma download_ignores_status:
  assumes "edinet_api_key env = Inr key" and "doc_type \<in> {1, 2, 3, 4, 5}"
    and "\<And>w. \<exists>w'. en_get env (en_base_url env @ ''/documents/'' @ doc_id) [(''type'', int_str doc_type), (''Subscription-Key'', key)] w =
      (Edinet_Reply st (Some ''text/html'') page b, w')"
  shows "fst (download_document env doc_id doc_type s) = Inr page"
proof -
  obtain l w where gate: "throttle_gate (en_timer env) (en_throttle env) s = (Inr (), (l, w))"
    using throttle_gate_returns [of "en_timer env" "en_throttle env" s] by (metis prod.collapse)
  obtain w' where get: "en_get env (en_base_url env @ ''/documents/'' @ doc_id) [(''type'', int_str doc_type), (''Subscription-Key'', key)] w =
      (Edinet_Reply st (Some ''text/html'') page b, w')"
    using assms(3) by blast
  show ?thesis using assms(1,2) gate get
    by (auto simp: download_document_def edinet_fetch_def seq_apply lift_res_def is_json_reply_def)
qed

text \<open>A service with one filing of the day.\<close>

definition filing_json :: json where
  "filing_json = JObj [(''seqNumber'', JInt 1), (''docID'', JStr ''S100ABCD''), (''edinetCode'', JStr ''E02144''),
     (''secCode'', JStr ''72030''), (''JCN'', JStr []), (''filerName'', JStr ''Toyota''), (''ordinanceCode'', JStr ''010''),
     (''formCode'', JStr ''030000''), (''docTypeCode'', JStr ''120''), (''periodStart'', JStr []),
     (''submitDateTime'', JStr ''2026-05-01 09:00''), (''withdrawalStatus'', JStr ''0''), (''docInfoEditStatus'', JStr ''0''),
     (''disclosureStatus'', JStr ''0''), (''xbrlFlag'', JStr ''1''), (''pdfFlag'', JStr ''1''), (''attachDocFlag'', JStr ''0''),
     (''englishDocFlag'', JStr ''0''), (''csvFlag'', JStr ''1''), (''legalStatus'', JStr ''1'')]"

definition listing_json :: json where
  "listing_json = JObj [(''metadata'', JObj [(''title'', JStr ''list''), (''status'', JStr ''200''), (''message'', JStr ''OK''),
       (''resultset'', JObj [(''count'', JInt 1)])]), (''results'', JList [filing_json])]"

definition sample_edinet :: "string list edinet_env" where
  "sample_edinet = \<lparr>en_timer = \<lparr>tm_monotonic = (\<lambda>w. (1, w)), tm_sleep = (\<lambda>d w. w)\<rparr>,
     en_get = (\<lambda>url params w. (Edinet_Reply 200 (Some ''application/json'') [] (Some listing_json), w @ [url])),
     en_close = (\<lambda>w. w), en_lenient = \<lparr>lx_int = (\<lambda>j. case j of JInt i \<Rightarrow> Inr i | _ \<Rightarrow> Inl ValidationError),
       lx_date = (\<lambda>j. Inl ValidationError), lx_datetime = (\<lambda>j. Inr 0)\<rparr>,
     en_api_key = Some ''key'', en_throttle = 1/10, en_base_url = ''https://edinet''\<rparr>"

lemma sample_listing:
  "map_sum id (\<lambda>l. map sb_doc_id (dl_results l)) (fst (documents_list sample_edinet 20574 True (0, []))) = Inr [''S100ABCD'']"
  by (code_simp, simp)

lemma edinet_listing_sound_witness:
  "\<exists>l. fst (documents_list sample_edinet 20574 True (0, [])) = Inr l \<and> listing_ok l \<and> map sb_doc_id (dl_results l) = [''S100ABCD'']"
proof -
  obtain r s' where run: "documents_list sample_edinet 20574 True (0, []) = (r, s')" by (rule prod.exhaust)
  have key: "edinet_api_key sample_edinet = Inr ''key''" by code_simp
  obtain l where l: "r = Inr l" "map sb_doc_id (dl_results l) = [''S100ABCD'']"
    using sample_listing by (cases r) (auto simp: run)
  have "listing_ok l" using edinet_listing_sound [OF key run] l(1) by blast
  with run l show ?thesis by simp
qed

end
