(* ===== verification/Traceability.thy ===== *)
theory Traceability
  imports Http
begin

text \<open>
  The traceability check of the repository (\<open>scripts/check\_traceability.py\<close>): it compares the
  requirements of \<open>registry.yaml\<close> with the tests on disk, both ways. The YAML parser, Python's parser and
  the file system are outside: a checkout gives the decoded registry and, for each path, what is there.
  Of a syntax tree the nodes that the check tells apart are kept. What goes to \<open>stderr\<close> is left out.
\<close>

section \<open>Syntax trees\<close>

datatype test_node =
    Def string "test_node list" "test_node list" "test_node list"
      \<comment> \<open>a function, an async function or a class: its name, the children before its decorators,
          the decorators, the children after them\<close>
  | Called test_node "test_node list" "test_node list" int    \<comment> \<open>func, args, keywords, lineno\<close>
  | Attr test_node string
  | Ident string
  | Literal "string option"                                   \<comment> \<open>the value, when it is a string\<close>
  | Node "test_node list"

fun kids :: "test_node \<Rightarrow> test_node list" where
  "kids (Def _ before decorators after) = before @ decorators @ after"
| "kids (Called func args keywords _) = func # args @ keywords"
| "kids (Attr v _) = [v]"
| "kids (Node ns) = ns"
| "kids _ = []"

text \<open>\<open>ast.walk\<close>: a queue, from which the first node is taken and to which its children are added.\<close>

lemma kids_size: "(\<Sum>m\<leftarrow>kids n. Suc (size m)) < Suc (size n)"
  by (cases n) (simp_all add: size_list_conv_sum_list sum_list_Suc)

function walk_queue :: "test_node list \<Rightarrow> test_node list" where
  "walk_queue [] = []"
| "walk_queue (n # queue) = n # walk_queue (queue @ kids n)"
  by pat_completeness auto
termination by (relation "measure (\<lambda>q. \<Sum>n\<leftarrow>q. Suc (size n))") (simp_all add: kids_size)

definition top_level_names :: "test_node list \<Rightarrow> string list" where
  "top_level_names stmts = List.map_filter (\<lambda>n. case n of Def name _ _ _ \<Rightarrow> Some name | _ \<Rightarrow> None) stmts"

definition is_pytest_mark :: "test_node \<Rightarrow> bool" where
  "is_pytest_mark n = (case n of Attr (Ident i) attr \<Rightarrow> attr = ''mark'' \<and> i = ''pytest'' | _ \<Rightarrow> False)"

text \<open>\<open>\_extract\_traces\_args\<close>.\<close>

definition traces_args :: "test_node \<Rightarrow> (string \<times> int) list" where
  "traces_args decorator = (case decorator of
     Called (Attr mark attr) args _ lineno \<Rightarrow> if attr = ''traces'' \<and> is_pytest_mark mark
       then List.map_filter (\<lambda>a. case a of Literal (Some v) \<Rightarrow> Some (v, lineno) | _ \<Rightarrow> None) args else []
   | _ \<Rightarrow> [])"

section \<open>The checkout\<close>

datatype test_source = Not_A_File | Unreadable | Undecodable | Unparsable | Module "test_node list"

datatype registry_file = No_Registry | Broken_Registry py_exn | Registry json

record checkout =
  ck_registry :: registry_file
  ck_at :: "string \<Rightarrow> test_source"                    \<comment> \<open>by path relative to the root\<close>
  ck_tests_dir :: bool
  ck_tests :: "(string \<times> test_source) list"           \<comment> \<open>the \<open>*.py\<close> under \<open>tests/\<close>, in any order\<close>

text \<open>\<open>\_parse\_test\_file\<close>; an undecodable file raises.\<close>

definition parse_test_file :: "test_source \<Rightarrow> test_node list option res" where
  "parse_test_file src = (case src of Module stmts \<Rightarrow> Inr (Some stmts) | Undecodable \<Rightarrow> Inl ValueError | _ \<Rightarrow> Inr None)"

definition system_exit :: py_exn where
  "system_exit = OtherError ''SystemExit''"

text \<open>\<open>load\_registry\<close>, and the list \<open>iter\_requirements\<close> goes over; entries that are no mappings are skipped.\<close>

definition load_registry :: "json \<Rightarrow> (string \<times> json) list res" where
  "load_registry data = (case data of
     JObj reg \<Rightarrow> if ''requirements'' \<in> fst ` set reg then Inr reg else Inl system_exit
   | _ \<Rightarrow> Inl system_exit)"

definition iter_requirements :: "(string \<times> json) list \<Rightarrow> (string \<times> json) list list res" where
  "iter_requirements reg = (case (case map_of reg ''requirements'' of None \<Rightarrow> JList [] | Some r \<Rightarrow> r) of
     JList es \<Rightarrow> Inr (List.map_filter (\<lambda>e. case e of JObj kvs \<Rightarrow> Some kvs | _ \<Rightarrow> None) es)
   | _ \<Rightarrow> Inl system_exit)"

text \<open>\<open>entry.get(key) or []\<close>.\<close>

definition get_or_empty :: "(string \<times> json) list \<Rightarrow> string \<Rightarrow> json" where
  "get_or_empty kvs key = (case map_of kvs key of None \<Rightarrow> JList [] | Some j \<Rightarrow> if json_truthy j then j else JList [])"

section \<open>Findings\<close>

record trace_findings =
  tf_missing_files :: "string list"
  tf_missing_names :: "string list"
  tf_orphan_traces :: "string list"
  tf_duplicate_ids :: "string list"
  tf_formalized_without_tests :: "string list"

definition no_findings :: trace_findings where
  "no_findings = \<lparr>tf_missing_files = [], tf_missing_names = [], tf_orphan_traces = [], tf_duplicate_ids = [],
     tf_formalized_without_tests = []\<rparr>"

definition missing_file :: "string \<Rightarrow> trace_findings \<Rightarrow> trace_findings" where
  "missing_file t f = f\<lparr>tf_missing_files := tf_missing_files f @ [t]\<rparr>"

definition missing_name :: "string \<Rightarrow> trace_findings \<Rightarrow> trace_findings" where
  "missing_name t f = f\<lparr>tf_missing_names := tf_missing_names f @ [t]\<rparr>"

definition orphan_trace :: "string \<Rightarrow> trace_findings \<Rightarrow> trace_findings" where
  "orphan_trace t f = f\<lparr>tf_orphan_traces := tf_orphan_traces f @ [t]\<rparr>"

definition duplicate_id :: "string \<Rightarrow> trace_findings \<Rightarrow> trace_findings" where
  "duplicate_id t f = f\<lparr>tf_duplicate_ids := tf_duplicate_ids f @ [t]\<rparr>"

definition formalized_without_tests :: "string \<Rightarrow> trace_findings \<Rightarrow> trace_findings" where
  "formalized_without_tests t f = f\<lparr>tf_formalized_without_tests := tf_formalized_without_tests f @ [t]\<rparr>"

definition findings_total :: "trace_findings \<Rightarrow> nat" where
  "findings_total f = length (tf_missing_files f) + length (tf_missing_names f) + length (tf_orphan_traces f) +
     length (tf_duplicate_ids f) + length (tf_formalized_without_tests f)"

definition report_section :: "string \<Rightarrow> string list \<Rightarrow> string list" where
  "report_section title entries = (if entries = [] then []
     else ([CHR 0x0A, CHR ''[''] @ title @ ''] ('' @ nat_str (length entries) @ '')'') # map (\<lambda>e. ''  - '' @ e) entries)"

definition findings_report :: "trace_findings \<Rightarrow> string" where
  "findings_report f = dropWhile (\<lambda>c. c = CHR 0x0A) (join [CHR 0x0A]
     (report_section ''duplicate REQ-IDs'' (tf_duplicate_ids f) @
      report_section ''missing test files'' (tf_missing_files f) @
      report_section ''missing test names'' (tf_missing_names f) @
      report_section ''orphan @pytest.mark.traces (not in registry)'' (tf_orphan_traces f) @
      report_section ''formalized REQ-IDs without tests'' (tf_formalized_without_tests f) @
      [if findings_total f = 0 then ''OK  registry <-> test-suite trace is consistent.''
       else CHR 0x0A # ''FAIL  '' @ nat_str (findings_total f) @ '' traceability finding(s).'']))"

section \<open>From the registry to the tests\<close>

definition single_quoted :: "string \<Rightarrow> string" where
  "single_quoted s = CHR 0x27 # s @ [CHR 0x27]"

type_synonym name_cache = "(string \<times> string list option) list"

definition resolve_names :: "checkout \<Rightarrow> string \<Rightarrow> name_cache \<Rightarrow> (string list option \<times> name_cache) res" where
  "resolve_names ck path cache = (case map_of cache path of Some names \<Rightarrow> Inr (names, cache)
     | None \<Rightarrow> bind_res (parse_test_file (ck_at ck path)) (\<lambda>tree.
         let names = map_option top_level_names tree in Inr (names, (path, names) # cache)))"

definition check_name :: "string \<Rightarrow> string \<Rightarrow> string list \<Rightarrow> json \<Rightarrow> trace_findings \<Rightarrow> trace_findings" where
  "check_name req_id path available name f = (case name of
     JStr n \<Rightarrow> if n \<in> set available then f
       else missing_name (req_id @ '': '' @ path @ ''::'' @ n @ '' (not a top-level FunctionDef / AsyncFunctionDef / ClassDef)'') f
   | _ \<Rightarrow> missing_name (req_id @ '': tests[].names contains non-string ('' @ path @ '')'') f)"

definition check_names :: "string \<Rightarrow> string \<Rightarrow> string list \<Rightarrow> json \<Rightarrow> trace_findings \<Rightarrow> trace_findings" where
  "check_names req_id path available names f = (case names of
     JList ns \<Rightarrow> fold (check_name req_id path available) ns f
   | _ \<Rightarrow> missing_name (req_id @ '': tests[].names is not a list ('' @ path @ '')'') f)"

definition check_test_block :: "checkout \<Rightarrow> string \<Rightarrow> json \<Rightarrow> trace_findings \<times> name_cache \<Rightarrow> (trace_findings \<times> name_cache) res" where
  "check_test_block ck req_id block fc = (case fc of (f, cache) \<Rightarrow> case block of
     JObj kvs \<Rightarrow> (case map_of kvs ''path'' of
       Some (JStr path) \<Rightarrow>
         if ck_at ck path = Not_A_File then Inr (missing_file (req_id @ '': '' @ path @ '' (file not found)'') f, cache)
         else bind_res (resolve_names ck path cache) (\<lambda>(available, cache). case available of
             None \<Rightarrow> Inr (missing_name (req_id @ '': '' @ path @ '' (failed to parse)'') f, cache)
           | Some av \<Rightarrow> Inr (check_names req_id path av (get_or_empty kvs ''names'') f, cache))
     | _ \<Rightarrow> Inr (missing_name (req_id @ '': tests[].path missing or not a string'') f, cache))
   | _ \<Rightarrow> Inr (missing_name (req_id @ '': tests[] entry is not a mapping'') f, cache))"

fun check_test_blocks :: "checkout \<Rightarrow> string \<Rightarrow> json list \<Rightarrow> trace_findings \<times> name_cache \<Rightarrow> (trace_findings \<times> name_cache) res" where
  "check_test_blocks ck req_id [] fc = Inr fc"
| "check_test_blocks ck req_id (b # bs) fc = bind_res (check_test_block ck req_id b fc) (check_test_blocks ck req_id bs)"

text \<open>One requirement that is not a duplicate.\<close>

definition check_requirement :: "checkout \<Rightarrow> string \<Rightarrow> (string \<times> json) list \<Rightarrow> trace_findings \<times> name_cache \<Rightarrow>
    (trace_findings \<times> name_cache) res" where
  "check_requirement ck req_id entry fc = (case fc of (f, cache) \<Rightarrow> case get_or_empty entry ''tests'' of
     JList tests \<Rightarrow> check_test_blocks ck req_id tests
       (if map_of entry ''status'' = Some (JStr ''formalized'') \<and> tests = []
        then formalized_without_tests (req_id @ '': status=formalized but tests: []'') f else f, cache)
   | _ \<Rightarrow> Inr (missing_name (req_id @ '': '' @ single_quoted ''tests'' @ '' field is not a list'') f, cache))"

text \<open>The loop of \<open>check\_forward\<close>; \<open>seen\<close> has the valid identifiers with their positions.\<close>

fun forward_loop :: "checkout \<Rightarrow> nat \<Rightarrow> (string \<times> nat) list \<Rightarrow> (string \<times> json) list list \<Rightarrow> trace_findings \<times> name_cache \<Rightarrow>
    (string list \<times> trace_findings) res" where
  "forward_loop ck index seen [] fc = Inr (map fst seen, fst fc)"
| "forward_loop ck index seen (entry # entries) fc = (case map_of entry ''id'' of
     Some (JStr req_id) \<Rightarrow> (case map_of seen req_id of
       Some first \<Rightarrow> forward_loop ck (Suc index) seen entries
         (duplicate_id (req_id @ '': appears at requirement #'' @ nat_str first @ '' and #'' @ nat_str index) (fst fc), snd fc)
     | None \<Rightarrow> bind_res (check_requirement ck req_id entry fc) (forward_loop ck (Suc index) ((req_id, index) # seen) entries))
   | _ \<Rightarrow> forward_loop ck (Suc index) seen entries
       (missing_file (''requirement #'' @ nat_str index @ '': missing or non-string '' @ single_quoted ''id'' @ '' field'') (fst fc), snd fc))"

definition check_forward :: "checkout \<Rightarrow> (string \<times> json) list \<Rightarrow> trace_findings \<Rightarrow> (string list \<times> trace_findings) res" where
  "check_forward ck reg f = bind_res (iter_requirements reg) (\<lambda>entries. forward_loop ck 1 [] entries (f, []))"

section \<open>From the tests to the registry\<close>

text \<open>The order of paths is the order of their parts.\<close>

fun path_parts :: "string \<Rightarrow> string list" where
  "path_parts [] = [[]]"
| "path_parts (c # cs) = (if c = CHR 0x2F then [] # path_parts cs else (c # hd (path_parts cs)) # tl (path_parts cs))"

definition sorted_tests :: "checkout \<Rightarrow> (string \<times> test_source) list" where
  "sorted_tests ck = sort_key (\<lambda>t. path_parts (fst t)) (ck_tests ck)"

type_synonym marker = "string \<times> string"    \<comment> \<open>REQ-ID and locator\<close>

definition node_markers :: "string \<Rightarrow> test_node \<Rightarrow> marker list" where
  "node_markers rel n = (case n of
     Def name _ decorators _ \<Rightarrow> map (\<lambda>(req_id, lineno). (req_id, rel @ '':'' @ int_str lineno @ '' ('' @ name @ '')''))
       (concat (map traces_args decorators))
   | _ \<Rightarrow> [])"

definition file_markers :: "string \<times> test_source \<Rightarrow> marker list res" where
  "file_markers file = bind_res (parse_test_file (snd file)) (\<lambda>tree. case tree of None \<Rightarrow> Inr []
     | Some stmts \<Rightarrow> Inr (concat (map (node_markers (fst file)) (walk_queue [Node stmts]))))"

definition note_marker :: "string list \<Rightarrow> marker \<Rightarrow> (string \<times> string list) list \<times> trace_findings \<Rightarrow>
    (string \<times> string list) list \<times> trace_findings" where
  "note_marker valid_ids m sf = (case (m, sf) of ((req_id, locator), (seen, f)) \<Rightarrow>
     (AList.update req_id ((case map_of seen req_id of None \<Rightarrow> [] | Some ls \<Rightarrow> ls) @ [locator]) seen,
      if req_id \<in> set valid_ids then f else orphan_trace (req_id @ '' marked at '' @ locator @ '' not in registry'') f))"

fun reverse_loop :: "string list \<Rightarrow> (string \<times> test_source) list \<Rightarrow> (string \<times> string list) list \<times> trace_findings \<Rightarrow>
    ((string \<times> string list) list \<times> trace_findings) res" where
  "reverse_loop valid_ids [] sf = Inr sf"
| "reverse_loop valid_ids (file # files) sf =
     bind_res (file_markers file) (\<lambda>ms. reverse_loop valid_ids files (fold (note_marker valid_ids) ms sf))"

definition check_reverse :: "checkout \<Rightarrow> string list \<Rightarrow> trace_findings \<Rightarrow> ((string \<times> string list) list \<times> trace_findings) res" where
  "check_reverse ck valid_ids f = (if ck_tests_dir ck then reverse_loop valid_ids (sorted_tests ck) ([], f) else Inr ([], f))"

section \<open>The command\<close>

text \<open>The exit status and the lines printed.\<close>

definition traceability_main :: "checkout \<Rightarrow> (int \<times> string list) res" where
  "traceability_main ck = (case ck_registry ck of
     No_Registry \<Rightarrow> Inr (2, [])
   | Broken_Registry e \<Rightarrow> Inl e
   | Registry data \<Rightarrow> bind_res (load_registry data) (\<lambda>reg.
       bind_res (check_forward ck reg no_findings) (\<lambda>(valid_ids, f).
       bind_res (check_reverse ck valid_ids f) (\<lambda>(seen, f).
       Inr (if findings_total f = 0 then 0 else 1,
         [''registry: '' @ nat_str (length valid_ids) @ '' unique REQ-IDs'',
          ''@pytest.mark.traces: '' @ nat_str (sum_list (map (length \<circ> snd) seen)) @ '' marker(s) covering '' @
            nat_str (length seen) @ '' REQ-ID(s)'', findings_report f])))))"

text \<open>
  What the traceability check decides: it reports success exactly when the registry and the tests
  agree, in the sense of \<open>registry_consistent\<close>, which mentions no loop, queue, cache or finding.
\<close>

section \<open>The specification\<close>

inductive nested :: "test_node \<Rightarrow> test_node \<Rightarrow> bool" where
  itself: "nested n n"
| inside: "k \<in> set (kids n) \<Longrightarrow> nested k m \<Longrightarrow> nested n m"

definition block_fine :: "checkout \<Rightarrow> json \<Rightarrow> bool" where
  "block_fine ck b \<longleftrightarrow> (\<exists>kvs path stmts ns. b = JObj kvs \<and> map_of kvs ''path'' = Some (JStr path) \<and>
     ck_at ck path = Module stmts \<and> get_or_empty kvs ''names'' = JList (map JStr ns) \<and>
     (\<forall>n\<in>set ns. \<exists>before decorators after. Def n before decorators after \<in> set stmts))"

definition requirement_fine :: "checkout \<Rightarrow> (string \<times> json) list \<Rightarrow> bool" where
  "requirement_fine ck e \<longleftrightarrow> (\<exists>tests. get_or_empty e ''tests'' = JList tests \<and>
     (map_of e ''status'' = Some (JStr ''formalized'') \<longrightarrow> tests \<noteq> []) \<and> (\<forall>b\<in>set tests. block_fine ck b))"

definition requirement_id :: "(string \<times> json) list \<Rightarrow> string option" where
  "requirement_id e = (case map_of e ''id'' of Some (JStr s) \<Rightarrow> Some s | _ \<Rightarrow> None)"

text \<open>A decorator \<open>@pytest.mark.traces("...")\<close> on a function or class anywhere in a test file.\<close>

definition marks_with :: "string \<Rightarrow> test_node \<Rightarrow> bool" where
  "marks_with rid d \<longleftrightarrow> (\<exists>args keywords line.
     d = Called (Attr (Attr (Ident ''pytest'') ''mark'') ''traces'') args keywords line \<and> Literal (Some rid) \<in> set args)"

definition marked :: "checkout \<Rightarrow> string \<Rightarrow> bool" where
  "marked ck rid \<longleftrightarrow> ck_tests_dir ck \<and> (\<exists>rel stmts name before decorators after d.
     (rel, Module stmts) \<in> set (ck_tests ck) \<and> nested (Node stmts) (Def name before decorators after) \<and>
     d \<in> set decorators \<and> marks_with rid d)"

definition registry_consistent :: "checkout \<Rightarrow> bool" where
  "registry_consistent ck \<longleftrightarrow> (\<exists>reg es. ck_registry ck = Registry (JObj reg) \<and> iter_requirements reg = Inr es \<and>
     (\<forall>e\<in>set es. requirement_id e \<noteq> None \<and> requirement_fine ck e) \<and> distinct (map requirement_id es) \<and>
     (\<forall>rid. marked ck rid \<longrightarrow> Some rid \<in> requirement_id ` set es))"

section \<open>The walk\<close>

lemma nested_iff: "nested n m \<longleftrightarrow> n = m \<or> (\<exists>k\<in>set (kids n). nested k m)"
  by (auto intro: nested.intros elim: nested.cases)

lemma set_walk_queue: "set (walk_queue q) = {m. \<exists>n\<in>set q. nested n m}"
proof (induction q rule: walk_queue.induct)
  case (2 n queue)
  then show ?case by (auto simp: nested_iff [of n])
qed simp

section \<open>Names and markers of a tree\<close>

lemma in_map_filter: "y \<in> set (List.map_filter f xs) \<longleftrightarrow> (\<exists>x\<in>set xs. f x = Some y)"
  by (induction xs) (auto simp: List.map_filter_simps split: option.split)

lemma node_cases:
  "(case n of Def name _ _ _ \<Rightarrow> Some name | _ \<Rightarrow> None) = Some m \<longleftrightarrow> (\<exists>before decorators after. n = Def m before decorators after)"
  "(case n of Literal (Some v) \<Rightarrow> Some (v, line) | _ \<Rightarrow> None) = Some (rid, l) \<longleftrightarrow> n = Literal (Some rid) \<and> l = line"
  "is_pytest_mark n \<longleftrightarrow> n = Attr (Ident ''pytest'') ''mark''"
  by (cases n; auto simp: is_pytest_mark_def split: option.split test_node.split)+

lemma set_top_level_names: "set (top_level_names stmts) = {n. \<exists>before decorators after. Def n before decorators after \<in> set stmts}"
  by (simp add: top_level_names_def in_map_filter node_cases set_eq_iff) blast

lemma names_defined: "set ns \<subseteq> set (top_level_names stmts) \<longleftrightarrow>
    (\<forall>n\<in>set ns. \<exists>before decorators after. Def n before decorators after \<in> set stmts)"
  by (auto simp: set_top_level_names)

lemma traces_args_marks: "(\<exists>line. (rid, line) \<in> set (traces_args d)) \<longleftrightarrow> marks_with rid d"
proof (cases "\<exists>mark attr args keywords line. d = Called (Attr mark attr) args keywords line")
  case True
  then show ?thesis by (auto simp: traces_args_def marks_with_def in_map_filter node_cases)
next
  case False
  then have "traces_args d = []" by (auto simp: traces_args_def split: test_node.split)
  with False show ?thesis by (auto simp: marks_with_def)
qed

section \<open>Findings\<close>

definition clean :: "trace_findings \<Rightarrow> bool" where
  "clean f \<longleftrightarrow> findings_total f = 0"

lemma clean_added [simp]:
  "\<not> clean (missing_file t f)" "\<not> clean (missing_name t f)" "\<not> clean (orphan_trace t f)" "\<not> clean (duplicate_id t f)"
  "\<not> clean (formalized_without_tests t f)" "clean no_findings"
  by (simp_all add: clean_def findings_total_def missing_file_def missing_name_def orphan_trace_def duplicate_id_def
    formalized_without_tests_def no_findings_def)

lemma clean_fold:
  assumes "\<And>x f. clean (g x f) \<longleftrightarrow> clean f \<and> P x"
  shows "clean (fold g xs f) \<longleftrightarrow> clean f \<and> (\<forall>x\<in>set xs. P x)"
  by (induction xs arbitrary: f) (auto simp: assms)

lemma clean_check_name: "clean (check_name rid path av name f) \<longleftrightarrow> clean f \<and> (\<exists>n. name = JStr n \<and> n \<in> set av)"
  by (auto simp: check_name_def split: json.split)

lemma all_strings: "(\<forall>j\<in>set js. \<exists>n. j = JStr n \<and> n \<in> A) \<longleftrightarrow> (\<exists>ns. js = map JStr ns \<and> set ns \<subseteq> A)"
proof
  assume "\<forall>j\<in>set js. \<exists>n. j = JStr n \<and> n \<in> A"
  then show "\<exists>ns. js = map JStr ns \<and> set ns \<subseteq> A"
  proof (induction js)
    case (Cons j js)
    then obtain n ns where "j = JStr n" "n \<in> A" "js = map JStr ns" "set ns \<subseteq> A" by auto
    then show ?case by (intro exI [of _ "n # ns"]) simp
  qed simp
qed (auto simp: subset_iff)

lemma clean_check_names:
  "clean (check_names rid path av names f) \<longleftrightarrow> clean f \<and> (\<exists>ns. names = JList (map JStr ns) \<and> set ns \<subseteq> set av)"
  by (cases names) (auto simp: check_names_def clean_fold [OF clean_check_name] all_strings)

section \<open>Forward\<close>

text \<open>The cache holds what parsing the file would give.\<close>

definition cache_true :: "checkout \<Rightarrow> name_cache \<Rightarrow> bool" where
  "cache_true ck cache \<longleftrightarrow> (\<forall>path names. map_of cache path = Some names \<longrightarrow>
     (\<exists>tree. parse_test_file (ck_at ck path) = Inr tree \<and> names = map_option top_level_names tree))"

lemma resolve_names_true:
  assumes "cache_true ck cache" and "resolve_names ck path cache = Inr (names, cache')"
  shows "cache_true ck cache'" and "\<exists>tree. parse_test_file (ck_at ck path) = Inr tree \<and> names = map_option top_level_names tree"
  using assms by (auto simp: resolve_names_def cache_true_def bind_res_Inr_iff Let_def split: option.splits if_splits)

lemma parse_test_file_Some: "parse_test_file src = Inr (Some stmts) \<longleftrightarrow> src = Module stmts"
  by (cases src) (auto simp: parse_test_file_def)

lemma parse_test_file_None: "parse_test_file src = Inr None \<Longrightarrow> src \<noteq> Module stmts"
  by (auto simp: parse_test_file_def)

lemma check_test_block_clean:
  assumes "cache_true ck cache" and "check_test_block ck rid b (f, cache) = Inr (f', cache')"
  shows "cache_true ck cache' \<and> (clean f' \<longleftrightarrow> clean f \<and> block_fine ck b)"
proof (cases "\<exists>kvs path. b = JObj kvs \<and> map_of kvs ''path'' = Some (JStr path) \<and> ck_at ck path \<noteq> Not_A_File")
  case False
  with assms show ?thesis
    by (auto simp: check_test_block_def block_fine_def split: json.splits option.splits if_splits)
next
  case True
  then obtain kvs path where b: "b = JObj kvs" "map_of kvs ''path'' = Some (JStr path)" "ck_at ck path \<noteq> Not_A_File" by auto
  then obtain names where names: "resolve_names ck path cache = Inr (names, cache')"
      and f': "f' = (case names of None \<Rightarrow> missing_name (rid @ '': '' @ path @ '' (failed to parse)'') f
        | Some av \<Rightarrow> check_names rid path av (get_or_empty kvs ''names'') f)"
    using assms(2) by (auto simp: check_test_block_def bind_res_Inr_iff split: option.splits)
  note true = resolve_names_true [OF assms(1) names]
  obtain tree where tree: "parse_test_file (ck_at ck path) = Inr tree" "names = map_option top_level_names tree"
    using true(2) by blast
  show ?thesis
  proof (cases tree)
    case None
    with tree b parse_test_file_None have "\<not> block_fine ck b" by (fastforce simp: block_fine_def)
    with true(1) tree None f' show ?thesis by simp
  next
    case (Some stmts)
    with tree(1) have "ck_at ck path = Module stmts" by (simp add: parse_test_file_Some)
    with true(1) tree Some f' b show ?thesis by (simp add: clean_check_names block_fine_def names_defined)
  qed
qed

lemma check_test_blocks_clean:
  "cache_true ck (snd fc) \<Longrightarrow> check_test_blocks ck rid bs fc = Inr fc' \<Longrightarrow>
    cache_true ck (snd fc') \<and> (clean (fst fc') \<longleftrightarrow> clean (fst fc) \<and> (\<forall>b\<in>set bs. block_fine ck b))"
proof (induction bs arbitrary: fc)
  case (Cons b bs)
  obtain f cache where fc: "fc = (f, cache)" by (cases fc)
  from Cons.prems(2) obtain f1 c1 where one: "check_test_block ck rid b (f, cache) = Inr (f1, c1)"
      and more: "check_test_blocks ck rid bs (f1, c1) = Inr fc'"
    by (auto simp: fc bind_res_Inr_iff)
  from check_test_block_clean [OF _ one] Cons.prems(1) have "cache_true ck c1" "clean f1 \<longleftrightarrow> clean f \<and> block_fine ck b"
    by (simp_all add: fc)
  with Cons.IH [OF _ more] show ?case by (auto simp: fc)
qed simp

lemma check_requirement_clean:
  assumes "cache_true ck (snd fc)" and "check_requirement ck rid e fc = Inr fc'"
  shows "cache_true ck (snd fc') \<and> (clean (fst fc') \<longleftrightarrow> clean (fst fc) \<and> requirement_fine ck e)"
proof -
  obtain f cache where fc: "fc = (f, cache)" by (cases fc)
  show ?thesis
  proof (cases "get_or_empty e ''tests''")
    case (JList tests)
    with assms show ?thesis
      by (auto simp: check_requirement_def fc requirement_fine_def dest!: check_test_blocks_clean [rotated] split: if_splits)
  qed (use assms in \<open>auto simp: check_requirement_def fc requirement_fine_def\<close>)
qed

text \<open>The loop over the requirements.\<close>

lemma forward_loop_clean:
  assumes "cache_true ck (snd fc)" and "forward_loop ck i seen es fc = Inr (ids, f')"
  shows "(clean f' \<longleftrightarrow> clean (fst fc) \<and> (\<forall>e\<in>set es. requirement_id e \<noteq> None \<and> requirement_fine ck e) \<and>
      distinct (map requirement_id es) \<and> requirement_id ` set es \<inter> Some ` fst ` set seen = {}) \<and>
    (clean f' \<longrightarrow> Some ` set ids = Some ` fst ` set seen \<union> requirement_id ` set es)"
  using assms
proof (induction es arbitrary: i seen fc)
  case (Cons e es)
  show ?case
  proof (cases "requirement_id e")
    case None
    then have "forward_loop ck (Suc i) seen es (missing_file (''requirement #'' @ nat_str i @ '': missing or non-string '' @ single_quoted ''id'' @ '' field'') (fst fc), snd fc) = Inr (ids, f')"
      using Cons.prems(2) by (auto simp: requirement_id_def split: option.splits json.splits)
    from Cons.IH [OF _ this] Cons.prems(1) have "\<not> clean f'" by simp
    with None show ?thesis by simp
  next
    case (Some rid)
    then have rid: "map_of e ''id'' = Some (JStr rid)" by (auto simp: requirement_id_def split: option.splits json.splits)
    show ?thesis
    proof (cases "map_of seen rid")
      case None
      with rid Cons.prems(2) obtain fc1 where one: "check_requirement ck rid e fc = Inr fc1"
          and more: "forward_loop ck (Suc i) ((rid, i) # seen) es fc1 = Inr (ids, f')"
        by (auto simp: bind_res_Inr_iff)
      from None have new: "rid \<notin> fst ` set seen" by (simp add: map_of_eq_None_iff)
      note first = check_requirement_clean [OF Cons.prems(1) one]
      let ?P = "\<forall>e\<in>set es. requirement_id e \<noteq> None \<and> requirement_fine ck e" and ?D = "distinct (map requirement_id es)"
        and ?N = "Some rid \<notin> requirement_id ` set es" and ?X = "requirement_id ` set es \<inter> Some ` fst ` set seen = {}"
      have others: "(clean f' \<longleftrightarrow> clean (fst fc1) \<and> ?P \<and> ?D \<and> requirement_id ` set es \<inter> insert (Some rid) (Some ` fst ` set seen) = {}) \<and>
        (clean f' \<longrightarrow> Some ` set ids = insert (Some rid) (Some ` fst ` set seen) \<union> requirement_id ` set es)"
        using Cons.IH [OF _ more] first by simp
      have ins: "requirement_id ` set es \<inter> insert (Some rid) (Some ` fst ` set seen) = {} \<longleftrightarrow> ?N \<and> ?X" by auto
      have iff: "clean f' \<longleftrightarrow> clean (fst fc) \<and> (requirement_fine ck e \<and> ?P) \<and> (?N \<and> ?D) \<and> ?X"
        using others [THEN conjunct1] first [THEN conjunct2] by (simp only: ins) blast
      have cons: "(\<forall>e\<in>set (e # es). requirement_id e \<noteq> None \<and> requirement_fine ck e) \<longleftrightarrow> requirement_fine ck e \<and> ?P"
        "distinct (map requirement_id (e # es)) \<longleftrightarrow> ?N \<and> ?D"
        "requirement_id ` set (e # es) \<inter> Some ` fst ` set seen = {} \<longleftrightarrow> ?X"
        using Some new by auto
      show ?thesis unfolding cons iff [symmetric] using others [THEN conjunct2] Some by auto
    next
      case dup: (Some k)
      with rid Cons.prems(2) have "forward_loop ck (Suc i) seen es
          (duplicate_id (rid @ '': appears at requirement #'' @ nat_str k @ '' and #'' @ nat_str i) (fst fc), snd fc) = Inr (ids, f')"
        by simp
      from Cons.IH [OF _ this] Cons.prems(1) have "\<not> clean f'" by simp
      moreover have "rid \<in> fst ` set seen" using dup by (force dest: map_of_SomeD)
      ultimately show ?thesis using Some by auto
    qed
  qed
qed force

section \<open>Reverse\<close>

lemma note_marker_clean: "clean (snd (note_marker valid m sf)) \<longleftrightarrow> clean (snd sf) \<and> fst m \<in> set valid"
  by (auto simp: note_marker_def split: prod.split)

lemma fold_markers_clean:
  "clean (snd (fold (note_marker valid) ms sf)) \<longleftrightarrow> clean (snd sf) \<and> (\<forall>m\<in>set ms. fst m \<in> set valid)"
  by (induction ms arbitrary: sf) (auto simp: note_marker_clean)

lemma reverse_loop_clean:
  "reverse_loop valid files sf = Inr sf' \<Longrightarrow>
    clean (snd sf') \<longleftrightarrow> clean (snd sf) \<and> (\<forall>file\<in>set files. \<forall>ms. file_markers file = Inr ms \<longrightarrow> fst ` set ms \<subseteq> set valid)"
proof (induction files arbitrary: sf)
  case (Cons x xs)
  then obtain ms where "file_markers x = Inr ms" "reverse_loop valid xs (fold (note_marker valid) ms sf) = Inr sf'"
    by (auto simp: bind_res_Inr_iff)
  with Cons.IH show ?case by (auto simp: fold_markers_clean subset_iff)
qed simp

lemma reverse_loop_reads: "reverse_loop valid files sf = Inr sf' \<Longrightarrow> \<forall>file\<in>set files. \<exists>ms. file_markers file = Inr ms"
  by (induction files arbitrary: sf) (simp_all add: bind_res_Inr_iff, blast)

text \<open>The identifiers of the markers of one file.\<close>

definition file_marks :: "string \<times> test_source \<Rightarrow> string \<Rightarrow> bool" where
  "file_marks file rid \<longleftrightarrow> (\<exists>stmts name before decorators after d. snd file = Module stmts \<and>
     nested (Node stmts) (Def name before decorators after) \<and> d \<in> set decorators \<and> marks_with rid d)"

lemma node_markers_ids: "rid \<in> fst ` set (node_markers rel n) \<longleftrightarrow>
    (\<exists>name before decorators after d. n = Def name before decorators after \<and> d \<in> set decorators \<and> marks_with rid d)"
  unfolding traces_args_marks [symmetric] by (cases n) (force simp: node_markers_def)+

lemma file_markers_ids: "file_markers file = Inr ms \<Longrightarrow> rid \<in> fst ` set ms \<longleftrightarrow> file_marks file rid"
proof -
  assume read: "file_markers file = Inr ms"
  then obtain tree where tree: "parse_test_file (snd file) = Inr tree" by (auto simp: file_markers_def bind_res_Inr_iff)
  show ?thesis
  proof (cases tree)
    case None
    with read tree parse_test_file_None show ?thesis by (fastforce simp: file_markers_def file_marks_def)
  next
    case (Some stmts)
    with tree have m: "snd file = Module stmts" by (simp add: parse_test_file_Some)
    from read tree Some have "ms = concat (map (node_markers (fst file)) (walk_queue [Node stmts]))"
      by (simp add: file_markers_def del: walk_queue.simps)
    moreover have "set (walk_queue [Node stmts]) = {n. nested (Node stmts) n}" using set_walk_queue [of "[Node stmts]"] by simp
    ultimately have "set ms = (\<Union>n\<in>{n. nested (Node stmts) n}. set (node_markers (fst file) n))"
      by (simp only: set_concat set_map image_image)
    then have "rid \<in> fst ` set ms \<longleftrightarrow> (\<exists>n. nested (Node stmts) n \<and> rid \<in> fst ` set (node_markers (fst file) n))"
      by (simp add: image_UN)
    then show ?thesis unfolding node_markers_ids file_marks_def m test_source.inject by blast
  qed
qed

lemma marked_iff: "marked ck rid \<longleftrightarrow> ck_tests_dir ck \<and> (\<exists>file\<in>set (ck_tests ck). file_marks file rid)"
  unfolding marked_def file_marks_def by (simp add: Bex_def split_paired_Ex) blast

lemma check_reverse_clean:
  assumes "check_reverse ck valid f = Inr (seen, f')"
  shows "clean f' \<longleftrightarrow> clean f \<and> (\<forall>rid. marked ck rid \<longrightarrow> rid \<in> set valid)"
proof (cases "ck_tests_dir ck")
  case True
  with assms have run: "reverse_loop valid (sorted_tests ck) ([], f) = Inr (seen, f')" by (simp add: check_reverse_def)
  have "set (sorted_tests ck) = set (ck_tests ck)" by (simp add: sorted_tests_def)
  with reverse_loop_clean [OF run] reverse_loop_reads [OF run] have
    "clean f' \<longleftrightarrow> clean f \<and> (\<forall>file\<in>set (ck_tests ck). \<forall>rid. file_marks file rid \<longrightarrow> rid \<in> set valid)"
    using file_markers_ids by (fastforce simp: subset_iff)
  with True show ?thesis by (auto simp: marked_iff)
qed (use assms in \<open>simp add: check_reverse_def marked_def\<close>)

section \<open>The verdict\<close>

text \<open>C34. The verdict. When the check ends, its exit status is 0 exactly when registry and tests agree:
  the identifiers are strings and distinct, a formalized requirement has tests, each test block names an
  existing file that parses and only functions and classes at its top level, and every marker on a
  function or class of a test file, however deep, names a requirement.\<close>

theorem traceability_exact:
  assumes "traceability_main ck = Inr (code, out)"
  shows "code = 0 \<longleftrightarrow> registry_consistent ck"
proof (cases "ck_registry ck")
  case (Registry data)
  with assms obtain reg ids f seen f' where load: "load_registry data = Inr reg"
      and fwd: "check_forward ck reg no_findings = Inr (ids, f)" and rev: "check_reverse ck ids f = Inr (seen, f')"
      and code: "code = (if clean f' then 0 else 1)"
    by (auto simp: traceability_main_def bind_res_Inr_iff clean_def)
  from load have data: "data = JObj reg" by (auto simp: load_registry_def split: json.splits if_splits)
  from fwd obtain es where es: "iter_requirements reg = Inr es" and loop: "forward_loop ck 1 [] es (no_findings, []) = Inr (ids, f)"
    by (auto simp: check_forward_def bind_res_Inr_iff)
  have "cache_true ck (snd (no_findings, []))" by (simp add: cache_true_def)
  from forward_loop_clean [OF this loop] have f: "clean f \<longleftrightarrow>
      (\<forall>e\<in>set es. requirement_id e \<noteq> None \<and> requirement_fine ck e) \<and> distinct (map requirement_id es)"
    and ids: "clean f \<Longrightarrow> Some ` set ids = requirement_id ` set es" by auto
  have "rid \<in> set ids \<longleftrightarrow> Some rid \<in> requirement_id ` set es" if "clean f" for rid
    using ids [OF that] by (metis image_iff option.inject)
  with check_reverse_clean [OF rev] f have "clean f' \<longleftrightarrow>
      (\<forall>e\<in>set es. requirement_id e \<noteq> None \<and> requirement_fine ck e) \<and> distinct (map requirement_id es) \<and>
      (\<forall>rid. marked ck rid \<longrightarrow> Some rid \<in> requirement_id ` set es)" by blast
  with code es data Registry show ?thesis by (simp add: registry_consistent_def)
qed (use assms in \<open>auto simp: traceability_main_def registry_consistent_def\<close>)

text \<open>A checkout with one requirement and its test, and one where the test has been renamed.\<close>

definition sample_test :: "string \<Rightarrow> test_node list" where
  "sample_test name = [Def name [] [Called (Attr (Attr (Ident ''pytest'') ''mark'') ''traces'') [Literal (Some ''REQ-1'')] [] 3] []]"

definition sample_checkout :: "string \<Rightarrow> checkout" where
  "sample_checkout name = \<lparr>ck_registry = Registry (JObj [(''requirements'', JList [JObj [(''id'', JStr ''REQ-1''),
       (''status'', JStr ''formalized''), (''tests'', JList [JObj [(''path'', JStr ''tests/t.py''), (''names'', JList [JStr ''test_a''])]])]])]),
     ck_at = (\<lambda>p. if p = ''tests/t.py'' then Module (sample_test name) else Not_A_File), ck_tests_dir = True,
     ck_tests = [(''tests/t.py'', Module (sample_test name))]\<rparr>"

lemma sample_verdicts: "map_sum id fst (traceability_main (sample_checkout ''test_a'')) = Inr 0"
  "map_sum id fst (traceability_main (sample_checkout ''test_b'')) = Inr 1"
  by code_simp+

lemma traceability_exact_witness:
  "registry_consistent (sample_checkout ''test_a'') \<and> \<not> registry_consistent (sample_checkout ''test_b'')"
proof
  obtain out where "traceability_main (sample_checkout ''test_a'') = Inr (0, out)"
    using sample_verdicts(1) by (cases "traceability_main (sample_checkout ''test_a'')") auto
  from traceability_exact [OF this] show "registry_consistent (sample_checkout ''test_a'')" by simp
  obtain out where "traceability_main (sample_checkout ''test_b'') = Inr (1, out)"
    using sample_verdicts(2) by (cases "traceability_main (sample_checkout ''test_b'')") auto
  from traceability_exact [OF this] show "\<not> registry_consistent (sample_checkout ''test_b'')" by simp
qed

end
