(* ===== verification/Spec2Isabelle.thy ===== *)
theory Spec2Isabelle
  imports Live_Properties Paper_Laws Cycle_Queue Loop_Detector Preflight Stream_Laws Entity_Samples Archive_Laws Lint_Laws
    Backtest_Samples Client_Samples Llm_Samples Trade_Socket Yfinance_Client Edinet_Client Traceability
begin

text \<open>
  CAQRS runs research cycles of language-model agents over a market: observe, hypothesise, doubt,
  plan, backtest, audit, decide. The decision passes a policy gateway and then a broker, paper or
  live. All paths below are under \<open>src/src/caqrs/\<close>.

  \<^bold>\<open>Conventions.\<close> Code that can raise after it has changed state is an effect
  \<open>('s, 'a) eff\<close> of \<open>Prelude\<close>: it takes the state and returns a value or an exception, with the
  state as the raise left it. Objects are records, dicts association lists in insertion order,
  enums datatypes, datetimes instants in microseconds (\<open>Naive\<close> or \<open>Aware\<close> where the code tests it),
  Python integers \<open>int\<close>. Code outside the repository is a parameter: the clock and the entropy source
  act on a world \<open>'w\<close>; \<open>sha256\<close>, the HTTP library, the websocket, the JSON codec of an event, the
  backtest executor and the price provider are arguments or fields of the object they
  are injected into. A listener of a component is an effect on the world that may raise.

  \<^bold>\<open>Parts, and the theories that model them.\<close>
  \<^item> \<open>Py_Decimal\<close>, \<open>Decimal_Text\<close>, \<open>Py_Float\<close>, \<open>Json\<close>, \<open>Json_Text\<close>: what the code uses of the Python
    library. Decimal arithmetic is computed exactly and rounded half-even to the precision of a
    context (28 digits in \<open>py_ctx\<close>); the locale \<open>rounding_ctx\<close> holds what the proofs need of rounding
    and is interpreted for \<open>py_ctx\<close> and for exact arithmetic. Infinities, NaN and the exponent limits
    occur only where text is read.
  \<^item> \<open>State_Machine\<close> (\<open>orchestrator/state.py\<close>, \<open>state_machine.py\<close>), \<open>Events\<close> and \<open>Event_Log\<close>
    (\<open>events.py\<close>, \<open>event_log.py\<close>), \<open>Budget\<close> (\<open>budget.py\<close>), \<open>Loop_Detector\<close>, \<open>Preflight\<close>
    (\<open>preflight.py\<close>, \<open>heartbeat.py\<close>): the services of a cycle.
  \<^item> \<open>Artifacts\<close>, \<open>Observer\<close> (\<open>schemas/\<close>): the artifacts of the agents with their validators, as
    functions that strip, check and return the record or \<open>ValidationError\<close>.
  \<^item> \<open>Policy\<close> (\<open>policy/\<close>): the gateway and the loss tracker.
  \<^item> \<open>Execution\<close>, \<open>Paper_Broker\<close> (\<open>execution/\<close>): reports, the broker contract (locale \<open>broker\<close>,
    interpreted by the paper broker) and the simulated account.
  \<^item> \<open>Alpaca_Rest\<close>, \<open>Journal\<close>, \<open>Trade_Stream\<close>, \<open>Live_Broker\<close> (\<open>execution/alpaca_rest.py\<close>,
    \<open>live_broker_journal.py\<close>, \<open>alpaca_stream.py\<close>, \<open>live_broker_alpaca.py\<close>): the venue client, the
    SQLite tables as rows with their constraints, the at-least-once stream of trade updates, and the
    broker with its approval gate, kill switch, loss cap, submission and rollback. \<open>Trade_Socket\<close>
    (\<open>alpaca\_websocket.py\<close>) is the transport under the stream: a loop over connections, with backoff,
    on a script of what each connection meets. The locale
    \<open>dedup_store\<close> is the contract of the two deduplicated tables.
  \<^item> \<open>Cycle_Runner\<close> (\<open>orchestrator/cycle_runner.py\<close>): one function per phase of \<open>run\<close>, each calling
    the next; \<open>Cycle_Queue\<close> (\<open>cycle_queue.py\<close>): every await point as a step of a machine.
  \<^item> \<open>Cycle_Archive\<close> (\<open>memory/cycle\_store.py\<close>): the store the runner saves a finished run to, as
    directories of files.
  \<^item> \<open>Cli_Creds\<close>, \<open>Providers\<close>, \<open>Llm_Agents\<close> (\<open>providers/\<close>, \<open>agents/\<close>): the logins other command line
    tools leave on disk or in the keychain, the requests and answers of the three model services, the
    registry that tries a list of providers, and the agents, with their prompts, that turn an answer
    into the artifact the runner asked for. The file system, the keychain, the HTTP library, pydantic and
    the dump of a payload are fields of the records these functions take.
  \<^item> \<open>Entity_Types\<close>, \<open>Entity_Store\<close>, \<open>Entity_Port\<close>, \<open>Reconciliation\<close> (\<open>entities/types.py\<close>,
    \<open>in_memory.py\<close>, \<open>protocol.py\<close>, \<open>resolver.py\<close>, \<open>reconciliation.py\<close>): issuers with their identifiers,
    market points, filings and relations; the resolver the cycle runner calls; the seed loaders. The
    locale \<open>entity_store\<close> is the protocol as a contract, interpreted by the in-memory store; the
    resolver and the loaders are proved against the contract.
  \<^item> \<open>Duck_Store\<close> (\<open>entities/duckdb.py\<close>): the second store behind the protocol, its tables as lists of
    rows and its statements as functions on them; what SQL leaves open is a parameter, the record
    \<open>engine\<close>.
  \<^item> \<open>Credential_Lint\<close> (\<open>lint/credential\_isolation.py\<close>): the syntax trees the lint walks, its
    collection of imports and environment reads, the breadth-first search and the audit. The parser is
    outside: a file is given with its tree, or with none where parsing fails.
  \<^item> \<open>Traceability\<close> (\<open>scripts/check\_traceability.py\<close>, beside \<open>src/caqrs\<close>): the comparison of the registry of
    requirements with the tests, both ways, and its report. The decoded registry and the syntax trees of
    the test files are given.
  \<^item> \<open>Float_Arith\<close>, \<open>Frames\<close>, \<open>Backtest\<close>, \<open>Signals\<close> (\<open>backtest/engine.py\<close>, \<open>providers.py\<close>,
    \<open>templates.py\<close>): the float arithmetic of the metrics, rounded to 53 bits, the data frames, the folds
    of a backtest and the signals of a strategy. polars is a parameter, a record of its column
    operations with the laws \<open>polars_ok\<close>; \<open>list_polars\<close> satisfies them.
  \<^item> \<open>Http\<close>, \<open>Py_Date\<close>, \<open>Rate_Limit\<close> (\<open>data/\_common/rate\_limit.py\<close>), \<open>Jquants_Client\<close>
    (\<open>data/jquants/client.py\<close>), \<open>Edinetdb_Client\<close> (\<open>data/edinetdb/client.py\<close>, \<open>quota.py\<close>, \<open>cache.py\<close>),
    \<open>Polymarket_Clob\<close>, \<open>Polymarket_Gamma\<close> (\<open>data/polymarket/\<close>), \<open>Yfinance_Client\<close> (\<open>data/yfinance/client.py\<close>,
    \<open>cache.py\<close>), \<open>Edinet_Client\<close> (\<open>data/edinet/client.py\<close>, \<open>schemas.py\<close>): the clients of the market data services,
    effects on a limiter or a cache and a world that holds the clock and the upstream; a taped world
    keeps what was sent and when. Numbers of seconds are rationals.
  \<^item> \<open>Observer_Signals\<close>, \<open>Polymarket_Gamma\<close> (the files \<open>observer\_signals.py\<close> of \<open>data/\<close>): what the
    Observer is told of prices, fundamentals, filings and prediction markets.

  \<^bold>\<open>What the lemmas show.\<close>
  \<^item> \<open>Cycle_Laws\<close>, \<open>Cycle_Safety\<close>, \<open>Cycle_Total\<close>, \<open>Cycle_Properties\<close> (C1 to C4): what a finished run
    has logged and what its artifacts prove, that no broker is reached before the gateway, and that a
    run returns when what it calls returns; what it is called with is the record \<open>cycle_contract\<close>.
  \<^item> \<open>Llm_Laws\<close>, \<open>Llm_Properties\<close> (C5 to C8): agents over the three providers are tame, so that C4
    applies to them; an agent answers with an artifact or with the error of its provider, and raises over
    an exhausted registry; the registry falls through the failures of its providers; nothing is sent on a missing or expired login.
  \<^item> \<open>Policy\<close> (C9), \<open>Paper_Laws\<close> (C10 to C12): the gateway lets a decision through unchanged or
    defers it; the paper account stays well formed and a rebalance reaches its targets.
  \<^item> \<open>Event_Log\<close>, \<open>State_Machine\<close>, \<open>Budget\<close>, \<open>Cycle_Queue\<close>, \<open>Loop_Detector\<close>, \<open>Preflight\<close> (C13, C14):
    replay of the log file, whitelisted chains, breaches logged once, serial dispatch in order of
    arrival, exact detector thresholds.
  \<^item> \<open>Archive_Laws\<close> (C15, C16): the archive refines a shelf of the last save under each id, and a run
    that ends can be read back from it.
  \<^item> \<open>Live_Laws\<close>, \<open>Live_Properties\<close> (C17 to C21): over every sequence of operations of the live
    broker, nothing reaches the venue without approval or while the kill switch is engaged, losses are
    capped, a rejected batch is undone, and the broker is a lawful port of the cycle runner.
  \<^item> \<open>Alpaca_Rest\<close>, \<open>Journal\<close>, \<open>Trade_Stream\<close>, \<open>Trade_Socket\<close>, \<open>Stream_Laws\<close> (C22 to C25): one order is one
    request; the socket yields the frames it was sent, across reconnects; each fill is booked once;
    redelivery is harmless; the log mirrors the journal.
  \<^item> \<open>Entity_Laws\<close>, \<open>Entity_Ops\<close>, \<open>Entity_Series\<close>, \<open>Reconciliation_Laws\<close> (C26 to C29): the identifier
    index is exact after any operations, a merge loses nothing, a series is the specified one, the
    loaders account for every row, a repeated row is a no-op, the paginated loader ends.
  \<^item> \<open>Duck_Laws\<close>, \<open>Duck_Reads\<close> (C30): the DuckDB store refines the in-memory store, operation by
    operation and query by query, and where the two differ.
  \<^item> \<open>Backtest_Laws\<close>, \<open>Signals_Laws\<close> (C31): a fold without ruin is reported with metrics in
    range, no return depends on a later price, a ranking holds the best tickers.
  \<^item> \<open>Lint_Laws\<close> (C32, C33): the chains found are shortest ones, the audit reports exactly the
    forbidden reads behind a boundary, and no read that is written out is missed.
  \<^item> \<open>Traceability\<close> (C34): the check succeeds exactly when registry and tests agree.
  \<^item> \<open>Jquants_Laws\<close>, \<open>Edinetdb_Laws\<close>, \<open>Yfinance_Client\<close>, \<open>Edinet_Client\<close> (C35 to C38): requests are spaced
    whatever the upstream answers, retries are bounded, listings are whole, the quota is overshot by less
    than the number of coroutines, the cache answers instead of the upstream, an exhausted quota is told
    from days without trade, a listing is well formed.
  \<^item> \<open>Snapshot_Laws\<close>, \<open>Polymarket_Laws\<close> (C39, C40): the price sources give the same snapshot, and the
    failures of single tokens do not lose a signal.
  \<^item> \<open>Cycle_Samples\<close>, \<open>Entity_Samples\<close>, \<open>Backtest_Samples\<close>, \<open>Client_Samples\<close>,
    \<open>Llm_Samples\<close> and the ends of the other theories hold the concrete inputs of the witnesses.

  \<^bold>\<open>Bounds and fuel.\<close> The loops that follow the pages of a source take fuel, since it may serve pages for
  ever: for the EDINET DB loader (\<open>edinetdb_pages_exhausted\<close>) two steps more than the full pages of a
  fixed catalogue are enough, for J-Quants (\<open>jquants_listing_complete\<close>) one step per page. Every
  other loop is a recursion over a list or a range.

  \<^bold>\<open>Not modelled.\<close> The HTTP API and the command lines other than \<open>confirm-live\<close> and the traceability
  check, which wire the parts above together, and the parsing of JSON into artifacts by pydantic. The SQL engines themselves: a
  table is a list of rows. The Polymarket archive, a wrapper of polars over the tables of a third
  party, and the other scripts, which run live services or git. Floats have no overflow, infinity or NaN in the
  backtest.
\<close>

end
